(* ===== verification/Prelude.thy ===== *)
theory Prelude
  imports Complex_Main "HOL-Library.State_Monad"
begin

section \<open>Shared notions: Go values, strings, floats and lists\<close>

text \<open>
  What every component of the model uses: the reading of Go's \<^verbatim>\<open>float64\<close>,
  \<^verbatim>\<open>time.Time\<close> and \<^verbatim>\<open>string\<close>, the functions of Go's \<^verbatim>\<open>strings\<close> package that the
  modelled code calls, and the collections of rules the component theories extend.

  \<^item> A \<^verbatim>\<open>string\<close> is its list of bytes (HOL \<open>char\<close>s).
  \<^item> A \<^verbatim>\<open>time.Time\<close> is its number of nanoseconds since 1970-01-01 UTC, a \<^verbatim>\<open>time.Duration\<close> a
    number of nanoseconds; both are unbounded here, and the one computation of the code where
    the 64-bit width matters (the webhook backoff) is modelled on words.
  \<^item> A \<^verbatim>\<open>float64\<close> is \<open>NaN\<close>, an infinity or a rational (every finite float is one): comparisons,
    the only operations the engines do on measurements, are then exact.
\<close>

named_theorems sql_simps \<open>equations of the statements of the data layer\<close>
named_theorems guarantee \<open>rules for guarantees of monadic code\<close>

subsection \<open>Times and durations\<close>

type_synonym time = int
type_synonym duration = int

definition nanosecond :: duration where "nanosecond = 1"
definition second :: duration where "second = 1000000000"
definition minute :: duration where "minute = 60 * second"
definition hour :: duration where "hour = 60 * minute"

lemmas duration_defs = nanosecond_def second_def minute_def hour_def

text \<open>Go's zero \<^verbatim>\<open>time.Time\<close> is January 1 of year 1.\<close>

definition zero_time :: time where "zero_time = - 62135596800 * second"

subsection \<open>Floats\<close>

datatype f64 = NaN | NInf | Fin rat | PInf

fun f_lt :: "f64 \<Rightarrow> f64 \<Rightarrow> bool" where
  "f_lt NaN b = False"
| "f_lt a NaN = False"
| "f_lt PInf b = False"
| "f_lt a NInf = False"
| "f_lt NInf b = True"
| "f_lt a PInf = True"
| "f_lt (Fin x) (Fin y) = (x < y)"

definition f_eq :: "f64 \<Rightarrow> f64 \<Rightarrow> bool" where
  "f_eq a b \<longleftrightarrow> a = b \<and> a \<noteq> NaN"

definition f_le :: "f64 \<Rightarrow> f64 \<Rightarrow> bool" where
  "f_le a b \<longleftrightarrow> f_lt a b \<or> f_eq a b"

lemma f_lt_irrefl [simp]: "\<not> f_lt a a"
  by (cases a) simp_all

lemma f_NaN [simp]:
  "\<not> f_lt a NaN" "\<not> f_eq NaN b" "\<not> f_eq a NaN" "\<not> f_le NaN b" "\<not> f_le a NaN"
  by (cases a; simp add: f_eq_def f_le_def)+

lemma f_lt_asym: "f_lt a b \<Longrightarrow> \<not> f_lt b a"
  by (cases a; cases b) auto

lemma f_total: "a \<noteq> NaN \<Longrightarrow> b \<noteq> NaN \<Longrightarrow> f_lt a b \<or> f_eq a b \<or> f_lt b a"
  by (cases a; cases b) (auto simp: f_eq_def)

lemma f_le_Fin [simp]: "f_le (Fin x) (Fin y) \<longleftrightarrow> x \<le> y"
  by (auto simp: f_le_def f_eq_def)

lemma f_eq_Fin [simp]: "f_eq (Fin x) (Fin y) \<longleftrightarrow> x = y"
  by (auto simp: f_eq_def)

subsection \<open>Strings\<close>

definition HasPrefix :: "string \<Rightarrow> string \<Rightarrow> bool" where
  "HasPrefix s p \<longleftrightarrow> take (length p) s = p"

definition TrimPrefix :: "string \<Rightarrow> string \<Rightarrow> string" where
  "TrimPrefix s p = (if HasPrefix s p then drop (length p) s else s)"

lemma HasPrefix_append [simp]: "HasPrefix (p @ s) p"
  by (simp add: HasPrefix_def)

lemma TrimPrefix_append [simp]: "TrimPrefix (p @ s) p = s"
  by (simp add: TrimPrefix_def)

lemma HasPrefix_length: "HasPrefix s p \<Longrightarrow> length p \<le> length s"
  by (metis HasPrefix_def length_take min.cobounded1)

text \<open>
  \<^verbatim>\<open>strings.TrimSpace\<close> removes the code points of Unicode property White_Space at both
  ends: their UTF-8 encodings are the byte sequences of \<open>space_seqs\<close>.
\<close>

definition space_seqs :: "string list" where
  "space_seqs =
     [[CHR 0x09],
      [CHR 0x0A],
      [CHR 0x0B],
      [CHR 0x0C],
      [CHR 0x0D],
      [CHR 0x20],
      [CHR 0xC2, CHR 0x85],
      [CHR 0xC2, CHR 0xA0],
      [CHR 0xE1, CHR 0x9A, CHR 0x80],
      [CHR 0xE2, CHR 0x80, CHR 0x80],
      [CHR 0xE2, CHR 0x80, CHR 0x81],
      [CHR 0xE2, CHR 0x80, CHR 0x82],
      [CHR 0xE2, CHR 0x80, CHR 0x83],
      [CHR 0xE2, CHR 0x80, CHR 0x84],
      [CHR 0xE2, CHR 0x80, CHR 0x85],
      [CHR 0xE2, CHR 0x80, CHR 0x86],
      [CHR 0xE2, CHR 0x80, CHR 0x87],
      [CHR 0xE2, CHR 0x80, CHR 0x88],
      [CHR 0xE2, CHR 0x80, CHR 0x89],
      [CHR 0xE2, CHR 0x80, CHR 0x8A],
      [CHR 0xE2, CHR 0x80, CHR 0xA8],
      [CHR 0xE2, CHR 0x80, CHR 0xA9],
      [CHR 0xE2, CHR 0x80, CHR 0xAF],
      [CHR 0xE2, CHR 0x81, CHR 0x9F],
      [CHR 0xE3, CHR 0x80, CHR 0x80]]"

function trim_left :: "string list \<Rightarrow> string \<Rightarrow> string" where
  "trim_left ps s = (case find (\<lambda>p. p \<noteq> [] \<and> HasPrefix s p) ps of
       None \<Rightarrow> s | Some p \<Rightarrow> trim_left ps (drop (length p) s))"
  by pat_completeness auto
termination
proof (relation "measure (\<lambda>(ps, s). length s)")
  fix ps s p
  assume "find (\<lambda>p. p \<noteq> [] \<and> HasPrefix s p) ps = Some p"
  then have "p \<noteq> [] \<and> HasPrefix s p" by (auto simp: find_Some_iff)
  then show "((ps, drop (length p) s), ps, s) \<in> measure (\<lambda>(ps, s). length s)"
    using HasPrefix_length [of s p] by (cases p; cases s) (auto simp: HasPrefix_def)
qed simp

declare trim_left.simps [simp del]

definition TrimSpace :: "string \<Rightarrow> string" where
  "TrimSpace s = rev (trim_left (map rev space_seqs) (rev (trim_left space_seqs s)))"

text \<open>
  \<^verbatim>\<open>strings.Split(s, sep)\<close> for a one-byte separator, and \<^verbatim>\<open>strings.ToLower\<close> on ASCII
  letters (the modelled code lowers operating-system names, header schemes and the names of accounts; the
  case mapping of other scripts is not modelled, and where it would matter the names are ASCII).
\<close>

fun split_on :: "char \<Rightarrow> string \<Rightarrow> string list" where
  "split_on c [] = [[]]"
| "split_on c (x # xs) =
     (if x = c then [] # split_on c xs
      else (case split_on c xs of [] \<Rightarrow> [[x]] | p # ps \<Rightarrow> (x # p) # ps))"

lemma split_on_nonempty [simp]: "split_on c s \<noteq> []"
  by (cases s) (auto split: list.splits)

lemma split_on_no_sep: "c \<notin> set s \<Longrightarrow> split_on c s = [s]"
  by (induction s) auto

lemma split_on_append_sep: "c \<notin> set s \<Longrightarrow> split_on c (s @ c # t) = s # split_on c t"
  by (induction s) auto

definition lower_char :: "char \<Rightarrow> char" where
  "lower_char c = (let n = of_char c :: nat in if 65 \<le> n \<and> n \<le> 90 then char_of (n + 32) else c)"

definition ToLower :: "string \<Rightarrow> string" where
  "ToLower = map lower_char"

text \<open>\<^verbatim>\<open>strings.ReplaceAll\<close> for a non-empty pattern: leftmost, non-overlapping.\<close>

function replace_all :: "string \<Rightarrow> string \<Rightarrow> string \<Rightarrow> string" where
  "replace_all s old new =
     (case s of [] \<Rightarrow> []
      | c # cs \<Rightarrow>
          if old \<noteq> [] \<and> HasPrefix s old then new @ replace_all (drop (length old) s) old new
          else c # replace_all cs old new)"
  by pat_completeness auto
termination
proof (relation "measure (\<lambda>(s, old, new). length s)")
  fix s old new :: string and c cs
  assume "s = c # cs" and "old \<noteq> [] \<and> HasPrefix s old"
  then show "((drop (length old) s, old, new), s, old, new) \<in> measure (\<lambda>(s, old, new). length s)"
    by (cases old) auto
qed auto

declare replace_all.simps [simp del]

lemma replace_all_absent:
  assumes "\<And>u v. s \<noteq> u @ old @ v"
  shows "replace_all s old new = s"
  using assms
proof (induction s)
  case Nil
  show ?case by (simp add: replace_all.simps)
next
  case (Cons c cs)
  have "\<not> HasPrefix (c # cs) old"
  proof
    assume "HasPrefix (c # cs) old"
    then have "c # cs = [] @ old @ drop (length old) (c # cs)"
      by (metis HasPrefix_def append_Nil append_take_drop_id)
    with Cons.prems show False by blast
  qed
  moreover have "\<And>u v. cs \<noteq> u @ old @ v"
    using Cons.prems by (metis append_Cons)
  ultimately show ?case
    using Cons.IH by (simp add: replace_all.simps [of "c # cs"])
qed

subsection \<open>Durations from text\<close>

text \<open>
  \<^verbatim>\<open>time.ParseDuration\<close>: an optional sign, then numbers with an optional fraction and a unit. A value
  above 2^63 ns is an error. Go computes the fraction in floating point; here it is the exact
  quotient, rounded down.
\<close>

definition is_digit :: "char \<Rightarrow> bool" where
  "is_digit c \<longleftrightarrow> (let n = of_char c :: nat in 48 \<le> n \<and> n \<le> 57)"

definition dec_val :: "string \<Rightarrow> int" where
  "dec_val s = foldl (\<lambda>v c. 10 * v + (int (of_char c) - 48)) 0 s"

fun fraction_digits :: "int \<Rightarrow> string \<Rightarrow> int \<times> nat" where
  "fraction_digits v [] = (v, 0)"
| "fraction_digits v (c # cs) =
     (let v' = 10 * v + (int (of_char c) - 48) in
      if v' > 2 ^ 63 then (v, 0)
      else (let (f, k) = fraction_digits v' cs in (f, Suc k)))"

definition unit_of :: "string \<Rightarrow> duration option" where
  "unit_of u =
     (if u = ''ns'' then Some 1
      else if u = ''us'' \<or> u = [CHR 0xC2, CHR 0xB5, CHR 0x73] \<or> u = [CHR 0xCE, CHR 0xBC, CHR 0x73] then Some 1000
      else if u = ''ms'' then Some 1000000
      else if u = ''s'' then Some second
      else if u = ''m'' then Some minute
      else if u = ''h'' then Some hour
      else None)"

function parse_units :: "int \<Rightarrow> string \<Rightarrow> int option" where
  "parse_units d s =
     (if s = [] then Some d
      else
        let ds = takeWhile is_digit s; r1 = dropWhile is_digit s;
            dot = (r1 \<noteq> [] \<and> hd r1 = CHR ''.'');
            r2 = (if dot then tl r1 else r1);
            fs = (if dot then takeWhile is_digit r2 else []);
            r3 = (if dot then dropWhile is_digit r2 else r2);
            u = takeWhile (\<lambda>c. c \<noteq> CHR ''.'' \<and> \<not> is_digit c) r3;
            r4 = dropWhile (\<lambda>c. c \<noteq> CHR ''.'' \<and> \<not> is_digit c) r3
        in
          if u = [] \<or> (ds = [] \<and> fs = []) \<or> dec_val ds > 2 ^ 63 then None
          else (case unit_of u of
             None \<Rightarrow> None
           | Some unit \<Rightarrow>
               let (f, k) = fraction_digits 0 fs;
                   v = dec_val ds * unit + (f * unit) div 10 ^ k in
               if dec_val ds > 2 ^ 63 div unit \<or> v > 2 ^ 63 \<or> d + v > 2 ^ 63 then None
               else parse_units (d + v) r4))"
  by pat_completeness auto
termination
proof (relation "measure (\<lambda>(d, s). length s)")
  fix d :: int and s ds r1 :: string and dot r2 fs r3 u r4 a p x y v
  assume "r1 = dropWhile is_digit s" and "r2 = (if dot then tl r1 else r1)"
    and "r3 = (if dot then dropWhile is_digit r2 else r2)"
    and u: "u = takeWhile (\<lambda>c. c \<noteq> CHR ''.'' \<and> \<not> is_digit c) r3"
    and r4: "r4 = dropWhile (\<lambda>c. c \<noteq> CHR ''.'' \<and> \<not> is_digit c) r3"
    and ne: "\<not> (u = [] \<or> ds = [] \<and> fs = [] \<or> 2 ^ 63 < dec_val ds)"
  then have "length r3 \<le> length s"
    using length_dropWhile_le [of is_digit s] length_dropWhile_le [of is_digit r2] by (auto split: if_splits)
  moreover have "length r3 = length u + length r4"
    unfolding u r4 by (metis length_append takeWhile_dropWhile_id)
  ultimately show "((d + v, r4), d, s) \<in> measure (\<lambda>(d, s). length s)" using ne by (cases u) auto
qed simp

declare parse_units.simps [simp del]

definition ParseDuration :: "string \<Rightarrow> duration option" where
  "ParseDuration s =
     (let neg = (s \<noteq> [] \<and> hd s = CHR ''-'');
          body = (if s \<noteq> [] \<and> (hd s = CHR ''-'' \<or> hd s = CHR ''+'') then tl s else s) in
      if body = ''0'' then Some 0
      else if body = [] then None
      else (case parse_units 0 body of
         None \<Rightarrow> None
       | Some d \<Rightarrow> if neg then Some (- d) else if d > 2 ^ 63 - 1 then None else Some d))"

subsection \<open>Lists\<close>

lemma find_None_iff_list: "find P xs = None \<longleftrightarrow> (\<forall>x\<in>set xs. \<not> P x)"
  by (auto simp: find_None_iff)

lemma find_SomeD: "find P xs = Some x \<Longrightarrow> x \<in> set xs \<and> P x"
  by (auto simp: find_Some_iff)

lemma find_distinct_key:
  assumes "distinct (map k xs)" and "x \<in> set xs"
  shows "find (\<lambda>y. k y = k x) xs = Some x"
  using assms by (induction xs) auto

lemma find_key_iff:
  assumes "distinct (map k xs)"
  shows "find (\<lambda>y. k y = i) xs = Some x \<longleftrightarrow> x \<in> set xs \<and> k x = i"
  using assms find_distinct_key [of k xs x] by (auto dest: find_SomeD)

lemma filter_key_le_1: "distinct (map k xs) \<Longrightarrow> length (filter (\<lambda>x. k x = c) xs) \<le> 1"
proof (induction xs)
  case (Cons x xs)
  then have "k y \<noteq> k x" if "y \<in> set xs" for y using that by (metis distinct.simps(2) imageI list.set_map list.simps(9))
  then have "filter (\<lambda>y. k y = k x) xs = []" by (simp add: filter_empty_conv)
  with Cons show ?case by auto
qed simp

lemma find_append:
  "find P (xs @ ys) = (case find P xs of None \<Rightarrow> find P ys | Some x \<Rightarrow> Some x)"
  by (induction xs) auto

text \<open>The monad's binds are evaluated by the rule of theory \<open>Effects\<close> instead of the library's.\<close>

declare State_Monad.run_state_bind [simp del] state_io_relI [rule del] state_io_relD [rule del]

end
