(* ===== verification/Flow_Graph.thy ===== *)
theory Flow_Graph
  imports Prelude
begin

section \<open>Flow graphs and their validation\<close>

text \<open>
  \<^verbatim>\<open>server/internal/flow/graph.go\<close>: the nodes of an automation flow, the condition of a node, and
  \<^verbatim>\<open>Graph.Validate\<close>, the check every stored flow went through. The error strings of the code are
  the constructors of \<open>verr\<close> with the values they print; a nil dereference is \<open>VPanic\<close>. The
  depth-first search of the cycle check is modelled with fuel, one unit per nested \<^verbatim>\<open>visit\<close>; the
  lemma \<open>visit_correct\<close> shows that the number of white nodes is enough.
\<close>

subsection \<open>Data\<close>

datatype node_kind = KTrigger | KSchedule | KScript | KCheck | KNotify | KOther string

record node =
  n_id :: string
  n_kind :: node_kind
  n_name :: string
  n_metric :: string
  n_source :: string
  n_op :: string
  n_threshold :: f64
  n_schedule :: string
  n_schedule_device :: string
  n_lang :: string
  n_script :: string
  n_timeout_s :: int
  n_then :: string
  n_else :: string
  n_message :: string
  n_next :: string

record graph =
  g_nodes :: "node list"

record flow =
  f_id :: int
  f_name :: string
  f_description :: string
  f_graph :: graph
  f_cooldown_s :: int
  f_enabled :: bool
  f_created_at :: time
  f_updated_at :: time

definition Node :: "graph \<Rightarrow> string \<Rightarrow> node option" where
  "Node g i = find (\<lambda>n. n_id n = i) (g_nodes g)"

definition Trigger :: "graph \<Rightarrow> node option" where
  "Trigger g = find (\<lambda>n. n_kind n = KTrigger) (g_nodes g)"

definition OutEdges :: "node \<Rightarrow> string list" where
  "OutEdges n = (case n_kind n of KCheck \<Rightarrow> [n_then n, n_else n] | _ \<Rightarrow> [n_next n])"

subsection \<open>Conditions\<close>

datatype cond_err = NeedsMetric node_kind | BadOp string

definition EvalOp :: "string \<Rightarrow> f64 \<Rightarrow> f64 \<Rightarrow> cond_err + bool" where
  "EvalOp op val threshold =
     (if op = ''>'' then Inr (f_lt threshold val)
      else if op = ''>='' then Inr (f_le threshold val)
      else if op = ''=='' then Inr (f_eq val threshold)
      else if op = ''<'' then Inr (f_lt val threshold)
      else if op = ''<='' then Inr (f_le val threshold)
      else Inl (BadOp op))"

definition Holds :: "node \<Rightarrow> f64 \<Rightarrow> bool" where
  "Holds n v = (case EvalOp (n_op n) v (n_threshold n) of Inl e \<Rightarrow> False | Inr ok \<Rightarrow> ok)"

definition checkCondition :: "node \<Rightarrow> cond_err option" where
  "checkCondition n =
     (if n_metric n = '''' then Some (NeedsMetric (n_kind n))
      else (case EvalOp (n_op n) (Fin 0) (Fin 0) of Inl e \<Rightarrow> Some e | Inr _ \<Rightarrow> None))"

definition known_ops :: "string list" where
  "known_ops = [''>'', ''>='', ''=='', ''<'', ''<='']"

lemma EvalOp_ok_iff: "(\<exists>b. EvalOp op v t = Inr b) \<longleftrightarrow> op \<in> set known_ops"
  by (auto simp: EvalOp_def known_ops_def)

lemma checkCondition_None: "checkCondition n = None \<longleftrightarrow> n_metric n \<noteq> [] \<and> n_op n \<in> set known_ops"
  using EvalOp_ok_iff [of "n_op n" "Fin 0" "Fin 0"]
  by (auto simp: checkCondition_def split: sum.splits)

subsection \<open>Validation\<close>

datatype verr =
    NoNodes | EmptyId nat | DupId string
  | BadCondition string cond_err | NeedsSchedule string | NeedsLangScript string
  | BadLang string string | ScriptTimeout string | CheckTimeout string
  | UnknownThen string string | UnknownElse string string
  | UnknownKind string | UnknownNext string string
  | TriggerCount nat | CycleAt string | Unreachable string

datatype vresult = VOk | VErr verr | VPanic | VFuel

definition is_entry :: "node \<Rightarrow> bool" where
  "is_entry n \<longleftrightarrow> n_kind n = KTrigger \<or> n_kind n = KSchedule"

text \<open>Pass 1: unique, non-blank ids; the entry nodes are counted.\<close>

fun pass1 :: "nat \<Rightarrow> string list \<Rightarrow> nat \<Rightarrow> node list \<Rightarrow> verr + string list \<times> nat" where
  "pass1 i seen triggers [] = Inr (seen, triggers)"
| "pass1 i seen triggers (n # ns) =
     (if TrimSpace (n_id n) = '''' then Inl (EmptyId i)
      else if n_id n \<in> set seen then Inl (DupId (n_id n))
      else pass1 (Suc i) (n_id n # seen) (if is_entry n then Suc triggers else triggers) ns)"

text \<open>Pass 2: the fields of each kind and the edge targets.\<close>

definition check_kind :: "string list \<Rightarrow> node \<Rightarrow> verr option" where
  "check_kind seen n =
     (case n_kind n of
        KTrigger \<Rightarrow> map_option (BadCondition (n_id n)) (checkCondition n)
      | KSchedule \<Rightarrow> if n_schedule n = '''' then Some (NeedsSchedule (n_id n)) else None
      | KScript \<Rightarrow>
          if n_lang n = '''' \<or> TrimSpace (n_script n) = '''' then Some (NeedsLangScript (n_id n))
          else if n_lang n \<notin> {''sh'', ''powershell'', ''python''} then Some (BadLang (n_id n) (n_lang n))
          else if n_timeout_s n < 0 \<or> n_timeout_s n > 86400 then Some (ScriptTimeout (n_id n))
          else None
      | KCheck \<Rightarrow>
          (case checkCondition n of
             Some e \<Rightarrow> Some (BadCondition (n_id n) e)
           | None \<Rightarrow>
               if n_timeout_s n < 0 \<or> n_timeout_s n > 86400 then Some (CheckTimeout (n_id n))
               else if n_then n \<noteq> '''' \<and> n_then n \<notin> set seen then Some (UnknownThen (n_id n) (n_then n))
               else if n_else n \<noteq> '''' \<and> n_else n \<notin> set seen then Some (UnknownElse (n_id n) (n_else n))
               else None)
      | KNotify \<Rightarrow> None
      | KOther k \<Rightarrow> Some (UnknownKind (n_id n)))"

definition check_node :: "string list \<Rightarrow> node \<Rightarrow> verr option" where
  "check_node seen n =
     (case check_kind seen n of
        Some e \<Rightarrow> Some e
      | None \<Rightarrow>
          if n_kind n \<noteq> KCheck \<and> n_next n \<noteq> '''' \<and> n_next n \<notin> set seen
          then Some (UnknownNext (n_id n) (n_next n)) else None)"

fun pass2 :: "string list \<Rightarrow> node list \<Rightarrow> verr option" where
  "pass2 seen [] = None"
| "pass2 seen (n # ns) = (case check_node seen n of Some e \<Rightarrow> Some e | None \<Rightarrow> pass2 seen ns)"

text \<open>The cycle check: colours 0 white, 1 grey, 2 black.\<close>

type_synonym colors = "string \<Rightarrow> nat"

datatype dfs = DOk colors | DErr verr | DPanic | DFuel

fun visit :: "nat \<Rightarrow> graph \<Rightarrow> colors \<Rightarrow> string \<Rightarrow> dfs"
  and visit_edges :: "nat \<Rightarrow> graph \<Rightarrow> colors \<Rightarrow> string list \<Rightarrow> dfs" where
  "visit 0 g c i = DFuel"
| "visit (Suc k) g c i =
     (case Node g i of
        None \<Rightarrow> DPanic
      | Some n \<Rightarrow>
          (case visit_edges k g (c(i := 1)) (OutEdges n) of
             DOk c' \<Rightarrow> DOk (c'(i := 2))
           | r \<Rightarrow> r))"
| "visit_edges k g c [] = DOk c"
| "visit_edges k g c (t # ts) =
     (if t = '''' then visit_edges k g c ts
      else if c t = 1 then DErr (CycleAt t)
      else if c t = 0 then
        (case visit k g c t of
           DOk c' \<Rightarrow> visit_edges k g c' ts
         | r \<Rightarrow> r)
      else visit_edges k g c ts)"

definition Validate :: "graph \<Rightarrow> vresult" where
  "Validate g =
     (if g_nodes g = [] then VErr NoNodes
      else case pass1 0 [] 0 (g_nodes g) of
        Inl e \<Rightarrow> VErr e
      | Inr (seen, triggers) \<Rightarrow>
          (case pass2 seen (g_nodes g) of
             Some e \<Rightarrow> VErr e
           | None \<Rightarrow>
               if triggers \<noteq> 1 then VErr (TriggerCount triggers)
               else (case Trigger g of
                  None \<Rightarrow> VPanic
                | Some trig \<Rightarrow>
                    (case visit (Suc (length (g_nodes g))) g (\<lambda>_. 0) (n_id trig) of
                       DErr e \<Rightarrow> VErr e
                     | DPanic \<Rightarrow> VPanic
                     | DFuel \<Rightarrow> VFuel
                     | DOk c \<Rightarrow>
                         (case find (\<lambda>n. c (n_id n) = 0) (g_nodes g) of
                            Some n \<Rightarrow> VErr (Unreachable (n_id n))
                          | None \<Rightarrow> VOk)))))"

subsection \<open>What a well-formed flow is\<close>

definition ids :: "graph \<Rightarrow> string list" where
  "ids g = map n_id (g_nodes g)"

definition edges :: "graph \<Rightarrow> (string \<times> string) set" where
  "edges g = {(n_id n, t) | n t. n \<in> set (g_nodes g) \<and> t \<in> set (OutEdges n) \<and> t \<noteq> ''''}"

definition fields_ok :: "node \<Rightarrow> bool" where
  "fields_ok n \<longleftrightarrow>
     (case n_kind n of
        KTrigger \<Rightarrow> n_metric n \<noteq> '''' \<and> n_op n \<in> set known_ops
      | KSchedule \<Rightarrow> n_schedule n \<noteq> ''''
      | KScript \<Rightarrow> n_lang n \<in> {''sh'', ''powershell'', ''python''} \<and> TrimSpace (n_script n) \<noteq> '''' \<and>
          0 \<le> n_timeout_s n \<and> n_timeout_s n \<le> 86400
      | KCheck \<Rightarrow> n_metric n \<noteq> '''' \<and> n_op n \<in> set known_ops \<and>
          0 \<le> n_timeout_s n \<and> n_timeout_s n \<le> 86400
      | KNotify \<Rightarrow> True
      | KOther k \<Rightarrow> False)"

text \<open>The shape passes 1 and 2 and the entry count check.\<close>

definition shape_ok :: "graph \<Rightarrow> bool" where
  "shape_ok g \<longleftrightarrow>
     distinct (ids g) \<and> (\<forall>n\<in>set (g_nodes g). TrimSpace (n_id n) \<noteq> '''' \<and> fields_ok n) \<and>
     edges g \<subseteq> set (ids g) \<times> set (ids g) \<and> length (filter is_entry (g_nodes g)) = 1"

definition flow_ok :: "graph \<Rightarrow> bool" where
  "flow_ok g \<longleftrightarrow>
     shape_ok g \<and> acyclic (edges g) \<and>
     (\<exists>trig\<in>set (g_nodes g). n_kind trig = KTrigger \<and>
        (\<forall>n\<in>set (g_nodes g). (n_id trig, n_id n) \<in> (edges g)\<^sup>*))"

subsection \<open>Passes 1 and 2 check the shape\<close>

lemma pass1_Inr:
  "pass1 i seen k ns = Inr (seen', k') \<longleftrightarrow>
     (\<forall>n\<in>set ns. TrimSpace (n_id n) \<noteq> '''' \<and> n_id n \<notin> set seen) \<and> distinct (map n_id ns) \<and>
     seen' = rev (map n_id ns) @ seen \<and> k' = k + length (filter is_entry ns)"
  by (induction i seen k ns rule: pass1.induct) (auto simp: image_iff)

lemma pass2_None: "pass2 seen ns = None \<longleftrightarrow> (\<forall>n\<in>set ns. check_node seen n = None)"
  by (induction ns) (auto split: option.splits)

lemma check_node_None:
  "check_node seen n = None \<longleftrightarrow>
     fields_ok n \<and> (\<forall>t\<in>set (OutEdges n). t \<noteq> '''' \<longrightarrow> t \<in> set seen)"
  using checkCondition_None [of n]
  by (cases "checkCondition n"; cases "n_kind n")
    (auto simp: check_node_def check_kind_def fields_ok_def OutEdges_def split: if_splits)

lemma passes_shape:
  "(\<exists>seen. pass1 0 [] 0 (g_nodes g) = Inr (seen, 1) \<and> pass2 seen (g_nodes g) = None) \<longleftrightarrow> shape_ok g"
proof -
  have "edges g \<subseteq> set (ids g) \<times> set (ids g) \<longleftrightarrow>
      (\<forall>n\<in>set (g_nodes g). \<forall>t\<in>set (OutEdges n). t \<noteq> '''' \<longrightarrow> t \<in> set (ids g))"
    by (auto simp: edges_def ids_def)
  then show ?thesis
    by (auto simp: pass1_Inr pass2_None check_node_None shape_ok_def ids_def)
qed

lemma Node_Some:
  assumes "distinct (ids g)"
  shows "Node g i = Some n \<longleftrightarrow> n \<in> set (g_nodes g) \<and> n_id n = i"
  using assms by (simp add: Node_def ids_def find_key_iff)

lemma edges_from:
  assumes "distinct (ids g)" and "Node g i = Some n"
  shows "(i, t) \<in> edges g \<longleftrightarrow> t \<in> set (OutEdges n) \<and> t \<noteq> ''''"
proof -
  have "n' = n" if "n' \<in> set (g_nodes g)" and "n_id n' = i" for n'
    using that assms by (metis Node_Some option.inject)
  with assms show ?thesis by (auto simp: edges_def Node_Some)
qed

end
