(* ===== verification/Effects.thy ===== *)
theory Effects
  imports Prelude
begin

section \<open>Effects: the database, the clock and the other sessions\<close>

text \<open>
  The engines of the server keep no state of their own: every decision reads Postgres and every
  change is one SQL statement or one transaction. This theory gives the monad their code is
  modelled in. A computation runs in a world (a record extending \<open>world\<close>) and meets its
  environment only at numbered interactions, the \<open>tick\<close>s:

  \<^item> a statement may succeed (\<open>DbOk\<close>), be refused with no effect (\<open>DbErr\<close>), or take effect while
    its acknowledgement is lost (\<open>DbLost\<close>): the schedule \<open>db_out\<close> of the environment decides;
  \<^item> before a statement runs, the other sessions (other handlers, the other replicas of a bus
    delivery, the API) may have changed the database: \<open>others\<close>;
  \<^item> \<open>clock\<close> is what \<^verbatim>\<open>time.Now()\<close> and SQL \<^verbatim>\<open>now()\<close> read.

  The environment is a parameter of every handler, and theorems quantify over it: a property holds
  for every fault schedule and every interference the others are allowed.
\<close>

subsection \<open>Worlds and environments\<close>

record world =
  tick :: nat

datatype db_out = DbOk | DbErr | DbLost

record 'w env =
  db_out :: "nat \<Rightarrow> db_out"
  clock :: "nat \<Rightarrow> time"
  others :: "nat \<Rightarrow> 'w \<Rightarrow> 'w"

text \<open>The errors a data-layer call can return.\<close>

datatype err = EDb | ENotFound | EUnique | EExt string

type_synonym ('w, 'a) m = "('w, 'a) state"
type_synonym 'a res = "err + 'a"

subsection \<open>Primitive interactions\<close>

definition reads :: "('w \<Rightarrow> 'a) \<Rightarrow> ('w, 'a) m" where
  "reads f = State (\<lambda>w. (f w, w))"

definition modifies :: "('w \<Rightarrow> 'w) \<Rightarrow> ('w, unit) m" where
  "modifies f = State (\<lambda>w. ((), f w))"

text \<open>A statement outside a transaction: first the others run, then it gets its outcome.\<close>

definition ask :: "('x world_scheme) env \<Rightarrow> ('x world_scheme, db_out) m" where
  "ask E = State (\<lambda>w. (db_out E (tick w), (others E (tick w) w)\<lparr>tick := Suc (tick w)\<rparr>))"

text \<open>Inside a transaction the rows it touches are locked: no interference until it ends.\<close>

definition ask_locked :: "('x world_scheme) env \<Rightarrow> ('x world_scheme, db_out) m" where
  "ask_locked E = State (\<lambda>w. (db_out E (tick w), w\<lparr>tick := Suc (tick w)\<rparr>))"

definition now :: "('x world_scheme) env \<Rightarrow> ('x world_scheme, time) m" where
  "now E = State (\<lambda>w. (clock E (tick w), w\<lparr>tick := Suc (tick w)\<rparr>))"

subsection \<open>Statements\<close>

text \<open>A \<^verbatim>\<open>SELECT\<close>: its rows, or an error.\<close>

definition query :: "('x world_scheme) env \<Rightarrow> ('x world_scheme \<Rightarrow> 'a) \<Rightarrow> ('x world_scheme, 'a res) m" where
  "query E f = do {
     out \<leftarrow> ask E;
     (case out of
        DbOk \<Rightarrow> reads (\<lambda>w. Inr (f w))
      | _ \<Rightarrow> State_Monad.return (Inl EDb))
   }"

text \<open>
  An autocommitted \<^verbatim>\<open>INSERT\<close>/\<^verbatim>\<open>UPDATE\<close>/\<^verbatim>\<open>DELETE\<close>: \<open>stmt\<close> gives what it returns (rows affected, a
  new id, or an error such as a violated constraint) and the world after it.
\<close>

definition exec :: "('x world_scheme) env \<Rightarrow> ('x world_scheme \<Rightarrow> 'a res \<times> 'x world_scheme) \<Rightarrow>
    ('x world_scheme, 'a res) m" where
  "exec E stmt = do {
     out \<leftarrow> ask E;
     (case out of
        DbOk \<Rightarrow> State stmt
      | DbErr \<Rightarrow> State_Monad.return (Inl EDb)
      | DbLost \<Rightarrow> do { r \<leftarrow> State stmt; State_Monad.return (Inl EDb) })
   }"

text \<open>A statement of a transaction. A failed one has no effect (and dooms the transaction).\<close>

definition tx_exec :: "('x world_scheme) env \<Rightarrow> ('x world_scheme \<Rightarrow> 'a res \<times> 'x world_scheme) \<Rightarrow>
    ('x world_scheme, 'a res) m" where
  "tx_exec E stmt = do {
     out \<leftarrow> ask_locked E;
     (case out of
        DbOk \<Rightarrow> State stmt
      | _ \<Rightarrow> State_Monad.return (Inl EDb))
   }"

definition tx_query :: "('x world_scheme) env \<Rightarrow> ('x world_scheme \<Rightarrow> 'a) \<Rightarrow> ('x world_scheme, 'a res) m" where
  "tx_query E f = do {
     out \<leftarrow> ask_locked E;
     (case out of
        DbOk \<Rightarrow> reads (\<lambda>w. Inr (f w))
      | _ \<Rightarrow> State_Monad.return (Inl EDb))
   }"

subsection \<open>Transactions\<close>

text \<open>
  The body of a transaction ends in a rollback with the function's result, or in a commit with the
  result as a function of the commit's error (\<open>None\<close>: committed). A rollback and a refused commit
  restore the tables; only the count of interactions stays.
\<close>

datatype 'r tx_end = Rollback 'r | Commit "err option \<Rightarrow> 'r"

definition run_tx :: "('x world_scheme) env \<Rightarrow> ('x world_scheme, 'r tx_end) m \<Rightarrow> ('x world_scheme, 'r) m" where
  "run_tx E body = State (\<lambda>w0.
     case run_state body w0 of
       (Rollback r, w1) \<Rightarrow> (r, w0\<lparr>tick := tick w1\<rparr>)
     | (Commit k, w1) \<Rightarrow>
         (case db_out E (tick w1) of
            DbOk \<Rightarrow> (k None, w1\<lparr>tick := Suc (tick w1)\<rparr>)
          | DbErr \<Rightarrow> (k (Some EDb), w0\<lparr>tick := Suc (tick w1)\<rparr>)
          | DbLost \<Rightarrow> (k (Some EDb), w1\<lparr>tick := Suc (tick w1)\<rparr>)))"

definition transaction :: "('x world_scheme) env \<Rightarrow> 'r \<Rightarrow> ('x world_scheme, 'r tx_end) m \<Rightarrow>
    ('x world_scheme, 'r) m" where
  "transaction E begin_failed body = do {
     out \<leftarrow> ask E;
     (case out of
        DbOk \<Rightarrow> run_tx E body
      | _ \<Rightarrow> State_Monad.return begin_failed)
   }"

subsection \<open>Evaluating computations\<close>

lemma run_return [simp]: "run_state (State_Monad.return a) w = (a, w)"
  by (simp add: State_Monad.return_def)

lemma run_bind [simp]:
  "run_state (State_Monad.bind m f) w =
     run_state (f (fst (run_state m w))) (snd (run_state m w))"
  by (simp add: State_Monad.bind_def split: prod.split)

lemma run_reads [simp]: "run_state (reads f) w = (f w, w)"
  by (simp add: reads_def)

lemma run_modifies [simp]: "run_state (modifies f) w = ((), f w)"
  by (simp add: modifies_def)

lemma run_now [simp]: "run_state (now E) w = (clock E (tick w), w\<lparr>tick := Suc (tick w)\<rparr>)"
  by (simp add: now_def)

lemma run_ask [simp]:
  "run_state (ask E) w = (db_out E (tick w), (others E (tick w) w)\<lparr>tick := Suc (tick w)\<rparr>)"
  by (simp add: ask_def)

lemma run_ask_locked [simp]:
  "run_state (ask_locked E) w = (db_out E (tick w), w\<lparr>tick := Suc (tick w)\<rparr>)"
  by (simp add: ask_locked_def)

text \<open>An environment in which everything succeeds, nobody interferes and the clock stands still.\<close>

definition calm :: "time \<Rightarrow> 'w env" where
  "calm t = \<lparr>db_out = (\<lambda>_. DbOk), clock = (\<lambda>_. t), others = (\<lambda>_ w. w)\<rparr>"

lemma calm_simps [simp]:
  "db_out (calm t) n = DbOk" "clock (calm t) n = t" "others (calm t) n w = w"
  by (simp_all add: calm_def)

lemma calm_query [sql_simps]:
  "run_state (query (calm t) f) w =
     (Inr (f (w\<lparr>tick := Suc (tick w)\<rparr>)), w\<lparr>tick := Suc (tick w)\<rparr>)"
  by (simp add: query_def)

lemma calm_exec [sql_simps]:
  "run_state (exec (calm t) stmt) w = stmt (w\<lparr>tick := Suc (tick w)\<rparr>)"
  by (simp add: exec_def)

subsection \<open>Guarantees\<close>

text \<open>
  A computation guarantees a relation \<open>R\<close> when every run of it relates the world before to the
  world after; the library's \<open>state_io_rel\<close> says so. An environment relies on \<open>R\<close> when the other
  sessions only make \<open>R\<close>-steps. The locale \<open>history\<close> is the interface: a relation that does not
  look at the tick and composes. Inside it the guarantee of a handler is the guarantee of
  its statements, whatever the faults and the interference.
\<close>

abbreviation guarantees :: "('w \<Rightarrow> 'w \<Rightarrow> bool) \<Rightarrow> ('w, 'a) m \<Rightarrow> bool" where
  "guarantees R c \<equiv> state_io_rel R c"

definition rely :: "('w \<Rightarrow> 'w \<Rightarrow> bool) \<Rightarrow> 'w env \<Rightarrow> bool" where
  "rely R E \<longleftrightarrow> (\<forall>n w. R w (others E n w))"

text \<open>What every result of a computation satisfies.\<close>

definition yields :: "('a \<Rightarrow> bool) \<Rightarrow> ('w, 'a) m \<Rightarrow> bool" where
  "yields Q c \<longleftrightarrow> (\<forall>w. Q (fst (run_state c w)))"

lemma yields_query: "(\<And>w. Q (Inr (f w))) \<Longrightarrow> Q (Inl EDb) \<Longrightarrow> yields Q (query E f)"
  by (simp add: yields_def query_def split: db_out.split)

lemma guaranteesD: "guarantees R c \<Longrightarrow> R w (snd (run_state c w))"
  by (simp add: state_io_rel_def)

lemma guaranteesI: "(\<And>w. R w (snd (run_state c w))) \<Longrightarrow> guarantees R c"
  by (simp add: state_io_rel_def)

locale history =
  fixes R :: "'x world_scheme \<Rightarrow> 'x world_scheme \<Rightarrow> bool"
  assumes ticks: "R w (w\<lparr>tick := n\<rparr>)"
    and trans: "R u v \<Longrightarrow> R v w \<Longrightarrow> R u w"
begin

lemma refl [simp]: "R w w"
  using ticks [of w "tick w"] by simp

lemma then_ticks: "R u v \<Longrightarrow> R u (v\<lparr>tick := n\<rparr>)"
  by (blast intro: trans ticks)

lemma return [guarantee]: "guarantees R (State_Monad.return a)"
  by (rule guaranteesI) simp

lemma bind [guarantee]:
  assumes "guarantees R c" and "\<And>a. guarantees R (f a)"
  shows "guarantees R (State_Monad.bind c f)"
proof (rule guaranteesI)
  fix w
  have "R w (snd (run_state c w))" by (rule guaranteesD [OF assms(1)])
  moreover have "R (snd (run_state c w))
      (snd (run_state (f (fst (run_state c w))) (snd (run_state c w))))"
    by (rule guaranteesD [OF assms(2)])
  ultimately show "R w (snd (run_state (State_Monad.bind c f) w))"
    by (auto intro: trans)
qed

lemma bind_yields:
  assumes "guarantees R c" and "yields Q c" and "\<And>a. Q a \<Longrightarrow> guarantees R (f a)"
  shows "guarantees R (State_Monad.bind c f)"
proof (rule guaranteesI)
  fix w
  have "R w (snd (run_state c w))" by (rule guaranteesD [OF assms(1)])
  moreover have "Q (fst (run_state c w))" using assms(2) by (simp add: yields_def)
  then have "R (snd (run_state c w))
      (snd (run_state (f (fst (run_state c w))) (snd (run_state c w))))"
    by (rule guaranteesD [OF assms(3)])
  ultimately show "R w (snd (run_state (State_Monad.bind c f) w))"
    by (auto intro: trans)
qed

lemma reads [guarantee]: "guarantees R (reads f)"
  by (rule guaranteesI) simp

lemma now [guarantee]: "guarantees R (now E)"
  by (rule guaranteesI) (simp add: ticks)

lemma ask: "rely R E \<Longrightarrow> guarantees R (ask E)"
  by (rule guaranteesI) (simp add: rely_def then_ticks)

lemma ask_locked: "guarantees R (ask_locked E)"
  by (rule guaranteesI) (simp add: ticks)

lemma query [guarantee]: "rely R E \<Longrightarrow> guarantees R (query E f)"
  unfolding query_def
  by (intro bind ask) (auto intro: return reads split: db_out.split)

lemma exec [guarantee]:
  assumes "rely R E" and "\<And>w. R w (snd (stmt w))"
  shows "guarantees R (exec E stmt)"
proof -
  have "guarantees R (State stmt)" by (rule guaranteesI) (simp add: assms)
  then show ?thesis
    unfolding exec_def using assms(1)
    by (intro bind ask) (auto intro!: return bind split: db_out.split)
qed

lemma tx_exec [guarantee]:
  assumes "\<And>w. R w (snd (stmt w))"
  shows "guarantees R (tx_exec E stmt)"
proof -
  have "guarantees R (State stmt)" by (rule guaranteesI) (simp add: assms)
  then show ?thesis
    unfolding tx_exec_def by (intro bind ask_locked) (auto intro!: return split: db_out.split)
qed

lemma tx_query [guarantee]: "guarantees R (tx_query E f)"
  unfolding tx_query_def by (intro bind ask_locked) (auto intro: return reads split: db_out.split)

lemma run_tx:
  assumes "guarantees R body"
  shows "guarantees R (run_tx E body)"
proof (rule guaranteesI)
  fix w
  obtain fin w1 where run: "run_state body w = (fin, w1)" by fastforce
  have "R w w1" using guaranteesD [OF assms, of w] run by simp
  then have "\<And>n. R w (w1\<lparr>tick := n\<rparr>)" by (rule then_ticks)
  then show "R w (snd (run_state (run_tx E body) w))"
    by (simp add: run_tx_def run ticks split: tx_end.split db_out.split)
qed

lemma transaction [guarantee]:
  "rely R E \<Longrightarrow> guarantees R body \<Longrightarrow> guarantees R (transaction E b body)"
  unfolding transaction_def
  by (intro bind ask) (auto intro: return run_tx split: db_out.split)

end

text \<open>
  Where a handler's later statements depend on what its earlier ones read, the guarantee is carried
  by assertions: from a world where \<open>P\<close> holds the computation makes an \<open>R\<close>-step and its result
  satisfies \<open>Q\<close> afterwards. An assertion survives interference when it is stable.
\<close>

definition ensures :: "('w \<Rightarrow> 'w \<Rightarrow> bool) \<Rightarrow> ('w \<Rightarrow> bool) \<Rightarrow> ('w, 'a) m \<Rightarrow> ('a \<Rightarrow> 'w \<Rightarrow> bool) \<Rightarrow> bool" where
  "ensures R P c Q \<longleftrightarrow>
     (\<forall>w. P w \<longrightarrow> R w (snd (run_state c w)) \<and> Q (fst (run_state c w)) (snd (run_state c w)))"

definition stable :: "('w \<Rightarrow> 'w \<Rightarrow> bool) \<Rightarrow> ('w \<Rightarrow> bool) \<Rightarrow> bool" where
  "stable R P \<longleftrightarrow> (\<forall>v w. P v \<longrightarrow> R v w \<longrightarrow> P w)"

lemma stableD: "stable R P \<Longrightarrow> P v \<Longrightarrow> R v w \<Longrightarrow> P w"
  by (auto simp: stable_def)

lemma ensures_guarantees: "ensures R (\<lambda>_. True) c Q \<Longrightarrow> guarantees R c"
  by (auto simp: ensures_def intro: guaranteesI)

lemma ensures_mono:
  "ensures R P c Q \<Longrightarrow> (\<And>w. P' w \<Longrightarrow> P w) \<Longrightarrow> (\<And>a w. Q a w \<Longrightarrow> Q' a w) \<Longrightarrow> ensures R P' c Q'"
  by (auto simp: ensures_def)

lemma ensures_if:
  "(b \<Longrightarrow> ensures R P c Q) \<Longrightarrow> (\<not> b \<Longrightarrow> ensures R P d Q) \<Longrightarrow> ensures R P (if b then c else d) Q"
  by simp

lemma ensures_sum:
  "(\<And>x. a = Inl x \<Longrightarrow> ensures R P (c x) Q) \<Longrightarrow> (\<And>x. a = Inr x \<Longrightarrow> ensures R P (d x) Q) \<Longrightarrow>
   ensures R P (case a of Inl x \<Rightarrow> c x | Inr x \<Rightarrow> d x) Q"
  by (cases a) simp_all

lemma ensures_list:
  "(a = [] \<Longrightarrow> ensures R P c Q) \<Longrightarrow> (\<And>x xs. a = x # xs \<Longrightarrow> ensures R P (d x xs) Q) \<Longrightarrow>
   ensures R P (case a of [] \<Rightarrow> c | x # xs \<Rightarrow> d x xs) Q"
  by (cases a) simp_all

context history
begin

lemma ensures_return: "(\<And>w. P w \<Longrightarrow> Q a w) \<Longrightarrow> ensures R P (State_Monad.return a) Q"
  by (simp add: ensures_def)

lemma ensures_bind:
  assumes "ensures R P c M" and "\<And>a. ensures R (M a) (f a) Q"
  shows "ensures R P (State_Monad.bind c f) Q"
  unfolding ensures_def
proof (intro allI impI)
  fix w assume "P w"
  let ?a = "fst (run_state c w)" and ?v = "snd (run_state c w)"
  have "R w ?v \<and> M ?a ?v" using assms(1) \<open>P w\<close> by (auto simp: ensures_def)
  moreover from this have "R ?v (snd (run_state (f ?a) ?v)) \<and>
      Q (fst (run_state (f ?a) ?v)) (snd (run_state (f ?a) ?v))"
    using assms(2) [of ?a] by (auto simp: ensures_def)
  ultimately show "R w (snd (run_state (State_Monad.bind c f) w)) \<and>
      Q (fst (run_state (State_Monad.bind c f) w)) (snd (run_state (State_Monad.bind c f) w))"
    by (auto intro: trans)
qed

lemma ensures_stable: "guarantees R c \<Longrightarrow> stable R P \<Longrightarrow> ensures R P c (\<lambda>_. P)"
  by (auto simp: ensures_def dest: guaranteesD intro: stableD)

lemma after_ask: "rely R E \<Longrightarrow> R w ((others E (tick w) w)\<lparr>tick := n\<rparr>)"
  by (simp add: rely_def then_ticks)

lemma ensures_query:
  assumes "rely R E" and "stable R P"
    and "\<And>w. P w \<Longrightarrow> Q (Inr (f w)) w" and "\<And>w. P w \<Longrightarrow> Q (Inl EDb) w"
  shows "ensures R P (query E f) Q"
  unfolding ensures_def
proof (intro allI impI)
  fix w assume "P w"
  have "R w ((others E (tick w) w)\<lparr>tick := Suc (tick w)\<rparr>)" by (rule after_ask [OF assms(1)])
  moreover from stableD [OF assms(2) \<open>P w\<close> this] have "P ((others E (tick w) w)\<lparr>tick := Suc (tick w)\<rparr>)" .
  ultimately show "R w (snd (run_state (query E f) w)) \<and>
      Q (fst (run_state (query E f) w)) (snd (run_state (query E f) w))"
    using assms(3,4) by (simp add: query_def split: db_out.split)
qed

lemma ensures_exec:
  assumes "rely R E" and "stable R P"
    and step: "\<And>w. P w \<Longrightarrow> R w (snd (stmt w))"
    and post: "\<And>w. P w \<Longrightarrow> Q (fst (stmt w)) (snd (stmt w))" "\<And>w. P w \<Longrightarrow> Q (Inl EDb) w"
      "\<And>w. P w \<Longrightarrow> Q (Inl EDb) (snd (stmt w))"
  shows "ensures R P (exec E stmt) Q"
  unfolding ensures_def
proof (intro allI impI)
  fix w assume "P w"
  let ?v = "(others E (tick w) w)\<lparr>tick := Suc (tick w)\<rparr>"
  have R: "R w ?v" by (rule after_ask [OF assms(1)])
  from stableD [OF assms(2) \<open>P w\<close> this] have "P ?v" .
  with R step [of ?v] post [of ?v] show "R w (snd (run_state (exec E stmt) w)) \<and>
      Q (fst (run_state (exec E stmt) w)) (snd (run_state (exec E stmt) w))"
    by (auto simp: exec_def intro: trans split: db_out.split)
qed

end

text \<open>Case splits of a handler, as rules of the collection \<open>guarantee\<close>.\<close>

lemma guarantees_if [guarantee]:
  "(b \<Longrightarrow> guarantees R c) \<Longrightarrow> (\<not> b \<Longrightarrow> guarantees R d) \<Longrightarrow> guarantees R (if b then c else d)"
  by simp

lemma guarantees_option [guarantee]:
  "guarantees R c \<Longrightarrow> (\<And>x. guarantees R (d x)) \<Longrightarrow>
   guarantees R (case a of None \<Rightarrow> c | Some x \<Rightarrow> d x)"
  by (simp split: option.split)

lemma guarantees_option_eq:
  "(a = None \<Longrightarrow> guarantees R c) \<Longrightarrow> (\<And>x. a = Some x \<Longrightarrow> guarantees R (d x)) \<Longrightarrow>
   guarantees R (case a of None \<Rightarrow> c | Some x \<Rightarrow> d x)"
  by (cases a) simp_all

lemma guarantees_sum [guarantee]:
  "(\<And>x. guarantees R (c x)) \<Longrightarrow> (\<And>x. guarantees R (d x)) \<Longrightarrow>
   guarantees R (case a of Inl x \<Rightarrow> c x | Inr x \<Rightarrow> d x)"
  by (simp split: sum.split)

lemma guarantees_bool [guarantee]:
  "guarantees R c \<Longrightarrow> guarantees R d \<Longrightarrow> guarantees R (case b of True \<Rightarrow> c | False \<Rightarrow> d)"
  by (simp split: bool.split)

lemma guarantees_prod [guarantee]:
  "(\<And>x y. guarantees R (c x y)) \<Longrightarrow> guarantees R (case a of (x, y) \<Rightarrow> c x y)"
  by (simp split: prod.split)

lemma guarantees_Let [guarantee]: "guarantees R (c a) \<Longrightarrow> guarantees R (let x = a in c x)"
  by (simp add: Let_def)

end
