(* ===== verification/Sql.thy ===== *)
theory Sql
  imports Effects
begin

section \<open>Tables and partial unique indexes\<close>

text \<open>
  A table is the list of its rows in insertion order (its \<^verbatim>\<open>bigserial\<close> ids grow). The code's
  statements are built from four operations: select the first row, update the rows that satisfy a
  \<^verbatim>\<open>WHERE\<close> clause, append a row, and append a row under a partial unique index
  (\<^verbatim>\<open>CREATE UNIQUE INDEX ... ON t (key) WHERE active\<close>), which refuses a second active row of a key.
\<close>

definition update_where :: "('r \<Rightarrow> bool) \<Rightarrow> ('r \<Rightarrow> 'r) \<Rightarrow> 'r list \<Rightarrow> 'r list" where
  "update_where P f rows = map (\<lambda>r. if P r then f r else r) rows"

definition affected :: "('r \<Rightarrow> bool) \<Rightarrow> 'r list \<Rightarrow> nat" where
  "affected P rows = length (filter P rows)"

definition uniq :: "('r \<Rightarrow> 'k) \<Rightarrow> ('r \<Rightarrow> bool) \<Rightarrow> 'r list \<Rightarrow> bool" where
  "uniq key active rows \<longleftrightarrow> distinct (map key (filter active rows))"

definition violates :: "('r \<Rightarrow> 'k) \<Rightarrow> ('r \<Rightarrow> bool) \<Rightarrow> 'r list \<Rightarrow> 'r \<Rightarrow> bool" where
  "violates key active rows r \<longleftrightarrow> active r \<and> (\<exists>r'\<in>set rows. active r' \<and> key r' = key r)"

subsection \<open>Updates\<close>

lemma update_where_Nil [simp]: "update_where P f [] = []"
  by (simp add: update_where_def)

lemma update_where_Cons [simp]:
  "update_where P f (r # rows) = (if P r then f r else r) # update_where P f rows"
  by (simp add: update_where_def)

lemma update_where_append: "update_where P f (xs @ ys) = update_where P f xs @ update_where P f ys"
  by (simp add: update_where_def)

lemma length_update_where [simp]: "length (update_where P f rows) = length rows"
  by (simp add: update_where_def)

lemma nth_update_where:
  "i < length rows \<Longrightarrow> update_where P f rows ! i = (if P (rows ! i) then f (rows ! i) else rows ! i)"
  by (simp add: update_where_def)

lemma set_update_where:
  "set (update_where P f rows) = (\<lambda>r. if P r then f r else r) ` set rows"
  by (simp add: update_where_def)

lemma map_update_where:
  "(\<And>r. P r \<Longrightarrow> k (f r) = k r) \<Longrightarrow> map k (update_where P f rows) = map k rows"
  by (simp add: update_where_def)

lemma affected_Nil [simp]: "affected P [] = 0"
  by (simp add: affected_def)

lemma affected_Cons [simp]: "affected P (r # rows) = (if P r then Suc (affected P rows) else affected P rows)"
  by (simp add: affected_def)

lemma affected_0_iff: "affected P rows = 0 \<longleftrightarrow> (\<forall>r\<in>set rows. \<not> P r)"
  by (simp add: affected_def filter_empty_conv)

lemma update_where_none: "affected P rows = 0 \<Longrightarrow> update_where P f rows = rows"
  by (induction rows) (auto split: if_splits)

lemma find_update_where:
  assumes "\<And>r. P r \<Longrightarrow> k (f r) = k r"
  shows "find (\<lambda>r. k r = i) (update_where P f rows) =
    map_option (\<lambda>r. if P r then f r else r) (find (\<lambda>r. k r = i) rows)"
  using assms by (induction rows) auto

lemma update_where_again:
  assumes "\<And>r. P r \<Longrightarrow> \<not> P (f r)"
  shows "affected P (update_where P f rows) = 0"
  using assms by (induction rows) auto

subsection \<open>Partial unique indexes\<close>

lemma uniq_Nil [simp]: "uniq key active []"
  by (simp add: uniq_def)

lemma uniq_append:
  "uniq key active (rows @ [r]) \<longleftrightarrow> uniq key active rows \<and> \<not> violates key active rows r"
  by (auto simp: uniq_def violates_def image_iff)

lemma uniq_append_inactive: "\<not> active r \<Longrightarrow> uniq key active (rows @ [r]) = uniq key active rows"
  by (simp add: uniq_def)

text \<open>An update that revives no row and moves no live row to another key keeps the index.\<close>

lemma uniq_update_where:
  assumes "uniq key active rows"
    and keeps: "\<And>r. r \<in> set rows \<Longrightarrow> P r \<Longrightarrow> active (f r) \<Longrightarrow> active r \<and> key (f r) = key r"
  shows "uniq key active (update_where P f rows)"
  using assms
proof (induction rows)
  case Nil
  show ?case by simp
next
  case (Cons r rows)
  let ?r = "if P r then f r else r"
  have tail: "uniq key active (update_where P f rows)"
    using Cons by (auto simp: uniq_def split: if_splits)
  have sub: "key ` {x \<in> set (update_where P f rows). active x} \<subseteq> key ` {x \<in> set rows. active x}"
    using Cons.prems(2) by (auto simp: set_update_where split: if_splits)
  show ?case
  proof (cases "active ?r")
    case True
    then have "active r" and "key ?r = key r"
      using Cons.prems(2) [of r] by (auto split: if_splits)
    with Cons.prems(1) have "key ?r \<notin> key ` {x \<in> set rows. active x}"
      by (auto simp: uniq_def)
    with sub have "key ?r \<notin> key ` {x \<in> set (update_where P f rows). active x}" by blast
    with tail True show ?thesis by (auto simp: uniq_def)
  next
    case False
    with tail show ?thesis by (auto simp: uniq_def)
  qed
qed

lemma uniq_two_rows:
  assumes "uniq key active rows" and "i < length rows" and "j < length rows"
    and "active (rows ! i)" and "active (rows ! j)" and "key (rows ! i) = key (rows ! j)"
  shows "i = j"
  using assms
proof (induction rows arbitrary: i j)
  case Nil
  then show ?case by simp
next
  case (Cons r rows)
  have tail: "uniq key active rows" and
    fresh: "active r \<Longrightarrow> \<forall>x\<in>set rows. active x \<longrightarrow> key x \<noteq> key r"
    using Cons.prems(1) by (auto simp: uniq_def image_iff split: if_splits)
  show ?case
  proof (cases i; cases j)
    fix i' j' assume "i = Suc i'" and "j = Suc j'"
    with Cons.prems Cons.IH [OF tail, of i' j'] show ?thesis by simp
  next
    fix j' assume "i = 0" and "j = Suc j'"
    with Cons.prems fresh show ?thesis using nth_mem [of j' rows] by auto
  next
    fix i' assume "i = Suc i'" and "j = 0"
    with Cons.prems fresh show ?thesis using nth_mem [of i' rows] by auto
  qed simp
qed

subsection \<open>A log that only grows\<close>

definition extends :: "'a list \<Rightarrow> 'a list \<Rightarrow> bool" where
  "extends xs ys \<longleftrightarrow> take (length xs) ys = xs"

lemma extends_refl [simp]: "extends xs xs"
  by (simp add: extends_def)

lemma extends_append [simp]: "extends xs (xs @ ys)"
  by (simp add: extends_def)

lemma extends_iff: "extends xs ys \<longleftrightarrow> (\<exists>zs. ys = xs @ zs)"
  unfolding extends_def by (metis append_eq_conv_conj append_take_drop_id)

lemma extends_trans: "extends xs ys \<Longrightarrow> extends ys zs \<Longrightarrow> extends xs zs"
  by (auto simp: extends_iff)

lemma extends_set: "extends xs ys \<Longrightarrow> set xs \<subseteq> set ys"
  by (auto simp: extends_iff)

subsection \<open>Rows over time\<close>

text \<open>
  \<open>rows_evolve step rows rows'\<close>: no row is deleted or reordered, each one went through \<open>step\<close>
  (a reflexive, transitive relation on rows), and new rows came after them.
\<close>

definition rows_evolve :: "('r \<Rightarrow> 'r \<Rightarrow> bool) \<Rightarrow> 'r list \<Rightarrow> 'r list \<Rightarrow> bool" where
  "rows_evolve step rows rows' \<longleftrightarrow>
     length rows \<le> length rows' \<and> (\<forall>i<length rows. step (rows ! i) (rows' ! i))"

lemma rows_evolve_refl: "(\<And>r. step r r) \<Longrightarrow> rows_evolve step rows rows"
  by (simp add: rows_evolve_def)

lemma rows_evolve_trans:
  assumes "\<And>a b c. step a b \<Longrightarrow> step b c \<Longrightarrow> step a c"
    and "rows_evolve step xs ys" and "rows_evolve step ys zs"
  shows "rows_evolve step xs zs"
  using assms(2,3) by (auto simp: rows_evolve_def intro: assms(1))

lemma rows_evolve_append: "(\<And>r. step r r) \<Longrightarrow> rows_evolve step rows (rows @ new)"
  by (simp add: rows_evolve_def nth_append)

lemma rows_evolve_update:
  "(\<And>r. step r r) \<Longrightarrow> (\<And>r. P r \<Longrightarrow> step r (f r)) \<Longrightarrow> rows_evolve step rows (update_where P f rows)"
  by (simp add: rows_evolve_def nth_update_where)

subsection \<open>The newest row\<close>

text \<open>\<^verbatim>\<open>ORDER BY ts DESC LIMIT 1\<close>; of several newest rows the first (the SQL leaves it open).\<close>

fun newest :: "('a \<Rightarrow> int) \<Rightarrow> 'a list \<Rightarrow> 'a option" where
  "newest ts [] = None"
| "newest ts (x # xs) =
     (case newest ts xs of None \<Rightarrow> Some x | Some y \<Rightarrow> if ts x < ts y then Some y else Some x)"

lemma newest_None [simp]: "newest ts xs = None \<longleftrightarrow> xs = []"
  by (cases xs) (auto split: option.split)

lemma newest_Some:
  "newest ts xs = Some x \<Longrightarrow> x \<in> set xs \<and> (\<forall>y\<in>set xs. ts y \<le> ts x)"
  by (induction xs arbitrary: x) (fastforce split: option.splits if_splits)+

lemma newest_exists: "xs \<noteq> [] \<Longrightarrow> \<exists>x. newest ts xs = Some x"
  using newest_None [of ts xs] by (cases "newest ts xs") simp_all

subsection \<open>Conditional hops\<close>

text \<open>
  The interface the engines rely on for replay safety: a conditional \<^verbatim>\<open>UPDATE\<close> that moves row \<open>i\<close>
  out of position \<open>p\<close>. It reports whether it applied; it applies exactly when the row is at \<open>p\<close>,
  changes nothing otherwise, and leaves \<open>p\<close> if its target is another position (\<open>moves\<close>). The
  client's lemmas: a second delivery of the same hop changes nothing and reports so, and any
  number of deliveries has the effect of one.
\<close>

locale conditional_hop =
  fixes pos :: "'i \<Rightarrow> 'p \<Rightarrow> 'w \<Rightarrow> bool"
    and moves :: "'i \<Rightarrow> 'p \<Rightarrow> bool"
    and hop :: "'i \<Rightarrow> 'p \<Rightarrow> 'w \<Rightarrow> bool \<times> 'w"
  assumes applies: "fst (hop i p w) = pos i p w"
    and refused: "\<not> pos i p w \<Longrightarrow> snd (hop i p w) = w"
    and leaves: "moves i p \<Longrightarrow> pos i p w \<Longrightarrow> \<not> pos i p (snd (hop i p w))"
begin

lemma gone: "moves i p \<Longrightarrow> \<not> pos i p (snd (hop i p w))"
  using leaves [of i p w] refused [of i p w] by (cases "pos i p w") simp_all

lemma replay: "moves i p \<Longrightarrow> hop i p (snd (hop i p w)) = (False, snd (hop i p w))"
  using gone [of i p w] applies [of i p "snd (hop i p w)"] refused by (simp add: prod_eq_iff)

lemma deliveries:
  assumes "moves i p" and "0 < n"
  shows "((\<lambda>v. snd (hop i p v)) ^^ n) w = snd (hop i p w)"
proof -
  have "((\<lambda>v. snd (hop i p v)) ^^ n) (snd (hop i p w)) = snd (hop i p w)" for n
    by (induction n) (simp_all add: replay [OF assms(1)])
  moreover obtain k where "n = Suc k" using assms(2) by (cases n) auto
  ultimately show ?thesis by (simp add: funpow_Suc_right del: funpow.simps)
qed

end

end
