(* ===== verification/Fleet.thy ===== *)
theory Fleet
  imports Sql
begin

section \<open>The fleet: devices, measurements and command results\<close>

text \<open>
  The tables the automation engines share: the device registry, the metric samples the agents
  report (\<^verbatim>\<open>metrics\<close>, a hypertable), and the dispatcher's table of command results.
\<close>

record device =
  dv_id :: string
  dv_os :: string
  dv_hostname :: string
  dv_online :: bool

record sample =
  m_device :: string
  m_name :: string
  m_source :: string
  m_value :: f64
  m_ts :: time

datatype cmd_status = CUnspecified | CReceived | CRunning | CSucceeded | CFailed | CTimedOut | CRefused | CUnsupported

record cmd_result =
  c_status :: cmd_status
  c_error :: string
  c_stderr :: string
  c_completed_ms :: int

fun firstNonEmpty :: "string list \<Rightarrow> string" where
  "firstNonEmpty [] = ''(no detail)''"
| "firstNonEmpty (v # vs) = (if v \<noteq> '''' then v else firstNonEmpty vs)"

definition status_name :: "cmd_status \<Rightarrow> string" where
  "status_name s = (case s of
      CUnspecified \<Rightarrow> ''STATUS_UNSPECIFIED'' | CReceived \<Rightarrow> ''RECEIVED'' | CRunning \<Rightarrow> ''RUNNING''
    | CSucceeded \<Rightarrow> ''SUCCEEDED'' | CFailed \<Rightarrow> ''FAILED'' | CTimedOut \<Rightarrow> ''TIMED_OUT''
    | CRefused \<Rightarrow> ''REFUSED'' | CUnsupported \<Rightarrow> ''UNSUPPORTED'')"

record fleet_world = world +
  devices :: "device list"
  metrics :: "sample list"
  results :: "string \<Rightarrow> cmd_result option"

definition series :: "string \<Rightarrow> string \<Rightarrow> sample \<Rightarrow> bool" where
  "series metric source m \<longleftrightarrow> m_name m = metric \<and> (source = '''' \<or> m_source m = source)"

text \<open>The newest sample of a device's series strictly after an instant.\<close>

definition latest_after :: "string \<Rightarrow> string \<Rightarrow> string \<Rightarrow> time \<Rightarrow> sample list \<Rightarrow> sample option" where
  "latest_after device metric source since ms =
     newest m_ts (filter (\<lambda>m. m_device m = device \<and> series metric source m \<and> since < m_ts m) ms)"

lemma latest_after_Some:
  "latest_after device metric source since ms = Some m \<Longrightarrow>
     m \<in> set ms \<and> m_device m = device \<and> series metric source m \<and> since < m_ts m \<and>
     (\<forall>m'\<in>set ms. m_device m' = device \<and> series metric source m' \<longrightarrow> m_ts m' \<le> m_ts m)"
  unfolding latest_after_def by (drule newest_Some) fastforce

text \<open>
  \<^verbatim>\<open>SELECT DISTINCT ON (device_id, source) ... ORDER BY device_id, source, ts DESC\<close>: the newest row of
  each group. The order of the groups depends on the database's collation; it is that of first
  appearance here.
\<close>

definition newest_per_source :: "sample list \<Rightarrow> sample list" where
  "newest_per_source ms =
     List.map_filter (\<lambda>k. newest m_ts (filter (\<lambda>m. (m_device m, m_source m) = k) ms))
       (remdups (map (\<lambda>m. (m_device m, m_source m)) ms))"

end
