(* ===== verification/Flow_Store.thy ===== *)
theory Flow_Store
  imports Flow_Graph Fleet
begin

section \<open>The flow engine's data layer\<close>

text \<open>
  \<^verbatim>\<open>server/internal/flow/store.go\<close> over the tables of \<^verbatim>\<open>server/migrations/0006_flows.sql\<close>: flows,
  runs and the audit trail of node hops, plus the metric samples the checks re-measure. The world
  also keeps what the engine does outside the database, as logs: the events it published, the
  scripts it dispatched and the notifications it sent.

  The texts of reasons (Go's \<^verbatim>\<open>fmt.Sprintf\<close>) are the constructors of \<open>msg\<close> with the values they
  print. Each statement is a function on worlds (\<open>..._stmt\<close>, with the tables' constraints), each
  method of \<^verbatim>\<open>Store\<close> a computation that runs its statements.
\<close>

subsection \<open>Rows\<close>

datatype run_status = Running | Succeeded | Failed | TimedOut

datatype hop_status = HEntered | HDispatched | HWaiting | HOk | HBranched | HFailed | HTimeout

datatype msg =
    TEmpty | TStr string
  | TRunStarted string string f64 f64 | TTrigger string string f64 f64 | TSchedule
  | TScriptOk string | TScriptFailed string string string | TDispatchFailed string err
  | TWaiting string time | TNoSample string int time
  | TThen string f64 time | TElse string f64 time | TComplete string f64 time
  | TFlowRan string string | TUnknownNode | TFlowDeleted | TNoResult string int
  | TErr err | TRunFailed msg

record run =
  r_id :: int
  r_flow_id :: "int option"
  r_flow_name :: string
  r_device :: string
  r_source :: string
  r_status :: run_status
  r_reason :: msg
  r_trigger_value :: f64
  r_triggered_at :: time
  r_current_node :: string
  r_check_after :: "time option"
  r_command_id :: "string option"
  r_dispatched_at :: "time option"
  r_finished_at :: "time option"
  r_started_at :: time
  r_created_at :: time
  r_updated_at :: time

record hop =
  h_run :: int
  h_node :: string
  h_status :: hop_status
  h_reason :: msg
  h_at :: time

datatype ev_type = SubjectTrigger | SubjectStep | SubjectCommand | SubjectOther string

record event =
  e_type :: ev_type
  e_flow :: int
  e_run :: int
  e_node :: string
  e_device :: string
  e_source :: string
  e_value :: "f64 option"
  e_command :: string
  e_status :: string
  e_message :: string
  e_at :: time

record flow_world = fleet_world +
  flows :: "flow list"
  flow_seq :: int
  runs :: "run list"
  run_seq :: int
  hops :: "hop list"
  bus_log :: "event list"
  dispatches :: "(string \<times> string \<times> string \<times> string) list"
  notices :: "(int \<times> string \<times> msg) list"
  last_fire :: "int \<Rightarrow> time option"

type_synonym 'a fm = "(flow_world, 'a) m"

subsection \<open>Flows\<close>

definition insert_flow_stmt :: "flow_world env \<Rightarrow> string \<Rightarrow> string \<Rightarrow> graph \<Rightarrow> int \<Rightarrow> bool \<Rightarrow>
    flow_world \<Rightarrow> int res \<times> flow_world" where
  "insert_flow_stmt E name descr g cooldown enabled w =
     (let i = flow_seq w; w' = w\<lparr>flow_seq := i + 1\<rparr>; t = clock E (tick w) in
      if \<exists>f\<in>set (flows w). f_name f = name then (Inl EUnique, w')
      else (Inr i, w'\<lparr>flows := flows w @ [\<lparr>f_id = i, f_name = name, f_description = descr, f_graph = g,
             f_cooldown_s = cooldown, f_enabled = enabled, f_created_at = t, f_updated_at = t\<rparr>]\<rparr>))"

definition GetFlow :: "flow_world env \<Rightarrow> int \<Rightarrow> (flow res) fm" where
  "GetFlow E i = do {
     r \<leftarrow> query E (\<lambda>w. find (\<lambda>f. f_id f = i) (flows w));
     State_Monad.return (case r of
        Inl e \<Rightarrow> Inl e
      | Inr None \<Rightarrow> Inl ENotFound
      | Inr (Some f) \<Rightarrow> Inr f)
   }"

definition CreateFlow :: "flow_world env \<Rightarrow> string \<Rightarrow> string \<Rightarrow> graph \<Rightarrow> int \<Rightarrow> bool \<Rightarrow> (flow res) fm" where
  "CreateFlow E name descr g cooldown enabled = do {
     r \<leftarrow> exec E (insert_flow_stmt E name descr g cooldown enabled);
     (case r of
        Inl e \<Rightarrow> State_Monad.return (Inl e)
      | Inr i \<Rightarrow> GetFlow E i)
   }"

definition ListFlows :: "flow_world env \<Rightarrow> bool \<Rightarrow> (flow list res) fm" where
  "ListFlows E onlyEnabled = query E (\<lambda>w. filter (\<lambda>f. onlyEnabled \<longrightarrow> f_enabled f) (flows w))"

text \<open>The columns a partial update sets; \<open>None\<close> fields are left untouched.\<close>

definition patch_flow :: "string option \<Rightarrow> string option \<Rightarrow> graph option \<Rightarrow> int option \<Rightarrow> bool option \<Rightarrow>
    flow \<Rightarrow> flow" where
  "patch_flow name descr g cooldown enabled f =
     f\<lparr>f_name := (case name of None \<Rightarrow> f_name f | Some x \<Rightarrow> x),
       f_description := (case descr of None \<Rightarrow> f_description f | Some x \<Rightarrow> x),
       f_graph := (case g of None \<Rightarrow> f_graph f | Some x \<Rightarrow> x),
       f_cooldown_s := (case cooldown of None \<Rightarrow> f_cooldown_s f | Some x \<Rightarrow> x),
       f_enabled := (case enabled of None \<Rightarrow> f_enabled f | Some x \<Rightarrow> x)\<rparr>"

definition update_flow_stmt :: "flow_world env \<Rightarrow> int \<Rightarrow> string option \<Rightarrow> (flow \<Rightarrow> flow) \<Rightarrow>
    flow_world \<Rightarrow> (int option) res \<times> flow_world" where
  "update_flow_stmt E i name patch w =
     (if affected (\<lambda>f. f_id f = i) (flows w) = 0 then (Inr None, w)
      else if (case name of None \<Rightarrow> False
         | Some x \<Rightarrow> \<exists>f\<in>set (flows w). f_name f = x \<and> f_id f \<noteq> i) then (Inl EUnique, w)
      else (Inr (Some i),
        w\<lparr>flows := update_where (\<lambda>f. f_id f = i)
             (\<lambda>f. (patch f)\<lparr>f_updated_at := clock E (tick w)\<rparr>) (flows w)\<rparr>))"

definition UpdateFlow :: "flow_world env \<Rightarrow> int \<Rightarrow> string option \<Rightarrow> string option \<Rightarrow> graph option \<Rightarrow>
    int option \<Rightarrow> bool option \<Rightarrow> (flow res) fm" where
  "UpdateFlow E i name descr g cooldown enabled =
     (if name = None \<and> descr = None \<and> g = None \<and> cooldown = None \<and> enabled = None then GetFlow E i
      else do {
        r \<leftarrow> exec E (update_flow_stmt E i name (patch_flow name descr g cooldown enabled));
        (case r of
           Inl e \<Rightarrow> State_Monad.return (Inl e)
         | Inr None \<Rightarrow> State_Monad.return (Inl ENotFound)
         | Inr (Some rid) \<Rightarrow> GetFlow E rid)
      })"

text \<open>\<^verbatim>\<open>ON DELETE SET NULL\<close>: the runs of a deleted flow keep their rows and lose the reference.\<close>

definition delete_flow_stmt :: "int \<Rightarrow> flow_world \<Rightarrow> nat res \<times> flow_world" where
  "delete_flow_stmt i w =
     (Inr (affected (\<lambda>f. f_id f = i) (flows w)),
      w\<lparr>flows := filter (\<lambda>f. f_id f \<noteq> i) (flows w),
        runs := update_where (\<lambda>r. r_flow_id r = Some i) (\<lambda>r. r\<lparr>r_flow_id := None\<rparr>) (runs w)\<rparr>)"

definition DeleteFlow :: "flow_world env \<Rightarrow> int \<Rightarrow> (err option) fm" where
  "DeleteFlow E i = do {
     r \<leftarrow> exec E (delete_flow_stmt i);
     State_Monad.return (case r of Inl e \<Rightarrow> Some e | Inr n \<Rightarrow> if n = 0 then Some ENotFound else None)
   }"

subsection \<open>Runs\<close>

definition GetRun :: "flow_world env \<Rightarrow> int \<Rightarrow> (run res) fm" where
  "GetRun E i = do {
     r \<leftarrow> query E (\<lambda>w. find (\<lambda>x. r_id x = i) (runs w));
     State_Monad.return (case r of
        Inl e \<Rightarrow> Inl e
      | Inr None \<Rightarrow> Inl ENotFound
      | Inr (Some x) \<Rightarrow> Inr x)
   }"

text \<open>
  The partial unique index \<^verbatim>\<open>uq_flow_one_active\<close>: one running row per (flow, device, source); SQL
  NULLs are distinct, so rows of deleted flows do not count. The foreign key on flows holds too.
\<close>

definition run_key :: "run \<Rightarrow> int option \<times> string \<times> string" where
  "run_key r = (r_flow_id r, r_device r, r_source r)"

definition run_live :: "run \<Rightarrow> bool" where
  "run_live r \<longleftrightarrow> r_status r = Running \<and> r_flow_id r \<noteq> None"

definition new_run :: "int \<Rightarrow> flow \<Rightarrow> string \<Rightarrow> string \<Rightarrow> f64 \<Rightarrow> time \<Rightarrow> string \<Rightarrow> time \<Rightarrow> run" where
  "new_run i f device source v at0 trig t =
     \<lparr>r_id = i, r_flow_id = Some (f_id f), r_flow_name = f_name f, r_device = device, r_source = source,
      r_status = Running, r_reason = TEmpty, r_trigger_value = v, r_triggered_at = at0,
      r_current_node = trig, r_check_after = Some t, r_command_id = None, r_dispatched_at = None,
      r_finished_at = None, r_started_at = t, r_created_at = t, r_updated_at = t\<rparr>"

definition insert_run_stmt :: "flow_world env \<Rightarrow> flow \<Rightarrow> string \<Rightarrow> string \<Rightarrow> f64 \<Rightarrow> time \<Rightarrow> string \<Rightarrow>
    flow_world \<Rightarrow> int res \<times> flow_world" where
  "insert_run_stmt E f device source v at0 trig w =
     (let i = run_seq w; w' = w\<lparr>run_seq := i + 1\<rparr>;
          r = new_run i f device source v at0 trig (clock E (tick w)) in
      if f_id f \<notin> f_id ` set (flows w) then (Inl EDb, w')
      else if violates run_key run_live (runs w) r then (Inl EUnique, w')
      else (Inr i, w'\<lparr>runs := runs w @ [r]\<rparr>))"

definition add_hop :: "flow_world env \<Rightarrow> int \<Rightarrow> string \<Rightarrow> hop_status \<Rightarrow> msg \<Rightarrow> flow_world \<Rightarrow> flow_world" where
  "add_hop E rid nd st reason w =
     w\<lparr>hops := hops w @ [\<lparr>h_run = rid, h_node = nd, h_status = st, h_reason = reason,
         h_at = clock E (tick w)\<rparr>]\<rparr>"

definition hop_stmt :: "flow_world env \<Rightarrow> int \<Rightarrow> string \<Rightarrow> hop_status \<Rightarrow> msg \<Rightarrow>
    flow_world \<Rightarrow> unit res \<times> flow_world" where
  "hop_stmt E rid nd st reason w = (Inr (), add_hop E rid nd st reason w)"

definition appendEvent :: "flow_world env \<Rightarrow> int \<Rightarrow> string \<Rightarrow> hop_status \<Rightarrow> msg \<Rightarrow> (unit res) fm" where
  "appendEvent E rid nd st reason = exec E (hop_stmt E rid nd st reason)"

text \<open>\<open>Inr None\<close> is Go's \<^verbatim>\<open>(nil, false, nil)\<close>: an active run already covers the series.\<close>

definition InsertRun :: "flow_world env \<Rightarrow> flow \<Rightarrow> string \<Rightarrow> string \<Rightarrow> f64 \<Rightarrow> time \<Rightarrow> (run option res) fm" where
  "InsertRun E f device source v at0 =
     (case Trigger (f_graph f) of
        None \<Rightarrow> State_Monad.return (Inl (EExt ''nil dereference''))
      | Some trig \<Rightarrow> do {
          ins \<leftarrow> exec E (insert_run_stmt E f device source v at0 (n_id trig));
          (case ins of
             Inl e \<Rightarrow> State_Monad.return (if e = EUnique then Inr None else Inl e)
           | Inr i \<Rightarrow> do {
               ap \<leftarrow> appendEvent E i (n_id trig) HEntered
                 (TRunStarted (n_metric trig) (n_op trig) (n_threshold trig) v);
               (case ap of
                  Inl e \<Rightarrow> State_Monad.return (Inl e)
                | Inr _ \<Rightarrow> do {
                    r \<leftarrow> GetRun E i;
                    State_Monad.return (case r of Inl e \<Rightarrow> Inl e | Inr x \<Rightarrow> Inr (Some x))
                  })
             })
        })"

text \<open>A conditional update of one run, and how many rows it changed.\<close>

definition run_stmt :: "(run \<Rightarrow> bool) \<Rightarrow> (run \<Rightarrow> run) \<Rightarrow> flow_world \<Rightarrow> nat res \<times> flow_world" where
  "run_stmt P f w = (Inr (affected P (runs w)), w\<lparr>runs := update_where P f (runs w)\<rparr>)"

definition at_node :: "int \<Rightarrow> string \<Rightarrow> run \<Rightarrow> bool" where
  "at_node i nd r \<longleftrightarrow> r_id r = i \<and> r_status r = Running \<and> r_current_node r = nd"

definition set_dispatched :: "string \<Rightarrow> time \<Rightarrow> time \<Rightarrow> run \<Rightarrow> run" where
  "set_dispatched cmd at0 t r =
     r\<lparr>r_command_id := Some cmd, r_dispatched_at := Some at0, r_updated_at := t\<rparr>"

definition set_succeeded :: "msg \<Rightarrow> time \<Rightarrow> run \<Rightarrow> run" where
  "set_succeeded reason t r =
     r\<lparr>r_status := Succeeded, r_reason := reason, r_finished_at := Some t,
       r_command_id := None, r_dispatched_at := None, r_updated_at := t\<rparr>"

definition set_node :: "string \<Rightarrow> time \<Rightarrow> time \<Rightarrow> run \<Rightarrow> run" where
  "set_node nd ca t r =
     r\<lparr>r_current_node := nd, r_check_after := Some ca,
       r_command_id := None, r_dispatched_at := None, r_updated_at := t\<rparr>"

definition set_ended :: "run_status \<Rightarrow> msg \<Rightarrow> time \<Rightarrow> run \<Rightarrow> run" where
  "set_ended st reason t r =
     r\<lparr>r_status := st, r_reason := reason, r_finished_at := Some t, r_updated_at := t\<rparr>"

type_synonym applied = "bool \<times> err option"

text \<open>
  The transactions below have one shape: a conditional update, and if it hit a row the audit rows.
  \<open>hop_tx\<close> is that shape; the last audit row is followed by \<^verbatim>\<open>return true, tx.Commit(ctx)\<close>, which
  reports \<open>True\<close> even when the commit fails.
\<close>

definition hop_tx :: "flow_world env \<Rightarrow> (flow_world \<Rightarrow> nat res \<times> flow_world) \<Rightarrow>
    (flow_world \<Rightarrow> unit res \<times> flow_world) \<Rightarrow> (flow_world \<Rightarrow> unit res \<times> flow_world) option \<Rightarrow> applied fm" where
  "hop_tx E upd ev1 ev2 = transaction E (False, Some EDb) (do {
     tag \<leftarrow> tx_exec E upd;
     (case tag of
        Inl e \<Rightarrow> State_Monad.return (Rollback (False, Some e))
      | Inr n \<Rightarrow>
          if n = 0 then State_Monad.return (Rollback (False, None))
          else do {
            r1 \<leftarrow> tx_exec E ev1;
            (case r1 of
               Inl e \<Rightarrow> State_Monad.return (Rollback (False, Some e))
             | Inr _ \<Rightarrow>
                 (case ev2 of
                    None \<Rightarrow> State_Monad.return (Commit (\<lambda>err. (True, err)))
                  | Some ev \<Rightarrow> do {
                      r2 \<leftarrow> tx_exec E ev;
                      (case r2 of
                         Inl e \<Rightarrow> State_Monad.return (Rollback (False, Some e))
                       | Inr _ \<Rightarrow> State_Monad.return (Commit (\<lambda>err. (True, err))))
                    }))
          })
   })"

definition Dispatched :: "flow_world env \<Rightarrow> int \<Rightarrow> string \<Rightarrow> string \<Rightarrow> time \<Rightarrow> applied fm" where
  "Dispatched E rid nd cmd at0 =
     hop_tx E (\<lambda>w. run_stmt (\<lambda>r. at_node rid nd r \<and> r_command_id r = None)
                (set_dispatched cmd at0 (clock E (tick w))) w)
       (hop_stmt E rid nd HDispatched (TStr cmd)) None"

definition AdvanceTo :: "flow_world env \<Rightarrow> int \<Rightarrow> string \<Rightarrow> string \<Rightarrow> msg \<Rightarrow> time \<Rightarrow> applied fm" where
  "AdvanceTo E rid from to reason ca =
     (if to = '''' then
        hop_tx E (\<lambda>w. run_stmt (at_node rid from) (set_succeeded reason (clock E (tick w))) w)
          (hop_stmt E rid from HOk reason) None
      else
        hop_tx E (\<lambda>w. run_stmt (at_node rid from) (set_node to ca (clock E (tick w))) w)
          (hop_stmt E rid from HBranched reason) (Some (hop_stmt E rid to HEntered TEmpty)))"

text \<open>\<open>timeout\<close> selects the terminal status 'timeout', else 'failed'.\<close>

definition FailRun :: "flow_world env \<Rightarrow> int \<Rightarrow> string \<Rightarrow> bool \<Rightarrow> msg \<Rightarrow> applied fm" where
  "FailRun E rid from timeout reason =
     hop_tx E (\<lambda>w. run_stmt (at_node rid from)
                (set_ended (if timeout then TimedOut else Failed) reason (clock E (tick w))) w)
       (hop_stmt E rid from (if timeout then HTimeout else HFailed) reason) None"

definition wait_stmt :: "flow_world env \<Rightarrow> int \<Rightarrow> string \<Rightarrow> msg \<Rightarrow> flow_world \<Rightarrow> unit res \<times> flow_world" where
  "wait_stmt E rid nd reason w =
     (if \<exists>h\<in>set (hops w). h_run h = rid \<and> h_node h = nd \<and> h_status h = HWaiting then (Inr (), w)
      else (Inr (), add_hop E rid nd HWaiting reason w))"

definition WaitEvent :: "flow_world env \<Rightarrow> int \<Rightarrow> string \<Rightarrow> msg \<Rightarrow> (unit res) fm" where
  "WaitEvent E rid nd reason = exec E (wait_stmt E rid nd reason)"

subsection \<open>Queries\<close>

definition RunByCommand :: "flow_world env \<Rightarrow> string \<Rightarrow> (run option res) fm" where
  "RunByCommand E cmd = query E (\<lambda>w. find (\<lambda>r. r_command_id r = Some cmd \<and> r_status r = Running) (runs w))"

definition ActiveRuns :: "flow_world env \<Rightarrow> (run list res) fm" where
  "ActiveRuns E = query E (\<lambda>w. filter (\<lambda>r. r_status r = Running) (runs w))"

definition Runs :: "flow_world env \<Rightarrow> run_status option \<Rightarrow> string \<Rightarrow> int option \<Rightarrow> int \<Rightarrow> (run list res) fm" where
  "Runs E status device flowID limit =
     (let lim = (if limit \<le> 0 \<or> limit > 500 then 100 else limit) in
      query E (\<lambda>w. take (nat lim) (rev (filter (\<lambda>r.
          (status = None \<or> status = Some (r_status r)) \<and>
          (device = '''' \<or> r_device r = device) \<and>
          (flowID = None \<or> r_flow_id r = flowID)) (runs w)))))"

definition Events :: "flow_world env \<Rightarrow> int \<Rightarrow> (hop list res) fm" where
  "Events E rid = query E (\<lambda>w. filter (\<lambda>h. h_run h = rid) (hops w))"

definition CooldownStarted :: "flow_world env \<Rightarrow> int \<Rightarrow> string \<Rightarrow> string \<Rightarrow> time \<Rightarrow> (bool res) fm" where
  "CooldownStarted E flowID device source since = query E (\<lambda>w. \<exists>r\<in>set (runs w).
     r_flow_id r = Some flowID \<and> r_device r = device \<and> r_source r = source \<and> since \<le> r_started_at r)"

definition LatestSample :: "flow_world env \<Rightarrow> string \<Rightarrow> string \<Rightarrow> string \<Rightarrow> time \<Rightarrow>
    ((f64 \<times> time) option res) fm" where
  "LatestSample E device metric source since =
     query E (\<lambda>w. map_option (\<lambda>m. (m_value m, m_ts m)) (latest_after device metric source since (metrics w)))"

definition FreshSamples :: "flow_world env \<Rightarrow> string \<Rightarrow> string \<Rightarrow> time \<Rightarrow> duration \<Rightarrow> (sample list res) fm" where
  "FreshSamples E metric source now0 fresh = query E (\<lambda>w. newest_per_source
     (filter (\<lambda>m. series metric source m \<and> now0 - fresh \<le> m_ts m \<and> m_ts m \<le> now0 + 60 * second)
        (metrics w)))"

end
