(* ===== verification/Flow_Engine.thy ===== *)
theory Flow_Engine
  imports Flow_Store
begin

section \<open>The flow engine\<close>

text \<open>
  \<^verbatim>\<open>server/internal/flow/engine.go\<close>: the handlers that execute flows over the event bus, and the two
  tickers. What the engine is wired to is a parameter: the database environment, the remediator
  (which dispatches a script and returns its command id or an error) and the outcome of a publish.
  An error result of a handler makes the bus redeliver the event; \<open>None\<close> is Go's nil.
  Log lines are not modelled.
\<close>

record deps =
  d_env :: "flow_world env"
  d_remediate :: "nat \<Rightarrow> string \<Rightarrow> string \<Rightarrow> string \<Rightarrow> string + string"
  d_publish :: "nat \<Rightarrow> db_out"

definition calm_deps :: "time \<Rightarrow> (string \<Rightarrow> string \<Rightarrow> string \<Rightarrow> string + string) \<Rightarrow> deps" where
  "calm_deps t rem = \<lparr>d_env = calm t, d_remediate = (\<lambda>_. rem), d_publish = (\<lambda>_. DbOk)\<rparr>"

subsection \<open>What the engine does outside the database\<close>

definition publish :: "deps \<Rightarrow> event \<Rightarrow> (err option) fm" where
  "publish D ev = State (\<lambda>w.
     let w' = w\<lparr>tick := Suc (tick w)\<rparr>; sent = w'\<lparr>bus_log := bus_log w @ [ev]\<rparr> in
     (case d_publish D (tick w) of
        DbOk \<Rightarrow> (None, sent)
      | DbErr \<Rightarrow> (Some (EExt ''publish''), w')
      | DbLost \<Rightarrow> (Some (EExt ''publish''), sent)))"

definition remediate :: "deps \<Rightarrow> string \<Rightarrow> string \<Rightarrow> string \<Rightarrow> (string res) fm" where
  "remediate D device lang script = State (\<lambda>w.
     let w' = w\<lparr>tick := Suc (tick w)\<rparr> in
     (case d_remediate D (tick w) device lang script of
        Inl e \<Rightarrow> (Inl (EExt e), w')
      | Inr cmd \<Rightarrow> (Inr cmd, w'\<lparr>dispatches := dispatches w @ [(device, lang, script, cmd)]\<rparr>)))"

definition notify :: "run \<Rightarrow> string \<Rightarrow> msg \<Rightarrow> unit fm" where
  "notify r nd reason = modifies (\<lambda>w. w\<lparr>notices := notices w @ [(r_id r, nd, reason)]\<rparr>)"

definition notifyFail :: "run \<Rightarrow> string \<Rightarrow> msg \<Rightarrow> unit fm" where
  "notifyFail r nd reason = notify r nd (TRunFailed reason)"

definition step_event :: "int \<Rightarrow> string \<Rightarrow> time \<Rightarrow> event" where
  "step_event rid nd t = \<lparr>e_type = SubjectStep, e_flow = 0, e_run = rid, e_node = nd, e_device = '''',
     e_source = '''', e_value = None, e_command = '''', e_status = '''', e_message = '''', e_at = t\<rparr>"

definition publishStep :: "deps \<Rightarrow> int \<Rightarrow> string \<Rightarrow> (err option) fm" where
  "publishStep D rid nd = do { t \<leftarrow> now (d_env D); publish D (step_event rid nd t) }"

definition trigger_event :: "int \<Rightarrow> string \<Rightarrow> string \<Rightarrow> f64 option \<Rightarrow> time \<Rightarrow> event" where
  "trigger_event fid device source v t = \<lparr>e_type = SubjectTrigger, e_flow = fid, e_run = 0,
     e_node = '''', e_device = device, e_source = source, e_value = v, e_command = '''',
     e_status = '''', e_message = '''', e_at = t\<rparr>"

text \<open>The API's synthetic trigger.\<close>

definition TriggerFlow :: "deps \<Rightarrow> int \<Rightarrow> string \<Rightarrow> string \<Rightarrow> f64 option \<Rightarrow> (err option) fm" where
  "TriggerFlow D fid device source v = do {
     t \<leftarrow> now (d_env D);
     publish D (trigger_event fid device source v t)
   }"

subsection \<open>Helpers\<close>

definition nodeTimeoutS :: "node \<Rightarrow> int" where
  "nodeTimeoutS n = (if n_timeout_s n > 0 then n_timeout_s n else 300)"

definition isFinalStatus :: "cmd_status \<Rightarrow> bool" where
  "isFinalStatus s \<longleftrightarrow> s \<in> {CSucceeded, CFailed, CTimedOut, CRefused, CUnsupported}"

definition commandStatusFromString :: "string \<Rightarrow> cmd_status" where
  "commandStatusFromString s =
     (if s = ''SUCCEEDED'' then CSucceeded
      else if s = ''FAILED'' then CFailed
      else if s = ''TIMED_OUT'' then CTimedOut
      else if s = ''REFUSED'' then CRefused
      else if s = ''UNSUPPORTED'' then CUnsupported
      else if s = ''RECEIVED'' \<or> s = ''RUNNING'' then CReceived
      else CUnspecified)"

text \<open>
  \<^verbatim>\<open>if applied, _ := e.store.FailRun(...); applied { e.notifyFail(...) }\<close>: the error of the
  transition is discarded.
\<close>

definition fail_and_notify :: "deps \<Rightarrow> run \<Rightarrow> string \<Rightarrow> bool \<Rightarrow> msg \<Rightarrow> msg \<Rightarrow> unit fm" where
  "fail_and_notify D r nd timeout reason told = do {
     ap \<leftarrow> FailRun (d_env D) (r_id r) nd timeout reason;
     (if fst ap then notifyFail r nd told else State_Monad.return ())
   }"

text \<open>
  \<^verbatim>\<open>applied, err := e.store.AdvanceTo(...)\<close>, return the error, publish the next hop if it applied.
\<close>

definition advance_and_publish :: "deps \<Rightarrow> int \<Rightarrow> string \<Rightarrow> string \<Rightarrow> msg \<Rightarrow> time \<Rightarrow> (err option) fm" where
  "advance_and_publish D rid from to reason ca = do {
     ap \<leftarrow> AdvanceTo (d_env D) rid from to reason ca;
     (case snd ap of
        Some e \<Rightarrow> State_Monad.return (Some e)
      | None \<Rightarrow> if fst ap \<and> to \<noteq> '''' then publishStep D rid to else State_Monad.return None)
   }"

definition flowForRun :: "deps \<Rightarrow> run \<Rightarrow> (flow option) fm" where
  "flowForRun D r =
     (case r_flow_id r of
        None \<Rightarrow> do {
          _ \<leftarrow> fail_and_notify D r (r_current_node r) False TFlowDeleted TFlowDeleted;
          State_Monad.return None
        }
      | Some fid \<Rightarrow> do {
          f \<leftarrow> GetFlow (d_env D) fid;
          (case f of
             Inl e \<Rightarrow> do {
               _ \<leftarrow> fail_and_notify D r (r_current_node r) False TFlowDeleted TFlowDeleted;
               State_Monad.return None
             }
           | Inr x \<Rightarrow> State_Monad.return (Some x))
        })"

subsection \<open>Triggers\<close>

definition within_cooldown :: "deps \<Rightarrow> flow \<Rightarrow> event \<Rightarrow> bool fm" where
  "within_cooldown D f ev =
     (if f_cooldown_s f > 0 then do {
        t \<leftarrow> now (d_env D);
        cd \<leftarrow> CooldownStarted (d_env D) (f_id f) (e_device ev) (e_source ev) (t - f_cooldown_s f * second);
        State_Monad.return (case cd of Inl e \<Rightarrow> False | Inr b \<Rightarrow> b)
      } else State_Monad.return False)"

definition handleScheduleTrigger :: "deps \<Rightarrow> flow \<Rightarrow> node \<Rightarrow> event \<Rightarrow> (err option) fm" where
  "handleScheduleTrigger D f trig ev = do {
     cd \<leftarrow> within_cooldown D f ev;
     (if cd then State_Monad.return None
      else do {
        ins \<leftarrow> InsertRun (d_env D) f (e_device ev) (e_source ev) (Fin 1) (e_at ev);
        (case ins of
           Inl e \<Rightarrow> State_Monad.return (Some e)
         | Inr None \<Rightarrow> State_Monad.return None
         | Inr (Some r) \<Rightarrow>
             advance_and_publish D (r_id r) (n_id trig) (n_next trig) TSchedule (e_at ev))
      })
   }"

definition handleMetricTrigger :: "deps \<Rightarrow> flow \<Rightarrow> node \<Rightarrow> event \<Rightarrow> f64 \<Rightarrow> time \<Rightarrow> (err option) fm" where
  "handleMetricTrigger D f trig ev value at0 = do {
     cd \<leftarrow> within_cooldown D f ev;
     (if cd then State_Monad.return None
      else do {
        ins \<leftarrow> InsertRun (d_env D) f (e_device ev) (e_source ev) value at0;
        (case ins of
           Inl e \<Rightarrow> State_Monad.return (Some e)
         | Inr None \<Rightarrow> State_Monad.return None
         | Inr (Some r) \<Rightarrow>
             advance_and_publish D (r_id r) (n_id trig) (n_next trig)
               (TTrigger (n_metric trig) (n_op trig) (n_threshold trig) value) at0)
      })
   }"

definition handleTrigger :: "deps \<Rightarrow> event \<Rightarrow> (err option) fm" where
  "handleTrigger D ev =
     (if e_flow ev = 0 \<or> e_device ev = '''' then State_Monad.return None
      else do {
        rf \<leftarrow> GetFlow (d_env D) (e_flow ev);
        (case rf of
           Inl e \<Rightarrow> State_Monad.return None
         | Inr f \<Rightarrow>
             if \<not> f_enabled f then State_Monad.return None
             else (case Trigger (f_graph f) of
                None \<Rightarrow> State_Monad.return None
              | Some trig \<Rightarrow>
                  if n_kind trig = KSchedule then handleScheduleTrigger D f trig ev
                  else (case e_value ev of
                     Some v \<Rightarrow>
                       if \<not> Holds trig v then State_Monad.return None
                       else handleMetricTrigger D f trig ev v (e_at ev)
                   | None \<Rightarrow> do {
                       t \<leftarrow> now (d_env D);
                       s \<leftarrow> LatestSample (d_env D) (e_device ev) (n_metric trig) (n_source trig) (t - 15 * minute);
                       (case s of
                          Inl e \<Rightarrow> State_Monad.return (Some e)
                        | Inr None \<Rightarrow> State_Monad.return None
                        | Inr (Some (v, at0)) \<Rightarrow>
                            if \<not> Holds trig v then State_Monad.return None
                            else handleMetricTrigger D f trig ev v at0)
                     })))
      })"

subsection \<open>Steps\<close>

definition finishScript :: "deps \<Rightarrow> run \<Rightarrow> string \<Rightarrow> node \<Rightarrow> cmd_result \<Rightarrow> (err option) fm" where
  "finishScript D r cmd n res =
     (if c_status res = CSucceeded then do {
        t \<leftarrow> now (d_env D);
        advance_and_publish D (r_id r) (n_id n) (n_next n) (TScriptOk cmd)
          (case r_dispatched_at r of Some d \<Rightarrow> d | None \<Rightarrow> t)
      }
      else if c_status res \<in> {CFailed, CTimedOut, CRefused, CUnsupported} then do {
        let reason = TScriptFailed cmd (status_name (c_status res)) (firstNonEmpty [c_error res, c_stderr res]);
        _ \<leftarrow> fail_and_notify D r (n_id n) False reason reason;
        State_Monad.return None
      }
      else State_Monad.return None)"

definition script_result :: "deps \<Rightarrow> run \<Rightarrow> node \<Rightarrow> (err option) fm" where
  "script_result D r n =
     (case r_command_id r of
        None \<Rightarrow> State_Monad.return None
      | Some cmd \<Rightarrow> do {
          res \<leftarrow> reads (\<lambda>w. results w cmd);
          (case res of
             None \<Rightarrow> State_Monad.return None
           | Some x \<Rightarrow> finishScript D r cmd n x)
        })"

text \<open>What follows the call of the remediator: a refused dispatch fails the run, a sent one is recorded.\<close>

definition after_dispatch :: "deps \<Rightarrow> run \<Rightarrow> node \<Rightarrow> string res \<Rightarrow> (err option) fm" where
  "after_dispatch D r n sent =
     (case sent of
        Inl e \<Rightarrow> do {
          _ \<leftarrow> fail_and_notify D r (n_id n) False (TDispatchFailed (r_device r) e) (TErr e);
          State_Monad.return None
        }
      | Inr cmd \<Rightarrow> do {
          t \<leftarrow> now (d_env D);
          ap \<leftarrow> Dispatched (d_env D) (r_id r) (n_id n) cmd t;
          (case snd ap of
             Some e \<Rightarrow> State_Monad.return (Some e)
           | None \<Rightarrow>
               if fst ap then script_result D r n
               else do {
                 fresh \<leftarrow> GetRun (d_env D) (r_id r);
                 script_result D (case fresh of Inl e \<Rightarrow> r | Inr x \<Rightarrow> x) n
               })
        })"

definition stepScript :: "deps \<Rightarrow> run \<Rightarrow> node \<Rightarrow> (err option) fm" where
  "stepScript D r n =
     (if r_command_id r = None then do {
        sent \<leftarrow> remediate D (r_device r) (n_lang n) (n_script n);
        after_dispatch D r n sent
      }
      else script_result D r n)"

definition stepCheck :: "deps \<Rightarrow> run \<Rightarrow> node \<Rightarrow> (err option) fm" where
  "stepCheck D r n = do {
     let since = (case r_check_after r of Some t \<Rightarrow> t | None \<Rightarrow> r_started_at r);
     s \<leftarrow> LatestSample (d_env D) (r_device r) (n_metric n) (n_source n) since;
     (case s of
        Inl e \<Rightarrow> State_Monad.return (Some e)
      | Inr None \<Rightarrow> do {
          wt \<leftarrow> WaitEvent (d_env D) (r_id r) (n_id n) (TWaiting (n_metric n) since);
          (case wt of
             Inl e \<Rightarrow> State_Monad.return (Some e)
           | Inr _ \<Rightarrow> do {
               t \<leftarrow> now (d_env D);
               (if t - since > nodeTimeoutS n * second then do {
                  let reason = TNoSample (n_metric n) (nodeTimeoutS n) since;
                  _ \<leftarrow> fail_and_notify D r (n_id n) True reason reason;
                  State_Monad.return None
                }
                else State_Monad.return None)
             })
        }
      | Inr (Some (v, at0)) \<Rightarrow>
          if Holds n v then
            advance_and_publish D (r_id r) (n_id n) (n_then n) (TThen (n_metric n) v at0) at0
          else if n_else n = '''' then do {
            ap \<leftarrow> AdvanceTo (d_env D) (r_id r) (n_id n) '''' (TComplete (n_metric n) v at0) at0;
            State_Monad.return (snd ap)
          }
          else advance_and_publish D (r_id r) (n_id n) (n_else n) (TElse (n_metric n) v at0) at0)
   }"

definition stepNotify :: "deps \<Rightarrow> run \<Rightarrow> node \<Rightarrow> (err option) fm" where
  "stepNotify D r n = do {
     let text = (if n_message n = '''' then TFlowRan (r_flow_name r) (r_device r) else TStr (n_message n));
     t \<leftarrow> now (d_env D);
     ap \<leftarrow> AdvanceTo (d_env D) (r_id r) (n_id n) (n_next n) text t;
     (case snd ap of
        Some e \<Rightarrow> State_Monad.return (Some e)
      | None \<Rightarrow>
          if \<not> fst ap then State_Monad.return None
          else do {
            _ \<leftarrow> notify r (n_id n) text;
            (if n_next n \<noteq> '''' then publishStep D (r_id r) (n_next n) else State_Monad.return None)
          })
   }"

definition step_node :: "deps \<Rightarrow> run \<Rightarrow> node \<Rightarrow> (err option) fm" where
  "step_node D r n =
     (case n_kind n of
        KTrigger \<Rightarrow> State_Monad.return None
      | KScript \<Rightarrow> stepScript D r n
      | KCheck \<Rightarrow> stepCheck D r n
      | KNotify \<Rightarrow> stepNotify D r n
      | KSchedule \<Rightarrow> State_Monad.return None
      | KOther k \<Rightarrow> State_Monad.return None)"

definition handleStep :: "deps \<Rightarrow> event \<Rightarrow> (err option) fm" where
  "handleStep D ev =
     (if e_run ev = 0 \<or> e_node ev = '''' then State_Monad.return None
      else do {
        rr \<leftarrow> GetRun (d_env D) (e_run ev);
        (case rr of
           Inl e \<Rightarrow> State_Monad.return None
         | Inr r \<Rightarrow>
             if r_status r \<noteq> Running \<or> r_current_node r \<noteq> e_node ev then State_Monad.return None
             else do {
               ff \<leftarrow> flowForRun D r;
               (case ff of
                  None \<Rightarrow> State_Monad.return None
                | Some f \<Rightarrow>
                    (case Node (f_graph f) (e_node ev) of
                       None \<Rightarrow> do {
                         _ \<leftarrow> fail_and_notify D r (e_node ev) False TUnknownNode TUnknownNode;
                         State_Monad.return None
                       }
                     | Some n \<Rightarrow> step_node D r n))
             })
      })"

definition handleCommand :: "deps \<Rightarrow> event \<Rightarrow> (err option) fm" where
  "handleCommand D ev =
     (if e_command ev = '''' then State_Monad.return None
      else do {
        rr \<leftarrow> RunByCommand (d_env D) (e_command ev);
        (case rr of
           Inl e \<Rightarrow> State_Monad.return (Some e)
         | Inr None \<Rightarrow> State_Monad.return None
         | Inr (Some r) \<Rightarrow> do {
             ff \<leftarrow> flowForRun D r;
             (case ff of
                None \<Rightarrow> State_Monad.return None
              | Some f \<Rightarrow>
                  (case Node (f_graph f) (r_current_node r) of
                     None \<Rightarrow> State_Monad.return None
                   | Some n \<Rightarrow>
                       if n_kind n \<noteq> KScript then State_Monad.return None
                       else finishScript D r (e_command ev) n
                         \<lparr>c_status = commandStatusFromString (e_status ev), c_error = e_message ev,
                          c_stderr = '''', c_completed_ms = 0\<rparr>))
           })
      })"

definition onEvent :: "deps \<Rightarrow> event \<Rightarrow> (err option) fm" where
  "onEvent D ev =
     (case e_type ev of
        SubjectTrigger \<Rightarrow> handleTrigger D ev
      | SubjectStep \<Rightarrow> handleStep D ev
      | SubjectCommand \<Rightarrow> handleCommand D ev
      | SubjectOther s \<Rightarrow> State_Monad.return None)"

subsection \<open>Tickers\<close>

definition sweep_run :: "deps \<Rightarrow> time \<Rightarrow> run \<Rightarrow> unit fm" where
  "sweep_run D now0 r = do {
     ff \<leftarrow> flowForRun D r;
     (case ff of
        None \<Rightarrow> State_Monad.return ()
      | Some f \<Rightarrow>
          (case Node (f_graph f) (r_current_node r) of
             None \<Rightarrow> fail_and_notify D r (r_current_node r) False TUnknownNode TUnknownNode
           | Some n \<Rightarrow>
               (case (r_command_id r, r_dispatched_at r) of
                  (Some cmd, Some d) \<Rightarrow>
                    if n_kind n = KScript \<and> now0 - d > nodeTimeoutS n * second then do {
                      res \<leftarrow> reads (\<lambda>w. results w cmd);
                      (case res of
                         Some x \<Rightarrow>
                           if isFinalStatus (c_status x) then do {
                             _ \<leftarrow> finishScript D r cmd n x;
                             State_Monad.return ()
                           }
                           else fail_and_notify D r (n_id n) True (TNoResult cmd (nodeTimeoutS n))
                                  (TNoResult cmd (nodeTimeoutS n))
                       | None \<Rightarrow> fail_and_notify D r (n_id n) True (TNoResult cmd (nodeTimeoutS n))
                                  (TNoResult cmd (nodeTimeoutS n)))
                    }
                    else do { _ \<leftarrow> publishStep D (r_id r) (r_current_node r); State_Monad.return () }
                | _ \<Rightarrow> do { _ \<leftarrow> publishStep D (r_id r) (r_current_node r); State_Monad.return () })))
   }"

fun each :: "('a \<Rightarrow> 'b fm) \<Rightarrow> 'a list \<Rightarrow> ('b list) fm" where
  "each f [] = State_Monad.return []"
| "each f (x # xs) = do { y \<leftarrow> f x; ys \<leftarrow> each f xs; State_Monad.return (y # ys) }"

definition Sweep :: "deps \<Rightarrow> time \<Rightarrow> unit fm" where
  "Sweep D now0 = do {
     rs \<leftarrow> ActiveRuns (d_env D);
     (case rs of
        Inl e \<Rightarrow> State_Monad.return ()
      | Inr xs \<Rightarrow> do { _ \<leftarrow> each (sweep_run D now0) xs; State_Monad.return () })
   }"

definition scheduleFireDue :: "flow \<Rightarrow> node \<Rightarrow> time \<Rightarrow> flow_world \<Rightarrow> bool" where
  "scheduleFireDue f trig now0 w =
     (case ParseDuration (n_schedule trig) of
        None \<Rightarrow> False
      | Some d \<Rightarrow> (case last_fire w (f_id f) of None \<Rightarrow> True | Some l \<Rightarrow> now0 - l \<ge> d))"

definition sample_flow :: "deps \<Rightarrow> time \<Rightarrow> flow \<Rightarrow> nat fm" where
  "sample_flow D now0 f =
     (case Trigger (f_graph f) of
        None \<Rightarrow> State_Monad.return 0
      | Some trig \<Rightarrow>
          if n_kind trig = KSchedule then do {
            due \<leftarrow> reads (scheduleFireDue f trig now0);
            (if due then do {
               er \<leftarrow> publish D (trigger_event (f_id f) (n_schedule_device trig) ''schedule'' None now0);
               (case er of
                  Some e \<Rightarrow> State_Monad.return 0
                | None \<Rightarrow> do {
                    _ \<leftarrow> modifies (\<lambda>w. w\<lparr>last_fire := (last_fire w)(f_id f := Some now0)\<rparr>);
                    State_Monad.return 1
                  })
             }
             else State_Monad.return 0)
          }
          else if n_metric trig = '''' then State_Monad.return 0
          else do {
            ss \<leftarrow> FreshSamples (d_env D) (n_metric trig) (n_source trig) now0 (5 * minute);
            (case ss of
               Inl e \<Rightarrow> State_Monad.return 0
             | Inr xs \<Rightarrow> do {
                 sent \<leftarrow> each (\<lambda>s. do {
                   er \<leftarrow> publish D (trigger_event (f_id f) (m_device s) (m_source s) (Some (m_value s)) (m_ts s));
                   State_Monad.return (if er = None then 1 else 0)
                 }) (filter (\<lambda>s. Holds trig (m_value s)) xs);
                 State_Monad.return (sum_list sent)
               })
          })"

definition SampleOnce :: "deps \<Rightarrow> time \<Rightarrow> nat fm" where
  "SampleOnce D now0 = do {
     fs \<leftarrow> ListFlows (d_env D) True;
     (case fs of
        Inl e \<Rightarrow> State_Monad.return 0
      | Inr xs \<Rightarrow> do { ns \<leftarrow> each (sample_flow D now0) xs; State_Monad.return (sum_list ns) })
   }"

end
