(* ===== verification/Http.thy ===== *)
theory Http
  imports Effects
begin

section \<open>HTTP requests and responses\<close>

text \<open>
  The parts of an HTTP handler the model needs: the method, the split path, Go's
  \<^verbatim>\<open>strconv.ParseInt(s, 10, 64)\<close>, and what a handler answers. A body arrives as the result of
  \<^verbatim>\<open>json.Decode\<close> (\<open>None\<close>: it did not parse), a parameter of each handler. A handler that panics
  answers \<open>Aborted\<close>: \<^verbatim>\<open>net/http\<close> recovers the panic and drops the connection.
\<close>

datatype http_method = GET | POST | PATCH | PUT | DELETE | OtherMethod string

text \<open>\<^verbatim>\<open>'b\<close> is the type of the JSON bodies of a handler; a plain text error is not told apart further.\<close>

datatype 'b response = Resp nat "'b option" | Aborted

definition status_of :: "'b response \<Rightarrow> nat option" where
  "status_of r = (case r of Resp n b \<Rightarrow> Some n | Aborted \<Rightarrow> None)"

lemma status_of_simps [simp]: "status_of (Resp n b) = Some n" "status_of Aborted = None"
  by (simp_all add: status_of_def)

text \<open>\<^verbatim>\<open>strings.Trim(path, "/")\<close>, then \<^verbatim>\<open>strings.Split(..., "/")\<close>.\<close>

definition path_parts :: "string \<Rightarrow> string list" where
  "path_parts p =
     (let slash = (\<lambda>c. c = CHR ''/'') in
      split_on CHR ''/'' (rev (dropWhile slash (rev (dropWhile slash p)))))"

text \<open>\<open>None\<close>: a syntax or a range error.\<close>

definition ParseInt64 :: "string \<Rightarrow> int option" where
  "ParseInt64 s =
     (let neg = (s \<noteq> [] \<and> hd s = CHR ''-'');
          ds = (if s \<noteq> [] \<and> (hd s = CHR ''-'' \<or> hd s = CHR ''+'') then tl s else s);
          v = (if neg then - dec_val ds else dec_val ds) in
      if ds = [] \<or> \<not> list_all is_digit ds \<or> v < - (2 ^ 63) \<or> v \<ge> 2 ^ 63 then None
      else Some v)"

definition positive_id :: "string \<Rightarrow> int option" where
  "positive_id s = (case ParseInt64 s of None \<Rightarrow> None | Some i \<Rightarrow> if i \<le> 0 then None else Some i)"

lemma positive_id_pos: "positive_id s = Some i \<Longrightarrow> 0 < i \<and> i < 2 ^ 63"
  by (auto simp: positive_id_def ParseInt64_def Let_def split: option.splits if_splits)

end
