(* ===== verification/Flow_Api.thy ===== *)
theory Flow_Api
  imports Flow_Engine Http
begin

section \<open>The flow routes of the HTTP API\<close>

text \<open>
  \<^verbatim>\<open>server/internal/httpapi/domain_flows.go\<close>. This is the only code that stores flows, and the place
  where \<^verbatim>\<open>Graph.Validate\<close> guards the store. The device registry (\<^verbatim>\<open>s.devices.Contains\<close>) is a
  parameter; \<open>None\<close> of a server is an engine that is not wired.
\<close>

record flow_request =
  q_name :: string
  q_description :: string
  q_graph :: "graph option"
  q_cooldown :: "int option"
  q_enabled :: "bool option"

record trigger_request =
  t_device :: string
  t_source :: string
  t_value :: "f64 option"

datatype flow_body =
    FError err | FInvalid verr | FFlow flow | FFlows "flow list" | FRuns "run list"
  | FDetail run "hop list" | FCount nat | FPublished int string

type_synonym flow_resp = "flow_body response"

record api =
  a_deps :: deps
  a_contains :: "nat \<Rightarrow> string \<Rightarrow> bool res"

definition plain :: "nat \<Rightarrow> flow_resp" where
  "plain n = Resp n None"

definition json :: "nat \<Rightarrow> flow_body \<Rightarrow> flow_resp" where
  "json n b = Resp n (Some b)"

definition handleFlows :: "api option \<Rightarrow> http_method \<Rightarrow> bool \<Rightarrow> flow_request option \<Rightarrow> flow_resp fm" where
  "handleFlows A m onlyEnabled body =
     (case A of
        None \<Rightarrow> State_Monad.return (plain 503)
      | Some a \<Rightarrow>
          let E = d_env (a_deps a) in
          (case m of
             GET \<Rightarrow> do {
               r \<leftarrow> ListFlows E onlyEnabled;
               State_Monad.return (case r of Inl e \<Rightarrow> plain 500 | Inr fs \<Rightarrow> json 200 (FFlows fs))
             }
           | POST \<Rightarrow>
               (case body of
                  None \<Rightarrow> State_Monad.return (plain 400)
                | Some q \<Rightarrow>
                    if q_name q = '''' then State_Monad.return (plain 400)
                    else (case q_graph q of
                       None \<Rightarrow> State_Monad.return (plain 400)
                     | Some g \<Rightarrow>
                         (case Validate g of
                            VErr e \<Rightarrow> State_Monad.return (json 422 (FInvalid e))
                          | VOk \<Rightarrow> do {
                              r \<leftarrow> CreateFlow E (q_name q) (q_description q) g
                                (case q_cooldown q of None \<Rightarrow> 0 | Some c \<Rightarrow> c)
                                (case q_enabled q of None \<Rightarrow> True | Some b \<Rightarrow> b);
                              State_Monad.return (case r of
                                 Inl e \<Rightarrow> if e = EUnique then json 409 (FError e) else plain 500
                               | Inr f \<Rightarrow> json 201 (FFlow f))
                            }
                          | _ \<Rightarrow> State_Monad.return Aborted)))
           | _ \<Rightarrow> State_Monad.return (plain 405)))"

definition handleFlowTrigger :: "api \<Rightarrow> http_method \<Rightarrow> int \<Rightarrow> trigger_request option \<Rightarrow> flow_resp fm" where
  "handleFlowTrigger a m i body =
     (if m \<noteq> POST then State_Monad.return (plain 405)
      else do {
        rf \<leftarrow> GetFlow (d_env (a_deps a)) i;
        (case rf of
           Inl e \<Rightarrow> State_Monad.return (json 404 (FError e))
         | Inr f \<Rightarrow>
             (case body of
                None \<Rightarrow> State_Monad.return (plain 400)
              | Some q \<Rightarrow>
                  if t_device q = '''' then State_Monad.return (plain 400)
                  else do {
                    known \<leftarrow> reads (\<lambda>w. a_contains a (tick w) (t_device q));
                    (case known of
                       Inl e \<Rightarrow> State_Monad.return (plain 500)
                     | Inr ok \<Rightarrow>
                         if \<not> ok then State_Monad.return (json 404 (FError ENotFound))
                         else do {
                           er \<leftarrow> TriggerFlow (a_deps a) i (t_device q) (t_source q) (t_value q);
                           State_Monad.return (case er of
                              Some e \<Rightarrow> plain 500
                            | None \<Rightarrow> json 202 (FPublished i (t_device q)))
                         })
                  }))
      })"

definition run_filter :: "string \<Rightarrow> int option" where
  "run_filter v = (if v = '''' then None else positive_id v)"

text \<open>
  A status filter that names no status matches no run: \<open>status_filter\<close> is \<open>Some\<close> of the parsed
  status, or \<open>None\<close> for an unknown name.
\<close>

definition status_filter :: "string \<Rightarrow> (run_status option) option" where
  "status_filter s =
     (if s = '''' then Some None
      else if s = ''running'' then Some (Some Running)
      else if s = ''succeeded'' then Some (Some Succeeded)
      else if s = ''failed'' then Some (Some Failed)
      else if s = ''timeout'' then Some (Some TimedOut)
      else None)"

definition handleFlowRuns :: "api \<Rightarrow> http_method \<Rightarrow> string \<Rightarrow> string \<Rightarrow> string \<Rightarrow> flow_resp fm" where
  "handleFlowRuns a m status flow_id device =
     (if m \<noteq> GET then State_Monad.return (plain 405)
      else do {
        r \<leftarrow> (case status_filter status of
               Some st \<Rightarrow> Runs (d_env (a_deps a)) st device (run_filter flow_id) 100
             | None \<Rightarrow> query (d_env (a_deps a)) (\<lambda>w. []));
        State_Monad.return (case r of Inl e \<Rightarrow> plain 500 | Inr rs \<Rightarrow> json 200 (FRuns rs))
      })"

definition handleFlowRunDetail :: "api \<Rightarrow> http_method \<Rightarrow> string \<Rightarrow> flow_resp fm" where
  "handleFlowRunDetail a m idStr =
     (if m \<noteq> GET then State_Monad.return (plain 405)
      else case positive_id idStr of
        None \<Rightarrow> State_Monad.return (plain 400)
      | Some i \<Rightarrow> do {
          rr \<leftarrow> GetRun (d_env (a_deps a)) i;
          (case rr of
             Inl e \<Rightarrow> State_Monad.return (json 404 (FError e))
           | Inr r \<Rightarrow> do {
               es \<leftarrow> Events (d_env (a_deps a)) i;
               State_Monad.return (case es of Inl e \<Rightarrow> plain 500 | Inr hs \<Rightarrow> json 200 (FDetail r hs))
             })
        })"

text \<open>An empty name or description of a \<^verbatim>\<open>PATCH\<close> leaves the column untouched.\<close>

definition opt_text :: "string \<Rightarrow> string option" where
  "opt_text s = (if s = '''' then None else Some s)"

definition patchFlow :: "api \<Rightarrow> int \<Rightarrow> flow_request option \<Rightarrow> flow_resp fm" where
  "patchFlow a i body =
     (case body of
        None \<Rightarrow> State_Monad.return (plain 400)
      | Some q \<Rightarrow>
          let upd = do {
                r \<leftarrow> UpdateFlow (d_env (a_deps a)) i (opt_text (q_name q)) (opt_text (q_description q))
                       (q_graph q) (q_cooldown q) (q_enabled q);
                State_Monad.return (case r of Inl e \<Rightarrow> json 404 (FError e) | Inr f \<Rightarrow> json 200 (FFlow f))
              } in
          (case q_graph q of
             None \<Rightarrow> upd
           | Some g \<Rightarrow>
               (case Validate g of
                  VErr e \<Rightarrow> State_Monad.return (json 422 (FInvalid e))
                | VOk \<Rightarrow> upd
                | _ \<Rightarrow> State_Monad.return Aborted)))"

text \<open>
  One request to the \<^verbatim>\<open>/flows/\<close> subtree: \<open>rest\<close> are the path parts after \<^verbatim>\<open>{api|admin}/flows\<close>, then
  the query parameters and the two bodies a route may decode.
\<close>

record flow_sub =
  s_method :: http_method
  s_rest :: "string list"
  s_status :: string
  s_flow_id :: string
  s_device :: string
  s_body :: "flow_request option"
  s_trigger :: "trigger_request option"

definition handleFlowSub :: "api option \<Rightarrow> flow_sub \<Rightarrow> flow_resp fm" where
  "handleFlowSub A s =
     (case A of
        None \<Rightarrow> State_Monad.return (plain 503)
      | Some a \<Rightarrow>
          let rest = s_rest s; m = s_method s; D = a_deps a in
          if rest \<noteq> [] \<and> hd rest = ''runs'' then
            (case rest of
               [x] \<Rightarrow> handleFlowRuns a m (s_status s) (s_flow_id s) (s_device s)
             | [x, i] \<Rightarrow> handleFlowRunDetail a m i
             | _ \<Rightarrow> State_Monad.return (plain 404))
          else if rest = [''sweep''] \<or> rest = [''sample''] then
            (if m \<noteq> POST then State_Monad.return (plain 405)
             else do {
               t \<leftarrow> now (d_env D);
               (if rest = [''sweep''] then do {
                  _ \<leftarrow> Sweep D t;
                  act \<leftarrow> ActiveRuns (d_env D);
                  State_Monad.return (json 200 (FCount (case act of Inl e \<Rightarrow> 0 | Inr rs \<Rightarrow> length rs)))
                }
                else do {
                  n \<leftarrow> SampleOnce D t;
                  State_Monad.return (json 200 (FCount n))
                })
             })
          else (case rest of
             [] \<Rightarrow> State_Monad.return (plain 404)
           | x # tail \<Rightarrow>
               (case positive_id x of
                  None \<Rightarrow> State_Monad.return (plain 400)
                | Some i \<Rightarrow>
                    if tail = [''trigger''] then handleFlowTrigger a m i (s_trigger s)
                    else if tail \<noteq> [] then State_Monad.return (plain 404)
                    else (case m of
                       GET \<Rightarrow> do {
                         r \<leftarrow> GetFlow (d_env D) i;
                         State_Monad.return (case r of Inl e \<Rightarrow> json 404 (FError e) | Inr f \<Rightarrow> json 200 (FFlow f))
                       }
                     | PATCH \<Rightarrow> patchFlow a i (s_body s)
                     | DELETE \<Rightarrow> do {
                         r \<leftarrow> DeleteFlow (d_env D) i;
                         State_Monad.return (case r of Some e \<Rightarrow> json 404 (FError e) | None \<Rightarrow> plain 204)
                       }
                     | _ \<Rightarrow> State_Monad.return (plain 405)))))"

end
