(* ===== verification/Flow_Validate.thy ===== *)
theory Flow_Validate
  imports Flow_Graph
begin

section \<open>Validation accepts exactly the well-formed flows\<close>

text \<open>
  The correctness of \<^verbatim>\<open>Graph.Validate\<close>: the three-colour search is correct with the fuel it is
  given, and validation succeeds exactly on \<open>flow_ok\<close> graphs.
\<close>

subsection \<open>The invariant of the search\<close>

definition closed_graph :: "graph \<Rightarrow> bool" where
  "closed_graph g \<longleftrightarrow> distinct (ids g) \<and> edges g \<subseteq> set (ids g) \<times> set (ids g)"

definition white :: "graph \<Rightarrow> colors \<Rightarrow> string set" where
  "white g c = {x \<in> set (ids g). c x = 0}"

definition black_closed :: "graph \<Rightarrow> colors \<Rightarrow> bool" where
  "black_closed g c \<longleftrightarrow>
     (\<forall>x. c x \<le> 2 \<and> (c x \<noteq> 0 \<longrightarrow> x \<in> set (ids g)) \<and> (c x = 2 \<longrightarrow> (x, x) \<notin> (edges g)\<^sup>+)) \<and>
     (\<forall>x y. (x, y) \<in> edges g \<longrightarrow> c x = 2 \<longrightarrow> c y = 2)"

text \<open>What a search from \<open>i\<close> may do to the colours: greys stay, blacks grow by reachable ids.\<close>

definition explored :: "graph \<Rightarrow> string \<Rightarrow> colors \<Rightarrow> colors \<Rightarrow> bool" where
  "explored g i c c' \<longleftrightarrow> black_closed g c \<and> black_closed g c' \<and>
     (\<forall>x. (c' x = 1 \<longleftrightarrow> c x = 1) \<and> (c x = 2 \<longrightarrow> c' x = 2) \<and>
        (c' x = 2 \<longrightarrow> c x = 2 \<or> (i, x) \<in> (edges g)\<^sup>*))"

definition greys_reach :: "graph \<Rightarrow> colors \<Rightarrow> string \<Rightarrow> bool" where
  "greys_reach g c i \<longleftrightarrow> (\<forall>x. c x = 1 \<longrightarrow> (x, i) \<in> (edges g)\<^sup>*)"

fun dfs_ok :: "graph \<Rightarrow> (colors \<Rightarrow> bool) \<Rightarrow> dfs \<Rightarrow> bool" where
  "dfs_ok g P (DOk c) = P c"
| "dfs_ok g P (DErr e) = (\<exists>t. e = CycleAt t \<and> (t, t) \<in> (edges g)\<^sup>+)"
| "dfs_ok g P DPanic = False"
| "dfs_ok g P DFuel = False"

lemma dfs_ok_mono: "dfs_ok g P r \<Longrightarrow> (\<And>c. P c \<Longrightarrow> Q c) \<Longrightarrow> dfs_ok g Q r"
  by (cases r) auto

lemma explored_refl: "black_closed g c \<Longrightarrow> explored g i c c"
  by (simp add: explored_def)

lemma explored_from:
  "explored g t c c' \<Longrightarrow> (i, t) \<in> (edges g)\<^sup>* \<Longrightarrow> explored g i c c'"
  unfolding explored_def by (meson rtrancl_trans)

lemma explored_trans: "explored g i c c1 \<Longrightarrow> explored g i c1 c2 \<Longrightarrow> explored g i c c2"
  unfolding explored_def by meson

lemma explored_white:
  assumes "explored g i c c'"
  shows "card (white g c') \<le> card (white g c)"
proof (rule card_mono)
  show "finite (white g c)" by (simp add: white_def)
  have "c x = 0" if "c' x = 0" for x
  proof -
    have "c x \<le> 2" using assms by (simp add: explored_def black_closed_def)
    moreover have "c x \<noteq> 1" and "c x \<noteq> 2"
      using assms that unfolding explored_def by (metis zero_neq_one, metis zero_neq_numeral)
    ultimately show ?thesis by linarith
  qed
  then show "white g c' \<subseteq> white g c" by (auto simp: white_def)
qed

lemma white_grey:
  assumes "c i = 0" and "i \<in> set (ids g)"
  shows "card (white g c) = Suc (card (white g (c(i := 1))))"
proof -
  have "white g c = insert i (white g (c(i := 1)))" and "i \<notin> white g (c(i := 1))"
    using assms by (auto simp: white_def)
  then show ?thesis by (simp add: white_def)
qed

lemma black_closed_grey:
  "black_closed g c \<Longrightarrow> c i = 0 \<Longrightarrow> i \<in> set (ids g) \<Longrightarrow> black_closed g (c(i := 1))"
  by (auto simp: black_closed_def)

lemma black_reaches_black:
  assumes "black_closed g c" and "(x, y) \<in> (edges g)\<^sup>*" and "c x = 2"
  shows "c y = 2"
  using assms(2,3) by (induction) (use assms(1) in \<open>auto simp: black_closed_def\<close>)

text \<open>Turning a grey id black once all its targets are black keeps the invariant.\<close>

lemma black_closed_blacken:
  assumes inv: "black_closed g c" and grey: "c i = 1" and id: "i \<in> set (ids g)"
    and targets: "\<And>t. (i, t) \<in> edges g \<Longrightarrow> c t = 2"
  shows "black_closed g (c(i := 2))"
proof -
  have "(i, i) \<notin> (edges g)\<^sup>+"
  proof
    assume "(i, i) \<in> (edges g)\<^sup>+"
    then obtain t where "(i, t) \<in> edges g" and "(t, i) \<in> (edges g)\<^sup>*"
      by (meson tranclD)
    with black_reaches_black [OF inv] targets have "c i = 2" by blast
    with grey show False by simp
  qed
  with inv id targets show ?thesis by (auto simp: black_closed_def)
qed

subsection \<open>The search is correct\<close>

lemma visit_correct_aux:
  shows "closed_graph g \<Longrightarrow> black_closed g c \<Longrightarrow> c i = 0 \<Longrightarrow> i \<in> set (ids g) \<Longrightarrow> greys_reach g c i \<Longrightarrow>
      card (white g c) \<le> k \<Longrightarrow> dfs_ok g (\<lambda>c'. explored g i c c' \<and> c' i = 2) (visit k g c i)"
    and "closed_graph g \<Longrightarrow> \<forall>j. black_closed g c \<longrightarrow> c j = 1 \<longrightarrow> (\<forall>t\<in>set ts. t \<noteq> [] \<longrightarrow> (j, t) \<in> edges g) \<longrightarrow>
      greys_reach g c j \<longrightarrow> card (white g c) \<le> k \<longrightarrow>
      dfs_ok g (\<lambda>c'. explored g j c c' \<and> (\<forall>t\<in>set ts. t \<noteq> [] \<longrightarrow> c' t = 2)) (visit_edges k g c ts)"
proof (induction k g c i and k g c ts rule: visit_visit_edges.induct)
  case (1 g c i)
  then have "i \<in> white g c" "finite (white g c)" by (auto simp: white_def)
  with 1 show ?case by auto
next
  case (2 k g c i)
  have dist: "distinct (ids g)" using "2.prems"(1) by (simp add: closed_graph_def)
  from "2.prems"(4) obtain n where "n \<in> set (g_nodes g)" and "n_id n = i"
    by (auto simp: ids_def)
  then have n: "Node g i = Some n" by (simp add: Node_Some [OF dist])
  let ?c = "c(i := 1)"
  have bc: "black_closed g ?c" by (rule black_closed_grey) (use "2.prems" in auto)
  have "greys_reach g ?c i" using "2.prems"(5) by (auto simp: greys_reach_def)
  moreover have "card (white g ?c) \<le> k" using "2.prems" white_grey [of c i g] by simp
  ultimately have IH: "dfs_ok g (\<lambda>c'. explored g i ?c c' \<and> (\<forall>t\<in>set (OutEdges n). t \<noteq> [] \<longrightarrow> c' t = 2))
      (visit_edges k g ?c (OutEdges n))"
    using "2.IH" [OF n "2.prems"(1)] bc edges_from [OF dist n]
    by (simp add: fun_upd_def)
  show ?case
  proof (cases "visit_edges k g ?c (OutEdges n)")
    case (DOk c')
    with IH have e: "explored g i ?c c'" and t: "\<And>t. (i, t) \<in> edges g \<Longrightarrow> c' t = 2"
      using edges_from [OF dist n] by auto
    have grey: "c' i = 1" and "black_closed g c'" using e by (auto simp: explored_def)
    then have "black_closed g (c'(i := 2))"
      using "2.prems"(4) t by (blast intro: black_closed_blacken)
    with e have "explored g i c (c'(i := 2))"
      using "2.prems" by (auto simp: explored_def split: if_splits)
    with n DOk show ?thesis by simp
  qed (use IH n in auto)
next
  case (3 k g c)
  then show ?case by (simp add: explored_refl)
next
  case (4 k g c t ts)
  note G = "4.prems"
  have closed: "edges g \<subseteq> set (ids g) \<times> set (ids g)" using G by (simp add: closed_graph_def)
  show ?case
  proof (intro allI impI)
    fix j assume bc: "black_closed g c" and j: "c j = 1"
      and ts: "\<forall>t\<in>set (t # ts). t \<noteq> [] \<longrightarrow> (j, t) \<in> edges g"
      and greys: "greys_reach g c j" and fuel: "card (white g c) \<le> k"
    let ?goal = "dfs_ok g (\<lambda>c'. explored g j c c' \<and> (\<forall>t\<in>set (t # ts). t \<noteq> [] \<longrightarrow> c' t = 2))
        (visit_edges k g c (t # ts))"
    have "c t = 0 \<or> c t = 1 \<or> c t = 2"
    proof -
      have "c t \<le> 2" using bc by (simp add: black_closed_def)
      then show ?thesis by linarith
    qed
    then consider "t = []" | "t \<noteq> []" "c t = 1" | "t \<noteq> []" "c t = 0" | "t \<noteq> []" "c t = 2" by metis
    then show ?goal
    proof cases
      case 1
      then show ?thesis using "4.IH"(1) G bc j ts greys fuel by auto
    next
      case 2
      with ts greys have "(t, j) \<in> (edges g)\<^sup>*" and "(j, t) \<in> edges g" by (auto simp: greys_reach_def)
      with 2 show ?thesis by auto
    next
      case 3
      with ts have edge: "(j, t) \<in> edges g" by simp
      with greys have "greys_reach g c t" by (auto simp: greys_reach_def)
      moreover have "t \<in> set (ids g)" using edge closed by auto
      ultimately have V: "dfs_ok g (\<lambda>c'. explored g t c c' \<and> c' t = 2) (visit k g c t)"
        using "4.IH"(2) G 3 bc fuel by simp
      show ?thesis
      proof (cases "visit k g c t")
        case (DOk c1)
        with V have e: "explored g j c c1" and t2: "c1 t = 2"
          using edge by (auto intro: explored_from)
        have "black_closed g c1" "c1 j = 1" "greys_reach g c1 j"
          using e j greys by (auto simp: explored_def greys_reach_def)
        moreover have "card (white g c1) \<le> k" using explored_white [OF e] fuel by simp
        ultimately have "dfs_ok g (\<lambda>c'. explored g j c1 c' \<and> (\<forall>t\<in>set ts. t \<noteq> [] \<longrightarrow> c' t = 2))
            (visit_edges k g c1 ts)"
          using "4.IH"(3) G 3 DOk ts by simp
        then have "dfs_ok g (\<lambda>c'. explored g j c c' \<and> (\<forall>t\<in>set (t # ts). t \<noteq> [] \<longrightarrow> c' t = 2))
            (visit_edges k g c1 ts)"
          by (rule dfs_ok_mono) (use e t2 in \<open>auto intro: explored_trans simp: explored_def\<close>)
        with 3 DOk show ?thesis by simp
      qed (use V 3 in auto)
    next
      case 4
      then have "dfs_ok g (\<lambda>c'. explored g j c c' \<and> (\<forall>t\<in>set ts. t \<noteq> [] \<longrightarrow> c' t = 2))
          (visit_edges k g c ts)"
        using "4.IH"(4) G bc j ts greys fuel by simp
      then have "dfs_ok g (\<lambda>c'. explored g j c c' \<and> (\<forall>t\<in>set (t # ts). t \<noteq> [] \<longrightarrow> c' t = 2))
          (visit_edges k g c ts)"
        by (rule dfs_ok_mono) (use 4 in \<open>auto simp: explored_def\<close>)
      with 4 show ?thesis by simp
    qed
  qed
qed

subsection \<open>Validation is exact\<close>

lemma shape_closed: "shape_ok g \<Longrightarrow> closed_graph g"
  by (simp add: shape_ok_def closed_graph_def)

lemma visit_root:
  assumes "closed_graph g" and "i \<in> set (ids g)"
  shows "dfs_ok g (\<lambda>c. \<forall>x. c x \<noteq> 0 \<longleftrightarrow> (i, x) \<in> (edges g)\<^sup>*)
      (visit (Suc (length (g_nodes g))) g (\<lambda>_. 0) i)"
    and "visit (Suc (length (g_nodes g))) g (\<lambda>_. 0) i = DOk c \<Longrightarrow> c x \<noteq> 0 \<Longrightarrow> (x, x) \<notin> (edges g)\<^sup>+"
proof -
  have "card (white g (\<lambda>_. 0)) \<le> card (set (ids g))"
    by (rule card_mono) (auto simp: white_def)
  also have "\<dots> \<le> length (g_nodes g)"
    using card_length [of "ids g"] by (simp add: ids_def)
  finally have fuel: "card (white g (\<lambda>_. 0)) \<le> Suc (length (g_nodes g))" by simp
  have main: "dfs_ok g (\<lambda>c. explored g i (\<lambda>_. 0) c \<and> c i = 2)
      (visit (Suc (length (g_nodes g))) g (\<lambda>_. 0) i)"
    by (rule visit_correct_aux(1) [OF assms(1) _ _ assms(2) _ fuel])
      (auto simp: black_closed_def greys_reach_def)
  have two: "c x \<noteq> 0 \<longleftrightarrow> c x = 2" if "explored g i (\<lambda>_. 0) c" for c x
  proof -
    have "c x \<le> 2" and "c x \<noteq> 1" using that by (auto simp: explored_def black_closed_def)
    then show ?thesis by linarith
  qed
  have "c x \<noteq> 0 \<longleftrightarrow> (i, x) \<in> (edges g)\<^sup>*" if "explored g i (\<lambda>_. 0) c \<and> c i = 2" for c x
  proof -
    have e: "explored g i (\<lambda>_. 0) c" and c: "c i = 2" using that by blast+
    have "(i, x) \<in> (edges g)\<^sup>*" if "c x = 2"
      using e that by (simp add: explored_def)
    moreover have "c x = 2" if "(i, x) \<in> (edges g)\<^sup>*"
      using black_reaches_black [of g c i x] that c e by (simp add: explored_def)
    ultimately show ?thesis using two [OF e] by blast
  qed
  with main show "dfs_ok g (\<lambda>c. \<forall>x. c x \<noteq> 0 \<longleftrightarrow> (i, x) \<in> (edges g)\<^sup>*)
      (visit (Suc (length (g_nodes g))) g (\<lambda>_. 0) i)"
    by (blast intro: dfs_ok_mono)
  show "(x, x) \<notin> (edges g)\<^sup>+"
    if "visit (Suc (length (g_nodes g))) g (\<lambda>_. 0) i = DOk c" and "c x \<noteq> 0"
    using main two [of c x] that by (auto simp: explored_def black_closed_def)
qed

lemma Trigger_Some: "Trigger g = Some n \<Longrightarrow> n \<in> set (g_nodes g) \<and> n_kind n = KTrigger"
  unfolding Trigger_def by (drule find_SomeD) simp

lemma Trigger_None: "Trigger g = None \<longleftrightarrow> (\<forall>n\<in>set (g_nodes g). n_kind n \<noteq> KTrigger)"
  by (simp add: Trigger_def find_None_iff_list)

lemma sole_entry:
  assumes "shape_ok g" and "n \<in> set (g_nodes g)" and "n' \<in> set (g_nodes g)"
    and "is_entry n" and "is_entry n'"
  shows "n = n'"
proof -
  have "length (filter is_entry (g_nodes g)) = Suc 0" using assms(1) by (simp add: shape_ok_def)
  then obtain m where m: "filter is_entry (g_nodes g) = [m]"
    by (auto simp: length_Suc_conv)
  have "n \<in> set (filter is_entry (g_nodes g))" "n' \<in> set (filter is_entry (g_nodes g))"
    using assms by simp_all
  then show ?thesis unfolding m by simp
qed

lemma some_entry:
  assumes "shape_ok g"
  shows "\<exists>n\<in>set (g_nodes g). is_entry n"
proof -
  have "length (filter is_entry (g_nodes g)) = Suc 0" using assms by (simp add: shape_ok_def)
  then obtain m where m: "filter is_entry (g_nodes g) = [m]"
    by (auto simp: length_Suc_conv)
  have "m \<in> set (filter is_entry (g_nodes g))" unfolding m by simp
  then show ?thesis by auto
qed

declare visit.simps [simp del]

text \<open>What is left of \<open>Validate\<close> on a graph of good shape, and that other graphs get an error.\<close>

definition search :: "graph \<Rightarrow> string \<Rightarrow> vresult" where
  "search g i =
     (case visit (Suc (length (g_nodes g))) g (\<lambda>_. 0) i of
        DErr e \<Rightarrow> VErr e
      | DPanic \<Rightarrow> VPanic
      | DFuel \<Rightarrow> VFuel
      | DOk c \<Rightarrow>
          (case find (\<lambda>n. c (n_id n) = 0) (g_nodes g) of
             Some n \<Rightarrow> VErr (Unreachable (n_id n))
           | None \<Rightarrow> VOk))"

lemma Validate_shape:
  assumes "shape_ok g"
  shows "Validate g = (case Trigger g of None \<Rightarrow> VPanic | Some trig \<Rightarrow> search g (n_id trig))"
proof -
  obtain seen where "pass1 0 [] 0 (g_nodes g) = Inr (seen, 1)" and "pass2 seen (g_nodes g) = None"
    using assms passes_shape by blast
  moreover have "g_nodes g \<noteq> []" using assms by (auto simp: shape_ok_def)
  ultimately show ?thesis by (simp add: Validate_def search_def split: option.split)
qed

lemma Validate_bad_shape:
  assumes "\<not> shape_ok g"
  shows "\<exists>e. Validate g = VErr e \<and> (\<forall>t. e \<noteq> CycleAt t)"
proof (cases "pass1 0 [] 0 (g_nodes g)")
  case (Inl e)
  have "\<forall>t. e \<noteq> CycleAt t" if "pass1 i seen k ns = Inl e" for i seen k ns
    using that by (induction i seen k ns rule: pass1.induct) (auto split: if_splits)
  from this [OF Inl] Inl show ?thesis by (cases "g_nodes g = []") (simp_all add: Validate_def)
next
  case (Inr p)
  obtain seen k where p: "p = (seen, k)" by fastforce
  have "\<forall>t. e \<noteq> CycleAt t" if "pass2 seen ns = Some e" for ns e
    using that
    by (induction ns)
      (auto simp: check_node_def check_kind_def split: option.splits if_splits node_kind.splits)
  moreover have "k \<noteq> 1 \<or> pass2 seen (g_nodes g) \<noteq> None"
    using assms passes_shape [of g] Inr p by auto
  ultimately show ?thesis
    using Inr p by (cases "pass2 seen (g_nodes g)"; cases "g_nodes g = []") (auto simp: Validate_def)
qed

lemma search_VOk:
  assumes "closed_graph g" and "i \<in> set (ids g)"
  shows "search g i = VOk \<longleftrightarrow> acyclic (edges g) \<and> (\<forall>n\<in>set (g_nodes g). (i, n_id n) \<in> (edges g)\<^sup>*)"
proof (cases "visit (Suc (length (g_nodes g))) g (\<lambda>_. 0) i")
  case (DOk c)
  have reach: "\<And>x. c x \<noteq> 0 \<longleftrightarrow> (i, x) \<in> (edges g)\<^sup>*"
    using visit_root(1) [OF assms] DOk by simp
  have "acyclic (edges g)" if all: "\<forall>n\<in>set (g_nodes g). (i, n_id n) \<in> (edges g)\<^sup>*"
  proof -
    have "(x, x) \<notin> (edges g)\<^sup>+" for x
    proof
      assume cyc: "(x, x) \<in> (edges g)\<^sup>+"
      then have "x \<in> set (ids g)"
        using assms(1) by (auto simp: closed_graph_def dest!: tranclD)
      with all reach have "c x \<noteq> 0" by (auto simp: ids_def)
      with visit_root(2) [OF assms DOk] cyc show False by blast
    qed
    then show ?thesis by (simp add: acyclic_def)
  qed
  moreover have "search g i = VOk \<longleftrightarrow> (\<forall>n\<in>set (g_nodes g). c (n_id n) \<noteq> 0)"
    using DOk by (auto simp: search_def find_None_iff_list split: option.split dest: find_SomeD)
  ultimately show ?thesis using reach by auto
next
  case (DErr e)
  then show ?thesis using visit_root(1) [OF assms] by (auto simp: search_def acyclic_def)
qed (use visit_root(1) [OF assms] in auto)

lemma Validate_VOk_iff: "Validate g = VOk \<longleftrightarrow> flow_ok g"
proof (cases "shape_ok g")
  case shape: True
  show ?thesis
  proof (cases "Trigger g")
    case None
    with shape have "Validate g = VPanic" by (simp add: Validate_shape)
    moreover have "\<not> flow_ok g" using None by (auto simp: flow_ok_def Trigger_None)
    ultimately show ?thesis by simp
  next
    case (Some trig)
    then have t: "trig \<in> set (g_nodes g)" "n_kind trig = KTrigger" by (auto dest: Trigger_Some)
    have "trig' = trig" if "trig' \<in> set (g_nodes g)" "n_kind trig' = KTrigger" for trig'
      by (rule sole_entry [OF shape that(1) t(1)]) (simp_all add: is_entry_def that t)
    then have "flow_ok g \<longleftrightarrow>
        acyclic (edges g) \<and> (\<forall>n\<in>set (g_nodes g). (n_id trig, n_id n) \<in> (edges g)\<^sup>*)"
      using shape t unfolding flow_ok_def by blast
    moreover have "n_id trig \<in> set (ids g)" using t by (simp add: ids_def)
    ultimately show ?thesis
      using shape Some search_VOk [OF shape_closed [OF shape]] by (simp add: Validate_shape)
  qed
next
  case False
  with Validate_bad_shape [OF False] show ?thesis by (auto simp: flow_ok_def)
qed

text \<open>
  C3. \<open>Graph.Validate\<close> returns nil exactly on the well-formed flows: unique non-blank node ids, the
  fields of each kind present and in range, every edge target an existing node, exactly one entry
  node and it is a trigger, no cycle, and every node reachable from the trigger.
\<close>

theorem Validate_accepts_iff:
  "Validate g = VOk \<longleftrightarrow>
     distinct (ids g) \<and> (\<forall>n\<in>set (g_nodes g). TrimSpace (n_id n) \<noteq> [] \<and> fields_ok n) \<and>
     edges g \<subseteq> set (ids g) \<times> set (ids g) \<and> length (filter is_entry (g_nodes g)) = 1 \<and>
     acyclic (edges g) \<and>
     (\<exists>trig\<in>set (g_nodes g). n_kind trig = KTrigger \<and>
        (\<forall>n\<in>set (g_nodes g). (n_id trig, n_id n) \<in> (edges g)\<^sup>*))"
  by (simp add: Validate_VOk_iff flow_ok_def shape_ok_def)

text \<open>
  C39. \<open>Graph.Validate\<close> dereferences nil exactly on the graphs that pass every check of passes 1
  and 2 and the entry count but whose one entry is a schedule node: \<open>Trigger()\<close> only finds nodes
  of kind trigger. So every otherwise valid schedule flow panics and none can be stored.
\<close>

theorem Validate_panics_iff:
  "Validate g = VPanic \<longleftrightarrow> shape_ok g \<and> (\<exists>n\<in>set (g_nodes g). n_kind n = KSchedule)"
proof (cases "shape_ok g")
  case shape: True
  note entry = some_entry [OF shape]
  show ?thesis
  proof (cases "Trigger g")
    case None
    with shape have "Validate g = VPanic" by (simp add: Validate_shape)
    moreover have "\<exists>n\<in>set (g_nodes g). n_kind n = KSchedule"
      using entry None by (auto simp: Trigger_None is_entry_def)
    ultimately show ?thesis using shape by simp
  next
    case (Some trig)
    then have t: "trig \<in> set (g_nodes g)" "n_kind trig = KTrigger" by (auto dest: Trigger_Some)
    have "search g (n_id trig) \<noteq> VPanic"
      using visit_root(1) [OF shape_closed [OF shape], of "n_id trig"] t
      by (cases "visit (Suc (length (g_nodes g))) g (\<lambda>_. 0) (n_id trig)")
        (auto simp: search_def ids_def split: option.split)
    moreover have "n_kind n \<noteq> KSchedule" if "n \<in> set (g_nodes g)" for n
    proof
      assume "n_kind n = KSchedule"
      then have "n = trig" by (intro sole_entry [OF shape that t(1)]) (simp_all add: is_entry_def t)
      with \<open>n_kind n = KSchedule\<close> t show False by simp
    qed
    ultimately show ?thesis using shape Some by (auto simp: Validate_shape)
  qed
next
  case False
  with Validate_bad_shape [OF False] show ?thesis by auto
qed

text \<open>
  C40. The search of \<open>Graph.Validate\<close> terminates: the fuel, one more than the number of nodes, is
  never used up; and when it reports a cycle through a node, that node lies on a cycle.
\<close>

theorem Validate_search_total:
  "Validate g \<noteq> VFuel \<and> (Validate g = VErr (CycleAt t) \<longrightarrow> (t, t) \<in> (edges g)\<^sup>+)"
proof (cases "shape_ok g")
  case shape: True
  show ?thesis
  proof (cases "Trigger g")
    case None
    with shape show ?thesis by (simp add: Validate_shape)
  next
    case (Some trig)
    then have "n_id trig \<in> set (ids g)" by (auto dest!: Trigger_Some simp: ids_def)
    from visit_root(1) [OF shape_closed [OF shape] this] shape Some show ?thesis
      by (cases "visit (Suc (length (g_nodes g))) g (\<lambda>_. 0) (n_id trig)")
        (auto simp: Validate_shape search_def split: option.split)
  qed
next
  case False
  with Validate_bad_shape [OF False] show ?thesis by auto
qed

definition example_graph :: "string \<Rightarrow> graph" where
  "example_graph target = \<lparr>g_nodes =
     [\<lparr>n_id = ''t'', n_kind = KTrigger, n_name = [], n_metric = ''cpu'', n_source = [], n_op = ''>'',
        n_threshold = Fin 1, n_schedule = [], n_schedule_device = [], n_lang = [], n_script = [],
        n_timeout_s = 0, n_then = [], n_else = [], n_message = [], n_next = ''a''\<rparr>,
      \<lparr>n_id = ''a'', n_kind = KNotify, n_name = [], n_metric = [], n_source = [], n_op = [],
        n_threshold = Fin 0, n_schedule = [], n_schedule_device = [], n_lang = [], n_script = [],
        n_timeout_s = 0, n_then = [], n_else = [], n_message = [], n_next = target\<rparr>]\<rparr>"

lemma Validate_search_total_witness: "(''a'', ''a'') \<in> (edges (example_graph ''a''))\<^sup>+"
proof -
  have "Validate (example_graph ''a'') = VErr (CycleAt ''a'')" by code_simp
  with Validate_search_total [of "example_graph ''a''" "''a''"] show ?thesis by blast
qed

lemma Validate_accepts_iff_witness: "acyclic (edges (example_graph [])) \<and> distinct (ids (example_graph []))"
proof -
  have "Validate (example_graph []) = VOk" by code_simp
  then show ?thesis by (simp add: Validate_accepts_iff)
qed

end
