(* ===== verification/Flow_Safety.thy ===== *)
theory Flow_Safety
  imports Flow_Api Flow_Validate
begin

section \<open>Replay safety of the flow engine\<close>

text \<open>
  What every handler of the engine guarantees, whatever the database faults and the concurrent
  handlers: \<open>flow_hist\<close>, the history relation. Rows of runs are never deleted, their identity never
  changes, a run that ended never changes again (but for losing its deleted flow), the audit trail
  and the logs only grow, a run that moves leaves the rows of the node it left and of the node it is at, and the
  invariant \<open>flow_inv\<close> is kept: one running run per series, fresh ids, and an audit row behind every recorded
  dispatch and every outcome.
\<close>

subsection \<open>The history relation\<close>

definition run_evolves :: "run \<Rightarrow> run \<Rightarrow> bool" where
  "run_evolves r r' \<longleftrightarrow>
     r_id r' = r_id r \<and> r_flow_name r' = r_flow_name r \<and> r_device r' = r_device r \<and>
     r_source r' = r_source r \<and> r_trigger_value r' = r_trigger_value r \<and>
     r_triggered_at r' = r_triggered_at r \<and> r_started_at r' = r_started_at r \<and>
     (r_flow_id r' = r_flow_id r \<or> r_flow_id r' = None) \<and>
     (r_status r \<noteq> Running \<longrightarrow> r' = r\<lparr>r_flow_id := r_flow_id r'\<rparr>)"

definition audit_row :: "hop list \<Rightarrow> run \<Rightarrow> bool" where
  "audit_row hs r \<longleftrightarrow>
     (let logged = (\<lambda>st x. \<exists>h\<in>set hs. h_run h = r_id r \<and> h_node h = r_current_node r \<and>
                       h_status h = st \<and> h_reason h = x) in
      (\<forall>c. r_command_id r = Some c \<longrightarrow> logged HDispatched (TStr c)) \<and>
      (case r_status r of
        Running \<Rightarrow> True
      | Succeeded \<Rightarrow> logged HOk (r_reason r)
      | Failed \<Rightarrow> logged HFailed (r_reason r)
      | TimedOut \<Rightarrow> logged HTimeout (r_reason r)))"

text \<open>A move of a run is logged when the rows \<open>hs\<close> have its branch at the old node and its entry at the new one.\<close>

definition logged_move :: "hop list \<Rightarrow> run \<Rightarrow> run \<Rightarrow> bool" where
  "logged_move hs r r' \<longleftrightarrow>
     r_current_node r' = r_current_node r \<or>
     (\<exists>h\<in>set hs. h_run h = r_id r \<and> h_node h = r_current_node r \<and> h_status h = HBranched) \<and>
     (\<exists>h\<in>set hs. h_run h = r_id r \<and> h_node h = r_current_node r' \<and> h_status h = HEntered)"

definition moves_logged :: "flow_world \<Rightarrow> flow_world \<Rightarrow> bool" where
  "moves_logged w w' \<longleftrightarrow> rows_evolve (logged_move (drop (length (hops w)) (hops w'))) (runs w) (runs w')"

definition catalog_ok :: "flow list \<Rightarrow> int \<Rightarrow> bool" where
  "catalog_ok fs n \<longleftrightarrow>
     distinct (map f_id fs) \<and> distinct (map f_name fs) \<and>
     (\<forall>f\<in>set fs. f_id f < n \<and> flow_ok (f_graph f))"

definition flow_inv :: "flow_world \<Rightarrow> bool" where
  "flow_inv w \<longleftrightarrow>
     catalog_ok (flows w) (flow_seq w) \<and> uniq run_key run_live (runs w) \<and> distinct (map r_id (runs w)) \<and>
     (\<forall>r\<in>set (runs w). r_id r < run_seq w \<and> audit_row (hops w) r)"

definition flow_hist :: "flow_world \<Rightarrow> flow_world \<Rightarrow> bool" where
  "flow_hist w w' \<longleftrightarrow>
     rows_evolve run_evolves (runs w) (runs w') \<and> moves_logged w w' \<and>
     extends (hops w) (hops w') \<and> extends (bus_log w) (bus_log w') \<and>
     extends (dispatches w) (dispatches w') \<and> extends (notices w) (notices w') \<and>
     run_seq w \<le> run_seq w' \<and> (flow_inv w \<longrightarrow> flow_inv w')"

lemma run_evolves_refl [simp]: "run_evolves r r"
  by (simp add: run_evolves_def)

lemma run_evolves_trans: "run_evolves a b \<Longrightarrow> run_evolves b c \<Longrightarrow> run_evolves a c"
  unfolding run_evolves_def by (cases a; cases b; cases c) auto

lemma logged_move_refl [simp]: "logged_move hs r r"
  by (simp add: logged_move_def)

lemma logged_move_trans:
  assumes "logged_move a r r'" "logged_move b r' r''" "r_id r' = r_id r"
  shows "logged_move (a @ b) r r''"
proof (cases "r_current_node r' = r_current_node r")
  case True
  then show ?thesis using assms(2,3) unfolding logged_move_def by auto
next
  case False
  then show ?thesis
    using assms unfolding logged_move_def by (cases "r_current_node r'' = r_current_node r'") auto
qed

lemma moves_logged_same [simp]:
  "runs w' = runs w \<Longrightarrow> moves_logged w w'" "runs w' = runs w @ new \<Longrightarrow> moves_logged w w'"
  by (simp_all add: moves_logged_def rows_evolve_refl rows_evolve_append)

lemma moves_logged_trans:
  assumes "moves_logged u v" "moves_logged v w" "rows_evolve run_evolves (runs u) (runs v)"
    and "extends (hops u) (hops v)" "extends (hops v) (hops w)"
  shows "moves_logged u w"
proof -
  obtain a b where h: "hops v = hops u @ a" "hops w = hops u @ a @ b"
    using assms(4,5) by (auto simp: extends_iff)
  have "logged_move (a @ b) (runs u ! i) (runs w ! i)" if "i < length (runs u)" for i
  proof -
    have i: "i < length (runs v)" using assms(3) that by (simp add: rows_evolve_def)
    have "logged_move a (runs u ! i) (runs v ! i)" "logged_move b (runs v ! i) (runs w ! i)"
      using assms(1,2) that i by (simp_all add: moves_logged_def rows_evolve_def h)
    moreover have "r_id (runs v ! i) = r_id (runs u ! i)"
      using assms(3) that by (simp add: rows_evolve_def run_evolves_def)
    ultimately show ?thesis by (rule logged_move_trans)
  qed
  moreover have "length (runs u) \<le> length (runs w)"
    using assms(1,2) by (simp add: moves_logged_def rows_evolve_def)
  ultimately show ?thesis by (simp add: moves_logged_def rows_evolve_def h)
qed

interpretation fh: history flow_hist
proof
  show "flow_hist w (w\<lparr>tick := n\<rparr>)" for w :: flow_world and n
    by (simp add: flow_hist_def flow_inv_def rows_evolve_refl)
next
  fix u v w
  assume 1: "flow_hist u v" and 2: "flow_hist v w"
  have "moves_logged u w"
    by (rule moves_logged_trans [of u v w]) (use 1 2 in \<open>simp_all add: flow_hist_def\<close>)
  with 1 2 show "flow_hist u w"
    by (auto simp: flow_hist_def intro: extends_trans rows_evolve_trans run_evolves_trans)
qed

subsection \<open>The statements\<close>

lemma audit_row_mono: "audit_row hs r \<Longrightarrow> audit_row (hs @ hs') r"
  by (auto simp: audit_row_def Let_def split: run_status.splits)

lemma hist_same_tables:
  assumes "runs w' = runs w" and "run_seq w' = run_seq w" and "hops w' = hops w"
    and "flow_inv w \<Longrightarrow> catalog_ok (flows w') (flow_seq w')" and "extends (bus_log w) (bus_log w')" and "extends (dispatches w) (dispatches w')"
    and "extends (notices w) (notices w')"
  shows "flow_hist w w'"
  using assms by (auto simp: flow_hist_def flow_inv_def rows_evolve_refl)

lemma hist_logs:
  assumes "runs w' = runs w" and "run_seq w' = run_seq w" and "hops w' = hops w"
    and "flows w' = flows w" and "flow_seq w' = flow_seq w" and "extends (bus_log w) (bus_log w')"
    and "extends (dispatches w) (dispatches w')" and "extends (notices w) (notices w')"
  shows "flow_hist w w'"
  by (rule hist_same_tables) (use assms in \<open>simp_all add: flow_inv_def\<close>)

lemma hist_add_hop: "flow_hist w (add_hop E rid nd st reason w)"
  by (auto simp: flow_hist_def flow_inv_def add_hop_def rows_evolve_refl intro: audit_row_mono)

text \<open>
  The effect of a conditional hop: the rows it selects are running rows of one id, they move by
  \<open>run_evolves\<close> and the audit rows it appends account for where they are now.
\<close>

definition hop_effect :: "(run \<Rightarrow> bool) \<Rightarrow> (run \<Rightarrow> run) \<Rightarrow> hop list \<Rightarrow> flow_world \<Rightarrow> flow_world" where
  "hop_effect P f hs w = w\<lparr>runs := update_where P f (runs w), hops := hops w @ hs\<rparr>"

definition good_hop :: "(run \<Rightarrow> bool) \<Rightarrow> (run \<Rightarrow> run) \<Rightarrow> hop list \<Rightarrow> bool" where
  "good_hop P f hs \<longleftrightarrow>
     (\<forall>r. P r \<longrightarrow> r_status r = Running \<and> run_evolves r (f r) \<and> r_flow_id (f r) = r_flow_id r \<and>
        logged_move hs r (f r) \<and> (\<forall>old. audit_row old r \<longrightarrow> audit_row (old @ hs) (f r)))"

lemma hist_hop_effect:
  assumes good: "good_hop P f hs"
  shows "flow_hist w (hop_effect P f hs w)"
proof -
  have step: "\<And>r. P r \<Longrightarrow> run_evolves r (f r)" using good by (simp add: good_hop_def)
  have ids: "map r_id (update_where P f rs) = map r_id rs" for rs
    by (rule map_update_where) (use step in \<open>simp add: run_evolves_def\<close>)
  have "flow_inv (hop_effect P f hs w)" if inv: "flow_inv w"
  proof -
    have "uniq run_key run_live (update_where P f (runs w))"
      by (rule uniq_update_where)
        (use inv good in \<open>auto simp: flow_inv_def good_hop_def run_live_def run_key_def run_evolves_def\<close>)
    moreover have "r_id r < run_seq w \<and> audit_row (hops w @ hs) r"
      if r: "r \<in> set (update_where P f (runs w))" for r
    proof -
      from r obtain q where q: "q \<in> set (runs w)" "r = (if P q then f q else q)"
        by (auto simp: set_update_where)
      with inv have "r_id q < run_seq w \<and> audit_row (hops w) q" by (simp add: flow_inv_def)
      moreover have "r_id (f q) = r_id q \<and> audit_row (hops w @ hs) (f q)" if "P q"
        using good that calculation by (simp add: good_hop_def run_evolves_def)
      ultimately show ?thesis using q by (auto intro: audit_row_mono)
    qed
    ultimately show ?thesis using inv by (simp add: flow_inv_def hop_effect_def ids)
  qed
  moreover have "moves_logged w (hop_effect P f hs w)"
    using good by (auto simp: moves_logged_def hop_effect_def good_hop_def intro: rows_evolve_update)
  ultimately show ?thesis
    by (simp add: flow_hist_def hop_effect_def rows_evolve_update step)
qed

text \<open>
  All outcomes of a hop's transaction, over every fault schedule: nothing but what the others did,
  or the whole effect, which needs a row to have been hit. There is no half-applied hop.
\<close>

definition hop_row :: "flow_world env \<Rightarrow> nat \<Rightarrow> int \<Rightarrow> string \<Rightarrow> hop_status \<Rightarrow> msg \<Rightarrow> hop" where
  "hop_row E n rid nd st reason =
     \<lparr>h_run = rid, h_node = nd, h_status = st, h_reason = reason, h_at = clock E n\<rparr>"

definition tx_outcome :: "(run \<Rightarrow> bool) \<Rightarrow> (run \<Rightarrow> run) \<Rightarrow> hop list \<Rightarrow> flow_world \<Rightarrow>
    applied \<times> flow_world \<Rightarrow> bool" where
  "tx_outcome P f hs v out \<longleftrightarrow>
     (snd out = v\<lparr>tick := tick (snd out)\<rparr> \<and> (fst (fst out) \<longrightarrow> snd (fst out) \<noteq> None)) \<or>
     (affected P (runs v) \<noteq> 0 \<and> fst (fst out) \<and>
      snd out = (hop_effect P f hs v)\<lparr>tick := tick (snd out)\<rparr>)"

lemma hop_tx_one:
  "tx_outcome P (f (clock E (Suc (Suc (tick w))))) [hop_row E (Suc (Suc (Suc (tick w)))) rid nd st reason]
     (others E (tick w) w)
     (run_state (hop_tx E (\<lambda>u. run_stmt P (f (clock E (tick u))) u) (hop_stmt E rid nd st reason) None) w)"
  by (simp add: tx_outcome_def hop_tx_def transaction_def run_tx_def tx_exec_def run_stmt_def hop_stmt_def
      add_hop_def hop_effect_def hop_row_def split: db_out.split)

lemma hop_tx_two:
  "tx_outcome P (f (clock E (Suc (Suc (tick w)))))
     [hop_row E (Suc (Suc (Suc (tick w)))) rid nd st reason,
      hop_row E (Suc (Suc (Suc (Suc (tick w))))) rid nd' st' reason']
     (others E (tick w) w)
     (run_state (hop_tx E (\<lambda>u. run_stmt P (f (clock E (tick u))) u) (hop_stmt E rid nd st reason)
        (Some (hop_stmt E rid nd' st' reason'))) w)"
  by (simp add: tx_outcome_def hop_tx_def transaction_def run_tx_def tx_exec_def run_stmt_def hop_stmt_def
      add_hop_def hop_effect_def hop_row_def split: db_out.split)

lemma hist_tx_outcome:
  assumes "tx_outcome P f hs (others E n w) out" and "rely flow_hist E" and "good_hop P f hs"
  shows "flow_hist w (snd out)"
proof -
  have v: "flow_hist w (others E n w)" using assms(2) by (simp add: rely_def)
  from assms(1) consider "snd out = (others E n w)\<lparr>tick := tick (snd out)\<rparr>"
    | "snd out = (hop_effect P f hs (others E n w))\<lparr>tick := tick (snd out)\<rparr>"
    by (auto simp: tx_outcome_def)
  then show ?thesis
  proof cases
    case 1
    then show ?thesis using fh.then_ticks [OF v] by metis
  next
    case 2
    then show ?thesis
      using fh.then_ticks [OF fh.trans [OF v hist_hop_effect [OF assms(3)]]] by metis
  qed
qed

lemma good_dispatched: "good_hop (\<lambda>r. at_node rid nd r \<and> r_command_id r = None)
    (set_dispatched cmd d t) [hop_row E n rid nd HDispatched (TStr cmd)]"
  by (simp add: good_hop_def at_node_def set_dispatched_def run_evolves_def audit_row_def logged_move_def hop_row_def)

lemma good_succeeded: "good_hop (at_node rid nd) (set_succeeded reason t) [hop_row E n rid nd HOk reason]"
  by (simp add: good_hop_def at_node_def set_succeeded_def run_evolves_def audit_row_def logged_move_def hop_row_def)

lemma good_node: "good_hop (at_node rid nd) (set_node to ca t)
    [hop_row E n rid nd HBranched reason, hop_row E m rid to HEntered reason']"
  by (simp add: good_hop_def at_node_def set_node_def run_evolves_def audit_row_def logged_move_def hop_row_def)

lemma good_ended: "good_hop (at_node rid nd) (set_ended (if timeout then TimedOut else Failed) reason t)
    [hop_row E n rid nd (if timeout then HTimeout else HFailed) reason]"
  by (simp add: good_hop_def at_node_def set_ended_def run_evolves_def audit_row_def logged_move_def hop_row_def Let_def)

lemma hist_Dispatched [guarantee]: "rely flow_hist E \<Longrightarrow> guarantees flow_hist (Dispatched E rid nd cmd d)"
  unfolding Dispatched_def
  by (rule guaranteesI) (rule hist_tx_outcome [OF hop_tx_one _ good_dispatched])

lemma hist_AdvanceTo [guarantee]: "rely flow_hist E \<Longrightarrow> guarantees flow_hist (AdvanceTo E rid nd to reason ca)"
proof (rule guaranteesI)
  fix w
  assume "rely flow_hist E"
  then show "flow_hist w (snd (run_state (AdvanceTo E rid nd to reason ca) w))"
    unfolding AdvanceTo_def
    using hist_tx_outcome [OF hop_tx_one _ good_succeeded] hist_tx_outcome [OF hop_tx_two _ good_node]
    by (cases "to = []") simp_all
qed

lemma hist_FailRun [guarantee]: "rely flow_hist E \<Longrightarrow> guarantees flow_hist (FailRun E rid nd timeout reason)"
  unfolding FailRun_def
  by (rule guaranteesI) (rule hist_tx_outcome [OF hop_tx_one _ good_ended])

subsection \<open>Autocommitted statements\<close>

lemma catalog_insert:
  assumes "catalog_ok fs n" and "flow_ok (f_graph f)" and "f_id f = n" and "f_name f \<notin> f_name ` set fs"
  shows "catalog_ok (fs @ [f]) (n + 1)"
  using assms by (force simp: catalog_ok_def)

lemma catalog_mono: "catalog_ok fs n \<Longrightarrow> n \<le> m \<Longrightarrow> catalog_ok fs m"
  by (force simp: catalog_ok_def)

lemma catalog_delete: "catalog_ok fs n \<Longrightarrow> catalog_ok (filter P fs) n"
  by (auto simp: catalog_ok_def distinct_map_filter)

lemma catalog_update:
  assumes ok: "catalog_ok fs n"
    and id: "\<And>f. f_id (p f) = f_id f"
    and graph: "\<And>f. flow_ok (f_graph f) \<Longrightarrow> flow_ok (f_graph (p f))"
    and name: "\<And>f. f \<in> set fs \<Longrightarrow> f_id f = i \<Longrightarrow>
       f_name (p f) = f_name f \<or> (\<forall>f'\<in>set fs. f_name f' = f_name (p f) \<longrightarrow> f_id f' = i)"
  shows "catalog_ok (update_where (\<lambda>f. f_id f = i) p fs) n"
proof -
  let ?u = "\<lambda>f. if f_id f = i then p f else f"
  have same: "f = f'" if "f \<in> set fs" "f' \<in> set fs" "f_id f = f_id f'" for f f'
    using ok that by (auto simp: catalog_ok_def distinct_map dest: inj_onD)
  have "distinct (map f_name (map ?u fs))"
  proof -
    have "inj_on (f_name \<circ> ?u) (set fs)"
    proof (rule inj_onI)
      fix f f' assume f: "f \<in> set fs" and f': "f' \<in> set fs" and eq: "(f_name \<circ> ?u) f = (f_name \<circ> ?u) f'"
      have names: "f_name f = f_name f' \<Longrightarrow> f = f'"
        using ok f f' by (auto simp: catalog_ok_def distinct_map dest: inj_onD)
      show "f = f'"
      proof (cases "f_id f = i"; cases "f_id f' = i")
        assume "f_id f = i" and "f_id f' = i"
        then show ?thesis by (intro same f f') simp
      next
        assume i: "f_id f = i" and ni: "f_id f' \<noteq> i"
        with eq have "f_name f' = f_name (p f)" by simp
        with name [OF f i] ni f' have "f_name f = f_name f'" by auto
        then show ?thesis by (rule names)
      next
        assume ni: "f_id f \<noteq> i" and i: "f_id f' = i"
        with eq have "f_name f = f_name (p f')" by simp
        with name [OF f' i] ni f have "f_name f = f_name f'" by auto
        then show ?thesis by (rule names)
      next
        assume "f_id f \<noteq> i" and "f_id f' \<noteq> i"
        with eq show ?thesis by (intro names) simp
      qed
    qed
    then show ?thesis using ok by (simp add: catalog_ok_def distinct_map)
  qed
  moreover have "map f_id (map ?u fs) = map f_id fs" using id by simp
  moreover have "f_id f < n \<and> flow_ok (f_graph f)" if "f \<in> set (map ?u fs)" for f
    using that ok id graph by (auto simp: catalog_ok_def split: if_splits)
  ultimately show ?thesis
    unfolding catalog_ok_def update_where_def using ok by (simp add: catalog_ok_def del: map_map)
qed

lemma hist_insert_flow:
  assumes "flow_ok g"
  shows "flow_hist w (snd (insert_flow_stmt E name descr g cooldown enabled w))"
proof -
  have "catalog_ok (flows w) (flow_seq w + 1)" if "flow_inv w"
    using that by (auto simp: flow_inv_def elim: catalog_mono)
  moreover have more: "catalog_ok (flows w @ [f]) (flow_seq w + 1)"
    if "flow_inv w" "f_name f \<notin> f_name ` set (flows w)" "f_graph f = g" "f_id f = flow_seq w" for f
    using that assms by (intro catalog_insert) (auto simp: flow_inv_def)
  ultimately show ?thesis
  proof (cases "name \<in> f_name ` set (flows w)")
    case True
    then show ?thesis
      using \<open>flow_inv w \<Longrightarrow> catalog_ok (flows w) (flow_seq w + 1)\<close>
      by (intro hist_same_tables) (auto simp: insert_flow_stmt_def Let_def)
  next
    case False
    then have "\<not> (\<exists>f\<in>set (flows w). f_name f = name)" by blast
    then show ?thesis
      using more False by (intro hist_same_tables) (simp_all add: insert_flow_stmt_def Let_def)
  qed
qed

lemma hist_update_flow:
  assumes "\<And>x. g = Some x \<Longrightarrow> flow_ok x"
  shows "flow_hist w (snd (update_flow_stmt E i name (patch_flow name descr g cooldown enabled) w))"
proof -
  let ?p = "\<lambda>f. (patch_flow name descr g cooldown enabled f)\<lparr>f_updated_at := clock E (tick w)\<rparr>"
  have "catalog_ok (update_where (\<lambda>f. f_id f = i) ?p (flows w)) (flow_seq w)"
    if "flow_inv w" and "\<not> (case name of None \<Rightarrow> False | Some x \<Rightarrow> \<exists>f\<in>set (flows w). f_name f = x \<and> f_id f \<noteq> i)"
  proof (rule catalog_update)
    show "catalog_ok (flows w) (flow_seq w)" using that by (simp add: flow_inv_def)
    show "f_id (?p f) = f_id f" for f by (simp add: patch_flow_def)
    show "flow_ok (f_graph (?p f))" if "flow_ok (f_graph f)" for f
      using that assms by (simp add: patch_flow_def split: option.split)
    show "f_name (?p f) = f_name f \<or> (\<forall>f'\<in>set (flows w). f_name f' = f_name (?p f) \<longrightarrow> f_id f' = i)" for f
      using that(2) by (cases name) (auto simp: patch_flow_def)
  qed
  then show ?thesis
    by (auto simp: update_flow_stmt_def flow_inv_def intro!: hist_same_tables)
qed

lemma audit_row_flow_id [simp]: "audit_row hs (r\<lparr>r_flow_id := x\<rparr>) = audit_row hs r"
  by (cases "r_status r") (simp_all add: audit_row_def)

lemma hist_delete_flow: "flow_hist w (snd (delete_flow_stmt i w))"
proof -
  let ?f = "\<lambda>r. r\<lparr>r_flow_id := None\<rparr>" and ?P = "\<lambda>r. r_flow_id r = Some i"
  have ids: "map r_id (update_where ?P ?f rs) = map r_id rs" for rs
    by (rule map_update_where) simp
  have "uniq run_key run_live (update_where ?P ?f (runs w))" if "flow_inv w"
    by (rule uniq_update_where) (use that in \<open>auto simp: flow_inv_def run_live_def\<close>)
  then have "flow_inv (w\<lparr>flows := filter (\<lambda>f. f_id f \<noteq> i) (flows w), runs := update_where ?P ?f (runs w)\<rparr>)"
    if "flow_inv w"
    using that by (auto simp: flow_inv_def ids set_update_where catalog_delete split: if_splits)
  moreover have "rows_evolve run_evolves (runs w) (update_where ?P ?f (runs w))"
    "rows_evolve (logged_move hs) (runs w) (update_where ?P ?f (runs w))" for hs
    by (rule rows_evolve_update; simp add: run_evolves_def logged_move_def)+
  ultimately show ?thesis by (simp add: flow_hist_def moves_logged_def delete_flow_stmt_def)
qed

lemma hist_insert_run: "flow_hist w (snd (insert_run_stmt E f device source v at0 trig w))"
proof -
  let ?r = "new_run (run_seq w) f device source v at0 trig (clock E (tick w))"
  have up: "flow_inv (w\<lparr>run_seq := run_seq w + 1\<rparr>)" if "flow_inv w"
    using that by (force simp: flow_inv_def)
  have ins: "flow_inv (w\<lparr>run_seq := run_seq w + 1, runs := runs w @ [?r]\<rparr>)"
    if "flow_inv w" and "\<not> violates run_key run_live (runs w) ?r"
    using that up by (auto simp: flow_inv_def uniq_append new_run_def audit_row_def)
  show ?thesis
    by (auto simp: flow_hist_def insert_run_stmt_def Let_def up ins
        intro: rows_evolve_refl rows_evolve_append)
qed

lemma hist_hop_stmt: "flow_hist w (snd (hop_stmt E rid nd st reason w))"
  by (simp add: hop_stmt_def hist_add_hop)

lemma hist_wait_stmt: "flow_hist w (snd (wait_stmt E rid nd reason w))"
  by (simp add: wait_stmt_def hist_add_hop)

lemmas hist_stmts = hist_delete_flow hist_insert_run hist_hop_stmt
  hist_wait_stmt

subsection \<open>The whole engine\<close>

text \<open>The queries and the writes that touch no run.\<close>

lemmas flow_queries = GetFlow_def GetRun_def RunByCommand_def ActiveRuns_def CooldownStarted_def
  LatestSample_def FreshSamples_def ListFlows_def WaitEvent_def appendEvent_def

lemma hist_queries [guarantee]:
  assumes "rely flow_hist E"
  shows "guarantees flow_hist (GetFlow E i)" "guarantees flow_hist (GetRun E i)"
    "guarantees flow_hist (RunByCommand E c)" "guarantees flow_hist (ActiveRuns E)"
    "guarantees flow_hist (CooldownStarted E i d s t)" "guarantees flow_hist (LatestSample E d m s t)"
    "guarantees flow_hist (FreshSamples E m s t fr)" "guarantees flow_hist (ListFlows E b)"
    "guarantees flow_hist (WaitEvent E i nd reason)" "guarantees flow_hist (appendEvent E i nd st reason)"
  unfolding flow_queries using assms by (intro guarantee hist_stmts | assumption)+

lemma hist_InsertRun [guarantee]:
  "rely flow_hist E \<Longrightarrow> guarantees flow_hist (InsertRun E f device source v t)"
  unfolding InsertRun_def by (intro guarantee hist_stmts | assumption)+

lemma hist_publish [guarantee]: "guarantees flow_hist (publish D ev)"
  by (rule guaranteesI) (simp add: publish_def Let_def hist_logs split: db_out.split)

lemma hist_remediate [guarantee]: "guarantees flow_hist (remediate D device lang script)"
  by (rule guaranteesI) (simp add: remediate_def Let_def hist_logs split: sum.split)

lemma hist_notify [guarantee]: "guarantees flow_hist (notify r nd reason)"
  by (rule guaranteesI) (simp add: notify_def hist_logs)

lemma hist_fire [guarantee]: "guarantees flow_hist (modifies (\<lambda>w. w\<lparr>last_fire := g w\<rparr>))"
  by (rule guaranteesI) (simp add: hist_logs)

lemma hist_each: "(\<And>x. guarantees flow_hist (f x)) \<Longrightarrow> guarantees flow_hist (each f xs)"
  by (induction xs) (auto intro!: guarantee)

lemmas engine_helpers = publishStep_def notifyFail_def fail_and_notify_def advance_and_publish_def
  within_cooldown_def flowForRun_def

lemma hist_helpers [guarantee]:
  assumes "rely flow_hist (d_env D)"
  shows "guarantees flow_hist (publishStep D i nd)" "guarantees flow_hist (notifyFail r nd reason)"
    "guarantees flow_hist (fail_and_notify D r nd b reason told)"
    "guarantees flow_hist (advance_and_publish D i from to reason ca)"
    "guarantees flow_hist (within_cooldown D f ev)" "guarantees flow_hist (flowForRun D r)"
  unfolding engine_helpers using assms by (intro guarantee | assumption)+

lemma hist_handleTrigger [guarantee]:
  "rely flow_hist (d_env D) \<Longrightarrow> guarantees flow_hist (handleTrigger D ev)"
  unfolding handleTrigger_def handleScheduleTrigger_def handleMetricTrigger_def
  by (intro guarantee | assumption)+

lemma hist_finishScript [guarantee]:
  "rely flow_hist (d_env D) \<Longrightarrow> guarantees flow_hist (finishScript D r cmd n x)"
  unfolding finishScript_def by (intro guarantee | assumption)+

lemma hist_steps [guarantee]:
  assumes "rely flow_hist (d_env D)"
  shows "guarantees flow_hist (stepScript D r n)" "guarantees flow_hist (stepCheck D r n)"
    "guarantees flow_hist (stepNotify D r n)"
  unfolding stepScript_def after_dispatch_def stepCheck_def stepNotify_def script_result_def
  using assms by (intro guarantee | assumption)+

lemma hist_step_node [guarantee]:
  "rely flow_hist (d_env D) \<Longrightarrow> guarantees flow_hist (step_node D r n)"
  unfolding step_node_def by (cases "n_kind n") (simp_all add: guarantee)

lemma hist_handlers [guarantee]:
  assumes "rely flow_hist (d_env D)"
  shows "guarantees flow_hist (handleStep D ev)" "guarantees flow_hist (handleCommand D ev)"
  unfolding handleStep_def handleCommand_def using assms by (intro guarantee | assumption)+

lemma hist_onEvent [guarantee]: "rely flow_hist (d_env D) \<Longrightarrow> guarantees flow_hist (onEvent D ev)"
  unfolding onEvent_def by (cases "e_type ev") (simp_all add: guarantee)

lemma hist_sweep_run [guarantee]:
  "rely flow_hist (d_env D) \<Longrightarrow> guarantees flow_hist (sweep_run D t r)"
  unfolding sweep_run_def by (intro guarantee | assumption)+

lemma hist_Sweep [guarantee]: "rely flow_hist (d_env D) \<Longrightarrow> guarantees flow_hist (Sweep D t)"
  unfolding Sweep_def by (intro guarantee hist_each | assumption)+

lemma hist_sample_flow [guarantee]:
  "rely flow_hist (d_env D) \<Longrightarrow> guarantees flow_hist (sample_flow D t f)"
  unfolding sample_flow_def by (intro guarantee hist_each | assumption)+

lemma hist_SampleOnce [guarantee]: "rely flow_hist (d_env D) \<Longrightarrow> guarantees flow_hist (SampleOnce D t)"
  unfolding SampleOnce_def by (intro guarantee hist_each | assumption)+

subsection \<open>The API\<close>

lemma Validate_flow_ok: "Validate g = VOk \<Longrightarrow> flow_ok g"
  by (simp add: Validate_VOk_iff)

lemma hist_CreateFlow:
  assumes "rely flow_hist E" and "flow_ok g"
  shows "guarantees flow_hist (CreateFlow E name descr g cooldown enabled)"
  unfolding CreateFlow_def using assms by (intro guarantee hist_insert_flow | assumption)+

lemma hist_UpdateFlow:
  assumes "rely flow_hist E" and "\<And>x. g = Some x \<Longrightarrow> flow_ok x"
  shows "guarantees flow_hist (UpdateFlow E i name descr g cooldown enabled)"
  unfolding UpdateFlow_def using assms(1) by (intro guarantee hist_update_flow assms(2) | assumption)+

lemma hist_api_queries [guarantee]:
  assumes "rely flow_hist E"
  shows "guarantees flow_hist (DeleteFlow E i)" "guarantees flow_hist (Runs E st dev fl k)"
    "guarantees flow_hist (Events E i)"
  unfolding DeleteFlow_def Runs_def Events_def using assms by (intro guarantee hist_stmts | assumption)+

lemma hist_TriggerFlow [guarantee]:
  "rely flow_hist (d_env D) \<Longrightarrow> guarantees flow_hist (TriggerFlow D i dev src v)"
  unfolding TriggerFlow_def by (intro guarantee | assumption)+

lemma hist_handleFlows [guarantee]:
  assumes "\<And>a. A = Some a \<Longrightarrow> rely flow_hist (d_env (a_deps a))"
  shows "guarantees flow_hist (handleFlows A m b body)"
  using assms
  by (auto simp: handleFlows_def Let_def Validate_flow_ok guarantee hist_CreateFlow
      split: option.split http_method.split vresult.split)

lemma hist_patchFlow [guarantee]:
  assumes "rely flow_hist (d_env (a_deps a))"
  shows "guarantees flow_hist (patchFlow a i body)"
  using assms
  by (auto simp: patchFlow_def Let_def Validate_flow_ok guarantee
      intro!: fh.bind hist_UpdateFlow split: option.split vresult.split)

lemma hist_handleFlowSub [guarantee]:
  assumes "\<And>a. A = Some a \<Longrightarrow> rely flow_hist (d_env (a_deps a))"
  shows "guarantees flow_hist (handleFlowSub A s)"
proof (cases A)
  case None
  then show ?thesis by (simp add: handleFlowSub_def guarantee)
next
  case (Some a)
  with assms have "rely flow_hist (d_env (a_deps a))" by blast
  then show ?thesis
    unfolding handleFlowSub_def Some Let_def handleFlowTrigger_def handleFlowRuns_def handleFlowRunDetail_def
    by (auto simp: guarantee split: option.split http_method.split list.split)
qed

end
