(* ===== verification/Flow_Properties.thy ===== *)
theory Flow_Properties
  imports Flow_Safety
begin

section \<open>Properties of the flow engine\<close>

text \<open>
  The server as a system: its entry points are the deliveries of the bus, the two tickers and the
  HTTP routes; between them the agents report samples and results. \<open>flow_reach\<close> are the worlds it
  reaches from an empty database, under every fault schedule and every interference by handlers
  that keep the history relation.
\<close>

subsection \<open>The system\<close>

datatype entry_point =
    Bus event | SweepTick time | SampleTick time
  | Flows http_method bool "flow_request option" | Sub flow_sub

definition discard :: "'a fm \<Rightarrow> unit fm" where
  "discard c = do { _ \<leftarrow> c; State_Monad.return () }"

definition serve :: "api \<Rightarrow> entry_point \<Rightarrow> unit fm" where
  "serve a x =
     (case x of
        Bus ev \<Rightarrow> discard (onEvent (a_deps a) ev)
      | SweepTick t \<Rightarrow> Sweep (a_deps a) t
      | SampleTick t \<Rightarrow> discard (SampleOnce (a_deps a) t)
      | Flows m b body \<Rightarrow> discard (handleFlows (Some a) m b body)
      | Sub s \<Rightarrow> discard (handleFlowSub (Some a) s))"

inductive flow_reach :: "flow_world \<Rightarrow> bool" where
  empty: "flows w = [] \<Longrightarrow> runs w = [] \<Longrightarrow> flow_reach w"
| served: "flow_reach w \<Longrightarrow> rely flow_hist (d_env (a_deps a)) \<Longrightarrow>
    flow_reach (snd (run_state (serve a x) w))"
| reported: "flow_reach w \<Longrightarrow> flow_reach (w\<lparr>metrics := ms, results := rs\<rparr>)"

lemma hist_serve: "rely flow_hist (d_env (a_deps a)) \<Longrightarrow> guarantees flow_hist (serve a x)"
  by (cases x) (auto simp: serve_def discard_def intro!: guarantee)

lemma reach_inv: "flow_reach w \<Longrightarrow> flow_inv w"
proof (induction rule: flow_reach.induct)
  case (empty w)
  then show ?case by (simp add: flow_inv_def catalog_ok_def)
next
  case (served w a x)
  then show ?case
    using guaranteesD [OF hist_serve [OF served.hyps(2)], where w = w] by (simp add: flow_hist_def)
next
  case (reported w ms rs)
  then show ?case by (simp add: flow_inv_def)
qed

lemma hist_refl_rely [simp]: "rely flow_hist (calm t)"
  by (simp add: rely_def)

subsection \<open>A small deployment\<close>

text \<open>A disk-cleanup flow and its first run, for the instances below.\<close>

definition blank_node :: "string \<Rightarrow> node_kind \<Rightarrow> node" where
  "blank_node i k = \<lparr>n_id = i, n_kind = k, n_name = [], n_metric = [], n_source = [], n_op = [],
     n_threshold = Fin 0, n_schedule = [], n_schedule_device = [], n_lang = [], n_script = [],
     n_timeout_s = 0, n_then = [], n_else = [], n_message = [], n_next = []\<rparr>"

definition demo_graph :: graph where
  "demo_graph = \<lparr>g_nodes =
     [(blank_node ''t'' KTrigger)\<lparr>n_metric := ''disk'', n_op := ''>'', n_threshold := Fin 90, n_next := ''fix''\<rparr>,
      (blank_node ''fix'' KScript)\<lparr>n_lang := ''sh'', n_script := ''clean'', n_next := ''again''\<rparr>,
      (blank_node ''again'' KCheck)\<lparr>n_metric := ''disk'', n_op := ''<'', n_threshold := Fin 80, n_else := ''tell''\<rparr>,
      blank_node ''tell'' KNotify]\<rparr>"

definition demo_deps :: deps where
  "demo_deps = calm_deps 0 (\<lambda>dev lang script. Inr ''c1'')"

definition demo_api :: api where
  "demo_api = \<lparr>a_deps = demo_deps, a_contains = (\<lambda>_ _. Inr True)\<rparr>"

definition demo0 :: flow_world where
  "demo0 = \<lparr>tick = 0, devices = [], metrics = [], results = (\<lambda>_. None), flows = [], flow_seq = 1,
     runs = [], run_seq = 1, hops = [], bus_log = [], dispatches = [], notices = [],
     last_fire = (\<lambda>_. None)\<rparr>"

definition demo1 :: flow_world where
  "demo1 = snd (run_state (serve demo_api (Flows POST False
     (Some \<lparr>q_name = ''disk'', q_description = [], q_graph = Some demo_graph, q_cooldown = None,
        q_enabled = None\<rparr>))) demo0)"

definition demo2 :: flow_world where
  "demo2 = snd (run_state (serve demo_api (Bus (trigger_event 1 ''d1'' [] (Some (Fin 95)) 0))) demo1)"

definition demo3 :: flow_world where
  "demo3 = snd (run_state (serve demo_api (Bus (step_event 1 ''fix'' 0))) demo2)"

lemma demo_reach: "flow_reach demo1" "flow_reach demo2" "flow_reach demo3"
proof -
  have "flow_reach demo0" by (rule flow_reach.empty) (simp_all add: demo0_def)
  moreover have env: "rely flow_hist (d_env (a_deps demo_api))"
    by (simp add: demo_api_def demo_deps_def calm_deps_def)
  ultimately have 1: "flow_reach demo1" unfolding demo1_def by (rule flow_reach.served)
  then have 2: "flow_reach demo2" unfolding demo2_def by (rule flow_reach.served [OF _ env])
  then have "flow_reach demo3" unfolding demo3_def by (rule flow_reach.served [OF _ env])
  with 1 2 show "flow_reach demo1" "flow_reach demo2" "flow_reach demo3" by blast+
qed

lemma demo_facts:
  "map f_id (flows demo1) = [1]"
  "map (\<lambda>r. (r_current_node r, r_status r)) (runs demo2) = [(''fix'', Running)]"
  "map r_command_id (runs demo3) = [Some ''c1'']"
  "map h_status (hops demo3) = [HEntered, HBranched, HEntered, HDispatched]"
  by code_simp+

subsection \<open>Executions without faults\<close>

lemma calm_GetFlow [sql_simps]:
  "run_state (GetFlow (calm t) i) w =
     ((case find (\<lambda>f. f_id f = i) (flows w) of None \<Rightarrow> Inl ENotFound | Some f \<Rightarrow> Inr f),
      w\<lparr>tick := Suc (tick w)\<rparr>)"
  by (simp add: GetFlow_def sql_simps split: option.split)

lemma calm_GetRun [sql_simps]:
  "run_state (GetRun (calm t) i) w =
     ((case find (\<lambda>r. r_id r = i) (runs w) of None \<Rightarrow> Inl ENotFound | Some r \<Rightarrow> Inr r),
      w\<lparr>tick := Suc (tick w)\<rparr>)"
  by (simp add: GetRun_def sql_simps split: option.split)

lemma calm_LatestSample [sql_simps]:
  "run_state (LatestSample (calm t) device metric source since) w =
     (Inr (map_option (\<lambda>m. (m_value m, m_ts m)) (latest_after device metric source since (metrics w))),
      w\<lparr>tick := Suc (tick w)\<rparr>)"
  by (simp add: LatestSample_def sql_simps)

definition tick_by :: "nat \<Rightarrow> flow_world \<Rightarrow> flow_world" where
  "tick_by k w = w\<lparr>tick := tick w + k\<rparr>"

lemma tick_by_simps [simp]:
  "tick (tick_by k w) = tick w + k" "flows (tick_by k w) = flows w" "runs (tick_by k w) = runs w"
  "hops (tick_by k w) = hops w" "metrics (tick_by k w) = metrics w" "results (tick_by k w) = results w"
  "bus_log (tick_by k w) = bus_log w" "dispatches (tick_by k w) = dispatches w"
  "notices (tick_by k w) = notices w" "tick_by j (tick_by k w) = tick_by (k + j) w"
  by (simp_all add: tick_by_def add.assoc)

lemma calm_hop_one:
  "run_state (hop_tx (calm t) (run_stmt P f)
       (hop_stmt (calm t) rid nd st reason) None) w =
     (if affected P (runs w) = 0 then ((False, None), tick_by 2 w)
      else ((True, None), tick_by 4 (hop_effect P f [hop_row (calm t) 0 rid nd st reason] w)))"
  by (simp add: hop_tx_def transaction_def run_tx_def tx_exec_def run_stmt_def hop_stmt_def
      add_hop_def hop_effect_def hop_row_def tick_by_def update_where_none)

lemma calm_hop_two:
  "run_state (hop_tx (calm t) (run_stmt P f)
       (hop_stmt (calm t) rid nd st reason) (Some (hop_stmt (calm t) rid nd' st' reason'))) w =
     (if affected P (runs w) = 0 then ((False, None), tick_by 2 w)
      else ((True, None), tick_by 5 (hop_effect P f
        [hop_row (calm t) 0 rid nd st reason, hop_row (calm t) 0 rid nd' st' reason'] w)))"
  by (simp add: hop_tx_def transaction_def run_tx_def tx_exec_def run_stmt_def hop_stmt_def
      add_hop_def hop_effect_def hop_row_def tick_by_def update_where_none)

text \<open>The effect of an advance, a failure and a recorded dispatch.\<close>

definition advance_effect :: "time \<Rightarrow> int \<Rightarrow> string \<Rightarrow> string \<Rightarrow> msg \<Rightarrow> time \<Rightarrow> flow_world \<Rightarrow> flow_world" where
  "advance_effect t rid from to reason ca =
     (if to = [] then hop_effect (at_node rid from) (set_succeeded reason t)
        [hop_row (calm t) 0 rid from HOk reason]
      else hop_effect (at_node rid from) (set_node to ca t)
        [hop_row (calm t) 0 rid from HBranched reason, hop_row (calm t) 0 rid to HEntered TEmpty])"

lemma calm_AdvanceTo [sql_simps]:
  "run_state (AdvanceTo (calm t) rid from to reason ca) w =
     (if affected (at_node rid from) (runs w) = 0 then ((False, None), tick_by 2 w)
      else ((True, None), tick_by (if to = [] then 4 else 5) (advance_effect t rid from to reason ca w)))"
  by (simp add: AdvanceTo_def advance_effect_def calm_hop_one calm_hop_two)

lemma calm_FailRun [sql_simps]:
  "run_state (FailRun (calm t) rid from timeout reason) w =
     (if affected (at_node rid from) (runs w) = 0 then ((False, None), tick_by 2 w)
      else ((True, None), tick_by 4 (hop_effect (at_node rid from)
        (set_ended (if timeout then TimedOut else Failed) reason t)
        [hop_row (calm t) 0 rid from (if timeout then HTimeout else HFailed) reason] w)))"
  by (simp add: FailRun_def calm_hop_one)

lemma calm_Dispatched [sql_simps]:
  "run_state (Dispatched (calm t) rid nd cmd d) w =
     (if affected (\<lambda>r. at_node rid nd r \<and> r_command_id r = None) (runs w) = 0
      then ((False, None), tick_by 2 w)
      else ((True, None), tick_by 4 (hop_effect (\<lambda>r. at_node rid nd r \<and> r_command_id r = None)
        (set_dispatched cmd d t) [hop_row (calm t) 0 rid nd HDispatched (TStr cmd)] w)))"
  by (simp add: Dispatched_def calm_hop_one)

subsection \<open>Safety under faults and interference\<close>

definition active_for :: "int \<Rightarrow> string \<Rightarrow> string \<Rightarrow> run \<Rightarrow> bool" where
  "active_for fid device source r \<longleftrightarrow>
     r_status r = Running \<and> r_flow_id r = Some fid \<and> r_device r = device \<and> r_source r = source"

text \<open>
  C1. In every world the server reaches, whatever database faults occur and however the handlers of
  all replicas interleave, at most one run is active for a flow, a device and a source.
\<close>

theorem one_active_run:
  assumes "flow_reach w"
  shows "length (filter (active_for fid device source) (runs w)) \<le> 1"
proof -
  have "distinct (map run_key (filter run_live (runs w)))"
    using reach_inv [OF assms] by (simp add: flow_inv_def uniq_def)
  moreover have "filter (active_for fid device source) (runs w) =
      filter (\<lambda>r. run_key r = (Some fid, device, source)) (filter run_live (runs w))"
    by (auto simp: active_for_def run_key_def run_live_def intro: filter_cong)
  ultimately show ?thesis by (metis filter_key_le_1)
qed

lemma one_active_run_witness:
  "flow_reach demo3 \<and> filter (active_for 1 ''d1'' []) (runs demo3) \<noteq> [] \<and>
   length (filter (active_for 1 ''d1'' []) (runs demo3)) \<le> 1"
proof -
  have "filter (active_for 1 ''d1'' []) (runs demo3) \<noteq> []" by code_simp
  with one_active_run [OF demo_reach(3), of 1 "''d1''" "[]"] demo_reach(3) show ?thesis by simp
qed

text \<open>
  C17. The audit trail is complete. Whatever the server serves next in a reachable world, under every fault and
  interference: each command id a run carries, running or ended, has its dispatched row at the run's node; each
  run that succeeded, failed or timed out has the row of that outcome with the same reason; and a run that moved
  has, among the rows added meanwhile, the branched row of the node it left and the entered row of the node it
  is at.
\<close>

theorem audit_complete:
  assumes "flow_reach w" and "rely flow_hist (d_env (a_deps a))"
    and "w' = snd (run_state (serve a x) w)" and "i < length (runs w')"
  shows "(case r_command_id (runs w' ! i) of
      None \<Rightarrow> True
    | Some c \<Rightarrow> \<exists>h\<in>set (hops w'). h_run h = r_id (runs w' ! i) \<and> h_node h = r_current_node (runs w' ! i) \<and>
        h_status h = HDispatched \<and> h_reason h = TStr c) \<and>
    (r_status (runs w' ! i) = Running \<or>
     (\<exists>h\<in>set (hops w'). h_run h = r_id (runs w' ! i) \<and> h_node h = r_current_node (runs w' ! i) \<and>
        h_reason h = r_reason (runs w' ! i) \<and>
        (r_status (runs w' ! i), h_status h) \<in> {(Succeeded, HOk), (Failed, HFailed), (TimedOut, HTimeout)})) \<and>
    (length (runs w) \<le> i \<or> r_current_node (runs w' ! i) = r_current_node (runs w ! i) \<or>
     (\<exists>h\<in>set (drop (length (hops w)) (hops w')). h_run h = r_id (runs w ! i) \<and>
        h_node h = r_current_node (runs w ! i) \<and> h_status h = HBranched) \<and>
     (\<exists>h\<in>set (drop (length (hops w)) (hops w')). h_run h = r_id (runs w ! i) \<and>
        h_node h = r_current_node (runs w' ! i) \<and> h_status h = HEntered))"
proof -
  have hist: "flow_hist w w'" unfolding assms(3) by (rule guaranteesD [OF hist_serve [OF assms(2)]])
  then have "audit_row (hops w') (runs w' ! i)"
    using reach_inv [OF assms(1)] assms(4) by (simp add: flow_hist_def flow_inv_def)
  moreover have "i < length (runs w) \<Longrightarrow> logged_move (drop (length (hops w)) (hops w')) (runs w ! i) (runs w' ! i)"
    using hist by (simp add: flow_hist_def moves_logged_def rows_evolve_def)
  ultimately show ?thesis
    unfolding audit_row_def logged_move_def
    by (cases "r_status (runs w' ! i)"; cases "r_command_id (runs w' ! i)"; cases "i < length (runs w)") auto
qed

definition demo4 :: flow_world where
  "demo4 = snd (run_state (serve demo_api (Bus ((step_event 0 [] 0)\<lparr>e_type := SubjectCommand,
     e_command := ''c1'', e_status := ''FAILED'', e_message := ''boom''\<rparr>))) demo3)"

lemma demo4_reach: "flow_reach demo4"
  unfolding demo4_def
  by (rule flow_reach.served [OF demo_reach(3)]) (simp add: demo_api_def demo_deps_def calm_deps_def)

lemma audit_complete_witness:
  "(\<exists>h\<in>set (hops demo4). h_run h = 1 \<and> h_status h = HDispatched \<and> h_reason h = TStr ''c1'') \<and>
   (\<exists>h\<in>set (hops demo4). h_run h = 1 \<and> h_status h = HFailed \<and>
     h_reason h = TScriptFailed ''c1'' ''FAILED'' ''boom'')"
proof -
  have r: "0 < length (runs demo4)" "r_id (runs demo4 ! 0) = 1" "r_status (runs demo4 ! 0) = Failed"
    "r_command_id (runs demo4 ! 0) = Some ''c1''" "r_reason (runs demo4 ! 0) = TScriptFailed ''c1'' ''FAILED'' ''boom''"
    by code_simp+
  have "rely flow_hist (d_env (a_deps demo_api))" by (simp add: demo_api_def demo_deps_def calm_deps_def)
  from audit_complete [OF demo_reach(3) this demo4_def r(1)] r show ?thesis by auto
qed

text \<open>
  C20. A run that ended is never revived or rewritten: whatever the server serves next, under every
  fault and interference, its row stays in place and keeps every column but the reference to its
  flow, which the deletion of the flow clears.
\<close>

theorem ended_run_frozen:
  assumes "rely flow_hist (d_env (a_deps a))" and "i < length (runs w)"
    and "r_status (runs w ! i) \<noteq> Running" and "w' = snd (run_state (serve a x) w)"
  shows "i < length (runs w') \<and>
    runs w' ! i = (runs w ! i)\<lparr>r_flow_id := r_flow_id (runs w' ! i)\<rparr> \<and>
    (r_flow_id (runs w' ! i) = r_flow_id (runs w ! i) \<or> r_flow_id (runs w' ! i) = None)"
proof -
  have "flow_hist w w'" unfolding assms(4) by (rule guaranteesD [OF hist_serve [OF assms(1)]])
  then have "i < length (runs w')" and "run_evolves (runs w ! i) (runs w' ! i)"
    using assms(2) by (auto simp: flow_hist_def rows_evolve_def)
  then show ?thesis using assms(3) by (simp add: run_evolves_def)
qed

lemma ended_run_frozen_witness:
  "\<exists>i. i < length (runs demo4) \<and> r_status (runs demo4 ! i) \<noteq> Running \<and>
     r_reason (runs (snd (run_state (serve demo_api (SweepTick 99)) demo4)) ! i) = r_reason (runs demo4 ! i)"
proof -
  have env: "rely flow_hist (d_env (a_deps demo_api))"
    by (simp add: demo_api_def demo_deps_def calm_deps_def)
  have 0: "0 < length (runs demo4)" "r_status (runs demo4 ! 0) \<noteq> Running" by code_simp+
  have "r_reason (runs (snd (run_state (serve demo_api (SweepTick 99)) demo4)) ! 0) = r_reason (runs demo4 ! 0)"
    using ended_run_frozen [OF env 0 refl, of "SweepTick 99"]
    by (metis run.select_convs(7) run.surjective run.update_convs(2))
  with 0 show ?thesis by blast
qed

text \<open>
  C30. Every flow the store ever holds passed validation: the store is written by the API only, which
  validates every graph it stores, so the engine's unchecked uses of the trigger node are safe.
\<close>

theorem stored_flows_valid:
  assumes "flow_reach w" and "f \<in> set (flows w)"
  shows "Validate (f_graph f) = VOk \<and> (\<exists>trig. Trigger (f_graph f) = Some trig)"
proof -
  have ok: "flow_ok (f_graph f)"
    using reach_inv [OF assms(1)] assms(2) by (simp add: flow_inv_def catalog_ok_def)
  then have "Trigger (f_graph f) \<noteq> None" by (auto simp: flow_ok_def Trigger_None)
  with ok show ?thesis by (auto simp: Validate_VOk_iff)
qed

lemma stored_flows_valid_witness:
  "\<exists>f\<in>set (flows demo1). f_name f = ''disk'' \<and> Validate (f_graph f) = VOk"
proof -
  have "hd (flows demo1) \<in> set (flows demo1)" and "f_name (hd (flows demo1)) = ''disk''" by code_simp+
  with stored_flows_valid [OF demo_reach(1) this(1)] show ?thesis by blast
qed

subsection \<open>Replays\<close>

text \<open>
  A replayed or stale step event does nothing: when its run is not running at the event's node,
  the handler acknowledges the event and no table, log or dispatch changes, whether or not the
  database answers.
\<close>

theorem stale_step_ignored:
  assumes "\<And>n v. others (d_env D) n v = v"
    and "\<And>r. r \<in> set (runs w) \<Longrightarrow> r_id r = e_run ev \<Longrightarrow>
      r_status r \<noteq> Running \<or> r_current_node r \<noteq> e_node ev"
  shows "\<exists>k. run_state (handleStep D ev) w = (None, tick_by k w)"
proof (cases "e_run ev = 0 \<or> e_node ev = []")
  case True
  then have "run_state (handleStep D ev) w = (None, tick_by 0 w)"
    by (auto simp: handleStep_def tick_by_def)
  then show ?thesis ..
next
  case False
  have stale: "find (\<lambda>x. r_id x = e_run ev) (runs w) = Some r \<Longrightarrow>
      r_status r \<noteq> Running \<or> r_current_node r \<noteq> e_node ev" for r
    using assms(2) by (auto dest: find_SomeD)
  have "run_state (handleStep D ev) w = (None, tick_by 1 w)"
    using False stale
    by (auto simp: handleStep_def GetRun_def query_def assms(1) tick_by_def
        split: db_out.split option.split)
  then show ?thesis ..
qed

lemma stale_step_ignored_witness:
  "\<exists>k. run_state (handleStep demo_deps (step_event 1 ''t'' 0)) demo2 = (None, tick_by k demo2)"
proof (rule stale_step_ignored)
  show "others (d_env demo_deps) n v = v" for n v
    by (simp add: demo_deps_def calm_deps_def)
next
  fix r assume r: "r \<in> set (runs demo2)"
  have "list_all (\<lambda>r. r_current_node r = ''fix'') (runs demo2)" by code_simp
  with r have "r_current_node r = ''fix''" by (simp add: list_all_iff)
  then show "r_status r \<noteq> Running \<or> r_current_node r \<noteq> e_node (step_event 1 ''t'' 0)"
    by (simp add: step_event_def)
qed

text \<open>The hops of the store, in an environment without faults, meet the interface.\<close>

definition calm_hop :: "applied fm \<Rightarrow> flow_world \<Rightarrow> bool \<times> flow_world" where
  "calm_hop c w = (fst (fst (run_state c w)), (snd (run_state c w))\<lparr>tick := tick w\<rparr>)"

definition has_run :: "(run \<Rightarrow> bool) \<Rightarrow> flow_world \<Rightarrow> bool" where
  "has_run P w \<longleftrightarrow> (\<exists>r\<in>set (runs w). P r)"

lemma affected_has_run: "affected P (runs w) = 0 \<longleftrightarrow> \<not> has_run P w"
  by (simp add: affected_0_iff has_run_def)

lemma calm_hop_simps:
  "run_state c w = ((b, e), tick_by k v) \<Longrightarrow> calm_hop c w = (b, v\<lparr>tick := tick w\<rparr>)"
  by (simp add: calm_hop_def tick_by_def)

lemma has_run_effect:
  "(\<And>r. P r \<Longrightarrow> \<not> P (f r)) \<Longrightarrow> \<not> has_run P (v\<lparr>runs := update_where P f rs, hops := h, tick := n\<rparr>)"
  by (auto simp: has_run_def set_update_where)

interpretation advance: conditional_hop
  "\<lambda>(rid, to, reason, ca) from. has_run (at_node rid from)"
  "\<lambda>(rid, to, reason, ca) from. to \<noteq> from"
  "\<lambda>(rid, to, reason, ca) from. calm_hop (AdvanceTo (calm t) rid from to reason ca)"
  for t :: time
proof
  fix i :: "int \<times> string \<times> msg \<times> time" and p :: string and w :: flow_world
  obtain rid to reason ca where i: "i = (rid, to, reason, ca)" by (cases i)
  show "fst ((case i of (rid, to, reason, ca) \<Rightarrow> \<lambda>from. calm_hop (AdvanceTo (calm t) rid from to reason ca)) p w) =
      (case i of (rid, to, reason, ca) \<Rightarrow> \<lambda>from. has_run (at_node rid from)) p w"
    by (simp add: i calm_hop_def sql_simps affected_has_run)
  show "snd ((case i of (rid, to, reason, ca) \<Rightarrow> \<lambda>from. calm_hop (AdvanceTo (calm t) rid from to reason ca)) p w) = w"
    if "\<not> (case i of (rid, to, reason, ca) \<Rightarrow> \<lambda>from. has_run (at_node rid from)) p w"
    using that by (simp add: i calm_hop_def sql_simps affected_has_run tick_by_def)
  show "\<not> (case i of (rid, to, reason, ca) \<Rightarrow> \<lambda>from. has_run (at_node rid from)) p
      (snd ((case i of (rid, to, reason, ca) \<Rightarrow> \<lambda>from. calm_hop (AdvanceTo (calm t) rid from to reason ca)) p w))"
    if "(case i of (rid, to, reason, ca) \<Rightarrow> \<lambda>from. to \<noteq> from) p"
      and "(case i of (rid, to, reason, ca) \<Rightarrow> \<lambda>from. has_run (at_node rid from)) p w"
    using that
    by (auto simp: i calm_hop_def sql_simps affected_has_run tick_by_def advance_effect_def hop_effect_def
        has_run_def set_update_where at_node_def set_succeeded_def set_node_def split: if_splits)
qed

text \<open>
  Advancing is idempotent: delivered any number of times, the hop of a run from one node to
  another (or to its end) has the effect of one delivery, and every later delivery reports that it
  did not apply.
\<close>

theorem advance_once:
  assumes "to \<noteq> from" and "0 < n"
  shows "((\<lambda>v. snd (calm_hop (AdvanceTo (calm t) rid from to reason ca) v)) ^^ n) w =
      snd (calm_hop (AdvanceTo (calm t) rid from to reason ca) w) \<and>
    fst (calm_hop (AdvanceTo (calm t) rid from to reason ca)
      (snd (calm_hop (AdvanceTo (calm t) rid from to reason ca) w))) = False"
  using advance.deliveries [of "(rid, to, reason, ca)" "from" n t w]
    advance.replay [of "(rid, to, reason, ca)" "from" t w] assms by simp

lemma advance_once_witness:
  "let hop = calm_hop (AdvanceTo (calm 5) 1 ''fix'' ''again'' TEmpty 5) in
   fst (hop demo3) \<and> ((\<lambda>v. snd (hop v)) ^^ 3) demo3 = snd (hop demo3)"
proof -
  have "fst (calm_hop (AdvanceTo (calm 5) 1 ''fix'' ''again'' TEmpty 5) demo3)" by code_simp
  then show ?thesis
    using advance_once [of "''again''" "''fix''" 3 5 1 TEmpty 5 demo3] by simp
qed

subsection \<open>What one step does\<close>

text \<open>The run \<open>r\<close> stands at node \<open>n\<close> of its flow \<open>f\<close>, and \<open>ev\<close> is the event of that step.\<close>

definition stands_at :: "flow_world \<Rightarrow> event \<Rightarrow> run \<Rightarrow> flow \<Rightarrow> node \<Rightarrow> bool" where
  "stands_at w ev r f n \<longleftrightarrow>
     e_type ev = SubjectStep \<and> e_run ev \<noteq> 0 \<and> e_node ev \<noteq> [] \<and>
     find (\<lambda>x. r_id x = e_run ev) (runs w) = Some r \<and> r_status r = Running \<and>
     r_current_node r = e_node ev \<and> r_flow_id r = Some (f_id f) \<and>
     find (\<lambda>x. f_id x = f_id f) (flows w) = Some f \<and> Node (f_graph f) (e_node ev) = Some n"

lemma step_reaches_node:
  assumes "stands_at w ev r f n" and "\<And>k v. others (d_env D) k v = v"
    and "db_out (d_env D) (tick w) = DbOk" and "db_out (d_env D) (Suc (tick w)) = DbOk"
  shows "run_state (onEvent D ev) w = run_state (step_node D r n) (tick_by 2 w)"
proof -
  from assms(1) have "run_state (flowForRun D r) (tick_by 1 w) = (Some f, tick_by 2 w)"
    using assms(2,4) by (simp add: stands_at_def flowForRun_def GetFlow_def query_def tick_by_def)
  moreover have "run_state (GetRun (d_env D) (e_run ev)) w = (Inr r, tick_by 1 w)"
    using assms by (simp add: stands_at_def GetRun_def query_def tick_by_def)
  ultimately show ?thesis
    using assms(1) by (simp add: onEvent_def stands_at_def handleStep_def)
qed

lemma stands_affected:
  assumes "stands_at w ev r f n"
  shows "n_id n = e_node ev" and "r_id r = e_run ev" and "r \<in> set (runs w)"
    and "affected (at_node (r_id r) (n_id n)) (runs w) \<noteq> 0"
proof -
  show n: "n_id n = e_node ev" and r: "r_id r = e_run ev" "r \<in> set (runs w)"
    using assms by (auto simp: stands_at_def Node_def dest: find_SomeD)
  show "affected (at_node (r_id r) (n_id n)) (runs w) \<noteq> 0"
    using assms n r by (auto simp: stands_at_def affected_0_iff at_node_def)
qed

lemma find_hop_effect:
  assumes "find (\<lambda>x. r_id x = i) (runs w) = Some r" and "\<And>q. P q \<Longrightarrow> r_id (f q) = r_id q" and "P r"
  shows "find (\<lambda>x. r_id x = i) (runs (hop_effect P f hs w)) = Some (f r)"
  using assms by (simp add: hop_effect_def find_update_where)

text \<open>An environment in which one interaction with the database fails.\<close>

definition blip :: "nat \<Rightarrow> time \<Rightarrow> flow_world env" where
  "blip k t = (calm t)\<lparr>db_out := (\<lambda>n. if n = k then DbErr else DbOk)\<rparr>"

lemma blip_simps [simp]:
  "db_out (blip k t) n = (if n = k then DbErr else DbOk)" "clock (blip k t) n = t"
  "others (blip k t) n w = w"
  by (simp_all add: blip_def)

text \<open>Only \<open>remediate\<close> dispatches: the rest of a step leaves the log of dispatches alone.\<close>

definition quiet :: "flow_world \<Rightarrow> flow_world \<Rightarrow> bool" where
  "quiet w w' \<longleftrightarrow> dispatches w' = dispatches w"

interpretation qh: history quiet
  by standard (simp_all add: quiet_def)

lemma quiet_stmts: "quiet w (snd (run_stmt P f w))" "quiet w (snd (hop_stmt E rid nd st reason w))"
  by (simp_all add: quiet_def run_stmt_def hop_stmt_def add_hop_def)

lemma quiet_hop_tx:
  assumes "rely quiet E"
  shows "guarantees quiet (hop_tx E (\<lambda>w. run_stmt P (f w) w) (hop_stmt E rid nd st reason)
    (map_option (\<lambda>(i, m, s, x). hop_stmt E i m s x) ev2))"
  unfolding hop_tx_def using assms
  by ((intro guarantees_option_eq guarantee quiet_stmts | assumption)+) (auto simp: quiet_stmts)

lemma quiet_hops [guarantee]:
  assumes "rely quiet E"
  shows "guarantees quiet (AdvanceTo E rid nd to reason ca)"
    "guarantees quiet (FailRun E rid nd timeout reason)"
    "guarantees quiet (Dispatched E rid nd cmd d)"
  using quiet_hop_tx [OF assms, where ?ev2.0 = None]
    quiet_hop_tx [OF assms, where ?ev2.0 = "Some (rid, to, HEntered, TEmpty)"]
  by (simp_all add: AdvanceTo_def FailRun_def Dispatched_def)

lemma quiet_GetRun [guarantee]: "rely quiet E \<Longrightarrow> guarantees quiet (GetRun E rid)"
  unfolding GetRun_def by (intro guarantee | assumption)+

lemma quiet_publish [guarantee]: "guarantees quiet (publish D ev)"
  by (rule guaranteesI) (simp add: publish_def Let_def quiet_def split: db_out.split)

lemma quiet_notify [guarantee]: "guarantees quiet (notify r nd reason)"
  by (rule guaranteesI) (simp add: notify_def quiet_def)

lemma quiet_script_result [guarantee]:
  assumes "rely quiet (d_env D)"
  shows "guarantees quiet (script_result D r n)"
  unfolding script_result_def finishScript_def engine_helpers using assms by (intro guarantee | assumption)+

lemma quiet_after_dispatch:
  "rely quiet (d_env D) \<Longrightarrow> guarantees quiet (after_dispatch D r n sent)"
  unfolding after_dispatch_def engine_helpers by (intro guarantee | assumption)+

text \<open>
  A script can run twice: the engine dispatches a script before it records the dispatch, so when
  the transaction that records it fails, the handler returns the error, the run still has no
  command, and the redelivered step dispatches the script again. (The comments of the engine and
  of the migration promise that a replayed event never acts twice.)
\<close>

theorem faulted_dispatch_repeats:
  assumes "stands_at w ev r f n" and "n_kind n = KScript" and "r_command_id r = None"
    and D: "d_env D = blip (tick w + 4) t" "\<And>k. d_remediate D k = (\<lambda>dev lang script. Inr (cmd k))"
  shows "let (e1, w1) = run_state (onEvent D ev) w; (e2, w2) = run_state (onEvent D ev) w1 in
    e1 = Some EDb \<and> runs w1 = runs w \<and>
    (\<exists>c1 c2. dispatches w2 = dispatches w @
       [(r_device r, n_lang n, n_script n, c1), (r_device r, n_lang n, n_script n, c2)])"
proof -
  let ?w1 = "snd (run_state (onEvent D ev) w)"
  have "run_state (onEvent D ev) w = (Some EDb,
      (tick_by 5 w)\<lparr>dispatches := dispatches w @ [(r_device r, n_lang n, n_script n, cmd (tick w + 2))]\<rparr>)"
    using assms(2,3) D step_reaches_node [OF assms(1), of D]
    by (simp add: step_node_def stepScript_def after_dispatch_def remediate_def Let_def Dispatched_def hop_tx_def
        transaction_def tick_by_def)
  moreover define w1 where
    "w1 = (tick_by 5 w)\<lparr>dispatches := dispatches w @ [(r_device r, n_lang n, n_script n, cmd (tick w + 2))]\<rparr>"
  ultimately have first: "run_state (onEvent D ev) w = (Some EDb, w1)" by simp
  have at1: "stands_at w1 ev r f n" using assms(1) by (simp add: w1_def stands_at_def)
  have quiet: "rely quiet (d_env D)" using D(1) by (simp add: rely_def)
  have "\<exists>c. dispatches (snd (run_state (stepScript D r n) (tick_by 2 w1))) =
      dispatches w1 @ [(r_device r, n_lang n, n_script n, c)]"
    using guaranteesD [OF quiet_after_dispatch [OF quiet]] assms(3)
    by (simp add: stepScript_def remediate_def D(2) Let_def quiet_def)
  then show ?thesis
    using first step_reaches_node [OF at1, of D] assms(2) D
    by (auto simp: step_node_def w1_def split_beta)
qed

definition demo_node :: "nat \<Rightarrow> node" where
  "demo_node k = g_nodes demo_graph ! k"

lemma demo2_stands:
  "stands_at demo2 (step_event 1 ''fix'' 0) (hd (runs demo2)) (hd (flows demo2)) (demo_node 1)"
  "n_kind (demo_node 1) = KScript" "r_command_id (hd (runs demo2)) = None"
  by code_simp+

lemma faulted_dispatch_repeats_witness:
  "let D = demo_deps\<lparr>d_env := blip (tick demo2 + 4) 0\<rparr>; ev = step_event 1 ''fix'' 0;
       (e1, w1) = run_state (onEvent D ev) demo2; (e2, w2) = run_state (onEvent D ev) w1 in
    e1 = Some EDb \<and> length (dispatches w2) = length (dispatches demo2) + 2"
  using faulted_dispatch_repeats [OF demo2_stands, of "demo_deps\<lparr>d_env := blip (tick demo2 + 4) 0\<rparr>" 0 "\<lambda>_. ''c1''"]
  by (auto simp: demo_deps_def calm_deps_def split_beta Let_def)

text \<open>
  A run can wedge: when a fault separates the insert of a run from its first advance, the run
  stays active at its trigger node. Step events for it are acknowledged without effect, a sweep only
  publishes another such event, and while it stays active no further trigger of its flow, device and
  source starts a run. (The sweep's comment promises that it re-covers every in-flight run.)
\<close>

theorem run_wedged_at_trigger:
  assumes at0: "stands_at w ev r f n" and kind: "n_kind n = KTrigger"
    and trig: "Trigger (f_graph f) = Some trig"
    and D: "d_env D = calm t" "\<And>k. d_publish D k = DbOk"
  shows "run_state (onEvent D ev) w = (None, tick_by 2 w) \<and>
    snd (run_state (sweep_run D t' r) w) =
      (tick_by 3 w)\<lparr>bus_log := bus_log w @ [step_event (r_id r) (n_id n) t]\<rparr> \<and>
    run_state (InsertRun (calm t) f (r_device r) (r_source r) v at0') w =
      (Inr None, (tick_by 1 w)\<lparr>run_seq := run_seq w + 1\<rparr>)"
proof (intro conjI)
  show "run_state (onEvent D ev) w = (None, tick_by 2 w)"
    using step_reaches_node [OF at0, of D] D kind by (simp add: step_node_def)
  have node: "r_current_node r = n_id n" using at0 stands_affected(1) [OF at0] by (simp add: stands_at_def)
  show "snd (run_state (sweep_run D t' r) w) =
      (tick_by 3 w)\<lparr>bus_log := bus_log w @ [step_event (r_id r) (n_id n) t]\<rparr>"
    using at0 D kind node stands_affected(1) [OF at0]
    by (simp add: sweep_run_def stands_at_def flowForRun_def sql_simps publishStep_def publish_def Let_def
        tick_by_def split: option.split)
  have "f_id f \<in> f_id ` set (flows w)" using at0 by (force simp: stands_at_def dest: find_SomeD)
  moreover have "violates run_key run_live (runs w) (new_run i f (r_device r) (r_source r) v at0' x t)" for i x
    using at0 stands_affected(3) [OF at0]
    by (auto simp: stands_at_def violates_def run_live_def run_key_def new_run_def)
  ultimately show "run_state (InsertRun (calm t) f (r_device r) (r_source r) v at0') w =
      (Inr None, (tick_by 1 w)\<lparr>run_seq := run_seq w + 1\<rparr>)"
    using trig by (simp add: InsertRun_def sql_simps insert_run_stmt_def Let_def tick_by_def)
qed

text \<open>The demo deployment when the audit row of the run's start is refused.\<close>

definition demo_wedged :: flow_world where
  "demo_wedged = snd (run_state (serve (demo_api\<lparr>a_deps := demo_deps\<lparr>d_env := blip (tick demo1 + 2) 0\<rparr>\<rparr>)
     (Bus (trigger_event 1 ''d1'' [] (Some (Fin 95)) 0))) demo1)"

lemma demo_wedged_stands:
  "stands_at demo_wedged (step_event 1 ''t'' 0) (hd (runs demo_wedged)) (hd (flows demo1)) (demo_node 0)"
  "n_kind (demo_node 0) = KTrigger" "Trigger (f_graph (hd (flows demo1))) = Some (demo_node 0)"
  by code_simp+

lemma run_wedged_at_trigger_witness:
  "run_state (onEvent demo_deps (step_event 1 ''t'' 0)) demo_wedged = (None, tick_by 2 demo_wedged) \<and>
   r_status (hd (runs demo_wedged)) = Running"
proof -
  have "r_status (hd (runs demo_wedged)) = Running" by code_simp
  with run_wedged_at_trigger [OF demo_wedged_stands, of demo_deps 0 0 NaN 0] show ?thesis
    by (simp add: demo_deps_def calm_deps_def)
qed

text \<open>
  A failed run is reported although it did not fail: when the commit that ends a run is refused,
  the handler still sends the failure notification while the run keeps running, so a later
  step reports it again. (The engine means the transition that wins, and only it, to notify.)
\<close>

theorem failure_notified_unapplied:
  assumes "affected (at_node (r_id r) nd) (runs w) \<noteq> 0"
    and D: "d_env D = blip (tick w + 3) t"
  shows "let w1 = snd (run_state (fail_and_notify D r nd timeout reason told) w) in
    runs w1 = runs w \<and> notices w1 = notices w @ [(r_id r, nd, TRunFailed told)]"
  using assms
  by (simp add: fail_and_notify_def FailRun_def hop_tx_def transaction_def run_tx_def tx_exec_def
      run_stmt_def hop_stmt_def add_hop_def notifyFail_def notify_def Let_def)

lemma failure_notified_unapplied_witness:
  "let r = hd (runs demo3); D = demo_deps\<lparr>d_env := blip (tick demo3 + 3) 0\<rparr>;
       w1 = snd (run_state (fail_and_notify D r ''fix'' False TUnknownNode TUnknownNode) demo3) in
   r_status (hd (runs w1)) = Running \<and> length (notices w1) = 1"
proof -
  have "affected (at_node (r_id (hd (runs demo3))) ''fix'') (runs demo3) \<noteq> 0"
    and "r_status (hd (runs demo3)) = Running" and "notices demo3 = []" by code_simp+
  with failure_notified_unapplied [OF this(1), of "demo_deps\<lparr>d_env := blip (tick demo3 + 3) 0\<rparr>" 0
      False TUnknownNode TUnknownNode] show ?thesis by (simp add: Let_def)
qed

text \<open>
  A transient fault ends a run: when the one query that loads a run's flow fails, the engine
  takes the flow for deleted and fails the run for good, although the flow is in the store.
\<close>

theorem transient_fault_fails_run:
  assumes at0: "stands_at w ev r f n" and D: "d_env D = blip (Suc (tick w)) t"
  shows "let (e, w1) = run_state (onEvent D ev) w in
    e = None \<and> flows w1 = flows w \<and> f \<in> set (flows w1) \<and>
    find (\<lambda>x. r_id x = r_id r) (runs w1) = Some (set_ended Failed TFlowDeleted t r)"
proof -
  let ?hs = "[hop_row (d_env D) (tick w + 5) (r_id r) (r_current_node r) HFailed TFlowDeleted]"
  let ?P = "at_node (r_id r) (r_current_node r)"
  note r = at0 [unfolded stands_at_def] stands_affected [OF at0]
  have get: "run_state (GetRun (d_env D) (e_run ev)) w = (Inr r, tick_by 1 w)"
    using r D by (simp add: GetRun_def query_def tick_by_def)
  have aff: "affected ?P (runs w) \<noteq> 0" using r by simp
  have "run_state (flowForRun D r) (tick_by 1 w) =
      (None, (hop_effect ?P (set_ended Failed TFlowDeleted t) ?hs w)
         \<lparr>tick := tick w + 6, notices := notices w @ [(r_id r, r_current_node r, TRunFailed TFlowDeleted)]\<rparr>)"
    using r D aff
    by (simp add: flowForRun_def GetFlow_def query_def fail_and_notify_def FailRun_def hop_tx_def
        transaction_def run_tx_def tx_exec_def run_stmt_def hop_stmt_def add_hop_def notifyFail_def
        notify_def tick_by_def hop_effect_def hop_row_def)
  then have "run_state (onEvent D ev) w =
      (None, (hop_effect ?P (set_ended Failed TFlowDeleted t) ?hs w)
         \<lparr>tick := tick w + 6, notices := notices w @ [(r_id r, r_current_node r, TRunFailed TFlowDeleted)]\<rparr>)"
    using r get by (simp add: onEvent_def handleStep_def)
  moreover have "f \<in> set (flows w)" using r by (auto dest: find_SomeD)
  moreover have "find (\<lambda>x. r_id x = r_id r) (runs (hop_effect ?P (set_ended Failed TFlowDeleted t) ?hs w)) =
      Some (set_ended Failed TFlowDeleted t r)"
    by (rule find_hop_effect) (use r in \<open>simp_all add: set_ended_def at_node_def\<close>)
  ultimately show ?thesis by (simp add: hop_effect_def)
qed

lemma transient_fault_fails_run_witness:
  "let D = demo_deps\<lparr>d_env := blip (Suc (tick demo2)) 7\<rparr>;
       w1 = snd (run_state (onEvent D (step_event 1 ''fix'' 0)) demo2) in
   flows w1 \<noteq> [] \<and> map r_status (runs demo2) = [Running] \<and>
   (\<exists>r. find (\<lambda>x. r_id x = 1) (runs w1) = Some r \<and> r_status r = Failed)"
proof -
  have "r_id (hd (runs demo2)) = 1" and "map r_status (runs demo2) = [Running]" by code_simp+
  with transient_fault_fails_run [OF demo2_stands(1), of "demo_deps\<lparr>d_env := blip (Suc (tick demo2)) 7\<rparr>" 7]
  show ?thesis by (auto simp: split_beta Let_def set_ended_def)
qed

text \<open>
  The outcome of a step without faults, on the row of its run.
\<close>

definition goto_node :: "string \<Rightarrow> msg \<Rightarrow> time \<Rightarrow> time \<Rightarrow> run \<Rightarrow> run" where
  "goto_node to reason ca t = (if to = [] then set_succeeded reason t else set_node to ca t)"

definition check_since :: "run \<Rightarrow> time" where
  "check_since r = (case r_check_after r of Some t \<Rightarrow> t | None \<Rightarrow> r_started_at r)"

definition fresh_sample :: "flow_world \<Rightarrow> run \<Rightarrow> node \<Rightarrow> sample option" where
  "fresh_sample w r n = latest_after (r_device r) (n_metric n) (n_source n) (check_since r) (metrics w)"

lemma find_after_advance:
  assumes "stands_at w ev r f n"
  shows "find (\<lambda>x. r_id x = r_id r) (runs (advance_effect t (r_id r) (n_id n) to reason ca w)) =
    Some (goto_node to reason ca t r)"
  unfolding advance_effect_def goto_node_def
  using stands_affected [OF assms] assms
  by (simp add: stands_at_def hop_effect_def find_update_where set_succeeded_def set_node_def at_node_def)

lemma runs_publish [simp]: "runs (snd (run_state (publish D ev) w)) = runs w"
  by (simp add: publish_def Let_def split: db_out.split)

lemma advance_outcome:
  assumes "stands_at w ev r f n" and "d_env D = calm t"
  shows "find (\<lambda>x. r_id x = r_id r)
      (runs (snd (run_state (advance_and_publish D (r_id r) (n_id n) to reason ca) (tick_by k w)))) =
    Some (goto_node to reason ca t r)"
proof -
  have "advance_effect t (r_id r) (n_id n) to reason ca (tick_by k w) =
      tick_by k (advance_effect t (r_id r) (n_id n) to reason ca w)"
    by (simp add: advance_effect_def hop_effect_def tick_by_def)
  then show ?thesis
    using stands_affected(4) [OF assms(1)] find_after_advance [OF assms(1)] assms(2)
    by (simp add: advance_and_publish_def sql_simps publishStep_def)
qed

text \<open>
  C32. A check node, without faults, decides on the newest sample of its series taken after the run's
  watermark: if the condition holds the run goes to the node's \<open>then\<close>, otherwise to its \<open>else\<close> (the
  empty edge ends it as succeeded), and the sample's time becomes the next watermark. Without such a
  sample the run waits, until the node's timeout has passed since the watermark: then it times out.
\<close>

theorem check_outcome:
  assumes at0: "stands_at w ev r f n" and kind: "n_kind n = KCheck" and D: "d_env D = calm t"
  shows "find (\<lambda>x. r_id x = r_id r) (runs (snd (run_state (onEvent D ev) w))) = Some
    (case fresh_sample w r n of
       Some m \<Rightarrow>
         if Holds n (m_value m) then goto_node (n_then n) (TThen (n_metric n) (m_value m) (m_ts m)) (m_ts m) t r
         else goto_node (n_else n)
           ((if n_else n = [] then TComplete else TElse) (n_metric n) (m_value m) (m_ts m)) (m_ts m) t r
     | None \<Rightarrow>
         if t - check_since r > nodeTimeoutS n * second
         then set_ended TimedOut (TNoSample (n_metric n) (nodeTimeoutS n) (check_since r)) t r else r)"
proof -
  let ?w2 = "tick_by 2 w"
  note r = at0 [unfolded stands_at_def] stands_affected [OF at0]
  have step: "run_state (onEvent D ev) w = run_state (stepCheck D r n) ?w2"
    using step_reaches_node [OF at0, of D] D kind by (simp add: step_node_def)
  have sample: "run_state (LatestSample (calm t) (r_device r) (n_metric n) (n_source n) (check_since r)) ?w2 =
      (Inr (map_option (\<lambda>m. (m_value m, m_ts m)) (fresh_sample w r n)), tick_by 3 w)"
    by (simp add: sql_simps fresh_sample_def tick_by_def)
  note defs = stepCheck_def check_since_def [symmetric] D sample Let_def
  show ?thesis
  proof (cases "fresh_sample w r n")
    case None
    have "find (\<lambda>x. r_id x = r_id r) (runs (snd (run_state (stepCheck D r n) ?w2))) =
        find (\<lambda>x. r_id x = r_id r) (if t - check_since r > nodeTimeoutS n * second
          then update_where (at_node (r_id r) (n_id n))
            (set_ended TimedOut (TNoSample (n_metric n) (nodeTimeoutS n) (check_since r)) t) (runs w)
          else runs w)"
      using r None
      by (auto simp: defs WaitEvent_def calm_exec calm_FailRun wait_stmt_def add_hop_def fail_and_notify_def
          notifyFail_def notify_def hop_effect_def)
    then show ?thesis
      using step None r by (simp add: find_update_where set_ended_def at_node_def)
  next
    case (Some m)
    have "find (\<lambda>x. r_id x = r_id r) (runs (snd (run_state (stepCheck D r n) ?w2))) =
        find (\<lambda>x. r_id x = r_id r) (runs (snd (run_state
          (advance_and_publish D (r_id r) (n_id n) (if Holds n (m_value m) then n_then n else n_else n)
            ((if Holds n (m_value m) then TThen else if n_else n = [] then TComplete else TElse)
               (n_metric n) (m_value m) (m_ts m)) (m_ts m)) (tick_by 3 w))))"
      using r Some by (auto simp: defs advance_and_publish_def calm_AdvanceTo)
    then show ?thesis
      using step Some advance_outcome [OF at0 D] by auto
  qed
qed

definition demo5 :: flow_world where
  "demo5 = (snd (run_state (serve demo_api (Bus ((step_event 0 [] 0)\<lparr>e_type := SubjectCommand,
     e_command := ''c1'', e_status := ''SUCCEEDED''\<rparr>))) demo3))\<lparr>metrics :=
     [\<lparr>m_device = ''d1'', m_name = ''disk'', m_source = [], m_value = Fin 70, m_ts = 9\<rparr>]\<rparr>"

lemma check_outcome_witness:
  "\<exists>r. r_status r = Running \<and> find (\<lambda>x. r_id x = 1) (runs demo5) = Some r \<and>
     find (\<lambda>x. r_id x = 1) (runs (snd (run_state (onEvent demo_deps (step_event 1 ''again'' 0)) demo5))) =
       Some (set_succeeded (TThen ''disk'' (Fin 70) 9) 0 r)"
proof -
  let ?r = "hd (runs demo5)"
  have at0: "stands_at demo5 (step_event 1 ''again'' 0) ?r (hd (flows demo5)) (demo_node 2)"
    and kind: "n_kind (demo_node 2) = KCheck" by code_simp+
  have D: "d_env demo_deps = calm 0" by (simp add: demo_deps_def calm_deps_def)
  have "map_option (\<lambda>m. (m_value m, m_ts m)) (fresh_sample demo5 ?r (demo_node 2)) = Some (Fin 70, 9)"
    and "Holds (demo_node 2) (Fin 70)" and "n_then (demo_node 2) = []" and "n_metric (demo_node 2) = ''disk''"
    and "r_id ?r = 1" and "r_status ?r = Running" and "find (\<lambda>x. r_id x = 1) (runs demo5) = Some ?r"
    by code_simp+
  with check_outcome [OF at0 kind D] show ?thesis by (auto simp: goto_node_def)
qed

definition cooling_down :: "flow_world \<Rightarrow> time \<Rightarrow> flow \<Rightarrow> string \<Rightarrow> string \<Rightarrow> bool" where
  "cooling_down w t f device source \<longleftrightarrow> f_cooldown_s f > 0 \<and>
     (\<exists>r\<in>set (runs w). r_flow_id r = Some (f_id f) \<and> r_device r = device \<and> r_source r = source \<and>
        t - f_cooldown_s f * second \<le> r_started_at r)"

lemma calm_cooldown:
  assumes "d_env D = calm t"
  obtains k where "run_state (within_cooldown D f ev) w =
    (cooling_down w t f (e_device ev) (e_source ev), tick_by k w)"
proof (cases "f_cooldown_s f > 0")
  case True
  then have "run_state (within_cooldown D f ev) w =
      (cooling_down w t f (e_device ev) (e_source ev), tick_by 2 w)"
    using assms by (simp add: within_cooldown_def cooling_down_def CooldownStarted_def sql_simps tick_by_def)
  then show ?thesis by (rule that)
next
  case False
  then have "run_state (within_cooldown D f ev) w =
      (cooling_down w t f (e_device ev) (e_source ev), tick_by 0 w)"
    by (simp add: within_cooldown_def cooling_down_def tick_by_def)
  then show ?thesis by (rule that)
qed

lemma new_run_id [simp]: "r_id (new_run i f device source v at0 trig t) = i"
  by (simp add: new_run_def)

lemma violates_new_run:
  "violates run_key run_live rs (new_run i f device source v at0 trig t) \<longleftrightarrow>
     (\<exists>r\<in>set rs. active_for (f_id f) device source r)"
  by (auto simp: violates_def run_live_def run_key_def new_run_def active_for_def)

lemma calm_InsertRun:
  assumes inv: "\<forall>r\<in>set (runs w). r_id r < run_seq w" and "f \<in> set (flows w)"
    and trig: "Trigger (f_graph f) = Some trig"
  shows "\<exists>k. run_state (InsertRun (calm t) f device source v at0) w =
    (if \<exists>r\<in>set (runs w). active_for (f_id f) device source r
     then (Inr None, (tick_by k w)\<lparr>run_seq := run_seq w + 1\<rparr>)
     else (let r = new_run (run_seq w) f device source v at0 (n_id trig) t in
       (Inr (Some r), (tick_by k w)\<lparr>run_seq := run_seq w + 1, runs := runs w @ [r],
          hops := hops w @ [hop_row (calm t) 0 (run_seq w) (n_id trig) HEntered
            (TRunStarted (n_metric trig) (n_op trig) (n_threshold trig) v)]\<rparr>)))"
proof (cases "\<exists>r\<in>set (runs w). active_for (f_id f) device source r")
  case True
  have "run_state (InsertRun (calm t) f device source v at0) w =
      (Inr None, (tick_by 1 w)\<lparr>run_seq := run_seq w + 1\<rparr>)"
    using True assms(2) trig
    by (simp add: InsertRun_def sql_simps insert_run_stmt_def Let_def violates_new_run tick_by_def)
  with True show ?thesis by auto
next
  case False
  let ?r = "new_run (run_seq w) f device source v at0 (n_id trig) t"
  have "find (\<lambda>r. r_id r = run_seq w) (runs w @ [?r]) = Some ?r"
  proof -
    have "find (\<lambda>r. r_id r = run_seq w) (runs w) = None" using inv by (auto simp: find_None_iff_list)
    then show ?thesis by (simp add: find_append new_run_def)
  qed
  then have "run_state (InsertRun (calm t) f device source v at0) w =
      (Inr (Some ?r), (tick_by 3 w)\<lparr>run_seq := run_seq w + 1, runs := runs w @ [?r],
        hops := hops w @ [hop_row (calm t) 0 (run_seq w) (n_id trig) HEntered
          (TRunStarted (n_metric trig) (n_op trig) (n_threshold trig) v)]\<rparr>)"
    using False assms(2) trig
    by (simp add: InsertRun_def sql_simps insert_run_stmt_def appendEvent_def hop_stmt_def add_hop_def
        Let_def violates_new_run tick_by_def hop_row_def)
  with False show ?thesis by (auto simp: Let_def)
qed

text \<open>
  A trigger event with a measured value, without faults, starts a run exactly when the flow is
  enabled, the condition holds, no cooldown is running and no run is active for the flow, device
  and source. The new run stands at the trigger's successor (or has succeeded, if there is none)
  with the event's time as its watermark, and nothing else changes in the table of runs.
\<close>

theorem trigger_outcome:
  assumes reach: "flow_reach w" and D: "d_env D = calm t"
    and ev: "e_type ev = SubjectTrigger" "e_flow ev = f_id f" "f_id f \<noteq> 0" "e_device ev \<noteq> []"
      "e_value ev = Some v"
    and f: "f \<in> set (flows w)" "Trigger (f_graph f) = Some trig"
  shows "runs (snd (run_state (onEvent D ev) w)) = runs w @
    (if f_enabled f \<and> Holds trig v \<and> \<not> cooling_down w t f (e_device ev) (e_source ev) \<and>
        \<not> (\<exists>r\<in>set (runs w). active_for (f_id f) (e_device ev) (e_source ev) r)
     then [goto_node (n_next trig) (TTrigger (n_metric trig) (n_op trig) (n_threshold trig) v) (e_at ev) t
             (new_run (run_seq w) f (e_device ev) (e_source ev) v (e_at ev) (n_id trig) t)]
     else [])"
proof -
  have inv: "catalog_ok (flows w) (flow_seq w)" "\<forall>r\<in>set (runs w). r_id r < run_seq w"
    using reach_inv [OF reach] by (auto simp: flow_inv_def)
  have kind: "n_kind trig = KTrigger" using f(2) by (simp add: Trigger_Some)
  have get: "find (\<lambda>x. f_id x = f_id f) (flows w) = Some f"
    using inv(1) f(1) by (simp add: catalog_ok_def find_distinct_key)
  have event: "run_state (onEvent D ev) w =
      (if f_enabled f \<and> Holds trig v then run_state (handleMetricTrigger D f trig ev v (e_at ev)) (tick_by 1 w)
       else (None, tick_by 1 w))"
    using ev f(2) kind get
    by (simp add: onEvent_def handleTrigger_def D sql_simps tick_by_def)
  obtain k where cd: "run_state (within_cooldown D f ev) (tick_by 1 w) =
      (cooling_down w t f (e_device ev) (e_source ev), tick_by (Suc k) w)"
    using calm_cooldown [OF D, of f ev "tick_by 1 w"] by (auto simp: cooling_down_def)
  let ?busy = "\<exists>r\<in>set (runs w). active_for (f_id f) (e_device ev) (e_source ev) r"
  let ?new = "new_run (run_seq w) f (e_device ev) (e_source ev) v (e_at ev) (n_id trig) t"
  let ?done = "goto_node (n_next trig) (TTrigger (n_metric trig) (n_op trig) (n_threshold trig) v) (e_at ev) t ?new"
  have ins: "\<exists>w'. run_state (InsertRun (calm t) f (e_device ev) (e_source ev) v (e_at ev)) (tick_by (Suc k) w) =
      (if ?busy then (Inr None, w') else (Inr (Some ?new), w')) \<and>
      runs w' = runs w @ (if ?busy then [] else [?new])"
  proof (cases ?busy)
    case True
    with calm_InsertRun [of "tick_by (Suc k) w" f trig t "e_device ev" "e_source ev" v "e_at ev"] inv(2) f
    show ?thesis by (auto simp: tick_by_def)
  next
    case False
    with calm_InsertRun [of "tick_by (Suc k) w" f trig t "e_device ev" "e_source ev" v "e_at ev"] inv(2) f
    show ?thesis by (auto simp: tick_by_def Let_def)
  qed
  then obtain w' where ins: "run_state (InsertRun (calm t) f (e_device ev) (e_source ev) v (e_at ev))
      (tick_by (Suc k) w) = (if ?busy then (Inr None, w') else (Inr (Some ?new), w'))"
    and rows: "runs w' = runs w @ (if ?busy then [] else [?new])" by blast
  have one: "update_where (at_node (run_seq w) (n_id trig)) g (runs w @ [?new]) = runs w @ [g ?new]" for g
  proof -
    have "update_where (at_node (run_seq w) (n_id trig)) g (runs w) = runs w"
      by (rule update_where_none) (use inv(2) in \<open>auto simp: affected_0_iff at_node_def\<close>)
    then show ?thesis by (simp add: update_where_append at_node_def new_run_def)
  qed
  have adv: "runs (snd (run_state (advance_and_publish D (r_id ?new) (n_id trig) (n_next trig) reason ca) w')) =
      runs w @ [goto_node (n_next trig) reason ca t ?new]" if "\<not> ?busy" for reason ca
  proof -
    have "affected (at_node (run_seq w) (n_id trig)) (runs w') \<noteq> 0"
      using rows that by (auto simp: affected_0_iff at_node_def new_run_def)
    moreover have "runs (advance_effect t (run_seq w) (n_id trig) (n_next trig) reason ca w') =
        runs w @ [goto_node (n_next trig) reason ca t ?new]"
      using rows that one by (simp add: advance_effect_def hop_effect_def goto_node_def)
    ultimately show ?thesis
      by (cases "n_next trig = []")
        (simp_all add: advance_and_publish_def D calm_AdvanceTo publishStep_def new_run_id)
  qed
  have "runs (snd (run_state (handleMetricTrigger D f trig ev v (e_at ev)) (tick_by 1 w))) =
      runs w @ (if \<not> cooling_down w t f (e_device ev) (e_source ev) \<and> \<not> ?busy then [?done] else [])"
    using cd ins rows adv by (simp add: handleMetricTrigger_def D)
  then show ?thesis by (simp add: event)
qed

lemma trigger_outcome_witness:
  "\<exists>r. runs (snd (run_state (onEvent demo_deps (trigger_event 1 ''d1'' [] (Some (Fin 95)) 0)) demo1)) = [r] \<and>
     r_current_node r = ''fix''"
proof -
  have f: "hd (flows demo1) \<in> set (flows demo1)"
    "Trigger (f_graph (hd (flows demo1))) = Some (demo_node 0)" and
    facts: "f_id (hd (flows demo1)) = 1" "f_enabled (hd (flows demo1))" "Holds (demo_node 0) (Fin 95)"
    "f_cooldown_s (hd (flows demo1)) = 0" "runs demo1 = []" "n_next (demo_node 0) = ''fix''"
    by code_simp+
  have D: "d_env demo_deps = calm 0" by (simp add: demo_deps_def calm_deps_def)
  show ?thesis
    using trigger_outcome [OF demo_reach(1) D _ _ _ _ _ f, of "trigger_event 1 ''d1'' [] (Some (Fin 95)) 0" "Fin 95"]
      facts
    by (simp add: trigger_event_def cooling_down_def goto_node_def set_node_def)
qed

end
