(* ===== verification/Heal_Playbook.thy ===== *)
theory Heal_Playbook
  imports Fleet
begin

section \<open>Self-healing playbooks\<close>

text \<open>
  \<^verbatim>\<open>server/internal/heal/playbook.go\<close>: the rule of a playbook (what it detects, on which operating
  systems it acts, which script it runs, what confirms the repair) and a run's record. The state
  of a run is a datatype; \<open>stage\<close> numbers the states along the state machine.
\<close>

record playbook =
  pb_key :: string
  pb_name :: string
  pb_description :: string
  pb_metric :: string
  pb_source :: string
  pb_detect_op :: string
  pb_detect_threshold :: f64
  pb_os_filter :: string
  pb_fresh_s :: int
  pb_cooldown_s :: int
  pb_sh :: string
  pb_ps :: string
  pb_confirm_op :: string
  pb_confirm_threshold :: f64
  pb_timeout_s :: int
  pb_confirm_wait_s :: int
  pb_enabled :: bool
  pb_updated_at :: time

text \<open>\<open>None\<close> is the error "unsupported comparison".\<close>

definition EvalOp_heal :: "string \<Rightarrow> f64 \<Rightarrow> f64 \<Rightarrow> bool option" where
  "EvalOp_heal op val threshold =
     (if op = ''>'' then Some (f_lt threshold val)
      else if op = ''>='' then Some (f_le threshold val)
      else if op = ''=='' then Some (f_eq val threshold)
      else if op = ''<'' then Some (f_lt val threshold)
      else if op = ''<='' then Some (f_le val threshold)
      else None)"

definition Detects :: "playbook \<Rightarrow> f64 \<Rightarrow> bool" where
  "Detects p v = (case EvalOp_heal (pb_detect_op p) v (pb_detect_threshold p) of None \<Rightarrow> False | Some b \<Rightarrow> b)"

definition Confirms :: "playbook \<Rightarrow> f64 \<Rightarrow> bool" where
  "Confirms p v = (case EvalOp_heal (pb_confirm_op p) v (pb_confirm_threshold p) of None \<Rightarrow> False | Some b \<Rightarrow> b)"

definition AppliesToOS :: "playbook \<Rightarrow> string \<Rightarrow> bool" where
  "AppliesToOS p os \<longleftrightarrow>
     TrimSpace (pb_os_filter p) = [] \<or>
     (\<exists>want\<in>set (split_on CHR '','' (pb_os_filter p)). ToLower (TrimSpace want) = ToLower (TrimSpace os))"

definition RemediateScriptFor :: "playbook \<Rightarrow> string \<Rightarrow> string \<Rightarrow> (string \<times> string) option" where
  "RemediateScriptFor p os source =
     (let (lang, body) = (if ToLower (TrimSpace os) = ''windows'' then (''powershell'', pb_ps p) else (''sh'', pb_sh p)) in
      if TrimSpace body = [] then None else Some (lang, replace_all body ''{{source}}'' source))"

record detection =
  dt_device :: string
  dt_source :: string
  dt_value :: f64
  dt_at :: time
  dt_os :: string
  dt_hostname :: string
  dt_online :: bool

datatype heal_status = Detected | Verifying | Remediating | Confirming | Resolved | Escalated | FailedRun | Skipped

datatype reason =
    NoReason | Cooldown int | NotOnline | DispatchFailed err | PlaybookDeleted | StuckBeforeDispatch
  | ResumeNoDevice err | ResumeNoScript string | ResumeDispatchFailed err
  | RemediationFailed string string | NoFinalResult string int
  | ConfirmFailed string f64 string f64 | NoMeasurement string int

record heal_run =
  hr_id :: int
  hr_playbook :: string
  hr_device :: string
  hr_source :: string
  hr_status :: heal_status
  hr_reason :: reason
  hr_detect_value :: "f64 option"
  hr_detect_at :: "time option"
  hr_command_id :: "string option"
  hr_dispatched_at :: "time option"
  hr_remediated_at :: "time option"
  hr_confirm_value :: "f64 option"
  hr_confirmed_at :: "time option"
  hr_escalated_at :: "time option"
  hr_created_at :: time
  hr_updated_at :: time

definition ActiveStates :: "heal_status list" where
  "ActiveStates = [Detected, Verifying, Remediating, Confirming]"

definition IsActive :: "heal_run \<Rightarrow> bool" where
  "IsActive r \<longleftrightarrow> hr_status r \<in> set ActiveStates"

fun stage :: "heal_status \<Rightarrow> nat" where
  "stage Detected = 0"
| "stage Verifying = 1"
| "stage Remediating = 2"
| "stage Confirming = 3"
| "stage s = 4"

lemma stage_le: "stage s \<le> 4"
  by (cases s) auto

lemma active_stage: "s \<in> set ActiveStates \<longleftrightarrow> stage s < 4"
  by (cases s) (auto simp: ActiveStates_def)

lemma IsActive_stage: "IsActive r \<longleftrightarrow> stage (hr_status r) < 4"
  by (simp add: IsActive_def active_stage)

subsection \<open>Scripts\<close>

lemma RemediateScriptFor_lang:
  "RemediateScriptFor p os source = Some (lang, script) \<Longrightarrow>
     lang = (if ToLower (TrimSpace os) = ''windows'' then ''powershell'' else ''sh'')"
  by (auto simp: RemediateScriptFor_def Let_def split: if_splits)

end
