(* ===== verification/Heal_Store.thy ===== *)
theory Heal_Store
  imports Heal_Playbook
begin

section \<open>The heal engine's data layer\<close>

text \<open>
  \<^verbatim>\<open>server/internal/heal/store.go\<close> over \<^verbatim>\<open>playbooks\<close>, \<^verbatim>\<open>heal_runs\<close> and \<^verbatim>\<open>heal_events\<close>
  (\<^verbatim>\<open>server/migrations/0005_selfheal.sql\<close>). The world also logs what the engine does outside the
  database: the scripts it dispatched and the escalations it notified.
\<close>

record heal_event =
  he_run :: int
  he_status :: heal_status
  he_reason :: reason
  he_at :: time

record heal_world = fleet_world +
  playbooks :: "playbook list"
  heal_runs :: "heal_run list"
  heal_seq :: int
  heal_events :: "heal_event list"
  heal_dispatches :: "(string \<times> string \<times> string \<times> string) list"
  escalations :: "(int \<times> reason) list"

type_synonym 'a hm = "(heal_world, 'a) m"

subsection \<open>Queries\<close>

text \<open>The table of playbooks is kept in the order of its key.\<close>

definition Playbooks :: "heal_world env \<Rightarrow> bool \<Rightarrow> (playbook list res) hm" where
  "Playbooks E onlyEnabled = query E (\<lambda>w. filter (\<lambda>p. onlyEnabled \<longrightarrow> pb_enabled p) (playbooks w))"

text \<open>The latest sample per device and source, joined to the registry, kept when it is fresh.\<close>

definition detect_row :: "device list \<Rightarrow> sample \<Rightarrow> detection option" where
  "detect_row ds m = map_option
     (\<lambda>d. \<lparr>dt_device = m_device m, dt_source = m_source m, dt_value = m_value m, dt_at = m_ts m,
         dt_os = dv_os d, dt_hostname = dv_hostname d, dt_online = dv_online d\<rparr>)
     (find (\<lambda>d. dv_id d = m_device m) ds)"

definition Detect :: "heal_world env \<Rightarrow> playbook \<Rightarrow> time \<Rightarrow> (detection list res) hm" where
  "Detect E p now0 =
     (let fresh = (if pb_fresh_s p * second \<le> 0 then 15 * minute else pb_fresh_s p * second) in
      query E (\<lambda>w. List.map_filter (detect_row (devices w))
        (filter (\<lambda>m. now0 - fresh \<le> m_ts m \<and> m_ts m \<le> now0 + 60 * second)
          (newest_per_source (filter (series (pb_metric p) (pb_source p)) (metrics w))))))"

definition LatestSample_heal :: "heal_world env \<Rightarrow> string \<Rightarrow> string \<Rightarrow> string \<Rightarrow> time \<Rightarrow>
    ((f64 \<times> time) option res) hm" where
  "LatestSample_heal E device metric source since =
     query E (\<lambda>w. map_option (\<lambda>m. (m_value m, m_ts m)) (latest_after device metric source since (metrics w)))"

definition GetHealRun :: "heal_world env \<Rightarrow> int \<Rightarrow> (heal_run res) hm" where
  "GetHealRun E i = do {
     r \<leftarrow> query E (\<lambda>w. find (\<lambda>x. hr_id x = i) (heal_runs w));
     State_Monad.return (case r of
        Inl e \<Rightarrow> Inl e
      | Inr None \<Rightarrow> Inl ENotFound
      | Inr (Some x) \<Rightarrow> Inr x)
   }"

definition ActiveRuns_heal :: "heal_world env \<Rightarrow> (heal_run list res) hm" where
  "ActiveRuns_heal E = query E (\<lambda>w. filter IsActive (heal_runs w))"

definition CooldownActive :: "heal_world env \<Rightarrow> string \<Rightarrow> string \<Rightarrow> string \<Rightarrow> time \<Rightarrow> (bool res) hm" where
  "CooldownActive E key device source since = query E (\<lambda>w. \<exists>r\<in>set (heal_runs w).
     hr_playbook r = key \<and> hr_device r = device \<and> hr_source r = source \<and>
     (case hr_dispatched_at r of None \<Rightarrow> False | Some d \<Rightarrow> since \<le> d))"

definition Runs_heal :: "heal_world env \<Rightarrow> heal_status option \<Rightarrow> string \<Rightarrow> int \<Rightarrow> (heal_run list res) hm" where
  "Runs_heal E status device limit =
     (let lim = (if limit \<le> 0 \<or> limit > 500 then 100 else limit) in
      query E (\<lambda>w. take (nat lim) (rev (filter (\<lambda>r.
        (status = None \<or> status = Some (hr_status r)) \<and> (device = [] \<or> hr_device r = device)) (heal_runs w)))))"

definition Events_heal :: "heal_world env \<Rightarrow> int \<Rightarrow> (heal_event list res) hm" where
  "Events_heal E i = query E (\<lambda>w. filter (\<lambda>e. he_run e = i) (heal_events w))"

subsection \<open>Statements\<close>

text \<open>The partial unique index \<^verbatim>\<open>uq_heal_one_active\<close>.\<close>

definition heal_key :: "heal_run \<Rightarrow> string \<times> string \<times> string" where
  "heal_key r = (hr_playbook r, hr_device r, hr_source r)"

definition new_heal_run :: "int \<Rightarrow> string \<Rightarrow> string \<Rightarrow> string \<Rightarrow> f64 \<Rightarrow> time \<Rightarrow> time \<Rightarrow> heal_run" where
  "new_heal_run i key device source v at0 t =
     \<lparr>hr_id = i, hr_playbook = key, hr_device = device, hr_source = source, hr_status = Detected,
      hr_reason = NoReason, hr_detect_value = Some v, hr_detect_at = Some at0, hr_command_id = None,
      hr_dispatched_at = None, hr_remediated_at = None, hr_confirm_value = None,
      hr_confirmed_at = None, hr_escalated_at = None, hr_created_at = t, hr_updated_at = t\<rparr>"

definition insert_heal_stmt :: "heal_world env \<Rightarrow> string \<Rightarrow> string \<Rightarrow> string \<Rightarrow> f64 \<Rightarrow> time \<Rightarrow>
    heal_world \<Rightarrow> int res \<times> heal_world" where
  "insert_heal_stmt E key device source v at0 w =
     (let i = heal_seq w; w' = w\<lparr>heal_seq := i + 1\<rparr>;
          r = new_heal_run i key device source v at0 (clock E (tick w)) in
      if key \<notin> pb_key ` set (playbooks w) then (Inl EDb, w')
      else if violates heal_key IsActive (heal_runs w) r then (Inl EUnique, w')
      else (Inr i, w'\<lparr>heal_runs := heal_runs w @ [r]\<rparr>))"

text \<open>The foreign key of an event: its run exists.\<close>

definition heal_event_stmt :: "heal_world env \<Rightarrow> int \<Rightarrow> heal_status \<Rightarrow> reason \<Rightarrow>
    heal_world \<Rightarrow> unit res \<times> heal_world" where
  "heal_event_stmt E i st reason w =
     (if i \<notin> hr_id ` set (heal_runs w) then (Inl EDb, w)
      else (Inr (), w\<lparr>heal_events := heal_events w @
        [\<lparr>he_run = i, he_status = st, he_reason = reason, he_at = clock E (tick w)\<rparr>]\<rparr>))"

definition appendEvent_heal :: "heal_world env \<Rightarrow> int \<Rightarrow> heal_status \<Rightarrow> reason \<Rightarrow> (unit res) hm" where
  "appendEvent_heal E i st reason = exec E (heal_event_stmt E i st reason)"

text \<open>\<open>Inr None\<close> is Go's \<^verbatim>\<open>(nil, false, nil)\<close>.\<close>

definition InsertHealRun :: "heal_world env \<Rightarrow> string \<Rightarrow> string \<Rightarrow> string \<Rightarrow> f64 \<Rightarrow> time \<Rightarrow>
    (heal_run option res) hm" where
  "InsertHealRun E key device source v at0 = do {
     ins \<leftarrow> exec E (insert_heal_stmt E key device source v at0);
     (case ins of
        Inl e \<Rightarrow> State_Monad.return (if e = EUnique then Inr None else Inl e)
      | Inr i \<Rightarrow> do {
          ap \<leftarrow> appendEvent_heal E i Detected NoReason;
          (case ap of
             Inl e \<Rightarrow> State_Monad.return (Inl e)
           | Inr _ \<Rightarrow> do {
               r \<leftarrow> GetHealRun E i;
               State_Monad.return (case r of Inl e \<Rightarrow> Inl e | Inr x \<Rightarrow> Inr (Some x))
             })
        })
   }"

text \<open>The columns a transition may set besides the status.\<close>

record fields =
  fd_reason :: "reason option"
  fd_command_id :: "string option"
  fd_dispatched_at :: "time option"
  fd_remediated_at :: "time option"
  fd_confirm_value :: "f64 option"
  fd_confirmed_at :: "time option"
  fd_escalated_at :: "time option"

definition no_fields :: fields where
  "no_fields = \<lparr>fd_reason = None, fd_command_id = None, fd_dispatched_at = None, fd_remediated_at = None,
     fd_confirm_value = None, fd_confirmed_at = None, fd_escalated_at = None\<rparr>"

definition because :: "reason \<Rightarrow> fields" where
  "because x = no_fields\<lparr>fd_reason := Some x\<rparr>"

definition set_some :: "'a option \<Rightarrow> 'a option \<Rightarrow> 'a option" where
  "set_some new old = (case new of None \<Rightarrow> old | Some x \<Rightarrow> Some x)"

definition apply_transition :: "heal_status \<Rightarrow> fields \<Rightarrow> time \<Rightarrow> heal_run \<Rightarrow> heal_run" where
  "apply_transition st fd t r = r\<lparr>
     hr_status := st,
     hr_reason := (case fd_reason fd of None \<Rightarrow> hr_reason r | Some x \<Rightarrow> x),
     hr_command_id := set_some (fd_command_id fd) (hr_command_id r),
     hr_dispatched_at := set_some (fd_dispatched_at fd) (hr_dispatched_at r),
     hr_remediated_at := set_some (fd_remediated_at fd) (hr_remediated_at r),
     hr_confirm_value := set_some (fd_confirm_value fd) (hr_confirm_value r),
     hr_confirmed_at := set_some (fd_confirmed_at fd) (hr_confirmed_at r),
     hr_escalated_at := set_some (fd_escalated_at fd) (hr_escalated_at r),
     hr_updated_at := t\<rparr>"

definition in_state :: "int \<Rightarrow> heal_status \<Rightarrow> heal_run \<Rightarrow> bool" where
  "in_state i st r \<longleftrightarrow> hr_id r = i \<and> hr_status r = st"

text \<open>The index is checked when an update makes a row active again.\<close>

definition transition_stmt :: "heal_world env \<Rightarrow> int \<Rightarrow> heal_status \<Rightarrow> heal_status \<Rightarrow> fields \<Rightarrow>
    heal_world \<Rightarrow> nat res \<times> heal_world" where
  "transition_stmt E i st st' fd w =
     (let rows = update_where (in_state i st) (apply_transition st' fd (clock E (tick w))) (heal_runs w) in
      if uniq heal_key IsActive rows then (Inr (affected (in_state i st) (heal_runs w)), w\<lparr>heal_runs := rows\<rparr>)
      else (Inl EUnique, w))"

definition Transition :: "heal_world env \<Rightarrow> int \<Rightarrow> heal_status \<Rightarrow> heal_status \<Rightarrow> fields \<Rightarrow> (bool res) hm" where
  "Transition E i st st' fd = transaction E (Inl EDb) (do {
     tag \<leftarrow> tx_exec E (transition_stmt E i st st' fd);
     (case tag of
        Inl e \<Rightarrow> State_Monad.return (Rollback (Inl e))
      | Inr n \<Rightarrow>
          if n = 0 then State_Monad.return (Rollback (Inr False))
          else do {
            ev \<leftarrow> tx_exec E (heal_event_stmt E i st' (case fd_reason fd of None \<Rightarrow> NoReason | Some x \<Rightarrow> x));
            (case ev of
               Inl e \<Rightarrow> State_Monad.return (Rollback (Inl e))
             | Inr _ \<Rightarrow> State_Monad.return (Commit (\<lambda>err. case err of Some e \<Rightarrow> Inl e | None \<Rightarrow> Inr True)))
          })
   })"

end
