(* ===== verification/Heal_Engine.thy ===== *)
theory Heal_Engine
  imports Heal_Store
begin

section \<open>The self-healing engine\<close>

text \<open>
  \<^verbatim>\<open>server/internal/heal/engine.go\<close>: one pass detects failing series, starts runs for them under the
  verify-safe guards, and advances the runs in flight. The remediator is a parameter (\<open>None\<close>: not
  wired); command results are read from the dispatcher's table. Log lines are not modelled, and a
  pass's error strings are reduced to their errors.
\<close>

record heal_deps =
  hd_env :: "heal_world env"
  hd_remediate :: "(nat \<Rightarrow> string \<Rightarrow> string \<Rightarrow> string \<Rightarrow> string + string) option"

datatype outcome = Started | SkippedRun | FailedDispatch | NotApplicable

datatype advanced = InFlight | AResolved | AEscalated | AFailed

definition dispatch :: "heal_deps \<Rightarrow> string \<Rightarrow> string \<Rightarrow> string \<Rightarrow> (string res) hm" where
  "dispatch D device lang script = State (\<lambda>w.
     case hd_remediate D of
       None \<Rightarrow> (Inl (EExt ''engine has no remediator wired''), w)
     | Some rem \<Rightarrow>
         let w' = w\<lparr>tick := Suc (tick w)\<rparr> in
         (case rem (tick w) device lang script of
            Inl e \<Rightarrow> (Inl (EExt e), w')
          | Inr cmd \<Rightarrow> (Inr cmd, w'\<lparr>heal_dispatches := heal_dispatches w @ [(device, lang, script, cmd)]\<rparr>)))"

definition Escalate :: "heal_run \<Rightarrow> reason \<Rightarrow> unit hm" where
  "Escalate r reason = modifies (\<lambda>w. w\<lparr>escalations := escalations w @ [(hr_id r, reason)]\<rparr>)"

text \<open>\<^verbatim>\<open>if _, err := e.store.Transition(...); err != nil { return "", err }; return out, nil\<close>: whether the
  transition applied is not looked at.\<close>

definition transition_then :: "heal_deps \<Rightarrow> int \<Rightarrow> heal_status \<Rightarrow> heal_status \<Rightarrow> fields \<Rightarrow> 'a \<Rightarrow> ('a res) hm" where
  "transition_then D i st st' fd out = do {
     r \<leftarrow> Transition (hd_env D) i st st' fd;
     State_Monad.return (case r of Inl e \<Rightarrow> Inl e | Inr _ \<Rightarrow> Inr out)
   }"

definition dispatched :: "string \<Rightarrow> time \<Rightarrow> fields" where
  "dispatched cmd now0 = no_fields\<lparr>fd_command_id := Some cmd, fd_dispatched_at := Some now0\<rparr>"

subsection \<open>Detection\<close>

text \<open>From the insert of the run on: \<^verbatim>\<open>verifying\<close>, the online check, the dispatch.\<close>

definition start_run :: "heal_deps \<Rightarrow> playbook \<Rightarrow> detection \<Rightarrow> time \<Rightarrow> string \<Rightarrow> string \<Rightarrow> (outcome res) hm" where
  "start_run D p d now0 lang script = do {
     ins \<leftarrow> InsertHealRun (hd_env D) (pb_key p) (dt_device d) (dt_source d) (dt_value d) (dt_at d);
     (case ins of
        Inl e \<Rightarrow> State_Monad.return (Inl e)
      | Inr None \<Rightarrow> State_Monad.return (Inr SkippedRun)
      | Inr (Some r) \<Rightarrow> do {
          v \<leftarrow> Transition (hd_env D) (hr_id r) Detected Verifying no_fields;
          (case v of
             Inl e \<Rightarrow> State_Monad.return (Inl e)
           | Inr _ \<Rightarrow>
               if \<not> dt_online d then
                 transition_then D (hr_id r) Verifying Skipped (because NotOnline) SkippedRun
               else do {
                 sent \<leftarrow> dispatch D (dt_device d) lang script;
                 (case sent of
                    Inl e \<Rightarrow> transition_then D (hr_id r) Verifying FailedRun (because (DispatchFailed e)) FailedDispatch
                  | Inr cmd \<Rightarrow> transition_then D (hr_id r) Verifying Remediating (dispatched cmd now0) Started)
               })
        })
   }"

definition skip_cooldown :: "heal_deps \<Rightarrow> playbook \<Rightarrow> detection \<Rightarrow> (outcome res) hm" where
  "skip_cooldown D p d = do {
     ins \<leftarrow> InsertHealRun (hd_env D) (pb_key p) (dt_device d) (dt_source d) (dt_value d) (dt_at d);
     (case ins of
        Inl e \<Rightarrow> State_Monad.return (Inl e)
      | Inr None \<Rightarrow> State_Monad.return (Inr SkippedRun)
      | Inr (Some r) \<Rightarrow>
          transition_then D (hr_id r) Detected Skipped (because (Cooldown (pb_cooldown_s p))) SkippedRun)
   }"

definition handleDetection :: "heal_deps \<Rightarrow> playbook \<Rightarrow> detection \<Rightarrow> time \<Rightarrow> (outcome res) hm" where
  "handleDetection D p d now0 =
     (if \<not> AppliesToOS p (dt_os d) then State_Monad.return (Inr NotApplicable)
      else (case RemediateScriptFor p (dt_os d) (dt_source d) of
         None \<Rightarrow> State_Monad.return (Inr NotApplicable)
       | Some (lang, script) \<Rightarrow> do {
           let cooldown = (if pb_cooldown_s p * second \<le> 0 then hour else pb_cooldown_s p * second);
           cd \<leftarrow> CooldownActive (hd_env D) (pb_key p) (dt_device d) (dt_source d) (now0 - cooldown);
           (case cd of
              Inl e \<Rightarrow> State_Monad.return (Inl e)
            | Inr True \<Rightarrow> skip_cooldown D p d
            | Inr False \<Rightarrow> start_run D p d now0 lang script)
         }))"

subsection \<open>Advancing a run\<close>

definition escalate :: "heal_deps \<Rightarrow> heal_run \<Rightarrow> reason \<Rightarrow> (advanced res) hm" where
  "escalate D r reason = do {
     t \<leftarrow> now (hd_env D);
     ap \<leftarrow> Transition (hd_env D) (hr_id r) (hr_status r) Escalated
            ((because reason)\<lparr>fd_escalated_at := Some t\<rparr>);
     (case ap of
        Inl e \<Rightarrow> State_Monad.return (Inl e)
      | Inr False \<Rightarrow> State_Monad.return (Inr InFlight)
      | Inr True \<Rightarrow> do {
          fresh \<leftarrow> GetHealRun (hd_env D) (hr_id r);
          (case fresh of
             Inl e \<Rightarrow> State_Monad.return (Inl e)
           | Inr x \<Rightarrow> do { _ \<leftarrow> Escalate x reason; State_Monad.return (Inr AEscalated) })
        })
   }"

definition checkRemediateTimeout :: "heal_deps \<Rightarrow> playbook \<Rightarrow> heal_run \<Rightarrow> string \<Rightarrow> time \<Rightarrow> (advanced res) hm" where
  "checkRemediateTimeout D p r cmd now0 =
     (case hr_dispatched_at r of
        None \<Rightarrow> State_Monad.return (Inr InFlight)
      | Some d \<Rightarrow>
          if now0 - d > pb_timeout_s p * second then escalate D r (NoFinalResult cmd (pb_timeout_s p))
          else State_Monad.return (Inr InFlight))"

definition advanceRemediating :: "heal_deps \<Rightarrow> playbook \<Rightarrow> heal_run \<Rightarrow> string \<Rightarrow> time \<Rightarrow> (advanced res) hm" where
  "advanceRemediating D p r cmd now0 = do {
     res \<leftarrow> reads (\<lambda>w. results w cmd);
     (case res of
        None \<Rightarrow> checkRemediateTimeout D p r cmd now0
      | Some x \<Rightarrow>
          if c_status x = CSucceeded then
            transition_then D (hr_id r) Remediating Confirming
              (no_fields\<lparr>fd_remediated_at :=
                 Some (if c_completed_ms x > 0 then c_completed_ms x * 1000000 else now0)\<rparr>) InFlight
          else if c_status x \<in> {CFailed, CTimedOut, CRefused, CUnsupported} then
            escalate D r (RemediationFailed (status_name (c_status x)) (firstNonEmpty [c_error x, c_stderr x]))
          else checkRemediateTimeout D p r cmd now0)
   }"

definition advanceConfirming :: "heal_deps \<Rightarrow> playbook \<Rightarrow> heal_run \<Rightarrow> time \<Rightarrow> (advanced res) hm" where
  "advanceConfirming D p r now0 = do {
     let since = (case hr_dispatched_at r of None \<Rightarrow> zero_time | Some d \<Rightarrow> d);
     s \<leftarrow> LatestSample_heal (hd_env D) (hr_device r) (pb_metric p) (hr_source r) since;
     (case s of
        Inl e \<Rightarrow> State_Monad.return (Inl e)
      | Inr (Some (v, at0)) \<Rightarrow>
          if Confirms p v then
            transition_then D (hr_id r) Confirming Resolved
              (no_fields\<lparr>fd_confirm_value := Some v, fd_confirmed_at := Some at0\<rparr>) AResolved
          else escalate D r (ConfirmFailed (pb_metric p) v (pb_confirm_op p) (pb_confirm_threshold p))
      | Inr None \<Rightarrow>
          (case hr_dispatched_at r of
             None \<Rightarrow> State_Monad.return (Inr InFlight)
           | Some d \<Rightarrow>
               if now0 - d > pb_confirm_wait_s p * second then
                 escalate D r (NoMeasurement (pb_metric p) (pb_confirm_wait_s p))
               else State_Monad.return (Inr InFlight)))
   }"

definition device_os :: "heal_deps \<Rightarrow> string \<Rightarrow> (string res) hm" where
  "device_os D device = do {
     r \<leftarrow> query (hd_env D) (\<lambda>w. find (\<lambda>d. dv_id d = device) (devices w));
     State_Monad.return (case r of
        Inl e \<Rightarrow> Inl e
      | Inr None \<Rightarrow> Inl ENotFound
      | Inr (Some d) \<Rightarrow> Inr (dv_os d))
   }"

definition resumeDispatch :: "heal_deps \<Rightarrow> playbook \<Rightarrow> heal_run \<Rightarrow> time \<Rightarrow> (advanced res) hm" where
  "resumeDispatch D p r now0 = do {
     os \<leftarrow> device_os D (hr_device r);
     (case os of
        Inl e \<Rightarrow> transition_then D (hr_id r) (hr_status r) FailedRun (because (ResumeNoDevice e)) AFailed
      | Inr os' \<Rightarrow>
          (case RemediateScriptFor p os' (hr_source r) of
             None \<Rightarrow> transition_then D (hr_id r) (hr_status r) FailedRun (because (ResumeNoScript os')) AFailed
           | Some (lang, script) \<Rightarrow> do {
               sent \<leftarrow> dispatch D (hr_device r) lang script;
               (case sent of
                  Inl e \<Rightarrow> transition_then D (hr_id r) (hr_status r) FailedRun
                    (because (ResumeDispatchFailed e)) AFailed
                | Inr cmd \<Rightarrow> transition_then D (hr_id r) (hr_status r) Remediating (dispatched cmd now0) InFlight)
             }))
   }"

text \<open>
  \<^verbatim>\<open>advanceRemediating\<close> dereferences the command id, so a run in state remediating without one would
  panic; the invariant of the runs rules that out, and the model fails the pass there with \<open>EExt\<close>.
\<close>

definition advance :: "heal_deps \<Rightarrow> playbook \<Rightarrow> heal_run \<Rightarrow> time \<Rightarrow> (advanced res) hm" where
  "advance D p r now0 =
     (if now0 - hr_created_at r > (pb_timeout_s p + pb_confirm_wait_s p + 600) * second \<and> hr_command_id r = None then
        transition_then D (hr_id r) (hr_status r) FailedRun (because StuckBeforeDispatch) AFailed
      else if hr_status r = Detected \<or> hr_status r = Verifying then
        (case hr_command_id r of
           Some cmd \<Rightarrow> advanceRemediating D p r cmd now0
         | None \<Rightarrow> resumeDispatch D p r now0)
      else if hr_status r = Remediating then
        (case hr_command_id r of
           Some cmd \<Rightarrow> advanceRemediating D p r cmd now0
         | None \<Rightarrow> State_Monad.return (Inl (EExt ''nil dereference'')))
      else if hr_status r = Confirming then advanceConfirming D p r now0
      else State_Monad.return (Inr InFlight))"

subsection \<open>A pass\<close>

record pass =
  ps_detections :: nat
  ps_started :: nat
  ps_skipped :: nat
  ps_confirmed :: nat
  ps_escalated :: nat
  ps_failed :: nat
  ps_active_runs :: nat
  ps_errors :: "err list"

definition no_pass :: pass where
  "no_pass = \<lparr>ps_detections = 0, ps_started = 0, ps_skipped = 0, ps_confirmed = 0, ps_escalated = 0,
     ps_failed = 0, ps_active_runs = 0, ps_errors = []\<rparr>"

definition pass_error :: "err \<Rightarrow> pass \<Rightarrow> pass" where
  "pass_error e s = s\<lparr>ps_errors := ps_errors s @ [e]\<rparr>"

definition count_outcome :: "outcome res \<Rightarrow> pass \<Rightarrow> pass" where
  "count_outcome o0 s0 = (let s = s0\<lparr>ps_detections := ps_detections s0 + 1\<rparr> in
     case o0 of
       Inl e \<Rightarrow> pass_error e s
     | Inr Started \<Rightarrow> s\<lparr>ps_started := ps_started s + 1\<rparr>
     | Inr SkippedRun \<Rightarrow> s\<lparr>ps_skipped := ps_skipped s + 1\<rparr>
     | Inr FailedDispatch \<Rightarrow> s\<lparr>ps_failed := ps_failed s + 1\<rparr>
     | Inr NotApplicable \<Rightarrow> s)"

definition count_advanced :: "advanced res \<Rightarrow> pass \<Rightarrow> pass" where
  "count_advanced a s =
     (case a of
        Inl e \<Rightarrow> pass_error e s
      | Inr InFlight \<Rightarrow> s
      | Inr AResolved \<Rightarrow> s\<lparr>ps_confirmed := ps_confirmed s + 1\<rparr>
      | Inr AEscalated \<Rightarrow> s\<lparr>ps_escalated := ps_escalated s + 1\<rparr>
      | Inr AFailed \<Rightarrow> s\<lparr>ps_failed := ps_failed s + 1\<rparr>)"

fun detect_all :: "heal_deps \<Rightarrow> playbook \<Rightarrow> time \<Rightarrow> detection list \<Rightarrow> pass \<Rightarrow> pass hm" where
  "detect_all D p now0 [] s = State_Monad.return s"
| "detect_all D p now0 (d # ds) s =
     (if \<not> Detects p (dt_value d) then detect_all D p now0 ds s
      else do {
        out \<leftarrow> handleDetection D p d now0;
        detect_all D p now0 ds (count_outcome out s)
      })"

fun detect_stage :: "heal_deps \<Rightarrow> time \<Rightarrow> playbook list \<Rightarrow> pass \<Rightarrow> pass hm" where
  "detect_stage D now0 [] s = State_Monad.return s"
| "detect_stage D now0 (p # ps) s = do {
     dets \<leftarrow> Detect (hd_env D) p now0;
     s' \<leftarrow> (case dets of
        Inl e \<Rightarrow> State_Monad.return (pass_error e s)
      | Inr ds \<Rightarrow> detect_all D p now0 ds s);
     detect_stage D now0 ps s'
   }"

fun advance_stage :: "heal_deps \<Rightarrow> time \<Rightarrow> playbook list \<Rightarrow> heal_run list \<Rightarrow> pass \<Rightarrow> pass hm" where
  "advance_stage D now0 ps [] s = State_Monad.return s"
| "advance_stage D now0 ps (r # rs) s = do {
     s' \<leftarrow> (case find (\<lambda>p. pb_key p = hr_playbook r) (rev ps) of
        None \<Rightarrow> do {
          t \<leftarrow> Transition (hd_env D) (hr_id r) (hr_status r) FailedRun (because PlaybookDeleted);
          State_Monad.return (case t of Inl e \<Rightarrow> pass_error e s | Inr _ \<Rightarrow> s)
        }
      | Some p \<Rightarrow> do {
          a \<leftarrow> advance D p r now0;
          State_Monad.return (count_advanced a s)
        });
     advance_stage D now0 ps rs s'
   }"

definition RunOnce :: "heal_deps \<Rightarrow> time \<Rightarrow> pass hm" where
  "RunOnce D now0 = do {
     pbs \<leftarrow> Playbooks (hd_env D) False;
     (case pbs of
        Inl e \<Rightarrow> State_Monad.return (pass_error e no_pass)
      | Inr ps \<Rightarrow> do {
          s1 \<leftarrow> detect_stage D now0 (filter pb_enabled ps) no_pass;
          act \<leftarrow> ActiveRuns_heal (hd_env D);
          s2 \<leftarrow> (case act of
             Inl e \<Rightarrow> State_Monad.return (pass_error e s1)
           | Inr rs \<Rightarrow> advance_stage D now0 ps (sort_key hr_id rs) s1);
          rem \<leftarrow> ActiveRuns_heal (hd_env D);
          State_Monad.return (case rem of Inl e \<Rightarrow> s2 | Inr rs \<Rightarrow> s2\<lparr>ps_active_runs := length rs\<rparr>)
        })
   }"

end
