(* ===== verification/Heal_Safety.thy ===== *)
theory Heal_Safety
  imports Heal_Engine
begin

section \<open>Replay safety of the self-healing engine\<close>

text \<open>
  The history relation \<open>heal_hist\<close> every pass guarantees under any database faults and any passes of
  the other replicas: runs are never deleted and only move forward along the stages, a recorded
  command is never replaced, and the invariant \<open>heal_inv\<close> is kept.
\<close>

subsection \<open>The history relation\<close>

definition run_advances :: "heal_run \<Rightarrow> heal_run \<Rightarrow> bool" where
  "run_advances r r' \<longleftrightarrow>
     hr_id r' = hr_id r \<and> hr_playbook r' = hr_playbook r \<and> hr_device r' = hr_device r \<and>
     hr_source r' = hr_source r \<and> hr_detect_value r' = hr_detect_value r \<and>
     hr_detect_at r' = hr_detect_at r \<and> hr_created_at r' = hr_created_at r \<and>
     (r' = r \<or> stage (hr_status r) < stage (hr_status r'))"

definition keeps_command :: "heal_run \<Rightarrow> heal_run \<Rightarrow> bool" where
  "keeps_command r r' \<longleftrightarrow> (hr_command_id r \<noteq> None \<longrightarrow>
     hr_command_id r' = hr_command_id r \<and> hr_dispatched_at r' = hr_dispatched_at r)"

definition stage_events :: "heal_event list \<Rightarrow> heal_run \<Rightarrow> heal_event list" where
  "stage_events es r = filter (\<lambda>e. he_run e = hr_id r \<and> he_status e \<noteq> Detected) es"

definition heal_row_ok :: "heal_event list \<Rightarrow> heal_run \<Rightarrow> bool" where
  "heal_row_ok es r \<longleftrightarrow>
     (hr_status r \<noteq> Detected \<longrightarrow>
        (\<exists>e\<in>set es. he_run e = hr_id r \<and> he_status e = hr_status r \<and>
           (hr_status r \<in> {Skipped, FailedRun, Escalated} \<longrightarrow> he_reason e = hr_reason r))) \<and>
     length (stage_events es r) \<le> stage (hr_status r) \<and>
     (hr_command_id r \<noteq> None \<longleftrightarrow> hr_dispatched_at r \<noteq> None) \<and>
     (hr_command_id r \<noteq> None \<longrightarrow> 2 \<le> stage (hr_status r)) \<and>
     (hr_status r \<in> {Remediating, Confirming, Resolved} \<longrightarrow> hr_command_id r \<noteq> None)"

definition heal_inv :: "heal_world \<Rightarrow> bool" where
  "heal_inv w \<longleftrightarrow>
     uniq heal_key IsActive (heal_runs w) \<and> distinct (map hr_id (heal_runs w)) \<and>
     (\<forall>r\<in>set (heal_runs w). hr_id r < heal_seq w \<and> heal_row_ok (heal_events w) r) \<and>
     (\<forall>e\<in>set (heal_events w). he_run e < heal_seq w)"

definition heal_hist :: "heal_world \<Rightarrow> heal_world \<Rightarrow> bool" where
  "heal_hist w w' \<longleftrightarrow>
     rows_evolve run_advances (heal_runs w) (heal_runs w') \<and>
     extends (heal_events w) (heal_events w') \<and> extends (heal_dispatches w) (heal_dispatches w') \<and>
     extends (escalations w) (escalations w') \<and> heal_seq w \<le> heal_seq w' \<and>
     (heal_inv w \<longrightarrow> heal_inv w' \<and> rows_evolve keeps_command (heal_runs w) (heal_runs w'))"

lemma run_advances_refl [simp]: "run_advances r r"
  by (simp add: run_advances_def)

lemma run_advances_trans: "run_advances a b \<Longrightarrow> run_advances b c \<Longrightarrow> run_advances a c"
  by (auto simp: run_advances_def)

lemma keeps_command_refl [simp]: "keeps_command r r"
  by (simp add: keeps_command_def)

lemma keeps_command_trans: "keeps_command a b \<Longrightarrow> keeps_command b c \<Longrightarrow> keeps_command a c"
  by (auto simp: keeps_command_def)

interpretation hh: history heal_hist
proof
  show "heal_hist w (w\<lparr>tick := n\<rparr>)" for w :: heal_world and n
    by (simp add: heal_hist_def heal_inv_def rows_evolve_refl)
next
  fix u v w
  assume "heal_hist u v" and "heal_hist v w"
  then show "heal_hist u w"
    by (auto simp: heal_hist_def intro: extends_trans rows_evolve_trans run_advances_trans keeps_command_trans)
qed

lemma heal_hist_logs:
  assumes "heal_runs w' = heal_runs w" and "heal_seq w' = heal_seq w" and "heal_events w' = heal_events w"
    and "extends (heal_dispatches w) (heal_dispatches w')" and "extends (escalations w) (escalations w')"
  shows "heal_hist w w'"
  using assms by (simp add: heal_hist_def heal_inv_def rows_evolve_refl)

subsection \<open>Transitions\<close>

definition good_transition :: "heal_status \<Rightarrow> heal_status \<Rightarrow> fields \<Rightarrow> bool" where
  "good_transition st st' fd \<longleftrightarrow>
     stage st < stage st' \<and>
     (fd_command_id fd \<noteq> None \<longleftrightarrow> fd_dispatched_at fd \<noteq> None) \<and>
     (fd_command_id fd \<noteq> None \<longrightarrow> stage st < 2 \<and> 2 \<le> stage st') \<and>
     (st' = Remediating \<longrightarrow> fd_command_id fd \<noteq> None) \<and>
     (st' = Confirming \<longrightarrow> st = Remediating) \<and> (st' = Resolved \<longrightarrow> st = Confirming) \<and>
     (st' \<in> {Skipped, FailedRun, Escalated} \<longrightarrow> fd_reason fd \<noteq> None)"

definition transition_effect :: "int \<Rightarrow> heal_status \<Rightarrow> heal_status \<Rightarrow> fields \<Rightarrow> time \<Rightarrow> time \<Rightarrow>
    heal_world \<Rightarrow> heal_world" where
  "transition_effect i st st' fd t t' w = w\<lparr>
     heal_runs := update_where (in_state i st) (apply_transition st' fd t) (heal_runs w),
     heal_events := heal_events w @ [\<lparr>he_run = i, he_status = st',
        he_reason = (case fd_reason fd of None \<Rightarrow> NoReason | Some x \<Rightarrow> x), he_at = t'\<rparr>]\<rparr>"

definition transition_outcome :: "int \<Rightarrow> heal_status \<Rightarrow> heal_status \<Rightarrow> fields \<Rightarrow> time \<Rightarrow> time \<Rightarrow>
    heal_world \<Rightarrow> bool res \<times> heal_world \<Rightarrow> bool" where
  "transition_outcome i st st' fd t t' v out \<longleftrightarrow>
     (snd out = v\<lparr>tick := tick (snd out)\<rparr> \<and> fst out \<noteq> Inr True) \<or>
     (affected (in_state i st) (heal_runs v) \<noteq> 0 \<and> fst out \<noteq> Inr False \<and>
      uniq heal_key IsActive (update_where (in_state i st) (apply_transition st' fd t) (heal_runs v)) \<and>
      snd out = (transition_effect i st st' fd t t' v)\<lparr>tick := tick (snd out)\<rparr>)"

lemma apply_transition_simps [simp]:
  "hr_id (apply_transition st fd t r) = hr_id r" "hr_status (apply_transition st fd t r) = st"
  "heal_key (apply_transition st fd t r) = heal_key r"
  by (simp_all add: apply_transition_def heal_key_def)

lemma in_state_exists:
  "affected (in_state i st) rows \<noteq> 0 \<Longrightarrow> i \<in> hr_id ` set (update_where (in_state i st) (apply_transition st' fd t) rows)"
proof -
  assume "affected (in_state i st) rows \<noteq> 0"
  then obtain r where "r \<in> set rows" "in_state i st r" by (auto simp: affected_0_iff)
  then have "apply_transition st' fd t r \<in> set (update_where (in_state i st) (apply_transition st' fd t) rows)"
    and "i = hr_id (apply_transition st' fd t r)"
    by (auto simp: set_update_where in_state_def image_iff intro: bexI [of _ r])
  then show ?thesis by blast
qed

text \<open>A transition happens as a whole or not at all, under every fault schedule.\<close>

lemma Transition_outcome:
  "transition_outcome i st st' fd (clock E (Suc (Suc (tick w)))) (clock E (Suc (Suc (Suc (tick w)))))
     (others E (tick w) w) (run_state (Transition E i st st' fd) w)"
  by (simp add: transition_outcome_def Transition_def transaction_def run_tx_def tx_exec_def
      transition_stmt_def heal_event_stmt_def transition_effect_def Let_def in_state_exists split: db_out.split)

lemma apply_transition_advances:
  "stage (hr_status r) < stage st' \<Longrightarrow> run_advances r (apply_transition st' fd t r)"
  by (simp add: run_advances_def apply_transition_def)

lemma stage_events_append [simp]:
  "stage_events (es @ [e]) r =
     stage_events es r @ (if he_run e = hr_id r \<and> he_status e \<noteq> Detected then [e] else [])"
  by (simp add: stage_events_def)

lemma stage_events_apply [simp]: "stage_events es (apply_transition st fd t r) = stage_events es r"
  by (simp add: stage_events_def)

lemma heal_row_ok_other:
  assumes "heal_row_ok es r" and "he_run e \<noteq> hr_id r \<or> he_status e = Detected"
  shows "heal_row_ok (es @ [e]) r"
  using assms by (auto simp: heal_row_ok_def)

lemma heal_row_ok_moved:
  assumes ok: "heal_row_ok es r" and good: "good_transition st st' fd" and st: "hr_status r = st"
    and e: "he_run e = hr_id r" "he_status e = st'"
      "he_reason e = (case fd_reason fd of None \<Rightarrow> NoReason | Some x \<Rightarrow> x)"
  shows "heal_row_ok (es @ [e]) (apply_transition st' fd t r)"
proof -
  let ?r = "apply_transition st' fd t r"
  have r: "hr_command_id r \<noteq> None \<longleftrightarrow> hr_dispatched_at r \<noteq> None"
    "hr_command_id r \<noteq> None \<longrightarrow> 2 \<le> stage st"
    "st \<in> {Remediating, Confirming, Resolved} \<longrightarrow> hr_command_id r \<noteq> None"
    "length (stage_events es r) \<le> stage st"
    using ok unfolding heal_row_ok_def st by blast+
  have g: "stage st < stage st'" "fd_command_id fd \<noteq> None \<longleftrightarrow> fd_dispatched_at fd \<noteq> None"
    "fd_command_id fd \<noteq> None \<longrightarrow> 2 \<le> stage st'" "st' = Remediating \<longrightarrow> fd_command_id fd \<noteq> None"
    "st' = Confirming \<longrightarrow> st = Remediating" "st' = Resolved \<longrightarrow> st = Confirming"
    "st' \<in> {Skipped, FailedRun, Escalated} \<longrightarrow> fd_reason fd \<noteq> None"
    using good unfolding good_transition_def by blast+
  have cmd: "hr_command_id ?r = None \<longleftrightarrow> fd_command_id fd = None \<and> hr_command_id r = None"
    "hr_dispatched_at ?r = None \<longleftrightarrow> fd_dispatched_at fd = None \<and> hr_dispatched_at r = None"
    by (simp_all add: apply_transition_def set_some_def split: option.split)
  have "he_reason e = hr_reason ?r" if "fd_reason fd \<noteq> None"
    using that e by (auto simp: apply_transition_def)
  then have 1: "\<exists>e'\<in>set (es @ [e]). he_run e' = hr_id r \<and> he_status e' = st' \<and>
      (st' \<in> {Skipped, FailedRun, Escalated} \<longrightarrow> he_reason e' = hr_reason ?r)"
    using e g(7) by simp
  have 2: "length (stage_events (es @ [e]) r) \<le> stage st'" using r(4) g(1) by simp
  have 3: "hr_command_id ?r \<noteq> None \<longleftrightarrow> hr_dispatched_at ?r \<noteq> None"
    using cmd r(1) g(2) by metis
  have 4: "hr_command_id ?r \<noteq> None \<longrightarrow> 2 \<le> stage st'"
    using cmd(1) r(2) g(1,3) by fastforce
  have 5: "st' \<in> {Remediating, Confirming, Resolved} \<longrightarrow> hr_command_id ?r \<noteq> None"
    using cmd(1) r(3) g(4,5,6) by blast
  show ?thesis using 1 2 3 4 5 by (simp add: heal_row_ok_def)
qed

lemma hist_transition_effect:
  assumes good: "good_transition st st' fd" and hit: "affected (in_state i st) (heal_runs w) \<noteq> 0"
    and uniq: "heal_inv w \<Longrightarrow> uniq heal_key IsActive
    (update_where (in_state i st) (apply_transition st' fd t) (heal_runs w))"
  shows "heal_hist w (transition_effect i st st' fd t t' w)"
proof -
  let ?f = "apply_transition st' fd t"
  let ?rows = "update_where (in_state i st) ?f (heal_runs w)"
  let ?e = "\<lparr>he_run = i, he_status = st', he_reason = (case fd_reason fd of None \<Rightarrow> NoReason | Some x \<Rightarrow> x), he_at = t'\<rparr>"
  have adv: "rows_evolve run_advances (heal_runs w) ?rows"
    by (rule rows_evolve_update)
      (use good in \<open>auto simp: in_state_def good_transition_def intro: apply_transition_advances\<close>)
  have ids: "map hr_id ?rows = map hr_id (heal_runs w)"
    by (rule map_update_where) simp
  have rows: "hr_id r < heal_seq w \<and> heal_row_ok (heal_events w @ [?e]) r" if inv: "heal_inv w" and r: "r \<in> set ?rows" for r
  proof -
    from r obtain q where q: "q \<in> set (heal_runs w)" "r = (if in_state i st q then ?f q else q)"
      by (auto simp: set_update_where)
    have ok: "hr_id q < heal_seq w" "heal_row_ok (heal_events w) q"
      using inv q(1) by (auto simp: heal_inv_def)
    show ?thesis
    proof (cases "in_state i st q")
      case True
      then have "heal_row_ok (heal_events w @ [?e]) (?f q)"
        by (intro heal_row_ok_moved [OF ok(2) good]) (auto simp: in_state_def)
      then show ?thesis using q True ok by simp
    next
      case False
      show ?thesis
      proof (cases "hr_id q = i")
        case True
        from hit obtain q0 where "q0 \<in> set (heal_runs w)" "in_state i st q0" by (auto simp: affected_0_iff)
        moreover from this True inv q(1) have "q0 = q"
          by (auto simp: heal_inv_def in_state_def distinct_map dest: inj_onD)
        ultimately show ?thesis using \<open>\<not> in_state i st q\<close> by simp
      next
        case False
        then show ?thesis using q \<open>\<not> in_state i st q\<close> ok by (auto intro: heal_row_ok_other)
      qed
    qed
  qed
  have cmd: "rows_evolve keeps_command (heal_runs w) ?rows" if inv: "heal_inv w"
  proof -
    have "keeps_command r (?f r)" if "r \<in> set (heal_runs w)" and "in_state i st r" for r
    proof -
      have "hr_command_id r \<noteq> None \<longrightarrow> 2 \<le> stage st"
        using inv that by (auto simp: heal_inv_def heal_row_ok_def in_state_def)
      then show ?thesis
        using good by (cases "hr_command_id r")
          (auto simp: keeps_command_def good_transition_def apply_transition_def set_some_def)
    qed
    then show ?thesis by (simp add: rows_evolve_def nth_update_where)
  qed
  have "i < heal_seq w" if "heal_inv w"
    using that hit by (auto simp: affected_0_iff in_state_def heal_inv_def)
  then have "heal_inv (transition_effect i st st' fd t t' w)" if "heal_inv w"
    using that rows uniq ids by (auto simp: heal_inv_def transition_effect_def)
  then show ?thesis using adv cmd by (simp add: heal_hist_def transition_effect_def)
qed

lemma hist_Transition:
  assumes E: "rely heal_hist E" and good: "good_transition st st' fd"
  shows "guarantees heal_hist (Transition E i st st' fd)"
proof (rule guaranteesI)
  fix w
  let ?v = "others E (tick w) w"
  let ?t = "clock E (Suc (Suc (tick w)))" and ?t' = "clock E (Suc (Suc (Suc (tick w))))"
  let ?out = "run_state (Transition E i st st' fd) w"
  have v: "heal_hist w ?v" using E by (simp add: rely_def)
  from Transition_outcome [of i st st' fd E w]
  consider "snd ?out = ?v\<lparr>tick := tick (snd ?out)\<rparr>"
    | "affected (in_state i st) (heal_runs ?v) \<noteq> 0"
      "uniq heal_key IsActive (update_where (in_state i st) (apply_transition st' fd ?t) (heal_runs ?v))"
      "snd ?out = (transition_effect i st st' fd ?t ?t' ?v)\<lparr>tick := tick (snd ?out)\<rparr>"
    by (auto simp: transition_outcome_def)
  then show "heal_hist w (snd ?out)"
  proof cases
    case 1
    then show ?thesis using hh.then_ticks [OF v] by metis
  next
    case 2
    then show ?thesis
      using hh.then_ticks [OF hh.trans [OF v hist_transition_effect [OF good 2(1,2)]]] by metis
  qed
qed

subsection \<open>The whole pass\<close>

lemma hist_insert_heal: "heal_hist w (snd (insert_heal_stmt E key device source v at0 w))"
proof -
  let ?r = "new_heal_run (heal_seq w) key device source v at0 (clock E (tick w))"
  have up: "heal_inv (w\<lparr>heal_seq := heal_seq w + 1\<rparr>)" if "heal_inv w"
    using that by (force simp: heal_inv_def)
  have fresh: "stage_events (heal_events w) ?r = []" if "heal_inv w"
    using that by (auto simp: heal_inv_def stage_events_def new_heal_run_def filter_empty_conv)
  have ins: "heal_inv (w\<lparr>heal_seq := heal_seq w + 1, heal_runs := heal_runs w @ [?r]\<rparr>)"
    if "heal_inv w" and "\<not> violates heal_key IsActive (heal_runs w) ?r"
    using that up fresh by (auto simp: heal_inv_def uniq_append new_heal_run_def heal_row_ok_def)
  show ?thesis
    by (auto simp: heal_hist_def insert_heal_stmt_def Let_def up ins
        intro: rows_evolve_refl rows_evolve_append)
qed

lemma hist_append_detected: "heal_hist w (snd (heal_event_stmt E i Detected reason w))"
proof -
  let ?e = "\<lparr>he_run = i, he_status = Detected, he_reason = reason, he_at = clock E (tick w)\<rparr>"
  have "heal_inv (w\<lparr>heal_events := heal_events w @ [?e]\<rparr>)" if "heal_inv w" "i \<in> hr_id ` set (heal_runs w)"
    using that by (auto simp: heal_inv_def intro: heal_row_ok_other)
  then show ?thesis
    by (auto simp: heal_hist_def heal_event_stmt_def rows_evolve_refl)
qed

lemma hist_heal_queries [guarantee]:
  assumes "rely heal_hist E"
  shows "guarantees heal_hist (Playbooks E b)" "guarantees heal_hist (Detect E p t)"
    "guarantees heal_hist (LatestSample_heal E d m s t)" "guarantees heal_hist (GetHealRun E i)"
    "guarantees heal_hist (ActiveRuns_heal E)" "guarantees heal_hist (CooldownActive E k d s t)"
    "guarantees heal_hist (Runs_heal E st d n)" "guarantees heal_hist (Events_heal E i)"
  unfolding Playbooks_def Detect_def LatestSample_heal_def GetHealRun_def ActiveRuns_heal_def
    CooldownActive_def Runs_heal_def Events_heal_def
  using assms by (intro guarantee | assumption)+

lemma hist_device_os [guarantee]: "rely heal_hist (hd_env D) \<Longrightarrow> guarantees heal_hist (device_os D d)"
  unfolding device_os_def by (intro guarantee | assumption)+

lemma hist_InsertHealRun [guarantee]:
  "rely heal_hist E \<Longrightarrow> guarantees heal_hist (InsertHealRun E key device source v t)"
  unfolding InsertHealRun_def appendEvent_heal_def
  by (intro guarantee hist_insert_heal hist_append_detected | assumption)+

lemma hist_dispatch [guarantee]: "guarantees heal_hist (dispatch D device lang script)"
  by (rule guaranteesI) (simp add: dispatch_def Let_def heal_hist_logs split: option.split sum.split)

lemma hist_Escalate [guarantee]: "guarantees heal_hist (Escalate r reason)"
  by (rule guaranteesI) (simp add: Escalate_def heal_hist_logs)

lemma hist_transition_then [guarantee]:
  "rely heal_hist (hd_env D) \<Longrightarrow> good_transition st st' fd \<Longrightarrow>
     guarantees heal_hist (transition_then D i st st' fd out)"
  unfolding transition_then_def by (intro guarantee hist_Transition | assumption)+

lemmas field_defs = no_fields_def because_def dispatched_def

lemma good_transitions:
  "good_transition Detected Verifying no_fields"
  "good_transition Detected Skipped (because x)" "good_transition Verifying Skipped (because x)"
  "stage st < 4 \<Longrightarrow> good_transition st FailedRun (because x)"
  "stage st < 2 \<Longrightarrow> good_transition st Remediating (dispatched cmd t)"
  "good_transition Remediating Confirming (no_fields\<lparr>fd_remediated_at := t'\<rparr>)"
  "good_transition Confirming Resolved (no_fields\<lparr>fd_confirm_value := v, fd_confirmed_at := t'\<rparr>)"
  "stage st < 4 \<Longrightarrow> good_transition st Escalated ((because x)\<lparr>fd_escalated_at := t'\<rparr>)"
  by (auto simp: good_transition_def field_defs)

lemma verifying_transitions:
  "good_transition Verifying FailedRun (because x)"
  "good_transition Verifying Remediating (dispatched cmd t)"
  by (simp_all add: good_transitions)

lemma hist_handleDetection [guarantee]:
  assumes "rely heal_hist (hd_env D)"
  shows "guarantees heal_hist (handleDetection D p d t)"
  unfolding handleDetection_def start_run_def skip_cooldown_def
  using assms
  by (intro guarantee hist_Transition good_transitions(1,2,3) verifying_transitions | assumption)+

lemma hist_escalate:
  assumes "rely heal_hist (hd_env D)" and "IsActive r"
  shows "guarantees heal_hist (escalate D r x)"
  unfolding escalate_def using assms
  by (intro guarantee hist_Transition good_transitions(8) | assumption | simp add: IsActive_stage)+

lemma hist_advanceRemediating:
  assumes "rely heal_hist (hd_env D)" and "IsActive r"
  shows "guarantees heal_hist (advanceRemediating D p r cmd t)"
  unfolding advanceRemediating_def checkRemediateTimeout_def using assms
  by (intro guarantee hist_escalate good_transitions(6) | assumption)+

lemma hist_advanceConfirming:
  assumes "rely heal_hist (hd_env D)" and "IsActive r"
  shows "guarantees heal_hist (advanceConfirming D p r t)"
  unfolding advanceConfirming_def using assms
  by (intro guarantee hist_escalate good_transitions(7) | assumption)+

lemma hist_resumeDispatch:
  assumes "rely heal_hist (hd_env D)" and "stage (hr_status r) < 2"
  shows "guarantees heal_hist (resumeDispatch D p r t)"
proof -
  have "stage (hr_status r) < 4" using assms(2) by simp
  then show ?thesis
    unfolding resumeDispatch_def using assms
    by (intro guarantee good_transitions(4,5) | assumption)+
qed

lemma hist_advance:
  assumes "rely heal_hist (hd_env D)" and "IsActive r"
  shows "guarantees heal_hist (advance D p r t)"
proof -
  have 4: "stage (hr_status r) < 4" using assms(2) by (simp add: IsActive_stage)
  have 2: "stage (hr_status r) < 2" if "hr_status r = Detected \<or> hr_status r = Verifying" using that by auto
  show ?thesis
    unfolding advance_def using assms 4
    by (intro guarantee hist_advanceRemediating hist_advanceConfirming hist_resumeDispatch good_transitions(4) 2
        | assumption)+
qed

lemma hist_detect_all [guarantee]:
  "rely heal_hist (hd_env D) \<Longrightarrow> guarantees heal_hist (detect_all D p t ds s)"
  by (induction D p t ds s rule: detect_all.induct) (auto intro!: guarantee)

lemma hist_detect_stage [guarantee]:
  "rely heal_hist (hd_env D) \<Longrightarrow> guarantees heal_hist (detect_stage D t ps s)"
proof (induction ps arbitrary: s)
  case (Cons p ps)
  then show ?case unfolding detect_stage.simps by (intro guarantee | assumption | rule Cons.IH)+
qed (simp add: guarantee)

lemma hist_advance_stage:
  "rely heal_hist (hd_env D) \<Longrightarrow> \<forall>r\<in>set rs. IsActive r \<Longrightarrow> guarantees heal_hist (advance_stage D t ps rs s)"
proof (induction rs arbitrary: s)
  case (Cons r rs)
  then have "stage (hr_status r) < 4" and "IsActive r" by (simp_all add: IsActive_stage)
  with Cons show ?case
    unfolding advance_stage.simps
    by (intro guarantee hist_Transition hist_advance good_transitions(4) Cons.IH | assumption | simp)+
qed (simp add: guarantee)

lemma hist_RunOnce [guarantee]:
  assumes "rely heal_hist (hd_env D)"
  shows "guarantees heal_hist (RunOnce D t)"
proof -
  have act: "yields (\<lambda>a. case a of Inl e \<Rightarrow> True | Inr rs \<Rightarrow> \<forall>r\<in>set rs. IsActive r) (ActiveRuns_heal E)" for E
    unfolding ActiveRuns_heal_def by (rule yields_query) auto
  have *: "guarantees heal_hist (do { act \<leftarrow> ActiveRuns_heal (hd_env D);
      s2 \<leftarrow> (case act of Inl e \<Rightarrow> State_Monad.return (pass_error e s1)
        | Inr rs \<Rightarrow> advance_stage D t ps (sort_key hr_id rs) s1);
      rem \<leftarrow> ActiveRuns_heal (hd_env D);
      State_Monad.return (case rem of Inl e \<Rightarrow> s2 | Inr rs \<Rightarrow> s2\<lparr>ps_active_runs := length rs\<rparr>) })" for ps s1
    by (rule hh.bind_yields [OF _ act])
      (auto intro!: guarantee hist_advance_stage assms split: sum.split)
  show ?thesis unfolding RunOnce_def using assms by (intro guarantee * | assumption)+
qed

end
