(* ===== verification/Heal_Api.thy ===== *)
theory Heal_Api
  imports Heal_Engine Http
begin

section \<open>The self-healing routes of the HTTP API\<close>

text \<open>\<^verbatim>\<open>server/internal/httpapi/domain_heal.go\<close>. \<open>None\<close>: the engine is not wired.\<close>

datatype heal_body = HPlaybooks "playbook list" | HRuns "heal_run list" | HDetail heal_run "heal_event list"
  | HPass pass | HError err

type_synonym heal_resp = "heal_body response"

definition handleHealPlaybooks :: "heal_deps option \<Rightarrow> http_method \<Rightarrow> string \<Rightarrow> heal_resp hm" where
  "handleHealPlaybooks H m enabled =
     (if m \<noteq> GET then State_Monad.return (Resp 405 None)
      else case H of
        None \<Rightarrow> State_Monad.return (Resp 503 None)
      | Some D \<Rightarrow> do {
          r \<leftarrow> Playbooks (hd_env D) (enabled \<noteq> ''false'');
          State_Monad.return (case r of Inl e \<Rightarrow> Resp 500 None | Inr ps \<Rightarrow> Resp 200 (Some (HPlaybooks ps)))
        })"

definition limit_param :: "string \<Rightarrow> int" where
  "limit_param v = (case ParseInt64 v of None \<Rightarrow> 100 | Some n \<Rightarrow> if n > 0 then n else 100)"

definition handleHealRuns :: "heal_deps option \<Rightarrow> http_method \<Rightarrow> heal_status option option \<Rightarrow> string \<Rightarrow> string \<Rightarrow>
    heal_resp hm" where
  "handleHealRuns H m status device limit =
     (if m \<noteq> GET then State_Monad.return (Resp 405 None)
      else case H of
        None \<Rightarrow> State_Monad.return (Resp 503 None)
      | Some D \<Rightarrow> do {
          r \<leftarrow> (case status of
                 Some st \<Rightarrow> Runs_heal (hd_env D) st device (limit_param limit)
               | None \<Rightarrow> query (hd_env D) (\<lambda>w. []));
          State_Monad.return (case r of Inl e \<Rightarrow> Resp 500 None | Inr rs \<Rightarrow> Resp 200 (Some (HRuns rs)))
        })"

definition healRunDetail :: "heal_deps \<Rightarrow> int \<Rightarrow> heal_resp hm" where
  "healRunDetail D i = do {
     rr \<leftarrow> GetHealRun (hd_env D) i;
     (case rr of
        Inl e \<Rightarrow> State_Monad.return (Resp 404 (Some (HError e)))
      | Inr r \<Rightarrow> do {
          es \<leftarrow> Events_heal (hd_env D) i;
          State_Monad.return (case es of Inl e \<Rightarrow> Resp 500 None | Inr xs \<Rightarrow> Resp 200 (Some (HDetail r xs)))
        })
   }"

definition handleHealRunSub :: "heal_deps option \<Rightarrow> string \<Rightarrow> heal_resp hm" where
  "handleHealRunSub H path =
     (case H of
        None \<Rightarrow> State_Monad.return (Resp 503 None)
      | Some D \<Rightarrow>
          let parts = path_parts path in
          if length parts \<noteq> 4 \<or> parts ! 3 = [] then State_Monad.return (Resp 404 None)
          else (case positive_id (parts ! 3) of
             None \<Rightarrow> State_Monad.return (Resp 400 None)
           | Some i \<Rightarrow> healRunDetail D i))"

definition handleHealPass :: "heal_deps option \<Rightarrow> http_method \<Rightarrow> heal_resp hm" where
  "handleHealPass H m =
     (if m \<noteq> POST then State_Monad.return (Resp 405 None)
      else case H of
        None \<Rightarrow> State_Monad.return (Resp 503 None)
      | Some D \<Rightarrow> do {
          t \<leftarrow> now (hd_env D);
          p \<leftarrow> RunOnce D t;
          State_Monad.return (Resp 200 (Some (HPass p)))
        })"

end
