(* ===== verification/Heal_Properties.thy ===== *)
theory Heal_Properties
  imports Heal_Safety Heal_Api
begin

section \<open>Properties of the self-healing engine\<close>

text \<open>
  \<open>heal_reach\<close> are the worlds the engine reaches: passes (of the ticker, of \<^verbatim>\<open>POST /heal/pass\<close>, of any
  number of replicas) interleave under every fault schedule, while the agents report and operators
  edit the playbooks and the registry.
\<close>

subsection \<open>The system\<close>

inductive heal_reach :: "heal_world \<Rightarrow> bool" where
  empty: "heal_runs w = [] \<Longrightarrow> heal_events w = [] \<Longrightarrow> heal_reach w"
| passed: "heal_reach w \<Longrightarrow> rely heal_hist (hd_env D) \<Longrightarrow> heal_reach (snd (run_state (RunOnce D t) w))"
| posted: "heal_reach w \<Longrightarrow> rely heal_hist (hd_env D) \<Longrightarrow>
    heal_reach (snd (run_state (handleHealPass (Some D) m) w))"
| reported: "heal_reach w \<Longrightarrow>
    heal_reach (w\<lparr>devices := ds, metrics := ms, results := rs, playbooks := ps\<rparr>)"

lemma hist_handleHealPass:
  "rely heal_hist (hd_env D) \<Longrightarrow> guarantees heal_hist (handleHealPass (Some D) m)"
  by (auto simp: handleHealPass_def intro!: guarantee)

lemma heal_reach_inv: "heal_reach w \<Longrightarrow> heal_inv w"
proof (induction rule: heal_reach.induct)
  case (empty w)
  then show ?case by (simp add: heal_inv_def)
next
  case (passed w D t)
  then show ?case
    using guaranteesD [OF hist_RunOnce [OF passed.hyps(2)], where w = w] by (simp add: heal_hist_def)
next
  case (posted w D m)
  then show ?case
    using guaranteesD [OF hist_handleHealPass [OF posted.hyps(2)], where w = w] by (simp add: heal_hist_def)
next
  case (reported w ds ms rs ps)
  then show ?case by (simp add: heal_inv_def)
qed

subsection \<open>A small deployment\<close>

definition demo_playbook :: playbook where
  "demo_playbook = \<lparr>pb_key = ''disk'', pb_name = [], pb_description = [], pb_metric = ''disk'', pb_source = [],
     pb_detect_op = ''>'', pb_detect_threshold = Fin 90, pb_os_filter = [], pb_fresh_s = 900,
     pb_cooldown_s = 3600, pb_sh = ''clean'', pb_ps = [], pb_confirm_op = ''<'',
     pb_confirm_threshold = Fin 80, pb_timeout_s = 300, pb_confirm_wait_s = 600, pb_enabled = True,
     pb_updated_at = 0\<rparr>"

definition heal_demo0 :: heal_world where
  "heal_demo0 = \<lparr>tick = 0,
     devices = [\<lparr>dv_id = ''d1'', dv_os = ''linux'', dv_hostname = ''h'', dv_online = True\<rparr>],
     metrics = [\<lparr>m_device = ''d1'', m_name = ''disk'', m_source = [], m_value = Fin 95, m_ts = 5\<rparr>],
     results = (\<lambda>_. None), playbooks = [demo_playbook], heal_runs = [], heal_seq = 1,
     heal_events = [], heal_dispatches = [], escalations = []\<rparr>"

definition heal_demo_deps :: heal_deps where
  "heal_demo_deps = \<lparr>hd_env = calm 10, hd_remediate = Some (\<lambda>k dev lang script. Inr ''c1'')\<rparr>"

definition heal_demo1 :: heal_world where
  "heal_demo1 = snd (run_state (RunOnce heal_demo_deps 10) heal_demo0)"

lemma heal_demo_reach: "heal_reach heal_demo0" "heal_reach heal_demo1"
proof -
  show "heal_reach heal_demo0" by (rule heal_reach.empty) (simp_all add: heal_demo0_def)
  then show "heal_reach heal_demo1"
    unfolding heal_demo1_def by (rule heal_reach.passed) (simp add: heal_demo_deps_def rely_def)
qed

lemma heal_demo_facts:
  "map (\<lambda>r. (hr_status r, hr_command_id r)) (heal_runs heal_demo1) = [(Remediating, Some ''c1'')]"
  "length (heal_dispatches heal_demo1) = 1"
  by code_simp+

subsection \<open>Safety under faults and interference\<close>

definition active_heal :: "string \<Rightarrow> string \<Rightarrow> string \<Rightarrow> heal_run \<Rightarrow> bool" where
  "active_heal key device source r \<longleftrightarrow> IsActive r \<and> heal_key r = (key, device, source)"

text \<open>
  C2. In every reachable world at most one run is active for a playbook, a device and a source,
  whatever faults occur and however the passes of all replicas interleave.
\<close>

theorem one_active_heal_run:
  assumes "heal_reach w"
  shows "length (filter (active_heal key device source) (heal_runs w)) \<le> 1"
proof -
  have "distinct (map heal_key (filter IsActive (heal_runs w)))"
    using heal_reach_inv [OF assms] by (simp add: heal_inv_def uniq_def)
  moreover have "filter (active_heal key device source) (heal_runs w) =
      filter (\<lambda>r. heal_key r = (key, device, source)) (filter IsActive (heal_runs w))"
    by (auto simp: active_heal_def intro: filter_cong)
  ultimately show ?thesis by (metis filter_key_le_1)
qed

lemma one_active_heal_run_witness:
  "filter (active_heal ''disk'' ''d1'' []) (heal_runs heal_demo1) \<noteq> [] \<and>
   length (filter (active_heal ''disk'' ''d1'' []) (heal_runs heal_demo1)) \<le> 1"
proof -
  have "filter (active_heal ''disk'' ''d1'' []) (heal_runs heal_demo1) \<noteq> []" by code_simp
  with one_active_heal_run [OF heal_demo_reach(2), of "''disk''" "''d1''" "[]"] show ?thesis by simp
qed

text \<open>
  C18. A pass only moves runs forward: under all faults and interference every run keeps its row and
  identity, its state is unchanged or strictly further along detected, verifying, remediating,
  confirming, terminal (so a terminal run is never touched), and a recorded command and its
  dispatch time are never replaced.
\<close>

theorem runs_only_advance:
  assumes "heal_reach w" and "rely heal_hist (hd_env D)" and "i < length (heal_runs w)"
    and "w' = snd (run_state (RunOnce D t) w)"
  shows "i < length (heal_runs w') \<and>
    (let r = heal_runs w ! i; r' = heal_runs w' ! i in
      hr_id r' = hr_id r \<and> heal_key r' = heal_key r \<and>
      (r' = r \<or> stage (hr_status r) < stage (hr_status r')) \<and>
      (\<forall>c. hr_command_id r = Some c \<longrightarrow> hr_command_id r' = Some c \<and> hr_dispatched_at r' = hr_dispatched_at r))"
proof -
  have "heal_hist w w'" unfolding assms(4) by (rule guaranteesD [OF hist_RunOnce [OF assms(2)]])
  then have "i < length (heal_runs w')" and "run_advances (heal_runs w ! i) (heal_runs w' ! i)"
    and "keeps_command (heal_runs w ! i) (heal_runs w' ! i)"
    using heal_reach_inv [OF assms(1)] assms(3) by (auto simp: heal_hist_def rows_evolve_def)
  then show ?thesis by (auto simp: run_advances_def keeps_command_def heal_key_def Let_def)
qed

lemma runs_only_advance_witness:
  "hr_command_id (heal_runs (snd (run_state (RunOnce heal_demo_deps 99) heal_demo1)) ! 0) = Some ''c1''"
proof -
  have "0 < length (heal_runs heal_demo1)" and "hr_command_id (heal_runs heal_demo1 ! 0) = Some ''c1''"
    by code_simp+
  moreover have "rely heal_hist (hd_env heal_demo_deps)" by (simp add: heal_demo_deps_def rely_def)
  ultimately show ?thesis
    using runs_only_advance [OF heal_demo_reach(2) _ _ refl, of heal_demo_deps 0 99] by (simp add: Let_def)
qed

text \<open>
  The stage log is complete and bounded: in every reachable world a run past the first state has
  an event of its current state, with the run's reason when it was skipped, failed or escalated, and
  a run has at most as many events past detection as its state is far along (at most four).
\<close>

theorem stage_log_complete:
  assumes "heal_reach w" and "r \<in> set (heal_runs w)"
  shows "(hr_status r = Detected \<or> (\<exists>e\<in>set (heal_events w). he_run e = hr_id r \<and> he_status e = hr_status r \<and>
      (hr_status r \<notin> {Skipped, FailedRun, Escalated} \<or> he_reason e = hr_reason r))) \<and>
    length (filter (\<lambda>e. he_run e = hr_id r \<and> he_status e \<noteq> Detected) (heal_events w)) \<le> stage (hr_status r) \<and>
    stage (hr_status r) \<le> 4"
proof -
  have "heal_row_ok (heal_events w) r"
    using heal_reach_inv [OF assms(1)] assms(2) by (simp add: heal_inv_def)
  then show ?thesis
    unfolding heal_row_ok_def stage_events_def using stage_le [of "hr_status r"] by blast
qed

lemma stage_log_complete_witness:
  "length (filter (\<lambda>e. he_run e = 1 \<and> he_status e \<noteq> Detected) (heal_events heal_demo1)) \<le> 2 \<and>
   (\<exists>e\<in>set (heal_events heal_demo1). he_run e = 1 \<and> he_status e = Remediating)"
proof -
  have "hd (heal_runs heal_demo1) \<in> set (heal_runs heal_demo1)" "hr_id (hd (heal_runs heal_demo1)) = 1"
    "hr_status (hd (heal_runs heal_demo1)) = Remediating" by code_simp+
  with stage_log_complete [OF heal_demo_reach(2) this(1)] show ?thesis by auto
qed

subsection \<open>When the engine acts\<close>

definition idle :: "heal_world \<Rightarrow> heal_world \<Rightarrow> bool" where
  "idle w w' \<longleftrightarrow> heal_dispatches w' = heal_dispatches w"

interpretation ih: history idle
  by standard (simp_all add: idle_def)

lemma idle_exec_stmts:
  "idle w (snd (insert_heal_stmt E key device source v at0 w))"
  "idle w (snd (heal_event_stmt E i st reason w))"
  "idle w (snd (transition_stmt E i st st' fd w))"
  by (simp_all add: idle_def insert_heal_stmt_def heal_event_stmt_def transition_stmt_def Let_def)

lemma idle_calls [guarantee]:
  assumes "rely idle E"
  shows "guarantees idle (InsertHealRun E key device source v t)"
    "guarantees idle (Transition E i st st' fd)"
    "guarantees idle (CooldownActive E k d s t)"
  unfolding InsertHealRun_def appendEvent_heal_def GetHealRun_def Transition_def CooldownActive_def
  using assms by (intro guarantee idle_exec_stmts | assumption)+

lemma idle_transition_then [guarantee]:
  "rely idle (hd_env D) \<Longrightarrow> guarantees idle (transition_then D i st st' fd out)"
  unfolding transition_then_def by (intro guarantee | assumption)+

lemma violates_new_heal_run:
  "violates heal_key IsActive rs (new_heal_run i key device source v at0 t) \<longleftrightarrow>
     (\<exists>r\<in>set rs. active_heal key device source r)"
  by (auto simp: violates_def new_heal_run_def heal_key_def IsActive_def ActiveStates_def active_heal_def)

lemma InsertHealRun_created:
  assumes "\<And>n v. others E n v = v"
    and "fst (run_state (InsertHealRun E key device source v t) w) = Inr (Some r)"
  shows "\<not> (\<exists>r\<in>set (heal_runs w). active_heal key device source r)"
  using assms
  by (auto simp: InsertHealRun_def exec_def insert_heal_stmt_def Let_def violates_new_heal_run
      split: db_out.splits if_splits)

definition acted_recently :: "heal_world \<Rightarrow> playbook \<Rightarrow> detection \<Rightarrow> time \<Rightarrow> bool" where
  "acted_recently w p d now0 \<longleftrightarrow>
     (\<exists>r\<in>set (heal_runs w). heal_key r = (pb_key p, dt_device d, dt_source d) \<and>
        (\<exists>t. hr_dispatched_at r = Some t \<and>
           now0 - t \<le> (if pb_cooldown_s p * second \<le> 0 then hour else pb_cooldown_s p * second)))"

lemma dispatch_log:
  "heal_dispatches (snd (run_state (dispatch D device lang script) w)) =
     heal_dispatches w @ (case fst (run_state (dispatch D device lang script) w) of
       Inl e \<Rightarrow> [] | Inr cmd \<Rightarrow> [(device, lang, script, cmd)])"
  by (simp add: dispatch_def Let_def split: option.split sum.split)

lemma start_run_dispatches:
  assumes "\<And>n v. others (hd_env D) n v = v"
    and "heal_dispatches (snd (run_state (start_run D p d now0 lang script) w)) \<noteq> heal_dispatches w"
  shows "dt_online d \<and> \<not> (\<exists>r\<in>set (heal_runs w). active_heal (pb_key p) (dt_device d) (dt_source d) r) \<and>
    (\<exists>cmd. heal_dispatches (snd (run_state (start_run D p d now0 lang script) w)) =
       heal_dispatches w @ [(dt_device d, lang, script, cmd)])"
proof -
  have E: "rely idle (hd_env D)" by (simp add: rely_def assms(1))
  let ?ins = "InsertHealRun (hd_env D) (pb_key p) (dt_device d) (dt_source d) (dt_value d) (dt_at d)"
  let ?w1 = "snd (run_state ?ins w)"
  have w1: "heal_dispatches ?w1 = heal_dispatches w"
    using guaranteesD [OF idle_calls(1) [OF E]] by (simp add: idle_def)
  show ?thesis
  proof (cases "fst (run_state ?ins w)")
    case (Inl e)
    with assms(2) w1 show ?thesis by (simp add: start_run_def)
  next
    case (Inr x)
    show ?thesis
    proof (cases x)
      case None
      with Inr assms(2) w1 show ?thesis by (simp add: start_run_def)
    next
      case (Some r)
      let ?tr = "Transition (hd_env D) (hr_id r) Detected Verifying no_fields"
      let ?w2 = "snd (run_state ?tr ?w1)"
      have w2: "heal_dispatches ?w2 = heal_dispatches w"
        using guaranteesD [OF idle_calls(2) [OF E], of ?w1] w1 by (simp add: idle_def)
      have tail: "heal_dispatches (snd (run_state (transition_then D i st st' fd out) u)) = heal_dispatches u"
        for i st st' fd u and out :: outcome
        using guaranteesD [OF idle_transition_then [OF E], of u] by (simp add: idle_def)
      show ?thesis
        using assms(2) Inr Some w1 w2 InsertHealRun_created [OF assms(1), of "pb_key p" "dt_device d" "dt_source d"]
        by (cases "fst (run_state ?tr ?w1)")
          (auto simp: start_run_def tail dispatch_log split: if_splits sum.splits)
    qed
  qed
qed

text \<open>
  C19. The engine acts only when it is safe: whatever faults occur, if handling a detection dispatches
  anything, it dispatches exactly one script, the playbook's for the device's operating system, and
  then the device was online, the playbook applies to its system, no run was active for the series
  and none had a dispatch recorded within the cooldown.
\<close>

theorem dispatch_guarded:
  assumes "\<And>n v. others (hd_env D) n v = v"
    and "w' = snd (run_state (handleDetection D p d now0) w)" and "heal_dispatches w' \<noteq> heal_dispatches w"
  shows "dt_online d \<and> AppliesToOS p (dt_os d) \<and> \<not> acted_recently w p d now0 \<and>
    \<not> (\<exists>r\<in>set (heal_runs w). active_heal (pb_key p) (dt_device d) (dt_source d) r) \<and>
    (\<exists>lang script cmd. RemediateScriptFor p (dt_os d) (dt_source d) = Some (lang, script) \<and>
       heal_dispatches w' = heal_dispatches w @ [(dt_device d, lang, script, cmd)])"
proof -
  have E: "rely idle (hd_env D)" by (simp add: rely_def assms(1))
  let ?cool = "if pb_cooldown_s p * second \<le> 0 then hour else pb_cooldown_s p * second"
  let ?w1 = "w\<lparr>tick := Suc (tick w)\<rparr>"
  have "w' = w" if "\<not> AppliesToOS p (dt_os d) \<or> RemediateScriptFor p (dt_os d) (dt_source d) = None"
    using that assms(2) by (auto simp: handleDetection_def)
  with assms(3) obtain lang script where os: "AppliesToOS p (dt_os d)"
    and scr: "RemediateScriptFor p (dt_os d) (dt_source d) = Some (lang, script)"
    by (cases "RemediateScriptFor p (dt_os d) (dt_source d)") auto
  have cd: "run_state (CooldownActive (hd_env D) (pb_key p) (dt_device d) (dt_source d) (now0 - ?cool)) w =
      (if db_out (hd_env D) (tick w) = DbOk then Inr (acted_recently w p d now0) else Inl EDb, ?w1)"
    by (auto simp: CooldownActive_def query_def assms(1) acted_recently_def heal_key_def algebra_simps
        split: db_out.split option.splits)
  have skip: "heal_dispatches (snd (run_state (skip_cooldown D p d) u)) = heal_dispatches u" for u
  proof -
    have "guarantees idle (skip_cooldown D p d)"
      unfolding skip_cooldown_def using E by (intro guarantee | assumption)+
    then show ?thesis using guaranteesD [of idle "skip_cooldown D p d" u] by (simp add: idle_def)
  qed
  have run: "w' = snd (run_state (if db_out (hd_env D) (tick w) \<noteq> DbOk then State_Monad.return (Inl EDb)
      else if acted_recently w p d now0 then skip_cooldown D p d else start_run D p d now0 lang script) ?w1)"
    using assms(2) os scr cd by (simp add: handleDetection_def Let_def split: bool.split)
  have "db_out (hd_env D) (tick w) = DbOk \<and> \<not> acted_recently w p d now0"
    using run skip [of ?w1] assms(3) by (auto split: if_splits)
  with run have calm: "\<not> acted_recently w p d now0"
    and w': "w' = snd (run_state (start_run D p d now0 lang script) ?w1)" by simp_all
  with start_run_dispatches [OF assms(1), of p d now0 lang script ?w1] assms(3) os scr
  show ?thesis by simp
qed

lemma dispatch_guarded_witness:
  "let d = \<lparr>dt_device = ''d1'', dt_source = [], dt_value = Fin 95, dt_at = 5, dt_os = ''linux'',
       dt_hostname = ''h'', dt_online = True\<rparr> in
   \<not> acted_recently heal_demo0 demo_playbook d 10 \<and>
   heal_dispatches (snd (run_state (handleDetection heal_demo_deps demo_playbook d 10) heal_demo0)) =
     [(''d1'', ''sh'', ''clean'', ''c1'')]"
proof -
  define d where "d = \<lparr>dt_device = ''d1'', dt_source = [], dt_value = Fin 95, dt_at = 5, dt_os = ''linux'',
       dt_hostname = ''h'', dt_online = True\<rparr>"
  let ?w = "snd (run_state (handleDetection heal_demo_deps demo_playbook d 10) heal_demo0)"
  have acted: "heal_dispatches ?w = [(''d1'', ''sh'', ''clean'', ''c1'')]"
    unfolding d_def by code_simp
  moreover have "heal_dispatches heal_demo0 = []" by (simp add: heal_demo0_def)
  moreover have "others (hd_env heal_demo_deps) n v = v" for n v by (simp add: heal_demo_deps_def)
  ultimately have "\<not> acted_recently heal_demo0 demo_playbook d 10"
    using dispatch_guarded [of heal_demo_deps ?w demo_playbook d 10 heal_demo0] by simp
  with acted show ?thesis unfolding d_def by (simp add: Let_def)
qed

text \<open>
  Two passes at once remediate twice: with no fault at all, when a second pass runs between the
  insert of a run and its dispatch, it resumes the run and dispatches; the first pass ignores that
  its own transition did not apply and dispatches the same script again, in the one run. (The
  comment of \<open>RunOnce\<close> calls interleaved passes a no-op by construction.)
\<close>

theorem interleaved_passes_dispatch_twice:
  "\<exists>E. rely heal_hist E \<and> (\<forall>n. db_out E n = DbOk) \<and>
     (\<forall>n v. others E n v = v \<or> others E n v = snd (run_state (RunOnce heal_demo_deps 10) v)) \<and>
     (let w = snd (run_state (RunOnce (heal_demo_deps\<lparr>hd_env := E\<rparr>) 10) heal_demo0) in
       length (heal_runs w) = 1 \<and>
       map (\<lambda>(device, lang, script, cmd). (device, script)) (heal_dispatches w) =
         [(''d1'', ''clean''), (''d1'', ''clean'')])"
proof -
  define E :: "heal_world env" where "E = (calm 10)\<lparr>others :=
    (\<lambda>n v. if n = 6 then snd (run_state (RunOnce heal_demo_deps 10) v) else v)\<rparr>"
  have calm: "rely heal_hist (hd_env heal_demo_deps)" by (simp add: heal_demo_deps_def rely_def)
  have "rely heal_hist E"
    by (simp add: rely_def E_def guaranteesD [OF hist_RunOnce [OF calm]])
  moreover have "\<forall>n. db_out E n = DbOk" by (simp add: E_def)
  moreover have "\<forall>n v. others E n v = v \<or> others E n v = snd (run_state (RunOnce heal_demo_deps 10) v)"
    by (simp add: E_def)
  moreover have "let w = snd (run_state (RunOnce (heal_demo_deps\<lparr>hd_env := E\<rparr>) 10) heal_demo0) in
       length (heal_runs w) = 1 \<and>
       map (\<lambda>(device, lang, script, cmd). (device, script)) (heal_dispatches w) =
         [(''d1'', ''clean''), (''d1'', ''clean'')]"
    unfolding E_def by code_simp
  ultimately show ?thesis by blast
qed

text \<open>The demo device offline, one second after a remediation that was confirmed.\<close>

definition heal_demo_cooling :: heal_world where
  "heal_demo_cooling = heal_demo1\<lparr>tick := 0,
     devices := [\<lparr>dv_id = ''d1'', dv_os = ''linux'', dv_hostname = ''h'', dv_online = False\<rparr>],
     heal_runs := map (\<lambda>r. r\<lparr>hr_status := Resolved\<rparr>) (heal_runs heal_demo1), heal_dispatches := []\<rparr>"

text \<open>
  The cooldown can be bypassed: a series within its cooldown gets a run that is to be skipped at
  once; when that one transition fails, the advance stage of the same pass takes the run for an
  interrupted one and dispatches its script, inside the cooldown and, since resuming does not check
  it, although the device is offline.
\<close>

theorem cooldown_bypassed:
  "\<exists>E. rely heal_hist E \<and> (\<forall>n. db_out E n = (if n = 6 then DbErr else DbOk)) \<and> (\<forall>n v. others E n v = v) \<and>
     (\<exists>r\<in>set (heal_runs heal_demo_cooling). hr_dispatched_at r = Some 10 \<and> pb_cooldown_s demo_playbook = 3600) \<and>
     map (\<lambda>(device, lang, script, cmd). (device, script))
       (heal_dispatches (snd (run_state (RunOnce (heal_demo_deps\<lparr>hd_env := E\<rparr>) 11) heal_demo_cooling))) =
       [(''d1'', ''clean'')]"
proof -
  define E :: "heal_world env" where
    "E = (calm 11)\<lparr>db_out := (\<lambda>n. if n = 6 then DbErr else DbOk)\<rparr>"
  have 1: "rely heal_hist E" by (simp add: rely_def E_def)
  have 2: "\<forall>n. db_out E n = (if n = 6 then DbErr else DbOk)" and 3: "\<forall>n v. others E n v = v" by (simp_all add: E_def)
  have 4: "\<exists>r\<in>set (heal_runs heal_demo_cooling). hr_dispatched_at r = Some 10 \<and> pb_cooldown_s demo_playbook = 3600"
    by code_simp
  have 5: "map (\<lambda>(device, lang, script, cmd). (device, script))
       (heal_dispatches (snd (run_state (RunOnce (heal_demo_deps\<lparr>hd_env := E\<rparr>) 11) heal_demo_cooling))) =
       [(''d1'', ''clean'')]"
    unfolding E_def by code_simp
  show ?thesis by (intro exI [of _ E] conjI 1 2 3 4 5)
qed

subsection \<open>Transitions without faults\<close>

lemma uniq_transition:
  assumes "heal_inv w" and "stage st < stage st'"
  shows "uniq heal_key IsActive (update_where (in_state i st) (apply_transition st' fd t) (heal_runs w))"
proof (rule uniq_update_where)
  show "uniq heal_key IsActive (heal_runs w)" using assms(1) by (simp add: heal_inv_def)
  fix r assume "in_state i st r"
  then have "stage (hr_status r) < 4" using assms(2) stage_le [of st'] by (simp add: in_state_def)
  then show "IsActive r \<and> heal_key (apply_transition st' fd t r) = heal_key r" by (simp add: IsActive_stage)
qed

lemma calm_Transition:
  "run_state (Transition (calm t) i st st' fd) w =
     (if \<not> uniq heal_key IsActive (update_where (in_state i st) (apply_transition st' fd t) (heal_runs w))
      then (Inl EUnique, w\<lparr>tick := Suc (Suc (tick w))\<rparr>)
      else if affected (in_state i st) (heal_runs w) = 0 then (Inr False, w\<lparr>tick := Suc (Suc (tick w))\<rparr>)
      else (Inr True, (transition_effect i st st' fd t t w)\<lparr>tick := tick w + 4\<rparr>))"
  by (simp add: Transition_def transaction_def run_tx_def tx_exec_def transition_stmt_def
      heal_event_stmt_def transition_effect_def Let_def in_state_exists)

text \<open>The state machine's transition meets the interface of conditional hops.\<close>

definition transition_applies :: "time \<Rightarrow> int \<Rightarrow> heal_status \<Rightarrow> heal_status \<Rightarrow> fields \<Rightarrow> heal_world \<Rightarrow> bool" where
  "transition_applies t i st st' fd w \<longleftrightarrow>
     affected (in_state i st) (heal_runs w) \<noteq> 0 \<and>
     uniq heal_key IsActive (update_where (in_state i st) (apply_transition st' fd t) (heal_runs w))"

definition calm_transition :: "time \<Rightarrow> int \<Rightarrow> heal_status \<Rightarrow> heal_status \<Rightarrow> fields \<Rightarrow> heal_world \<Rightarrow> bool \<times> heal_world" where
  "calm_transition t i st st' fd w =
     (let (r, w') = run_state (Transition (calm t) i st st' fd) w in (r = Inr True, w'\<lparr>tick := tick w\<rparr>))"

lemma calm_transition_eq:
  "calm_transition t i st st' fd w =
     (if transition_applies t i st st' fd w then (True, transition_effect i st st' fd t t w) else (False, w))"
  by (auto simp: calm_transition_def calm_Transition transition_applies_def transition_effect_def)

interpretation heal_step: conditional_hop
  "\<lambda>(i, st', fd) st. transition_applies t i st st' fd"
  "\<lambda>(i, st', fd) st. st' \<noteq> st"
  "\<lambda>(i, st', fd) st. calm_transition t i st st' fd"
  for t :: time
proof
  fix a :: "int \<times> heal_status \<times> fields" and st :: heal_status and w :: heal_world
  obtain i st' fd where a: "a = (i, st', fd)" by (cases a)
  show "fst ((case a of (i, st', fd) \<Rightarrow> \<lambda>st. calm_transition t i st st' fd) st w) =
      (case a of (i, st', fd) \<Rightarrow> \<lambda>st. transition_applies t i st st' fd) st w"
    by (simp add: a calm_transition_eq)
  show "snd ((case a of (i, st', fd) \<Rightarrow> \<lambda>st. calm_transition t i st st' fd) st w) = w"
    if "\<not> (case a of (i, st', fd) \<Rightarrow> \<lambda>st. transition_applies t i st st' fd) st w"
    using that by (simp add: a calm_transition_eq)
  show "\<not> (case a of (i, st', fd) \<Rightarrow> \<lambda>st. transition_applies t i st st' fd) st
      (snd ((case a of (i, st', fd) \<Rightarrow> \<lambda>st. calm_transition t i st st' fd) st w))"
    if "(case a of (i, st', fd) \<Rightarrow> \<lambda>st. st' \<noteq> st) st"
      and "(case a of (i, st', fd) \<Rightarrow> \<lambda>st. transition_applies t i st st' fd) st w"
    using that
    by (auto simp: a calm_transition_eq transition_applies_def transition_effect_def affected_0_iff
        set_update_where in_state_def)
qed

text \<open>
  A transition is idempotent: driving a run out of a state any number of times has the effect of
  driving it once, and only the first delivery reports that it applied.
\<close>

theorem transition_once:
  assumes "st' \<noteq> st" and "0 < n"
  shows "((\<lambda>v. snd (calm_transition t i st st' fd v)) ^^ n) w = snd (calm_transition t i st st' fd w) \<and>
    calm_transition t i st st' fd (snd (calm_transition t i st st' fd w)) =
      (False, snd (calm_transition t i st st' fd w))"
  using heal_step.deliveries [of "(i, st', fd)" st n t w] heal_step.replay [of "(i, st', fd)" st t w] assms
  by simp

lemma transition_once_witness:
  "let f = calm_transition 20 1 Remediating Confirming no_fields in
   fst (f heal_demo1) \<and> ((\<lambda>v. snd (f v)) ^^ 3) heal_demo1 = snd (f heal_demo1)"
proof -
  have "fst (calm_transition 20 1 Remediating Confirming no_fields heal_demo1)" by code_simp
  then show ?thesis
    using transition_once [of Confirming Remediating 3 20 1 no_fields heal_demo1] by simp
qed

definition confirm_sample :: "heal_world \<Rightarrow> playbook \<Rightarrow> heal_run \<Rightarrow> time \<Rightarrow> sample option" where
  "confirm_sample w p r since = latest_after (hr_device r) (pb_metric p) (hr_source r) since (metrics w)"

definition escalate_row :: "reason \<Rightarrow> time \<Rightarrow> heal_run \<Rightarrow> heal_run" where
  "escalate_row x t = apply_transition Escalated ((because x)\<lparr>fd_escalated_at := Some t\<rparr>) t"

lemma find_transition_effect:
  assumes "find (\<lambda>x. hr_id x = hr_id r) (heal_runs w) = Some r" and "hr_status r = st"
  shows "find (\<lambda>x. hr_id x = hr_id r) (heal_runs (transition_effect (hr_id r) st st' fd t t' w)) =
    Some (apply_transition st' fd t r)"
  using assms by (simp add: transition_effect_def find_update_where in_state_def)

lemma calm_escalate:
  assumes inv: "heal_inv w" and r: "find (\<lambda>x. hr_id x = hr_id r) (heal_runs w) = Some r" "IsActive r"
    and D: "hd_env D = calm t"
  shows "let w' = snd (run_state (escalate D r x) w) in
    find (\<lambda>y. hr_id y = hr_id r) (heal_runs w') = Some (escalate_row x t r) \<and>
    escalations w' = escalations w @ [(hr_id r, x)]"
proof -
  let ?fd = "(because x)\<lparr>fd_escalated_at := Some t\<rparr>"
  let ?w1 = "w\<lparr>tick := Suc (tick w)\<rparr>"
  let ?w2 = "(transition_effect (hr_id r) (hr_status r) Escalated ?fd t t ?w1)\<lparr>tick := tick w + 5\<rparr>"
  have inv1: "heal_inv ?w1" using inv by (simp add: heal_inv_def)
  have st: "stage (hr_status r) < stage Escalated" using r(2) by (simp add: IsActive_stage)
  have "r \<in> set (heal_runs w)" using r(1) by (auto dest: find_SomeD)
  then have hit: "affected (in_state (hr_id r) (hr_status r)) (heal_runs w) \<noteq> 0"
    by (auto simp: affected_0_iff in_state_def)
  have tr: "run_state (Transition (calm t) (hr_id r) (hr_status r) Escalated ?fd) ?w1 = (Inr True, ?w2)"
    using hit uniq_transition [OF inv1 st, of "hr_id r" ?fd t] by (simp add: calm_Transition)
  have row: "find (\<lambda>y. hr_id y = hr_id r) (heal_runs ?w2) = Some (escalate_row x t r)"
    using find_transition_effect [of r ?w1 "hr_status r" Escalated ?fd t t] r(1) by (simp add: escalate_row_def)
  have "run_state (escalate D r x) w =
      (Inr AEscalated, ?w2\<lparr>tick := tick w + 6, escalations := escalations w @ [(hr_id r, x)]\<rparr>)"
    using tr row by (simp add: escalate_def D GetHealRun_def query_def Escalate_def escalate_row_def
        transition_effect_def)
  then show ?thesis using row by (simp add: Let_def)
qed

text \<open>
  A run is healed only by a measurement: a confirming run, without faults, is resolved when the
  newest sample taken after its dispatch satisfies the confirm condition; it is escalated, and the
  escalation notified once, when that sample violates it, or when there is none after the confirm
  wait; otherwise it stays as it is.
\<close>

theorem confirm_outcome:
  assumes reach: "heal_reach w" and r: "find (\<lambda>x. hr_id x = hr_id r) (heal_runs w) = Some r"
    and st: "hr_status r = Confirming" and D: "hd_env D = calm t"
  shows "\<exists>d. hr_dispatched_at r = Some d \<and>
    (let w' = snd (run_state (advance D p r now0) w);
         escalated = (\<lambda>x. (escalate_row x t r, escalations w @ [(hr_id r, x)])) in
      (the (find (\<lambda>x. hr_id x = hr_id r) (heal_runs w')), escalations w') =
      (case confirm_sample w p r d of
         Some m \<Rightarrow>
           if Confirms p (m_value m) then
             (apply_transition Resolved (no_fields\<lparr>fd_confirm_value := Some (m_value m), fd_confirmed_at := Some (m_ts m)\<rparr>) t r,
              escalations w)
           else escalated (ConfirmFailed (pb_metric p) (m_value m) (pb_confirm_op p) (pb_confirm_threshold p))
       | None \<Rightarrow>
           if now0 - d > pb_confirm_wait_s p * second then escalated (NoMeasurement (pb_metric p) (pb_confirm_wait_s p))
           else (r, escalations w)))"
proof -
  have inv: "heal_inv w" by (rule heal_reach_inv [OF reach])
  have mem: "r \<in> set (heal_runs w)" using r by (auto dest: find_SomeD)
  have ok: "heal_row_ok (heal_events w) r" using inv mem by (simp add: heal_inv_def)
  then obtain c d where cmd: "hr_command_id r = Some c" and d: "hr_dispatched_at r = Some d"
    using st by (auto simp: heal_row_ok_def)
  have active: "IsActive r" by (simp add: IsActive_stage st)
  let ?w1 = "w\<lparr>tick := Suc (tick w)\<rparr>"
  have inv1: "heal_inv ?w1" using inv by (simp add: heal_inv_def)
  have hit: "affected (in_state (hr_id r) Confirming) (heal_runs w) \<noteq> 0"
    using mem st by (auto simp: affected_0_iff in_state_def)
  have adv: "advance D p r now0 = advanceConfirming D p r now0" by (simp add: advance_def cmd st)
  have sample: "run_state (LatestSample_heal (calm t) (hr_device r) (pb_metric p) (hr_source r) d) w =
      (Inr (map_option (\<lambda>m. (m_value m, m_ts m)) (confirm_sample w p r d)), ?w1)"
    by (simp add: LatestSample_heal_def query_def confirm_sample_def)
  have esc: "find (\<lambda>y. hr_id y = hr_id r) (heal_runs (snd (run_state (escalate D r x) ?w1))) = Some (escalate_row x t r) \<and>
      escalations (snd (run_state (escalate D r x) ?w1)) = escalations w @ [(hr_id r, x)]" for x
    using calm_escalate [OF inv1 _ active D, of x] r by (simp add: Let_def)
  show ?thesis
  proof (cases "confirm_sample w p r d")
    case None
    then show ?thesis
      using esc r d by (auto simp: adv advanceConfirming_def Let_def D sample)
  next
    case (Some m)
    show ?thesis
    proof (cases "Confirms p (m_value m)")
      case False
      then show ?thesis using Some esc d by (simp add: adv advanceConfirming_def Let_def D sample)
    next
      case True
      let ?fd = "no_fields\<lparr>fd_confirm_value := Some (m_value m), fd_confirmed_at := Some (m_ts m)\<rparr>"
      have "run_state (Transition (calm t) (hr_id r) Confirming Resolved ?fd) ?w1 =
          (Inr True, (transition_effect (hr_id r) Confirming Resolved ?fd t t ?w1)\<lparr>tick := tick w + 5\<rparr>)"
        using hit uniq_transition [OF inv1, of Confirming Resolved "hr_id r" ?fd t] by (simp add: calm_Transition)
      moreover have "find (\<lambda>x. hr_id x = hr_id r) (heal_runs (transition_effect (hr_id r) Confirming Resolved ?fd t t ?w1)) =
          Some (apply_transition Resolved ?fd t r)"
        by (rule find_transition_effect) (use r st in simp_all)
      ultimately show ?thesis
        using True Some d
        by (simp add: adv advanceConfirming_def Let_def D sample transition_then_def transition_effect_def)
    qed
  qed
qed

definition heal_demo2 :: heal_world where
  "heal_demo2 = snd (run_state (RunOnce heal_demo_deps 30) (heal_demo1\<lparr>devices := [], metrics :=
     [\<lparr>m_device = ''d1'', m_name = ''disk'', m_source = [], m_value = Fin 70, m_ts = 40\<rparr>],
     results := (\<lambda>c. Some \<lparr>c_status = CSucceeded, c_error = [], c_stderr = [], c_completed_ms = 0\<rparr>),
     playbooks := [demo_playbook]\<rparr>))"

lemma confirm_outcome_witness:
  "\<exists>r. hr_status r = Confirming \<and> find (\<lambda>x. hr_id x = 1) (heal_runs heal_demo2) = Some r \<and>
     (let w' = snd (run_state (advance heal_demo_deps demo_playbook r 50) heal_demo2) in
      hr_status (the (find (\<lambda>x. hr_id x = 1) (heal_runs w'))) = Resolved \<and> escalations w' = escalations heal_demo2)"
proof -
  let ?r = "hd (heal_runs heal_demo2)"
  have reach: "heal_reach heal_demo2"
    unfolding heal_demo2_def
    by (rule heal_reach.passed [OF heal_reach.reported [OF heal_demo_reach(2)]]) (simp add: heal_demo_deps_def rely_def)
  have r: "hr_id ?r = 1" "hr_status ?r = Confirming" "hr_dispatched_at ?r = Some 10"
    and f: "find (\<lambda>x. hr_id x = 1) (heal_runs heal_demo2) = Some ?r"
    and m: "map_option (\<lambda>m. (m_value m, m_ts m)) (confirm_sample heal_demo2 demo_playbook ?r 10) = Some (Fin 70, 40)"
    and c: "Confirms demo_playbook (Fin 70)"
    by code_simp+
  have D: "hd_env heal_demo_deps = calm 10" by (simp add: heal_demo_deps_def)
  show ?thesis
    using confirm_outcome [OF reach _ r(2) D, of demo_playbook 50] r f m c
    by (auto simp: Let_def)
qed

end
