(* ===== verification/Strconv.thy ===== *)
theory Strconv
  imports Http
begin

section \<open>Decimal text and 64-bit time\<close>

text \<open>
  Go's \<^verbatim>\<open>strconv.FormatInt(n, 10)\<close> with the round trip through \<^verbatim>\<open>ParseInt\<close>, two's-complement
  wrap-around to 64 bits, and the parts of package \<^verbatim>\<open>time\<close> whose arithmetic can overflow: the Unix
  second of an instant, the instant of a Unix second (Go counts from year 1, and that count wraps) and
  the saturating \<^verbatim>\<open>Time.Sub\<close>.
\<close>

subsection \<open>Wrap-around\<close>

definition wrap64 :: "int \<Rightarrow> int" where
  "wrap64 x = (x + 2 ^ 63) mod 2 ^ 64 - 2 ^ 63"

definition int64 :: "int \<Rightarrow> bool" where
  "int64 x \<longleftrightarrow> - (2 ^ 63) \<le> x \<and> x < 2 ^ 63"

lemma int64_wrap64 [simp]: "int64 (wrap64 x)"
proof -
  have "0 \<le> (x + 2 ^ 63) mod 2 ^ 64" and "(x + 2 ^ 63) mod 2 ^ 64 < 2 ^ 64" by simp_all
  then show ?thesis unfolding int64_def wrap64_def by simp
qed

lemma wrap64_id: "int64 x \<Longrightarrow> wrap64 x = x"
  by (simp add: int64_def wrap64_def)

lemma wrap64_diff [simp]: "wrap64 (wrap64 (x + c) - c) = wrap64 x"
proof -
  have "(wrap64 (x + c) - c + 2 ^ 63) mod 2 ^ 64 = ((x + c + 2 ^ 63) mod 2 ^ 64 - c) mod 2 ^ 64"
    by (simp add: wrap64_def algebra_simps)
  also have "\<dots> = (x + c + 2 ^ 63 - c) mod 2 ^ 64" by (rule mod_diff_left_eq)
  finally show ?thesis by (simp add: wrap64_def)
qed

text \<open>Go negates a 64-bit value in two's complement: the least value is its own negation.\<close>

definition neg64 :: "int \<Rightarrow> int" where
  "neg64 x = wrap64 (- x)"

subsection \<open>Decimal text\<close>

definition digit_char :: "int \<Rightarrow> char" where
  "digit_char d = (if d = 0 then CHR ''0'' else if d = 1 then CHR ''1'' else if d = 2 then CHR ''2''
     else if d = 3 then CHR ''3'' else if d = 4 then CHR ''4'' else if d = 5 then CHR ''5''
     else if d = 6 then CHR ''6'' else if d = 7 then CHR ''7'' else if d = 8 then CHR ''8''
     else CHR ''9'')"

function dec_digits :: "int \<Rightarrow> string" where
  "dec_digits n = (if n < 10 then [digit_char n] else dec_digits (n div 10) @ [digit_char (n mod 10)])"
  by pat_completeness auto
termination by (relation "measure nat") auto

declare dec_digits.simps [simp del]

definition FormatInt :: "int \<Rightarrow> string" where
  "FormatInt n = (if n < 0 then CHR ''-'' # dec_digits (- n) else dec_digits n)"

lemma digit_char_cases:
  assumes "0 \<le> (d :: int)" and "d < 10"
  shows "d \<in> {0, 1, 2, 3, 4, 5, 6, 7, 8, 9}"
  unfolding insert_iff empty_iff using assms by arith

lemma digit_char_props:
  assumes "0 \<le> d" and "d < 10"
  shows "is_digit (digit_char d)" and "int (of_char (digit_char d)) - 48 = d"
  using digit_char_cases [OF assms] by (auto simp: digit_char_def is_digit_def Let_def)

lemma dec_val_snoc: "dec_val (s @ [c]) = 10 * dec_val s + (int (of_char c) - 48)"
  by (simp add: dec_val_def)

lemma dec_digits_parse:
  assumes "0 \<le> n"
  shows "dec_val (dec_digits n) = n \<and> list_all is_digit (dec_digits n) \<and> dec_digits n \<noteq> []"
  using assms
proof (induction n rule: dec_digits.induct)
  case (1 n)
  show ?case
  proof (cases "n < 10")
    case True
    then show ?thesis
      using 1 digit_char_props [of n] by (simp add: dec_digits.simps [of n] dec_val_def)
  next
    case False
    then have "0 \<le> n mod 10" "n mod 10 < 10" "0 \<le> n div 10" by auto
    then show ?thesis
      using False 1 digit_char_props [of "n mod 10"]
      by (simp add: dec_digits.simps [of n] dec_val_snoc)
  qed
qed

lemma is_digit_not_sign: "is_digit c \<Longrightarrow> c \<noteq> CHR ''-'' \<and> c \<noteq> CHR ''+'' \<and> c \<noteq> CHR '',''"
  by (auto simp: is_digit_def Let_def)

lemma digits_hd: "list_all is_digit ds \<Longrightarrow> ds \<noteq> [] \<Longrightarrow> is_digit (hd ds)"
  by (cases ds) auto

theorem ParseInt_FormatInt: "int64 n \<Longrightarrow> ParseInt64 (FormatInt n) = Some n"
proof (cases "n < 0")
  case True
  assume "int64 n"
  with True dec_digits_parse [of "- n"] show ?thesis
    by (simp add: ParseInt64_def FormatInt_def int64_def)
next
  case False
  assume "int64 n"
  have D: "dec_val (dec_digits n) = n" "list_all is_digit (dec_digits n)" "dec_digits n \<noteq> []"
    using dec_digits_parse [of n] False by simp_all
  have "hd (dec_digits n) \<noteq> CHR ''-''" "hd (dec_digits n) \<noteq> CHR ''+''"
    using is_digit_not_sign [OF digits_hd [OF D(2,3)]] by simp_all
  with False \<open>int64 n\<close> D show ?thesis
    by (simp add: ParseInt64_def FormatInt_def int64_def)
qed

lemma FormatInt_nonempty [simp]: "FormatInt n \<noteq> []"
  using dec_digits_parse [of n] by (auto simp: FormatInt_def)

lemma FormatInt_chars: "c \<in> set (FormatInt n) \<Longrightarrow> is_digit c \<or> c = CHR ''-''"
  using dec_digits_parse [of n] dec_digits_parse [of "- n"]
  by (auto simp: FormatInt_def list_all_iff split: if_splits)

subsection \<open>Unix seconds\<close>

definition year1_offset :: int where
  "year1_offset = 62135596800"

text \<open>\<^verbatim>\<open>t.Unix()\<close> and \<^verbatim>\<open>time.Unix(n, 0)\<close>.\<close>

definition unix_of :: "time \<Rightarrow> int" where
  "unix_of t = wrap64 (t div second)"

definition time_of_unix :: "int \<Rightarrow> time" where
  "time_of_unix n = (wrap64 (n + year1_offset) - year1_offset) * second"

lemma unix_of_time_of_unix: "int64 n \<Longrightarrow> unix_of (time_of_unix n) = n"
  by (simp add: unix_of_def time_of_unix_def second_def wrap64_id)

text \<open>\<^verbatim>\<open>t.Sub(u)\<close> saturates.\<close>

definition time_sub :: "time \<Rightarrow> time \<Rightarrow> duration" where
  "time_sub t u = (if t - u < - (2 ^ 63) then - (2 ^ 63) else if t - u \<ge> 2 ^ 63 then 2 ^ 63 - 1 else t - u)"

subsection \<open>Trimming text that has no white space at its ends\<close>

lemma trim_left_id:
  assumes "s \<noteq> []" and "hd s \<notin> hd ` set (filter (\<lambda>p. p \<noteq> []) ps)"
  shows "trim_left ps s = s"
proof -
  have "find (\<lambda>p. p \<noteq> [] \<and> HasPrefix s p) ps = None"
    using assms by (cases s) (auto simp: find_None_iff_list HasPrefix_def neq_Nil_conv image_iff)
  then show ?thesis by (simp add: trim_left.simps [of ps s])
qed

definition space_heads :: string where
  "space_heads = map hd space_seqs @ map last space_seqs"

lemma TrimSpace_id:
  assumes "s \<noteq> []" and "hd s \<notin> set space_heads" and "last s \<notin> set space_heads"
  shows "TrimSpace s = s"
proof -
  have "filter (\<lambda>p. p \<noteq> []) space_seqs = space_seqs" by (simp add: space_seqs_def)
  then have 1: "trim_left space_seqs s = s"
    using assms by (intro trim_left_id) (auto simp: space_heads_def)
  have "hd ` set (filter (\<lambda>p. p \<noteq> []) (map rev space_seqs)) = last ` set space_seqs"
    by (simp add: space_seqs_def)
  then have 2: "trim_left (map rev space_seqs) (rev s) = rev s"
    using assms by (intro trim_left_id) (auto simp: space_heads_def hd_rev)
  show ?thesis by (simp add: TrimSpace_def 1 2)
qed

end
