(* ===== verification/Sha256.thy ===== *)
theory Sha256
  imports Prelude "HOL-Library.Word"
begin

section \<open>SHA-256, HMAC and hexadecimal text\<close>

text \<open>
  What the server uses of Go's \<^verbatim>\<open>crypto/sha256\<close>, \<^verbatim>\<open>crypto/hmac\<close> and \<^verbatim>\<open>encoding/hex\<close>: the hash of FIPS
  180-4 on byte strings (a byte is a \<open>char\<close>), the keyed hash of RFC 2104 and lower-case hexadecimal
  text. The definitions are executable.
\<close>

unbundle bit_operations_syntax

type_synonym w32 = "32 word"

subsection \<open>Bytes and words\<close>

definition byte_of :: "char \<Rightarrow> w32" where
  "byte_of c = word_of_int (of_char c)"

definition char_at :: "nat \<Rightarrow> w32 \<Rightarrow> char" where
  "char_at k x = char_of (uint (drop_bit (8 * k) x) mod 256)"

definition be_word :: "string \<Rightarrow> w32" where
  "be_word cs = foldl (\<lambda>v c. push_bit 8 v OR byte_of c) 0 cs"

definition be_chars :: "w32 \<Rightarrow> string" where
  "be_chars x = [char_at 3 x, char_at 2 x, char_at 1 x, char_at 0 x]"

fun chunks :: "nat \<Rightarrow> nat \<Rightarrow> 'a list \<Rightarrow> 'a list list" where
  "chunks 0 n xs = []"
| "chunks (Suc k) n xs = take n xs # chunks k n (drop n xs)"

lemma length_chunks [simp]: "length (chunks k n xs) = k"
  by (induction k arbitrary: xs) simp_all

subsection \<open>The compression function\<close>

text \<open>The constants, as one hexadecimal text of eight digits per word.\<close>

definition hex_val :: "char \<Rightarrow> w32" where
  "hex_val c = (let n = of_char c :: int in word_of_int (if n < 58 then n - 48 else n - 87))"

definition hex_words :: "string \<Rightarrow> w32 list" where
  "hex_words s = map (foldl (\<lambda>v c. push_bit 4 v OR hex_val c) 0) (chunks (length s div 8) 8 s)"

definition sha_K :: "w32 list" where
  "sha_K = hex_words
     (''428a2f9871374491b5c0fbcfe9b5dba53956c25b59f111f1923f82a4ab1c5ed5'' @
      ''d807aa9812835b01243185be550c7dc372be5d7480deb1fe9bdc06a7c19bf174'' @
      ''e49b69c1efbe47860fc19dc6240ca1cc2de92c6f4a7484aa5cb0a9dc76f988da'' @
      ''983e5152a831c66db00327c8bf597fc7c6e00bf3d5a7914706ca635114292967'' @
      ''27b70a852e1b21384d2c6dfc53380d13650a7354766a0abb81c2c92e92722c85'' @
      ''a2bfe8a1a81a664bc24b8b70c76c51a3d192e819d6990624f40e3585106aa070'' @
      ''19a4c1161e376c082748774c34b0bcb5391c0cb34ed8aa4a5b9cca4f682e6ff3'' @
      ''748f82ee78a5636f84c878148cc7020890befffaa4506cebbef9a3f7c67178f2'')"

definition sha_H :: "w32 list" where
  "sha_H = hex_words
     (''6a09e667bb67ae853c6ef372a54ff53a'' @
      ''510e527f9b05688c1f83d9ab5be0cd19'')"

definition small0 :: "w32 \<Rightarrow> w32" where
  "small0 x = word_rotr 7 x XOR word_rotr 18 x XOR drop_bit 3 x"

definition small1 :: "w32 \<Rightarrow> w32" where
  "small1 x = word_rotr 17 x XOR word_rotr 19 x XOR drop_bit 10 x"

definition big0 :: "w32 \<Rightarrow> w32" where
  "big0 x = word_rotr 2 x XOR word_rotr 13 x XOR word_rotr 22 x"

definition big1 :: "w32 \<Rightarrow> w32" where
  "big1 x = word_rotr 6 x XOR word_rotr 11 x XOR word_rotr 25 x"

definition choice :: "w32 \<Rightarrow> w32 \<Rightarrow> w32 \<Rightarrow> w32" where
  "choice x y z = (x AND y) XOR (NOT x AND z)"

definition majority :: "w32 \<Rightarrow> w32 \<Rightarrow> w32 \<Rightarrow> w32" where
  "majority x y z = (x AND y) XOR (x AND z) XOR (y AND z)"

text \<open>The message schedule, built backwards: the newest word comes first.\<close>

fun schedule :: "nat \<Rightarrow> w32 list \<Rightarrow> w32 list" where
  "schedule 0 ws = ws"
| "schedule (Suc k) ws = schedule k ((small1 (ws ! 1) + ws ! 6 + small0 (ws ! 14) + ws ! 15) # ws)"

fun sha_round :: "w32 list \<Rightarrow> w32 \<times> w32 \<Rightarrow> w32 list" where
  "sha_round [a, b, c, d, e, f, g, h] (k, w) =
     (let t1 = h + big1 e + choice e f g + k + w; t2 = big0 a + majority a b c in
      [t1 + t2, a, b, c, d + t1, e, f, g])"
| "sha_round xs kw = xs"

definition sha_block :: "w32 list \<Rightarrow> string \<Rightarrow> w32 list" where
  "sha_block hs block =
     (let ws = rev (schedule 48 (rev (map be_word (chunks 16 4 block)))) in
      map2 (+) hs (foldl sha_round hs (zip sha_K ws)))"

definition sha_pad :: "string \<Rightarrow> string" where
  "sha_pad msg =
     (let n = length msg; z = nat ((55 - int n) mod 64); bits = 8 * int n in
      msg @ [CHR 0x80] @ replicate z (CHR 0x00) @
        map (\<lambda>k. char_of (bits div 256 ^ k mod 256)) [7 :: nat, 6, 5, 4, 3, 2, 1, 0])"

definition sha256 :: "string \<Rightarrow> string" where
  "sha256 msg =
     (let p = sha_pad msg in
      concat (map be_chars (foldl sha_block sha_H (chunks (length p div 64) 64 p))))"

subsection \<open>Hexadecimal text\<close>

definition hex_digits :: string where
  "hex_digits = ''0123456789abcdef''"

definition hex_byte :: "char \<Rightarrow> string" where
  "hex_byte c = (let n = of_char c :: nat in [hex_digits ! (n div 16), hex_digits ! (n mod 16)])"

definition hex_encode :: "string \<Rightarrow> string" where
  "hex_encode s = concat (map hex_byte s)"

lemma hex_byte_digits: "set (hex_byte c) \<subseteq> set hex_digits"
proof -
  have "of_char c < (256 :: nat)" by simp
  then have "of_char c div 16 < (16 :: nat)" and "of_char c mod 16 < (16 :: nat)" by presburger+
  moreover have "length hex_digits = 16" by (simp add: hex_digits_def)
  ultimately show ?thesis by (auto simp: hex_byte_def Let_def)
qed

lemma hex_encode_digits: "set (hex_encode s) \<subseteq> set hex_digits"
  using hex_byte_digits by (fastforce simp: hex_encode_def)

subsection \<open>HMAC\<close>

definition hmac_key :: "string \<Rightarrow> string" where
  "hmac_key key = (let k = (if length key > 64 then sha256 key else key) in
     k @ replicate (64 - length k) (CHR 0x00))"

definition xor_byte :: "w32 \<Rightarrow> char \<Rightarrow> char" where
  "xor_byte b c = char_at 0 (byte_of c XOR b)"

definition hmac_sha256 :: "string \<Rightarrow> string \<Rightarrow> string" where
  "hmac_sha256 key msg =
     (let k = hmac_key key in
      sha256 (map (xor_byte 0x5c) k @ sha256 (map (xor_byte 0x36) k @ msg)))"

end
