(* ===== verification/Webhook_Sign.thy ===== *)
theory Webhook_Sign
  imports Strconv Sha256
begin

section \<open>Signed deliveries\<close>

text \<open>
  \<^verbatim>\<open>server/internal/webhook/sign.go\<close>: the signature header of a delivery, its parser and the two
  checks a receiver makes. A body is its bytes. The constant-time comparison is equality.
\<close>

subsection \<open>Signing\<close>

definition signPayload :: "time \<Rightarrow> string \<Rightarrow> string" where
  "signPayload t body = FormatInt (unix_of t) @ ''.'' @ body"

definition HMAC :: "string \<Rightarrow> time \<Rightarrow> string \<Rightarrow> string" where
  "HMAC secret t body = hex_encode (hmac_sha256 secret (signPayload t body))"

definition Sign :: "string \<Rightarrow> time \<Rightarrow> string \<Rightarrow> string" where
  "Sign secret t body = ''t='' @ FormatInt (unix_of t) @ '',v1='' @ HMAC secret t body"

subsection \<open>Parsing a header\<close>

record parsedSig =
  sig_timestamp :: int
  sig_v1 :: string

datatype sig_err = SigEmpty | SigTimestamp string | SigToken string | SigNoDigest

text \<open>The loop over the comma-separated tokens; the flag is \<^verbatim>\<open>sawV1\<close>.\<close>

fun parse_tokens :: "parsedSig \<Rightarrow> bool \<Rightarrow> string list \<Rightarrow> sig_err + parsedSig" where
  "parse_tokens out saw [] = (if saw then Inr out else Inl SigNoDigest)"
| "parse_tokens out saw (q # qs) =
     (let p = TrimSpace q in
      if HasPrefix p ''t='' then
        (case ParseInt64 (TrimPrefix p ''t='') of
           None \<Rightarrow> Inl (SigTimestamp p)
         | Some n \<Rightarrow> parse_tokens (out\<lparr>sig_timestamp := n\<rparr>) saw qs)
      else if HasPrefix p ''v1='' then parse_tokens (out\<lparr>sig_v1 := TrimPrefix p ''v1=''\<rparr>) True qs
      else if \<not> saw \<and> CHR ''='' \<notin> set p then parse_tokens (out\<lparr>sig_v1 := p\<rparr>) True qs
      else Inl (SigToken p))"

definition ParseSig :: "string \<Rightarrow> sig_err + parsedSig" where
  "ParseSig v =
     (let s = TrimSpace v in
      if s = [] then Inl SigEmpty
      else parse_tokens \<lparr>sig_timestamp = 0, sig_v1 = []\<rparr> False (split_on CHR '','' s))"

subsection \<open>Verifying\<close>

definition Verify :: "string \<Rightarrow> string \<Rightarrow> string \<Rightarrow> sig_err + bool" where
  "Verify secret header body =
     (case ParseSig header of
        Inl e \<Rightarrow> Inl e
      | Inr ps \<Rightarrow> Inr (HMAC secret (time_of_unix (sig_timestamp ps)) body = sig_v1 ps))"

definition VerifyWithin :: "string \<Rightarrow> string \<Rightarrow> string \<Rightarrow> time \<Rightarrow> duration \<Rightarrow> sig_err + bool" where
  "VerifyWithin secret header body tnow window =
     (case Verify secret header body of
        Inl e \<Rightarrow> Inl e
      | Inr ok \<Rightarrow>
          if \<not> ok then Inr False
          else if window \<le> 0 then Inr True
          else
            let ts = (case ParseSig header of Inl e \<Rightarrow> 0 | Inr ps \<Rightarrow> sig_timestamp ps);
                dt = time_sub tnow (time_of_unix ts);
                dt' = (if dt < 0 then neg64 dt else dt)
            in Inr (dt' \<le> window))"

subsection \<open>The header of a signer parses back\<close>

lemma hex_digits_clean:
  "c \<in> set hex_digits \<Longrightarrow> c \<notin> set space_heads \<and> c \<noteq> CHR '','' \<and> c \<noteq> CHR ''=''"
  by (auto simp: hex_digits_def space_heads_def space_seqs_def)

lemma be_chars_nonempty: "be_chars x \<noteq> []"
  by (simp add: be_chars_def)

lemma length_sha_round: "length hs = 8 \<Longrightarrow> length (sha_round hs kw) = 8"
  by (cases "(hs, kw)" rule: sha_round.cases) (simp_all add: Let_def)

lemma length_sha_rounds: "length hs = 8 \<Longrightarrow> length (foldl sha_round hs kws) = 8"
  by (induction kws arbitrary: hs) (simp_all add: length_sha_round)

lemma length_sha_blocks: "length hs = 8 \<Longrightarrow> length (foldl sha_block hs bs) = 8"
  by (induction bs arbitrary: hs) (simp_all add: sha_block_def Let_def length_sha_rounds)

lemma sha256_nonempty: "sha256 msg \<noteq> []"
proof -
  have "length (foldl sha_block sha_H bs) = 8" for bs
    by (rule length_sha_blocks) (simp add: sha_H_def hex_words_def)
  then show ?thesis
    unfolding sha256_def Let_def concat_eq_Nil_conv
    by (metis be_chars_nonempty length_map list.size(3) nth_mem nth_map zero_less_numeral zero_neq_numeral)
qed

lemma HMAC_chars: "set (HMAC secret t body) \<subseteq> set hex_digits"
  unfolding HMAC_def by (rule hex_encode_digits)

lemma HMAC_nonempty: "HMAC secret t body \<noteq> []"
proof -
  obtain c cs where "hmac_sha256 secret (signPayload t body) = c # cs"
    using sha256_nonempty by (metis hmac_sha256_def neq_Nil_conv)
  then show ?thesis by (simp add: HMAC_def hex_encode_def hex_byte_def Let_def)
qed

lemma HMAC_last: "last (HMAC secret t body) \<in> set hex_digits"
  using HMAC_chars HMAC_nonempty last_in_set by blast

lemma FormatInt_last: "last (FormatInt n) \<notin> set space_heads"
proof -
  have "last (FormatInt n) \<in> set (FormatInt n)" by simp
  from FormatInt_chars [OF this] show ?thesis
    by (auto simp: is_digit_def Let_def space_heads_def space_seqs_def)
qed

lemma ParseSig_Sign:
  "ParseSig (Sign secret t body) =
     Inr \<lparr>sig_timestamp = unix_of t, sig_v1 = HMAC secret t body\<rparr>"
proof -
  let ?t = "''t='' @ FormatInt (unix_of t)" and ?v = "''v1='' @ HMAC secret t body"
  have heads: "CHR ''t'' \<notin> set space_heads" "CHR ''v'' \<notin> set space_heads"
    by (simp_all add: space_heads_def space_seqs_def)
  have last_v: "last ?v \<notin> set space_heads"
    using HMAC_last hex_digits_clean HMAC_nonempty by simp
  have T: "TrimSpace ?t = ?t"
    by (rule TrimSpace_id) (use heads FormatInt_last in simp_all)
  have V: "TrimSpace ?v = ?v"
    by (rule TrimSpace_id) (use heads last_v in simp_all)
  have whole: "TrimSpace (Sign secret t body) = Sign secret t body"
    by (rule TrimSpace_id) (use heads last_v in \<open>simp_all add: Sign_def HMAC_nonempty\<close>)
  have "CHR '','' \<notin> set ?t"
    using FormatInt_chars [of "CHR '',''" "unix_of t"] by (auto simp: is_digit_def Let_def)
  moreover have "CHR '','' \<notin> set ?v"
    using HMAC_chars hex_digits_clean by fastforce
  moreover have "Sign secret t body = ?t @ CHR '','' # ?v" by (simp add: Sign_def)
  ultimately have parts: "split_on CHR '','' (Sign secret t body) = [?t, ?v]"
    by (metis split_on_append_sep split_on_no_sep)
  have "int64 (unix_of t)" by (simp add: unix_of_def)
  then have num: "ParseInt64 (FormatInt (unix_of t)) = Some (unix_of t)" by (rule ParseInt_FormatInt)
  have first: "parse_tokens out False [?t, ?v] =
      parse_tokens (out\<lparr>sig_timestamp := unix_of t\<rparr>) False [?v]" for out
    by (simp only: parse_tokens.simps(2) [of out False ?t] Let_def T TrimPrefix_append HasPrefix_append
        if_True num option.case)
  have "\<not> HasPrefix ?v ''t=''" by (simp add: HasPrefix_def)
  then have second: "parse_tokens out False [?v] = Inr (out\<lparr>sig_v1 := HMAC secret t body\<rparr>)" for out
    by (simp only: parse_tokens.simps Let_def V TrimPrefix_append HasPrefix_append if_True if_False)
  have "Sign secret t body \<noteq> []" by (simp add: Sign_def)
  then show ?thesis
    unfolding ParseSig_def Let_def whole parts first second by simp
qed

lemma Verify_Sign:
  "Verify secret (Sign secret t body) body' =
     Inr (hex_encode (hmac_sha256 secret (signPayload t body')) = hex_encode (hmac_sha256 secret (signPayload t body)))"
proof -
  have "int64 (unix_of t)" by (simp add: unix_of_def)
  then show ?thesis
    by (simp add: Verify_def ParseSig_Sign HMAC_def signPayload_def unix_of_time_of_unix)
qed

text \<open>
  C26. The signature header round-trips: whatever the secret, the instant and the body, the header the server sends
  is the second of the instant and the digest of that second, a dot and the body under the secret; it parses
  back to exactly that second and digest; and a receiver accepts it for a body under a secret of its own exactly
  when the digest of the same second, a dot and that body under that secret is the same.
\<close>

theorem sign_verify_roundtrip:
  "Sign secret t body =
     ''t='' @ FormatInt (unix_of t) @ '',v1='' @ hex_encode (hmac_sha256 secret (FormatInt (unix_of t) @ ''.'' @ body)) \<and>
   ParseSig (Sign secret t body) =
     Inr \<lparr>sig_timestamp = unix_of t, sig_v1 = hex_encode (hmac_sha256 secret (FormatInt (unix_of t) @ ''.'' @ body))\<rparr> \<and>
   Verify secret' (Sign secret t body) body' =
     Inr (hex_encode (hmac_sha256 secret' (FormatInt (unix_of t) @ ''.'' @ body')) =
          hex_encode (hmac_sha256 secret (FormatInt (unix_of t) @ ''.'' @ body)))"
proof -
  have digest: "HMAC k u b = hex_encode (hmac_sha256 k (FormatInt (unix_of u) @ ''.'' @ b))" for k u b
    by (simp add: HMAC_def signPayload_def)
  have "unix_of (time_of_unix (unix_of t)) = unix_of t"
    by (rule unix_of_time_of_unix) (simp add: unix_of_def)
  then have "Verify secret' (Sign secret t body) body' = Inr (HMAC secret' t body' = HMAC secret t body)"
    by (simp add: Verify_def ParseSig_Sign digest)
  then show ?thesis using ParseSig_Sign [of secret t body] Sign_def [of secret t body] unfolding digest by blast
qed

text \<open>
  What the freshness check accepts: a genuine header is accepted at a later or earlier instant
  exactly when no window is set, when the distance to the signed second is within the window, or when
  the signed second lies more than 2^63 ns (292 years) in the future: the saturated difference is then
  the least 64-bit value, whose negation is itself, negative and so within every window.
\<close>

theorem freshness_window:
  "VerifyWithin secret (Sign secret t body) body tnow window =
     Inr (window \<le> 0 \<or>
       (let d = tnow - time_of_unix (unix_of t) in
        \<bar>d\<bar> \<le> window \<and> \<bar>d\<bar> < 2 ^ 63 \<or> d \<le> - (2 ^ 63) \<or> 2 ^ 63 \<le> d \<and> 2 ^ 63 - 1 \<le> window))"
proof -
  have v: "Verify secret (Sign secret t body) body = Inr True"
    by (simp add: Verify_Sign)
  let ?d = "tnow - time_of_unix (unix_of t)"
  have "(let dt = time_sub tnow (time_of_unix (unix_of t)) in (if dt < 0 then neg64 dt else dt) \<le> window) \<longleftrightarrow>
      \<bar>?d\<bar> \<le> window \<and> \<bar>?d\<bar> < 2 ^ 63 \<or> ?d \<le> - (2 ^ 63) \<or> 2 ^ 63 \<le> ?d \<and> 2 ^ 63 - 1 \<le> window" if "0 < window"
    using that by (auto simp: time_sub_def neg64_def wrap64_def)
  then show ?thesis
    by (auto simp: VerifyWithin_def v ParseSig_Sign Let_def)
qed

end
