(* ===== verification/Webhook_Store.thy ===== *)
theory Webhook_Store
  imports Flow_Store Webhook_Sign
begin

section \<open>The webhook data layer\<close>

text \<open>
  \<^verbatim>\<open>server/internal/webhook/store.go\<close> over the tables of \<^verbatim>\<open>server/migrations/0008_webhooks.sql\<close>: the
  endpoints with their delivery state, and the append-only journal of bus events. The world also logs
  the requests the deliveries made, and holds this process's live subscribers and their channels. The \<^verbatim>\<open>jsonb\<close> column keeps the document of an event, not its bytes: \<open>ev_data\<close>
  stands for the document. A value a column's type cannot hold is an error of the statement; for texts
  (a NUL byte) that is one of the refusals \<open>DbErr\<close> stands for.
\<close>

subsection \<open>Rows\<close>

datatype hook_status = HookOk | HookFailing

record endpoint =
  ep_id :: int
  ep_name :: string
  ep_url :: string
  ep_secret :: string
  ep_categories :: "string list"
  ep_enabled :: bool
  ep_max_attempts :: int
  ep_timeout_ms :: int
  ep_last_seq :: int
  ep_attempts :: int
  ep_next_retry_at :: time
  ep_status :: hook_status
  ep_created_at :: time
  ep_updated_at :: time

text \<open>The endpoint without its secret, which is what the API returns.\<close>

record public_endpoint =
  pub_id :: int
  pub_name :: string
  pub_url :: string
  pub_categories :: "string list"
  pub_enabled :: bool
  pub_max_attempts :: int
  pub_timeout_ms :: int
  pub_last_seq :: int
  pub_attempts :: int
  pub_next_retry_at :: time
  pub_status :: hook_status
  pub_created_at :: time
  pub_updated_at :: time

definition Public :: "endpoint \<Rightarrow> public_endpoint" where
  "Public e = \<lparr>pub_id = ep_id e, pub_name = ep_name e, pub_url = ep_url e,
     pub_categories = ep_categories e, pub_enabled = ep_enabled e,
     pub_max_attempts = ep_max_attempts e, pub_timeout_ms = ep_timeout_ms e,
     pub_last_seq = ep_last_seq e, pub_attempts = ep_attempts e,
     pub_next_retry_at = ep_next_retry_at e, pub_status = ep_status e,
     pub_created_at = ep_created_at e, pub_updated_at = ep_updated_at e\<rparr>"

record hook_event =
  ev_seq :: int
  ev_category :: string
  ev_type_name :: string
  ev_device :: string
  ev_at :: time
  ev_data :: string

text \<open>A live subscription: an empty field matches everything.\<close>

record hook_filter =
  flt_category :: string
  flt_device :: string
  flt_type :: string

text \<open>One delivery: the endpoint, the request's URL, headers and body, and whether the answer was a 2xx.\<close>

record delivery =
  del_endpoint :: int
  del_url :: string
  del_timeout :: duration
  del_signature :: string
  del_id :: string
  del_event :: string
  del_body :: string
  del_accepted :: bool

text \<open>A Go channel of events: its capacity is 256.\<close>

record channel =
  ch_id :: nat
  ch_closed :: bool
  ch_buffer :: "hook_event list"

record hook_world = world +
  endpoints :: "endpoint list"
  endpoint_seq :: int
  journal :: "hook_event list"
  journal_seq :: int
  deliveries :: "delivery list"
  live :: "(nat \<times> hook_filter) list"
  channels :: "channel list"

type_synonym 'a hm = "(hook_world, 'a) m"

subsection \<open>Categories\<close>

definition AllCategories :: "string list" where
  "AllCategories = [''alert'', ''inventory'', ''automation'', ''other'']"

subsection \<open>The journal\<close>

definition MaxSeq :: "hook_world env \<Rightarrow> (int res) hm" where
  "MaxSeq E = query E (\<lambda>w. foldr (\<lambda>e m. max (ev_seq e) m) (journal w) 0)"

text \<open>
  \<^verbatim>\<open>seq bigserial PRIMARY KEY\<close>: the insert draws its number from the sequence, which no failure gives
  back, and its row becomes visible when it commits. In between the other handlers run, so numbers
  need not become visible in their order: the list \<open>journal\<close> is in the order the rows became visible.
\<close>

definition next_seq_stmt :: "hook_world \<Rightarrow> int res \<times> hook_world" where
  "next_seq_stmt w = (Inr (journal_seq w), w\<lparr>journal_seq := journal_seq w + 1\<rparr>)"

definition append_event_stmt :: "int \<Rightarrow> string \<Rightarrow> string \<Rightarrow> string \<Rightarrow> time \<Rightarrow> string \<Rightarrow>
    hook_world \<Rightarrow> int res \<times> hook_world" where
  "append_event_stmt i category typ device t data w =
     (if i \<in> ev_seq ` set (journal w) then (Inl EDb, w)
      else (Inr i, w\<lparr>journal := journal w @ [\<lparr>ev_seq = i, ev_category = category,
         ev_type_name = typ, ev_device = device, ev_at = t, ev_data = data\<rparr>]\<rparr>))"

definition AppendEvent :: "hook_world env \<Rightarrow> string \<Rightarrow> string \<Rightarrow> string \<Rightarrow> time \<Rightarrow> string \<Rightarrow> (int res) hm" where
  "AppendEvent E category typ device t data = do {
     r \<leftarrow> exec E next_seq_stmt;
     (case r of
        Inl e \<Rightarrow> State_Monad.return (Inl e)
      | Inr i \<Rightarrow> exec E (append_event_stmt i category typ device t (if data = [] then ''{}'' else data)))
   }"

text \<open>
  The catch-up query builds its \<^verbatim>\<open>WHERE\<close> clause from the set fields of the filter; the result is in
  the order of the sequence, cut at the limit.
\<close>

definition filter_clause :: "int \<Rightarrow> hook_filter \<Rightarrow> hook_event \<Rightarrow> bool" where
  "filter_clause after fl e \<longleftrightarrow>
     after < ev_seq e \<and>
     (if flt_category fl \<noteq> '''' then ev_category e = flt_category fl else True) \<and>
     (if flt_device fl \<noteq> '''' then ev_device e = flt_device fl else True) \<and>
     (if flt_type fl \<noteq> '''' then ev_type_name e = flt_type fl else True)"

definition clamp_limit :: "int \<Rightarrow> int \<Rightarrow> int \<Rightarrow> int" where
  "clamp_limit most usual n = (if n \<le> 0 \<or> n > most then usual else n)"

definition EventsAfterFilter :: "hook_world env \<Rightarrow> int \<Rightarrow> hook_filter \<Rightarrow> int \<Rightarrow> (hook_event list res) hm" where
  "EventsAfterFilter E after fl limit =
     query E (\<lambda>w. take (nat (clamp_limit 1000 200 limit))
       (sort_key ev_seq (filter (filter_clause after fl) (journal w))))"

definition EventsAfter :: "hook_world env \<Rightarrow> int \<Rightarrow> string \<Rightarrow> int \<Rightarrow> (hook_event list res) hm" where
  "EventsAfter E after category limit =
     EventsAfterFilter E after \<lparr>flt_category = category, flt_device = '''', flt_type = ''''\<rparr> limit"

text \<open>The categories of a deleted endpoint are no rows: nothing is pending for it.\<close>

definition categories_of :: "hook_world \<Rightarrow> int \<Rightarrow> string list" where
  "categories_of w i = (case find (\<lambda>e. ep_id e = i) (endpoints w) of None \<Rightarrow> [] | Some e \<Rightarrow> ep_categories e)"

definition pending_rows :: "hook_world \<Rightarrow> int \<Rightarrow> int \<Rightarrow> hook_event list" where
  "pending_rows w i after =
     sort_key ev_seq (filter (\<lambda>e. after < ev_seq e \<and> ev_category e \<in> set (categories_of w i)) (journal w))"

definition PendingEvents :: "hook_world env \<Rightarrow> int \<Rightarrow> int \<Rightarrow> int \<Rightarrow> (hook_event list res) hm" where
  "PendingEvents E i after limit =
     query E (\<lambda>w. take (nat (clamp_limit 100 20 limit)) (pending_rows w i after))"

subsection \<open>Endpoints\<close>

definition GetEndpoint :: "hook_world env \<Rightarrow> int \<Rightarrow> (endpoint res) hm" where
  "GetEndpoint E i = do {
     r \<leftarrow> query E (\<lambda>w. find (\<lambda>e. ep_id e = i) (endpoints w));
     State_Monad.return (case r of
        Inl e \<Rightarrow> Inl e
      | Inr None \<Rightarrow> Inl ENotFound
      | Inr (Some e) \<Rightarrow> Inr e)
   }"

definition ListEndpoints :: "hook_world env \<Rightarrow> (endpoint list res) hm" where
  "ListEndpoints E = query E (\<lambda>w. sort_key ep_id (endpoints w))"

text \<open>\<^verbatim>\<open>int\<close> columns are 32 bits wide: a value out of range is an error of the statement.\<close>

definition int32 :: "int \<Rightarrow> bool" where
  "int32 x \<longleftrightarrow> - (2 ^ 31) \<le> x \<and> x < 2 ^ 31"

definition insert_endpoint_stmt :: "hook_world env \<Rightarrow> string \<Rightarrow> string \<Rightarrow> string \<Rightarrow> string list \<Rightarrow>
    int \<Rightarrow> int \<Rightarrow> int \<Rightarrow> hook_world \<Rightarrow> int res \<times> hook_world" where
  "insert_endpoint_stmt E name url secret categories maxAttempts timeoutMS startSeq w =
     (if \<not> int32 maxAttempts \<or> \<not> int32 timeoutMS then (Inl EDb, w)
      else
        let i = endpoint_seq w; t = clock E (tick w) in
        (Inr i, w\<lparr>endpoint_seq := i + 1, endpoints := endpoints w @ [\<lparr>ep_id = i, ep_name = name,
           ep_url = url, ep_secret = secret, ep_categories = categories, ep_enabled = True,
           ep_max_attempts = maxAttempts, ep_timeout_ms = timeoutMS, ep_last_seq = startSeq,
           ep_attempts = 0, ep_next_retry_at = t, ep_status = HookOk, ep_created_at = t,
           ep_updated_at = t\<rparr>]\<rparr>))"

text \<open>A new endpoint starts at the end of the journal; when that query fails, at the beginning.\<close>

definition start_cursor :: "hook_world env \<Rightarrow> int \<Rightarrow> int hm" where
  "start_cursor E startSeq =
     (if startSeq \<le> 0 then do {
        mx \<leftarrow> MaxSeq E;
        State_Monad.return (case mx of Inl e \<Rightarrow> 0 | Inr m \<Rightarrow> m)
      }
      else State_Monad.return startSeq)"

definition CreateEndpoint :: "hook_world env \<Rightarrow> string \<Rightarrow> string \<Rightarrow> string \<Rightarrow> string list \<Rightarrow>
    int \<Rightarrow> int \<Rightarrow> int \<Rightarrow> (endpoint res) hm" where
  "CreateEndpoint E name url secret categories maxAttempts timeoutMS startSeq =
     (if name = '''' \<or> url = '''' \<or> secret = ''''
      then State_Monad.return (Inl (EExt ''name, url and secret are required''))
      else
        let maxA = (if maxAttempts \<le> 0 then 5 else maxAttempts);
            tmo = (if timeoutMS \<le> 0 then 5000 else timeoutMS);
            cats = (if categories = [] then AllCategories else categories)
        in do {
          start \<leftarrow> start_cursor E startSeq;
          r \<leftarrow> exec E (insert_endpoint_stmt E name url secret cats maxA tmo start);
          (case r of
             Inl e \<Rightarrow> State_Monad.return (Inl e)
           | Inr i \<Rightarrow> GetEndpoint E i)
        })"

definition patch_endpoint :: "string option \<Rightarrow> string option \<Rightarrow> string list option \<Rightarrow> bool option \<Rightarrow>
    time \<Rightarrow> endpoint \<Rightarrow> endpoint" where
  "patch_endpoint name url categories enabled t e =
     (let e1 = e\<lparr>ep_updated_at := t,
            ep_name := (case name of None \<Rightarrow> ep_name e | Some x \<Rightarrow> x),
            ep_url := (case url of None \<Rightarrow> ep_url e | Some x \<Rightarrow> x),
            ep_categories := (case categories of None \<Rightarrow> ep_categories e | Some x \<Rightarrow> x),
            ep_enabled := (case enabled of None \<Rightarrow> ep_enabled e | Some x \<Rightarrow> x)\<rparr> in
      if enabled = Some True
      then e1\<lparr>ep_attempts := 0, ep_status := HookOk, ep_next_retry_at := t\<rparr>
      else e1)"

definition update_endpoint_stmt :: "int \<Rightarrow> (endpoint \<Rightarrow> endpoint) \<Rightarrow> hook_world \<Rightarrow> nat res \<times> hook_world" where
  "update_endpoint_stmt i f w =
     (Inr (affected (\<lambda>e. ep_id e = i) (endpoints w)),
      w\<lparr>endpoints := update_where (\<lambda>e. ep_id e = i) f (endpoints w)\<rparr>)"

text \<open>The instant a statement reads as \<^verbatim>\<open>now()\<close> is that of its own interaction.\<close>

definition exec_at :: "hook_world env \<Rightarrow> (time \<Rightarrow> hook_world \<Rightarrow> 'a res \<times> hook_world) \<Rightarrow> ('a res) hm" where
  "exec_at E stmt = exec E (\<lambda>w. stmt (clock E (tick w)) w)"

definition UpdateEndpoint :: "hook_world env \<Rightarrow> int \<Rightarrow> string option \<Rightarrow> string option \<Rightarrow>
    string list option \<Rightarrow> bool option \<Rightarrow> (endpoint res) hm" where
  "UpdateEndpoint E i name url categories enabled =
     (if name = None \<and> url = None \<and> categories = None \<and> enabled = None then GetEndpoint E i
      else do {
        r \<leftarrow> exec_at E (\<lambda>t. update_endpoint_stmt i (patch_endpoint name url categories enabled t));
        (case r of
           Inl e \<Rightarrow> State_Monad.return (Inl e)
         | Inr n \<Rightarrow> if n = 0 then State_Monad.return (Inl ENotFound) else GetEndpoint E i)
      })"

definition delete_endpoint_stmt :: "int \<Rightarrow> hook_world \<Rightarrow> nat res \<times> hook_world" where
  "delete_endpoint_stmt i w =
     (Inr (affected (\<lambda>e. ep_id e = i) (endpoints w)),
      w\<lparr>endpoints := filter (\<lambda>e. ep_id e \<noteq> i) (endpoints w)\<rparr>)"

definition DeleteEndpoint :: "hook_world env \<Rightarrow> int \<Rightarrow> (err option) hm" where
  "DeleteEndpoint E i = do {
     r \<leftarrow> exec E (delete_endpoint_stmt i);
     State_Monad.return (case r of
        Inl e \<Rightarrow> Some e
      | Inr n \<Rightarrow> if n = 0 then Some ENotFound else None)
   }"

subsection \<open>Delivery state\<close>

text \<open>\<^verbatim>\<open>UPDATE webhooks SET last_seq=$2 WHERE id=$1 AND last_seq < $2\<close>.\<close>

definition behind :: "int \<Rightarrow> int \<Rightarrow> endpoint \<Rightarrow> bool" where
  "behind i seq e \<longleftrightarrow> ep_id e = i \<and> ep_last_seq e < seq"

definition advance_stmt :: "int \<Rightarrow> int \<Rightarrow> time \<Rightarrow> hook_world \<Rightarrow> nat res \<times> hook_world" where
  "advance_stmt i seq t w =
     (Inr (affected (behind i seq) (endpoints w)),
      w\<lparr>endpoints := update_where (behind i seq) (\<lambda>e. e\<lparr>ep_last_seq := seq, ep_updated_at := t\<rparr>) (endpoints w)\<rparr>)"

definition AdvanceCursor :: "hook_world env \<Rightarrow> int \<Rightarrow> int \<Rightarrow> (bool res) hm" where
  "AdvanceCursor E i seq = do {
     r \<leftarrow> exec_at E (advance_stmt i seq);
     State_Monad.return (case r of Inl e \<Rightarrow> Inl e | Inr n \<Rightarrow> Inr (n > 0))
   }"

definition set_cursor_stmt :: "int \<Rightarrow> int \<Rightarrow> time \<Rightarrow> hook_world \<Rightarrow> nat res \<times> hook_world" where
  "set_cursor_stmt i seq t =
     update_endpoint_stmt i (\<lambda>e. e\<lparr>ep_last_seq := seq, ep_attempts := 0, ep_status := HookOk,
       ep_next_retry_at := t, ep_updated_at := t\<rparr>)"

definition SetCursor :: "hook_world env \<Rightarrow> int \<Rightarrow> int \<Rightarrow> (err option) hm" where
  "SetCursor E i seq = do {
     r \<leftarrow> exec_at E (set_cursor_stmt i seq);
     State_Monad.return (case r of
        Inl e \<Rightarrow> Some e
      | Inr n \<Rightarrow> if n = 0 then Some ENotFound else None)
   }"

definition RecordAttempt :: "hook_world env \<Rightarrow> int \<Rightarrow> int \<Rightarrow> time \<Rightarrow> hook_status \<Rightarrow> (err option) hm" where
  "RecordAttempt E i attempts nextRetryAt status = do {
     r \<leftarrow> exec_at E (\<lambda>t w.
            if int32 attempts
            then update_endpoint_stmt i (\<lambda>e. e\<lparr>ep_attempts := attempts,
              ep_next_retry_at := nextRetryAt, ep_status := status, ep_updated_at := t\<rparr>) w
            else (Inl EDb, w));
     State_Monad.return (case r of Inl e \<Rightarrow> Some e | Inr n \<Rightarrow> None)
   }"

definition SetNextRetry :: "hook_world env \<Rightarrow> int \<Rightarrow> time \<Rightarrow> (err option) hm" where
  "SetNextRetry E i tnext = do {
     r \<leftarrow> exec_at E (\<lambda>t. update_endpoint_stmt i (\<lambda>e. e\<lparr>ep_next_retry_at := tnext, ep_updated_at := t\<rparr>));
     State_Monad.return (case r of Inl e \<Rightarrow> Some e | Inr n \<Rightarrow> None)
   }"

end
