(* ===== verification/Webhook_Service.thy ===== *)
theory Webhook_Service
  imports Webhook_Store
begin

section \<open>The webhook and event-stream service\<close>

text \<open>
  \<^verbatim>\<open>server/internal/webhook/service.go\<close>: the bus handler that journals every event, the fan-out to
  the live subscribers, and the sweep that delivers. Parameters: the database environment, the JSON
  encoder of the bus event and of the envelope (\<open>None\<close>: an error), whether a URL gives a request,
  and the answer of the receiver (an error, or a status code). Log lines are not modelled.
\<close>

subsection \<open>Categories, envelopes and filters\<close>

definition validCategory :: "string \<Rightarrow> bool" where
  "validCategory c \<longleftrightarrow> c \<in> set AllCategories"

definition CategoryForSubject :: "string \<Rightarrow> string" where
  "CategoryForSubject subject =
     (if subject = ''rmmway.events.alert'' then ''alert''
      else if subject = ''rmmway.events.device'' then ''inventory''
      else if subject \<in> {''rmmway.events.flow.trigger'', ''rmmway.events.flow.step'',
          ''rmmway.events.command.result'', ''rmmway.events.flow.notify''} then ''automation''
      else ''other'')"

text \<open>The text of the flow engine's event types: their bus subjects.\<close>

definition subject_text :: "ev_type \<Rightarrow> string" where
  "subject_text t = (case t of
      SubjectTrigger \<Rightarrow> ''rmmway.events.flow.trigger''
    | SubjectStep \<Rightarrow> ''rmmway.events.flow.step''
    | SubjectCommand \<Rightarrow> ''rmmway.events.command.result''
    | SubjectOther s \<Rightarrow> s)"

record envelope =
  en_id :: int
  en_version :: string
  en_source :: string
  en_category :: string
  en_type :: string
  en_device :: string
  en_at :: time
  en_event :: string

definition Envelope :: "hook_event \<Rightarrow> envelope" where
  "Envelope e = \<lparr>en_id = ev_seq e, en_version = ''rmmway-event/v1'', en_source = ''rmmway'',
     en_category = ev_category e, en_type = ev_type_name e, en_device = ev_device e,
     en_at = ev_at e, en_event = (if ev_data e = [] then ''{}'' else ev_data e)\<rparr>"

definition matches :: "hook_filter \<Rightarrow> hook_event \<Rightarrow> bool" where
  "matches f e =
     (if flt_category f \<noteq> '''' \<and> flt_category f \<noteq> ev_category e then False
      else if flt_device f \<noteq> '''' \<and> flt_device f \<noteq> ev_device e then False
      else if flt_type f \<noteq> '''' \<and> flt_type f \<noteq> ev_type_name e then False
      else True)"

definition filter_valid :: "hook_filter \<Rightarrow> bool" where
  "filter_valid f \<longleftrightarrow> flt_category f = '''' \<or> validCategory (flt_category f)"

record hook_deps =
  hk_env :: "hook_world env"
  hk_marshal_event :: "event \<Rightarrow> string option"
  hk_marshal_envelope :: "envelope \<Rightarrow> string option"
  hk_request :: "string \<Rightarrow> bool"
  hk_post :: "nat \<Rightarrow> string \<Rightarrow> string \<Rightarrow> string + int"
  hk_store :: bool

subsection \<open>Live subscribers\<close>

definition AddLiveFilter :: "hook_filter \<Rightarrow> nat hm" where
  "AddLiveFilter fl = State (\<lambda>w.
     let c = length (channels w) in
     (c, w\<lparr>channels := channels w @ [\<lparr>ch_id = c, ch_closed = False, ch_buffer = []\<rparr>],
           live := live w @ [(c, fl)]\<rparr>))"

definition AddLive :: "string \<Rightarrow> nat hm" where
  "AddLive category = AddLiveFilter \<lparr>flt_category = category, flt_device = '''', flt_type = ''''\<rparr>"

text \<open>The cancel function, which the end of the request's context also calls.\<close>

definition cancel_live :: "nat \<Rightarrow> hook_world \<Rightarrow> hook_world" where
  "cancel_live c w =
     (if c \<in> fst ` set (live w)
      then w\<lparr>live := filter (\<lambda>(d, fl). d \<noteq> c) (live w),
             channels := update_where (\<lambda>ch. ch_id ch = c) (\<lambda>ch. ch\<lparr>ch_closed := True\<rparr>) (channels w)\<rparr>
      else w)"

text \<open>
  A non-blocking send: it panics on a closed channel (\<open>False\<close>), drops the event when the buffer is
  full, and queues it otherwise.
\<close>

definition send_event :: "hook_event \<Rightarrow> nat \<Rightarrow> bool hm" where
  "send_event ev c = State (\<lambda>w.
     (case find (\<lambda>ch. ch_id ch = c) (channels w) of
        None \<Rightarrow> (True, w)
      | Some ch \<Rightarrow>
          if ch_closed ch then (False, w)
          else if length (ch_buffer ch) \<ge> 256 then (True, w)
          else (True, w\<lparr>channels := update_where (\<lambda>ch. ch_id ch = c)
                 (\<lambda>ch. ch\<lparr>ch_buffer := ch_buffer ch @ [ev]\<rparr>) (channels w)\<rparr>)))"

fun send_all :: "hook_event \<Rightarrow> nat list \<Rightarrow> bool hm" where
  "send_all ev [] = State_Monad.return True"
| "send_all ev (c # cs) = do {
     ok \<leftarrow> send_event ev c;
     (if ok then send_all ev cs else State_Monad.return False)
   }"

text \<open>Between releasing the lock and the sends, other goroutines run.\<close>

definition preempt :: "hook_world env \<Rightarrow> unit hm" where
  "preempt E = do { _ \<leftarrow> ask E; State_Monad.return () }"

definition broadcast :: "hook_deps \<Rightarrow> hook_event \<Rightarrow> bool hm" where
  "broadcast D ev = do {
     cs \<leftarrow> reads (\<lambda>w. map fst (filter (\<lambda>(c, f). matches f ev) (live w)));
     _ \<leftarrow> preempt (hk_env D);
     send_all ev cs
   }"

subsection \<open>The bus handler\<close>

text \<open>The handler never reports an error to the bus; it can only panic.\<close>

datatype handled = Acked | Panicked

definition onHookEvent :: "hook_deps \<Rightarrow> string \<Rightarrow> event option \<Rightarrow> handled hm" where
  "onHookEvent D subject ev =
     (case ev of
        None \<Rightarrow> State_Monad.return Acked
      | Some e \<Rightarrow>
          (case hk_marshal_event D e of
             None \<Rightarrow> State_Monad.return Acked
           | Some raw \<Rightarrow> do {
               t \<leftarrow> (if e_at e = zero_time then now (hk_env D) else State_Monad.return (e_at e));
               r \<leftarrow> (if hk_store D
                     then AppendEvent (hk_env D) (CategoryForSubject subject) (subject_text (e_type e))
                            (e_device e) t raw
                     else State_Monad.return (Inr 0));
               (case r of
                  Inl err \<Rightarrow> State_Monad.return Acked
                | Inr i \<Rightarrow> do {
                    ok \<leftarrow> broadcast D \<lparr>ev_seq = i, ev_category = CategoryForSubject subject,
                           ev_type_name = subject_text (e_type e), ev_device = e_device e,
                           ev_at = t, ev_data = raw\<rparr>;
                    State_Monad.return (if ok then Acked else Panicked)
                  })
             }))"

subsection \<open>Delivery\<close>

text \<open>\<^verbatim>\<open>time.Second * (1 << (attempts - 1))\<close> is 64-bit arithmetic.\<close>

definition backoffFor :: "int \<Rightarrow> duration" where
  "backoffFor attempts =
     (let n = (if attempts \<le> 0 then 1 else attempts);
          d = wrap64 (second * wrap64 (2 ^ nat (n - 1))) in
      if d > 5 * minute then 5 * minute else d)"

definition delivery_timeout :: "endpoint \<Rightarrow> duration" where
  "delivery_timeout ep =
     (let t = wrap64 (ep_timeout_ms ep * 1000000) in if t \<le> 0 then 5 * second else t)"

text \<open>The signed request and the receiver's answer, which go into the log of deliveries.\<close>

definition signed_request :: "endpoint \<Rightarrow> hook_event \<Rightarrow> string \<Rightarrow> time \<Rightarrow> bool \<Rightarrow> delivery" where
  "signed_request ep ev body t ok =
     \<lparr>del_endpoint = ep_id ep, del_url = ep_url ep, del_timeout = delivery_timeout ep,
      del_signature = Sign (ep_secret ep) t body, del_id = FormatInt (ev_seq ev),
      del_event = ev_type_name ev, del_body = body, del_accepted = ok\<rparr>"

definition post_event :: "hook_deps \<Rightarrow> endpoint \<Rightarrow> hook_event \<Rightarrow> string \<Rightarrow> time \<Rightarrow> bool hm" where
  "post_event D ep ev body t = State (\<lambda>w.
     let ok = (case hk_post D (tick w) (ep_url ep) body of
                 Inl e \<Rightarrow> False | Inr code \<Rightarrow> 200 \<le> code \<and> code < 300) in
     (ok, w\<lparr>tick := Suc (tick w), deliveries := deliveries w @ [signed_request ep ev body t ok]\<rparr>))"

definition Deliver :: "hook_deps \<Rightarrow> endpoint \<Rightarrow> hook_event \<Rightarrow> bool hm" where
  "Deliver D ep ev =
     (case hk_marshal_envelope D (Envelope ev) of
        None \<Rightarrow> State_Monad.return False
      | Some body \<Rightarrow> do {
          t \<leftarrow> now (hk_env D);
          (if \<not> hk_request D (ep_url ep) then State_Monad.return False
           else post_event D ep ev body t)
        })"

text \<open>
  The outcome is recorded from the row the sweep read: a success moves the cursor (whatever that
  statement reports) and clears the failures; a failure counts one more and, at the limit, parks the
  endpoint until an operator re-enables or replays it.
\<close>

definition after_delivery :: "hook_deps \<Rightarrow> time \<Rightarrow> endpoint \<Rightarrow> hook_event \<Rightarrow> bool \<Rightarrow> unit hm" where
  "after_delivery D t ep ev ok =
     (if ok then do {
        _ \<leftarrow> AdvanceCursor (hk_env D) (ep_id ep) (ev_seq ev);
        _ \<leftarrow> RecordAttempt (hk_env D) (ep_id ep) 0 t HookOk;
        State_Monad.return ()
      }
      else
        let attempts = ep_attempts ep + 1 in
        if attempts \<ge> ep_max_attempts ep then do {
          _ \<leftarrow> RecordAttempt (hk_env D) (ep_id ep) attempts (t + backoffFor attempts) HookFailing;
          State_Monad.return ()
        }
        else do {
          _ \<leftarrow> RecordAttempt (hk_env D) (ep_id ep) attempts (t + backoffFor attempts) HookOk;
          State_Monad.return ()
        })"

definition sweepEndpoint :: "hook_deps \<Rightarrow> time \<Rightarrow> endpoint \<Rightarrow> unit hm" where
  "sweepEndpoint D t ep = do {
     pending \<leftarrow> PendingEvents (hk_env D) (ep_id ep) (ep_last_seq ep) 1;
     (case pending of
        Inl e \<Rightarrow> State_Monad.return ()
      | Inr [] \<Rightarrow> State_Monad.return ()
      | Inr (ev # evs) \<Rightarrow> do {
          ok \<leftarrow> Deliver D ep ev;
          after_delivery D t ep ev ok
        })
   }"

definition eligible :: "time \<Rightarrow> endpoint \<Rightarrow> bool" where
  "eligible t ep \<longleftrightarrow> ep_enabled ep \<and> ep_status ep \<noteq> HookFailing \<and> ep_next_retry_at ep \<le> t"

fun sweep_all :: "hook_deps \<Rightarrow> time \<Rightarrow> endpoint list \<Rightarrow> unit hm" where
  "sweep_all D t [] = State_Monad.return ()"
| "sweep_all D t (ep # eps) = do {
     _ \<leftarrow> (if eligible t ep then sweepEndpoint D t ep else State_Monad.return ());
     sweep_all D t eps
   }"

definition HookSweep :: "hook_deps \<Rightarrow> time \<Rightarrow> unit hm" where
  "HookSweep D t =
     (if \<not> hk_store D then State_Monad.return ()
      else do {
        r \<leftarrow> ListEndpoints (hk_env D);
        (case r of
           Inl e \<Rightarrow> State_Monad.return ()
         | Inr eps \<Rightarrow> sweep_all D t eps)
      })"

end
