(* ===== verification/Webhook_Api.thy ===== *)
theory Webhook_Api
  imports Webhook_Service
begin

section \<open>The webhook and event routes of the HTTP API\<close>

text \<open>
  \<^verbatim>\<open>server/internal/httpapi/domain_webhooks.go\<close> and \<^verbatim>\<open>domain_events.go\<close>. \<open>None\<close> of a server is a
  framework that is not wired; a body is the result of decoding it. The URL parser of package
  \<^verbatim>\<open>net/url\<close> is a parameter that gives the scheme and the host.
\<close>

record webhook_request =
  wq_name :: string
  wq_url :: string
  wq_secret :: string
  wq_categories :: "string list option"
  wq_enabled :: "bool option"
  wq_max_attempts :: "int option"
  wq_timeout_ms :: "int option"

datatype hook_body =
    WError err | WUnknown "string list" | WEndpoint public_endpoint | WEndpoints "public_endpoint list"
  | WReplay int int int hook_status | WEvents "hook_event list" | WEnvelopes "envelope list"

type_synonym hook_resp = "hook_body response"

record hook_api =
  ha_deps :: hook_deps
  ha_parse_url :: "string \<Rightarrow> (string \<times> string) option"

definition hplain :: "nat \<Rightarrow> hook_resp" where
  "hplain n = Resp n None"

definition hjson :: "nat \<Rightarrow> hook_body \<Rightarrow> hook_resp" where
  "hjson n b = Resp n (Some b)"

subsection \<open>Checking the input\<close>

fun dedup :: "string list \<Rightarrow> string list \<Rightarrow> string list" where
  "dedup seen [] = []"
| "dedup seen (c # cs) =
     (if c = '''' \<or> c \<in> set seen then dedup seen cs else c # dedup (c # seen) cs)"

definition normalizeCategories :: "string list \<Rightarrow> string list" where
  "normalizeCategories cs = (let out = dedup [] cs in if out = [] then AllCategories else out)"

definition containsStr :: "string list \<Rightarrow> string \<Rightarrow> bool" where
  "containsStr xs s \<longleftrightarrow> list_ex (\<lambda>x. x = s) xs"

definition unknownCategories :: "string list \<Rightarrow> string list" where
  "unknownCategories cs = filter (\<lambda>c. c \<noteq> '''' \<and> \<not> containsStr AllCategories c) cs"

definition validWebhookURL :: "(string \<Rightarrow> (string \<times> string) option) \<Rightarrow> string \<Rightarrow> bool" where
  "validWebhookURL parse u =
     (case parse u of
        None \<Rightarrow> False
      | Some (scheme, host) \<Rightarrow> (scheme = ''http'' \<or> scheme = ''https'') \<and> host \<noteq> '''')"

definition the_categories :: "webhook_request \<Rightarrow> string list" where
  "the_categories q = (case wq_categories q of None \<Rightarrow> [] | Some cs \<Rightarrow> cs)"

definition or_zero :: "int option \<Rightarrow> int" where
  "or_zero x = (case x of None \<Rightarrow> 0 | Some n \<Rightarrow> n)"

subsection \<open>Endpoints\<close>

definition handleWebhooks :: "hook_api option \<Rightarrow> http_method \<Rightarrow> webhook_request option \<Rightarrow> hook_resp hm" where
  "handleWebhooks A m body =
     (case A of
        None \<Rightarrow> State_Monad.return (hplain 503)
      | Some a \<Rightarrow>
          let E = hk_env (ha_deps a) in
          (case m of
             GET \<Rightarrow> do {
               r \<leftarrow> ListEndpoints E;
               State_Monad.return (case r of
                  Inl e \<Rightarrow> hplain 500
                | Inr eps \<Rightarrow> hjson 200 (WEndpoints (map Public eps)))
             }
           | POST \<Rightarrow>
               (case body of
                  None \<Rightarrow> State_Monad.return (hplain 400)
                | Some q \<Rightarrow>
                    if wq_name q = '''' \<or> wq_url q = '''' \<or> wq_secret q = ''''
                    then State_Monad.return (hplain 400)
                    else if \<not> validWebhookURL (ha_parse_url a) (wq_url q)
                    then State_Monad.return (hplain 400)
                    else
                      let bad = unknownCategories (the_categories q) in
                      if bad \<noteq> [] then State_Monad.return (hjson 422 (WUnknown bad))
                      else do {
                        r \<leftarrow> CreateEndpoint E (wq_name q) (wq_url q) (wq_secret q)
                               (normalizeCategories (the_categories q))
                               (or_zero (wq_max_attempts q)) (or_zero (wq_timeout_ms q)) 0;
                        State_Monad.return (case r of
                           Inl e \<Rightarrow> hplain 500
                         | Inr ep \<Rightarrow> hjson 201 (WEndpoint (Public ep)))
                      })
           | _ \<Rightarrow> State_Monad.return (hplain 405)))"

text \<open>A replay body that does not parse counts as \<^verbatim>\<open>{"from_seq": 0}\<close>.\<close>

definition handleWebhookReplay :: "hook_api \<Rightarrow> http_method \<Rightarrow> int \<Rightarrow> int option \<Rightarrow> hook_resp hm" where
  "handleWebhookReplay a m i from_seq =
     (let E = hk_env (ha_deps a); n = or_zero from_seq in
      if m \<noteq> POST then State_Monad.return (hplain 405)
      else if n < 0 then State_Monad.return (hplain 400)
      else do {
        er \<leftarrow> SetCursor E i n;
        (case er of
           Some e \<Rightarrow> State_Monad.return (hjson 404 (WError e))
         | None \<Rightarrow> do {
             r \<leftarrow> GetEndpoint E i;
             State_Monad.return (case r of
                Inl e \<Rightarrow> hjson 404 (WError e)
              | Inr ep \<Rightarrow> hjson 200 (WReplay i n (ep_last_seq ep) (ep_status ep)))
           })
      })"

definition after_param :: "string \<Rightarrow> int" where
  "after_param v = (if v = '''' then 0 else case ParseInt64 v of None \<Rightarrow> 0 | Some n \<Rightarrow> if n \<ge> 0 then n else 0)"

definition limit_200 :: "string \<Rightarrow> int" where
  "limit_200 v = (if v = '''' then 200 else case ParseInt64 v of None \<Rightarrow> 200 | Some n \<Rightarrow> if n > 0 then n else 200)"

definition handleWebhookEvents :: "hook_api \<Rightarrow> http_method \<Rightarrow> int \<Rightarrow> string \<Rightarrow> string \<Rightarrow> string \<Rightarrow> hook_resp hm" where
  "handleWebhookEvents a m i after limit category =
     (let E = hk_env (ha_deps a) in
      if m \<noteq> GET then State_Monad.return (hplain 405)
      else do {
        re \<leftarrow> GetEndpoint E i;
        (case re of
           Inl e \<Rightarrow> State_Monad.return (hjson 404 (WError e))
         | Inr ep \<Rightarrow> do {
             r \<leftarrow> EventsAfter E (after_param after) category (limit_200 limit);
             State_Monad.return (case r of
                Inl e \<Rightarrow> hplain 500
              | Inr evs \<Rightarrow> hjson 200 (WEvents
                  (filter (\<lambda>e. containsStr (ep_categories ep) (ev_category e)) evs)))
           })
      })"

text \<open>One request to the \<^verbatim>\<open>/webhooks/\<close> subtree, with the parameters a route may read.\<close>

record hook_sub =
  ws_method :: http_method
  ws_path :: string
  ws_body :: "webhook_request option"
  ws_from_seq :: "int option"
  ws_after :: string
  ws_limit :: string
  ws_category :: string

definition patchWebhook :: "hook_api \<Rightarrow> int \<Rightarrow> webhook_request option \<Rightarrow> hook_resp hm" where
  "patchWebhook a i body =
     (case body of
        None \<Rightarrow> State_Monad.return (hplain 400)
      | Some q \<Rightarrow>
          if wq_url q \<noteq> '''' \<and> \<not> validWebhookURL (ha_parse_url a) (wq_url q)
          then State_Monad.return (hplain 400)
          else
            let bad = unknownCategories (the_categories q) in
            if bad \<noteq> [] then State_Monad.return (hjson 422 (WUnknown bad))
            else do {
              r \<leftarrow> UpdateEndpoint (hk_env (ha_deps a)) i
                     (if wq_name q \<noteq> '''' then Some (wq_name q) else None)
                     (if wq_url q \<noteq> '''' then Some (wq_url q) else None)
                     (map_option normalizeCategories (wq_categories q)) (wq_enabled q);
              State_Monad.return (case r of
                 Inl e \<Rightarrow> hjson 404 (WError e)
               | Inr ep \<Rightarrow> hjson 200 (WEndpoint (Public ep)))
            })"

definition handleWebhookSub :: "hook_api option \<Rightarrow> hook_sub \<Rightarrow> hook_resp hm" where
  "handleWebhookSub A s =
     (case A of
        None \<Rightarrow> State_Monad.return (hplain 503)
      | Some a \<Rightarrow>
          let parts = path_parts (ws_path s); E = hk_env (ha_deps a) in
          if length parts < 3 \<or> parts ! 1 \<noteq> ''webhooks'' \<or> parts ! 2 = ''''
          then State_Monad.return (hplain 404)
          else (case positive_id (parts ! 2) of
             None \<Rightarrow> State_Monad.return (hplain 400)
           | Some i \<Rightarrow>
               if length parts = 4 then
                 (if parts ! 3 = ''replay'' then handleWebhookReplay a (ws_method s) i (ws_from_seq s)
                  else if parts ! 3 = ''events''
                  then handleWebhookEvents a (ws_method s) i (ws_after s) (ws_limit s) (ws_category s)
                  else State_Monad.return (hplain 404))
               else if length parts \<noteq> 3 then State_Monad.return (hplain 404)
               else (case ws_method s of
                  GET \<Rightarrow> do {
                    r \<leftarrow> GetEndpoint E i;
                    State_Monad.return (case r of
                       Inl e \<Rightarrow> hjson 404 (WError e)
                     | Inr ep \<Rightarrow> hjson 200 (WEndpoint (Public ep)))
                  }
                | PATCH \<Rightarrow> patchWebhook a i (ws_body s)
                | DELETE \<Rightarrow> do {
                    er \<leftarrow> DeleteEndpoint E i;
                    State_Monad.return (case er of
                       Some e \<Rightarrow> hjson 404 (WError e)
                     | None \<Rightarrow> hplain 204)
                  }
                | _ \<Rightarrow> State_Monad.return (hplain 405))))"

subsection \<open>The journal\<close>

text \<open>\<open>None\<close>: an unknown category.\<close>

definition streamFilterFromQuery :: "string \<Rightarrow> string \<Rightarrow> string \<Rightarrow> hook_filter option" where
  "streamFilterFromQuery category device typ =
     (let fl = \<lparr>flt_category = category, flt_device = device, flt_type = typ\<rparr> in
      if filter_valid fl then Some fl else None)"

definition handleEvents :: "hook_api option \<Rightarrow> http_method \<Rightarrow> hook_filter option \<Rightarrow> string \<Rightarrow> string \<Rightarrow> hook_resp hm" where
  "handleEvents A m flq after limit =
     (if m \<noteq> GET then State_Monad.return (hplain 405)
      else case A of
        None \<Rightarrow> State_Monad.return (hplain 503)
      | Some a \<Rightarrow>
          (case flq of
             None \<Rightarrow> State_Monad.return (hplain 400)
           | Some fl \<Rightarrow> do {
               r \<leftarrow> EventsAfterFilter (hk_env (ha_deps a)) (after_param after) fl (limit_200 limit);
               State_Monad.return (case r of
                  Inl e \<Rightarrow> hplain 500
                | Inr evs \<Rightarrow> hjson 200 (WEnvelopes (map Envelope evs)))
             }))"

subsection \<open>The live stream\<close>

text \<open>
  The stream handler keeps \<^verbatim>\<open>lastSent\<close> and writes frames (an id and the encoded envelope). Its loop
  reacts to its channel, to the keepalive ticker and to the end of the request.
\<close>

type_synonym frame = "int \<times> string"

datatype stream_input = Recv | Keepalive | Done

definition writeSSE :: "hook_deps \<Rightarrow> int \<times> frame list \<Rightarrow> hook_event \<Rightarrow> int \<times> frame list" where
  "writeSSE D s ev =
     (let (lastSent, out) = s in
      if ev_seq ev \<le> lastSent then s
      else (ev_seq ev, out @ [(ev_seq ev, case hk_marshal_envelope D (Envelope ev) of None \<Rightarrow> [] | Some b \<Rightarrow> b)]))"

text \<open>A receive that is ready: a queued event, or the zero event of a closed, drained channel.\<close>

definition zero_event :: hook_event where
  "zero_event = \<lparr>ev_seq = 0, ev_category = '''', ev_type_name = '''', ev_device = '''', ev_at = zero_time, ev_data = []\<rparr>"

definition receive :: "nat \<Rightarrow> (hook_event option) hm" where
  "receive c = State (\<lambda>w.
     (case find (\<lambda>ch. ch_id ch = c) (channels w) of
        None \<Rightarrow> (None, w)
      | Some ch \<Rightarrow>
          (case ch_buffer ch of
             [] \<Rightarrow> (if ch_closed ch then Some zero_event else None, w)
           | ev # evs \<Rightarrow> (Some ev, w\<lparr>channels := update_where (\<lambda>ch. ch_id ch = c)
                (\<lambda>ch. ch\<lparr>ch_buffer := evs\<rparr>) (channels w)\<rparr>))))"

fun stream_loop :: "hook_deps \<Rightarrow> nat \<Rightarrow> stream_input list \<Rightarrow> int \<times> frame list \<Rightarrow> (int \<times> frame list) hm" where
  "stream_loop D c [] s = State_Monad.return s"
| "stream_loop D c (i # is) s = do {
     _ \<leftarrow> preempt (hk_env D);
     (case i of
        Done \<Rightarrow> State_Monad.return s
      | Keepalive \<Rightarrow> stream_loop D c is s
      | Recv \<Rightarrow> do {
          r \<leftarrow> receive c;
          stream_loop D c is (case r of None \<Rightarrow> s | Some ev \<Rightarrow> writeSSE D s ev)
        })
   }"

definition first_sent :: "hook_deps \<Rightarrow> string \<Rightarrow> int hm" where
  "first_sent D lid =
     (let n = after_param lid in
      if n \<noteq> 0 then State_Monad.return n
      else do {
        mx \<leftarrow> MaxSeq (hk_env D);
        State_Monad.return (case mx of
           Inl e \<Rightarrow> 0
         | Inr m \<Rightarrow> if m > 0 then max 0 (m - 200) else 0)
      })"

datatype stream_result = Refused nat | Streamed "frame list"

definition handleEventStream :: "hook_api option \<Rightarrow> bool \<Rightarrow> hook_filter option \<Rightarrow> string \<Rightarrow>
    stream_input list \<Rightarrow> stream_result hm" where
  "handleEventStream A flusher flq lid is =
     (case A of
        None \<Rightarrow> State_Monad.return (Refused 503)
      | Some a \<Rightarrow>
          if \<not> flusher then State_Monad.return (Refused 503)
          else (case flq of
             None \<Rightarrow> State_Monad.return (Refused 400)
           | Some fl \<Rightarrow> do {
               c \<leftarrow> AddLiveFilter fl;
               n \<leftarrow> first_sent (ha_deps a) lid;
               r \<leftarrow> EventsAfterFilter (hk_env (ha_deps a)) n fl 200;
               s \<leftarrow> stream_loop (ha_deps a) c is
                      (foldl (writeSSE (ha_deps a)) (n, []) (case r of Inl e \<Rightarrow> [] | Inr evs \<Rightarrow> evs));
               _ \<leftarrow> modifies (cancel_live c);
               State_Monad.return (Streamed (snd s))
             }))"

end
