(* ===== verification/Webhook_Safety.thy ===== *)
theory Webhook_Safety
  imports Webhook_Api
begin

section \<open>Deliveries without gaps\<close>

text \<open>
  The history relation of the webhook framework, for the endpoint with the number \<open>i\<close>. Every handler but
  a replay of that endpoint and a change of its categories guarantees it, under any database faults and
  any handlers of the other replicas: the journal and the delivery log only grow, and wherever the
  cursor of \<open>i\<close> has moved, every matching event it moved over was accepted by the receiver, unless a
  larger number was already in the journal when the event became visible.
\<close>

subsection \<open>The history relation\<close>

definition was_accepted :: "hook_world \<Rightarrow> int \<Rightarrow> int \<Rightarrow> bool" where
  "was_accepted w i n \<longleftrightarrow>
     (\<exists>d\<in>set (deliveries w). del_endpoint d = i \<and> del_id d = FormatInt n \<and> del_accepted d)"

text \<open>The event became visible after an event with a larger number.\<close>

definition overtaken :: "hook_event list \<Rightarrow> hook_event \<Rightarrow> bool" where
  "overtaken vs v \<longleftrightarrow> (\<exists>xs ys. vs = xs @ v # ys \<and> (\<exists>x\<in>set xs. ev_seq v < ev_seq x))"

definition hook_inv :: "hook_world \<Rightarrow> bool" where
  "hook_inv w \<longleftrightarrow>
     distinct (map ev_seq (journal w)) \<and>
     (\<forall>v\<in>set (journal w). ev_seq v < journal_seq w) \<and>
     distinct (map ep_id (endpoints w)) \<and>
     (\<forall>e\<in>set (endpoints w). ep_id e < endpoint_seq w)"

text \<open>An endpoint then and now: the cursor skipped nothing the receiver did not accept.\<close>

definition no_gap :: "hook_world \<Rightarrow> endpoint \<Rightarrow> endpoint \<Rightarrow> bool" where
  "no_gap w e e' \<longleftrightarrow>
     (\<forall>v\<in>set (journal w). ep_last_seq e < ev_seq v \<and> ev_seq v \<le> ep_last_seq e' \<and>
        ev_category v \<in> set (ep_categories e') \<longrightarrow>
        overtaken (journal w) v \<or> was_accepted w (ep_id e') (ev_seq v))"

definition reached :: "hook_world \<Rightarrow> int \<Rightarrow> bool" where
  "reached w n \<longleftrightarrow> (\<exists>v\<in>set (journal w). n \<le> ev_seq v)"

definition follows :: "hook_world \<Rightarrow> endpoint \<Rightarrow> endpoint \<Rightarrow> bool" where
  "follows w e e' \<longleftrightarrow> ep_id e = ep_id e' \<and> ep_categories e = ep_categories e' \<and>
     ep_last_seq e \<le> ep_last_seq e' \<and> (ep_last_seq e' = ep_last_seq e \<or> reached w (ep_last_seq e')) \<and>
     no_gap w e e'"

definition hook_hist :: "int \<Rightarrow> hook_world \<Rightarrow> hook_world \<Rightarrow> bool" where
  "hook_hist i w w' \<longleftrightarrow>
     extends (deliveries w) (deliveries w') \<and> extends (journal w) (journal w') \<and>
     journal_seq w \<le> journal_seq w' \<and> endpoint_seq w \<le> endpoint_seq w' \<and>
     (hook_inv w \<longrightarrow> hook_inv w' \<and>
        (i < endpoint_seq w \<longrightarrow>
         (\<forall>e'\<in>set (endpoints w'). ep_id e' = i \<longrightarrow> (\<exists>e\<in>set (endpoints w). follows w' e e'))))"

lemma was_accepted_grows: "extends (deliveries w) (deliveries w') \<Longrightarrow> was_accepted w i n \<Longrightarrow> was_accepted w' i n"
  by (auto simp: was_accepted_def dest: extends_set)

lemma overtaken_grows: "extends vs vs' \<Longrightarrow> overtaken vs v \<Longrightarrow> overtaken vs' v"
  by (fastforce simp: overtaken_def extends_iff)

text \<open>What becomes visible once a number is reached was overtaken, or is larger.\<close>

lemma old_or_overtaken:
  assumes "extends (journal v) (journal w)" and "x \<in> set (journal w)" and "distinct (map ev_seq (journal w))"
    and "reached v n" and "ev_seq x \<le> n"
  shows "x \<in> set (journal v) \<or> overtaken (journal w) x"
proof (rule disjCI)
  assume "\<not> overtaken (journal w) x"
  moreover have "overtaken (journal w) x" if new: "x \<notin> set (journal v)"
  proof -
    obtain ys where w: "journal w = journal v @ ys" using assms(1) by (auto simp: extends_iff)
    with assms(2) new have "x \<in> set ys" by simp
    then obtain as bs where ys: "ys = as @ x # bs" by (blast dest: split_list)
    obtain y where y: "y \<in> set (journal v)" "ev_seq x \<le> ev_seq y"
      using assms(4,5) by (auto simp: reached_def)
    moreover have "ev_seq y \<noteq> ev_seq x"
      using assms(3) y(1) by (auto simp: w ys image_iff)
    ultimately have "\<exists>z\<in>set (journal v @ as). ev_seq x < ev_seq z" by force
    moreover have "journal w = (journal v @ as) @ x # bs" by (simp add: w ys)
    ultimately show "overtaken (journal w) x" unfolding overtaken_def by blast
  qed
  ultimately show "x \<in> set (journal v)" by blast
qed

lemma reached_grows: "extends (journal v) (journal w) \<Longrightarrow> reached v n \<Longrightarrow> reached w n"
  by (auto simp: reached_def dest: extends_set)

lemma follows_refl: "follows w e e"
  by (auto simp: follows_def no_gap_def)

lemma follows_trans:
  assumes "follows v a b" and "follows w b c" and "hook_inv w"
    and "extends (deliveries v) (deliveries w)" and "extends (journal v) (journal w)"
  shows "follows w a c"
proof -
  have "overtaken (journal w) x \<or> was_accepted w (ep_id c) (ev_seq x)"
    if x: "x \<in> set (journal w)" "ep_last_seq a < ev_seq x" "ev_seq x \<le> ep_last_seq c"
      "ev_category x \<in> set (ep_categories c)" for x
  proof (cases "ep_last_seq b < ev_seq x")
    case True
    with x assms(2) show ?thesis by (auto simp: follows_def no_gap_def)
  next
    case False
    with x(2) assms(1) have "reached v (ep_last_seq b)" by (auto simp: follows_def)
    then have "x \<in> set (journal v) \<or> overtaken (journal w) x"
      using old_or_overtaken [OF assms(5) x(1)] assms(3) False by (simp add: hook_inv_def)
    moreover have "overtaken (journal v) x \<or> was_accepted v (ep_id c) (ev_seq x)" if "x \<in> set (journal v)"
      using that False x assms(1,2) by (auto simp: follows_def no_gap_def)
    ultimately show ?thesis
      using overtaken_grows [OF assms(5)] was_accepted_grows [OF assms(4)] by blast
  qed
  with assms(1,2) show ?thesis
    using reached_grows [OF assms(5)] by (auto simp: follows_def no_gap_def)
qed

lemma hook_hist_ticks: "hook_hist i w (w\<lparr>tick := n\<rparr>)"
  by (auto simp: hook_hist_def hook_inv_def follows_def no_gap_def)

lemma hook_hist_trans:
  assumes "hook_hist i u v" and "hook_hist i v w"
  shows "hook_hist i u w"
proof -
  have 1: "extends (deliveries v) (deliveries w)" "extends (journal v) (journal w)" "hook_inv v \<Longrightarrow> hook_inv w"
    "endpoint_seq u \<le> endpoint_seq v"
    using assms by (auto simp: hook_hist_def)
  have "\<exists>a\<in>set (endpoints u). follows w a c"
    if h: "hook_inv u" "c \<in> set (endpoints w)" "ep_id c = i" "i < endpoint_seq u" for c
  proof -
    have iv: "hook_inv v" using assms(1) h(1) by (simp add: hook_hist_def)
    then obtain b where b: "b \<in> set (endpoints v)" "follows w b c"
      using assms(2) h 1(4) by (auto simp: hook_hist_def)
    then obtain a where "a \<in> set (endpoints u)" "follows v a b"
      using assms(1) h by (auto simp: hook_hist_def follows_def)
    then show ?thesis using follows_trans [OF _ b(2) 1(3) [OF iv] 1(1,2)] by blast
  qed
  then show ?thesis
    using assms 1 by (auto simp: hook_hist_def intro: extends_trans)
qed

interpretation wh: history "hook_hist i" for i :: int
  by unfold_locales (rule hook_hist_ticks, rule hook_hist_trans)

subsection \<open>Statements that keep the relation\<close>

text \<open>Steps that touch neither the journal nor the cursor of \<open>i\<close>.\<close>

lemma hook_hist_frame:
  assumes "journal w' = journal w" "journal_seq w \<le> journal_seq w'" "endpoint_seq w' = endpoint_seq w"
    and "extends (deliveries w) (deliveries w')"
    and "hook_inv w \<Longrightarrow> distinct (map ep_id (endpoints w')) \<and>
       (\<forall>e'\<in>set (endpoints w'). ep_id e' < endpoint_seq w)"
    and "\<And>e'. e' \<in> set (endpoints w') \<Longrightarrow> ep_id e' = i \<Longrightarrow> \<exists>e\<in>set (endpoints w). ep_id e = ep_id e' \<and>
       ep_categories e = ep_categories e' \<and> ep_last_seq e = ep_last_seq e'"
  shows "hook_hist i w w'"
proof -
  have "hook_inv w'" if "hook_inv w" using that assms(1-3) assms(5) [OF that] by (fastforce simp: hook_inv_def)
  moreover have "\<exists>e\<in>set (endpoints w). follows w' e e'" if "e' \<in> set (endpoints w')" "ep_id e' = i" for e'
    using assms(6) [OF that] by (auto simp: follows_def no_gap_def)
  ultimately show ?thesis using assms(1-4) by (simp add: hook_hist_def)
qed

lemma hist_update_endpoint:
  assumes "\<And>e. ep_id (f e) = ep_id e"
    and "j = i \<Longrightarrow> (\<And>e. ep_categories (f e) = ep_categories e \<and> ep_last_seq (f e) = ep_last_seq e)"
  shows "hook_hist i w (snd (update_endpoint_stmt j f w))"
  by (rule hook_hist_frame)
    (use assms in \<open>auto simp: update_endpoint_stmt_def map_update_where set_update_where hook_inv_def\<close>)

lemma hist_delete_endpoint: "hook_hist i w (snd (delete_endpoint_stmt j w))"
  by (rule hook_hist_frame) (auto simp: delete_endpoint_stmt_def distinct_map_filter hook_inv_def)

lemma hist_next_seq: "hook_hist i w (snd (next_seq_stmt w))"
  by (rule hook_hist_frame) (auto simp: next_seq_stmt_def hook_inv_def)

lemma hist_append_event:
  assumes "n < journal_seq w"
  shows "hook_hist i w (snd (append_event_stmt n c ty dv t x w))"
proof -
  let ?w' = "snd (append_event_stmt n c ty dv t x w)"
  have "hook_inv w \<Longrightarrow> hook_inv ?w'"
    using assms by (auto simp: append_event_stmt_def hook_inv_def)
  moreover have "\<exists>e\<in>set (endpoints w). follows ?w' e e'" if "e' \<in> set (endpoints w)" for e'
    using that by (blast intro: follows_refl)
  moreover have "extends (journal w) (journal ?w')" by (simp add: append_event_stmt_def)
  moreover have "deliveries ?w' = deliveries w" "journal_seq ?w' = journal_seq w"
    "endpoint_seq ?w' = endpoint_seq w" "endpoints ?w' = endpoints w"
    by (simp_all add: append_event_stmt_def)
  ultimately show ?thesis by (simp add: hook_hist_def)
qed

lemma hist_locals:
  assumes "journal w' = journal w" "journal_seq w' = journal_seq w" "endpoint_seq w' = endpoint_seq w"
    and "deliveries w' = deliveries w" "endpoints w' = endpoints w"
  shows "hook_hist i w w'"
  by (rule hook_hist_frame) (use assms in \<open>auto simp: hook_inv_def\<close>)

lemma hist_preempt [guarantee]: "rely (hook_hist i) E \<Longrightarrow> guarantees (hook_hist i) (preempt E)"
  unfolding preempt_def by (intro wh.bind wh.ask wh.return)

lemma hist_exec_at [guarantee]:
  "rely (hook_hist i) E \<Longrightarrow> (\<And>t w. hook_hist i w (snd (stmt t w))) \<Longrightarrow> guarantees (hook_hist i) (exec_at E stmt)"
  unfolding exec_at_def by (intro wh.exec)

subsection \<open>Moving a cursor\<close>

text \<open>What a sweep must know before it moves the cursor of endpoint \<open>j\<close> to \<open>n\<close>.\<close>

definition may_advance :: "int \<Rightarrow> int \<Rightarrow> hook_world \<Rightarrow> bool" where
  "may_advance j n w \<longleftrightarrow> reached w n \<and> j < endpoint_seq w \<and>
     (\<forall>e\<in>set (endpoints w). ep_id e = j \<longrightarrow>
        (\<forall>v\<in>set (journal w). ep_last_seq e < ev_seq v \<and> ev_seq v \<le> n \<and>
           ev_category v \<in> set (ep_categories e) \<longrightarrow> overtaken (journal w) v \<or> was_accepted w j (ev_seq v)))"

definition cleared :: "int \<Rightarrow> int \<Rightarrow> int \<Rightarrow> hook_world \<Rightarrow> bool" where
  "cleared i j n w \<longleftrightarrow> hook_inv w \<and> (j = i \<longrightarrow> may_advance j n w)"

lemma stable_cleared: "stable (hook_hist i) (cleared i j n)"
  unfolding stable_def
proof (intro allI impI)
  fix v w assume "cleared i j n v" and R: "hook_hist i v w"
  then have P: "hook_inv v \<and> (j = i \<longrightarrow> may_advance j n v)" by (simp add: cleared_def)
  have iw: "hook_inv w" and ext: "extends (deliveries v) (deliveries w)" and grows: "extends (journal v) (journal w)"
    and seqs: "endpoint_seq v \<le> endpoint_seq w"
    using P R by (auto simp: hook_hist_def)
  have "may_advance j n w" if j: "j = i"
  proof -
    have M: "may_advance j n v" using P j by simp
    have "overtaken (journal w) x \<or> was_accepted w j (ev_seq x)"
      if e': "e' \<in> set (endpoints w)" "ep_id e' = j" and x: "x \<in> set (journal w)" "ep_last_seq e' < ev_seq x"
        "ev_seq x \<le> n" "ev_category x \<in> set (ep_categories e')" for e' x
    proof -
      obtain e where e: "e \<in> set (endpoints v)" "follows w e e'"
        using R P e' j by (auto simp: hook_hist_def may_advance_def)
      have "x \<in> set (journal v) \<or> overtaken (journal w) x"
        using old_or_overtaken [OF grows x(1), of n] iw M x(3) by (simp add: hook_inv_def may_advance_def)
      moreover have "overtaken (journal v) x \<or> was_accepted v j (ev_seq x)" if "x \<in> set (journal v)"
        using that M e e' x by (auto simp: may_advance_def follows_def)
      ultimately show ?thesis using overtaken_grows [OF grows] was_accepted_grows [OF ext] by blast
    qed
    with M seqs reached_grows [OF grows] show ?thesis by (auto simp: may_advance_def)
  qed
  with iw show "cleared i j n w" by (simp add: cleared_def)
qed

lemma hist_advance_cursor:
  assumes "cleared i j n w"
  shows "hook_hist i w (snd (advance_stmt j n t w))"
proof -
  let ?f = "\<lambda>e. e\<lparr>ep_last_seq := n, ep_updated_at := t\<rparr>"
  let ?w' = "snd (advance_stmt j n t w)"
  have w': "journal ?w' = journal w" "journal_seq ?w' = journal_seq w" "endpoint_seq ?w' = endpoint_seq w"
    "deliveries ?w' = deliveries w" "endpoints ?w' = update_where (behind j n) ?f (endpoints w)"
    by (simp_all add: advance_stmt_def)
  have inv: "hook_inv ?w'"
    using assms by (auto simp: cleared_def hook_inv_def w' map_update_where set_update_where)
  have "\<exists>e\<in>set (endpoints w). follows ?w' e e'" if mem: "e' \<in> set (endpoints ?w')" "ep_id e' = i" for e'
  proof -
    obtain e where e: "e \<in> set (endpoints w)" "e' = (if behind j n e then ?f e else e)"
      using mem by (auto simp: w' set_update_where)
    have "follows ?w' e e'"
    proof (cases "behind j n e")
      case False
      with e(2) show ?thesis by (simp add: follows_refl)
    next
      case True
      with e mem(2) have "j = i" by (simp add: behind_def)
      with True e assms have e'': "e' = ?f e" "ep_id e = j" "ep_last_seq e < n" and M: "may_advance j n w"
        by (simp_all add: behind_def cleared_def)
      then have "reached ?w' n" and "no_gap ?w' e e'"
        using e(1) by (auto simp: may_advance_def reached_def no_gap_def was_accepted_def w')
      with e'' show ?thesis by (simp add: follows_def)
    qed
    with e(1) show ?thesis by blast
  qed
  with inv show ?thesis by (simp add: hook_hist_def w')
qed

subsection \<open>A sweep\<close>

lemma stable_inv: "stable (hook_hist i) hook_inv"
  by (auto simp: stable_def hook_hist_def)

text \<open>What is known of the row a sweep read earlier, when it is the row of \<open>i\<close>.\<close>

definition knows :: "int \<Rightarrow> endpoint \<Rightarrow> hook_world \<Rightarrow> bool" where
  "knows i ep w \<longleftrightarrow> hook_inv w \<and> ep_id ep < endpoint_seq w \<and>
     (ep_id ep = i \<longrightarrow> (\<forall>e\<in>set (endpoints w). ep_id e = i \<longrightarrow> ep_last_seq ep \<le> ep_last_seq e))"

definition next_for :: "int \<Rightarrow> endpoint \<Rightarrow> hook_event \<Rightarrow> hook_world \<Rightarrow> bool" where
  "next_for i ep ev w \<longleftrightarrow> knows i ep w \<and> ev \<in> set (journal w) \<and>
     (ep_id ep = i \<longrightarrow> (\<forall>e\<in>set (endpoints w). ep_id e = i \<longrightarrow>
        (\<forall>v\<in>set (journal w). ep_last_seq ep < ev_seq v \<and> ev_seq v < ev_seq ev \<longrightarrow>
           overtaken (journal w) v \<or> ev_category v \<notin> set (ep_categories e))))"

lemma hist_follows:
  assumes "hook_hist i v w" and "hook_inv v" and "e' \<in> set (endpoints w)" and "ep_id e' = i" and "i < endpoint_seq v"
  obtains e where "e \<in> set (endpoints v)" and "follows w e e'"
  using assms by (auto simp: hook_hist_def)

lemma stable_knows: "stable (hook_hist i) (knows i ep)"
  unfolding stable_def
proof (intro allI impI)
  fix v w assume K: "knows i ep v" and R: "hook_hist i v w"
  have "ep_last_seq ep \<le> ep_last_seq e'" if e': "e' \<in> set (endpoints w)" "ep_id e' = i" "ep_id ep = i" for e'
  proof -
    from R K e' obtain e where "e \<in> set (endpoints v)" "follows w e e'"
      by (auto simp: knows_def elim: hist_follows)
    with K e' show ?thesis by (fastforce simp: knows_def follows_def)
  qed
  with K R show "knows i ep w" by (auto simp: knows_def hook_hist_def)
qed

lemma stable_next_for: "stable (hook_hist i) (next_for i ep ev)"
  unfolding stable_def
proof (intro allI impI)
  fix v w assume N: "next_for i ep ev v" and R: "hook_hist i v w"
  have K: "knows i ep w" using N R stableD [OF stable_knows] by (auto simp: next_for_def)
  have grows: "extends (journal v) (journal w)" using R by (simp add: hook_hist_def)
  have "overtaken (journal w) x \<or> ev_category x \<notin> set (ep_categories e')"
    if e': "e' \<in> set (endpoints w)" "ep_id e' = i" "ep_id ep = i" and
      x: "x \<in> set (journal w)" "ep_last_seq ep < ev_seq x" "ev_seq x < ev_seq ev" for e' x
  proof -
    from R N e' obtain e where e: "e \<in> set (endpoints v)" "follows w e e'"
      by (auto simp: next_for_def knows_def elim: hist_follows)
    have "reached v (ev_seq ev)" using N by (auto simp: next_for_def reached_def)
    then have "x \<in> set (journal v) \<or> overtaken (journal w) x"
      using old_or_overtaken [OF grows x(1)] K x(3) by (simp add: knows_def hook_inv_def)
    moreover have "ep_id e = i" "ep_categories e = ep_categories e'"
      using e(2) e' by (simp_all add: follows_def)
    then have "overtaken (journal v) x \<or> ev_category x \<notin> set (ep_categories e')" if "x \<in> set (journal v)"
      using that N e(1) e'(3) x(2,3) unfolding next_for_def by metis
    ultimately show ?thesis using overtaken_grows [OF grows] by blast
  qed
  with K N extends_set [OF grows] show "next_for i ep ev w" by (auto simp: next_for_def)
qed

lemma next_for_may_advance:
  assumes "next_for i ep ev w" and "ep_id ep = i" and "was_accepted w i (ev_seq ev)"
  shows "may_advance i (ev_seq ev) w"
proof -
  have "overtaken (journal w) v \<or> was_accepted w i (ev_seq v)"
    if "e \<in> set (endpoints w)" "ep_id e = i" "v \<in> set (journal w)" "ep_last_seq e < ev_seq v"
      "ev_seq v \<le> ev_seq ev" "ev_category v \<in> set (ep_categories e)" for e v
  proof (cases "ev_seq v = ev_seq ev")
    case False
    moreover have "ep_last_seq ep \<le> ep_last_seq e" using assms(1,2) that by (simp add: next_for_def knows_def)
    ultimately have "overtaken (journal w) v \<or> ev_category v \<notin> set (ep_categories e)"
      using assms(1,2) that unfolding next_for_def by (meson order_less_le order_le_less_trans)
    with that show ?thesis by blast
  qed (simp add: assms(3))
  with assms(1,2) show ?thesis by (auto simp: may_advance_def next_for_def knows_def reached_def)
qed

lemma knows_row: "hook_inv w \<Longrightarrow> ep \<in> set (endpoints w) \<Longrightarrow> knows i ep w"
  by (auto simp: knows_def hook_inv_def distinct_map inj_on_def)

lemma pending_first:
  assumes "knows i ep w" and "take 1 (pending_rows w (ep_id ep) (ep_last_seq ep)) = ev # evs"
  shows "next_for i ep ev w"
proof -
  let ?P = "\<lambda>e. ep_last_seq ep < ev_seq e \<and> ev_category e \<in> set (categories_of w (ep_id ep))"
  obtain zs where rows: "pending_rows w (ep_id ep) (ep_last_seq ep) = ev # zs"
    using assms(2) by (cases "pending_rows w (ep_id ep) (ep_last_seq ep)") auto
  have "sorted (map ev_seq (pending_rows w (ep_id ep) (ep_last_seq ep)))"
    by (simp add: pending_rows_def)
  then have first: "\<forall>v\<in>set (pending_rows w (ep_id ep) (ep_last_seq ep)). ev_seq ev \<le> ev_seq v"
    unfolding rows by auto
  have mem: "set (pending_rows w (ep_id ep) (ep_last_seq ep)) = {e \<in> set (journal w). ?P e}"
    by (auto simp: pending_rows_def)
  have "ev \<in> set (journal w)" using mem unfolding rows by auto
  moreover have "overtaken (journal w) v \<or> ev_category v \<notin> set (ep_categories e)"
    if "e \<in> set (endpoints w)" "ep_id e = ep_id ep" "v \<in> set (journal w)"
      "ep_last_seq ep < ev_seq v" "ev_seq v < ev_seq ev" for e v
  proof -
    have "categories_of w (ep_id ep) = ep_categories e"
      using find_distinct_key [of ep_id "endpoints w" e] that assms(1)
      by (simp add: categories_of_def knows_def hook_inv_def)
    with first mem that show ?thesis by force
  qed
  ultimately show ?thesis using assms(1) by (auto simp: next_for_def knows_def hook_inv_def)
qed

lemma ensures_Pending:
  "rely (hook_hist i) E \<Longrightarrow> ensures (hook_hist i) (knows i ep) (PendingEvents E (ep_id ep) (ep_last_seq ep) 1)
     (\<lambda>r w. knows i ep w \<and> (\<forall>ev evs. r = Inr (ev # evs) \<longrightarrow> next_for i ep ev w))"
  unfolding PendingEvents_def
  by (rule wh.ensures_query) (auto simp: clamp_limit_def intro: stable_knows pending_first)

lemma post_event_step: "hook_hist i w (snd (run_state (post_event D ep ev body t) w))"
  by (rule hook_hist_frame) (auto simp: post_event_def Let_def hook_inv_def)

lemma Deliver_step: "guarantees (hook_hist i) (Deliver D ep ev)"
  unfolding Deliver_def by (intro guarantee wh.bind wh.return wh.now) (rule guaranteesI, rule post_event_step)

lemma Deliver_accepted:
  "fst (run_state (Deliver D ep ev) w) \<Longrightarrow>
     was_accepted (snd (run_state (Deliver D ep ev) w)) (ep_id ep) (ev_seq ev)"
  by (simp add: Deliver_def post_event_def Let_def was_accepted_def signed_request_def
      split: option.splits if_splits)

lemma ensures_Deliver:
  "ensures (hook_hist i) (next_for i ep ev) (Deliver D ep ev)
     (\<lambda>ok w. hook_inv w \<and> (ok \<longrightarrow> cleared i (ep_id ep) (ev_seq ev) w))"
  unfolding ensures_def
proof (intro allI impI)
  fix w assume N: "next_for i ep ev w"
  let ?w = "snd (run_state (Deliver D ep ev) w)"
  have R: "hook_hist i w ?w" by (rule guaranteesD [OF Deliver_step])
  from stableD [OF stable_next_for N R] have N': "next_for i ep ev ?w" .
  then have "hook_inv ?w" by (simp add: next_for_def knows_def)
  with R N' show "hook_hist i w ?w \<and> hook_inv ?w \<and>
      (fst (run_state (Deliver D ep ev) w) \<longrightarrow> cleared i (ep_id ep) (ev_seq ev) ?w)"
    using Deliver_accepted [of D ep ev w] next_for_may_advance [OF N'] by (auto simp: cleared_def)
qed

lemma ensures_Advance:
  assumes "rely (hook_hist i) E"
  shows "ensures (hook_hist i) (cleared i j n) (AdvanceCursor E j n) (\<lambda>_. hook_inv)"
  unfolding AdvanceCursor_def
proof (rule wh.ensures_bind)
  have "hook_hist i w (snd (advance_stmt j n t w)) \<and> hook_inv w \<and> hook_inv (snd (advance_stmt j n t w))"
    if "cleared i j n w" for t w
    using that hist_advance_cursor [OF that] by (auto simp: hook_hist_def cleared_def)
  then show "ensures (hook_hist i) (cleared i j n) (exec_at E (advance_stmt j n)) (\<lambda>_. hook_inv)"
    unfolding exec_at_def by (intro wh.ensures_exec [OF assms stable_cleared]) blast+
qed (rule wh.ensures_return)

lemma hist_RecordAttempt [guarantee]:
  "rely (hook_hist i) E \<Longrightarrow> guarantees (hook_hist i) (RecordAttempt E j n t s)"
  unfolding RecordAttempt_def
  by (intro guarantee) (auto intro!: hist_update_endpoint)

lemma ensures_inv: "guarantees (hook_hist i) c \<Longrightarrow> ensures (hook_hist i) hook_inv c (\<lambda>_. hook_inv)"
  by (erule wh.ensures_stable) (rule stable_inv)

lemma ensures_RecordAttempt:
  "rely (hook_hist i) E \<Longrightarrow>
   ensures (hook_hist i) hook_inv (do { _ \<leftarrow> RecordAttempt E j n t s; State_Monad.return () }) (\<lambda>_. hook_inv)"
  by (rule ensures_inv) (intro guarantee hist_RecordAttempt | assumption)+

lemma ensures_after_delivery:
  assumes "rely (hook_hist i) (hk_env D)"
  shows "ensures (hook_hist i) (\<lambda>w. hook_inv w \<and> (ok \<longrightarrow> cleared i (ep_id ep) (ev_seq ev) w))
    (after_delivery D t ep ev ok) (\<lambda>_. hook_inv)"
proof (cases ok)
  case True
  then show ?thesis
    unfolding after_delivery_def
    by simp (rule ensures_mono, rule wh.ensures_bind [OF ensures_Advance [OF assms] ensures_RecordAttempt [OF assms]], simp_all)
next
  case False
  then show ?thesis
    by (simp add: after_delivery_def Let_def ensures_RecordAttempt [OF assms])
qed

lemma ensures_sweepEndpoint:
  assumes "rely (hook_hist i) (hk_env D)"
  shows "ensures (hook_hist i) (knows i ep) (sweepEndpoint D t ep) (\<lambda>_. hook_inv)"
  unfolding sweepEndpoint_def
proof (rule wh.ensures_bind [OF ensures_Pending [OF assms]])
  fix r
  let ?M = "\<lambda>w. knows i ep w \<and> (\<forall>ev evs. r = Inr (ev # evs) \<longrightarrow> next_for i ep ev w)"
  have skip: "ensures (hook_hist i) ?M (State_Monad.return ()) (\<lambda>_. hook_inv)"
    by (rule wh.ensures_return) (simp add: knows_def)
  show "ensures (hook_hist i) ?M (case r of Inl e \<Rightarrow> State_Monad.return () | Inr [] \<Rightarrow> State_Monad.return ()
      | Inr (ev # evs) \<Rightarrow> do { ok \<leftarrow> Deliver D ep ev; after_delivery D t ep ev ok }) (\<lambda>_. hook_inv)"
  proof (intro ensures_sum ensures_list skip)
    fix evs ev rest
    assume "r = Inr evs" and "evs = ev # rest"
    then have "ensures (hook_hist i) ?M (Deliver D ep ev)
        (\<lambda>ok w. hook_inv w \<and> (ok \<longrightarrow> cleared i (ep_id ep) (ev_seq ev) w))"
      by (intro ensures_mono [OF ensures_Deliver]) auto
    then show "ensures (hook_hist i) ?M (do { ok \<leftarrow> Deliver D ep ev; after_delivery D t ep ev ok }) (\<lambda>_. hook_inv)"
      by (rule wh.ensures_bind) (rule ensures_after_delivery [OF assms])
  qed
qed

lemma stable_all: "(\<And>x. stable R (P x)) \<Longrightarrow> stable R (\<lambda>w. \<forall>x\<in>S. P x w)"
  by (fastforce simp: stable_def)

lemma stable_conj: "stable R P \<Longrightarrow> stable R Q \<Longrightarrow> stable R (\<lambda>w. P w \<and> Q w)"
  by (auto simp: stable_def)

lemma ensures_sweep_all:
  assumes "rely (hook_hist i) (hk_env D)"
  shows "ensures (hook_hist i) (\<lambda>w. hook_inv w \<and> (\<forall>ep\<in>set eps. knows i ep w)) (sweep_all D t eps) (\<lambda>_. hook_inv)"
proof (induction eps)
  case Nil
  show ?case by (simp add: wh.ensures_return)
next
  case (Cons ep eps)
  have st: "stable (hook_hist i) (\<lambda>w. \<forall>ep\<in>set eps. knows i ep w)"
    by (rule stable_all) (rule stable_knows)
  have "ensures (hook_hist i) (knows i ep) (if eligible t ep then sweepEndpoint D t ep else State_Monad.return ()) (\<lambda>_. hook_inv)"
    by (intro ensures_if ensures_sweepEndpoint assms wh.ensures_return) (simp add: knows_def)
  then have "ensures (hook_hist i) (\<lambda>w. hook_inv w \<and> (\<forall>ep\<in>set (ep # eps). knows i ep w))
      (if eligible t ep then sweepEndpoint D t ep else State_Monad.return ())
      (\<lambda>_ w. hook_inv w \<and> (\<forall>ep\<in>set eps. knows i ep w))"
    using stableD [OF st] by (fastforce simp: ensures_def)
  then show ?case
    unfolding sweep_all.simps by (rule wh.ensures_bind) (rule Cons.IH)
qed

lemma ensures_HookSweep:
  assumes "rely (hook_hist i) (hk_env D)"
  shows "ensures (hook_hist i) hook_inv (HookSweep D t) (\<lambda>_. hook_inv)"
proof (cases "hk_store D")
  case False
  then show ?thesis by (simp add: HookSweep_def wh.ensures_return)
next
  case True
  have L: "ensures (hook_hist i) hook_inv (ListEndpoints (hk_env D))
      (\<lambda>r w. hook_inv w \<and> (\<forall>eps. r = Inr eps \<longrightarrow> (\<forall>ep\<in>set eps. knows i ep w)))"
    unfolding ListEndpoints_def
    by (rule wh.ensures_query [OF assms stable_inv]) (auto intro: knows_row)
  show ?thesis
    unfolding HookSweep_def using True
    by (simp, intro wh.ensures_bind [OF L] ensures_sum wh.ensures_return)
      (auto intro: ensures_mono [OF ensures_sweep_all [OF assms]])
qed

subsection \<open>The bus handler, the streams and the API\<close>

lemma hist_send_event: "guarantees (hook_hist i) (send_event ev c)"
  by (rule guaranteesI, rule hist_locals) (auto simp: send_event_def split: option.split)

lemma hist_send_all: "guarantees (hook_hist i) (send_all ev cs)"
  by (induction cs) (auto intro!: wh.return wh.bind hist_send_event)

lemma hist_broadcast: "rely (hook_hist i) (hk_env D) \<Longrightarrow> guarantees (hook_hist i) (broadcast D ev)"
  unfolding broadcast_def by (intro wh.bind wh.reads hist_preempt hist_send_all)

text \<open>The number an insert has drawn stays below the sequence until its row becomes visible.\<close>

lemma hist_AppendEvent:
  assumes "rely (hook_hist i) E"
  shows "guarantees (hook_hist i) (AppendEvent E c ty dv t x)"
proof -
  have below: "stable (hook_hist i) (\<lambda>w. n < journal_seq w)" for n by (auto simp: stable_def hook_hist_def)
  have draw: "ensures (hook_hist i) (\<lambda>_. True) (exec E next_seq_stmt)
      (\<lambda>r w. \<forall>n. r = Inr n \<longrightarrow> n < journal_seq w)"
    by (rule wh.ensures_exec [OF assms]) (auto simp: stable_def next_seq_stmt_def intro: hist_next_seq [simplified next_seq_stmt_def snd_conv])
  have insert: "ensures (hook_hist i) (\<lambda>w. n < journal_seq w) (exec E (append_event_stmt n c ty dv t d)) (\<lambda>_ _. True)" for n d
    by (rule wh.ensures_exec [OF assms below hist_append_event]) simp_all
  have then_insert: "ensures (hook_hist i) (\<lambda>w. \<forall>n. r = Inr n \<longrightarrow> n < journal_seq w)
      (case r of Inl e \<Rightarrow> State_Monad.return (Inl e) | Inr n \<Rightarrow> exec E (append_event_stmt n c ty dv t d)) (\<lambda>_ _. True)" for r d
    by (cases r) (simp_all add: insert wh.ensures_return)
  show ?thesis
    unfolding AppendEvent_def
    by (rule ensures_guarantees, rule wh.ensures_bind [OF draw then_insert])
qed

lemma hist_onHookEvent:
  "rely (hook_hist i) (hk_env D) \<Longrightarrow> guarantees (hook_hist i) (onHookEvent D subject ev)"
  unfolding onHookEvent_def
  by (intro guarantees_option guarantees_if guarantees_sum wh.bind wh.return wh.now hist_AppendEvent
      hist_broadcast) assumption+

lemma hist_GetEndpoint: "rely (hook_hist i) E \<Longrightarrow> guarantees (hook_hist i) (GetEndpoint E j)"
  unfolding GetEndpoint_def by (intro wh.bind wh.query wh.return)

lemma hist_insert_endpoint: "hook_hist i w (snd (insert_endpoint_stmt E nm u sec cs ma tmo n w))"
proof -
  let ?w' = "snd (insert_endpoint_stmt E nm u sec cs ma tmo n w)"
  have "hook_inv w \<Longrightarrow> hook_inv ?w'"
    by (fastforce simp: insert_endpoint_stmt_def Let_def hook_inv_def)
  moreover have "\<exists>e\<in>set (endpoints w). follows ?w' e e'"
    if "e' \<in> set (endpoints ?w')" "ep_id e' = i" "i < endpoint_seq w" for e'
    using that follows_refl [of ?w' e']
    by (auto simp: insert_endpoint_stmt_def Let_def split: if_splits)
  ultimately show ?thesis
    by (auto simp: hook_hist_def insert_endpoint_stmt_def Let_def)
qed

lemma hist_CreateEndpoint:
  assumes "rely (hook_hist i) E"
  shows "guarantees (hook_hist i) (CreateEndpoint E nm u sec cs ma tmo n)"
  unfolding CreateEndpoint_def start_cursor_def MaxSeq_def Let_def
  by (intro guarantees_if guarantees_sum wh.bind wh.return wh.query wh.exec hist_insert_endpoint
      hist_GetEndpoint assms)

text \<open>The endpoint \<open>i\<close> itself keeps its categories; the others may get new ones.\<close>

lemma hist_UpdateEndpoint:
  assumes "rely (hook_hist i) E" and "j = i \<longrightarrow> cats = None"
  shows "guarantees (hook_hist i) (UpdateEndpoint E j name url cats enabled)"
proof -
  have "guarantees (hook_hist i) (exec_at E (\<lambda>t. update_endpoint_stmt j (patch_endpoint name url cats enabled t)))"
    by (intro hist_exec_at assms hist_update_endpoint) (use assms(2) in \<open>auto simp: patch_endpoint_def Let_def\<close>)
  then show ?thesis
    unfolding UpdateEndpoint_def
    by (intro guarantees_if guarantees_sum wh.bind wh.return hist_GetEndpoint assms)
qed

lemma hist_DeleteEndpoint: "rely (hook_hist i) E \<Longrightarrow> guarantees (hook_hist i) (DeleteEndpoint E j)"
  unfolding DeleteEndpoint_def by (intro wh.bind wh.exec hist_delete_endpoint wh.return)

lemma hist_SetCursor:
  assumes "rely (hook_hist i) E" and "j \<noteq> i"
  shows "guarantees (hook_hist i) (SetCursor E j n)"
  unfolding SetCursor_def set_cursor_stmt_def
  by (intro wh.bind wh.return hist_exec_at assms hist_update_endpoint) (use assms(2) in auto)

lemma hist_receive: "guarantees (hook_hist i) (receive c)"
  by (rule guaranteesI, rule hist_locals) (auto simp: receive_def split: option.split list.split)

lemma hist_stream_loop:
  assumes "rely (hook_hist i) (hk_env D)"
  shows "guarantees (hook_hist i) (stream_loop D c is s)"
proof (induction "is" arbitrary: s)
  case Nil
  show ?case unfolding stream_loop.simps by (rule wh.return)
next
  case (Cons i "is")
  show ?case
    unfolding stream_loop.simps
    by (rule wh.bind [OF hist_preempt [OF assms]], cases i)
      (simp_all only: stream_input.case, intro wh.bind hist_receive Cons.IH, rule Cons.IH, rule wh.return)
qed

lemma hist_handleEventStream:
  assumes "rely (hook_hist i) (hk_env (ha_deps a))"
  shows "guarantees (hook_hist i) (handleEventStream (Some a) fl flq lid is)"
proof -
  have "guarantees (hook_hist i) (modifies (cancel_live c))" "guarantees (hook_hist i) (AddLiveFilter g)" for c g
    by (rule guaranteesI, rule hist_locals; simp add: cancel_live_def AddLiveFilter_def Let_def)+
  moreover have "guarantees (hook_hist i) (first_sent (ha_deps a) lid)"
    unfolding first_sent_def Let_def MaxSeq_def
    by (intro guarantees_if wh.bind wh.return wh.query assms)
  ultimately show ?thesis
    unfolding handleEventStream_def EventsAfterFilter_def option.case
    by (intro guarantees_if guarantees_option wh.bind wh.return wh.query assms hist_stream_loop)
qed

end
