(* ===== verification/Webhook_Properties.thy ===== *)
theory Webhook_Properties
  imports Webhook_Safety
begin

section \<open>Properties of the webhook framework\<close>

subsection \<open>The system\<close>

text \<open>
  \<open>hook_runs i w0 w\<close>: \<open>w\<close> is reached from \<open>w0\<close> by sweeps, bus events, live streams, and the API's
  creation, deletion, update and replay of endpoints (but no replay of the endpoint \<open>i\<close> and no change of
  its categories), each under any database faults and any interference of the same kind.
\<close>

inductive hook_runs :: "int \<Rightarrow> hook_world \<Rightarrow> hook_world \<Rightarrow> bool" for i :: int where
  start: "hook_runs i w w"
| swept: "hook_runs i w0 w \<Longrightarrow> rely (hook_hist i) (hk_env D) \<Longrightarrow>
    hook_runs i w0 (snd (run_state (HookSweep D t) w))"
| journaled: "hook_runs i w0 w \<Longrightarrow> rely (hook_hist i) (hk_env D) \<Longrightarrow>
    hook_runs i w0 (snd (run_state (onHookEvent D subject ev) w))"
| streamed: "hook_runs i w0 w \<Longrightarrow> rely (hook_hist i) (hk_env (ha_deps a)) \<Longrightarrow>
    hook_runs i w0 (snd (run_state (handleEventStream (Some a) fl flq lid is) w))"
| created: "hook_runs i w0 w \<Longrightarrow> rely (hook_hist i) E \<Longrightarrow>
    hook_runs i w0 (snd (run_state (CreateEndpoint E nm u sec cs ma tmo n) w))"
| updated: "hook_runs i w0 w \<Longrightarrow> rely (hook_hist i) E \<Longrightarrow> j = i \<longrightarrow> cats = None \<Longrightarrow>
    hook_runs i w0 (snd (run_state (UpdateEndpoint E j name url cats enabled) w))"
| deleted: "hook_runs i w0 w \<Longrightarrow> rely (hook_hist i) E \<Longrightarrow>
    hook_runs i w0 (snd (run_state (DeleteEndpoint E j) w))"
| replayed: "hook_runs i w0 w \<Longrightarrow> rely (hook_hist i) E \<Longrightarrow> j \<noteq> i \<Longrightarrow>
    hook_runs i w0 (snd (run_state (SetCursor E j n) w))"

lemma hist_keeps_inv:
  assumes "guarantees (hook_hist i) c" and "hook_hist i w0 w \<and> hook_inv w"
  shows "hook_hist i w0 (snd (run_state c w)) \<and> hook_inv (snd (run_state c w))"
proof -
  have "hook_hist i w (snd (run_state c w))" by (rule guaranteesD [OF assms(1)])
  with assms(2) show ?thesis by (auto simp: hook_hist_def [of i w] intro: wh.trans)
qed

lemma ensures_keeps_inv:
  assumes "ensures (hook_hist i) hook_inv c (\<lambda>_. hook_inv)" and "hook_hist i w0 w \<and> hook_inv w"
  shows "hook_hist i w0 (snd (run_state c w)) \<and> hook_inv (snd (run_state c w))"
  using assms by (auto simp: ensures_def intro: wh.trans)

lemma hook_runs_hist: "hook_runs i w0 w \<Longrightarrow> hook_inv w0 \<Longrightarrow> hook_hist i w0 w \<and> hook_inv w"
proof (induction rule: hook_runs.induct)
  case (swept w0 w D t)
  then show ?case by (intro ensures_keeps_inv ensures_HookSweep) auto
qed (auto intro!: hist_keeps_inv intro: hist_onHookEvent hist_handleEventStream hist_CreateEndpoint
    hist_UpdateEndpoint hist_DeleteEndpoint hist_SetCursor)

subsection \<open>A small deployment\<close>

definition hook_demo_event :: "int \<Rightarrow> hook_event" where
  "hook_demo_event n = \<lparr>ev_seq = n, ev_category = ''alert'', ev_type_name = ''rmmway.events.alert'',
     ev_device = ''d1'', ev_at = 5, ev_data = ''{}''\<rparr>"

definition hook_demo_endpoint :: endpoint where
  "hook_demo_endpoint = \<lparr>ep_id = 1, ep_name = ''pager'', ep_url = ''u'', ep_secret = ''s'',
     ep_categories = [''alert''], ep_enabled = True, ep_max_attempts = 5, ep_timeout_ms = 5000,
     ep_last_seq = 0, ep_attempts = 0, ep_next_retry_at = 0, ep_status = HookOk, ep_created_at = 0,
     ep_updated_at = 0\<rparr>"

definition hook_demo0 :: hook_world where
  "hook_demo0 = \<lparr>tick = 0, endpoints = [hook_demo_endpoint], endpoint_seq = 2,
     journal = [hook_demo_event 1, hook_demo_event 2], journal_seq = 3, deliveries = [], live = [],
     channels = []\<rparr>"

definition hook_demo_deps :: hook_deps where
  "hook_demo_deps = \<lparr>hk_env = calm 10, hk_marshal_event = (\<lambda>e. Some ''{}''),
     hk_marshal_envelope = (\<lambda>e. Some ''{}''), hk_request = (\<lambda>u. True),
     hk_post = (\<lambda>n u b. Inr 200), hk_store = True\<rparr>"

lemma hook_demo_inv: "hook_inv hook_demo0"
  by (simp add: hook_inv_def hook_demo0_def hook_demo_event_def hook_demo_endpoint_def)

lemma hook_demo_rely: "rely (hook_hist i) (hk_env hook_demo_deps)"
  by (simp add: rely_def hook_demo_deps_def)

subsection \<open>No gaps\<close>

text \<open>
  C4. Deliveries have no gaps: between any two moments over which no operator replays the endpoint
  or changes its categories, every journaled event of the endpoint's categories that its cursor has
  passed was accepted by the receiver with a 2xx answer, unless an event with a larger number had
  become visible before it. This holds under any database faults, lost acknowledgements, concurrent
  sweeps and journaling of other replicas (whose inserts draw their numbers before they commit, in any
  interleaving), and replays and changes of other endpoints. The exception is real: an event that
  commits after a larger number can be passed undelivered (\<open>late_commit_is_lost\<close>).
\<close>

theorem delivered_without_gaps:
  assumes "hook_inv w0" and "hook_runs (ep_id e) w0 w"
    and "e \<in> set (endpoints w0)" and "e' \<in> set (endpoints w)" and "ep_id e' = ep_id e"
    and "v \<in> set (journal w)" and "ev_category v \<in> set (ep_categories e)"
    and "ep_last_seq e < ev_seq v" and "ev_seq v \<le> ep_last_seq e'"
  shows "was_accepted w (ep_id e) (ev_seq v) \<or>
    (\<exists>earlier later. journal w = earlier @ v # later \<and> (\<exists>u\<in>set earlier. ev_seq v < ev_seq u))"
proof -
  have R: "hook_hist (ep_id e) w0 w" using hook_runs_hist [OF assms(2,1)] by simp
  have "ep_id e < endpoint_seq w0" using assms(1,3) by (auto simp: hook_inv_def)
  then obtain e0 where e0: "e0 \<in> set (endpoints w0)" "follows w e0 e'"
    using hist_follows [OF R assms(1,4,5)] by blast
  then have "e0 = e"
    using assms(1,3,5) by (auto simp: hook_inv_def follows_def distinct_map inj_on_def)
  with e0 assms show ?thesis by (fastforce simp: follows_def no_gap_def overtaken_def)
qed

definition hook_demo1 :: hook_world where
  "hook_demo1 = snd (run_state (HookSweep hook_demo_deps 10) hook_demo0)"

lemma hook_demo1_runs: "hook_runs i hook_demo0 hook_demo1"
  unfolding hook_demo1_def by (rule hook_runs.swept [OF hook_runs.start hook_demo_rely])

lemmas hook_eval = HookSweep_def ListEndpoints_def query_def exec_def exec_at_def eligible_def
  sweepEndpoint_def PendingEvents_def pending_rows_def categories_of_def clamp_limit_def Deliver_def
  post_event_def signed_request_def after_delivery_def AdvanceCursor_def advance_stmt_def behind_def
  RecordAttempt_def update_endpoint_stmt_def int32_def Let_def

lemmas hook_demo = hook_demo0_def hook_demo_deps_def hook_demo_endpoint_def hook_demo_event_def

lemma hook_demo1_facts:
  "endpoints hook_demo1 =
     [hook_demo_endpoint\<lparr>ep_last_seq := 1, ep_next_retry_at := 10, ep_updated_at := 10\<rparr>]"
  "journal hook_demo1 = [hook_demo_event 1, hook_demo_event 2]"
  by (simp_all add: hook_demo1_def hook_demo hook_eval)

lemma delivered_without_gaps_witness: "was_accepted hook_demo1 1 1"
proof -
  let ?e = "hook_demo_endpoint\<lparr>ep_last_seq := 1, ep_next_retry_at := 10, ep_updated_at := 10\<rparr>"
  have "was_accepted hook_demo1 (ep_id hook_demo_endpoint) (ev_seq (hook_demo_event 1)) \<or>
    (\<exists>earlier later. journal hook_demo1 = earlier @ hook_demo_event 1 # later \<and>
       (\<exists>u\<in>set earlier. ev_seq (hook_demo_event 1) < ev_seq u))"
    by (rule delivered_without_gaps [OF hook_demo_inv hook_demo1_runs, where e' = ?e])
      (simp_all add: hook_demo1_facts, simp_all add: hook_demo)
  moreover have "earlier = []"
    if "[hook_demo_event 1, hook_demo_event 2] = earlier @ hook_demo_event 1 # later" for earlier later
    using that by (cases earlier; cases "tl earlier") (auto simp: hook_demo_event_def)
  ultimately show ?thesis by (fastforce simp: hook_demo1_facts hook_demo)
qed

subsection \<open>Every pending event is delivered\<close>

text \<open>A computation leaves the journal and the row of endpoint \<open>i\<close> as they are, and only adds deliveries.\<close>

definition same_row :: "int \<Rightarrow> hook_world \<Rightarrow> hook_world \<Rightarrow> bool" where
  "same_row i w w' \<longleftrightarrow> journal w' = journal w \<and> extends (deliveries w) (deliveries w') \<and>
     find (\<lambda>e. ep_id e = i) (endpoints w') = find (\<lambda>e. ep_id e = i) (endpoints w)"

interpretation sr: history "same_row i" for i :: int
  by unfold_locales (auto simp: same_row_def intro: extends_trans)

lemma same_row_update:
  "j \<noteq> i \<Longrightarrow> (\<And>e. P e \<Longrightarrow> ep_id e = j) \<Longrightarrow> (\<And>e. ep_id (f e) = ep_id e) \<Longrightarrow>
   same_row i w (w\<lparr>endpoints := update_where P f (endpoints w)\<rparr>)"
  by (cases "find (\<lambda>e. ep_id e = i) (endpoints w)")
    (auto simp: same_row_def find_update_where dest: find_SomeD)

lemma calm_rely: "rely (same_row i) (calm t)"
  by (simp add: rely_def same_row_def)

lemma same_row_after_delivery:
  assumes "hk_env D = calm u" and "ep_id ep \<noteq> i"
  shows "guarantees (same_row i) (after_delivery D t ep ev ok)"
proof -
  have "guarantees (same_row i) (exec_at (calm u) (advance_stmt (ep_id ep) n))" for n
    unfolding exec_at_def
    by (rule sr.exec [OF calm_rely]) (simp add: advance_stmt_def, rule same_row_update [OF assms(2)], simp_all add: behind_def)
  moreover have "guarantees (same_row i) (exec_at (calm u) (\<lambda>t w. if b then update_endpoint_stmt (ep_id ep) (f t) w else (Inl EDb, w)))"
    if "\<And>t e. ep_id (f t e) = ep_id e" for f b
    unfolding exec_at_def
    by (rule sr.exec [OF calm_rely]) (simp add: update_endpoint_stmt_def same_row_update [OF assms(2)] that)
  ultimately show ?thesis
    unfolding after_delivery_def AdvanceCursor_def RecordAttempt_def assms(1) Let_def
    by (intro guarantees_if sr.bind sr.return) simp_all
qed

lemma same_row_sweepEndpoint:
  assumes "hk_env D = calm u" and "ep_id ep \<noteq> i"
  shows "guarantees (same_row i) (sweepEndpoint D t ep)"
proof -
  have "guarantees (same_row i) (post_event D ep ev body u)" for ev body u
    by (rule guaranteesI) (simp add: post_event_def Let_def same_row_def)
  then have "guarantees (same_row i) (Deliver D ep ev)" for ev
    unfolding Deliver_def by (intro guarantees_option guarantees_if sr.bind sr.return sr.now)
  then show ?thesis
    unfolding sweepEndpoint_def PendingEvents_def assms(1)
    by (intro sr.bind sr.query calm_rely)
      (auto split: sum.split list.split intro!: sr.return sr.bind same_row_after_delivery assms)
qed

lemma same_row_sweep_all:
  assumes "hk_env D = calm u" and "\<forall>ep\<in>set eps. ep_id ep \<noteq> i"
  shows "guarantees (same_row i) (sweep_all D t eps)"
  using assms(2)
proof (induction eps)
  case (Cons ep eps)
  then show ?case
    unfolding sweep_all.simps
    by (intro sr.bind guarantees_if sr.return same_row_sweepEndpoint [OF assms(1)]) simp_all
qed (simp add: sr.return)

text \<open>A receiver that answers every request of an endpoint with a 2xx.\<close>

definition accepting :: "hook_deps \<Rightarrow> endpoint \<Rightarrow> bool" where
  "accepting D ep \<longleftrightarrow> hk_store D \<and> hk_request D (ep_url ep) \<and> (\<forall>e. hk_marshal_envelope D e \<noteq> None) \<and>
     (\<forall>n body. \<exists>code. hk_post D n (ep_url ep) body = Inr code \<and> 200 \<le> code \<and> code < 300)"

definition delivered_row :: "endpoint \<Rightarrow> int \<Rightarrow> time \<Rightarrow> endpoint \<Rightarrow> bool" where
  "delivered_row ep n t ep' \<longleftrightarrow> ep' = ep\<lparr>ep_last_seq := n, ep_attempts := 0, ep_next_retry_at := t,
     ep_status := HookOk, ep_updated_at := ep_updated_at ep'\<rparr>"

lemma accepted_Deliver:
  assumes "hk_env D = calm u" and "accepting D ep"
  shows "fst (run_state (Deliver D ep ev) w)"
    and "endpoints (snd (run_state (Deliver D ep ev) w)) = endpoints w"
    and "journal (snd (run_state (Deliver D ep ev) w)) = journal w"
proof -
  obtain body where body: "hk_marshal_envelope D (Envelope ev) = Some body"
    using assms(2) by (metis accepting_def not_None_eq)
  obtain code where "hk_post D (Suc (tick w)) (ep_url ep) body = Inr code" "200 \<le> code" "code < 300"
    using assms(2) unfolding accepting_def by blast
  with assms body show "fst (run_state (Deliver D ep ev) w)"
    and "endpoints (snd (run_state (Deliver D ep ev) w)) = endpoints w"
    and "journal (snd (run_state (Deliver D ep ev) w)) = journal w"
    by (simp_all add: Deliver_def post_event_def Let_def accepting_def)
qed

lemma sweepEndpoint_delivers:
  assumes "hk_env D = calm u" and "accepting D ep"
    and "find (\<lambda>e. ep_id e = ep_id ep) (endpoints w) = Some ep"
    and "pending_rows w (ep_id ep) (ep_last_seq ep) = ev # rest" and "ep_last_seq ep < ev_seq ev"
  shows "journal (snd (run_state (sweepEndpoint D t ep) w)) = journal w \<and>
    was_accepted (snd (run_state (sweepEndpoint D t ep) w)) (ep_id ep) (ev_seq ev) \<and>
    (\<exists>ep'. find (\<lambda>e. ep_id e = ep_id ep) (endpoints (snd (run_state (sweepEndpoint D t ep) w))) = Some ep' \<and>
       delivered_row ep (ev_seq ev) t ep')"
proof -
  let ?v = "w\<lparr>tick := Suc (tick w)\<rparr>"
  let ?w = "snd (run_state (Deliver D ep ev) ?v)"
  have row: "find (\<lambda>e. ep_id e = ep_id ep) (endpoints ?w) = Some ep"
    using accepted_Deliver(2) [OF assms(1,2), of ev ?v] assms(3) by simp
  have "pending_rows ?v (ep_id ep) (ep_last_seq ep) = ev # rest"
    using assms(4) by (simp add: pending_rows_def categories_of_def)
  then have "run_state (sweepEndpoint D t ep) w = run_state (after_delivery D t ep ev True) ?w"
    using accepted_Deliver(1) [OF assms(1,2), of ev ?v]
    by (simp add: sweepEndpoint_def PendingEvents_def query_def clamp_limit_def assms(1))
  moreover have "journal ?w = journal w" using accepted_Deliver(3) [OF assms(1,2), of ev ?v] by simp
  moreover have "was_accepted ?w (ep_id ep) (ev_seq ev)"
    by (rule Deliver_accepted [OF accepted_Deliver(1) [OF assms(1,2)]])
  ultimately show ?thesis
    using row assms(5)
    by (simp add: after_delivery_def AdvanceCursor_def RecordAttempt_def exec_at_def exec_def assms(1)
        advance_stmt_def update_endpoint_stmt_def int32_def find_update_where behind_def delivered_row_def
        was_accepted_def)
qed

lemma sweep_all_append:
  "snd (run_state (sweep_all D t (as @ bs)) w) = snd (run_state (sweep_all D t bs) (snd (run_state (sweep_all D t as) w)))"
  by (induction as arbitrary: w) simp_all

lemma HookSweep_delivers:
  assumes "hook_inv w" and "hk_env D = calm u" and "accepting D ep" and "eligible t ep"
    and "ep \<in> set (endpoints w)" and "pending_rows w (ep_id ep) (ep_last_seq ep) = ev # rest"
  shows "journal (snd (run_state (HookSweep D t) w)) = journal w \<and>
    was_accepted (snd (run_state (HookSweep D t) w)) (ep_id ep) (ev_seq ev) \<and>
    (\<exists>ep'. find (\<lambda>e. ep_id e = ep_id ep) (endpoints (snd (run_state (HookSweep D t) w))) = Some ep' \<and>
       delivered_row ep (ev_seq ev) t ep')"
proof -
  let ?w0 = "w\<lparr>tick := Suc (tick w)\<rparr>" and ?i = "ep_id ep"
  have dist: "distinct (map ep_id (endpoints w))" using assms(1) by (simp add: hook_inv_def)
  obtain as bs where eps: "sort_key ep_id (endpoints w) = as @ ep # bs"
    using assms(5) by (metis set_sort split_list)
  have "distinct (map ep_id (as @ ep # bs))"
    unfolding eps [symmetric] using dist by (simp add: distinct_map)
  then have ids: "\<forall>x\<in>set as. ep_id x \<noteq> ?i" "\<forall>x\<in>set bs. ep_id x \<noteq> ?i" by (fastforce simp: image_iff)+
  let ?w1 = "snd (run_state (sweep_all D t as) ?w0)"
  let ?w2 = "snd (run_state (sweepEndpoint D t ep) ?w1)"
  let ?w3 = "snd (run_state (sweep_all D t bs) ?w2)"
  have "snd (run_state (HookSweep D t) w) = snd (run_state (sweep_all D t (as @ ep # bs)) ?w0)"
    using assms(3) by (simp add: HookSweep_def ListEndpoints_def query_def assms(2) eps accepting_def)
  also have "\<dots> = ?w3" using assms(4) by (simp add: sweep_all_append)
  finally have sweep: "snd (run_state (HookSweep D t) w) = ?w3" .
  have a: "same_row ?i ?w0 ?w1" by (rule guaranteesD [OF same_row_sweep_all [OF assms(2) ids(1)]])
  have b: "same_row ?i ?w2 ?w3" by (rule guaranteesD [OF same_row_sweep_all [OF assms(2) ids(2)]])
  have row: "find (\<lambda>e. ep_id e = ?i) (endpoints ?w1) = Some ep"
    using a find_distinct_key [OF dist assms(5)] by (simp add: same_row_def)
  then have "pending_rows ?w1 ?i (ep_last_seq ep) = ev # rest"
    using a assms(6) by (simp add: pending_rows_def categories_of_def same_row_def)
  moreover from assms(6) have "ev \<in> set (pending_rows w ?i (ep_last_seq ep))" by simp
  then have "ep_last_seq ep < ev_seq ev" by (simp add: pending_rows_def)
  ultimately have "journal ?w2 = journal ?w1 \<and>
      was_accepted ?w2 ?i (ev_seq ev) \<and>
      (\<exists>ep'. find (\<lambda>e. ep_id e = ?i) (endpoints ?w2) = Some ep' \<and> delivered_row ep (ev_seq ev) t ep')"
    by (intro sweepEndpoint_delivers [OF assms(2,3) row])
  with a b show ?thesis by (auto simp: sweep same_row_def intro: was_accepted_grows)
qed

lemma pending_rest:
  assumes "hook_inv w" and "pending_rows w i n = ev # rest" and "journal w' = journal w"
    and "categories_of w' i = categories_of w i"
  shows "pending_rows w' i (ev_seq ev) = rest"
proof -
  let ?P = "\<lambda>e. n < ev_seq e \<and> ev_category e \<in> set (categories_of w i)"
  let ?J = "sort_key ev_seq (journal w)"
  have key: "sort_key ev_seq (filter Q (journal w)) = filter Q ?J" for Q
    by (simp add: filter_sort)
  have p: "filter ?P ?J = ev # rest" using assms(2) by (simp add: pending_rows_def key)
  have "distinct (map ev_seq ?J)"
    using assms(1) by (simp add: hook_inv_def distinct_map)
  then have "sorted (map ev_seq (ev # rest))" and "distinct (map ev_seq (ev # rest))"
    unfolding p [symmetric] by (simp_all add: sorted_filter distinct_map_filter)
  then have later: "\<forall>v\<in>set rest. ev_seq ev < ev_seq v" by (fastforce simp: image_iff)
  have "n < ev_seq ev" using arg_cong [OF p, of set] by auto
  then have "filter (\<lambda>e. ev_seq ev < ev_seq e \<and> ev_category e \<in> set (categories_of w i)) ?J =
      filter (\<lambda>e. ev_seq ev < ev_seq e) (filter ?P ?J)"
    by (auto intro: filter_cong)
  also have "\<dots> = rest" using later by (simp add: p)
  finally show ?thesis unfolding pending_rows_def assms(3,4) key .
qed

abbreviation sweeps :: "hook_deps \<Rightarrow> time \<Rightarrow> nat \<Rightarrow> hook_world \<Rightarrow> hook_world" where
  "sweeps D t k w \<equiv> ((\<lambda>w. snd (run_state (HookSweep D t) w)) ^^ k) w"

lemma sweeps_hist:
  assumes "hk_env D = calm u" and "hook_inv w"
  shows "hook_hist i w (sweeps D t k w) \<and> hook_inv (sweeps D t k w)"
proof (induction k)
  case (Suc k)
  have "rely (hook_hist i) (hk_env D)" by (simp add: rely_def assms(1))
  then show ?case
    using ensures_keeps_inv [OF ensures_HookSweep Suc, of D t] by simp
qed (simp add: assms(2))

lemma sweeps_drain:
  assumes "hook_inv w" and "hk_env D = calm u" and "accepting D ep" and "eligible t ep"
    and "ep \<in> set (endpoints w)" and "length (pending_rows w (ep_id ep) (ep_last_seq ep)) = k"
  shows "(\<forall>v\<in>set (pending_rows w (ep_id ep) (ep_last_seq ep)). was_accepted (sweeps D t k w) (ep_id ep) (ev_seq v)) \<and>
    (\<exists>ep'\<in>set (endpoints (sweeps D t k w)).
    ep_id ep' = ep_id ep \<and> pending_rows (sweeps D t k w) (ep_id ep) (ep_last_seq ep') = [])"
  using assms
proof (induction k arbitrary: w ep)
  case 0
  then show ?case by auto
next
  case (Suc k)
  let ?w = "snd (run_state (HookSweep D t) w)"
  obtain ev rest where p: "pending_rows w (ep_id ep) (ep_last_seq ep) = ev # rest"
    using Suc.prems(6) by (cases "pending_rows w (ep_id ep) (ep_last_seq ep)") auto
  obtain ep' where j: "journal ?w = journal w" and acc: "was_accepted ?w (ep_id ep) (ev_seq ev)"
    and row: "find (\<lambda>e. ep_id e = ep_id ep) (endpoints ?w) = Some ep'" "delivered_row ep (ev_seq ev) t ep'"
    using HookSweep_delivers [OF Suc.prems(1-5) p] by blast
  have ep': "ep_id ep' = ep_id ep" "ep_last_seq ep' = ev_seq ev" "accepting D ep'" "eligible t ep'"
    "ep_categories ep' = ep_categories ep"
    using row(2) Suc.prems(3,4) by (cases ep'; simp add: delivered_row_def accepting_def eligible_def)+
  have inv: "hook_inv ?w" using sweeps_hist [OF Suc.prems(2,1), where k = 1 and t = t] by simp
  have "find (\<lambda>e. ep_id e = ep_id ep) (endpoints w) = Some ep"
    using Suc.prems(1,5) find_distinct_key [of ep_id "endpoints w" ep] by (simp add: hook_inv_def)
  then have "categories_of ?w (ep_id ep) = categories_of w (ep_id ep)"
    using row(1) ep'(5) by (simp add: categories_of_def)
  then have "pending_rows ?w (ep_id ep') (ep_last_seq ep') = rest"
    using pending_rest [OF Suc.prems(1) p j] ep' by simp
  moreover have "ep' \<in> set (endpoints ?w)" using row(1) by (auto dest: find_SomeD)
  moreover have "was_accepted (sweeps D t k ?w) (ep_id ep) (ev_seq ev)"
    using sweeps_hist [OF Suc.prems(2) inv] acc by (auto simp: hook_hist_def intro: was_accepted_grows)
  ultimately show ?case
    using Suc.IH [OF inv Suc.prems(2) ep'(3,4)] Suc.prems(6) p ep'(1)
    by (simp add: funpow_swap1 funpow_Suc_right del: funpow.simps)
qed

text \<open>
  C23. A healthy receiver gets everything: once an enabled endpoint is past its backoff and its receiver
  answers 2xx, as many sweeps as it has pending events deliver all of them, in whatever order the
  events became visible and whatever the other endpoints of the fleet answer, and leave nothing pending.
\<close>

theorem sweeps_deliver_all:
  assumes "hook_inv w" and "hk_env D = calm u" and "accepting D ep" and "eligible t ep"
    and "ep \<in> set (endpoints w)"
  defines "w' \<equiv> sweeps D t (length (pending_rows w (ep_id ep) (ep_last_seq ep))) w"
  shows "(\<forall>v\<in>set (pending_rows w (ep_id ep) (ep_last_seq ep)). was_accepted w' (ep_id ep) (ev_seq v)) \<and>
    (\<exists>ep'\<in>set (endpoints w'). ep_id ep' = ep_id ep \<and> pending_rows w' (ep_id ep) (ep_last_seq ep') = [])"
  using sweeps_drain [OF assms(1-5) HOL.refl] unfolding w'_def by blast

lemma sweeps_deliver_all_witness: "was_accepted (sweeps hook_demo_deps 10 2 hook_demo0) 1 2"
proof -
  have calm: "hk_env hook_demo_deps = calm 10" by (simp add: hook_demo_deps_def)
  have acc: "accepting hook_demo_deps hook_demo_endpoint" by (simp add: accepting_def hook_demo_deps_def)
  have el: "eligible 10 hook_demo_endpoint" by (simp add: eligible_def hook_demo_endpoint_def)
  have mem: "hook_demo_endpoint \<in> set (endpoints hook_demo0)" by (simp add: hook_demo0_def)
  have p: "pending_rows hook_demo0 1 0 = [hook_demo_event 1, hook_demo_event 2]"
    by (simp add: pending_rows_def categories_of_def hook_demo)
  have i: "ep_id hook_demo_endpoint = 1" "ep_last_seq hook_demo_endpoint = 0" "ev_seq (hook_demo_event 2) = 2"
    by (simp_all add: hook_demo_endpoint_def hook_demo_event_def)
  show ?thesis
    using sweeps_deliver_all [OF hook_demo_inv calm acc el mem] unfolding i p
    by (simp add: i numeral_2_eq_2)
qed

subsection \<open>What interference can lose\<close>

definition commit_late :: "hook_event \<Rightarrow> hook_world \<Rightarrow> hook_world" where
  "commit_late v w =
     snd (append_event_stmt (ev_seq v) (ev_category v) (ev_type_name v) (ev_device v) (ev_at v) (ev_data v) w)"

text \<open>
  The cursor trusts that sequence numbers become visible in order. They are allocated before the
  insert commits: when the insert that drew the number 1 commits only after a sweep has delivered the
  event 2, the event is in the journal and matches, but is behind the cursor, undelivered, and no
  longer pending.
\<close>

theorem late_commit_is_lost:
  "\<exists>w E. hook_inv w \<and> E = (calm 10)\<lparr>others := (\<lambda>n v. if n = 4 then commit_late (hook_demo_event 1) v else v)\<rparr> \<and>
     (let w' = snd (run_state (HookSweep (hook_demo_deps\<lparr>hk_env := E\<rparr>) 10) w) in
      hook_demo_event 1 \<in> set (journal w') \<and> \<not> was_accepted w' 1 1 \<and>
      map ep_categories (endpoints w') = [[ev_category (hook_demo_event 1)]] \<and>
      map ep_last_seq (endpoints w') = [2] \<and> pending_rows w' 1 2 = [])"
proof (intro exI conjI)
  show "hook_inv (hook_demo0\<lparr>journal := [hook_demo_event 2]\<rparr>)"
    by (simp add: hook_inv_def hook_demo)
qed (rule HOL.refl, simp add: commit_late_def append_event_stmt_def hook_demo hook_eval was_accepted_def FormatInt_def dec_digits.simps digit_char_def)

text \<open>
  A replay can be lost to a running sweep: the operator's reset of the cursor to 0 takes effect
  while a delivery of event 2 is on its way, and the sweep's conditional update then moves the cursor
  from 0 straight to 2. Event 1 is sent once, before the replay, and never again, although the replay
  was answered with success.
\<close>

theorem replay_is_lost:
  "\<exists>E. E = (calm 10)\<lparr>others := (\<lambda>n v. if n = 10 then snd (set_cursor_stmt 1 0 10 v) else v)\<rparr> \<and>
     (let w' = snd (run_state (HookSweep (hook_demo_deps\<lparr>hk_env := E\<rparr>) 10) hook_demo1) in
      map ep_last_seq (endpoints w') = [2] \<and> pending_rows w' 1 2 = [] \<and>
      map del_id (deliveries w') = [FormatInt 1, FormatInt 2])"
  by (intro exI conjI, rule HOL.refl)
    (simp add: hook_demo1_def hook_demo hook_eval set_cursor_stmt_def)

definition hook_demo_bus :: event where
  "hook_demo_bus = \<lparr>e_type = SubjectStep, e_flow = 0, e_run = 1, e_node = ''n'', e_device = [],
     e_source = [], e_value = None, e_command = [], e_status = [], e_message = [], e_at = 5\<rparr>"

text \<open>
  The fan-out can crash the process: the subscribers are collected under the lock and sent to after
  it is released, so a client that disconnects in between closes its channel and the send panics. The
  same event without that interference is handled.
\<close>

theorem broadcast_panics:
  "\<exists>E w. E = (calm 10)\<lparr>others := (\<lambda>n v. if n = 2 then cancel_live 0 v else v)\<rparr> \<and>
     w = snd (run_state (AddLive []) hook_demo0) \<and>
     fst (run_state (onHookEvent (hook_demo_deps\<lparr>hk_env := E\<rparr>) ''s'' (Some hook_demo_bus)) w) = Panicked \<and>
     fst (run_state (onHookEvent hook_demo_deps ''s'' (Some hook_demo_bus)) w) = Acked"
  by (intro exI conjI, rule HOL.refl, rule HOL.refl)
    (simp_all add: hook_demo onHookEvent_def AppendEvent_def next_seq_stmt_def append_event_stmt_def exec_def broadcast_def
      preempt_def AddLive_def AddLiveFilter_def cancel_live_def send_event_def matches_def Let_def
      hook_demo_bus_def zero_time_def second_def)

subsection \<open>The backoff\<close>

lemma wrap64_cong: "x mod 2 ^ 64 = y mod 2 ^ 64 \<Longrightarrow> wrap64 x = wrap64 y"
  unfolding wrap64_def by (rule arg_cong [OF mod_add_cong [OF _ HOL.refl]])

lemma wrap64_mod: "wrap64 x mod 2 ^ 64 = x mod 2 ^ 64"
proof -
  have "wrap64 x mod 2 ^ 64 = (x + 2 ^ 63 - 2 ^ 63) mod 2 ^ 64"
    unfolding wrap64_def by (rule mod_diff_left_eq)
  then show ?thesis by simp
qed

lemma wrap64_mult: "wrap64 (a * wrap64 b) = wrap64 (a * b)"
  by (rule wrap64_cong, rule mod_mult_cong [OF HOL.refl wrap64_mod])

lemma backoff_unwrapped:
  "backoffFor attempts = (let d = wrap64 (second * 2 ^ nat (max 1 attempts - 1)) in min d (5 * minute))"
  by (auto simp: backoffFor_def Let_def wrap64_mult max_def min_def)

text \<open>
  C35. The retry backoff: up to 34 attempts it is one second doubled per attempt and capped at five
  minutes. From there the 64-bit multiplication wraps around: the 35th backoff is negative (the
  endpoint is retried at once), and from the 56th on it is zero.
\<close>

theorem backoff_bounds:
  "(attempts \<le> 34 \<longrightarrow> backoffFor attempts = min (second * 2 ^ nat (max 1 attempts - 1)) (5 * minute)) \<and>
   (attempts = 35 \<longrightarrow> backoffFor attempts < 0) \<and> (56 \<le> attempts \<longrightarrow> backoffFor attempts = 0)"
proof (intro conjI impI)
  assume "attempts \<le> 34"
  then have "nat (max 1 attempts - 1) \<le> 33" by simp
  then have "(2 :: int) ^ nat (max 1 attempts - 1) \<le> 2 ^ 33" by (intro power_increasing) simp_all
  moreover have "int64 (second * x)" if "0 \<le> x" "x \<le> 2 ^ 33" for x
    using that by (simp add: int64_def second_def)
  ultimately have "int64 (second * 2 ^ nat (max 1 attempts - 1))" by simp
  then show "backoffFor attempts = min (second * 2 ^ nat (max 1 attempts - 1)) (5 * minute)"
    by (simp add: backoff_unwrapped Let_def wrap64_id)
next
  assume "attempts = 35"
  then show "backoffFor attempts < 0"
    by (simp add: backoff_unwrapped wrap64_def second_def minute_def)
next
  assume "56 \<le> attempts"
  then have "55 \<le> nat (max 1 attempts - 1)" by linarith
  then obtain k where "nat (max 1 attempts - 1) = 55 + k" using le_Suc_ex by blast
  then have "second * 2 ^ nat (max 1 attempts - 1) = 2 ^ 64 * (1953125 * 2 ^ k)"
    by (simp only: second_def power_add) simp
  moreover have "(2 ^ 64 * x + 2 ^ 63) mod 2 ^ 64 = (2 :: int) ^ 63" for x by simp
  ultimately have "wrap64 (second * 2 ^ nat (max 1 attempts - 1)) = 0" by (simp only: wrap64_def diff_self)
  then show "backoffFor attempts = 0" by (simp add: backoff_unwrapped minute_def second_def)
qed

lemma backoff_bounds_witness: "backoffFor 10 = 5 * minute \<and> backoffFor 35 < 0 \<and> backoffFor 60 = 0"
  using backoff_bounds [of 10] backoff_bounds [of 35] backoff_bounds [of 60]
  by (simp add: minute_def second_def)

subsection \<open>The live stream\<close>

definition frames_ok :: "int \<Rightarrow> int \<times> frame list \<Rightarrow> bool" where
  "frames_ok n s \<longleftrightarrow> sorted_wrt (<) (n # map fst (snd s)) \<and> (\<forall>x\<in>set (n # map fst (snd s)). x \<le> fst s)"

lemma writeSSE_ok:
  assumes "frames_ok n s"
  shows "frames_ok n (writeSSE D s ev)"
proof (cases "ev_seq ev \<le> fst s")
  case True
  with assms show ?thesis by (simp add: writeSSE_def split_beta)
next
  case False
  with assms have "\<forall>x\<in>set (n # map fst (snd s)). x < ev_seq ev" by (auto simp: frames_ok_def)
  with assms False show ?thesis
    by (auto simp: frames_ok_def writeSSE_def split_beta sorted_wrt_append)
qed

lemma writeSSE_all_ok: "frames_ok n s \<Longrightarrow> frames_ok n (foldl (writeSSE D) s evs)"
  by (induction evs arbitrary: s) (simp_all add: writeSSE_ok)

lemma stream_loop_ok: "frames_ok n s \<Longrightarrow> frames_ok n (fst (run_state (stream_loop D c is s) w))"
proof (induction "is" arbitrary: s w)
  case (Cons i "is")
  then show ?case by (cases i) (simp_all add: preempt_def writeSSE_ok split: option.split)
qed simp

lemma first_sent_after: "after_param lid \<le> fst (run_state (first_sent D lid) w)"
  by (auto simp: first_sent_def Let_def split: sum.split)

text \<open>
  A live stream never repeats or reorders: the frames a client receives on one connection carry
  strictly increasing sequence numbers, all larger than the resume point it named, whatever arrives on
  the channel and however the catch-up query and the live events overlap.
\<close>

theorem stream_ids_increase:
  assumes "fst (run_state (handleEventStream A flusher flq lid is) w) = Streamed frames"
  shows "sorted_wrt (<) (after_param lid # map fst frames)"
proof -
  obtain D c evs w1 w2 where "frames =
      snd (fst (run_state (stream_loop D c is (foldl (writeSSE D) (fst (run_state (first_sent D lid) w1), []) evs)) w2))"
    using assms by (auto simp: handleEventStream_def split: option.splits if_splits)
  moreover define n where "n = fst (run_state (first_sent D lid) w1)"
  ultimately have "frames_ok n (n, [])" and
    "frames = snd (fst (run_state (stream_loop D c is (foldl (writeSSE D) (n, []) evs)) w2))"
    by (simp_all add: frames_ok_def)
  then have "sorted_wrt (<) (n # map fst frames)"
    using stream_loop_ok [OF writeSSE_all_ok [of n "(n, [])" D evs]] unfolding frames_ok_def by metis
  moreover have "after_param lid \<le> n" unfolding n_def by (rule first_sent_after)
  ultimately show ?thesis by fastforce
qed

definition hook_demo_api :: hook_api where
  "hook_demo_api = \<lparr>ha_deps = hook_demo_deps, ha_parse_url = (\<lambda>u. None)\<rparr>"

definition any_event :: hook_filter where
  "any_event = \<lparr>flt_category = [], flt_device = [], flt_type = []\<rparr>"

lemma demo_stream:
  "fst (run_state (handleEventStream (Some hook_demo_api) True (Some any_event) ''1'' [Recv, Done]) hook_demo0) =
     Streamed [(2, ''{}'')]"
  by (simp add: handleEventStream_def hook_demo_api_def any_event_def hook_demo AddLiveFilter_def first_sent_def
      after_param_def ParseInt64_def dec_val_def is_digit_def EventsAfterFilter_def query_def clamp_limit_def
      filter_clause_def writeSSE_def preempt_def receive_def Let_def)

lemma stream_ids_increase_witness: "sorted_wrt (<) (after_param ''1'' # map fst [(2 :: int, ''{}'')])"
  by (rule stream_ids_increase [OF demo_stream])

lemma writeSSE_increasing:
  assumes "sorted_wrt (<) (n # map ev_seq evs)" and "\<And>e. hk_marshal_envelope D e = Some b"
  shows "foldl (writeSSE D) (n, out) evs = (last (n # map ev_seq evs), out @ map (\<lambda>e. (ev_seq e, b)) evs)"
  using assms(1)
proof (induction evs arbitrary: n out)
  case (Cons e evs)
  then show ?case by (simp add: writeSSE_def assms(2))
qed simp

definition backlog_demo :: "int \<Rightarrow> hook_world" where
  "backlog_demo m = hook_demo0\<lparr>journal := map hook_demo_event [1..m], journal_seq := m + 1\<rparr>"

lemma backlog_rows:
  assumes "1 \<le> m"
  shows "sort_key ev_seq (filter (filter_clause 1 any_event) (map hook_demo_event [1..m])) = map hook_demo_event [2..m]"
proof -
  have "[1..m] = 1 # [2..m]" using assms upto_rec1 [of 1 m] by simp
  then have "filter (filter_clause 1 any_event) (map hook_demo_event [1..m]) = map hook_demo_event [2..m]"
    by (simp add: filter_map o_def filter_clause_def any_event_def hook_demo_event_def filter_id_conv)
  moreover have "sort_key ev_seq (map hook_demo_event [2..m]) = map hook_demo_event [2..m]"
    by (rule sort_key_id_if_sorted) (simp add: o_def hook_demo_event_def)
  ultimately show ?thesis by simp
qed

definition backlog_env :: "hook_world env" where
  "backlog_env = (calm 10)\<lparr>others := (\<lambda>n v. if n = 1
     then snd (run_state (onHookEvent hook_demo_deps ''rmmway.events.alert'' (Some hook_demo_bus)) v) else v)\<rparr>"

definition backlog_api :: "hook_world env \<Rightarrow> hook_api" where
  "backlog_api E = hook_demo_api\<lparr>ha_deps := hook_demo_deps\<lparr>hk_env := E\<rparr>\<rparr>"

definition live_demo_event :: "int \<Rightarrow> hook_event" where
  "live_demo_event n = \<lparr>ev_seq = n, ev_category = ''alert'', ev_type_name = ''rmmway.events.flow.step'',
     ev_device = [], ev_at = 5, ev_data = ''{}''\<rparr>"

lemma backlog_stream:
  assumes "201 < m"
  shows "fst (run_state (handleEventStream (Some (backlog_api backlog_env)) True (Some any_event) ''1'' [Recv, Done]) (backlog_demo m)) =
    Streamed (map (\<lambda>n. (n, ''{}'')) (take 200 [2..m] @ [m + 1]))"
proof -
  let ?D = "hook_demo_deps\<lparr>hk_env := backlog_env\<rparr>"
  have "sorted_wrt (<) (1 # map ev_seq (take 200 (map hook_demo_event [2..m])))"
    by (auto simp: hook_demo_event_def o_def simp flip: take_map dest: in_set_takeD intro: sorted_wrt_take)
  then have catch_up: "foldl (writeSSE ?D) (1, []) (take 200 (map hook_demo_event [2..m])) =
      (last (1 # take 200 [2..m]), map (\<lambda>n. (n, ''{}'')) (take 200 [2..m]))"
    by (subst writeSSE_increasing [where b = "''{}''"])
      (simp_all add: hook_demo_deps_def hook_demo_event_def take_map o_def)
  have "set (1 # take 200 [2..m]) \<subseteq> {..m}" using assms by (auto dest: in_set_takeD)
  then have "last (1 # take 200 [2..m]) \<le> m" using last_in_set [of "1 # take 200 [2..m]"] by blast
  then have live: "writeSSE ?D (last (1 # take 200 [2..m]), out) (live_demo_event (m + 1)) = (m + 1, out @ [(m + 1, ''{}'')])" for out
    by (simp add: writeSSE_def live_demo_event_def hook_demo_deps_def)
  have rows: "sort_key ev_seq (filter (filter_clause 1 any_event) (map hook_demo_event [1..m])) = map hook_demo_event [2..m]"
    using assms by (intro backlog_rows) simp
  let ?w = "(backlog_demo m)\<lparr>tick := 1, live := [(0, any_event)],
     channels := [\<lparr>ch_id = 0, ch_closed = False, ch_buffer = []\<rparr>]\<rparr>"
  have arrives: "channels (snd (run_state (onHookEvent hook_demo_deps ''rmmway.events.alert'' (Some hook_demo_bus)) ?w)) =
      [\<lparr>ch_id = 0, ch_closed = False, ch_buffer = [live_demo_event (m + 1)]\<rparr>]"
    by (simp add: onHookEvent_def hook_demo AppendEvent_def next_seq_stmt_def append_event_stmt_def exec_def broadcast_def preempt_def
      send_event_def matches_def any_event_def Let_def hook_demo_bus_def zero_time_def second_def
      backlog_demo_def live_demo_event_def CategoryForSubject_def subject_text_def image_image)
  have "after_param ''1'' = 1" by (simp add: after_param_def ParseInt64_def dec_val_def is_digit_def Let_def)
  then have "run_state (first_sent ?D ''1'') v = (1, v)" for v by (simp add: first_sent_def)
  then show ?thesis
    using catch_up live rows arrives
    by (simp add: handleEventStream_def backlog_api_def hook_demo_api_def AddLiveFilter_def EventsAfterFilter_def
      query_def clamp_limit_def preempt_def receive_def backlog_env_def backlog_demo_def hook_demo0_def Let_def)
qed

text \<open>
  A resumed stream skips a backlog of more than 200 for good: a client that resumes after event 1 of
  a journal of \<open>m\<close> matching events gets the first 200 of the rest and then the next live event
  \<open>m + 1\<close>, which moves its resume point past all the others: nothing of the journal is left after it.
\<close>

theorem backlog_is_skipped:
  assumes "201 < m"
  shows "fst (run_state (handleEventStream (Some (backlog_api backlog_env)) True (Some any_event) ''1'' [Recv, Done]) (backlog_demo m)) =
      Streamed (map (\<lambda>n. (n, ''{}'')) (take 200 [2..m] @ [m + 1])) \<and>
    filter (filter_clause (m + 1) any_event) (journal (backlog_demo m)) = []"
  using backlog_stream [OF assms]
  by (auto simp: backlog_demo_def filter_clause_def hook_demo_event_def filter_empty_conv)

lemma backlog_is_skipped_witness:
  "fst (run_state (handleEventStream (Some (backlog_api backlog_env)) True (Some any_event) ''1'' [Recv, Done]) (backlog_demo 300)) =
      Streamed (map (\<lambda>n. (n, ''{}'')) (take 200 [2..300] @ [300 + 1]))"
  by (rule conjunct1 [OF backlog_is_skipped]) simp

subsection \<open>The cursor is a conditional hop\<close>

text \<open>
  \<^verbatim>\<open>AdvanceCursor\<close> meets the interface of a conditional update: repeating it, as a retried or
  concurrent sweep does, has the effect of doing it once.
\<close>

interpretation cursor: conditional_hop
  "\<lambda>(i, n) (u :: unit) w. affected (behind i n) (endpoints w) \<noteq> 0" "\<lambda>_ _. True"
  "\<lambda>(i, n) u w. (affected (behind i n) (endpoints w) \<noteq> 0, snd (advance_stmt i n t w))" for t :: time
proof
  fix i :: "int \<times> int" and u :: unit and w :: hook_world
  obtain j n where i: "i = (j, n)" by (cases i)
  have gone: "affected (behind j n) (update_where (behind j n) (\<lambda>e. e\<lparr>ep_last_seq := n, ep_updated_at := t\<rparr>) rows) = 0" for rows
    by (rule update_where_again) (simp add: behind_def)
  show "fst ((\<lambda>(i, n) u w. (affected (behind i n) (endpoints w) \<noteq> 0, snd (advance_stmt i n t w))) i u w) =
      (\<lambda>(i, n) u w. affected (behind i n) (endpoints w) \<noteq> 0) i u w"
    by (simp add: i)
  show "snd ((\<lambda>(i, n) u w. (affected (behind i n) (endpoints w) \<noteq> 0, snd (advance_stmt i n t w))) i u w) = w"
    if "\<not> (\<lambda>(i, n) u w. affected (behind i n) (endpoints w) \<noteq> 0) i u w"
    using that by (simp add: i advance_stmt_def update_where_none)
  show "\<not> (\<lambda>(i, n) u w. affected (behind i n) (endpoints w) \<noteq> 0) i u
      (snd ((\<lambda>(i, n) u w. (affected (behind i n) (endpoints w) \<noteq> 0, snd (advance_stmt i n t w))) i u w))"
    if "True" "(\<lambda>(i, n) u w. affected (behind i n) (endpoints w) \<noteq> 0) i u w"
    by (simp add: i advance_stmt_def gone)
qed

lemma advance_repeated:
  "0 < k \<Longrightarrow> ((\<lambda>w. snd (advance_stmt i n t w)) ^^ k) w = snd (advance_stmt i n t w)"
  using cursor.deliveries [where i = "(i, n)" and p = "()" and n = k and t = t and w = w] by simp

end
