(* ===== verification/Smtp.thy ===== *)
theory Smtp
  imports Prelude
begin

section \<open>The mail outbox: configuration\<close>

text \<open>
  \<^verbatim>\<open>server/internal/smtp/outbox.go\<close>: what the setup wizard and the settings page store, and the
  transport security it implies. The SMTP dialogue itself (\<^verbatim>\<open>net/smtp\<close>) is not modelled; sending is a
  parameter of the callers.
\<close>

record smtp_config =
  sm_host :: string
  sm_port :: int
  sm_from :: string
  sm_username :: string
  sm_password :: string

datatype smtp_err = SmtpPort int | SmtpFromMissing | SmtpFromInvalid string

text \<open>The config after the defaults, and the error; the config is returned with an error too.\<close>

definition Normalize :: "smtp_config \<Rightarrow> smtp_config \<times> smtp_err option" where
  "Normalize c =
     (let c1 = c\<lparr>sm_host := TrimSpace (sm_host c)\<rparr> in
      if sm_host c1 = [] then (c1, None)
      else
        let c2 = (if sm_port c1 = 0 then c1\<lparr>sm_port := 587\<rparr> else c1) in
        if sm_port c2 < 1 \<or> sm_port c2 > 65535 then (c2, Some (SmtpPort (sm_port c2)))
        else
          let from1 = TrimSpace (sm_from c2) in
          if from1 = [] then (c2, Some SmtpFromMissing)
          else if CHR ''@'' \<notin> set from1 then (c2, Some (SmtpFromInvalid from1))
          else (c2\<lparr>sm_from := from1\<rparr>, None))"

definition IsConfigured :: "smtp_config \<Rightarrow> bool" where
  "IsConfigured c \<longleftrightarrow> sm_host (fst (Normalize c)) \<noteq> []"

datatype security = Plain | StartTLS | ImplicitTLS

definition SecurityMode :: "smtp_config \<Rightarrow> security" where
  "SecurityMode c = (if sm_port c = 465 then ImplicitTLS else if sm_port c = 587 then StartTLS else Plain)"

definition zero_smtp :: smtp_config where
  "zero_smtp = \<lparr>sm_host = [], sm_port = 0, sm_from = [], sm_username = [], sm_password = []\<rparr>"

text \<open>What an accepted configuration looks like.\<close>

definition smtp_ok :: "smtp_config \<Rightarrow> bool" where
  "smtp_ok c \<longleftrightarrow> sm_host c = [] \<or>
     (1 \<le> sm_port c \<and> sm_port c \<le> 65535 \<and> sm_from c \<noteq> [] \<and> CHR ''@'' \<in> set (sm_from c))"

lemma Normalize_ok: "snd (Normalize c) = None \<Longrightarrow> smtp_ok (fst (Normalize c))"
  by (auto simp: Normalize_def Let_def smtp_ok_def split: if_splits)

end
