(* ===== verification/Users_Store.thy ===== *)
theory Users_Store
  imports Sql Sha256 Smtp "HOL-Library.Char_ord" "HOL-Library.List_Lexorder"
begin

section \<open>Operator accounts: the Postgres store and the in-memory store\<close>

text \<open>
  \<^verbatim>\<open>server/internal/store/users.go\<close> with the tables of \<^verbatim>\<open>server/migrations/0011_users.sql\<close>. The interface
  \<^verbatim>\<open>UserStore\<close> has two implementations: \<open>pg_*\<close> works on the tables (accounts, client grants, API tokens),
  \<open>mem_*\<close> on maps from ids, modelled as association lists. The password derivation (PBKDF2, a third-party
  package) and the random source are parameters; a draw is numbered, and may fail. Texts are compared in
  byte order, and names up to the case of ASCII letters.
\<close>

subsection \<open>Rows\<close>

record account =
  u_id :: string
  u_name :: string
  u_role :: string
  u_enabled :: bool
  u_salt :: string
  u_hash :: string
  u_totp :: string
  u_totp_verified :: "time option"
  u_last_login :: "time option"
  u_created :: time
  u_updated :: time
  u_clients :: "string list"

record api_token =
  tk_id :: string
  tk_user :: string
  tk_name :: string
  tk_prefix :: string
  tk_hash :: string
  tk_expires :: "time option"
  tk_last_used :: "time option"
  tk_created :: time

datatype user_err =
    UNotFound | UUsernameExists | UTotpNotEnrolled | UTokenExpired | UUserDisabled
  | UInvalidRole string | URandom | UStore err

type_synonym 'a ures = "user_err + 'a"

record entropy_world = world +
  draws :: nat

record account_world = entropy_world +
  accounts :: "account list"
  grants :: "(string \<times> string) list"
  tokens :: "api_token list"
  known_clients :: "string list"
  admin_rows :: "(string \<times> string \<times> string) list"
  setup_row :: "bool option"
  org_row :: "string option"
  smtp_row :: "smtp_config option"

text \<open>
  The last four fields are the tables of the setup wizard, \<^verbatim>\<open>server/migrations/0009_setup.sql\<close>: the
  wizard's administrators (name, salt, hash), the row that says whether it ran, and the two rows of
  \<^verbatim>\<open>server_config\<close> it writes.

  The maps of the in-memory store, in the order of insertion; \<^verbatim>\<open>tokenBy\<close> maps a hash to an id.\<close>

record mem_world = entropy_world +
  m_users :: "account list"
  m_tokens :: "api_token list"
  m_token_by :: "(string \<times> string) list"

record user_deps =
  ud_rand :: "nat \<Rightarrow> nat \<Rightarrow> string option"
  ud_kdf :: "string \<Rightarrow> string \<Rightarrow> string"

type_synonym 'a pm = "(account_world, 'a) m"
type_synonym 'a mm = "(mem_world, 'a) m"

subsection \<open>Ids, tokens and passwords\<close>

definition ValidRole :: "string \<Rightarrow> bool" where
  "ValidRole r \<longleftrightarrow> r = ''admin'' \<or> r = ''tech'' \<or> r = ''viewer''"

definition rand_read :: "user_deps \<Rightarrow> nat \<Rightarrow> ('x entropy_world_scheme, string option) m" where
  "rand_read D n = State (\<lambda>w. (ud_rand D (draws w) n, w\<lparr>draws := Suc (draws w)\<rparr>))"

definition mint :: "user_deps \<Rightarrow> nat \<Rightarrow> string \<Rightarrow> ('x entropy_world_scheme, string ures) m" where
  "mint D n p = do {
     raw \<leftarrow> rand_read D n;
     State_Monad.return (case raw of None \<Rightarrow> Inl URandom | Some r \<Rightarrow> Inr (p @ hex_encode r))
   }"

definition newUserID :: "user_deps \<Rightarrow> ('x entropy_world_scheme, string ures) m" where
  "newUserID D = mint D 6 ''usr-''"

definition newTokenID :: "user_deps \<Rightarrow> ('x entropy_world_scheme, string ures) m" where
  "newTokenID D = mint D 6 ''apit-''"

text \<open>The full token; its prefix for display is its first 12 characters.\<close>

definition MintAPIKey :: "user_deps \<Rightarrow> ('x entropy_world_scheme, string ures) m" where
  "MintAPIKey D = mint D 32 ''rmm_''"

definition hashAPIToken :: "string \<Rightarrow> string" where
  "hashAPIToken token = hex_encode (sha256 token)"

definition HashUserPassword :: "user_deps \<Rightarrow> string \<Rightarrow> string \<Rightarrow> string" where
  "HashUserPassword D password salt = ud_kdf D password salt"

definition VerifyUserPassword :: "user_deps \<Rightarrow> string \<Rightarrow> string \<Rightarrow> string \<Rightarrow> bool" where
  "VerifyUserPassword D password salt hash \<longleftrightarrow> HashUserPassword D password salt = hash"

definition EqualFold :: "string \<Rightarrow> string \<Rightarrow> bool" where
  "EqualFold a b \<longleftrightarrow> ToLower a = ToLower b"

fun trim_dedup :: "string list \<Rightarrow> string list \<Rightarrow> string list" where
  "trim_dedup seen [] = []"
| "trim_dedup seen (c # cs) =
     (let t = TrimSpace c in
      if t = [] \<or> t \<in> set seen then trim_dedup seen cs else t # trim_dedup (t # seen) cs)"

definition normalizeClientIDs :: "string list \<Rightarrow> string list" where
  "normalizeClientIDs cs = sort (trim_dedup [] cs)"

definition lift_err :: "'a res \<Rightarrow> 'a ures" where
  "lift_err r = (case r of Inl e \<Rightarrow> Inl (UStore e) | Inr a \<Rightarrow> Inr a)"

definition new_account :: "user_deps \<Rightarrow> string \<Rightarrow> string \<Rightarrow> string \<Rightarrow> string \<Rightarrow> string \<Rightarrow> string list \<Rightarrow> time \<Rightarrow> account" where
  "new_account D i username role password salt clients t =
     \<lparr>u_id = i, u_name = username, u_role = role, u_enabled = True, u_salt = salt,
      u_hash = HashUserPassword D password salt, u_totp = [], u_totp_verified = None,
      u_last_login = None, u_created = t, u_updated = t, u_clients = clients\<rparr>"

definition patch_account :: "string option \<Rightarrow> bool option \<Rightarrow> account \<Rightarrow> account" where
  "patch_account role enabled u =
     u\<lparr>u_role := (case role of None \<Rightarrow> u_role u | Some r \<Rightarrow> r),
       u_enabled := (case enabled of None \<Rightarrow> u_enabled u | Some b \<Rightarrow> b)\<rparr>"

definition new_token :: "string \<Rightarrow> string \<Rightarrow> string \<Rightarrow> string \<Rightarrow> time option \<Rightarrow> time \<Rightarrow> api_token" where
  "new_token i uid name token expires t =
     \<lparr>tk_id = i, tk_user = uid, tk_name = name, tk_prefix = take 12 token,
      tk_hash = hashAPIToken token, tk_expires = expires, tk_last_used = None, tk_created = t\<rparr>"

definition expiry :: "duration \<Rightarrow> time \<Rightarrow> time option" where
  "expiry ttl t = (if ttl > 0 then Some (t + ttl) else None)"

subsection \<open>The Postgres store: queries\<close>

definition grants_of :: "account_world \<Rightarrow> string \<Rightarrow> string list" where
  "grants_of w i = sort (map snd (filter (\<lambda>(u, c). u = i) (grants w)))"

definition fill :: "account_world \<Rightarrow> account \<Rightarrow> account" where
  "fill w u = u\<lparr>u_clients := grants_of w (u_id u)\<rparr>"

definition fillGrants :: "account_world env \<Rightarrow> account list \<Rightarrow> (account list ures) pm" where
  "fillGrants E us =
     (if us = [] then State_Monad.return (Inr [])
      else do {
        r \<leftarrow> query E (\<lambda>w. map (fill w) us);
        State_Monad.return (lift_err r)
      })"

definition fill_one :: "account_world env \<Rightarrow> account \<Rightarrow> (account ures) pm" where
  "fill_one E u = do {
     r \<leftarrow> fillGrants E [u];
     State_Monad.return (case r of Inl e \<Rightarrow> Inl e | Inr us \<Rightarrow> Inr (hd us))
   }"

definition pg_listRows :: "account_world env \<Rightarrow> (account list ures) pm" where
  "pg_listRows E = do {
     r \<leftarrow> query E (\<lambda>w. sort_key (\<lambda>u. ToLower (u_name u)) (accounts w));
     State_Monad.return (lift_err r)
   }"

definition pg_List :: "account_world env \<Rightarrow> (account list ures) pm" where
  "pg_List E = do {
     r \<leftarrow> pg_listRows E;
     (case r of Inl e \<Rightarrow> State_Monad.return (Inl e) | Inr us \<Rightarrow> fillGrants E us)
   }"

definition pg_Count :: "account_world env \<Rightarrow> (nat ures) pm" where
  "pg_Count E = do { r \<leftarrow> query E (\<lambda>w. length (accounts w)); State_Monad.return (lift_err r) }"

definition pg_getRow :: "account_world env \<Rightarrow> (account \<Rightarrow> bool) \<Rightarrow> (account ures) pm" where
  "pg_getRow E P = do {
     r \<leftarrow> query E (\<lambda>w. find P (accounts w));
     State_Monad.return (case r of
        Inl e \<Rightarrow> Inl (UStore e)
      | Inr None \<Rightarrow> Inl UNotFound
      | Inr (Some u) \<Rightarrow> Inr u)
   }"

definition pg_Get :: "account_world env \<Rightarrow> string \<Rightarrow> (account ures) pm" where
  "pg_Get E i = do {
     r \<leftarrow> pg_getRow E (\<lambda>u. u_id u = i);
     (case r of Inl e \<Rightarrow> State_Monad.return (Inl e) | Inr u \<Rightarrow> fill_one E u)
   }"

definition pg_GetByUsername :: "account_world env \<Rightarrow> string \<Rightarrow> (account ures) pm" where
  "pg_GetByUsername E name = do {
     r \<leftarrow> pg_getRow E (\<lambda>u. ToLower (u_name u) = ToLower name);
     (case r of Inl e \<Rightarrow> State_Monad.return (Inl e) | Inr u \<Rightarrow> fill_one E u)
   }"

subsection \<open>The Postgres store: changes\<close>

text \<open>The foreign keys of \<^verbatim>\<open>user_clients\<close> and its primary key.\<close>

definition insert_grant_stmt :: "string \<Rightarrow> string \<Rightarrow> account_world \<Rightarrow> unit res \<times> account_world" where
  "insert_grant_stmt i c w =
     (if c \<notin> set (known_clients w) \<or> i \<notin> u_id ` set (accounts w) then (Inl EDb, w)
      else if (i, c) \<in> set (grants w) then (Inl EUnique, w)
      else (Inr (), w\<lparr>grants := grants w @ [(i, c)]\<rparr>))"

fun insert_grants :: "account_world env \<Rightarrow> string \<Rightarrow> string list \<Rightarrow> (unit ures) pm" where
  "insert_grants E i [] = State_Monad.return (Inr ())"
| "insert_grants E i (c # cs) = do {
     r \<leftarrow> tx_exec E (insert_grant_stmt i c);
     (case r of Inl e \<Rightarrow> State_Monad.return (Inl (UStore e)) | Inr _ \<Rightarrow> insert_grants E i cs)
   }"

definition insertGrants :: "account_world env \<Rightarrow> string \<Rightarrow> string list \<Rightarrow> (unit ures) pm" where
  "insertGrants E i cs = insert_grants E i (normalizeClientIDs cs)"

definition name_taken :: "string \<Rightarrow> account list \<Rightarrow> bool" where
  "name_taken name us \<longleftrightarrow> list_ex (\<lambda>u. EqualFold (u_name u) name) us"

definition insert_account_stmt :: "account_world env \<Rightarrow> account \<Rightarrow> account_world \<Rightarrow> account res \<times> account_world" where
  "insert_account_stmt E u w =
     (let t = clock E (tick w); row = u\<lparr>u_created := t, u_updated := t\<rparr> in
      if u_id u \<in> u_id ` set (accounts w) then (Inl EUnique, w)
      else if name_taken (u_name u) (accounts w) then (Inl (EExt ''uq_users_username''), w)
      else (Inr row, w\<lparr>accounts := accounts w @ [row]\<rparr>))"

definition usersUsernameExists :: "err \<Rightarrow> bool" where
  "usersUsernameExists e \<longleftrightarrow> e = EExt ''uq_users_username''"

definition commit_as :: "'a \<Rightarrow> 'a ures tx_end" where
  "commit_as a = Commit (\<lambda>ce. case ce of None \<Rightarrow> Inr a | Some e \<Rightarrow> Inl (UStore e))"

definition pg_create_tx :: "account_world env \<Rightarrow> account \<Rightarrow> string list \<Rightarrow> (account ures tx_end) pm" where
  "pg_create_tx E u clients = do {
     r \<leftarrow> tx_exec E (insert_account_stmt E u);
     (case r of
        Inl e \<Rightarrow> State_Monad.return (Rollback (Inl (if usersUsernameExists e then UUsernameExists else UStore e)))
      | Inr row \<Rightarrow> do {
          g \<leftarrow> insertGrants E (u_id u) clients;
          State_Monad.return (case g of
             Inl e \<Rightarrow> Rollback (Inl e)
           | Inr _ \<Rightarrow> commit_as (row\<lparr>u_clients := normalizeClientIDs clients\<rparr>))
        })
   }"

definition pg_Create :: "user_deps \<Rightarrow> account_world env \<Rightarrow> string \<Rightarrow> string \<Rightarrow> string \<Rightarrow> string list \<Rightarrow>
    (account ures) pm" where
  "pg_Create D E username role password clients =
     (if \<not> ValidRole role then State_Monad.return (Inl (UInvalidRole role))
      else do {
        ri \<leftarrow> newUserID D;
        (case ri of
           Inl e \<Rightarrow> State_Monad.return (Inl e)
         | Inr i \<Rightarrow> do {
             rs \<leftarrow> rand_read D 16;
             (case rs of
                None \<Rightarrow> State_Monad.return (Inl URandom)
              | Some salt \<Rightarrow>
                  transaction E (Inl (UStore EDb))
                    (pg_create_tx E (new_account D i username role password salt [] 0) clients))
           })
      })"

definition update_account_stmt :: "string \<Rightarrow> (account \<Rightarrow> account) \<Rightarrow> account_world \<Rightarrow> nat res \<times> account_world" where
  "update_account_stmt i f w =
     (Inr (affected (\<lambda>u. u_id u = i) (accounts w)),
      w\<lparr>accounts := update_where (\<lambda>u. u_id u = i) f (accounts w)\<rparr>)"

definition account_tx :: "account_world env \<Rightarrow> string \<Rightarrow> (time \<Rightarrow> account \<Rightarrow> account) \<Rightarrow> (nat res) pm" where
  "account_tx E i f = tx_exec E (\<lambda>w. update_account_stmt i (f (clock E (tick w))) w)"

definition account_exec :: "account_world env \<Rightarrow> string \<Rightarrow> (time \<Rightarrow> account \<Rightarrow> account) \<Rightarrow> (nat res) pm" where
  "account_exec E i f = exec E (\<lambda>w. update_account_stmt i (f (clock E (tick w))) w)"

definition delete_grants_stmt :: "string \<Rightarrow> account_world \<Rightarrow> unit res \<times> account_world" where
  "delete_grants_stmt i w = (Inr (), w\<lparr>grants := filter (\<lambda>(u, c). u \<noteq> i) (grants w)\<rparr>)"

definition replace_grants :: "account_world env \<Rightarrow> string \<Rightarrow> string list option \<Rightarrow> (unit ures) pm" where
  "replace_grants E i clients =
     (case clients of
        None \<Rightarrow> State_Monad.return (Inr ())
      | Some cs \<Rightarrow> do {
          r \<leftarrow> tx_exec E (delete_grants_stmt i);
          (case r of
             Inl e \<Rightarrow> State_Monad.return (Inl (UStore e))
           | Inr _ \<Rightarrow> insertGrants E i cs)
        })"

definition pg_update_tx :: "account_world env \<Rightarrow> string \<Rightarrow> string option \<Rightarrow> bool option \<Rightarrow>
    string list option \<Rightarrow> (unit ures tx_end) pm" where
  "pg_update_tx E i role enabled clients = do {
     r \<leftarrow> (if role \<noteq> None \<or> enabled \<noteq> None
           then account_tx E i (\<lambda>t u. (patch_account role enabled u)\<lparr>u_updated := t\<rparr>)
           else State_Monad.return (Inr 0));
     (case r of
        Inl e \<Rightarrow> State_Monad.return (Rollback (Inl (UStore e)))
      | Inr _ \<Rightarrow> do {
          g \<leftarrow> replace_grants E i clients;
          State_Monad.return (case g of Inl e \<Rightarrow> Rollback (Inl e) | Inr _ \<Rightarrow> commit_as ())
        })
   }"

definition bad_role :: "string option \<Rightarrow> bool" where
  "bad_role role \<longleftrightarrow> (case role of None \<Rightarrow> False | Some r \<Rightarrow> \<not> ValidRole r)"

definition pg_Update :: "account_world env \<Rightarrow> string \<Rightarrow> string option \<Rightarrow> bool option \<Rightarrow>
    string list option \<Rightarrow> (account ures) pm" where
  "pg_Update E i role enabled clients =
     (if bad_role role then State_Monad.return (Inl (UInvalidRole (the role)))
      else do {
        r \<leftarrow> transaction E (Inl (UStore EDb)) (pg_update_tx E i role enabled clients);
        (case r of Inl e \<Rightarrow> State_Monad.return (Inl e) | Inr _ \<Rightarrow> pg_Get E i)
      })"

definition rowsToErr :: "nat res \<Rightarrow> unit ures" where
  "rowsToErr r = (case r of Inl e \<Rightarrow> Inl (UStore e) | Inr n \<Rightarrow> if n = 0 then Inl UNotFound else Inr ())"

definition pg_SetPassword :: "user_deps \<Rightarrow> account_world env \<Rightarrow> string \<Rightarrow> string \<Rightarrow> (unit ures) pm" where
  "pg_SetPassword D E i password = do {
     rs \<leftarrow> rand_read D 16;
     (case rs of
        None \<Rightarrow> State_Monad.return (Inl URandom)
      | Some salt \<Rightarrow> do {
          r \<leftarrow> account_exec E i (\<lambda>t u. u\<lparr>u_salt := salt, u_hash := HashUserPassword D password salt, u_updated := t\<rparr>);
          State_Monad.return (rowsToErr r)
        })
   }"

definition pg_SetTotpSecret :: "account_world env \<Rightarrow> string \<Rightarrow> string \<Rightarrow> (unit ures) pm" where
  "pg_SetTotpSecret E i secret = do {
     r \<leftarrow> account_exec E i (\<lambda>t u. u\<lparr>u_totp := secret, u_totp_verified := None, u_updated := t\<rparr>);
     State_Monad.return (rowsToErr r)
   }"

definition verify_totp_stmt :: "string \<Rightarrow> time \<Rightarrow> account_world \<Rightarrow> nat res \<times> account_world" where
  "verify_totp_stmt i t w =
     (let P = (\<lambda>u. u_id u = i \<and> u_totp u \<noteq> []) in
      (Inr (affected P (accounts w)),
       w\<lparr>accounts := update_where P (\<lambda>u. u\<lparr>u_totp_verified := Some t, u_updated := t\<rparr>) (accounts w)\<rparr>))"

definition pg_VerifyTotp :: "account_world env \<Rightarrow> string \<Rightarrow> (unit ures) pm" where
  "pg_VerifyTotp E i = do {
     r \<leftarrow> exec E (\<lambda>w. verify_totp_stmt i (clock E (tick w)) w);
     (case r of
        Inl e \<Rightarrow> State_Monad.return (Inl (UStore e))
      | Inr n \<Rightarrow>
          if n \<noteq> 0 then State_Monad.return (Inr ())
          else do {
            x \<leftarrow> query E (\<lambda>w. i \<in> u_id ` set (accounts w));
            State_Monad.return (case x of
               Inl e \<Rightarrow> Inl (UStore e)
             | Inr known \<Rightarrow> Inl (if known then UTotpNotEnrolled else UNotFound))
          })
   }"

definition pg_ClearTotp :: "account_world env \<Rightarrow> string \<Rightarrow> (unit ures) pm" where
  "pg_ClearTotp E i = do {
     r \<leftarrow> account_exec E i (\<lambda>t u. u\<lparr>u_totp := [], u_totp_verified := None, u_updated := t\<rparr>);
     State_Monad.return (rowsToErr r)
   }"

definition pg_MarkLoggedIn :: "account_world env \<Rightarrow> string \<Rightarrow> (unit ures) pm" where
  "pg_MarkLoggedIn E i = do {
     r \<leftarrow> account_exec E i (\<lambda>t u. u\<lparr>u_last_login := Some t\<rparr>);
     State_Monad.return (case r of Inl e \<Rightarrow> Inl (UStore e) | Inr _ \<Rightarrow> Inr ())
   }"

subsection \<open>The Postgres store: API tokens\<close>

definition insert_token_stmt :: "api_token \<Rightarrow> account_world \<Rightarrow> unit res \<times> account_world" where
  "insert_token_stmt tk w =
     (if tk_user tk \<notin> u_id ` set (accounts w) then (Inl EDb, w)
      else if tk_id tk \<in> tk_id ` set (tokens w) \<or> tk_hash tk \<in> tk_hash ` set (tokens w) then (Inl EUnique, w)
      else (Inr (), w\<lparr>tokens := tokens w @ [tk]\<rparr>))"

type_synonym minted = "string \<times> string \<times> time option"

definition pg_CreateToken :: "user_deps \<Rightarrow> account_world env \<Rightarrow> string \<Rightarrow> string \<Rightarrow> duration \<Rightarrow> (minted ures) pm" where
  "pg_CreateToken D E uid name ttl = do {
     ro \<leftarrow> pg_getRow E (\<lambda>u. u_id u = uid);
     (case ro of
        Inl e \<Rightarrow> State_Monad.return (Inl e)
      | Inr owner \<Rightarrow> do {
          rt \<leftarrow> MintAPIKey D;
          (case rt of
             Inl e \<Rightarrow> State_Monad.return (Inl e)
           | Inr token \<Rightarrow> do {
               ri \<leftarrow> newTokenID D;
               (case ri of
                  Inl e \<Rightarrow> State_Monad.return (Inl e)
                | Inr i \<Rightarrow> do {
                    t \<leftarrow> now E;
                    r \<leftarrow> exec E (\<lambda>w. insert_token_stmt (new_token i uid name token (expiry ttl t) (clock E (tick w))) w);
                    State_Monad.return (case r of
                       Inl e \<Rightarrow> Inl (UStore e)
                     | Inr _ \<Rightarrow> Inr (token, take 12 token, expiry ttl t))
                  })
             })
        })
   }"

definition pg_ListTokens :: "account_world env \<Rightarrow> string \<Rightarrow> (api_token list ures) pm" where
  "pg_ListTokens E uid = do {
     r \<leftarrow> query E (\<lambda>w. sort_key tk_created (filter (\<lambda>t. tk_user t = uid) (tokens w)));
     State_Monad.return (lift_err r)
   }"

definition delete_token_stmt :: "string \<Rightarrow> account_world \<Rightarrow> nat res \<times> account_world" where
  "delete_token_stmt i w =
     (Inr (affected (\<lambda>t. tk_id t = i) (tokens w)), w\<lparr>tokens := filter (\<lambda>t. tk_id t \<noteq> i) (tokens w)\<rparr>)"

definition pg_RevokeToken :: "account_world env \<Rightarrow> string \<Rightarrow> (unit ures) pm" where
  "pg_RevokeToken E i = do { r \<leftarrow> exec E (delete_token_stmt i); State_Monad.return (rowsToErr r) }"

text \<open>The join of the token with its account.\<close>

definition token_owner :: "string \<Rightarrow> account_world \<Rightarrow> (account \<times> time option) option" where
  "token_owner h w =
     (case find (\<lambda>t. tk_hash t = h) (tokens w) of
        None \<Rightarrow> None
      | Some t \<Rightarrow> map_option (\<lambda>u. (u, tk_expires t)) (find (\<lambda>u. u_id u = tk_user t) (accounts w)))"

definition stamp_token_stmt :: "string \<Rightarrow> time \<Rightarrow> account_world \<Rightarrow> unit res \<times> account_world" where
  "stamp_token_stmt h t w =
     (Inr (), w\<lparr>tokens := update_where (\<lambda>k. tk_hash k = h) (\<lambda>k. k\<lparr>tk_last_used := Some t\<rparr>) (tokens w)\<rparr>)"

definition expired :: "time option \<Rightarrow> time \<Rightarrow> bool" where
  "expired e t \<longleftrightarrow> (case e of None \<Rightarrow> False | Some x \<Rightarrow> x < t)"

definition pg_VerifyToken :: "account_world env \<Rightarrow> string \<Rightarrow> (account ures) pm" where
  "pg_VerifyToken E token = do {
     r \<leftarrow> query E (token_owner (hashAPIToken token));
     (case r of
        Inl e \<Rightarrow> State_Monad.return (Inl (UStore e))
      | Inr None \<Rightarrow> State_Monad.return (Inl UNotFound)
      | Inr (Some (u, ex)) \<Rightarrow> do {
          t \<leftarrow> (case ex of None \<Rightarrow> State_Monad.return 0 | Some _ \<Rightarrow> now E);
          (if expired ex t then State_Monad.return (Inl UTokenExpired)
           else if \<not> u_enabled u then State_Monad.return (Inl UUserDisabled)
           else do {
             _ \<leftarrow> exec E (\<lambda>w. stamp_token_stmt (hashAPIToken token) (clock E (tick w)) w);
             fill_one E u
           })
        })
   }"

subsection \<open>The in-memory store\<close>

definition mem_find :: "string \<Rightarrow> mem_world \<Rightarrow> account option" where
  "mem_find i w = find (\<lambda>u. u_id u = i) (m_users w)"

definition mem_put :: "account \<Rightarrow> mem_world \<Rightarrow> mem_world" where
  "mem_put u w =
     w\<lparr>m_users := (if u_id u \<in> u_id ` set (m_users w)
        then update_where (\<lambda>v. u_id v = u_id u) (\<lambda>_. u) (m_users w) else m_users w @ [u])\<rparr>"

definition mem_List :: "(account list ures) mm" where
  "mem_List = reads (\<lambda>w. Inr (sort_key (\<lambda>u. ToLower (u_name u)) (m_users w)))"

definition mem_Count :: "(nat ures) mm" where
  "mem_Count = reads (\<lambda>w. Inr (length (m_users w)))"

definition mem_Get :: "string \<Rightarrow> (account ures) mm" where
  "mem_Get i = reads (\<lambda>w. case mem_find i w of None \<Rightarrow> Inl UNotFound | Some u \<Rightarrow> Inr u)"

definition mem_GetByUsername :: "string \<Rightarrow> (account ures) mm" where
  "mem_GetByUsername name =
     reads (\<lambda>w. case find (\<lambda>u. EqualFold (u_name u) name) (m_users w) of None \<Rightarrow> Inl UNotFound | Some u \<Rightarrow> Inr u)"

definition mem_Create :: "user_deps \<Rightarrow> mem_world env \<Rightarrow> string \<Rightarrow> string \<Rightarrow> string \<Rightarrow> string list \<Rightarrow>
    (account ures) mm" where
  "mem_Create D E username role password clients =
     (if \<not> ValidRole role then State_Monad.return (Inl (UInvalidRole role))
      else do {
        taken \<leftarrow> reads (\<lambda>w. name_taken username (m_users w));
        (if taken then State_Monad.return (Inl UUsernameExists)
         else do {
           ri \<leftarrow> newUserID D;
           (case ri of
              Inl e \<Rightarrow> State_Monad.return (Inl e)
            | Inr i \<Rightarrow> do {
                rs \<leftarrow> rand_read D 16;
                (case rs of
                   None \<Rightarrow> State_Monad.return (Inl URandom)
                 | Some salt \<Rightarrow> do {
                     t \<leftarrow> now E;
                     let u = new_account D i username role password salt (normalizeClientIDs clients) t;
                     _ \<leftarrow> modifies (mem_put u);
                     State_Monad.return (Inr u)
                   })
              })
         })
      })"

text \<open>Look up an account, or answer that it is not found; change it in place.\<close>

definition mem_change :: "string \<Rightarrow> (account \<Rightarrow> ('a ures) mm) \<Rightarrow> ('a ures) mm" where
  "mem_change i f = do {
     x \<leftarrow> reads (mem_find i);
     (case x of None \<Rightarrow> State_Monad.return (Inl UNotFound) | Some u \<Rightarrow> f u)
   }"

definition mem_store :: "account \<Rightarrow> 'a \<Rightarrow> ('a ures) mm" where
  "mem_store u a = do { _ \<leftarrow> modifies (mem_put u); State_Monad.return (Inr a) }"

definition mem_Update :: "mem_world env \<Rightarrow> string \<Rightarrow> string option \<Rightarrow> bool option \<Rightarrow> string list option \<Rightarrow>
    (account ures) mm" where
  "mem_Update E i role enabled clients =
     mem_change i (\<lambda>u.
       if bad_role role then State_Monad.return (Inl (UInvalidRole (the role)))
       else do {
         t \<leftarrow> now E;
         let u' = (patch_account role enabled u)\<lparr>
            u_clients := (case clients of None \<Rightarrow> u_clients u | Some cs \<Rightarrow> normalizeClientIDs cs), u_updated := t\<rparr>;
         mem_store u' u'
       })"

definition mem_SetPassword :: "user_deps \<Rightarrow> mem_world env \<Rightarrow> string \<Rightarrow> string \<Rightarrow> (unit ures) mm" where
  "mem_SetPassword D E i password =
     mem_change i (\<lambda>u. do {
       rs \<leftarrow> rand_read D 16;
       (case rs of
          None \<Rightarrow> State_Monad.return (Inl URandom)
        | Some salt \<Rightarrow> do {
            t \<leftarrow> now E;
            mem_store (u\<lparr>u_salt := salt, u_hash := HashUserPassword D password salt, u_updated := t\<rparr>) ()
          })
     })"

definition mem_SetTotpSecret :: "mem_world env \<Rightarrow> string \<Rightarrow> string \<Rightarrow> (unit ures) mm" where
  "mem_SetTotpSecret E i secret =
     mem_change i (\<lambda>u. do {
       t \<leftarrow> now E;
       mem_store (u\<lparr>u_totp := secret, u_totp_verified := None, u_updated := t\<rparr>) ()
     })"

definition mem_VerifyTotp :: "mem_world env \<Rightarrow> string \<Rightarrow> (unit ures) mm" where
  "mem_VerifyTotp E i =
     mem_change i (\<lambda>u.
       if u_totp u = [] then State_Monad.return (Inl UTotpNotEnrolled)
       else do {
         t \<leftarrow> now E;
         mem_store (u\<lparr>u_totp_verified := Some t, u_updated := t\<rparr>) ()
       })"

definition mem_ClearTotp :: "mem_world env \<Rightarrow> string \<Rightarrow> (unit ures) mm" where
  "mem_ClearTotp E i =
     mem_change i (\<lambda>u. do {
       t \<leftarrow> now E;
       mem_store (u\<lparr>u_totp := [], u_totp_verified := None, u_updated := t\<rparr>) ()
     })"

definition mem_MarkLoggedIn :: "mem_world env \<Rightarrow> string \<Rightarrow> (unit ures) mm" where
  "mem_MarkLoggedIn E i =
     mem_change i (\<lambda>u. do { t \<leftarrow> now E; mem_store (u\<lparr>u_last_login := Some t\<rparr>) () })"

definition mem_put_token :: "api_token \<Rightarrow> mem_world \<Rightarrow> mem_world" where
  "mem_put_token tk w =
     w\<lparr>m_tokens := (if tk_id tk \<in> tk_id ` set (m_tokens w)
          then update_where (\<lambda>k. tk_id k = tk_id tk) (\<lambda>_. tk) (m_tokens w) else m_tokens w @ [tk]),
       m_token_by := (tk_hash tk, tk_id tk) # filter (\<lambda>(h, i). h \<noteq> tk_hash tk) (m_token_by w)\<rparr>"

definition mem_CreateToken :: "user_deps \<Rightarrow> mem_world env \<Rightarrow> string \<Rightarrow> string \<Rightarrow> duration \<Rightarrow> (minted ures) mm" where
  "mem_CreateToken D E uid name ttl =
     mem_change uid (\<lambda>u. do {
       rt \<leftarrow> MintAPIKey D;
       (case rt of
          Inl e \<Rightarrow> State_Monad.return (Inl e)
        | Inr token \<Rightarrow> do {
            ri \<leftarrow> newTokenID D;
            (case ri of
               Inl e \<Rightarrow> State_Monad.return (Inl e)
             | Inr i \<Rightarrow> do {
                 t \<leftarrow> now E;
                 t' \<leftarrow> now E;
                 _ \<leftarrow> modifies (mem_put_token (new_token i uid name token (expiry ttl t) t'));
                 State_Monad.return (Inr (token, take 12 token, expiry ttl t))
               })
          })
     })"

definition mem_ListTokens :: "string \<Rightarrow> (api_token list ures) mm" where
  "mem_ListTokens uid = reads (\<lambda>w. Inr (sort_key tk_created (filter (\<lambda>t. tk_user t = uid) (m_tokens w))))"

definition mem_RevokeToken :: "string \<Rightarrow> (unit ures) mm" where
  "mem_RevokeToken i = State (\<lambda>w.
     (case find (\<lambda>t. tk_id t = i) (m_tokens w) of
        None \<Rightarrow> (Inl UNotFound, w)
      | Some tk \<Rightarrow> (Inr (), w\<lparr>m_tokens := filter (\<lambda>t. tk_id t \<noteq> i) (m_tokens w),
            m_token_by := filter (\<lambda>(h, j). h \<noteq> tk_hash tk) (m_token_by w)\<rparr>)))"

text \<open>The token the hash leads to, as the two map lookups find it.\<close>

definition mem_token :: "string \<Rightarrow> mem_world \<Rightarrow> api_token option" where
  "mem_token h w =
     (case map_of (m_token_by w) h of None \<Rightarrow> None | Some i \<Rightarrow> find (\<lambda>t. tk_id t = i) (m_tokens w))"

definition mem_VerifyToken :: "mem_world env \<Rightarrow> string \<Rightarrow> (account ures) mm" where
  "mem_VerifyToken E token = do {
     x \<leftarrow> reads (mem_token (hashAPIToken token));
     (case x of
        None \<Rightarrow> State_Monad.return (Inl UNotFound)
      | Some tk \<Rightarrow> do {
          t \<leftarrow> (case tk_expires tk of None \<Rightarrow> State_Monad.return 0 | Some _ \<Rightarrow> now E);
          (if expired (tk_expires tk) t then State_Monad.return (Inl UTokenExpired)
           else mem_change (tk_user tk) (\<lambda>u.
             if \<not> u_enabled u then State_Monad.return (Inl UUserDisabled)
             else do {
               t' \<leftarrow> now E;
               _ \<leftarrow> modifies (\<lambda>w. w\<lparr>m_tokens := update_where (\<lambda>k. tk_id k = tk_id tk)
                       (\<lambda>k. k\<lparr>tk_last_used := Some t'\<rparr>) (m_tokens w)\<rparr>);
               State_Monad.return (Inr u)
             }))
        })
   }"

end
