(* ===== verification/Simulation.thy ===== *)
theory Simulation
  imports Main
begin

section \<open>Two implementations of one interface\<close>

text \<open>
  Several interfaces of the server have a database implementation and an in-memory one, on which the
  handlers' tests run. The locale says what makes them interchangeable: a relation between their
  states under which every allowed operation answers the same and which it preserves. Its
  consequence is that no client can tell them apart by any sequence of allowed operations.
\<close>

fun run_ops :: "('op \<Rightarrow> 's \<Rightarrow> 'r \<times> 's) \<Rightarrow> 'op list \<Rightarrow> 's \<Rightarrow> 'r list \<times> 's" where
  "run_ops f [] s = ([], s)"
| "run_ops f (x # xs) s =
     (let (r, s') = f x s; (rs, s'') = run_ops f xs s' in (r # rs, s''))"

fun ops_allowed :: "('op \<Rightarrow> 's \<Rightarrow> 'r \<times> 's) \<Rightarrow> ('op \<Rightarrow> 's \<Rightarrow> bool) \<Rightarrow> 'op list \<Rightarrow> 's \<Rightarrow> bool" where
  "ops_allowed f P [] s = True"
| "ops_allowed f P (x # xs) s = (P x s \<and> ops_allowed f P xs (snd (f x s)))"

lemma run_ops_length [simp]: "length (fst (run_ops f xs s)) = length xs"
  by (induction xs arbitrary: s) (simp_all add: Let_def split_beta)

lemma run_ops_append:
  "run_ops f (xs @ ys) s =
     (let (rs, s') = run_ops f xs s; (rs', s'') = run_ops f ys s' in (rs @ rs', s''))"
  by (induction xs arbitrary: s) (simp_all add: Let_def split_beta)

locale simulation =
  fixes step1 :: "'op \<Rightarrow> 's1 \<Rightarrow> 'r \<times> 's1"
    and step2 :: "'op \<Rightarrow> 's2 \<Rightarrow> 'r \<times> 's2"
    and agree :: "'s1 \<Rightarrow> 's2 \<Rightarrow> bool"
    and allowed :: "'op \<Rightarrow> 's1 \<Rightarrow> bool"
  assumes same_answer: "agree s1 s2 \<Longrightarrow> allowed x s1 \<Longrightarrow> fst (step1 x s1) = fst (step2 x s2)"
    and agree_step: "agree s1 s2 \<Longrightarrow> allowed x s1 \<Longrightarrow> agree (snd (step1 x s1)) (snd (step2 x s2))"
begin

lemma agree_run:
  "agree s1 s2 \<Longrightarrow> ops_allowed step1 allowed xs s1 \<Longrightarrow>
     agree (snd (run_ops step1 xs s1)) (snd (run_ops step2 xs s2))"
proof (induction xs arbitrary: s1 s2)
  case (Cons x xs)
  then show ?case
    using agree_step [of s1 s2 x] by (simp add: Let_def split_beta)
qed simp

lemma same_answers:
  "agree s1 s2 \<Longrightarrow> ops_allowed step1 allowed xs s1 \<Longrightarrow>
     fst (run_ops step1 xs s1) = fst (run_ops step2 xs s2)"
proof (induction xs arbitrary: s1 s2)
  case (Cons x xs)
  then have "fst (run_ops step1 xs (snd (step1 x s1))) = fst (run_ops step2 xs (snd (step2 x s2)))"
    using agree_step by simp
  with Cons.prems show ?case
    using same_answer [of s1 s2 x] by (simp add: Let_def split_beta)
qed simp

end

end
