(* ===== verification/Users_Equiv.thy ===== *)
theory Users_Equiv
  imports Users_Store Simulation
begin

section \<open>Operator accounts: the two stores agree\<close>

text \<open>
  One operation of \<^verbatim>\<open>UserStore\<close> at a time, on either store, and the relation between the tables and
  the maps under which the answers are the same. The last-update times are left out: an update of
  the client grants alone moves it in memory and not in Postgres.
\<close>

subsection \<open>Operations\<close>

datatype user_op =
    OpList | OpCount | OpGet string | OpGetByUsername string
  | OpCreate string string string "string list"
  | OpUpdate string "string option" "bool option" "string list option"
  | OpSetPassword string string | OpSetTotpSecret string string | OpVerifyTotp string
  | OpClearTotp string | OpMarkLoggedIn string
  | OpCreateToken string string duration | OpListTokens string | OpRevokeToken string
  | OpVerifyToken string

datatype user_result =
    RUsers "account list ures" | RUser "account ures" | RCount "nat ures" | RUnit "unit ures"
  | RMinted "minted ures" | RTokens "api_token list ures"

definition answer :: "('a \<Rightarrow> user_result) \<Rightarrow> ('w, 'a) m \<Rightarrow> ('w, user_result) m" where
  "answer f c = do { r \<leftarrow> c; State_Monad.return (f r) }"

fun pg_op :: "user_deps \<Rightarrow> account_world env \<Rightarrow> user_op \<Rightarrow> user_result pm" where
  "pg_op D E OpList = answer RUsers (pg_List E)"
| "pg_op D E OpCount = answer RCount (pg_Count E)"
| "pg_op D E (OpGet i) = answer RUser (pg_Get E i)"
| "pg_op D E (OpGetByUsername n) = answer RUser (pg_GetByUsername E n)"
| "pg_op D E (OpCreate n role pw cs) = answer RUser (pg_Create D E n role pw cs)"
| "pg_op D E (OpUpdate i role en cs) = answer RUser (pg_Update E i role en cs)"
| "pg_op D E (OpSetPassword i pw) = answer RUnit (pg_SetPassword D E i pw)"
| "pg_op D E (OpSetTotpSecret i s) = answer RUnit (pg_SetTotpSecret E i s)"
| "pg_op D E (OpVerifyTotp i) = answer RUnit (pg_VerifyTotp E i)"
| "pg_op D E (OpClearTotp i) = answer RUnit (pg_ClearTotp E i)"
| "pg_op D E (OpMarkLoggedIn i) = answer RUnit (pg_MarkLoggedIn E i)"
| "pg_op D E (OpCreateToken i n ttl) = answer RMinted (pg_CreateToken D E i n ttl)"
| "pg_op D E (OpListTokens i) = answer RTokens (pg_ListTokens E i)"
| "pg_op D E (OpRevokeToken i) = answer RUnit (pg_RevokeToken E i)"
| "pg_op D E (OpVerifyToken tk) = answer RUser (pg_VerifyToken E tk)"

fun mem_op :: "user_deps \<Rightarrow> mem_world env \<Rightarrow> user_op \<Rightarrow> user_result mm" where
  "mem_op D E OpList = answer RUsers mem_List"
| "mem_op D E OpCount = answer RCount mem_Count"
| "mem_op D E (OpGet i) = answer RUser (mem_Get i)"
| "mem_op D E (OpGetByUsername n) = answer RUser (mem_GetByUsername n)"
| "mem_op D E (OpCreate n role pw cs) = answer RUser (mem_Create D E n role pw cs)"
| "mem_op D E (OpUpdate i role en cs) = answer RUser (mem_Update E i role en cs)"
| "mem_op D E (OpSetPassword i pw) = answer RUnit (mem_SetPassword D E i pw)"
| "mem_op D E (OpSetTotpSecret i s) = answer RUnit (mem_SetTotpSecret E i s)"
| "mem_op D E (OpVerifyTotp i) = answer RUnit (mem_VerifyTotp E i)"
| "mem_op D E (OpClearTotp i) = answer RUnit (mem_ClearTotp E i)"
| "mem_op D E (OpMarkLoggedIn i) = answer RUnit (mem_MarkLoggedIn E i)"
| "mem_op D E (OpCreateToken i n ttl) = answer RMinted (mem_CreateToken D E i n ttl)"
| "mem_op D E (OpListTokens i) = answer RTokens (mem_ListTokens i)"
| "mem_op D E (OpRevokeToken i) = answer RUnit (mem_RevokeToken i)"
| "mem_op D E (OpVerifyToken tk) = answer RUser (mem_VerifyToken E tk)"

definition blur :: "account \<Rightarrow> account" where
  "blur u = u\<lparr>u_updated := 0\<rparr>"

fun blurred :: "user_result \<Rightarrow> user_result" where
  "blurred (RUsers r) = RUsers (map_sum id (map blur) r)"
| "blurred (RUser r) = RUser (map_sum id blur r)"
| "blurred r = r"

text \<open>An operation at time \<open>t\<close>, the random source standing at draw \<open>d\<close>, the database available.\<close>

type_synonym user_step = "time \<times> nat \<times> user_op"

definition pg_step :: "user_deps \<Rightarrow> user_step \<Rightarrow> account_world \<Rightarrow> user_result \<times> account_world" where
  "pg_step D x w = (case x of (t, d, op1) \<Rightarrow>
     apfst blurred (run_state (pg_op D (calm t) op1) (w\<lparr>draws := d\<rparr>)))"

definition mem_step :: "user_deps \<Rightarrow> user_step \<Rightarrow> mem_world \<Rightarrow> user_result \<times> mem_world" where
  "mem_step D x w = (case x of (t, d, op1) \<Rightarrow>
     apfst blurred (run_state (mem_op D (calm t) op1) (w\<lparr>draws := d\<rparr>)))"

text \<open>
  The operations on which the stores agree. Excluded are draws that collide with an id or a token in
  use, grants of unknown clients (Postgres has a foreign key), and unknown accounts where the order
  of the checks differs. Names are ASCII: on those Go's \<^verbatim>\<open>strings.EqualFold\<close>, the database's \<^verbatim>\<open>lower\<close> and
  \<open>ToLower\<close> fold alike; other scripts are not modelled.
\<close>

definition ascii :: "string \<Rightarrow> bool" where
  "ascii s \<longleftrightarrow> list_all (\<lambda>c. of_char c < (128 :: nat)) s"

definition account_ids :: "account_world \<Rightarrow> string set" where
  "account_ids w = u_id ` set (accounts w)"

definition grantable :: "account_world \<Rightarrow> string list \<Rightarrow> bool" where
  "grantable w cs \<longleftrightarrow> set (normalizeClientIDs cs) \<subseteq> set (known_clients w)"

fun op_ok :: "user_deps \<Rightarrow> nat \<Rightarrow> user_op \<Rightarrow> account_world \<Rightarrow> bool" where
  "op_ok D d (OpCreate n role pw cs) w =
     (ascii n \<and> grantable w cs \<and>
      (\<forall>r\<in>set_option (ud_rand D d 6). ''usr-'' @ hex_encode r \<notin> account_ids w))"
| "op_ok D d (OpUpdate i role en cs) w =
     ((\<forall>c\<in>set_option cs. grantable w c) \<and>
      (i \<in> account_ids w \<or> \<not> bad_role role \<and> (\<forall>c\<in>set_option cs. normalizeClientIDs c = [])))"
| "op_ok D d (OpMarkLoggedIn i) w = (i \<in> account_ids w)"
| "op_ok D d (OpCreateToken i n ttl) w =
     ((\<forall>r\<in>set_option (ud_rand D d 32). hashAPIToken (''rmm_'' @ hex_encode r) \<notin> tk_hash ` set (tokens w)) \<and>
      (\<forall>r\<in>set_option (ud_rand D (Suc d) 6). ''apit-'' @ hex_encode r \<notin> tk_id ` set (tokens w)))"
| "op_ok D d (OpGetByUsername n) w = ascii n"
| "op_ok D d _ w = True"

definition step_ok :: "user_deps \<Rightarrow> user_step \<Rightarrow> account_world \<Rightarrow> bool" where
  "step_ok D x w = (case x of (t, d, op1) \<Rightarrow> op_ok D d op1 w)"

subsection \<open>The relation\<close>

definition same_account :: "account_world \<Rightarrow> account \<Rightarrow> account \<Rightarrow> bool" where
  "same_account w u v \<longleftrightarrow>
     u_clients u = [] \<and> (\<exists>t. v = u\<lparr>u_clients := grants_of w (u_id u), u_updated := t\<rparr>)"

definition stores_agree :: "account_world \<Rightarrow> mem_world \<Rightarrow> bool" where
  "stores_agree w m \<longleftrightarrow>
     list_all2 (same_account w) (accounts w) (m_users m) \<and>
     tokens w = m_tokens m \<and>
     map_of (m_token_by m) = map_of (map (\<lambda>t. (tk_hash t, tk_id t)) (tokens w)) \<and>
     distinct (map u_id (accounts w)) \<and>
     distinct (map tk_id (tokens w)) \<and> distinct (map tk_hash (tokens w)) \<and>
     fst ` set (grants w) \<subseteq> account_ids w \<and> tk_user ` set (tokens w) \<subseteq> account_ids w"

lemma same_account_id: "same_account w u v \<Longrightarrow> u_id v = u_id u"
  by (auto simp: same_account_def)

subsection \<open>Looking up\<close>

lemma grants_of_cong: "grants w' = grants w \<Longrightarrow> grants_of w' = grants_of w"
  by (simp add: grants_of_def fun_eq_iff)

lemma same_account_cong: "grants w' = grants w \<Longrightarrow> same_account w' = same_account w"
  by (intro ext) (simp only: same_account_def grants_of_cong [of w' w])

lemma stores_agreeD:
  assumes "stores_agree w m"
  shows "list_all2 (same_account w) (accounts w) (m_users m)" and "tokens w = m_tokens m"
    and "map_of (m_token_by m) = map_of (map (\<lambda>t. (tk_hash t, tk_id t)) (m_tokens m))"
    and "distinct (map u_id (accounts w))"
    and "distinct (map tk_id (m_tokens m))" and "distinct (map tk_hash (m_tokens m))"
    and "fst ` set (grants w) \<subseteq> account_ids w" and "tk_user ` set (m_tokens m) \<subseteq> account_ids w"
  using assms by (auto simp: stores_agree_def)

lemma stores_agree_cong:
  assumes "accounts w' = accounts w" "grants w' = grants w" "tokens w' = tokens w"
    and "m_users m' = m_users m" "m_tokens m' = m_tokens m" "m_token_by m' = m_token_by m"
  shows "stores_agree w' m' = stores_agree w m"
  by (simp only: stores_agree_def account_ids_def assms same_account_cong [OF assms(2)])

lemma stores_agree_frame [simp]:
  "stores_agree (w\<lparr>tick := n\<rparr>) m = stores_agree w m"
  "stores_agree (w\<lparr>draws := n\<rparr>) m = stores_agree w m"
  "stores_agree w (m\<lparr>tick := n\<rparr>) = stores_agree w m"
  "stores_agree w (m\<lparr>draws := n\<rparr>) = stores_agree w m"
  by (rule stores_agree_cong; simp)+

lemma find_all2:
  "list_all2 S us vs \<Longrightarrow> (\<And>u v. S u v \<Longrightarrow> P u = Q v) \<Longrightarrow> rel_option S (find P us) (find Q vs)"
  by (induction us vs rule: list_all2_induct) auto

lemma agree_find:
  assumes "stores_agree w m" "\<And>u v. same_account w u v \<Longrightarrow> P u = Q v"
  shows "rel_option (same_account w) (find P (accounts w)) (find Q (m_users m))"
  using assms by (auto simp: stores_agree_def intro: find_all2)

lemma agree_find_id:
  assumes "stores_agree w m"
  shows "rel_option (same_account w) (find (\<lambda>u. u_id u = i) (accounts w)) (mem_find i m)"
  unfolding mem_find_def using agree_find [OF assms] by (simp add: same_account_id)

lemma blur_same: "same_account w u v \<Longrightarrow> blur (fill w u) = blur v"
  by (auto simp: same_account_def blur_def fill_def)

subsection \<open>Statements without faults\<close>

declare calm_query [simp] calm_exec [simp]

lemma calm_tx_exec [simp]: "run_state (tx_exec (calm t) stmt) w = stmt (w\<lparr>tick := Suc (tick w)\<rparr>)"
  by (simp add: tx_exec_def)

lemma calm_transaction [simp]:
  "run_state (transaction (calm t) e body) w =
     (case run_state body (w\<lparr>tick := Suc (tick w)\<rparr>) of
        (Rollback r, w1) \<Rightarrow> (r, w\<lparr>tick := tick w1\<rparr>)
      | (Commit k, w1) \<Rightarrow> (k None, w1\<lparr>tick := Suc (tick w1)\<rparr>))"
  by (simp add: transaction_def run_tx_def split: prod.split tx_end.split)

lemma run_answer [simp]: "run_state (answer f c) w = apfst f (run_state c w)"
  by (simp add: answer_def apfst_def map_prod_def split_beta)

lemma run_rand_read [simp]: "run_state (rand_read D n) w = (ud_rand D (draws w) n, w\<lparr>draws := Suc (draws w)\<rparr>)"
  by (simp add: rand_read_def)

lemma run_mint [simp]:
  "run_state (mint D n p) w =
     ((case ud_rand D (draws w) n of None \<Rightarrow> Inl URandom | Some r \<Rightarrow> Inr (p @ hex_encode r)),
      w\<lparr>draws := Suc (draws w)\<rparr>)"
  by (simp add: mint_def)

subsection \<open>Changing one account\<close>

lemma distinct_ids_unique: "distinct (map k xs) \<Longrightarrow> find P xs = Some u \<Longrightarrow> r \<in> set xs \<Longrightarrow> k r = k u \<Longrightarrow> r = u"
  by (metis distinct_map find_Some_iff inj_onD nth_mem)

lemma find_in: "find P xs = Some u \<Longrightarrow> u \<in> set xs \<and> P u"
  by (metis find_Some_iff nth_mem)

lemma agree_ids: "stores_agree w m \<Longrightarrow> u_id ` set (m_users m) = account_ids w"
proof -
  assume "stores_agree w m"
  then have "list_all2 (same_account w) (accounts w) (m_users m)"
    by (simp add: stores_agree_def)
  then have "map u_id (accounts w) = map u_id (m_users m)"
    by (induction rule: list_all2_induct) (simp_all add: same_account_id)
  then show ?thesis
    unfolding account_ids_def by (metis list.set_map)
qed

lemma agree_change:
  assumes agree: "stores_agree w m"
    and u: "find (\<lambda>u. u_id u = i) (accounts w) = Some u"
    and P: "\<And>r. P r \<Longrightarrow> u_id r = i" and f: "\<And>r. u_id (f r) = u_id r"
    and w': "accounts w' = update_where P f (accounts w)" "tokens w' = tokens w"
    and g: "\<And>j. j \<noteq> i \<Longrightarrow> grants_of w' j = grants_of w j" "fst ` set (grants w') \<subseteq> account_ids w"
    and v: "same_account w' (if P u then f u else u) v"
  shows "stores_agree w' (mem_put v m)"
proof -
  from u have uid: "u_id u = i" "u \<in> set (accounts w)" by (auto dest: find_in)
  have vid: "u_id v = i" using same_account_id [OF v] f uid by (simp split: if_splits)
  have ids: "map u_id (accounts w') = map u_id (accounts w)"
    unfolding w' by (rule map_update_where) (rule f)
  then have ids': "account_ids w' = account_ids w" unfolding account_ids_def by (metis list.set_map)
  have ex: "i \<in> u_id ` set (m_users m)"
    using agree_ids [OF agree] uid by (auto simp: account_ids_def)
  have dist: "distinct (map u_id (accounts w))" using agree by (simp add: stores_agree_def)
  have only: "r = u" if "r \<in> set (accounts w)" "u_id r = i" for r
    using distinct_ids_unique [OF dist u that(1)] that(2) uid by simp
  have "list_all2 (same_account w) (accounts w) (m_users m)"
    using agree by (simp add: stores_agree_def)
  then have "list_all2 (same_account w') (update_where P f (accounts w))
      (update_where (\<lambda>x. u_id x = i) (\<lambda>_. v) (m_users m))"
    unfolding update_where_def list.rel_map
  proof (rule list.rel_mono_strong)
    fix r x
    assume r: "r \<in> set (accounts w)" and rx: "same_account w r x"
    show "same_account w' (if P r then f r else r) (if u_id x = i then v else x)"
    proof (cases "u_id r = i")
      case True
      then show ?thesis using only [OF r] v same_account_id [OF rx] by (simp split: if_splits)
    next
      case False
      then have "\<not> P r" using P by blast
      then show ?thesis
        using False rx same_account_id [OF rx] g(1) [of "u_id r"] by (simp add: same_account_def)
    qed
  qed
  then show ?thesis
    using agree ids ids' g(2) ex vid by (auto simp: stores_agree_def mem_put_def w')
qed

lemma agree_unchanged:
  assumes "stores_agree w m" and "find (\<lambda>u. u_id u = i) (accounts w) = None"
    and P: "\<And>r. P r \<Longrightarrow> u_id r = i"
  shows "affected P (accounts w) = 0" "update_where P f (accounts w) = accounts w"
proof -
  show "affected P (accounts w) = 0"
    using assms(2) P by (auto simp: affected_0_iff find_None_iff)
  then show "update_where P f (accounts w) = accounts w" by (rule update_where_none)
qed

subsection \<open>Operation by operation\<close>

abbreviation matches :: "user_deps \<Rightarrow> time \<Rightarrow> user_op \<Rightarrow> account_world \<Rightarrow> mem_world \<Rightarrow> bool" where
  "matches D t x w m \<equiv>
     blurred (fst (run_state (pg_op D (calm t) x) w)) = blurred (fst (run_state (mem_op D (calm t) x) m)) \<and>
     stores_agree (snd (run_state (pg_op D (calm t) x) w)) (snd (run_state (mem_op D (calm t) x) m))"

lemma fill_frame [simp]: "fill (w\<lparr>tick := n\<rparr>) = fill w" "fill (w\<lparr>draws := n\<rparr>) = fill w"
  by (simp_all add: fill_def fun_eq_iff grants_of_def)

lemma run_fillGrants [simp]:
  "fst (run_state (fillGrants (calm t) us) w) = Inr (map (fill w) us)"
  "stores_agree (snd (run_state (fillGrants (calm t) us) w)) m = stores_agree w m"
  by (simp_all add: fillGrants_def lift_err_def)

lemma run_fill_one [simp]:
  "run_state (fill_one (calm t) u) w = (Inr (fill w u), w\<lparr>tick := Suc (tick w)\<rparr>)"
  by (simp add: fill_one_def fillGrants_def lift_err_def)

lemma list_all2_sort_key:
  assumes "list_all2 S us vs" and "\<And>u v. S u v \<Longrightarrow> k u = k v"
  shows "list_all2 S (sort_key k us) (sort_key k vs)"
proof -
  have insort: "list_all2 S (insort_key k u us) (insort_key k v vs)"
    if "list_all2 S us vs" "S u v" for u v us vs
    using that assms(2) by (induction us vs rule: list_all2_induct) auto
  from assms(1) show ?thesis
    by (induction us vs rule: list_all2_induct) (simp_all add: insort)
qed

lemma map_blur_same: "list_all2 (same_account w) us vs \<Longrightarrow> map blur (map (fill w) us) = map blur vs"
  by (induction rule: list_all2_induct) (simp_all add: blur_same)

lemma matches_List: "stores_agree w m \<Longrightarrow> matches D t OpList w m"
proof -
  assume agree: "stores_agree w m"
  then have "list_all2 (same_account w) (accounts w) (m_users m)" by (simp add: stores_agree_def)
  then have "list_all2 (same_account w) (sort_key (\<lambda>u. ToLower (u_name u)) (accounts w))
      (sort_key (\<lambda>u. ToLower (u_name u)) (m_users m))"
    by (rule list_all2_sort_key) (auto simp: same_account_def)
  from map_blur_same [OF this] show ?thesis
    using agree by (simp add: pg_List_def pg_listRows_def mem_List_def lift_err_def)
qed

lemma matches_Count: "stores_agree w m \<Longrightarrow> matches D t OpCount w m"
proof -
  assume agree: "stores_agree w m"
  then have "length (accounts w) = length (m_users m)"
    by (auto simp: stores_agree_def dest: list_all2_lengthD)
  then show ?thesis
    using agree by (simp add: pg_Count_def mem_Count_def lift_err_def)
qed

lemma matches_Get: "stores_agree w m \<Longrightarrow> matches D t (OpGet i) w m"
  using agree_find_id [of w m i]
  by (auto simp: pg_Get_def pg_getRow_def mem_Get_def rel_option_iff blur_same split: option.splits)

lemma matches_GetByUsername:
  assumes "stores_agree w m" shows "matches D t (OpGetByUsername n) w m"
proof -
  have "rel_option (same_account w) (find (\<lambda>u. ToLower (u_name u) = ToLower n) (accounts w))
      (find (\<lambda>u. EqualFold (u_name u) n) (m_users m))"
    by (rule agree_find [OF assms]) (auto simp: same_account_def EqualFold_def)
  then show ?thesis
    using assms by (cases rule: option.rel_cases)
      (simp_all add: pg_GetByUsername_def pg_getRow_def mem_GetByUsername_def blur_same)
qed

lemma matches_ListTokens: "stores_agree w m \<Longrightarrow> matches D t (OpListTokens i) w m"
  by (simp add: pg_ListTokens_def mem_ListTokens_def lift_err_def) (simp add: stores_agree_def)

text \<open>An update of one account by id, and the change of the map entry.\<close>

lemma change_matches:
  assumes "stores_agree w m" and f: "\<And>r. u_id (f r) = u_id r"
    and fg: "\<And>u v. same_account w u v \<Longrightarrow> same_account w (f u) (g v)"
  obtains (unknown) "mem_find i m = None" "affected (\<lambda>u. u_id u = i) (accounts w) = 0"
      "update_where (\<lambda>u. u_id u = i) f (accounts w) = accounts w" "i \<notin> account_ids w"
  | (known) v where "mem_find i m = Some v" "affected (\<lambda>u. u_id u = i) (accounts w) \<noteq> 0"
      "stores_agree (w\<lparr>accounts := update_where (\<lambda>u. u_id u = i) f (accounts w)\<rparr>) (mem_put (g v) m)"
      "i \<in> account_ids w"
proof (cases "find (\<lambda>u. u_id u = i) (accounts w)")
  case None
  then have "mem_find i m = None" using agree_find_id [OF assms(1), of i] by simp
  moreover have "i \<notin> account_ids w" using None by (auto simp: find_None_iff account_ids_def)
  ultimately show ?thesis
    using unknown agree_unchanged [OF assms(1) None] by simp
next
  case (Some u)
  then obtain v where v: "mem_find i m = Some v" "same_account w u v"
    using agree_find_id [OF assms(1), of i] by (auto simp: option_rel_Some1)
  have u: "u \<in> set (accounts w)" "u_id u = i" using Some by (auto dest: find_in)
  let ?w = "w\<lparr>accounts := update_where (\<lambda>u. u_id u = i) f (accounts w)\<rparr>"
  have "stores_agree ?w (mem_put (g v) m)"
  proof (rule agree_change [OF assms(1) Some, where P = "\<lambda>u. u_id u = i" and f = f])
    show "same_account ?w (if u_id u = i then f u else u) (g v)"
      using fg [OF v(2)] u by (simp add: same_account_cong [of ?w w])
    show "fst ` set (grants ?w) \<subseteq> account_ids w" using assms(1) by (simp add: stores_agree_def)
  qed (simp_all add: f grants_of_def)
  moreover have "affected (\<lambda>u. u_id u = i) (accounts w) \<noteq> 0" "i \<in> account_ids w"
    using u by (auto simp: affected_0_iff account_ids_def)
  ultimately show ?thesis using known v(1) by blast
qed

lemma same_account_upd:
  assumes "same_account w u v"
  shows "same_account w (u\<lparr>u_salt := s, u_hash := h, u_updated := t\<rparr>) (v\<lparr>u_salt := s, u_hash := h, u_updated := t'\<rparr>)"
    and "same_account w (u\<lparr>u_totp := x, u_totp_verified := y, u_updated := t\<rparr>) (v\<lparr>u_totp := x, u_totp_verified := y, u_updated := t'\<rparr>)"
    and "same_account w (u\<lparr>u_last_login := l\<rparr>) (v\<lparr>u_last_login := l\<rparr>)"
  using assms by (cases u; auto simp: same_account_def)+

lemma mem_find_frame [simp]:
  "mem_find i (m\<lparr>tick := n\<rparr>) = mem_find i m" "mem_find i (m\<lparr>draws := n\<rparr>) = mem_find i m"
  by (simp_all add: mem_find_def)

lemma mem_put_frame [simp]:
  "mem_put v (m\<lparr>tick := n\<rparr>) = mem_put v m\<lparr>tick := n\<rparr>" "mem_put v (m\<lparr>draws := n\<rparr>) = mem_put v m\<lparr>draws := n\<rparr>"
  by (simp_all add: mem_put_def)

lemma put_frame [simp]:
  "stores_agree (w\<lparr>tick := n, accounts := us\<rparr>) m = stores_agree (w\<lparr>accounts := us\<rparr>) m"
  "stores_agree (w\<lparr>draws := n, accounts := us\<rparr>) m = stores_agree (w\<lparr>accounts := us\<rparr>) m"
  "stores_agree (w\<lparr>tick := n, draws := k, accounts := us\<rparr>) m = stores_agree (w\<lparr>accounts := us\<rparr>) m"
  by (rule stores_agree_cong; simp)+

lemma run_mem_change [simp]:
  "run_state (mem_change i f) m = (case mem_find i m of None \<Rightarrow> (Inl UNotFound, m) | Some u \<Rightarrow> run_state (f u) m)"
  by (simp add: mem_change_def split: option.split)

lemma run_mem_store [simp]: "run_state (mem_store u a) m = (Inr a, mem_put u m)"
  by (simp add: mem_store_def)

lemma matches_SetPassword:
  assumes "stores_agree w m" and rand: "\<And>d n. ud_rand D d n \<noteq> None" and "draws w = draws m"
  shows "matches D t (OpSetPassword i pw) w m"
proof -
  obtain s where s: "ud_rand D (draws m) 16 = Some s" using rand by blast
  let ?f = "\<lambda>u. u\<lparr>u_salt := s, u_hash := HashUserPassword D pw s, u_updated := t\<rparr>"
  show ?thesis
    by (rule change_matches [OF assms(1), of ?f ?f i])
      (use assms s in \<open>simp_all add: same_account_upd pg_SetPassword_def mem_SetPassword_def account_exec_def
         update_account_stmt_def rowsToErr_def\<close>)
qed

lemma matches_SetTotpSecret:
  assumes "stores_agree w m"
  shows "matches D t (OpSetTotpSecret i s) w m"
proof -
  let ?f = "\<lambda>u. u\<lparr>u_totp := s, u_totp_verified := None, u_updated := t\<rparr>"
  show ?thesis
    by (rule change_matches [OF assms(1), of ?f ?f i])
      (use assms in \<open>simp_all add: same_account_upd pg_SetTotpSecret_def mem_SetTotpSecret_def account_exec_def
         update_account_stmt_def rowsToErr_def\<close>)
qed

lemma matches_ClearTotp:
  assumes "stores_agree w m"
  shows "matches D t (OpClearTotp i) w m"
proof -
  let ?f = "\<lambda>u. u\<lparr>u_totp := [], u_totp_verified := None, u_updated := t\<rparr>"
  show ?thesis
    by (rule change_matches [OF assms(1), of ?f ?f i])
      (use assms in \<open>simp_all add: same_account_upd pg_ClearTotp_def mem_ClearTotp_def account_exec_def
         update_account_stmt_def rowsToErr_def\<close>)
qed

lemma matches_MarkLoggedIn:
  assumes "stores_agree w m" and "i \<in> account_ids w"
  shows "matches D t (OpMarkLoggedIn i) w m"
proof -
  let ?f = "\<lambda>u. u\<lparr>u_last_login := Some t\<rparr>"
  show ?thesis
    by (rule change_matches [OF assms(1), of ?f ?f i])
      (use assms in \<open>simp_all add: same_account_upd pg_MarkLoggedIn_def mem_MarkLoggedIn_def account_exec_def
         update_account_stmt_def rowsToErr_def\<close>)
qed

lemma matches_VerifyTotp:
  assumes agree: "stores_agree w m"
  shows "matches D t (OpVerifyTotp i) w m"
proof -
  let ?P = "\<lambda>u. u_id u = i \<and> u_totp u \<noteq> []"
  let ?f = "\<lambda>u. u\<lparr>u_totp_verified := Some t, u_updated := t\<rparr>"
  let ?w = "w\<lparr>accounts := update_where ?P ?f (accounts w)\<rparr>"
  show ?thesis
  proof (cases "find (\<lambda>u. u_id u = i) (accounts w)")
    case None
    then have "mem_find i m = None" using agree_find_id [OF agree, of i] by simp
    moreover have "i \<notin> u_id ` set (accounts w)" using None by (auto simp: find_None_iff)
    ultimately show ?thesis
      using agree_unchanged [OF agree None, of ?P] agree
      by (simp add: pg_VerifyTotp_def mem_VerifyTotp_def verify_totp_stmt_def)
  next
    case (Some u)
    then obtain v where v: "mem_find i m = Some v" "same_account w u v"
      using agree_find_id [OF agree, of i] by (auto simp: option_rel_Some1)
    have u: "u \<in> set (accounts w)" "u_id u = i" using Some by (auto dest: find_in)
    have totp: "u_totp v = u_totp u" using v(2) by (auto simp: same_account_def)
    have only: "r = u" if "r \<in> set (accounts w)" "u_id r = i" for r
      using distinct_ids_unique [OF stores_agreeD(4) [OF agree] Some that(1)] that(2) u by simp
    show ?thesis
    proof (cases "u_totp u = []")
      case True
      then have "affected ?P (accounts w) = 0" using only by (auto simp: affected_0_iff)
      moreover from this have "update_where ?P ?f (accounts w) = accounts w" by (rule update_where_none)
      moreover have "i \<in> u_id ` set (accounts w)" using u by auto
      ultimately show ?thesis
        using v totp True agree by (simp add: pg_VerifyTotp_def mem_VerifyTotp_def verify_totp_stmt_def)
    next
      case False
      have "stores_agree ?w (mem_put (?f v) m)"
      proof (rule agree_change [OF agree Some, where P = ?P and f = ?f])
        show "same_account ?w (if ?P u then ?f u else u) (?f v)"
          using v(2) u False by (cases u) (auto simp: same_account_def grants_of_def)
        show "fst ` set (grants ?w) \<subseteq> account_ids w" using agree by (simp add: stores_agree_def)
      qed (simp_all add: grants_of_def)
      moreover have "affected ?P (accounts w) \<noteq> 0"
        unfolding affected_0_iff using u False by blast
      ultimately show ?thesis
        using v totp False by (simp add: pg_VerifyTotp_def mem_VerifyTotp_def verify_totp_stmt_def Let_def)
    qed
  qed
qed

subsection \<open>Tokens\<close>

lemma token_frame [simp]:
  "mem_put_token tk (m\<lparr>tick := n\<rparr>) = mem_put_token tk m\<lparr>tick := n\<rparr>"
  "mem_put_token tk (m\<lparr>draws := n\<rparr>) = mem_put_token tk m\<lparr>draws := n\<rparr>"
  "stores_agree (w\<lparr>tick := n, draws := k, tokens := ts\<rparr>) m = stores_agree (w\<lparr>tokens := ts\<rparr>) m"
  "stores_agree (w\<lparr>tick := n, tokens := ts\<rparr>) m = stores_agree (w\<lparr>tokens := ts\<rparr>) m"
  "stores_agree (w\<lparr>draws := n, tokens := ts\<rparr>) m = stores_agree (w\<lparr>tokens := ts\<rparr>) m"
  "stores_agree w (m\<lparr>tick := n, m_tokens := ts\<rparr>) = stores_agree w (m\<lparr>m_tokens := ts\<rparr>)"
  "fill (w\<lparr>tick := n, tokens := ts\<rparr>) = fill w"
  by (simp_all add: mem_put_token_def fill_def fun_eq_iff grants_of_def) (rule stores_agree_cong; simp)+

lemma agree_tokens:
  assumes "stores_agree w m"
    and "accounts w' = accounts w" "grants w' = grants w" "m_users m' = m_users m"
    and "tokens w' = m_tokens m'"
    and "map_of (m_token_by m') = map_of (map (\<lambda>t. (tk_hash t, tk_id t)) (tokens w'))"
    and "distinct (map tk_id (tokens w'))" "distinct (map tk_hash (tokens w'))"
    and "tk_user ` set (tokens w') \<subseteq> account_ids w"
  shows "stores_agree w' m'"
  using assms(1) assms(5-9) unfolding stores_agree_def account_ids_def
  by (simp add: assms(2-4) same_account_cong [OF assms(3)])

lemma map_of_token_hash:
  "map_of (map (\<lambda>t. (tk_hash t, tk_id t)) ts) h = map_option tk_id (find (\<lambda>t. tk_hash t = h) ts)"
  by (induction ts) auto

lemma find_by_id_of_hash:
  assumes "distinct (map tk_id ts)" "find (\<lambda>t. tk_hash t = h) ts = Some tk"
  shows "find (\<lambda>t. tk_id t = tk_id tk) ts = Some tk"
  using assms by (induction ts) (auto split: if_splits dest: find_in)

lemma agree_token:
  assumes "stores_agree w m"
  shows "mem_token h m = find (\<lambda>t. tk_hash t = h) (m_tokens m)"
  using stores_agreeD(3,5) [OF assms] find_by_id_of_hash [of "m_tokens m" h]
  by (auto simp: mem_token_def map_of_token_hash split: option.split)

lemma map_of_filter_key: "map_of (filter (\<lambda>(h, j). h \<noteq> k) xs) = (map_of xs)(k := None)"
  by (induction xs) (auto simp: fun_eq_iff)

lemma map_of_revoked:
  assumes "\<And>k. k \<in> set ts \<Longrightarrow> tk_hash k = h \<longleftrightarrow> tk_id k = i"
  shows "(map_of (map (\<lambda>k. (tk_hash k, tk_id k)) ts))(h := None) =
    map_of (map (\<lambda>k. (tk_hash k, tk_id k)) (filter (\<lambda>k. tk_id k \<noteq> i) ts))"
proof
  fix x
  show "((map_of (map (\<lambda>k. (tk_hash k, tk_id k)) ts))(h := None)) x =
      map_of (map (\<lambda>k. (tk_hash k, tk_id k)) (filter (\<lambda>k. tk_id k \<noteq> i) ts)) x"
    using assms by (induction ts) (auto split: if_splits)
qed

lemma matches_RevokeToken:
  assumes agree: "stores_agree w m"
  shows "matches D t (OpRevokeToken i) w m"
proof (cases "find (\<lambda>k. tk_id k = i) (m_tokens m)")
  case None
  then have "affected (\<lambda>k. tk_id k = i) (m_tokens m) = 0" "filter (\<lambda>k. tk_id k \<noteq> i) (m_tokens m) = m_tokens m"
    by (auto simp: affected_0_iff find_None_iff filter_id_conv)
  then show ?thesis
    using None agree stores_agreeD(2) [OF agree]
    by (simp add: pg_RevokeToken_def mem_RevokeToken_def delete_token_stmt_def rowsToErr_def)
       (rule stores_agree_cong [THEN iffD1, OF _ _ _ _ _ _ agree]; simp)
next
  case (Some tk)
  note facts = stores_agreeD [OF agree]
  have tk: "tk \<in> set (m_tokens m)" "tk_id tk = i" using Some by (auto dest: find_in)
  let ?ts = "filter (\<lambda>k. tk_id k \<noteq> i) (m_tokens m)"
  have "map_of (filter (\<lambda>(h, j). h \<noteq> tk_hash tk) (m_token_by m)) = (map_of (m_token_by m))(tk_hash tk := None)"
    by (rule map_of_filter_key)
  also have "\<dots> = map_of (map (\<lambda>k. (tk_hash k, tk_id k)) ?ts)"
  proof -
    have "tk_hash k = tk_hash tk \<longleftrightarrow> tk_id k = i" if "k \<in> set (m_tokens m)" for k
      using that tk facts(5,6) by (auto simp: distinct_map inj_on_def)
    then show ?thesis using facts(3) map_of_revoked [of "m_tokens m" "tk_hash tk" i] by simp
  qed
  finally have by_hash: "map_of (filter (\<lambda>(h, j). h \<noteq> tk_hash tk) (m_token_by m)) = map_of (map (\<lambda>k. (tk_hash k, tk_id k)) ?ts)" .
  have "affected (\<lambda>k. tk_id k = i) (m_tokens m) \<noteq> 0" using tk by (auto simp: affected_0_iff)
  then show ?thesis
    using Some facts(2) by_hash
    by (simp add: pg_RevokeToken_def mem_RevokeToken_def delete_token_stmt_def rowsToErr_def)
       (rule agree_tokens [OF agree]; use facts in \<open>auto simp: distinct_map_filter\<close>)
qed

lemma matches_CreateToken:
  assumes agree: "stores_agree w m" and d: "draws w = draws m"
    and ok: "op_ok D (draws w) (OpCreateToken i n ttl) w"
  shows "matches D t (OpCreateToken i n ttl) w m"
proof -
  note facts = stores_agreeD [OF agree]
  note ids = agree_find_id [OF agree, of i]
  show ?thesis
  proof (cases "find (\<lambda>u. u_id u = i) (accounts w)")
    case None
    then show ?thesis using ids agree by (simp add: pg_CreateToken_def mem_CreateToken_def pg_getRow_def)
  next
    case (Some u)
    then obtain v where v: "mem_find i m = Some v" using ids by (auto simp: option_rel_Some1)
    have i: "i \<in> u_id ` set (accounts w)" using Some by (auto dest: find_in)
    show ?thesis
    proof (cases "ud_rand D (draws m) 32")
      case None
      then show ?thesis
        using Some v agree d by (simp add: pg_CreateToken_def mem_CreateToken_def pg_getRow_def MintAPIKey_def)
    next
      case r: (Some r)
      show ?thesis
      proof (cases "ud_rand D (Suc (draws m)) 6")
        case None
        then show ?thesis using Some r v agree d
          by (simp add: pg_CreateToken_def mem_CreateToken_def pg_getRow_def MintAPIKey_def newTokenID_def)
      next
        case s: (Some s)
        define tk where "tk = new_token (''apit-'' @ hex_encode s) i n (''rmm_'' @ hex_encode r) (expiry ttl t) t"
        have fresh: "tk_id tk \<notin> tk_id ` set (m_tokens m)" "tk_hash tk \<notin> tk_hash ` set (m_tokens m)"
          using ok r s d facts(2) by (simp_all add: tk_def new_token_def)
        have uid: "tk_user tk = i" by (simp add: tk_def new_token_def)
        have unmapped: "map_of (map (\<lambda>k. (tk_hash k, tk_id k)) (m_tokens m)) (tk_hash tk) = None"
          unfolding map_of_token_hash option.map_disc_iff find_None_iff using fresh(2) by (metis imageI)
        have by_hash: "map_of ((tk_hash tk, tk_id tk) # filter (\<lambda>(h, j). h \<noteq> tk_hash tk) (m_token_by m)) =
            map_of (map (\<lambda>k. (tk_hash k, tk_id k)) (m_tokens m @ [tk]))"
          using unmapped facts(3) by (auto simp: map_of_filter_key fun_eq_iff map_add_def split: option.split)
        have "stores_agree (w\<lparr>tokens := m_tokens m @ [tk]\<rparr>) (mem_put_token tk m)"
          by (rule agree_tokens [OF agree]; use facts fresh uid i by_hash in
              \<open>simp add: mem_put_token_def account_ids_def\<close>)
        then show ?thesis
          using Some r s v d fresh facts(2) i uid
          by (simp add: pg_CreateToken_def mem_CreateToken_def pg_getRow_def MintAPIKey_def newTokenID_def
              insert_token_stmt_def flip: tk_def [simplified])
      qed
    qed
  qed
qed

lemma matches_VerifyToken:
  assumes agree: "stores_agree w m"
  shows "matches D t (OpVerifyToken tok) w m"
proof (cases "find (\<lambda>k. tk_hash k = hashAPIToken tok) (m_tokens m)")
  case None
  then show ?thesis
    using agree stores_agreeD(2) [OF agree] agree_token [OF agree]
    by (simp add: pg_VerifyToken_def mem_VerifyToken_def token_owner_def mem_token_def)
next
  case (Some tk)
  note facts = stores_agreeD [OF agree]
  define h where "h = hashAPIToken tok"
  have tk: "tk \<in> set (m_tokens m)" "tk_hash tk = h" using Some by (auto dest: find_in simp: h_def)
  have "tk_user tk \<in> account_ids w" using tk(1) facts(8) by auto
  then obtain u where u: "find (\<lambda>u. u_id u = tk_user tk) (accounts w) = Some u"
    by (cases "find (\<lambda>u. u_id u = tk_user tk) (accounts w)") (auto simp: find_None_iff account_ids_def)
  then obtain v where v: "mem_find (tk_user tk) m = Some v" "same_account w u v"
    using agree_find_id [OF agree, of "tk_user tk"] by (auto simp: option_rel_Some1)
  have enabled: "u_enabled v = u_enabled u" using v(2) by (auto simp: same_account_def)
  have owner: "token_owner h w' = Some (u, tk_expires tk)"
    if "accounts w' = accounts w" "tokens w' = tokens w" for w'
    using Some u facts(2) by (simp add: token_owner_def h_def that)
  have found: "mem_token h m = Some tk" using agree_token [OF agree] Some by (simp add: h_def)
  have same: "update_where (\<lambda>k. tk_hash k = h) f (m_tokens m) = update_where (\<lambda>k. tk_id k = tk_id tk) f (m_tokens m)" for f
    unfolding update_where_def using tk facts(5,6) by (auto simp: distinct_map inj_on_def)
  let ?f = "\<lambda>k. k\<lparr>tk_last_used := Some t\<rparr>"
  let ?ts = "update_where (\<lambda>k. tk_id k = tk_id tk) ?f (m_tokens m)"
  have keys: "map (\<lambda>k. (tk_hash k, tk_id k)) ?ts = map (\<lambda>k. (tk_hash k, tk_id k)) (m_tokens m)"
    "map tk_id ?ts = map tk_id (m_tokens m)" "map tk_hash ?ts = map tk_hash (m_tokens m)"
    by (rule map_update_where; simp)+
  have "map tk_user ?ts = map tk_user (m_tokens m)" by (rule map_update_where) simp
  then have owners: "tk_user ` set ?ts = tk_user ` set (m_tokens m)" by (metis list.set_map)
  have "stores_agree (w\<lparr>tokens := ?ts\<rparr>) (m\<lparr>m_tokens := ?ts\<rparr>)"
    by (rule agree_tokens [OF agree])
      (use facts keys owners in simp_all)
  then show ?thesis
    using u v owner enabled found same agree facts(2) blur_same [OF v(2)]
    by (cases "tk_expires tk")
      (simp_all add: pg_VerifyToken_def mem_VerifyToken_def stamp_token_stmt_def expired_def flip: h_def)
qed

subsection \<open>Creation and update\<close>

lemma set_trim_dedup: "set (trim_dedup seen cs) \<inter> set seen = {}" "distinct (trim_dedup seen cs)"
  by (induction seen cs rule: trim_dedup.induct) (auto simp: Let_def)

lemma normalizeClientIDs_sorted: "sorted (normalizeClientIDs cs)" "distinct (normalizeClientIDs cs)"
  by (simp_all add: normalizeClientIDs_def set_trim_dedup)

lemma run_insert_grants:
  assumes "set cs \<subseteq> set (known_clients w)" "i \<in> u_id ` set (accounts w)" "distinct cs"
    and "\<And>c. c \<in> set cs \<Longrightarrow> (i, c) \<notin> set (grants w)"
  shows "run_state (insert_grants (calm t) i cs) w =
    (Inr (), w\<lparr>tick := tick w + length cs, grants := grants w @ map (Pair i) cs\<rparr>)"
  using assms
proof (induction cs arbitrary: w)
  case (Cons c cs)
  then have stmt: "insert_grant_stmt i c (w\<lparr>tick := Suc (tick w)\<rparr>) =
      (Inr (), w\<lparr>tick := Suc (tick w), grants := grants w @ [(i, c)]\<rparr>)"
    by (simp add: insert_grant_stmt_def)
  have "run_state (insert_grants (calm t) i cs) (w\<lparr>tick := Suc (tick w), grants := grants w @ [(i, c)]\<rparr>) =
      (Inr (), w\<lparr>tick := Suc (tick w) + length cs, grants := grants w @ (i, c) # map (Pair i) cs\<rparr>)"
    using Cons.IH [of "w\<lparr>tick := Suc (tick w), grants := grants w @ [(i, c)]\<rparr>"] Cons.prems by auto
  with stmt show ?case by simp
qed simp

lemma run_insertGrants:
  assumes "grantable w cs" "i \<in> account_ids w" "i \<notin> fst ` set (grants w)"
  shows "run_state (insertGrants (calm t) i cs) w =
    (Inr (), w\<lparr>tick := tick w + length (normalizeClientIDs cs),
               grants := grants w @ map (Pair i) (normalizeClientIDs cs)\<rparr>)"
  unfolding insertGrants_def using assms normalizeClientIDs_sorted(2)
  by (intro run_insert_grants) (force simp: grantable_def account_ids_def)+

lemma grants_of_append:
  assumes "i \<notin> fst ` set gs" "grants w = gs @ map (Pair i) (normalizeClientIDs cs)"
  shows "grants_of w i = normalizeClientIDs cs"
    and "j \<noteq> i \<Longrightarrow> grants_of w j = sort (map snd (filter (\<lambda>(u, c). u = j) gs))"
proof -
  have "filter (\<lambda>(u, c). u = i) gs = []" using assms(1) by (force simp: filter_empty_conv)
  moreover have "filter (\<lambda>(u, c). u = i) (map (Pair i) xs) = map (Pair i) xs"
    "j \<noteq> i \<Longrightarrow> filter (\<lambda>(u, c). u = j) (map (Pair i) xs) = []" for xs :: "string list"
    by (induction xs) auto
  ultimately show "grants_of w i = normalizeClientIDs cs"
    and "j \<noteq> i \<Longrightarrow> grants_of w j = sort (map snd (filter (\<lambda>(u, c). u = j) gs))"
    by (simp_all add: grants_of_def assms(2) comp_def sorted_sort_id normalizeClientIDs_sorted(1))
qed

lemma name_taken_agree:
  assumes "stores_agree w m"
  shows "name_taken n (m_users m) = name_taken n (accounts w)"
  using stores_agreeD(1) [OF assms] unfolding name_taken_def
  by (induction rule: list_all2_induct) (auto simp: same_account_def)

lemma same_account_grants:
  "grants_of w' (u_id u) = grants_of w (u_id u) \<Longrightarrow> same_account w u v \<Longrightarrow> same_account w' u v"
  by (simp add: same_account_def)

lemma agree_append:
  assumes agree: "stores_agree w m" and fresh: "u_id row \<notin> account_ids w"
    and w': "accounts w' = accounts w @ [row]" "tokens w' = tokens w"
      "grants w' = grants w @ map (Pair (u_id row)) (normalizeClientIDs cs)"
    and v: "same_account w' row v"
  shows "stores_agree w' (mem_put v m)"
proof -
  note facts = stores_agreeD [OF agree]
  have none: "u_id row \<notin> fst ` set (grants w)" using fresh facts(7) by auto
  have "grants_of w' j = grants_of w j" if "j \<noteq> u_id row" for j
    using grants_of_append(2) [OF none w'(3) that] by (simp add: grants_of_def)
  moreover have "u_id u \<noteq> u_id row" if "u \<in> set (accounts w)" for u
    using fresh that by (metis account_ids_def imageI)
  ultimately have "list_all2 (same_account w') (accounts w) (m_users m)"
    by (intro list.rel_mono_strong [OF facts(1)]) (simp add: same_account_grants)
  moreover have "u_id v \<notin> u_id ` set (m_users m)"
    using agree_ids [OF agree] fresh same_account_id [OF v] by simp
  ultimately have users: "list_all2 (same_account w') (accounts w') (m_users (mem_put v m))"
    using v by (simp add: w' mem_put_def list_all2_appendI)
  show ?thesis
    unfolding stores_agree_def
    using users facts fresh by (auto simp: w' mem_put_def account_ids_def)
qed

lemma create_frame [simp]:
  "stores_agree (w\<lparr>draws := k, tick := n, accounts := us, grants := gs\<rparr>) m = stores_agree (w\<lparr>accounts := us, grants := gs\<rparr>) m"
  "stores_agree (w\<lparr>tick := n, grants := gs\<rparr>) m = stores_agree (w\<lparr>grants := gs\<rparr>) m"
  "stores_agree (w\<lparr>tick := n, draws := k, accounts := us, grants := gs\<rparr>) m = stores_agree (w\<lparr>accounts := us, grants := gs\<rparr>) m"
  "stores_agree (w\<lparr>draws := k, accounts := us, grants := gs\<rparr>) m = stores_agree (w\<lparr>accounts := us, grants := gs\<rparr>) m"
  "stores_agree (w\<lparr>tick := n, accounts := us, grants := gs\<rparr>) m = stores_agree (w\<lparr>accounts := us, grants := gs\<rparr>) m"
  by (rule stores_agree_cong; simp)+

lemma matches_Create:
  assumes agree: "stores_agree w m" and rand: "\<And>d n. ud_rand D d n \<noteq> None" and d: "draws w = draws m"
    and ok: "op_ok D (draws w) (OpCreate n role pw cs) w"
  shows "matches D t (OpCreate n role pw cs) w m"
proof (cases "ValidRole role")
  case False
  then show ?thesis using agree by (simp add: pg_Create_def mem_Create_def)
next
  case valid: True
  note facts = stores_agreeD [OF agree]
  obtain r where r: "ud_rand D (draws m) 6 = Some r" using rand by blast
  obtain s where s: "ud_rand D (Suc (draws m)) 16 = Some s" using rand by blast
  define i where "i = ''usr-'' @ hex_encode r"
  have fresh: "i \<notin> account_ids w" using ok r d by (simp add: i_def)
  then have new: "i \<notin> u_id ` set (accounts w)" by (simp add: account_ids_def)
  define row where "row = new_account D i n role pw s [] t"
  have row: "new_account D i n role pw s [] 0\<lparr>u_created := t, u_updated := t\<rparr> = row"
    "u_id (new_account D i n role pw s [] x) = i" "u_name (new_account D i n role pw s [] x) = n" "u_id row = i" for x
    by (simp_all add: row_def new_account_def)
  show ?thesis
  proof (cases "name_taken n (accounts w)")
    case True
    then show ?thesis
      using valid r s agree new d name_taken_agree [OF agree]
      by (simp add: pg_Create_def mem_Create_def newUserID_def pg_create_tx_def insert_account_stmt_def
          usersUsernameExists_def row Let_def flip: i_def [simplified])
  next
    case False
    let ?ns = "normalizeClientIDs cs"
    let ?w = "w\<lparr>accounts := accounts w @ [row], grants := grants w @ map (Pair i) ?ns\<rparr>"
    have none: "i \<notin> fst ` set (grants w)" using fresh facts(7) by auto
    have own: "grants_of ?w i = ?ns" by (rule grants_of_append(1) [OF none]) simp
    then have same: "same_account ?w row (new_account D i n role pw s ?ns t)"
      by (auto simp: same_account_def row_def new_account_def)
    have final: "stores_agree ?w (mem_put (new_account D i n role pw s ?ns t) m)"
      by (rule agree_append [OF agree _ _ _ _ same]) (use fresh in \<open>simp_all add: row\<close>)
    have ins: "run_state (insertGrants (calm t) i cs) (w\<lparr>draws := l, tick := k, accounts := accounts w @ [row]\<rparr>) =
        (Inr (), w\<lparr>draws := l, tick := k + length ?ns, accounts := accounts w @ [row],
                   grants := grants w @ map (Pair i) ?ns\<rparr>)" for k l
      using ok none by (subst run_insertGrants) (simp_all add: grantable_def account_ids_def row)
    have result: "row\<lparr>u_clients := ?ns\<rparr> = new_account D i n role pw s ?ns t"
      by (simp add: row_def new_account_def)
    show ?thesis
      using valid r s new d False name_taken_agree [OF agree] final
      by (simp add: pg_Create_def mem_Create_def newUserID_def pg_create_tx_def insert_account_stmt_def
          commit_as_def row ins result Let_def flip: i_def [simplified])
  qed
qed

lemma run_replace_grants:
  assumes "grantable w cs" "i \<in> account_ids w"
  shows "run_state (replace_grants (calm t) i (Some cs)) w =
    (Inr (), w\<lparr>tick := Suc (tick w) + length (normalizeClientIDs cs),
       grants := filter (\<lambda>(u, c). u \<noteq> i) (grants w) @ map (Pair i) (normalizeClientIDs cs)\<rparr>)"
proof -
  let ?w = "w\<lparr>tick := Suc (tick w), grants := filter (\<lambda>(u, c). u \<noteq> i) (grants w)\<rparr>"
  have "run_state (insertGrants (calm t) i cs) ?w = (Inr (), ?w\<lparr>tick := tick ?w + length (normalizeClientIDs cs),
      grants := grants ?w @ map (Pair i) (normalizeClientIDs cs)\<rparr>)"
    by (rule run_insertGrants) (use assms in \<open>auto simp: grantable_def account_ids_def\<close>)
  then show ?thesis by (simp add: replace_grants_def delete_grants_stmt_def)
qed

lemma run_replace_nothing:
  assumes "normalizeClientIDs cs = []"
  shows "run_state (replace_grants (calm t) i (Some cs)) w =
    (Inr (), w\<lparr>tick := Suc (tick w), grants := filter (\<lambda>(u, c). u \<noteq> i) (grants w)\<rparr>)"
  by (simp add: replace_grants_def delete_grants_stmt_def insertGrants_def assms)

lemma ids_update_where: "(\<And>r. u_id (f r) = u_id r) \<Longrightarrow> u_id ` set (update_where P f us) = u_id ` set us"
  by (metis list.set_map map_update_where)

text \<open>The tables after the transaction of an update.\<close>

definition grants_after :: "string \<Rightarrow> string list option \<Rightarrow> (string \<times> string) list \<Rightarrow> (string \<times> string) list" where
  "grants_after i clients gs =
     (case clients of None \<Rightarrow> gs
      | Some cs \<Rightarrow> filter (\<lambda>(u, c). u \<noteq> i) gs @ map (Pair i) (normalizeClientIDs cs))"

definition updated_tables :: "string \<Rightarrow> string option \<Rightarrow> bool option \<Rightarrow> string list option \<Rightarrow> time \<Rightarrow> account_world \<Rightarrow> account_world" where
  "updated_tables i role en clients t w =
     w\<lparr>accounts := (if role \<noteq> None \<or> en \<noteq> None
          then update_where (\<lambda>u. u_id u = i) (\<lambda>u. (patch_account role en u)\<lparr>u_updated := t\<rparr>) (accounts w) else accounts w),
       grants := grants_after i clients (grants w)\<rparr>"

lemma run_update_tx:
  assumes "\<And>cs. clients = Some cs \<Longrightarrow> grantable w cs \<and> (i \<in> account_ids w \<or> normalizeClientIDs cs = [])"
  obtains n where "run_state (transaction (calm t) e (pg_update_tx (calm t) i role en clients)) w =
    (Inr (), updated_tables i role en clients t w\<lparr>tick := n\<rparr>)"
proof -
  have grants: "\<exists>n. run_state (replace_grants (calm t) i clients) w' =
      (Inr (), w'\<lparr>tick := n, grants := grants_after i clients (grants w')\<rparr>)"
    if w': "account_ids w' = account_ids w" "known_clients w' = known_clients w" for w'
  proof (cases clients)
    case None
    then show ?thesis by (auto simp: replace_grants_def grants_after_def intro!: exI [of _ "tick w'"])
  next
    case (Some cs)
    show ?thesis
    proof (cases "normalizeClientIDs cs = []")
      case True
      then show ?thesis using Some by (auto simp: run_replace_nothing grants_after_def)
    next
      case False
      then show ?thesis
        using assms [OF Some] Some w' by (auto simp: run_replace_grants grantable_def grants_after_def)
    qed
  qed
  let ?f = "\<lambda>u. (patch_account role en u)\<lparr>u_updated := t\<rparr>"
  have ids: "account_ids (w\<lparr>tick := k, accounts := update_where (\<lambda>u. u_id u = i) ?f (accounts w)\<rparr>) = account_ids w" for k
    by (simp add: account_ids_def ids_update_where patch_account_def)
  show ?thesis
  proof (cases "role \<noteq> None \<or> en \<noteq> None")
    case True
    from grants [OF ids, of "Suc (Suc (tick w))"]
    obtain n where "run_state (replace_grants (calm t) i clients)
        (w\<lparr>tick := Suc (Suc (tick w)), accounts := update_where (\<lambda>u. u_id u = i) ?f (accounts w)\<rparr>) =
        (Inr (), w\<lparr>accounts := update_where (\<lambda>u. u_id u = i) ?f (accounts w), tick := n,
                   grants := grants_after i clients (grants w)\<rparr>)"
      by auto
    then show ?thesis
      using True by (intro that [of "Suc n"])
        (simp add: pg_update_tx_def account_tx_def update_account_stmt_def commit_as_def updated_tables_def)
  next
    case False
    from grants [of "w\<lparr>tick := Suc (tick w)\<rparr>"]
    obtain n where "run_state (replace_grants (calm t) i clients) (w\<lparr>tick := Suc (tick w)\<rparr>) =
        (Inr (), w\<lparr>tick := n, grants := grants_after i clients (grants w)\<rparr>)"
      by (auto simp: account_ids_def)
    then show ?thesis
      using False by (intro that [of "Suc n"]) (simp add: pg_update_tx_def commit_as_def updated_tables_def)
  qed
qed

lemma updated_frame [simp]:
  "stores_agree (updated_tables i role en clients t w\<lparr>tick := n\<rparr>) m = stores_agree (updated_tables i role en clients t w) m"
  by (rule stores_agree_cong) simp_all

lemma grants_of_updated:
  "j \<noteq> i \<Longrightarrow> grants_of (updated_tables i role en clients t w) j = grants_of w j"
  "grants_of (updated_tables i role en clients t w) i =
     (case clients of None \<Rightarrow> grants_of w i | Some cs \<Rightarrow> normalizeClientIDs cs)"
proof -
  let ?gs = "filter (\<lambda>(u, c). u \<noteq> i) (grants w)"
  have none: "i \<notin> fst ` set ?gs" by auto
  have other: "filter (\<lambda>(u, c). u = j) ?gs = filter (\<lambda>(u, c). u = j) (grants w)" if "j \<noteq> i" for j
    using that by (auto intro!: filter_cong simp: filter_filter)
  show "grants_of (updated_tables i role en clients t w) j = grants_of w j" if "j \<noteq> i"
  proof (cases clients)
    case None
    then show ?thesis by (simp add: grants_of_def updated_tables_def grants_after_def)
  next
    case (Some cs)
    then have "grants (updated_tables i role en clients t w) = ?gs @ map (Pair i) (normalizeClientIDs cs)"
      by (simp add: updated_tables_def grants_after_def)
    from grants_of_append(2) [OF none this that] show ?thesis using other [OF that] by (simp add: grants_of_def)
  qed
  show "grants_of (updated_tables i role en clients t w) i =
     (case clients of None \<Rightarrow> grants_of w i | Some cs \<Rightarrow> normalizeClientIDs cs)"
  proof (cases clients)
    case None
    then show ?thesis by (simp add: grants_of_def updated_tables_def grants_after_def)
  next
    case (Some cs)
    then have "grants (updated_tables i role en clients t w) = ?gs @ map (Pair i) (normalizeClientIDs cs)"
      by (simp add: updated_tables_def grants_after_def)
    from grants_of_append(1) [OF none this] show ?thesis using Some by simp
  qed
qed

lemma matches_Update:
  assumes agree: "stores_agree w m" and ok: "op_ok D d (OpUpdate i role en clients) w"
  shows "matches D t (OpUpdate i role en clients) w m"
proof -
  note facts = stores_agreeD [OF agree]
  note ids = agree_find_id [OF agree, of i]
  obtain n where tx: "run_state (transaction (calm t) (Inl (UStore EDb)) (pg_update_tx (calm t) i role en clients)) w =
      (Inr (), updated_tables i role en clients t w\<lparr>tick := n\<rparr>)"
    by (rule run_update_tx [of clients w i t "Inl (UStore EDb)" role en]) (use ok in auto)
  let ?w = "updated_tables i role en clients t w"
  let ?f = "\<lambda>u. if role \<noteq> None \<or> en \<noteq> None then (patch_account role en u)\<lparr>u_updated := t\<rparr> else u"
  have f: "u_id (?f r) = u_id r" for r by (simp add: patch_account_def)
  have acc: "accounts ?w = update_where (\<lambda>u. u_id u = i) ?f (accounts w)"
    by (cases "role \<noteq> None \<or> en \<noteq> None") (simp_all add: updated_tables_def update_where_def del: not_None_eq)
  have find: "find (\<lambda>u. u_id u = i) (accounts ?w) = map_option ?f (find (\<lambda>u. u_id u = i) (accounts w))"
    unfolding acc by (subst find_update_where) (auto simp: patch_account_def find_Some_iff split: option.split intro!: option.map_cong)
  show ?thesis
  proof (cases "find (\<lambda>u. u_id u = i) (accounts w)")
    case None
    then have no: "mem_find i m = None" using ids by simp
    have unknown: "i \<notin> account_ids w" using None by (auto simp: find_None_iff account_ids_def)
    then have role: "\<not> bad_role role" and none: "\<And>cs. clients = Some cs \<Longrightarrow> normalizeClientIDs cs = []"
      using ok unknown by auto
    have "accounts ?w = accounts w" unfolding acc by (rule agree_unchanged [OF agree None]) simp
    moreover have "grants ?w = grants w"
    proof (cases clients)
      case (Some cs)
      have "filter (\<lambda>(u, c). u \<noteq> i) (grants w) = grants w"
        using unknown facts(7) by (force simp: filter_id_conv)
      moreover have "normalizeClientIDs cs = []" by (rule none) (rule Some)
      ultimately show ?thesis using Some by (simp add: updated_tables_def grants_after_def)
    qed (simp add: updated_tables_def grants_after_def)
    moreover have "tokens ?w = tokens w" by (simp add: updated_tables_def grants_after_def)
    ultimately have "stores_agree ?w m" using agree by (simp cong: stores_agree_cong)
    then show ?thesis
      using role no tx None find by (simp add: pg_Update_def mem_Update_def pg_Get_def pg_getRow_def)
  next
    case (Some u)
    then obtain v where v: "mem_find i m = Some v" "same_account w u v"
      using ids by (auto simp: option_rel_Some1)
    have u: "u \<in> set (accounts w)" "u_id u = i" using Some by (auto dest: find_in)
    let ?v = "(patch_account role en v)\<lparr>u_clients := (case clients of None \<Rightarrow> u_clients v | Some cs \<Rightarrow> normalizeClientIDs cs), u_updated := t\<rparr>"
    have same: "same_account ?w (?f u) ?v"
      using v(2) u(2) by (cases u) (auto simp: same_account_def grants_of_updated patch_account_def split: option.splits)
    have fk: "fst ` set (grants ?w) \<subseteq> account_ids w"
      using facts(7) u by (auto simp: updated_tables_def grants_after_def account_ids_def split: option.splits)
    have tok: "tokens ?w = tokens w" by (simp add: updated_tables_def)
    have same': "same_account ?w (if u_id u = i then ?f u else u) ?v" using same u by simp
    have final: "stores_agree ?w (mem_put ?v m)"
      by (rule agree_change [OF agree Some _ f acc tok _ fk same']) (assumption, rule grants_of_updated)
    show ?thesis
      using v tx Some find final blur_same [OF same] agree
      by (simp add: Let_def pg_Update_def mem_Update_def pg_Get_def pg_getRow_def)
  qed
qed

subsection \<open>The stores are interchangeable\<close>

lemmas simple = matches_List matches_Count matches_Get matches_GetByUsername matches_SetTotpSecret
  matches_VerifyTotp matches_ClearTotp matches_ListTokens matches_RevokeToken matches_VerifyToken

lemma matches_op:
  assumes "stores_agree w m" "draws w = draws m" "op_ok D (draws w) x w" "\<And>d n. ud_rand D d n \<noteq> None"
  shows "matches D t x w m"
proof (cases x)
  case (OpCreate n role pw cs)
  with assms show ?thesis using matches_Create [of w m D n role pw cs t] by simp
next
  case (OpCreateToken i n ttl)
  with assms show ?thesis using matches_CreateToken [of w m D i n ttl t] by simp
next
  case (OpUpdate i role en cs)
  with assms show ?thesis using matches_Update [of w m D "draws w" i role en cs t] by simp
next
  case (OpSetPassword i pw)
  with assms show ?thesis using matches_SetPassword [of w m D t i pw] by simp
next
  case (OpMarkLoggedIn i)
  with assms show ?thesis using matches_MarkLoggedIn [of w m i D t] by simp
qed (hypsubst, rule simple [OF assms(1)])+

lemma op_ok_frame [simp]: "op_ok D d x (w\<lparr>draws := n\<rparr>) = op_ok D d x w"
  by (cases "(D, d, x, w)" rule: op_ok.cases) (simp_all add: grantable_def account_ids_def)

lemma steps_match:
  assumes "stores_agree w m" "step_ok D x w" "\<And>d n. ud_rand D d n \<noteq> None"
  shows "fst (pg_step D x w) = fst (mem_step D x m)"
    and "stores_agree (snd (pg_step D x w)) (snd (mem_step D x m))"
proof -
  obtain t d op1 where x: "x = (t, d, op1)" by (cases x)
  from assms x have "matches D t op1 (w\<lparr>draws := d\<rparr>) (m\<lparr>draws := d\<rparr>)"
    by (intro matches_op) (simp_all add: step_ok_def)
  then show "fst (pg_step D x w) = fst (mem_step D x m)"
    and "stores_agree (snd (pg_step D x w)) (snd (mem_step D x m))"
    by (simp_all add: x pg_step_def mem_step_def apfst_def map_prod_def split_beta)
qed

text \<open>A random source that answers; which draw gives what stays open.\<close>

definition sure :: "user_deps \<Rightarrow> user_deps" where
  "sure D = D\<lparr>ud_rand := \<lambda>d n. Some (case ud_rand D d n of None \<Rightarrow> [] | Some r \<Rightarrow> r)\<rparr>"

interpretation stores: simulation "pg_step (sure D)" "mem_step (sure D)" stores_agree "step_ok (sure D)" for D
  by unfold_locales (rule steps_match; simp add: sure_def)+

lemma sure_id: "(\<And>d n. ud_rand D d n \<noteq> None) \<Longrightarrow> sure D = D"
  by (cases D) (auto simp: sure_def fun_eq_iff split: option.split)

end

