(* ===== verification/Rbac.thy ===== *)
theory Rbac
  imports Users_Store Http
begin

section \<open>Operator sessions and the gates of the HTTP API\<close>

text \<open>
  \<^verbatim>\<open>server/internal/users/rbac.go\<close>, \<^verbatim>\<open>users/jwt.go\<close> and the gates of \<^verbatim>\<open>httpapi/domain_users.go\<close>. The JWT
  library is a parameter: \<open>rb_jwt\<close> gives the claims of a token that verifies under the server's secret
  with HS256 at a time. A handler behind a gate is a function of the session the gate resolved; a
  denial carries its literal body.
\<close>

subsection \<open>Session tokens\<close>

record claims =
  cl_role :: string
  cl_user :: string
  cl_caps :: "string list"
  cl_subject :: string
  cl_issuer :: string
  cl_issued :: time
  cl_expires :: time

record session =
  ss_user :: string
  ss_role :: string
  ss_caps :: "string list"
  ss_legacy :: bool
  ss_all :: bool
  ss_clients :: "string list"
  ss_active :: string

text \<open>The \<^verbatim>\<open>Authorization\<close> header and the query parameters \<^verbatim>\<open>token\<close> and \<^verbatim>\<open>client\<close>; an absent one is empty.\<close>

record credential =
  rq_auth :: string
  rq_token :: string
  rq_client :: string

record rbac =
  rb_jwt :: "time \<Rightarrow> string \<Rightarrow> claims option"
  rb_users :: bool
  rb_env :: "account_world env"

definition session_claims :: "string list \<Rightarrow> string \<Rightarrow> string \<Rightarrow> time \<Rightarrow> duration \<Rightarrow> claims" where
  "session_claims caps role user t lifetime =
     \<lparr>cl_role = role, cl_user = user, cl_caps = caps, cl_subject = ''operator'', cl_issuer = ''rmmway'',
      cl_issued = t, cl_expires = t + lifetime\<rparr>"

definition ParseSessionJWT :: "rbac \<Rightarrow> time \<Rightarrow> string \<Rightarrow> claims option" where
  "ParseSessionJWT R t tok =
     (case rb_jwt R t tok of
        None \<Rightarrow> None
      | Some c \<Rightarrow> if cl_subject c \<noteq> ''operator'' \<or> cl_issuer c \<noteq> ''rmmway'' then None else Some c)"

definition IdentityFromClaims :: "claims \<Rightarrow> session" where
  "IdentityFromClaims c =
     \<lparr>ss_user = cl_user c, ss_role = (if cl_role c = [] then ''admin'' else cl_role c), ss_caps = cl_caps c,
      ss_legacy = (cl_role c = []), ss_all = False, ss_clients = [], ss_active = []\<rparr>"

subsection \<open>Resolving a request\<close>

definition CanSeeClient :: "session \<Rightarrow> string \<Rightarrow> bool" where
  "CanSeeClient s c \<longleftrightarrow> ss_all s \<or> c \<in> set (ss_clients s)"

definition TokenFromRequest :: "credential \<Rightarrow> string" where
  "TokenFromRequest r =
     (let t = TrimSpace (drop 7 (rq_auth r)) in
      if HasPrefix (ToLower (rq_auth r)) ''bearer '' \<and> t \<noteq> [] then t else rq_token r)"

definition sessionFromUser :: "account \<Rightarrow> session" where
  "sessionFromUser u =
     (let all1 = (u_role u = ''admin'') in
      \<lparr>ss_user = u_name u, ss_role = u_role u, ss_caps = [], ss_legacy = False, ss_all = all1,
       ss_clients = (if all1 then [] else u_clients u), ss_active = []\<rparr>)"

definition session_from_token :: "rbac \<Rightarrow> string \<Rightarrow> (session option) pm" where
  "session_from_token R tok =
     (if \<not> rb_users R then State_Monad.return None
      else do {
        r \<leftarrow> pg_VerifyToken (rb_env R) tok;
        State_Monad.return (case r of Inl e \<Rightarrow> None | Inr u \<Rightarrow> Some (sessionFromUser u))
      })"

definition live_session :: "rbac \<Rightarrow> session \<Rightarrow> (session option) pm" where
  "live_session R s = do {
     r \<leftarrow> pg_GetByUsername (rb_env R) (ss_user s);
     State_Monad.return (case r of
        Inl e \<Rightarrow> None
      | Inr u \<Rightarrow> if \<not> u_enabled u then None else Some ((sessionFromUser u)\<lparr>ss_caps := ss_caps s\<rparr>))
   }"

definition SessionFromRequest :: "rbac \<Rightarrow> credential \<Rightarrow> (session option) pm" where
  "SessionFromRequest R r =
     (let tok = TokenFromRequest r in
      if tok = [] then State_Monad.return None
      else if HasPrefix tok ''rmm_'' then session_from_token R tok
      else do {
        t \<leftarrow> now (rb_env R);
        (case ParseSessionJWT R t tok of
           None \<Rightarrow> State_Monad.return None
         | Some c \<Rightarrow>
             let i = IdentityFromClaims c; s = i\<lparr>ss_all := (ss_role i = ''admin'')\<rparr> in
             if rb_users R \<and> \<not> ss_all s then live_session R s
             else State_Monad.return (Some s))
      })"

definition Allows :: "session \<Rightarrow> string list \<Rightarrow> bool" where
  "Allows s roles \<longleftrightarrow> (if ss_legacy s then ''admin'' else ss_role s) \<in> set roles"

subsection \<open>Gates\<close>

text \<open>The body of an answer: text written as it stands, or what the handler encodes.\<close>

datatype 'b gated = Raw string | Body 'b

type_synonym 'b handler = "session \<Rightarrow> ('b gated response) pm"

definition hex_nibble :: "nat \<Rightarrow> char" where
  "hex_nibble n = hex_digits ! n"

text \<open>Go ranges over the runes; every byte of a rune beyond ASCII is above \<^verbatim>\<open>0x20\<close> and stays.\<close>

definition json_char :: "char \<Rightarrow> string" where
  "json_char c =
     (let n = of_char c :: nat in
      if c = CHR 0x22 then [CHR 0x5C, CHR 0x22]
      else if c = CHR 0x5C then [CHR 0x5C, CHR 0x5C]
      else if n < 32 then [CHR 0x5C, CHR ''u'', hex_nibble (n div 16), hex_nibble (n mod 16)]
      else [c])"

definition jsonString :: "string \<Rightarrow> string" where
  "jsonString s = concat (map json_char s)"

definition unauthorized_body :: string where
  "unauthorized_body = ''{'' @ [CHR 0x22] @ ''error'' @ [CHR 0x22] @ '':'' @ [CHR 0x22] @ ''unauthorized'' @ [CHR 0x22] @ ''}''"

definition role_body :: string where
  "role_body = ''{'' @ [CHR 0x22] @ ''error'' @ [CHR 0x22] @ '':'' @ [CHR 0x22] @ ''forbidden: insufficient role'' @ [CHR 0x22] @ ''}''"

definition client_body :: "string \<Rightarrow> string" where
  "client_body c =
     ''{'' @ [CHR 0x22] @ ''error'' @ [CHR 0x22] @ '':'' @ [CHR 0x22] @ ''forbidden: no access to client '' @ [CHR 0x22] @ ''}''
       @ jsonString c @ [CHR 0x22] @ ''}''"

definition forbidden_body :: string where
  "forbidden_body = ''{'' @ [CHR 0x22] @ ''error'' @ [CHR 0x22] @ '':'' @ [CHR 0x22] @ ''forbidden'' @ [CHR 0x22] @ ''}''"

definition Require :: "rbac \<Rightarrow> 'b handler \<Rightarrow> credential \<Rightarrow> ('b gated response) pm" where
  "Require R h r = do {
     s \<leftarrow> SessionFromRequest R r;
     (case s of
        None \<Rightarrow> State_Monad.return (Resp 401 (Some (Raw unauthorized_body)))
      | Some x \<Rightarrow> h x)
   }"

definition RequireRole :: "rbac \<Rightarrow> string list \<Rightarrow> 'b handler \<Rightarrow> credential \<Rightarrow> ('b gated response) pm" where
  "RequireRole R roles h = Require R (\<lambda>s.
     if \<not> Allows s roles then State_Monad.return (Resp 403 (Some (Raw role_body))) else h s)"

definition RequireClientScope :: "rbac \<Rightarrow> 'b handler \<Rightarrow> credential \<Rightarrow> ('b gated response) pm" where
  "RequireClientScope R h r = Require R (\<lambda>s.
     if rq_client r \<noteq> [] \<and> \<not> CanSeeClient s (rq_client r)
     then State_Monad.return (Resp 403 (Some (Raw (client_body (rq_client r)))))
     else h (s\<lparr>ss_active := rq_client r\<rparr>)) r"

text \<open>The checks inside a handler; \<open>None\<close>: it goes on.\<close>

definition requireClientAccess :: "session \<Rightarrow> string \<Rightarrow> 'b gated response option" where
  "requireClientAccess s c = (if CanSeeClient s c then None else Some (Resp 403 (Some (Raw forbidden_body))))"

definition requireRole :: "session \<Rightarrow> string list \<Rightarrow> 'b gated response option" where
  "requireRole s roles = (if Allows s roles then None else Some (Resp 403 (Some (Raw forbidden_body))))"

definition hasCapability :: "session \<Rightarrow> string \<Rightarrow> bool" where
  "hasCapability s c \<longleftrightarrow> c \<in> set (ss_caps s)"

subsection \<open>What a session stands for\<close>

text \<open>The session is backed by an enabled account of the tables, with its role and its grants.\<close>

definition backed :: "account_world \<Rightarrow> session \<Rightarrow> bool" where
  "backed w s \<longleftrightarrow> (\<exists>u\<in>set (accounts w).
     u_enabled u \<and> u_name u = ss_user s \<and> u_role u = ss_role s \<and>
     ss_all s = (u_role u = ''admin'') \<and> \<not> ss_legacy s \<and>
     (\<not> ss_all s \<longrightarrow> ss_clients s = grants_of w (u_id u)))"

text \<open>Faults may occur, but nobody else writes to the tables.\<close>

definition undisturbed :: "'w env \<Rightarrow> bool" where
  "undisturbed E \<longleftrightarrow> (\<forall>n w. others E n w = w)"

lemma undisturbed_others: "undisturbed E \<Longrightarrow> others E n w = w"
  by (simp add: undisturbed_def)

end
