(* ===== verification/Setup.thy ===== *)
theory Setup
  imports Rbac "HOL-Library.AList"
begin

section \<open>The first-boot setup wizard\<close>

text \<open>
  \<^verbatim>\<open>server/internal/setup/store.go\<close> and \<^verbatim>\<open>setup/service.go\<close> with the routes of \<^verbatim>\<open>httpapi/setup.go\<close>: the
  wizard's tables, the one-time completion, the administrator it mints and the outbox settings. The
  re-issue of the organisation's root, the count of enrolled devices and the delivery of the test mail
  are parameters (computations that may change the world as they like and may fail).
\<close>

subsection \<open>State and parameters\<close>

record setup_request =
  sr_user :: string
  sr_password :: string
  sr_org :: string
  sr_smtp :: smtp_config

record stored =
  so_done :: bool
  so_admin :: string
  so_org :: string
  so_smtp :: smtp_config
  so_configured :: bool

datatype request_err = UserMissing | UserLength | UserSpaces | PasswordShort | PasswordLong | OrgMissing | OrgLong
  | BadSmtp smtp_err

datatype setup_err = SUnavailable | SRequest request_err | SSmtp smtp_err | SAlready | SDevices | SCount err
  | SReissue err | SRandom | SStore err | SMailOff | SMail err

record setup_deps =
  sd_env :: "account_world env"
  sd_users :: user_deps
  sd_store :: bool
  sd_ca :: "(string \<Rightarrow> (unit res) pm) option"
  sd_devices :: "((nat res) pm) option"
  sd_reissued :: "unit pm"
  sd_send :: "smtp_config \<Rightarrow> string \<Rightarrow> (unit res) pm"

subsection \<open>The Postgres store\<close>

definition setup_Done :: "account_world env \<Rightarrow> (bool res) pm" where
  "setup_Done E = do {
     r \<leftarrow> query E setup_row;
     State_Monad.return (case r of Inl e \<Rightarrow> Inl e | Inr None \<Rightarrow> Inr False | Inr (Some d) \<Rightarrow> Inr d)
   }"

definition mark_done_stmt :: "account_world \<Rightarrow> bool res \<times> account_world" where
  "mark_done_stmt w = (Inr True, w\<lparr>setup_row := Some True\<rparr>)"

definition upsert_admin_stmt :: "string \<Rightarrow> string \<Rightarrow> string \<Rightarrow> account_world \<Rightarrow> unit res \<times> account_world" where
  "upsert_admin_stmt user salt hash w = (Inr (), w\<lparr>admin_rows := AList.update user (salt, hash) (admin_rows w)\<rparr>)"

definition put_org_stmt :: "string \<Rightarrow> account_world \<Rightarrow> unit res \<times> account_world" where
  "put_org_stmt org w = (Inr (), w\<lparr>org_row := Some org\<rparr>)"

definition put_smtp_stmt :: "smtp_config \<Rightarrow> account_world \<Rightarrow> unit res \<times> account_world" where
  "put_smtp_stmt c w = (Inr (), w\<lparr>smtp_row := Some c\<rparr>)"

text \<open>A statement that ends the transaction when it fails.\<close>

definition tx_step :: "account_world env \<Rightarrow> (account_world \<Rightarrow> 'a res \<times> account_world) \<Rightarrow> (unit res tx_end) pm \<Rightarrow>
    (unit res tx_end) pm" where
  "tx_step E stmt rest = do {
     r \<leftarrow> tx_exec E stmt;
     (case r of Inl e \<Rightarrow> State_Monad.return (Rollback (Inl e)) | Inr _ \<Rightarrow> rest)
   }"

definition setup_store_Complete :: "account_world env \<Rightarrow> setup_request \<Rightarrow> string \<Rightarrow> string \<Rightarrow> (unit res) pm" where
  "setup_store_Complete E q salt hash =
     transaction E (Inl EDb)
       (tx_step E mark_done_stmt
         (tx_step E (upsert_admin_stmt (sr_user q) salt hash)
           (tx_step E (put_org_stmt (sr_org q))
             (tx_step E (put_smtp_stmt (sr_smtp q))
               (State_Monad.return (Commit (\<lambda>ce. case ce of None \<Rightarrow> Inr () | Some e \<Rightarrow> Inl e)))))))"

definition admin_names :: "account_world \<Rightarrow> string list" where
  "admin_names w = sort (map fst (admin_rows w))"

definition zero_stored :: stored where
  "zero_stored = \<lparr>so_done = False, so_admin = [], so_org = [], so_smtp = zero_smtp, so_configured = False\<rparr>"

definition setup_loadConfig :: "account_world env \<Rightarrow> stored \<Rightarrow> (stored res) pm" where
  "setup_loadConfig E st = do {
     ro \<leftarrow> query E org_row;
     (case ro of
        Inl e \<Rightarrow> State_Monad.return (Inl e)
      | Inr org \<Rightarrow> do {
          let st1 = (case org of None \<Rightarrow> st | Some n \<Rightarrow> st\<lparr>so_org := n\<rparr>);
          rs \<leftarrow> query E smtp_row;
          State_Monad.return (case rs of
             Inl e \<Rightarrow> Inl e
           | Inr None \<Rightarrow> Inr st1
           | Inr (Some c) \<Rightarrow> Inr (st1\<lparr>so_smtp := c, so_configured := IsConfigured c\<rparr>))
        })
   }"

definition setup_Load :: "account_world env \<Rightarrow> (stored res) pm" where
  "setup_Load E = do {
     rd \<leftarrow> setup_Done E;
     (case rd of
        Inl e \<Rightarrow> State_Monad.return (Inl e)
      | Inr d \<Rightarrow>
          if \<not> d then State_Monad.return (Inr zero_stored)
          else do {
            rn \<leftarrow> query E admin_names;
            (case rn of
               Inl e \<Rightarrow> State_Monad.return (Inl e)
             | Inr ns \<Rightarrow>
                 setup_loadConfig E (zero_stored\<lparr>so_done := True, so_admin := (if ns = [] then [] else hd ns)\<rparr>))
          })
   }"

text \<open>An error reads as "no such account".\<close>

definition AdminCredentials :: "account_world env \<Rightarrow> string \<Rightarrow> ((string \<times> string) option) pm" where
  "AdminCredentials E user = do {
     r \<leftarrow> query E (\<lambda>w. map_of (admin_rows w) user);
     State_Monad.return (case r of Inl e \<Rightarrow> None | Inr x \<Rightarrow> x)
   }"

definition AdminUsernames :: "account_world env \<Rightarrow> (string list res) pm" where
  "AdminUsernames E = query E admin_names"

definition setup_store_SaveSMTP :: "account_world env \<Rightarrow> smtp_config \<Rightarrow> (unit res) pm" where
  "setup_store_SaveSMTP E c = exec E (put_smtp_stmt c)"

definition setup_store_UpdatePassword :: "account_world env \<Rightarrow> string \<Rightarrow> string \<Rightarrow> string \<Rightarrow> (unit res) pm" where
  "setup_store_UpdatePassword E user salt hash = exec E (upsert_admin_stmt user salt hash)"

subsection \<open>The in-memory store\<close>

record mem_setup =
  ms_done :: bool
  ms_user :: string
  ms_salt :: string
  ms_hash :: string
  ms_org :: string
  ms_smtp :: smtp_config

definition ms_Complete :: "setup_request \<Rightarrow> string \<Rightarrow> string \<Rightarrow> mem_setup \<Rightarrow> (setup_err + unit) \<times> mem_setup" where
  "ms_Complete q salt hash m =
     (if ms_done m then (Inl SAlready, m)
      else (Inr (), \<lparr>ms_done = True, ms_user = sr_user q, ms_salt = salt, ms_hash = hash, ms_org = sr_org q,
                     ms_smtp = sr_smtp q\<rparr>))"

definition ms_Load :: "mem_setup \<Rightarrow> stored" where
  "ms_Load m = \<lparr>so_done = ms_done m, so_admin = ms_user m, so_org = ms_org m, so_smtp = ms_smtp m,
     so_configured = IsConfigured (ms_smtp m)\<rparr>"

definition ms_AdminCredentials :: "string \<Rightarrow> mem_setup \<Rightarrow> (string \<times> string) option" where
  "ms_AdminCredentials user m = (if \<not> ms_done m \<or> user \<noteq> ms_user m then None else Some (ms_salt m, ms_hash m))"

definition ms_UpdatePassword :: "string \<Rightarrow> string \<Rightarrow> string \<Rightarrow> mem_setup \<Rightarrow> mem_setup" where
  "ms_UpdatePassword user salt hash m = m\<lparr>ms_done := True, ms_user := user, ms_salt := salt, ms_hash := hash\<rparr>"

subsection \<open>The service\<close>

definition ValidateRequest :: "setup_request \<Rightarrow> request_err option" where
  "ValidateRequest q =
     (let u = TrimSpace (sr_user q) in
      if u = [] then Some UserMissing
      else if length u < 3 \<or> length u > 64 then Some UserLength
      else if list_ex (\<lambda>c. c = CHR '' '' \<or> c = CHR 0x09 \<or> c = CHR 0x0A) u then Some UserSpaces
      else if length (sr_password q) < 8 then Some PasswordShort
      else if length (sr_password q) > 128 then Some PasswordLong
      else if TrimSpace (sr_org q) = [] then Some OrgMissing
      else if length (sr_org q) > 128 then Some OrgLong
      else map_option BadSmtp (snd (Normalize (sr_smtp q))))"

definition normal_request :: "setup_request \<Rightarrow> setup_request" where
  "normal_request q = q\<lparr>sr_user := TrimSpace (sr_user q), sr_org := TrimSpace (sr_org q),
     sr_smtp := fst (Normalize (sr_smtp q))\<rparr>"

definition HashPassword :: "user_deps \<Rightarrow> string \<Rightarrow> string \<Rightarrow> string" where
  "HashPassword D password salt = ud_kdf D password salt"

definition VerifyPassword :: "user_deps \<Rightarrow> string \<Rightarrow> string \<Rightarrow> string \<Rightarrow> bool" where
  "VerifyPassword D password salt hash \<longleftrightarrow> HashPassword D password salt = hash"

text \<open>The guard against enrolled devices, and the re-issue of the root; \<open>Inr\<close>: go on.\<close>

definition device_guard :: "setup_deps \<Rightarrow> (setup_err + unit) pm" where
  "device_guard S =
     (case sd_devices S of
        None \<Rightarrow> State_Monad.return (Inr ())
      | Some count_devices \<Rightarrow> do {
          r \<leftarrow> count_devices;
          State_Monad.return (case r of Inl e \<Rightarrow> Inl (SCount e) | Inr n \<Rightarrow> if n > 0 then Inl SDevices else Inr ())
        })"

definition reissue :: "setup_deps \<Rightarrow> string \<Rightarrow> (setup_err + unit) pm" where
  "reissue S org =
     (case sd_ca S of
        None \<Rightarrow> State_Monad.return (Inr ())
      | Some ca \<Rightarrow> do {
          r \<leftarrow> ca org;
          (case r of
             Inl e \<Rightarrow> State_Monad.return (Inl (SReissue e))
           | Inr _ \<Rightarrow> do { _ \<leftarrow> sd_reissued S; State_Monad.return (Inr ()) })
        })"

definition persist_setup :: "setup_deps \<Rightarrow> setup_request \<Rightarrow> (setup_err + unit) pm" where
  "persist_setup S q = do {
     rs \<leftarrow> rand_read (sd_users S) 16;
     (case rs of
        None \<Rightarrow> State_Monad.return (Inl SRandom)
      | Some salt \<Rightarrow> do {
          r \<leftarrow> setup_store_Complete (sd_env S) q salt (HashPassword (sd_users S) (sr_password q) salt);
          State_Monad.return (case r of Inl e \<Rightarrow> Inl (SStore e) | Inr _ \<Rightarrow> Inr ())
        })
   }"

text \<open>The first step that fails ends the flow.\<close>

definition and_then :: "(setup_err + unit) pm \<Rightarrow> (setup_err + unit) pm \<Rightarrow> (setup_err + unit) pm" where
  "and_then a b = do { r \<leftarrow> a; (case r of Inl e \<Rightarrow> State_Monad.return (Inl e) | Inr _ \<Rightarrow> b) }"

definition setup_Complete :: "setup_deps \<Rightarrow> setup_request \<Rightarrow> (setup_err + unit) pm" where
  "setup_Complete S q0 =
     (if \<not> sd_store S then State_Monad.return (Inl SUnavailable)
      else case ValidateRequest q0 of
        Some e \<Rightarrow> State_Monad.return (Inl (SRequest e))
      | None \<Rightarrow>
          (case snd (Normalize (sr_smtp q0)) of
             Some e \<Rightarrow> State_Monad.return (Inl (SSmtp e))
           | None \<Rightarrow> do {
               let q = normal_request q0;
               rd \<leftarrow> setup_Done (sd_env S);
               (case rd of
                  Inl e \<Rightarrow> State_Monad.return (Inl (SStore e))
                | Inr d \<Rightarrow>
                    if d then State_Monad.return (Inl SAlready)
                    else and_then (device_guard S) (and_then (reissue S (sr_org q)) (persist_setup S q)))
             }))"

definition CheckCredentials :: "setup_deps \<Rightarrow> string \<Rightarrow> string \<Rightarrow> bool pm" where
  "CheckCredentials S user password =
     (if \<not> sd_store S then State_Monad.return False
      else do {
        c \<leftarrow> AdminCredentials (sd_env S) user;
        State_Monad.return (case c of None \<Rightarrow> False | Some (salt, hash) \<Rightarrow> VerifyPassword (sd_users S) password salt hash)
      })"

definition setup_AdminCredentials :: "setup_deps \<Rightarrow> string \<Rightarrow> ((string \<times> string) option) pm" where
  "setup_AdminCredentials S user =
     (if \<not> sd_store S then State_Monad.return None else AdminCredentials (sd_env S) user)"

definition setup_SaveSMTP :: "setup_deps \<Rightarrow> smtp_config \<Rightarrow> (setup_err + unit) pm" where
  "setup_SaveSMTP S c =
     (if \<not> sd_store S then State_Monad.return (Inl SUnavailable)
      else case snd (Normalize c) of
        Some e \<Rightarrow> State_Monad.return (Inl (SSmtp e))
      | None \<Rightarrow> do {
          r \<leftarrow> setup_store_SaveSMTP (sd_env S) (fst (Normalize c));
          State_Monad.return (case r of Inl e \<Rightarrow> Inl (SStore e) | Inr _ \<Rightarrow> Inr ())
        })"

definition setup_UpdatePassword :: "setup_deps \<Rightarrow> string \<Rightarrow> string \<Rightarrow> string \<Rightarrow> (setup_err + unit) pm" where
  "setup_UpdatePassword S user salt hash =
     (if \<not> sd_store S then State_Monad.return (Inl SUnavailable)
      else do {
        r \<leftarrow> setup_store_UpdatePassword (sd_env S) user salt hash;
        State_Monad.return (case r of Inl e \<Rightarrow> Inl (SStore e) | Inr _ \<Rightarrow> Inr ())
      })"

definition TestSMTP :: "setup_deps \<Rightarrow> smtp_config \<Rightarrow> string \<Rightarrow> (setup_err + unit) pm" where
  "TestSMTP S c0 to =
     (case snd (Normalize c0) of
        Some e \<Rightarrow> State_Monad.return (Inl (SSmtp e))
      | None \<Rightarrow>
          let c = fst (Normalize c0) in
          if \<not> IsConfigured c then State_Monad.return (Inl SMailOff)
          else do {
            r \<leftarrow> sd_send S c to;
            State_Monad.return (case r of Inl e \<Rightarrow> Inl (SMail e) | Inr _ \<Rightarrow> Inr ())
          })"

record setup_status =
  st_available :: bool
  st_setup :: bool
  st_org :: string
  st_admin :: string
  st_host :: string
  st_configured :: bool
  st_devices :: bool

definition degraded_status :: setup_status where
  "degraded_status = \<lparr>st_available = False, st_setup = True, st_org = [], st_admin = [], st_host = [],
     st_configured = False, st_devices = False\<rparr>"

definition setup_Status :: "setup_deps \<Rightarrow> (setup_status res) pm" where
  "setup_Status S =
     (if \<not> sd_store S then State_Monad.return (Inr degraded_status)
      else do {
        rl \<leftarrow> setup_Load (sd_env S);
        (case rl of
           Inl e \<Rightarrow> State_Monad.return (Inl e)
         | Inr so \<Rightarrow> do {
             let st = \<lparr>st_available = True, st_setup = so_done so, st_org = so_org so, st_admin = so_admin so,
                       st_host = sm_host (so_smtp so), st_configured = so_configured so, st_devices = False\<rparr>;
             (case sd_devices S of
                None \<Rightarrow> State_Monad.return (Inr st)
              | Some count_devices \<Rightarrow> do {
                  r \<leftarrow> count_devices;
                  State_Monad.return (Inr (case r of
                     Inl e \<Rightarrow> st
                   | Inr n \<Rightarrow> st\<lparr>st_devices := n > 0, st_setup := st_setup st \<or> n > 0\<rparr>))
                })
           })
      })"

subsection \<open>Routes\<close>

datatype setup_body = SStatus setup_status | SMailed string | SRefused setup_err

text \<open>Before the wizard has run its routes are open; afterwards they need a session.\<close>

definition setupGate :: "setup_deps option \<Rightarrow> rbac \<Rightarrow> (setup_body gated response) pm \<Rightarrow> credential \<Rightarrow>
    (setup_body gated response) pm" where
  "setupGate S R h cred =
     (case S of
        None \<Rightarrow> State_Monad.return (Resp 503 None)
      | Some D \<Rightarrow> do {
          rd \<leftarrow> (if sd_store D then setup_Done (sd_env D) else State_Monad.return (Inr True));
          (case rd of
             Inl e \<Rightarrow> State_Monad.return (Resp 500 None)
           | Inr d \<Rightarrow> if d then Require R (\<lambda>_. h) cred else h)
        })"

definition handleSetupStatus :: "setup_deps option \<Rightarrow> http_method \<Rightarrow> (setup_body gated response) pm" where
  "handleSetupStatus S m =
     (if m \<noteq> GET then State_Monad.return (Resp 405 None)
      else case S of
        None \<Rightarrow> State_Monad.return (Resp 200 (Some (Body (SStatus degraded_status))))
      | Some D \<Rightarrow> do {
          r \<leftarrow> setup_Status D;
          State_Monad.return (case r of Inl e \<Rightarrow> Resp 500 None | Inr st \<Rightarrow> Resp 200 (Some (Body (SStatus st))))
        })"

definition handleSetupComplete :: "setup_deps option \<Rightarrow> http_method \<Rightarrow> setup_request option \<Rightarrow>
    (setup_body gated response) pm" where
  "handleSetupComplete S m body =
     (if m \<noteq> POST then State_Monad.return (Resp 405 None)
      else case S of
        None \<Rightarrow> State_Monad.return (Resp 503 None)
      | Some D \<Rightarrow>
          (case body of
             None \<Rightarrow> State_Monad.return (Resp 400 None)
           | Some q \<Rightarrow> do {
               r \<leftarrow> setup_Complete D q;
               (case r of
                  Inl e \<Rightarrow> State_Monad.return
                    (Resp (if e = SAlready \<or> e = SDevices then 409 else 400) (Some (Body (SRefused e))))
                | Inr _ \<Rightarrow> do {
                    rs \<leftarrow> setup_Status D;
                    State_Monad.return (case rs of
                       Inl e \<Rightarrow> Resp 500 None
                     | Inr st \<Rightarrow> Resp 200 (Some (Body (SStatus st))))
                  })
             }))"

definition handleSetupSMTPTest :: "setup_deps option \<Rightarrow> http_method \<Rightarrow> (smtp_config \<times> string) option \<Rightarrow>
    (setup_body gated response) pm" where
  "handleSetupSMTPTest S m body =
     (if m \<noteq> POST then State_Monad.return (Resp 405 None)
      else case S of
        None \<Rightarrow> State_Monad.return (Resp 503 None)
      | Some D \<Rightarrow>
          (case body of
             None \<Rightarrow> State_Monad.return (Resp 400 None)
           | Some (c, to) \<Rightarrow> do {
               r \<leftarrow> TestSMTP D c to;
               State_Monad.return (case r of
                  Inl e \<Rightarrow> Resp 502 (Some (Body (SRefused e)))
                | Inr _ \<Rightarrow> Resp 200 (Some (Body (SMailed (if to = [] then sm_from (fst (Normalize c)) else to)))))
             }))"

end
