(* ===== verification/Radix.thy ===== *)
theory Radix
  imports Prelude
begin

section \<open>Positional notation and base 64\<close>

text \<open>
  Numbers as digit lists, the common ground of base 32 and base 64, and what the code uses of Go's
  \<^verbatim>\<open>encoding/base64\<close> (\<^verbatim>\<open>StdEncoding\<close>: padded, not strict about the unused bits).
\<close>

subsection \<open>Numbers in a base\<close>

text \<open>A number in base \<open>b\<close>, most significant digit first.\<close>

definition to_base :: "nat \<Rightarrow> nat \<Rightarrow> nat \<Rightarrow> nat list" where
  "to_base b k n = map (\<lambda>i. n div b ^ i mod b) (rev [0..<k])"

definition of_base :: "nat \<Rightarrow> nat list \<Rightarrow> nat" where
  "of_base b ds = foldl (\<lambda>v d. b * v + d) 0 ds"

lemma length_to_base [simp]: "length (to_base b k n) = k"
  by (simp add: to_base_def)

lemma to_base_Suc: "to_base b (Suc k) n = to_base b k (n div b) @ [n mod b]"
proof -
  have "rev [0..<Suc k] = map Suc (rev [0..<k]) @ [0]"
    by (simp add: upt_conv_Cons map_Suc_upt [symmetric] rev_map del: upt_Suc)
  then show ?thesis
    by (simp add: to_base_def div_mult2_eq)
qed

lemma to_base_0 [simp]: "to_base b 0 n = []"
  by (simp add: to_base_def)

lemma of_base_snoc [simp]: "of_base b (ds @ [d]) = b * of_base b ds + d" "of_base b [] = 0"
  by (simp_all add: of_base_def)

lemma of_to_base: "of_base b (to_base b k n) = n mod b ^ k"
  by (induction k arbitrary: n) (simp_all add: to_base_Suc mod_mult2_eq)

lemma to_of_base: "(\<And>d. d \<in> set ds \<Longrightarrow> d < b) \<Longrightarrow> to_base b (length ds) (of_base b ds) = ds"
proof (induction ds rule: rev_induct)
  case (snoc d ds)
  then have d: "d < b" by simp
  then have "(b * of_base b ds + d) div b = of_base b ds" by simp
  with d snoc show ?case by (simp add: to_base_Suc)
qed simp

lemma of_base_less: "(\<And>d. d \<in> set ds \<Longrightarrow> d < b) \<Longrightarrow> of_base b ds < b ^ length ds"
proof (induction ds rule: rev_induct)
  case (snoc d ds)
  then have "of_base b ds < b ^ length ds" and "d < b" by simp_all
  then have "b * of_base b ds + d < b * Suc (of_base b ds)" by simp
  also have "\<dots> \<le> b * b ^ length ds" using \<open>of_base b ds < b ^ length ds\<close> by (intro mult_le_mono) auto
  finally show ?case by simp
qed simp

lemma to_base_less: "0 < b \<Longrightarrow> d \<in> set (to_base b k n) \<Longrightarrow> d < b"
  by (auto simp: to_base_def)

subsection \<open>Alphabets\<close>

fun index_in :: "'a list \<Rightarrow> 'a \<Rightarrow> nat option" where
  "index_in [] y = None"
| "index_in (x # xs) y = (if x = y then Some 0 else map_option Suc (index_in xs y))"

lemma index_in_nth: "distinct xs \<Longrightarrow> i < length xs \<Longrightarrow> index_in xs (xs ! i) = Some i"
proof (induction xs arbitrary: i)
  case (Cons x xs)
  then show ?case by (cases i) auto
qed simp

lemma index_in_less: "index_in xs y = Some i \<Longrightarrow> i < length xs"
  by (induction xs arbitrary: i) (auto split: if_splits)

subsection \<open>Base 64\<close>

definition b64_alphabet :: string where
  "b64_alphabet = ''ABCDEFGHIJKLMNOPQRSTUVWXYZabcdefghijklmnopqrstuvwxyz0123456789+/''"

definition b64_value :: "char \<Rightarrow> nat option" where
  "b64_value c = index_in b64_alphabet c"

text \<open>The bytes of a group of \<open>n\<close> digits (two, three or four); the bits left over are dropped.\<close>

definition b64_bytes :: "nat list \<Rightarrow> string" where
  "b64_bytes ds =
     map char_of (take (length ds * 6 div 8) (to_base 256 3 (of_base 64 (ds @ replicate (4 - length ds) 0))))"

definition b64_digits :: "string \<Rightarrow> nat list option" where
  "b64_digits cs = (let ds = map b64_value cs in if None \<in> set ds then None else Some (map the ds))"

text \<open>Padding ends the input: two or one \<^verbatim>\<open>=\<close> in the last group of four and nowhere else.\<close>

fun b64_groups :: "string \<Rightarrow> string option" where
  "b64_groups [] = Some []"
| "b64_groups (a # b # c # d # rest) =
     (if rest = [] \<and> c = CHR ''='' \<and> d = CHR ''='' then map_option b64_bytes (b64_digits [a, b])
      else if rest = [] \<and> d = CHR ''='' then map_option b64_bytes (b64_digits [a, b, c])
      else (case b64_digits [a, b, c, d] of
              None \<Rightarrow> None
            | Some ds \<Rightarrow> map_option (\<lambda>bs. b64_bytes ds @ bs) (b64_groups rest)))"
| "b64_groups cs = None"

text \<open>\<^verbatim>\<open>StdEncoding.DecodeString\<close>: line ends are skipped.\<close>

definition b64_decode :: "string \<Rightarrow> string option" where
  "b64_decode s = b64_groups (filter (\<lambda>c. c \<noteq> CHR 0x0D \<and> c \<noteq> CHR 0x0A) s)"

text \<open>\<^verbatim>\<open>StdEncoding.EncodeToString\<close>.\<close>

definition b64_chars :: "nat \<Rightarrow> string \<Rightarrow> string" where
  "b64_chars n bs =
     map (\<lambda>d. b64_alphabet ! d) (take n (to_base 64 4 (of_base 256 (map of_char bs @ replicate (3 - length bs) 0))))"

fun b64_encode :: "string \<Rightarrow> string" where
  "b64_encode (a # b # c # rest) = b64_chars 4 [a, b, c] @ b64_encode rest"
| "b64_encode [a, b] = b64_chars 3 [a, b] @ ''=''"
| "b64_encode [a] = b64_chars 2 [a] @ ''==''"
| "b64_encode [] = []"

end
