(* ===== verification/Totp.thy ===== *)
theory Totp
  imports Sha256 Strconv Radix
begin

section \<open>Time-based one-time passwords\<close>

text \<open>
  \<^verbatim>\<open>server/internal/users/totp.go\<close>, with what it uses of Go's \<^verbatim>\<open>crypto/sha1\<close>, \<^verbatim>\<open>crypto/hmac\<close> and
  \<^verbatim>\<open>encoding/base32\<close>. Upper-casing is that of ASCII letters: a secret is text the server minted.
\<close>

subsection \<open>SHA-1\<close>

definition sha1_H :: "w32 list" where
  "sha1_H = hex_words ''67452301efcdab8998badcfe10325476c3d2e1f0''"

definition sha1_f :: "nat \<Rightarrow> w32 \<Rightarrow> w32 \<Rightarrow> w32 \<Rightarrow> w32" where
  "sha1_f i x y z =
     (if i < 20 then (x AND y) OR (NOT x AND z)
      else if i < 40 then x XOR y XOR z
      else if i < 60 then (x AND y) OR (x AND z) OR (y AND z)
      else x XOR y XOR z)"

definition sha1_k :: "nat \<Rightarrow> w32" where
  "sha1_k i = hex_words ''5a8279996ed9eba18f1bbcdcca62c1d6'' ! (i div 20)"

text \<open>The schedule of 80 words, newest first.\<close>

fun sha1_schedule :: "nat \<Rightarrow> w32 list \<Rightarrow> w32 list" where
  "sha1_schedule 0 ws = ws"
| "sha1_schedule (Suc k) ws =
     sha1_schedule k (word_rotl 1 (ws ! 2 XOR ws ! 7 XOR ws ! 13 XOR ws ! 15) # ws)"

fun sha1_round :: "w32 list \<Rightarrow> nat \<times> w32 \<Rightarrow> w32 list" where
  "sha1_round [a, b, c, d, e] (i, w) =
     [word_rotl 5 a + sha1_f i b c d + e + sha1_k i + w, a, word_rotl 30 b, c, d]"
| "sha1_round xs iw = xs"

definition sha1_block :: "w32 list \<Rightarrow> string \<Rightarrow> w32 list" where
  "sha1_block hs block =
     (let ws = rev (sha1_schedule 64 (rev (map be_word (chunks 16 4 block)))) in
      map2 (+) hs (foldl sha1_round hs (zip [0..<80] ws)))"

definition sha1 :: "string \<Rightarrow> string" where
  "sha1 msg =
     (let p = sha_pad msg in
      concat (map be_chars (foldl sha1_block sha1_H (chunks (length p div 64) 64 p))))"

definition hmac_sha1 :: "string \<Rightarrow> string \<Rightarrow> string" where
  "hmac_sha1 key msg =
     (let k0 = (if length key > 64 then sha1 key else key);
          k = k0 @ replicate (64 - length k0) (CHR 0x00) in
      sha1 (map (xor_byte 0x5c) k @ sha1 (map (xor_byte 0x36) k @ msg)))"

subsection \<open>Base 32\<close>

definition b32_alphabet :: string where
  "b32_alphabet = ''ABCDEFGHIJKLMNOPQRSTUVWXYZ234567''"

definition b32_value :: "char \<Rightarrow> nat option" where
  "b32_value c = index_in b32_alphabet c"

text \<open>Five bytes give eight characters; the code encodes 20 bytes, so nothing is padded.\<close>

definition b32_group :: "string \<Rightarrow> string" where
  "b32_group bs = map (\<lambda>d. b32_alphabet ! d) (to_base 32 8 (of_base 256 (map of_char bs)))"

definition b32_encode :: "string \<Rightarrow> string" where
  "b32_encode s = concat (map b32_group (chunks (length s div 5) 5 s))"

text \<open>
  One group of \<^verbatim>\<open>Encoding.decode\<close>: the digits read (at most eight), whether padding ended the input,
  and the rest; \<open>None\<close> is a \<^verbatim>\<open>CorruptInputError\<close>. A pad counts from the third character on, when
  fewer than eight characters follow it.
\<close>

fun b32_digits :: "nat \<Rightarrow> nat list \<Rightarrow> string \<Rightarrow> (nat list \<times> bool \<times> string) option" where
  "b32_digits 0 ds src = Some (rev ds, False, src)"
| "b32_digits (Suc k) ds src =
     (case src of
        [] \<Rightarrow> None
      | c # cs \<Rightarrow>
          let j = length ds in
          if c = CHR ''='' \<and> j \<ge> 2 \<and> length cs < 8 then
            (if length cs + j < 7 \<or> \<not> list_all (\<lambda>x. x = CHR ''='') (take (7 - j) cs) \<or> j = 3 \<or> j = 6 then None
             else Some (rev ds, True, cs))
          else (case b32_value c of None \<Rightarrow> None | Some d \<Rightarrow> b32_digits k (d # ds) cs))"

definition b32_bytes :: "nat list \<Rightarrow> string" where
  "b32_bytes ds =
     map char_of (take (length ds * 5 div 8)
       (to_base 256 5 (of_base 32 (ds @ replicate (8 - length ds) 0))))"

fun b32_groups :: "nat \<Rightarrow> string \<Rightarrow> string option" where
  "b32_groups 0 src = Some []"
| "b32_groups (Suc n) src =
     (if src = [] then Some []
      else case b32_digits 8 [] src of
        None \<Rightarrow> None
      | Some (ds, fin, rest) \<Rightarrow>
          if fin then Some (b32_bytes ds)
          else map_option (\<lambda>bs. b32_bytes ds @ bs) (b32_groups n rest))"

text \<open>Every group that goes on consumes eight characters, so the length is enough fuel.\<close>

definition b32_decode :: "string \<Rightarrow> string option" where
  "b32_decode s =
     (let src = filter (\<lambda>c. c \<noteq> CHR 0x0D \<and> c \<noteq> CHR 0x0A) s in b32_groups (length src) src)"

subsection \<open>Codes\<close>

definition TotpSecret :: "string option \<Rightarrow> string option" where
  "TotpSecret raw = map_option b32_encode raw"

definition upper :: "char \<Rightarrow> char" where
  "upper c = (let n = of_char c :: nat in if 97 \<le> n \<and> n \<le> 122 then char_of (n - 32) else c)"

definition NormalizeBase32 :: "string \<Rightarrow> string" where
  "NormalizeBase32 s =
     (let t = rev (dropWhile (\<lambda>c. c = CHR ''='') (rev (map upper (filter (\<lambda>c. c \<noteq> CHR '' '') s)))) in
      if length t mod 8 \<noteq> 0 then t @ replicate (8 - length t mod 8) (CHR ''='') else t)"

definition ValidBase32 :: "string \<Rightarrow> bool" where
  "ValidBase32 s \<longleftrightarrow> s = [] \<or> b32_decode (NormalizeBase32 s) \<noteq> None"

definition counter_bytes :: "int \<Rightarrow> string" where
  "counter_bytes c = map char_of (to_base 256 8 (nat (c mod 2 ^ 64)))"

definition truncate31 :: "string \<Rightarrow> nat" where
  "truncate31 s =
     (let b = (\<lambda>i. of_char (s ! i) :: nat); off = b (length s - 1) mod 16 in
      (b off mod 128) * 2 ^ 24 + b (off + 1) * 2 ^ 16 + b (off + 2) * 2 ^ 8 + b (off + 3))"

definition six_digits :: "nat \<Rightarrow> string" where
  "six_digits v = map (\<lambda>d. char_of (48 + d)) (to_base 10 6 v)"

definition totpCode :: "string \<Rightarrow> int \<Rightarrow> string option" where
  "totpCode secret c =
     map_option (\<lambda>key. six_digits (truncate31 (hmac_sha1 key (counter_bytes c)) mod 10 ^ 6))
       (b32_decode (NormalizeBase32 secret))"

text \<open>Go's integer division truncates towards zero.\<close>

definition quot :: "int \<Rightarrow> int \<Rightarrow> int" where
  "quot a b = sgn a * (\<bar>a\<bar> div b)"

definition totp_counter :: "time \<Rightarrow> int" where
  "totp_counter t = quot (unix_of t) 30"

definition TotpCode :: "string \<Rightarrow> time \<Rightarrow> string option" where
  "TotpCode secret t = totpCode secret (totp_counter t)"

fun accepts :: "string \<Rightarrow> string \<Rightarrow> int list \<Rightarrow> bool" where
  "accepts secret code [] = False"
| "accepts secret code (c # cs) =
     (case totpCode secret c of
        None \<Rightarrow> False
      | Some want \<Rightarrow> if code = want then True else accepts secret code cs)"

definition VerifyTotp :: "string \<Rightarrow> string \<Rightarrow> time \<Rightarrow> bool" where
  "VerifyTotp secret code t =
     (if code = [] then False
      else let c = totp_counter t in accepts secret code [c - 1, c, c + 1])"

subsection \<open>Decoding what was encoded\<close>

lemma b32_alphabet_all:
  "\<forall>d\<in>set [0..<32]. b32_value (b32_alphabet ! d) = Some d \<and> b32_alphabet ! d \<noteq> CHR ''='' \<and>
     b32_alphabet ! d \<noteq> CHR '' '' \<and> b32_alphabet ! d \<noteq> CHR 0x0D \<and> b32_alphabet ! d \<noteq> CHR 0x0A \<and>
     upper (b32_alphabet ! d) = b32_alphabet ! d"
  by code_simp

lemma b32_char:
  assumes "d < 32"
  shows "b32_value (b32_alphabet ! d) = Some d" "b32_alphabet ! d \<noteq> CHR ''=''"
    "b32_alphabet ! d \<noteq> CHR '' ''" "b32_alphabet ! d \<noteq> CHR 0x0D" "b32_alphabet ! d \<noteq> CHR 0x0A"
    "upper (b32_alphabet ! d) = b32_alphabet ! d"
  using b32_alphabet_all assms by auto

definition b32_text :: "string \<Rightarrow> bool" where
  "b32_text s \<longleftrightarrow> (\<forall>c\<in>set s. c \<noteq> CHR ''='' \<and> c \<noteq> CHR '' '' \<and> c \<noteq> CHR 0x0D \<and> c \<noteq> CHR 0x0A \<and> upper c = c)"

lemma b32_digits_read:
  assumes "\<And>d. d \<in> set ds \<Longrightarrow> d < 32"
  shows "b32_digits (length ds) acc (map (\<lambda>d. b32_alphabet ! d) ds @ rest) = Some (rev acc @ ds, False, rest)"
  using assms
proof (induction ds arbitrary: acc)
  case (Cons d ds)
  from Cons.prems [of d] have "b32_alphabet ! d \<noteq> CHR ''=''" and "b32_value (b32_alphabet ! d) = Some d"
    by (simp_all add: b32_char)
  with Cons.IH [of "d # acc"] Cons.prems show ?case by (simp add: Let_def)
qed simp

lemma b32_group_read:
  assumes "length bs = 5"
  shows "b32_digits 8 [] (b32_group bs @ rest) = Some (to_base 32 8 (of_base 256 (map of_char bs)), False, rest)"
    and "b32_bytes (to_base 32 8 (of_base 256 (map of_char bs))) = bs"
    and "length (b32_group bs) = 8" and "b32_text (b32_group bs)"
proof -
  let ?n = "of_base 256 (map of_char bs) :: nat"
  have small: "d < 32" if "d \<in> set (to_base 32 8 ?n)" for d by (rule to_base_less [OF _ that]) simp
  show "b32_digits 8 [] (b32_group bs @ rest) = Some (to_base 32 8 ?n, False, rest)"
    using b32_digits_read [of "to_base 32 8 ?n" "[]" rest] small by (simp add: b32_group_def)
  have bytes: "d < 256" if "d \<in> set (map of_char bs)" for d :: nat using that by auto
  have "?n < 256 ^ length (map of_char bs :: nat list)" by (rule of_base_less) (rule bytes)
  then have "?n < 256 ^ 5" using assms by simp
  then have "?n mod 32 ^ 8 = ?n" by simp
  then have "b32_bytes (to_base 32 8 ?n) = map char_of (to_base 256 5 ?n)"
    by (simp add: b32_bytes_def of_to_base)
  also have "to_base 256 5 ?n = map of_char bs"
    using to_of_base [of "map of_char bs" 256] bytes assms by simp
  finally show "b32_bytes (to_base 32 8 ?n) = bs" by (simp add: comp_def)
  show "length (b32_group bs) = 8" by (simp add: b32_group_def)
  show "b32_text (b32_group bs)"
    using small by (auto simp: b32_group_def b32_text_def b32_char)
qed

lemma b32_groups_read:
  assumes "length s = 5 * k" "k \<le> n"
  shows "b32_groups n (concat (map b32_group (chunks k 5 s))) = Some s"
    and "length (concat (map b32_group (chunks k 5 s))) = 8 * k"
    and "b32_text (concat (map b32_group (chunks k 5 s)))"
  using assms
proof (induction k arbitrary: n s)
  case 0
  { case 1 then show ?case by (cases n) simp_all }
  { case 2 then show ?case by simp }
  { case 3 then show ?case by (simp add: b32_text_def) }
next
  case (Suc k)
  note five = b32_group_read
  { case 1
    then obtain n' where n: "n = Suc n'" "k \<le> n'" by (cases n) auto
    have "length (take 5 s) = 5" using 1 by simp
    note group = five [OF this]
    then have "length (b32_group (take 5 s)) = 8" by simp
    then have "b32_group (take 5 s) \<noteq> []" by auto
    then show ?case using 1 n group(1,2) Suc.IH(1) [of "drop 5 s" n'] by simp }
  { case 2 then show ?case using five(3) [of "take 5 s"] Suc.IH(2) [of "drop 5 s" n] by simp }
  { case 3 then show ?case using five(4) [of "take 5 s"] Suc.IH(3) [of "drop 5 s" n] by (auto simp: b32_text_def) }
qed

lemma b32_text_normal:
  assumes "b32_text s"
  shows "length s mod 8 = 0 \<Longrightarrow> NormalizeBase32 s = s"
    and "filter (\<lambda>c. c \<noteq> CHR 0x0D \<and> c \<noteq> CHR 0x0A) s = s"
proof -
  have "filter (\<lambda>c. c \<noteq> CHR '' '') s = s" and up: "map upper s = s"
    using assms by (auto simp: b32_text_def filter_id_conv intro: map_idI)
  moreover have "dropWhile (\<lambda>c. c = CHR ''='') (rev s) = rev s"
    using assms by (cases s rule: rev_cases) (auto simp: b32_text_def)
  ultimately show "length s mod 8 = 0 \<Longrightarrow> NormalizeBase32 s = s" by (simp add: NormalizeBase32_def)
  show "filter (\<lambda>c. c \<noteq> CHR 0x0D \<and> c \<noteq> CHR 0x0A) s = s"
    using assms by (auto simp: b32_text_def filter_id_conv)
qed

lemma b32_round_trip:
  assumes "length raw mod 5 = 0"
  shows "b32_decode (NormalizeBase32 (b32_encode raw)) = Some raw"
proof -
  obtain k where k: "length raw = 5 * k" using assms by auto
  note groups = b32_groups_read [OF k, of "8 * k"]
  have "length (b32_encode raw) = 8 * k" "b32_text (b32_encode raw)"
    using groups(2,3) k by (simp_all add: b32_encode_def)
  then show ?thesis
    using groups(1) k b32_text_normal by (simp add: b32_decode_def b32_encode_def Let_def)
qed

subsection \<open>The window of a code\<close>

lemma six_digits_shape: "length (six_digits v) = 6" "list_all is_digit (six_digits v)"
proof -
  show "length (six_digits v) = 6" by (simp add: six_digits_def)
  have "is_digit (char_of (48 + d))" if "d \<in> set (to_base 10 6 v)" for d
    using to_base_less [OF _ that] by (auto simp: is_digit_def)
  then show "list_all is_digit (six_digits v)" by (auto simp: six_digits_def list_all_iff)
qed

lemma totpCode_shape: "totpCode secret c = Some code \<Longrightarrow> length code = 6 \<and> list_all is_digit code"
  by (auto simp: totpCode_def six_digits_shape)

lemma totpCode_defined: "totpCode secret c = None \<longleftrightarrow> b32_decode (NormalizeBase32 secret) = None"
  by (simp add: totpCode_def)

lemma accepts_iff: "accepts secret code cs \<longleftrightarrow> (\<exists>c\<in>set cs. totpCode secret c = Some code)"
proof (cases "b32_decode (NormalizeBase32 secret)")
  case None
  then have "totpCode secret c = None" for c by (simp add: totpCode_def)
  then show ?thesis by (induction cs) simp_all
next
  case (Some key)
  then show ?thesis by (induction cs) (auto simp: totpCode_def)
qed

lemma VerifyTotp_iff:
  "VerifyTotp secret code t \<longleftrightarrow> (\<exists>d\<in>{-1, 0, 1}. totpCode secret (totp_counter t + d) = Some code)"
proof -
  have "totpCode secret c \<noteq> Some []" for c using totpCode_shape [of secret c "[]"] by auto
  then show ?thesis by (auto simp: VerifyTotp_def accepts_iff Let_def)
qed

lemma div_close:
  assumes "0 < k" "\<bar>t - u\<bar> \<le> n * k"
  shows "\<bar>t div k - u div k\<bar> \<le> (n :: int)"
proof -
  have "t div k \<le> (u + n * k) div k" and "u div k \<le> (t + n * k) div k"
    using assms by (intro zdiv_mono1; simp add: abs_le_iff)+
  then show ?thesis using assms(1) by simp
qed

lemma totp_counter_close:
  assumes "0 \<le> t" "0 \<le> u" "t < 2 ^ 63" "u < 2 ^ 63" "\<bar>t - u\<bar> \<le> 30 * second"
  shows "totp_counter t - totp_counter u \<in> {-1, 0, 1}"
proof -
  have counter: "totp_counter x = x div second div 30" if "0 \<le> x" "x < 2 ^ 63" for x
  proof -
    have "0 \<le> x div second" and "x div second < 2 ^ 63"
      using that by (simp_all add: second_def pos_imp_zdiv_nonneg_iff)
    then show ?thesis
      by (cases "x div second = 0") (simp_all add: totp_counter_def quot_def unix_of_def wrap64_id int64_def)
  qed
  have "\<bar>t div second div 30 - u div second div 30\<bar> \<le> 1"
    using div_close [of second t u 30] div_close [of 30 "t div second" "u div second" 1] assms(5)
    by (simp add: second_def)
  then have "t div second div 30 - u div second div 30 \<in> {-1, 0, 1}" by simp arith
  with counter show ?thesis using assms by simp
qed

end
