(* ===== verification/Login.thy ===== *)
theory Login
  imports Setup Totp
begin

section \<open>Operator login\<close>

text \<open>
  \<^verbatim>\<open>server/internal/setup/auth.go\<close>, the login handlers of \<^verbatim>\<open>httpapi/httpapi.go\<close> and
  \<^verbatim>\<open>httpapi/domain_users.go\<close> and the per-address failure budget. The budget is process memory, passed
  through the handlers next to the database; its mutex makes each of its three operations atomic.
\<close>

subsection \<open>The failure budget\<close>

definition loginWindow :: duration where "loginWindow = 5 * minute"
definition loginMaxFails :: nat where "loginMaxFails = 10"
definition loginLockout :: duration where "loginLockout = 15 * minute"
definition loginPurgeAgo :: duration where "loginPurgeAgo = loginWindow + loginLockout"

record ip_state =
  ip_fails :: nat
  ip_start :: time
  ip_locked :: "time option"

type_synonym limiter = "string \<rightharpoonup> ip_state"

text \<open>\<open>Inl\<close>: refused until then. An expired lock is cleared in place.\<close>

definition allow :: "time \<Rightarrow> string \<Rightarrow> limiter \<Rightarrow> (time + unit) \<times> limiter" where
  "allow t ip L =
     (case L ip of
        None \<Rightarrow> (Inr (), L)
      | Some st \<Rightarrow>
          (case ip_locked st of
             None \<Rightarrow> (Inr (), L)
           | Some u \<Rightarrow> if t < u then (Inl u, L) else (Inr (), L(ip \<mapsto> st\<lparr>ip_locked := None\<rparr>))))"

definition stale :: "time \<Rightarrow> ip_state \<Rightarrow> bool" where
  "stale t st \<longleftrightarrow>
     (case ip_locked st of
        Some u \<Rightarrow> u < t
      | None \<Rightarrow> time_sub t (ip_start st) > loginPurgeAgo)"

definition purgeLocked :: "time \<Rightarrow> limiter \<Rightarrow> limiter" where
  "purgeLocked t L =
     (\<lambda>ip. case L ip of None \<Rightarrow> None | Some st \<Rightarrow> if stale t st then None else Some st)"

definition fresh_ip :: ip_state where
  "fresh_ip = \<lparr>ip_fails = 0, ip_start = zero_time, ip_locked = None\<rparr>"

definition count_fail :: "time \<Rightarrow> ip_state \<Rightarrow> ip_state" where
  "count_fail t st =
     (let st1 = (if time_sub t (ip_start st) > loginWindow \<or> ip_fails st = 0
                 then st\<lparr>ip_start := t, ip_fails := 0\<rparr> else st);
          st2 = st1\<lparr>ip_fails := Suc (ip_fails st1)\<rparr> in
      if ip_fails st2 \<ge> loginMaxFails then st2\<lparr>ip_locked := Some (t + loginLockout), ip_fails := 0\<rparr> else st2)"

definition recordFail :: "time \<Rightarrow> string \<Rightarrow> limiter \<Rightarrow> limiter" where
  "recordFail t ip L =
     (let P = purgeLocked t L; st = (case P ip of None \<Rightarrow> fresh_ip | Some s \<Rightarrow> s) in
      P(ip \<mapsto> count_fail t st))"

definition recordOK :: "string \<Rightarrow> limiter \<Rightarrow> limiter" where
  "recordOK ip L = L(ip := None)"

text \<open>The first \<^verbatim>\<open>X-Forwarded-For\<close> hop, or the address without its port.\<close>

definition clientIP :: "string \<Rightarrow> string \<Rightarrow> string" where
  "clientIP forwarded remote =
     (let hop = TrimSpace (hd (split_on CHR '','' forwarded)) in
      if forwarded \<noteq> [] \<and> hop \<noteq> [] then hop
      else if CHR '':'' \<in> set remote then rev (tl (dropWhile (\<lambda>c. c \<noteq> CHR '':'') (rev remote)))
      else remote)"

subsection \<open>Credential resolution\<close>

datatype outcome = AuthOK | AuthMFARequired | AuthInvalid

record auth_result =
  ar_outcome :: outcome
  ar_user :: string
  ar_role :: string
  ar_account :: string
  ar_legacy :: bool
  ar_enrolled :: bool

definition invalid_result :: auth_result where
  "invalid_result = \<lparr>ar_outcome = AuthInvalid, ar_user = [], ar_role = [], ar_account = [], ar_legacy = False,
     ar_enrolled = False\<rparr>"

definition legacy_result :: "string \<Rightarrow> outcome \<Rightarrow> auth_result" where
  "legacy_result user o1 = \<lparr>ar_outcome = o1, ar_user = user, ar_role = ''admin'', ar_account = [], ar_legacy = True,
     ar_enrolled = False\<rparr>"

definition account_result :: "account \<Rightarrow> outcome \<Rightarrow> auth_result" where
  "account_result u o1 = \<lparr>ar_outcome = o1, ar_user = u_name u, ar_role = u_role u, ar_account = u_id u,
     ar_legacy = False, ar_enrolled = (u_totp u \<noteq> [])\<rparr>"

definition Lookup :: "account_world env \<Rightarrow> string \<Rightarrow> ((account option) ures) pm" where
  "Lookup E user = do {
     r \<leftarrow> pg_GetByUsername E user;
     State_Monad.return (case r of
        Inl e \<Rightarrow> if e = UNotFound then Inr None else Inl e
      | Inr u \<Rightarrow> Inr (Some u))
   }"

definition auth_account :: "account_world env \<Rightarrow> user_deps \<Rightarrow> string \<Rightarrow> string \<Rightarrow> account \<Rightarrow> auth_result pm" where
  "auth_account E D password code u =
     (if \<not> u_enabled u \<or> \<not> VerifyPassword D password (u_salt u) (u_hash u)
      then State_Monad.return (account_result u AuthInvalid)
      else if u_totp u = [] then State_Monad.return (account_result u AuthOK)
      else if code = [] then State_Monad.return (account_result u AuthMFARequired)
      else do {
        t \<leftarrow> now E;
        State_Monad.return (account_result u (if \<not> VerifyTotp (u_totp u) code t then AuthInvalid else AuthOK))
      })"

text \<open>The bootstrap pair of the environment. \<open>users\<close>: an account store is wired.\<close>

definition auth_env :: "account_world env \<Rightarrow> bool \<Rightarrow> (string \<Rightarrow> string \<Rightarrow> bool) \<Rightarrow> string \<Rightarrow> string \<Rightarrow>
    (auth_result ures) pm" where
  "auth_env E users pair user password =
     (if \<not> users then State_Monad.return (Inr (if pair user password then legacy_result user AuthOK else invalid_result))
      else do {
        rn \<leftarrow> pg_Count E;
        State_Monad.return (case rn of
           Inl e \<Rightarrow> Inl e
         | Inr n \<Rightarrow> Inr (if n = 0 \<and> pair user password then legacy_result user AuthOK else invalid_result))
      })"

definition wizard_credentials :: "setup_deps option \<Rightarrow> string \<Rightarrow> ((string \<times> string) option) pm" where
  "wizard_credentials S user =
     (case S of None \<Rightarrow> State_Monad.return None | Some D \<Rightarrow> setup_AdminCredentials D user)"

definition auth_legacy :: "account_world env \<Rightarrow> user_deps \<Rightarrow> setup_deps option \<Rightarrow> bool \<Rightarrow> (string \<Rightarrow> string \<Rightarrow> bool) option \<Rightarrow> string \<Rightarrow> string \<Rightarrow>
    (auth_result ures) pm" where
  "auth_legacy E D S users pair user password = do {
     c \<leftarrow> wizard_credentials S user;
     (case c of
        Some (salt, hash) \<Rightarrow> State_Monad.return (Inr (legacy_result user
          (if VerifyPassword D password salt hash then AuthOK else AuthInvalid)))
      | None \<Rightarrow>
          (case pair of
             None \<Rightarrow> State_Monad.return (Inr invalid_result)
           | Some p \<Rightarrow> auth_env E users p user password))
   }"

definition Authenticate :: "account_world env \<Rightarrow> user_deps \<Rightarrow> setup_deps option \<Rightarrow> bool \<Rightarrow> (string \<Rightarrow> string \<Rightarrow> bool) option \<Rightarrow> string \<Rightarrow> string \<Rightarrow> string \<Rightarrow>
    (auth_result ures) pm" where
  "Authenticate E D S users pair user password code =
     (if \<not> users then auth_legacy E D S users pair user password
      else do {
        rl \<leftarrow> Lookup E user;
        (case rl of
           Inl e \<Rightarrow> State_Monad.return (Inl e)
         | Inr (Some u) \<Rightarrow> do { r \<leftarrow> auth_account E D password code u; State_Monad.return (Inr r) }
         | Inr None \<Rightarrow> auth_legacy E D S users pair user password)
      })"

subsection \<open>The login handlers\<close>

record server =
  sv_rbac :: rbac
  sv_users :: user_deps
  sv_setup :: "setup_deps option"
  sv_limited :: bool
  sv_admin_user :: string
  sv_admin_salt :: string
  sv_admin_hash :: string
  sv_caps :: "string list"
  sv_lifetime :: duration
  sv_sign :: "claims \<Rightarrow> string option"

record login_request =
  lr_user :: string
  lr_password :: string
  lr_totp :: string

datatype login_body = LToken string time "string list" "(string \<times> string) option" | LInvalid | LMfaRequired | LTooMany int

type_synonym login_resp = "login_body response"

abbreviation sv_env :: "server \<Rightarrow> account_world env" where
  "sv_env V \<equiv> rb_env (sv_rbac V)"

definition env_pair :: "server \<Rightarrow> string \<Rightarrow> string \<Rightarrow> bool" where
  "env_pair V user password \<longleftrightarrow> user = sv_admin_user V \<and> ud_kdf (sv_users V) password (sv_admin_salt V) = sv_admin_hash V"

definition retry_seconds :: "time \<Rightarrow> time \<Rightarrow> int" where
  "retry_seconds until1 t = quot (time_sub until1 t) second + 1"

text \<open>The budget in front of a handler: refuse, or run it with what the attempt does to the budget.\<close>

definition limited :: "server \<Rightarrow> string \<Rightarrow> limiter \<Rightarrow> (limiter \<Rightarrow> (login_resp \<times> limiter) pm) \<Rightarrow> (login_resp \<times> limiter) pm" where
  "limited V ip L h =
     (if \<not> sv_limited V then h L
      else do {
        t \<leftarrow> now (sv_env V);
        (case allow t ip L of
           (Inl u, L') \<Rightarrow> do {
             t' \<leftarrow> now (sv_env V);
             State_Monad.return (Resp 429 (Some (LTooMany (retry_seconds u t'))), L')
           }
         | (Inr _, L') \<Rightarrow> h L')
      })"

definition limitFail :: "server \<Rightarrow> string \<Rightarrow> limiter \<Rightarrow> limiter pm" where
  "limitFail V ip L =
     (if \<not> sv_limited V then State_Monad.return L
      else do { t \<leftarrow> now (sv_env V); State_Monad.return (recordFail t ip L) })"

definition limitOK :: "server \<Rightarrow> string \<Rightarrow> limiter \<Rightarrow> limiter" where
  "limitOK V ip L = (if \<not> sv_limited V then L else recordOK ip L)"

definition refuse_login :: "server \<Rightarrow> string \<Rightarrow> limiter \<Rightarrow> (login_resp \<times> limiter) pm" where
  "refuse_login V ip L = do {
     L' \<leftarrow> limitFail V ip L;
     State_Monad.return (Resp 401 (Some LInvalid), L')
   }"

definition issue_token :: "server \<Rightarrow> string \<Rightarrow> limiter \<Rightarrow> string \<Rightarrow> string \<Rightarrow> (string \<times> string) option \<Rightarrow>
    (login_resp \<times> limiter) pm" where
  "issue_token V ip L role user shown = do {
     t \<leftarrow> now (sv_env V);
     (case sv_sign V (session_claims (sv_caps V) role user t (sv_lifetime V)) of
        None \<Rightarrow> State_Monad.return (Resp 500 None, L)
      | Some tok \<Rightarrow> do {
          t' \<leftarrow> now (sv_env V);
          State_Monad.return (Resp 200 (Some (LToken tok (t' + sv_lifetime V) (sv_caps V) shown)), limitOK V ip L)
        })
   }"

definition legacy_login :: "server \<Rightarrow> string \<Rightarrow> login_request \<Rightarrow> limiter \<Rightarrow> (login_resp \<times> limiter) pm" where
  "legacy_login V ip q L = do {
     ok \<leftarrow> (case sv_setup V of None \<Rightarrow> State_Monad.return False
            | Some S \<Rightarrow> CheckCredentials S (lr_user q) (lr_password q));
     (if ok then issue_token V ip L [] [] None
      else do {
        c \<leftarrow> wizard_credentials (sv_setup V) (lr_user q);
        (if c \<noteq> None then refuse_login V ip L
         else if \<not> env_pair V (lr_user q) (lr_password q) then refuse_login V ip L
         else issue_token V ip L [] [] None)
      })
   }"

definition handleLogin :: "server \<Rightarrow> http_method \<Rightarrow> string \<Rightarrow> login_request option \<Rightarrow> limiter \<Rightarrow> (login_resp \<times> limiter) pm" where
  "handleLogin V m ip body L =
     (if m \<noteq> POST then State_Monad.return (Resp 405 None, L)
      else case body of
        None \<Rightarrow> State_Monad.return (Resp 400 None, L)
      | Some q \<Rightarrow> limited V ip L (legacy_login V ip q))"

text \<open>The stamps after a login are best effort.\<close>

definition stamp_login :: "server \<Rightarrow> auth_result \<Rightarrow> unit pm" where
  "stamp_login V a =
     (if ar_account a = [] then State_Monad.return ()
      else do {
        _ \<leftarrow> (if ar_enrolled a then pg_VerifyTotp (sv_env V) (ar_account a) else State_Monad.return (Inr ()));
        _ \<leftarrow> pg_MarkLoggedIn (sv_env V) (ar_account a);
        State_Monad.return ()
      })"

definition users_login :: "server \<Rightarrow> string \<Rightarrow> login_request \<Rightarrow> limiter \<Rightarrow> (login_resp \<times> limiter) pm" where
  "users_login V ip q L = do {
     ra \<leftarrow> Authenticate (sv_env V) (sv_users V) (sv_setup V) True (Some (env_pair V)) (lr_user q) (lr_password q) (lr_totp q);
     (case ra of
        Inl e \<Rightarrow> State_Monad.return (Resp 500 None, L)
      | Inr a \<Rightarrow>
          (case ar_outcome a of
             AuthMFARequired \<Rightarrow> State_Monad.return (Resp 401 (Some LMfaRequired), L)
           | AuthInvalid \<Rightarrow> refuse_login V ip L
           | AuthOK \<Rightarrow> do {
               _ \<leftarrow> stamp_login V a;
               issue_token V ip L (ar_role a) (ar_user a) (Some (ar_role a, ar_user a))
             }))
   }"

definition handleLoginUsers :: "server \<Rightarrow> http_method \<Rightarrow> string \<Rightarrow> login_request option \<Rightarrow> limiter \<Rightarrow> (login_resp \<times> limiter) pm" where
  "handleLoginUsers V m ip body L =
     (if \<not> rb_users (sv_rbac V) then handleLogin V m ip body L
      else if m \<noteq> POST then State_Monad.return (Resp 405 None, L)
      else case body of
        None \<Rightarrow> State_Monad.return (Resp 400 None, L)
      | Some q \<Rightarrow> limited V ip L (users_login V ip q))"

end
