(* ===== verification/Users_Api.thy ===== *)
theory Users_Api
  imports Login
begin

section \<open>The routes of operator accounts and API tokens\<close>

text \<open>
  \<^verbatim>\<open>server/internal/httpapi/domain_users.go\<close>, below the login. A JSON body arrives decoded; \<open>None\<close> means
  it did not parse. The handlers run behind the admin gate (\<open>registerUsers\<close>).
\<close>

record create_user =
  cu_name :: string
  cu_password :: string
  cu_role :: string
  cu_clients :: "string list"

record patch_user =
  pu_role :: "string option"
  pu_enabled :: "bool option"
  pu_clients :: "string list option"
  pu_password :: string

record create_token =
  ct_name :: string
  ct_days :: int

datatype user_request = NoBody | BadBody | CreateBody create_user | PatchBody patch_user | CodeBody string
  | TokenBody create_token

text \<open>The read model never holds the salt or the hash.\<close>

record user_out =
  uo_id :: string
  uo_name :: string
  uo_role :: string
  uo_enabled :: bool
  uo_enrolled :: bool
  uo_verified :: bool
  uo_last_login :: "time option"
  uo_clients :: "string list"
  uo_created :: time
  uo_updated :: time

record token_out =
  to_id :: string
  to_name :: string
  to_prefix :: string
  to_created :: time
  to_expires :: "time option"
  to_last_used :: "time option"

datatype user_body = UList "user_out list" | UOne user_out | UTokens "token_out list" | UMinted minted
  | USecret string string | UFine | URefused string

type_synonym user_resp = "user_body response"

definition userOut :: "account \<Rightarrow> user_out" where
  "userOut u = \<lparr>uo_id = u_id u, uo_name = u_name u, uo_role = u_role u, uo_enabled = u_enabled u,
     uo_enrolled = (u_totp u \<noteq> []), uo_verified = (u_totp_verified u \<noteq> None), uo_last_login = u_last_login u,
     uo_clients = u_clients u, uo_created = u_created u, uo_updated = u_updated u\<rparr>"

definition token_view :: "api_token \<Rightarrow> token_out" where
  "token_view k = \<lparr>to_id = tk_id k, to_name = tk_name k, to_prefix = tk_prefix k, to_created = tk_created k,
     to_expires = tk_expires k, to_last_used = tk_last_used k\<rparr>"

definition refused :: "nat \<Rightarrow> string \<Rightarrow> user_resp" where
  "refused n m = Resp n (Some (URefused m))"

subsection \<open>Accounts\<close>

definition createUser :: "server \<Rightarrow> create_user \<Rightarrow> user_resp pm" where
  "createUser V q =
     (if cu_name q = [] \<or> length (cu_password q) < 8
      then State_Monad.return (refused 400 ''username and a password of at least 8 characters are required'')
      else if \<not> ValidRole (cu_role q)
      then State_Monad.return (refused 400 ''role must be admin, tech, or viewer'')
      else do {
        r \<leftarrow> pg_Create (sv_users V) (sv_env V) (cu_name q) (cu_role q) (cu_password q) (cu_clients q);
        State_Monad.return (case r of
           Inl e \<Rightarrow> if e = UUsernameExists then refused 409 ''username already exists'' else Resp 500 None
         | Inr u \<Rightarrow> Resp 201 (Some (UOne (userOut u))))
      })"

definition handleUsers :: "server \<Rightarrow> http_method \<Rightarrow> user_request \<Rightarrow> user_resp pm" where
  "handleUsers V m body =
     (if \<not> rb_users (sv_rbac V)
      then State_Monad.return (refused 503 ''operator accounts require a database (in-memory mode)'')
      else case m of
        GET \<Rightarrow> do {
          r \<leftarrow> pg_List (sv_env V);
          State_Monad.return (case r of Inl e \<Rightarrow> Resp 500 None | Inr us \<Rightarrow> Resp 200 (Some (UList (map userOut us))))
        }
      | POST \<Rightarrow> (case body of CreateBody q \<Rightarrow> createUser V q | _ \<Rightarrow> State_Monad.return (Resp 400 None))
      | _ \<Rightarrow> State_Monad.return (Resp 405 None))"

text \<open>The account read back after the password is written unless that read fails.\<close>

definition patch_password :: "server \<Rightarrow> string \<Rightarrow> string \<Rightarrow> account \<Rightarrow> user_resp pm" where
  "patch_password V i password u =
     (if password = [] then State_Monad.return (Resp 200 (Some (UOne (userOut u))))
      else if length password < 8
      then State_Monad.return (refused 400 ''password must be at least 8 characters'')
      else do {
        r \<leftarrow> pg_SetPassword (sv_users V) (sv_env V) i password;
        (case r of
           Inl e \<Rightarrow> State_Monad.return (Resp 500 None)
         | Inr _ \<Rightarrow> do {
             g \<leftarrow> pg_Get (sv_env V) i;
             State_Monad.return (case g of Inl e \<Rightarrow> Aborted | Inr u' \<Rightarrow> Resp 200 (Some (UOne (userOut u'))))
           })
      })"

definition patchUser :: "server \<Rightarrow> http_method \<Rightarrow> string \<Rightarrow> user_request \<Rightarrow> user_resp pm" where
  "patchUser V m i body =
     (if m \<noteq> PATCH then State_Monad.return (Resp 405 None)
      else case body of
        PatchBody q \<Rightarrow>
          if bad_role (pu_role q) then State_Monad.return (refused 400 ''role must be admin, tech, or viewer'')
          else do {
            r \<leftarrow> pg_Update (sv_env V) i (pu_role q) (pu_enabled q) (pu_clients q);
            (case r of
               Inl e \<Rightarrow> State_Monad.return
                 (if e = UNotFound then refused 404 ''user not found''
                  else if e = UUsernameExists then refused 409 ''username already exists''
                  else Resp 500 None)
             | Inr u \<Rightarrow> patch_password V i (pu_password q) u)
          }
      | _ \<Rightarrow> State_Monad.return (Resp 400 None))"

subsection \<open>Two-factor enrolment\<close>

text \<open>\<^verbatim>\<open>url.QueryEscape\<close>: a space is \<^verbatim>\<open>+\<close>, and letters, digits and \<^verbatim>\<open>-_.~\<close> stay.\<close>

definition unreserved :: "char \<Rightarrow> bool" where
  "unreserved c \<longleftrightarrow> (let n = of_char c :: nat in
     is_digit c \<or> 65 \<le> n \<and> n \<le> 90 \<or> 97 \<le> n \<and> n \<le> 122 \<or> c \<in> set ''-_.~'')"

definition escape_char :: "char \<Rightarrow> string" where
  "escape_char c = (if unreserved c then [c] else if c = CHR '' '' then ''+''
     else CHR ''%'' # map upper (hex_byte c))"

definition TotpURI :: "string \<Rightarrow> string \<Rightarrow> string" where
  "TotpURI user secret =
     ''otpauth://totp/rmmway:'' @ concat (map escape_char user) @ ''?secret='' @ secret @
     ''&issuer=RMMWay'' @ ''&algorithm=SHA1'' @ ''&digits=6'' @ ''&period=30''"

definition start_totp :: "server \<Rightarrow> string \<Rightarrow> user_resp pm" where
  "start_totp V i = do {
     raw \<leftarrow> rand_read (sv_users V) 20;
     (case TotpSecret raw of
        None \<Rightarrow> State_Monad.return (Resp 500 None)
      | Some secret \<Rightarrow> do {
          g \<leftarrow> pg_Get (sv_env V) i;
          (case g of
             Inl e \<Rightarrow> State_Monad.return (refused 404 ''user not found'')
           | Inr u \<Rightarrow> do {
               r \<leftarrow> pg_SetTotpSecret (sv_env V) i secret;
               State_Monad.return (case r of
                  Inl e \<Rightarrow> Resp 500 None
                | Inr _ \<Rightarrow> Resp 200 (Some (USecret secret (TotpURI i secret))))
             })
        })
   }"

text \<open>The message has an em dash.\<close>

definition totp_missing :: string where
  "totp_missing = ''totp not enrolled '' @ [CHR 0xE2, CHR 0x80, CHR 0x94] @ '' call start first''"

definition confirm_totp :: "server \<Rightarrow> string \<Rightarrow> string \<Rightarrow> user_resp pm" where
  "confirm_totp V i code = do {
     g \<leftarrow> pg_Get (sv_env V) i;
     (case g of
        Inl e \<Rightarrow> State_Monad.return (refused 404 ''user not found'')
      | Inr u \<Rightarrow>
          if u_totp u = [] then State_Monad.return (refused 400 totp_missing)
          else do {
            t \<leftarrow> now (sv_env V);
            (if \<not> VerifyTotp (u_totp u) code t then State_Monad.return (refused 401 ''invalid code'')
             else do {
               r \<leftarrow> pg_VerifyTotp (sv_env V) i;
               State_Monad.return (case r of Inl e \<Rightarrow> Resp 500 None | Inr _ \<Rightarrow> Resp 200 (Some UFine))
             })
          })
   }"

definition totpSub :: "server \<Rightarrow> http_method \<Rightarrow> string \<Rightarrow> string list \<Rightarrow> user_request \<Rightarrow> user_resp pm" where
  "totpSub V m i rest body =
     (if rest = [''start''] \<and> m = POST then start_totp V i
      else if rest = [''confirm''] \<and> m = POST
      then (case body of CodeBody code \<Rightarrow> confirm_totp V i code | _ \<Rightarrow> State_Monad.return (Resp 400 None))
      else if rest = [] \<and> m = DELETE
      then do {
        r \<leftarrow> pg_ClearTotp (sv_env V) i;
        State_Monad.return (case r of Inl e \<Rightarrow> Resp 500 None | Inr _ \<Rightarrow> Resp 200 (Some UFine))
      }
      else State_Monad.return (Resp 404 None))"

subsection \<open>API tokens\<close>

text \<open>Days to nanoseconds, in 64-bit arithmetic.\<close>

definition token_ttl :: "int \<Rightarrow> duration" where
  "token_ttl days = (if days > 0 then wrap64 (wrap64 (days * 24) * hour) else 30 * 24 * hour)"

definition createToken :: "server \<Rightarrow> string \<Rightarrow> create_token \<Rightarrow> user_resp pm" where
  "createToken V i q =
     (if ct_name q = [] then State_Monad.return (refused 400 ''name is required'')
      else do {
        r \<leftarrow> pg_CreateToken (sv_users V) (sv_env V) i (ct_name q) (token_ttl (ct_days q));
        State_Monad.return (case r of Inl e \<Rightarrow> Resp 500 None | Inr mt \<Rightarrow> Resp 201 (Some (UMinted mt)))
      })"

definition tokensSub :: "server \<Rightarrow> http_method \<Rightarrow> string \<Rightarrow> string list \<Rightarrow> user_request \<Rightarrow> user_resp pm" where
  "tokensSub V m i rest body =
     (if rest = [] \<and> m = POST
      then (case body of TokenBody q \<Rightarrow> createToken V i q | _ \<Rightarrow> State_Monad.return (Resp 400 None))
      else if rest = [] \<and> m = GET
      then do {
        r \<leftarrow> pg_ListTokens (sv_env V) i;
        State_Monad.return (case r of Inl e \<Rightarrow> Resp 500 None | Inr ts \<Rightarrow> Resp 200 (Some (UTokens (map token_view ts))))
      }
      else if length rest = 1 \<and> m = DELETE
      then do {
        r \<leftarrow> pg_RevokeToken (sv_env V) (hd rest);
        State_Monad.return (case r of
           Inl e \<Rightarrow> if e = UNotFound then refused 404 ''token not found'' else Resp 500 None
         | Inr _ \<Rightarrow> Resp 200 (Some UFine))
      }
      else State_Monad.return (Resp 404 None))"

definition handleUserSub :: "server \<Rightarrow> http_method \<Rightarrow> string \<Rightarrow> user_request \<Rightarrow> user_resp pm" where
  "handleUserSub V m path body =
     (if \<not> rb_users (sv_rbac V)
      then State_Monad.return (refused 503 ''operator accounts require a database (in-memory mode)'')
      else
        let rest = TrimPrefix (TrimPrefix path ''/api/users/'') ''/admin/users/'';
            parts = split_on CHR ''/'' rest in
        if length parts = 1 \<and> hd parts \<noteq> [] then patchUser V m (hd parts) body
        else if length parts \<ge> 2 \<and> hd parts \<noteq> [] \<and> parts ! 1 = ''totp''
        then totpSub V m (hd parts) (drop 2 parts) body
        else if length parts \<ge> 2 \<and> hd parts \<noteq> [] \<and> parts ! 1 = ''tokens''
        then tokensSub V m (hd parts) (drop 2 parts) body
        else State_Monad.return (Resp 404 None))"

subsection \<open>Registration\<close>

definition gate_body :: "user_resp pm \<Rightarrow> (user_body gated response) pm" where
  "gate_body c = do {
     r \<leftarrow> c;
     State_Monad.return (case r of Aborted \<Rightarrow> Aborted | Resp n b \<Rightarrow> Resp n (map_option Body b))
   }"

definition users_route :: "server \<Rightarrow> credential \<Rightarrow> http_method \<Rightarrow> user_request \<Rightarrow> (user_body gated response) pm" where
  "users_route V cred m body =
     RequireRole (sv_rbac V) [''admin''] (\<lambda>s. gate_body (handleUsers V m body)) cred"

definition user_sub_route :: "server \<Rightarrow> credential \<Rightarrow> http_method \<Rightarrow> string \<Rightarrow> user_request \<Rightarrow>
    (user_body gated response) pm" where
  "user_sub_route V cred m path body =
     RequireRole (sv_rbac V) [''admin''] (\<lambda>s. gate_body (handleUserSub V m path body)) cred"

end
