(* ===== verification/Users_Safety.thy ===== *)
theory Users_Safety
  imports Users_Equiv Users_Api
begin

section \<open>Operator accounts: what every operation keeps\<close>

text \<open>
  The constraints of the account tables (well-formedness), kept by every operation of the Postgres store
  under all faults and any interference that keeps them, and what a session and a login stand for.
\<close>

subsection \<open>Well-formed tables\<close>

definition account_wf :: "account_world \<Rightarrow> bool" where
  "account_wf w \<longleftrightarrow>
     distinct (map u_id (accounts w)) \<and>
     distinct (map (\<lambda>u. ToLower (u_name u)) (accounts w)) \<and>
     (\<forall>u\<in>set (accounts w). ValidRole (u_role u)) \<and>
     distinct (grants w) \<and> fst ` set (grants w) \<subseteq> u_id ` set (accounts w) \<and>
     snd ` set (grants w) \<subseteq> set (known_clients w) \<and>
     distinct (map tk_id (tokens w)) \<and> distinct (map tk_hash (tokens w)) \<and>
     tk_user ` set (tokens w) \<subseteq> u_id ` set (accounts w)"

definition keeps_wf :: "account_world \<Rightarrow> account_world \<Rightarrow> bool" where
  "keeps_wf v w \<longleftrightarrow> (account_wf v \<longrightarrow> account_wf w)"

lemma account_wf_tick [simp]: "account_wf (w\<lparr>tick := n\<rparr>) = account_wf w"
  by (simp add: account_wf_def)

interpretation aw: history keeps_wf
  by unfold_locales (simp_all add: keeps_wf_def)

lemma keeps_wf_draws: "keeps_wf w (w\<lparr>draws := n\<rparr>)"
  by (simp add: keeps_wf_def account_wf_def)

lemma rand_read_keeps [guarantee]: "guarantees keeps_wf (rand_read D n)"
  by (rule guaranteesI) (simp add: keeps_wf_draws)

lemma mint_keeps [guarantee]: "guarantees keeps_wf (mint D n p)"
  unfolding mint_def by (intro guarantee aw.bind aw.return)

subsection \<open>Statements\<close>

lemma insert_account_keeps:
  assumes "ValidRole (u_role u)"
  shows "keeps_wf w (snd (insert_account_stmt E u w))"
  using assms
  by (auto simp: keeps_wf_def account_wf_def insert_account_stmt_def Let_def name_taken_def list_ex_iff EqualFold_def)

lemma map_keys_update:
  "(\<And>r. k (f r) = k r) \<Longrightarrow> map k (update_where P f xs) = map k xs"
  "(\<And>r. k (f r) = k r) \<Longrightarrow> k ` set (update_where P f xs) = k ` set xs"
proof -
  assume "\<And>r. k (f r) = k r"
  then show *: "map k (update_where P f xs) = map k xs" by (intro map_update_where)
  show "k ` set (update_where P f xs) = k ` set xs" using arg_cong [OF *, of set] by simp
qed

lemma update_accounts_keeps:
  assumes "\<And>u. u_id (f u) = u_id u" "\<And>u. u_name (f u) = u_name u"
    and role: "\<And>u. ValidRole (u_role u) \<Longrightarrow> ValidRole (u_role (f u))"
  shows "keeps_wf w (w\<lparr>accounts := update_where P f (accounts w)\<rparr>)"
proof -
  have "map u_id (update_where P f (accounts w)) = map u_id (accounts w)"
    "map (\<lambda>u. ToLower (u_name u)) (update_where P f (accounts w)) = map (\<lambda>u. ToLower (u_name u)) (accounts w)"
    "u_id ` set (update_where P f (accounts w)) = u_id ` set (accounts w)"
    using assms(1,2) by (simp_all add: map_keys_update)
  then show ?thesis
    using role by (auto simp: keeps_wf_def account_wf_def set_update_where)
qed

lemma insert_grant_keeps: "keeps_wf w (snd (insert_grant_stmt i c w))"
  by (auto simp: keeps_wf_def account_wf_def insert_grant_stmt_def)

lemma delete_grants_keeps: "keeps_wf w (snd (delete_grants_stmt i w))"
  by (auto simp: keeps_wf_def account_wf_def delete_grants_stmt_def)

lemma insert_token_keeps: "keeps_wf w (snd (insert_token_stmt tk w))"
  by (auto simp: keeps_wf_def account_wf_def insert_token_stmt_def)

lemma delete_token_keeps: "keeps_wf w (snd (delete_token_stmt i w))"
  by (auto simp: keeps_wf_def account_wf_def delete_token_stmt_def distinct_map_filter)

lemma stamp_token_keeps: "keeps_wf w (snd (stamp_token_stmt h t w))"
  by (simp add: keeps_wf_def account_wf_def stamp_token_stmt_def map_keys_update)

lemmas stmt_keeps = insert_account_keeps insert_grant_keeps delete_grants_keeps insert_token_keeps delete_token_keeps
  stamp_token_keeps

subsection \<open>Operations\<close>

lemma reads_keep:
  assumes "rely keeps_wf E"
  shows "guarantees keeps_wf (fillGrants E us)" "guarantees keeps_wf (fill_one E u)"
    "guarantees keeps_wf (pg_List E)" "guarantees keeps_wf (pg_Count E)" "guarantees keeps_wf (pg_getRow E P)"
    "guarantees keeps_wf (pg_Get E i)" "guarantees keeps_wf (pg_GetByUsername E n)"
    "guarantees keeps_wf (pg_ListTokens E i)"
proof -
  note [guarantee] = aw.query [OF assms]
  show fill: "guarantees keeps_wf (fillGrants E us)" for us
    unfolding fillGrants_def by (auto intro!: aw.bind aw.return aw.query [OF assms])
  show one: "guarantees keeps_wf (fill_one E u)" for u
    unfolding fill_one_def by (intro aw.bind aw.return fill)
  show "guarantees keeps_wf (pg_List E)" unfolding pg_List_def pg_listRows_def
    by (intro aw.bind aw.query assms) (auto intro!: aw.return fill split: sum.split)
  show "guarantees keeps_wf (pg_Count E)" unfolding pg_Count_def by (intro aw.bind aw.return aw.query assms)
  show row: "guarantees keeps_wf (pg_getRow E P)" for P unfolding pg_getRow_def
    by (intro aw.bind aw.return aw.query assms)
  show "guarantees keeps_wf (pg_Get E i)" unfolding pg_Get_def
    by (intro aw.bind row) (auto intro!: aw.return one split: sum.split)
  show "guarantees keeps_wf (pg_GetByUsername E n)" unfolding pg_GetByUsername_def
    by (intro aw.bind row) (auto intro!: aw.return one split: sum.split)
  show "guarantees keeps_wf (pg_ListTokens E i)" unfolding pg_ListTokens_def
    by (intro aw.bind aw.return aw.query assms)
qed

lemma insert_grants_keep: "guarantees keeps_wf (insert_grants E i cs)"
proof (induction cs)
  case Nil
  show ?case by (simp add: aw.return)
next
  case (Cons c cs)
  then show ?case
    by (auto intro!: aw.bind aw.tx_exec aw.return insert_grant_keeps split: sum.split)
qed

lemma Create_keeps:
  assumes "rely keeps_wf E"
  shows "guarantees keeps_wf (pg_Create D E n role pw cs)"
proof (cases "ValidRole role")
  case True
  have "guarantees keeps_wf (pg_create_tx E (new_account D i n role pw salt [] 0) cs)" for i salt
    unfolding pg_create_tx_def insertGrants_def
    using True by (auto intro!: aw.bind aw.tx_exec aw.return insert_account_keeps insert_grants_keep
        simp: new_account_def split: sum.split)
  then show ?thesis
    unfolding pg_Create_def newUserID_def using True assms
    by (auto intro!: aw.bind aw.return aw.transaction mint_keeps rand_read_keeps split: sum.split option.split)
qed (simp add: pg_Create_def aw.return)

lemma account_exec_keeps:
  assumes "rely keeps_wf E" "\<And>t u. u_id (f t u) = u_id u" "\<And>t u. u_name (f t u) = u_name u"
    "\<And>t u. ValidRole (u_role u) \<Longrightarrow> ValidRole (u_role (f t u))"
  shows "guarantees keeps_wf (account_exec E i f)" "guarantees keeps_wf (account_tx E i f)"
  unfolding account_exec_def account_tx_def update_account_stmt_def
  using assms by (auto intro!: aw.exec aw.tx_exec update_accounts_keeps)

lemma Update_keeps:
  assumes "rely keeps_wf E"
  shows "guarantees keeps_wf (pg_Update E i role en cs)"
proof (cases "bad_role role")
  case False
  then have "guarantees keeps_wf (account_tx E i (\<lambda>t u. (patch_account role en u)\<lparr>u_updated := t\<rparr>))"
    by (intro account_exec_keeps assms) (auto simp: patch_account_def bad_role_def split: option.split)
  moreover have "guarantees keeps_wf (replace_grants E i cs)"
    unfolding replace_grants_def insertGrants_def
    by (auto intro!: aw.bind aw.tx_exec aw.return delete_grants_keeps insert_grants_keep split: option.split sum.split)
  ultimately have "guarantees keeps_wf (pg_update_tx E i role en cs)"
    unfolding pg_update_tx_def by (auto intro!: aw.bind aw.return split: sum.split)
  then show ?thesis
    unfolding pg_Update_def using False assms
    by (auto intro!: aw.bind aw.return aw.transaction reads_keep split: sum.split)
qed (simp add: pg_Update_def aw.return)

lemma VerifyTotp_keeps:
  assumes "rely keeps_wf E"
  shows "guarantees keeps_wf (pg_VerifyTotp E i)"
  unfolding pg_VerifyTotp_def verify_totp_stmt_def Let_def
  using assms by (auto intro!: aw.bind aw.exec aw.return aw.query update_accounts_keeps split: sum.split)

lemma CreateToken_keeps:
  assumes "rely keeps_wf E"
  shows "guarantees keeps_wf (pg_CreateToken D E i n ttl)"
  unfolding pg_CreateToken_def MintAPIKey_def newTokenID_def
  using assms by (auto intro!: aw.bind aw.exec aw.return aw.now mint_keeps insert_token_keeps reads_keep split: sum.split)

lemma VerifyToken_keeps:
  assumes "rely keeps_wf E"
  shows "guarantees keeps_wf (pg_VerifyToken E tok)"
  unfolding pg_VerifyToken_def
  using assms by (auto intro!: aw.bind aw.query aw.exec aw.return aw.now stamp_token_keeps reads_keep
      split: sum.split option.split)

lemma simple_changes_keep:
  assumes "rely keeps_wf E"
  shows "guarantees keeps_wf (pg_SetPassword D E i pw)" "guarantees keeps_wf (pg_SetTotpSecret E i s)"
    "guarantees keeps_wf (pg_ClearTotp E i)" "guarantees keeps_wf (pg_MarkLoggedIn E i)"
    "guarantees keeps_wf (pg_RevokeToken E i)"
proof -
  note change = account_exec_keeps(1) [OF assms]
  show "guarantees keeps_wf (pg_SetPassword D E i pw)" unfolding pg_SetPassword_def
    by (intro aw.bind rand_read_keeps) (auto intro!: aw.bind aw.return change split: option.split)
  show "guarantees keeps_wf (pg_SetTotpSecret E i s)" unfolding pg_SetTotpSecret_def
    by (intro aw.bind aw.return change) simp_all
  show "guarantees keeps_wf (pg_ClearTotp E i)" unfolding pg_ClearTotp_def
    by (intro aw.bind aw.return change) simp_all
  show "guarantees keeps_wf (pg_MarkLoggedIn E i)" unfolding pg_MarkLoggedIn_def
    by (intro aw.bind aw.return change) simp_all
  show "guarantees keeps_wf (pg_RevokeToken E i)" unfolding pg_RevokeToken_def
    by (intro aw.bind aw.return aw.exec assms delete_token_keeps)
qed

lemma answer_keeps: "guarantees keeps_wf c \<Longrightarrow> guarantees keeps_wf (answer f c)"
  unfolding answer_def by (intro aw.bind aw.return)

lemma pg_op_keeps: "rely keeps_wf E \<Longrightarrow> guarantees keeps_wf (pg_op D E x)"
  by (cases x) (simp_all add: answer_keeps reads_keep Create_keeps Update_keeps VerifyTotp_keeps CreateToken_keeps
      VerifyToken_keeps simple_changes_keep)

end
