(* ===== verification/Users_Properties.thy ===== *)
theory Users_Properties
  imports Users_Safety
begin

section \<open>Operator accounts, sessions, login and setup: the properties\<close>

text \<open>
  The tables stay well formed; the two account stores cannot be told apart; a session stands for an
  enabled account; a login succeeds exactly when the credentials do; the failure budget; one-time codes;
  token lifetimes; and the wizard.
\<close>

subsection \<open>Statements in an undisturbed world\<close>

lemma run_query_undisturbed:
  "undisturbed E \<Longrightarrow> run_state (query E f) w =
     ((if db_out E (tick w) = DbOk then Inr (f (w\<lparr>tick := Suc (tick w)\<rparr>)) else Inl EDb), w\<lparr>tick := Suc (tick w)\<rparr>)"
  by (cases "db_out E (tick w)") (simp_all add: query_def undisturbed_others)

lemma undisturbed_calm [simp]: "undisturbed (calm t)"
  by (simp add: undisturbed_def)

lemma rely_calm: "history R \<Longrightarrow> rely R (calm t)"
  by (simp add: rely_def history.refl)

subsection \<open>Well-formed tables\<close>

text \<open>The accounts of a small installation.\<close>

definition ana :: account where
  "ana = \<lparr>u_id = ''usr-1'', u_name = ''Ana'', u_role = ''admin'', u_enabled = True, u_salt = ''s'', u_hash = ''pws'',
     u_totp = [], u_totp_verified = None, u_last_login = None, u_created = 0, u_updated = 0, u_clients = []\<rparr>"

definition tom :: account where
  "tom = \<lparr>u_id = ''usr-2'', u_name = ''tom'', u_role = ''tech'', u_enabled = True, u_salt = ''s'', u_hash = ''pws'',
     u_totp = [], u_totp_verified = None, u_last_login = None, u_created = 0, u_updated = 0, u_clients = []\<rparr>"

definition office :: account_world where
  "office = \<lparr>tick = 0, draws = 0, accounts = [ana, tom], grants = [(''usr-2'', ''c1'')], tokens = [],
     known_clients = [''c1'', ''c2''], admin_rows = [], setup_row = None, org_row = None, smtp_row = None\<rparr>"

lemma office_fields:
  "tick office = 0" "draws office = 0" "setup_row office = None" "admin_rows office = []"
  by (simp_all add: office_def)

lemma office_wf: "account_wf office"
  by (simp add: account_wf_def office_def ana_def tom_def ValidRole_def ToLower_def lower_char_def)

text \<open>
  C16. The account tables stay well formed: unique ids, names unique up to case, only the three roles,
  grants without repetition to known clients of existing accounts, tokens of existing accounts with
  unique ids and hashes. This holds after every sequence of operations of the store, each under its own
  schedule of faults and with any interference that keeps the tables well formed.
\<close>
theorem account_tables_wf:
  assumes "\<forall>x\<in>set steps. rely keeps_wf (fst x)" and "account_wf w"
  shows "account_wf (snd (run_ops (\<lambda>(E, x). run_state (pg_op D E x)) steps w))"
  using assms
proof (induction steps arbitrary: w)
  case (Cons s steps)
  obtain E x where s: "s = (E, x)" by (cases s)
  have "rely keeps_wf E" using Cons.prems(1) by (simp add: s)
  from guaranteesD [OF pg_op_keeps [OF this]] have "keeps_wf w (snd (run_state (pg_op D E x) w))" .
  then have "account_wf (snd (run_state (pg_op D E x) w))"
    using Cons.prems(2) by (simp add: keeps_wf_def)
  with Cons show ?case by (simp add: s Let_def split_beta)
qed simp

definition demo_deps :: user_deps where
  "demo_deps = \<lparr>ud_rand = (\<lambda>d n. Some (replicate n (char_of (d mod 256)))), ud_kdf = (\<lambda>p s. p @ s)\<rparr>"

lemma account_tables_wf_witness:
  "account_wf (snd (run_ops (\<lambda>(E, x). run_state (pg_op demo_deps E x))
     [(calm 5, OpCreate ''eve'' ''viewer'' ''secret99'' [''c1'']), (calm 6, OpUpdate ''usr-2'' (Some ''admin'') None None)] office))"
  by (rule account_tables_wf) (simp_all add: office_wf rely_calm aw.history_axioms)

subsection \<open>The two stores\<close>




subsection \<open>Sessions\<close>

lemma fillGrants_undisturbed:
  "undisturbed E \<Longrightarrow> run_state (fill_one E u) w =
     ((if db_out E (tick w) = DbOk then Inr (fill w u) else Inl (UStore EDb)), w\<lparr>tick := Suc (tick w)\<rparr>)"
  by (simp add: fill_one_def fillGrants_def run_query_undisturbed lift_err_def)

lemma getRow_undisturbed:
  assumes "undisturbed E" "run_state (pg_getRow E P) w = (Inr u, w')"
  shows "u \<in> set (accounts w) \<and> P u \<and> w' = w\<lparr>tick := Suc (tick w)\<rparr>"
  using assms by (auto simp: pg_getRow_def run_query_undisturbed dest: find_in split: if_splits option.splits)

lemma GetByUsername_undisturbed:
  assumes E: "undisturbed E" and run: "run_state (pg_GetByUsername E n) w = (Inr v, w')"
  shows "\<exists>u\<in>set (accounts w). ToLower (u_name u) = ToLower n \<and> v = fill w u"
proof -
  obtain r w1 where row: "run_state (pg_getRow E (\<lambda>u. ToLower (u_name u) = ToLower n)) w = (r, w1)" by fastforce
  with run obtain u where r: "r = Inr u" by (cases r) (auto simp: pg_GetByUsername_def)
  from getRow_undisturbed [OF E row [unfolded r]]
  have u: "u \<in> set (accounts w)" "ToLower (u_name u) = ToLower n" "w1 = w\<lparr>tick := Suc (tick w)\<rparr>" by auto
  from run row r u have "v = fill w u"
    by (auto simp: pg_GetByUsername_def fillGrants_undisturbed [OF E] split: if_splits)
  with u show ?thesis by blast
qed

lemma backed_of_account:
  "u \<in> set (accounts w) \<Longrightarrow> u_enabled u \<Longrightarrow> backed w ((sessionFromUser (fill w u))\<lparr>ss_caps := cs\<rparr>)"
  "u \<in> set (accounts w) \<Longrightarrow> u_enabled u \<Longrightarrow> backed w (sessionFromUser (fill w u))"
  by (auto simp: backed_def sessionFromUser_def fill_def Let_def)

lemma run_exec_undisturbed:
  "undisturbed E \<Longrightarrow> run_state (exec E stmt) w =
     (case db_out E (tick w) of
        DbOk \<Rightarrow> stmt (w\<lparr>tick := Suc (tick w)\<rparr>)
      | DbErr \<Rightarrow> (Inl EDb, w\<lparr>tick := Suc (tick w)\<rparr>)
      | DbLost \<Rightarrow> (Inl EDb, snd (stmt (w\<lparr>tick := Suc (tick w)\<rparr>))))"
  by (cases "db_out E (tick w)") (simp_all add: exec_def undisturbed_others)

lemma stamp_keeps_grants:
  "undisturbed E \<Longrightarrow> grants (snd (run_state (exec E (\<lambda>w. stamp_token_stmt h (f w) w)) w)) = grants w"
  by (simp add: run_exec_undisturbed stamp_token_stmt_def split: db_out.split)

lemma fill_grants_cong: "grants w' = grants w \<Longrightarrow> fill w' = fill w"
  by (simp add: fill_def grants_of_def fun_eq_iff)

lemma VerifyToken_undisturbed:
  assumes E: "undisturbed E" and run: "run_state (pg_VerifyToken E tok) w = (Inr v, w')"
  shows "\<exists>u\<in>set (accounts w). u_enabled u \<and> v = fill w u"
proof -
  from run obtain u ex where own: "token_owner (hashAPIToken tok) (w\<lparr>tick := Suc (tick w)\<rparr>) = Some (u, ex)"
    by (auto simp: pg_VerifyToken_def run_query_undisturbed [OF E] split: if_splits option.splits)
  then have u: "u \<in> set (accounts w)"
    by (auto simp: token_owner_def dest: find_in split: option.splits)
  obtain w1 where w1: "grants w1 = grants w" "u_enabled u"
    "run_state (do { _ \<leftarrow> exec E (\<lambda>w. stamp_token_stmt (hashAPIToken tok) (clock E (tick w)) w); fill_one E u }) w1 = (Inr v, w')"
  proof (cases ex)
    case None
    with run own that [of "w\<lparr>tick := Suc (tick w)\<rparr>"] show ?thesis
      by (simp add: pg_VerifyToken_def run_query_undisturbed [OF E] split: if_splits)
  next
    case (Some t)
    with run own that [of "w\<lparr>tick := Suc (Suc (tick w))\<rparr>"] show ?thesis
      by (simp add: pg_VerifyToken_def run_query_undisturbed [OF E] split: if_splits)
  qed
  define w2 where "w2 = snd (run_state (exec E (\<lambda>w. stamp_token_stmt (hashAPIToken tok) (clock E (tick w)) w)) w1)"
  have "grants w2 = grants w" unfolding w2_def stamp_keeps_grants [OF E] by (rule w1(1))
  moreover have "run_state (fill_one E u) w2 = (Inr v, w')" using w1(3) by (simp add: w2_def)
  ultimately have "v = fill w u"
    using fill_grants_cong [of w2 w] by (simp add: fillGrants_undisturbed [OF E] split: if_splits)
  with u w1(2) show ?thesis by blast
qed

text \<open>
  C5. A session is either backed by an enabled account as the tables hold it at that moment (its name,
  its role, exactly its client grants), or it is that of a valid session token with the role admin or
  none. So an API token, and a session token of a technician or a viewer, stop working as soon as the
  account is disabled, lose access with the grant, and follow its role. Faults are arbitrary: a failed
  query refuses the request.
\<close>
theorem session_backed:
  assumes "undisturbed (rb_env R)" and "rb_users R" and "run_state (SessionFromRequest R r) w = (Some s, w')"
  shows "backed w s \<or>
    (\<exists>t c. ParseSessionJWT R t (TokenFromRequest r) = Some c \<and> cl_role c \<in> {[], ''admin''} \<and>
       s = (IdentityFromClaims c)\<lparr>ss_all := True\<rparr>)"
proof -
  let ?tok = "TokenFromRequest r"
  have nonempty: "?tok \<noteq> []" using assms(3) by (auto simp: SessionFromRequest_def Let_def)
  show ?thesis
  proof (cases "HasPrefix ?tok ''rmm_''")
    case True
    then obtain v where "run_state (pg_VerifyToken (rb_env R) ?tok) w = (Inr v, w')" and s: "s = sessionFromUser v"
      using assms nonempty
      by (auto simp: SessionFromRequest_def Let_def session_from_token_def split: sum.splits prod.splits)
        (metis prod.collapse)
    from VerifyToken_undisturbed [OF assms(1) this(1)] show ?thesis using s backed_of_account(2) by blast
  next
    case False
    obtain c where c: "ParseSessionJWT R (clock (rb_env R) (tick w)) ?tok = Some c"
      using assms(3) nonempty False by (auto simp: SessionFromRequest_def Let_def split: option.splits)
    show ?thesis
    proof (cases "ss_role (IdentityFromClaims c) = ''admin''")
      case True
      then have "cl_role c \<in> {[], ''admin''}" by (auto simp: IdentityFromClaims_def split: if_splits)
      moreover have "s = (IdentityFromClaims c)\<lparr>ss_all := True\<rparr>"
        using assms(3) nonempty False c True by (simp add: SessionFromRequest_def Let_def)
      ultimately show ?thesis using c by blast
    next
      case role: False
      define w1 where "w1 = w\<lparr>tick := Suc (tick w)\<rparr>"
      obtain rv w2 where get: "run_state (pg_GetByUsername (rb_env R) (cl_user c)) w1 = (rv, w2)" by fastforce
      have "run_state (live_session R ((IdentityFromClaims c)\<lparr>ss_all := False\<rparr>)) w1 = (Some s, w')"
        using assms(2,3) nonempty False c role by (simp add: SessionFromRequest_def Let_def w1_def)
      then obtain v where v: "rv = Inr v" "u_enabled v" "s = (sessionFromUser v)\<lparr>ss_caps := cl_caps c\<rparr>"
        using get by (cases rv) (auto simp: live_session_def IdentityFromClaims_def split: if_splits)
      from GetByUsername_undisturbed [OF assms(1) get [unfolded v(1)]]
      obtain u where "u \<in> set (accounts w)" "v = fill w u" by (auto simp: w1_def fill_def grants_of_def)
      then show ?thesis using v(2,3) backed_of_account(1) by (auto simp: fill_def)
    qed
  qed
qed

definition demo_claims :: "string \<Rightarrow> string \<Rightarrow> claims" where
  "demo_claims role user = session_claims [''dispatch''] role user 0 hour"

definition demo_rbac :: rbac where
  "demo_rbac = \<lparr>rb_jwt = (\<lambda>t tok. if t < hour \<and> tok = ''tom'' then Some (demo_claims ''tech'' ''tom'')
       else if t < hour \<and> tok = ''gone'' then Some (demo_claims ''admin'' ''gone'') else None),
     rb_users = True, rb_env = calm 5\<rparr>"

lemma tom_session:
  "fst (run_state (SessionFromRequest demo_rbac \<lparr>rq_auth = [], rq_token = ''tom'', rq_client = []\<rparr>) office) =
     Some \<lparr>ss_user = ''tom'', ss_role = ''tech'', ss_caps = [''dispatch''], ss_legacy = False, ss_all = False,
       ss_clients = [''c1''], ss_active = []\<rparr>"
  by code_simp

lemma session_backed_witness:
  "backed office \<lparr>ss_user = ''tom'', ss_role = ''tech'', ss_caps = [''dispatch''], ss_legacy = False, ss_all = False,
     ss_clients = [''c1''], ss_active = []\<rparr>"
proof -
  from tom_session obtain w' where run: "run_state (SessionFromRequest demo_rbac \<lparr>rq_auth = [], rq_token = ''tom'', rq_client = []\<rparr>) office =
     (Some \<lparr>ss_user = ''tom'', ss_role = ''tech'', ss_caps = [''dispatch''], ss_legacy = False, ss_all = False,
       ss_clients = [''c1''], ss_active = []\<rparr>, w')"
    by (metis prod.collapse)
  have "undisturbed (rb_env demo_rbac)" "rb_users demo_rbac" by (simp_all add: demo_rbac_def)
  from session_backed [OF this run] show ?thesis by (auto simp: IdentityFromClaims_def)
qed

text \<open>A deleted administrator keeps every right until the token expires; nothing checks the account.\<close>

lemma gone_admin_keeps_access:
  "map_option (\<lambda>s. (ss_user s, ss_all s, Allows s [''admin'']))
     (fst (run_state (SessionFromRequest demo_rbac \<lparr>rq_auth = [], rq_token = ''gone'', rq_client = []\<rparr>) office)) =
     Some (''gone'', True, True) \<and> ''gone'' \<notin> u_name ` set (accounts office)"
  by code_simp

subsection \<open>Logins\<close>

text \<open>What a login attempt should give, read off the tables.\<close>

definition legacy_answer :: "user_deps \<Rightarrow> bool \<Rightarrow> (string \<Rightarrow> string \<Rightarrow> bool) option \<Rightarrow> string \<Rightarrow> string \<Rightarrow>
    (string \<times> string \<times> string) list \<Rightarrow> bool \<Rightarrow> auth_result" where
  "legacy_answer D wizard pair user password rows no_accounts =
     (case (if wizard then map_of rows user else None) of
        Some (salt, hash) \<Rightarrow> legacy_result user (if VerifyPassword D password salt hash then AuthOK else AuthInvalid)
      | None \<Rightarrow>
          if (\<exists>p. pair = Some p \<and> p user password) \<and> no_accounts then legacy_result user AuthOK else invalid_result)"

definition auth_spec :: "user_deps \<Rightarrow> bool \<Rightarrow> bool \<Rightarrow> (string \<Rightarrow> string \<Rightarrow> bool) option \<Rightarrow> string \<Rightarrow> string \<Rightarrow> string \<Rightarrow>
    time \<Rightarrow> account_world \<Rightarrow> auth_result" where
  "auth_spec D users wizard pair user password code t w =
     (case (if users then find (\<lambda>u. ToLower (u_name u) = ToLower user) (accounts w) else None) of
        Some u \<Rightarrow> account_result u
          (if \<not> u_enabled u \<or> \<not> VerifyPassword D password (u_salt u) (u_hash u) then AuthInvalid
           else if u_totp u = [] \<or> (\<exists>d\<in>{- 1, 0, 1}. totpCode (u_totp u) (quot (unix_of t) 30 + d) = Some code) then AuthOK
           else if code = [] then AuthMFARequired else AuthInvalid)
      | None \<Rightarrow> legacy_answer D wizard pair user password (admin_rows w) (users \<longrightarrow> accounts w = []))"

definition wizard_on :: "setup_deps option \<Rightarrow> bool" where
  "wizard_on S \<longleftrightarrow> (\<exists>D. S = Some D \<and> sd_store D)"

definition same_database :: "account_world env \<Rightarrow> setup_deps option \<Rightarrow> bool" where
  "same_database E S \<longleftrightarrow> (\<forall>D. S = Some D \<longrightarrow> sd_env D = E)"

lemma account_result_fill [simp]: "account_result (fill w u) o1 = account_result u o1"
  by (simp add: account_result_def fill_def)

lemma fill_fields [simp]:
  "u_enabled (fill w u) = u_enabled u" "u_salt (fill w u) = u_salt u" "u_hash (fill w u) = u_hash u"
  "u_totp (fill w u) = u_totp u" "u_id (fill w u) = u_id u" "u_name (fill w u) = u_name u" "u_role (fill w u) = u_role u"
  by (simp_all add: fill_def)

lemma auth_account_spec:
  "fst (run_state (auth_account E D password code (fill w u)) w1) = account_result u
     (if \<not> u_enabled u \<or> \<not> VerifyPassword D password (u_salt u) (u_hash u) then AuthInvalid
      else if u_totp u = [] \<or>
          (\<exists>d\<in>{- 1, 0, 1}. totpCode (u_totp u) (quot (unix_of (clock E (tick w1))) 30 + d) = Some code) then AuthOK
      else if code = [] then AuthMFARequired else AuthInvalid)"
proof -
  have "\<not> VerifyTotp secret [] t" for secret t by (simp add: VerifyTotp_def)
  then show ?thesis
    unfolding VerifyTotp_iff [unfolded totp_counter_def, symmetric]
    by (cases "u_enabled u \<and> VerifyPassword D password (u_salt u) (u_hash u)"; cases "u_totp u = []"; cases "code = []")
      (auto simp: auth_account_def)
qed

lemma legacy_spec:
  assumes E: "undisturbed E" and db: "same_database E S"
    and run: "run_state (auth_legacy E D S users pair user password) w = (r, w')"
  defines "spec \<equiv> \<lambda>rows. legacy_answer D (wizard_on S) pair user password rows (users \<longrightarrow> accounts w = [])"
  shows "r = Inr a \<Longrightarrow> a = spec (admin_rows w) \<or> a = spec []"
    and "(\<And>n. db_out E n = DbOk) \<Longrightarrow> r = Inr (spec (admin_rows w))"
proof -
  have env: "fst (run_state (auth_env E users p user password) w1) = (if users \<and> db_out E (tick w1) \<noteq> DbOk then Inl (UStore EDb)
      else Inr (if p user password \<and> (users \<longrightarrow> accounts w1 = []) then legacy_result user AuthOK else invalid_result))" for p w1
    by (simp add: auth_env_def pg_Count_def lift_err_def run_query_undisturbed [OF E])
  have creds: "run_state (wizard_credentials S user) w =
      (if wizard_on S then (if db_out E (tick w) = DbOk then map_of (admin_rows w) user else None, w\<lparr>tick := Suc (tick w)\<rparr>)
       else (None, w))"
  proof (cases S)
    case (Some A)
    then have "sd_env A = E" using db by (simp add: same_database_def)
    with Some show ?thesis
      by (simp add: wizard_credentials_def setup_AdminCredentials_def wizard_on_def AdminCredentials_def
          run_query_undisturbed [OF E])
  qed (simp add: wizard_credentials_def wizard_on_def)
  have r: "r = fst (run_state (auth_legacy E D S users pair user password) w)" using run by simp
  have fallback: "fst (run_state (case pair of None \<Rightarrow> State_Monad.return (Inr invalid_result)
        | Some p \<Rightarrow> auth_env E users p user password) w1) =
      (if pair \<noteq> None \<and> users \<and> db_out E (tick w1) \<noteq> DbOk then Inl (UStore EDb) else Inr (spec []))"
    if "accounts w1 = accounts w" for w1
    using that by (cases pair) (auto simp: env spec_def legacy_answer_def)
  show "a = spec (admin_rows w) \<or> a = spec []" if "r = Inr a"
  proof (cases "wizard_on S \<and> db_out E (tick w) = DbOk")
    case True
    then show ?thesis
      using that fallback [of "w\<lparr>tick := Suc (tick w)\<rparr>"] unfolding r
      by (cases "map_of (admin_rows w) user")
        (auto simp: auth_legacy_def creds spec_def legacy_answer_def split: if_splits)
  next
    case False
    then show ?thesis
      using that fallback [of "w\<lparr>tick := Suc (tick w)\<rparr>"] fallback [of w] unfolding r
      by (auto simp: auth_legacy_def creds split: if_splits)
  qed
  show "r = Inr (spec (admin_rows w))" if ok: "\<And>n. db_out E n = DbOk"
  proof (cases "wizard_on S")
    case True
    then show ?thesis
      using ok fallback [of "w\<lparr>tick := Suc (tick w)\<rparr>"] unfolding r
      by (cases "map_of (admin_rows w) user") (auto simp: auth_legacy_def creds spec_def legacy_answer_def)
  next
    case False
    then show ?thesis
      using ok fallback [of w] unfolding r by (auto simp: auth_legacy_def creds spec_def legacy_answer_def)
  qed
qed

lemma Lookup_undisturbed:
  assumes E: "undisturbed E"
  shows "run_state (Lookup E user) w =
    (if db_out E (tick w) \<noteq> DbOk then (Inl (UStore EDb), w\<lparr>tick := Suc (tick w)\<rparr>)
     else case find (\<lambda>u. ToLower (u_name u) = ToLower user) (accounts w) of
       None \<Rightarrow> (Inr None, w\<lparr>tick := Suc (tick w)\<rparr>)
     | Some u \<Rightarrow> ((if db_out E (Suc (tick w)) = DbOk then Inr (Some (fill w u)) else Inl (UStore EDb)),
         w\<lparr>tick := Suc (Suc (tick w))\<rparr>))"
  by (simp add: Lookup_def pg_GetByUsername_def pg_getRow_def run_query_undisturbed [OF E] fillGrants_undisturbed [OF E]
      split: option.split)

text \<open>
  C15. Credential resolution refines its specification: the account of that name (up to the case of ASCII letters) decides
  alone, by its flag, password and one-time code, which must be that of the half minute in which the code reads
  the clock (after the two statements of the lookup) or of a neighbouring one; without one the wizard's administrator decides, and
  without that the environment's pair, which counts only while there are no accounts. When no statement
  fails the answer is the specified one. Under faults, any answer that is not an error is the specified
  one, or the one specified for an empty wizard table: a failed read of that table counts as "no row".
\<close>
theorem Authenticate_refines:
  assumes "undisturbed E" and "same_database E S"
  shows "((\<forall>n. db_out E n = DbOk) \<longrightarrow> fst (run_state (Authenticate E D S users pair user password code) w) =
        Inr (auth_spec D users (wizard_on S) pair user password code (clock E (tick w + 2)) w)) \<and>
    (\<forall>a. fst (run_state (Authenticate E D S users pair user password code) w) = Inr a \<longrightarrow>
      a = auth_spec D users (wizard_on S) pair user password code (clock E (tick w + 2)) w \<or>
      a = auth_spec D users (wizard_on S) pair user password code (clock E (tick w + 2)) (w\<lparr>admin_rows := []\<rparr>))"
proof -
  let ?find = "find (\<lambda>u. ToLower (u_name u) = ToLower user) (accounts w)"
  let ?run = "run_state (Authenticate E D S users pair user password code) w"
  have known: "fst ?run = (if db_out E (tick w) = DbOk \<and> db_out E (Suc (tick w)) = DbOk
      then Inr (auth_spec D users (wizard_on S) pair user password code (clock E (Suc (Suc (tick w)))) w)
      else Inl (UStore EDb))" if "users" "?find = Some u" for u
    using that by (simp add: Authenticate_def Lookup_undisturbed [OF assms(1)] auth_account_spec auth_spec_def)
  define w1 where "w1 = (if users then w\<lparr>tick := Suc (tick w)\<rparr> else w)"
  have w1: "accounts w1 = accounts w" "admin_rows w1 = admin_rows w" by (simp_all add: w1_def)
  obtain r w2 where legacy: "run_state (auth_legacy E D S users pair user password) w1 = (r, w2)" by fastforce
  have unknown: "fst ?run = (if users \<and> db_out E (tick w) \<noteq> DbOk then Inl (UStore EDb) else r)" if "users \<longrightarrow> ?find = None"
    using that legacy by (auto simp: Authenticate_def Lookup_undisturbed [OF assms(1)] w1_def)
  have spec: "auth_spec D users (wizard_on S) pair user password code t (w\<lparr>admin_rows := rows\<rparr>) =
      legacy_answer D (wizard_on S) pair user password rows (users \<longrightarrow> accounts w = [])" if "users \<longrightarrow> ?find = None" for rows t
    using that by (auto simp: auth_spec_def)
  have self: "w\<lparr>admin_rows := admin_rows w\<rparr> = w" by simp
  note leg = legacy_spec [OF assms legacy, unfolded w1]
  show ?thesis
  proof (cases "users \<and> ?find \<noteq> None")
    case True
    then obtain u where "users" "?find = Some u" by auto
    from known [OF this] show ?thesis by (auto split: if_splits)
  next
    case False
    then have none: "users \<longrightarrow> ?find = None" by auto
    note spec = spec [OF none]
    have "fst ?run = Inr (auth_spec D users (wizard_on S) pair user password code t w)" if "\<forall>n. db_out E n = DbOk" for t
      using unknown [OF none] that leg(2) spec [of t "admin_rows w"] by (auto simp: self)
    moreover have "a = auth_spec D users (wizard_on S) pair user password code t w \<or>
        a = auth_spec D users (wizard_on S) pair user password code t (w\<lparr>admin_rows := []\<rparr>)" if "fst ?run = Inr a" for a t
      using unknown [OF none] that leg(1) [of a] spec [of t "admin_rows w"] spec [of t "[]"]
      by (auto simp: self split: if_splits)
    ultimately show ?thesis by blast
  qed
qed

lemma Authenticate_refines_witness:
  "fst (run_state (Authenticate (calm 5) demo_deps None True None ''TOM'' ''pw'' []) office) =
      Inr (auth_spec demo_deps True False None ''TOM'' ''pw'' [] (clock (calm 5) (tick office + 2)) office) \<and>
    ar_outcome (auth_spec demo_deps True False None ''TOM'' ''pw'' [] (clock (calm 5) (tick office + 2)) office) = AuthOK"
proof -
  have "find (\<lambda>u. ToLower (u_name u) = ToLower ''TOM'') (accounts office) = Some tom"
    by code_simp
  then have "ar_outcome (auth_spec demo_deps True False None ''TOM'' ''pw'' [] t office) = AuthOK" for t
    by (simp add: auth_spec_def account_result_def VerifyPassword_def HashPassword_def demo_deps_def tom_def)
  then show ?thesis
    using Authenticate_refines [of "calm 5" None demo_deps True None "''TOM''" "''pw''" "[]" office]
    by (auto simp: same_database_def wizard_on_def)
qed

text \<open>
  The environment's pair comes back to life: the wizard's administrator has changed the password, there
  are no accounts, and one failed read of the wizard's table lets the old pair in.
\<close>

definition after_wizard :: account_world where
  "after_wizard = office\<lparr>accounts := [], grants := [], admin_rows := [(''root'', ''s'', ''new passwords'')], setup_row := Some True\<rparr>"

definition demo_setup :: "account_world env \<Rightarrow> setup_deps" where
  "demo_setup E = \<lparr>sd_env = E, sd_users = demo_deps, sd_store = True, sd_ca = None, sd_devices = None,
     sd_reissued = State_Monad.return (), sd_send = (\<lambda>c to. State_Monad.return (Inr ()))\<rparr>"

definition one_fault :: "nat \<Rightarrow> account_world env" where
  "one_fault n = (calm 5)\<lparr>db_out := (\<lambda>k. if k = n then DbErr else DbOk)\<rparr>"

lemma stale_env_pair_wins:
  "map_sum id ar_outcome (fst (run_state (Authenticate (one_fault 1) demo_deps (Some (demo_setup (one_fault 1))) True
       (Some (\<lambda>u p. u = ''root'' \<and> p = ''old'')) ''root'' ''old'' []) after_wizard)) = Inr AuthOK"
  "map_sum id ar_outcome (fst (run_state (Authenticate (calm 5) demo_deps (Some (demo_setup (calm 5))) True
       (Some (\<lambda>u p. u = ''root'' \<and> p = ''old'')) ''root'' ''old'' []) after_wizard)) = Inr AuthInvalid"
  by code_simp+

subsection \<open>The failure budget\<close>

text \<open>What happens to the budget: an attempt is asked for, fails, or succeeds, at a time, from an address.\<close>

datatype attempt = Ask | Fail | Succeed

fun budget_step :: "time \<times> string \<times> attempt \<Rightarrow> limiter \<Rightarrow> bool \<times> limiter" where
  "budget_step (t, ip, Ask) L = (case allow t ip L of (r, L') \<Rightarrow> (r = Inr (), L'))"
| "budget_step (t, ip, Fail) L = (True, recordFail t ip L)"
| "budget_step (t, ip, Succeed) L = (True, recordOK ip L)"

definition locked_until :: "time \<Rightarrow> string \<Rightarrow> limiter \<Rightarrow> bool" where
  "locked_until u ip L \<longleftrightarrow> (\<exists>st v. L ip = Some st \<and> ip_locked st = Some v \<and> u \<le> v)"

lemma locked_purge: "locked_until u ip L \<Longrightarrow> t \<le> u \<Longrightarrow> locked_until u ip (purgeLocked t L)"
  by (auto simp: locked_until_def purgeLocked_def stale_def split: option.splits)

lemma locked_step:
  assumes "locked_until u ip L" "t < u" "x = (t, ip', a)" "\<not> (ip' = ip \<and> a = Succeed)" "u \<le> t + loginLockout"
  shows "locked_until u ip (snd (budget_step x L))" and "ip' = ip \<Longrightarrow> a = Ask \<Longrightarrow> \<not> fst (budget_step x L)"
proof -
  from assms(1) obtain st v where st: "L ip = Some st" "ip_locked st = Some v" "u \<le> v"
    by (auto simp: locked_until_def)
  show "ip' = ip \<Longrightarrow> a = Ask \<Longrightarrow> \<not> fst (budget_step x L)"
    using st assms(2,3) by (simp add: allow_def)
  have fail: "locked_until u ip (recordFail t ip' L)"
  proof (cases "ip' = ip")
    case False
    then show ?thesis
      using locked_purge [OF assms(1), of t] assms(2) by (auto simp: recordFail_def Let_def locked_until_def)
  next
    case True
    have "purgeLocked t L ip = Some st" using st assms(2) by (simp add: purgeLocked_def stale_def)
    moreover have "ip_locked (count_fail t st) \<in> {Some v, Some (t + loginLockout)}"
      by (auto simp: count_fail_def Let_def st)
    ultimately show ?thesis using True st assms(5) by (auto simp: recordFail_def locked_until_def Let_def)
  qed
  show "locked_until u ip (snd (budget_step x L))"
    using assms fail st by (cases a) (auto simp: allow_def recordOK_def locked_until_def split: option.split)
qed

lemma locked_run:
  assumes "locked_until u ip L"
    and "\<forall>(t, ip', a)\<in>set ys. u - loginLockout \<le> t \<and> t < u \<and> \<not> (ip' = ip \<and> a = Succeed)"
  shows "\<forall>(x, ok)\<in>set (zip ys (fst (run_ops budget_step ys L))). (\<exists>t. x = (t, ip, Ask)) \<longrightarrow> \<not> ok"
  using assms
proof (induction ys arbitrary: L)
  case (Cons y ys)
  obtain t ip' a where y: "y = (t, ip', a)" by (cases y) auto
  note step = locked_step [OF Cons.prems(1) _ y, of]
  from Cons.prems(2) have "t < u" "\<not> (ip' = ip \<and> a = Succeed)" "u \<le> t + loginLockout" by (auto simp: y)
  note step = step [OF this]
  from Cons.IH [OF step(1)] Cons.prems(2) step(2) show ?case
    by (auto simp: Let_def split_beta y)
qed simp

text \<open>Before the tenth failure: how many of them the entry of the address counts.\<close>

definition counting :: "time \<Rightarrow> string \<Rightarrow> nat \<Rightarrow> limiter \<Rightarrow> bool" where
  "counting t0 ip k L \<longleftrightarrow> (k = 0 \<and> L ip = None) \<or>
     (\<exists>st. L ip = Some st \<and> ip_locked st = None \<and> ip_fails st = k \<and> 0 < k \<and> t0 \<le> ip_start st)"

lemma time_sub_le: "t - u \<le> d \<Longrightarrow> 0 \<le> d \<Longrightarrow> d < 2 ^ 63 \<Longrightarrow> time_sub t u \<le> d"
  by (simp add: time_sub_def)

lemma counting_fail:
  assumes "counting t0 ip k L" "t0 \<le> t" "t \<le> t0 + loginWindow"
  shows "Suc k < 10 \<Longrightarrow> counting t0 ip (Suc k) (recordFail t ip L)"
    and "Suc k = 10 \<Longrightarrow> locked_until (t + loginLockout) ip (recordFail t ip L)"
    and "ip' \<noteq> ip \<Longrightarrow> counting t0 ip k (recordFail t ip' L)"
proof -
  have small: "time_sub t s \<le> loginWindow" if "t0 \<le> s" for s
    using assms that by (intro time_sub_le) (auto simp: loginWindow_def minute_def second_def)
  then have kept: "\<not> stale t st" if "ip_locked st = None" "t0 \<le> ip_start st" for st
    using that(1) small [OF that(2)] by (auto simp: stale_def loginPurgeAgo_def loginLockout_def minute_def second_def)
  show "Suc k < 10 \<Longrightarrow> counting t0 ip (Suc k) (recordFail t ip L)"
    using assms kept small
    by (force simp: counting_def recordFail_def purgeLocked_def count_fail_def fresh_ip_def loginMaxFails_def Let_def)
  show "Suc k = 10 \<Longrightarrow> locked_until (t + loginLockout) ip (recordFail t ip L)"
    using assms kept small
    by (force simp: counting_def recordFail_def purgeLocked_def count_fail_def locked_until_def loginMaxFails_def Let_def)
  show "ip' \<noteq> ip \<Longrightarrow> counting t0 ip k (recordFail t ip' L)"
    using assms kept by (auto simp: counting_def recordFail_def purgeLocked_def Let_def)
qed

definition fails_of :: "string \<Rightarrow> (time \<times> string \<times> attempt) list \<Rightarrow> nat" where
  "fails_of ip xs = length (filter (\<lambda>(t, ip', a). ip' = ip \<and> a = Fail) xs)"

lemma counting_run:
  assumes "counting t0 ip k L" "k + fails_of ip xs < 10"
    and "\<forall>(t, ip', a)\<in>set xs. t0 \<le> t \<and> t \<le> t0 + loginWindow \<and> \<not> (ip' = ip \<and> a = Succeed)"
  shows "counting t0 ip (k + fails_of ip xs) (snd (run_ops budget_step xs L))"
  using assms
proof (induction xs arbitrary: k L)
  case (Cons x xs)
  obtain t ip' a where x: "x = (t, ip', a)" by (cases x) auto
  let ?k = "k + (if ip' = ip \<and> a = Fail then 1 else 0)"
  have "counting t0 ip ?k (snd (budget_step x L))"
    using Cons.prems counting_fail [of t0 ip k L t]
    by (cases a) (auto simp: x fails_of_def allow_def recordOK_def counting_def split: option.split)
  then have "counting t0 ip (?k + fails_of ip xs) (snd (run_ops budget_step xs (snd (budget_step x L))))"
    using Cons.prems by (intro Cons.IH) (auto simp: x fails_of_def)
  then show ?case by (auto simp: Let_def split_beta x fails_of_def split: if_splits)
qed (simp add: fails_of_def)

text \<open>
  C22. The tenth failed login of an address within five minutes of its first locks it for fifteen minutes:
  until then every further attempt from that address is refused, whatever other addresses do and however
  many attempts that were already past the check still fail. Between the first failure and the lock, and
  during it, no login from the address succeeds (a success clears its count).
\<close>
theorem lockout_holds:
  assumes "L ip = None" and "fails_of ip xs = 9"
    and "\<forall>(s, ip', a)\<in>set xs. t0 \<le> s \<and> s \<le> t0 + loginWindow \<and> \<not> (ip' = ip \<and> a = Succeed)"
    and "t0 \<le> t" "t \<le> t0 + loginWindow"
    and "\<forall>(s, ip', a)\<in>set ys. t \<le> s \<and> s < t + loginLockout \<and> \<not> (ip' = ip \<and> a = Succeed)"
  shows "\<forall>(y, ok)\<in>set (zip ys (fst (run_ops budget_step ys (recordFail t ip (snd (run_ops budget_step xs L)))))).
    (\<exists>s. y = (s, ip, Ask)) \<longrightarrow> \<not> ok"
proof -
  have "counting t0 ip 9 (snd (run_ops budget_step xs L))"
    using counting_run [of t0 ip 0 L xs] assms(1-3) by (simp add: counting_def)
  from counting_fail(2) [OF this assms(4,5)]
  have "locked_until (t + loginLockout) ip (recordFail t ip (snd (run_ops budget_step xs L)))" by simp
  then show ?thesis by (rule locked_run) (use assms(6) in auto)
qed

definition demo_fails :: "(time \<times> string \<times> attempt) list" where
  "demo_fails = map (\<lambda>k. (int k * second, ''a'', Fail)) [0..<9]"

definition demo_asks :: "(time \<times> string \<times> attempt) list" where
  "demo_asks = [(20 * second, ''a'', Ask), (60 * second, ''b'', Succeed), (14 * minute, ''a'', Ask)]"

definition demo_answers :: "bool list" where
  "demo_answers = fst (run_ops budget_step demo_asks
     (recordFail (10 * second) ''a'' (snd (run_ops budget_step demo_fails Map.empty))))"

lemma lockout_holds_witness:
  "\<not> demo_answers ! 0 \<and> \<not> demo_answers ! 2"
proof -
  have "fails_of ''a'' demo_fails = 9" by (simp add: fails_of_def demo_fails_def upt_rec)
  then have refused: "\<forall>(y, ok)\<in>set (zip demo_asks demo_answers). (\<exists>s. y = (s, ''a'', Ask)) \<longrightarrow> \<not> ok"
    unfolding demo_answers_def
    by (intro lockout_holds [of Map.empty "''a''" demo_fails 0 "10 * second" demo_asks])
      (auto simp: demo_fails_def demo_asks_def loginWindow_def loginLockout_def minute_def second_def)
  have "length demo_answers = 3" by (simp add: demo_answers_def demo_asks_def Let_def split_beta)
  then have "(demo_asks ! k, demo_answers ! k) \<in> set (zip demo_asks demo_answers)" if "k < 3" for k
    using that by (auto simp: set_zip demo_asks_def)
  from this [of 0] this [of 2] show ?thesis using refused by (auto simp: demo_asks_def)
qed

subsection \<open>One-time codes\<close>

text \<open>
  Enrolment and verification agree: the secret minted from 20 random bytes decodes to those bytes,
  has a six-digit code at every instant, and that code is accepted by a server whose clock is at most
  30 seconds off. What is accepted at an instant is exactly one of the codes of the three time steps
  around it.
\<close>
theorem minted_code_accepted:
  assumes "length raw = 20" and "TotpSecret (Some raw) = Some secret"
    and "0 \<le> t" "0 \<le> u" "t < 2 ^ 63" "u < 2 ^ 63" "\<bar>t - u\<bar> \<le> 30 * second"
  shows "b32_decode (NormalizeBase32 secret) = Some raw \<and>
    (\<exists>code. TotpCode secret t = Some code \<and> length code = 6 \<and> list_all is_digit code \<and> VerifyTotp secret code u) \<and>
    (\<forall>code. VerifyTotp secret code u \<longleftrightarrow> (\<exists>d\<in>{-1, 0, 1}. totpCode secret (totp_counter u + d) = Some code))"
proof -
  have raw: "b32_decode (NormalizeBase32 secret) = Some raw"
    using assms(1,2) b32_round_trip [of raw] by (auto simp: TotpSecret_def)
  then obtain code where code: "totpCode secret (totp_counter t) = Some code" by (auto simp: totpCode_def)
  have "totp_counter u + (totp_counter t - totp_counter u) = totp_counter t" by simp
  then have "VerifyTotp secret code u"
    unfolding VerifyTotp_iff using totp_counter_close [OF assms(3-7)] code by metis
  with raw code totpCode_shape [OF code] show ?thesis
    by (auto simp: TotpCode_def VerifyTotp_iff)
qed

lemma minted_code_accepted_witness:
  "\<exists>code. TotpCode (b32_encode ''12345678901234567890'') (59 * second) = Some code \<and>
     VerifyTotp (b32_encode ''12345678901234567890'') code (61 * second)"
  using minted_code_accepted [of "''12345678901234567890''" "b32_encode ''12345678901234567890''" "59 * second" "61 * second"]
  by (auto simp: TotpSecret_def second_def)

subsection \<open>Token lifetimes\<close>

text \<open>
  The expiry of an API token. A lifetime of at most 106751 days is honoured: the token expires that
  many days after it was made. A lifetime between 106752 and 213503 days overflows to a negative duration, and such
  a token never expires.
\<close>
theorem token_lifetime:
  "(0 < days \<and> days \<le> 106751 \<longrightarrow> expiry (token_ttl days) t = Some (t + days * 24 * hour)) \<and>
   (days \<le> 0 \<longrightarrow> expiry (token_ttl days) t = Some (t + 30 * 24 * hour)) \<and>
   (106752 \<le> days \<and> days \<le> 213503 \<longrightarrow> expiry (token_ttl days) t = None)"
proof -
  have "token_ttl days = days * 24 * hour" if "0 < days" "days \<le> 106751"
    using that by (simp add: token_ttl_def wrap64_id int64_def hour_def minute_def second_def)
  moreover have "token_ttl days < 0" if "106752 \<le> days" "days \<le> 213503"
  proof -
    have "wrap64 (days * 24) = days * 24" using that by (simp add: wrap64_id int64_def)
    moreover have "wrap64 (days * 24 * hour) = days * 24 * hour - 2 ^ 64"
    proof -
      have "(days * 24 * hour + 2 ^ 63) mod 2 ^ 64 = (days * 24 * hour - 2 ^ 64 + 2 ^ 63) mod 2 ^ 64"
        using minus_mod_self2 [of "days * 24 * hour + 2 ^ 63" "2 ^ 64"] by (simp add: algebra_simps)
      also have "\<dots> = days * 24 * hour - 2 ^ 64 + 2 ^ 63"
        using that by (intro mod_pos_pos_trivial) (simp_all add: hour_def minute_def second_def)
      finally show ?thesis by (simp add: wrap64_def)
    qed
    ultimately show ?thesis using that by (simp add: token_ttl_def hour_def minute_def second_def)
  qed
  ultimately show ?thesis
    by (auto simp: expiry_def token_ttl_def hour_def minute_def second_def)
qed

lemma token_lifetime_witness:
  "expiry (token_ttl 365) 7 = Some (7 + 365 * 24 * hour) \<and> expiry (token_ttl 120000) 7 = None"
  using token_lifetime [of 365 7] token_lifetime [of 120000 7] by simp

subsection \<open>The wizard\<close>

lemma run_tx_step_ok:
  "(\<And>n. db_out E n = DbOk) \<Longrightarrow> run_state (tx_step E stmt rest) w =
     (case stmt (w\<lparr>tick := Suc (tick w)\<rparr>) of
        (Inl e, w1) \<Rightarrow> (Rollback (Inl e), w1)
      | (Inr _, w1) \<Rightarrow> run_state rest w1)"
  by (simp add: tx_step_def tx_exec_def split_beta split: sum.split)

lemma run_store_Complete:
  assumes "\<And>n. db_out E n = DbOk"
  defines "v \<equiv> \<lambda>w. others E (tick w) w"
  shows "run_state (setup_store_Complete E q salt hash) w =
     (Inr (), (v w)\<lparr>tick := tick w + 6, setup_row := Some True, admin_rows := AList.update (sr_user q) (salt, hash) (admin_rows (v w)),
        org_row := Some (sr_org q), smtp_row := Some (sr_smtp q)\<rparr>)"
  by (simp add: assms run_tx_step_ok setup_store_Complete_def transaction_def run_tx_def mark_done_stmt_def upsert_admin_stmt_def
      put_org_stmt_def put_smtp_stmt_def)

text \<open>A parameter that answers \<open>a\<close> and leaves the tables alone.\<close>

definition answers :: "'a pm \<Rightarrow> 'a \<Rightarrow> bool" where
  "answers c a \<longleftrightarrow> (\<forall>w. \<exists>n. run_state c w = (a, w\<lparr>tick := n\<rparr>))"

lemma run_answers: "answers c a \<Longrightarrow> (\<And>n. run_state c w = (a, w\<lparr>tick := n\<rparr>) \<Longrightarrow> thesis) \<Longrightarrow> thesis"
  by (auto simp: answers_def)

lemma answers_return [simp]: "answers (State_Monad.return a) a"
  unfolding answers_def
proof
  fix w :: account_world
  show "\<exists>n. run_state (State_Monad.return a) w = (a, w\<lparr>tick := n\<rparr>)" by (rule exI [of _ "tick w"]) simp
qed

definition wizard_ready :: "setup_deps \<Rightarrow> time \<Rightarrow> bool" where
  "wizard_ready S t \<longleftrightarrow> sd_store S \<and> sd_env S = calm t \<and>
     (\<forall>c. sd_devices S = Some c \<longrightarrow> answers c (Inr 0)) \<and>
     (\<forall>ca org. sd_ca S = Some ca \<longrightarrow> answers (ca org) (Inr ())) \<and> answers (sd_reissued S) () \<and>
     (\<forall>d n. ud_rand (sd_users S) d n \<noteq> None)"

lemma Validate_smtp: "ValidateRequest q = None \<Longrightarrow> snd (Normalize (sr_smtp q)) = None"
  by (simp add: ValidateRequest_def Let_def split: if_splits)

lemma device_guard_answers: "wizard_ready S t \<Longrightarrow> answers (device_guard S) (Inr ())"
proof (cases "sd_devices S")
  case None
  then show ?thesis by (simp add: device_guard_def)
next
  case (Some c)
  assume "wizard_ready S t"
  with Some have c: "answers c (Inr 0)" by (simp add: wizard_ready_def)
  show ?thesis
    unfolding answers_def
  proof
    fix w
    obtain n where "run_state c w = (Inr 0, w\<lparr>tick := n\<rparr>)" using c by (rule run_answers)
    then have "run_state (device_guard S) w = (Inr (), w\<lparr>tick := n\<rparr>)" using Some by (simp add: device_guard_def)
    then show "\<exists>n. run_state (device_guard S) w = (Inr (), w\<lparr>tick := n\<rparr>)" by blast
  qed
qed

lemma reissue_answers: "wizard_ready S t \<Longrightarrow> answers (reissue S org) (Inr ())"
proof (cases "sd_ca S")
  case None
  then show ?thesis by (simp add: reissue_def)
next
  case (Some ca)
  assume "wizard_ready S t"
  with Some have ca: "answers (ca org) (Inr ())" and re: "answers (sd_reissued S) ()" by (simp_all add: wizard_ready_def)
  show ?thesis
    unfolding answers_def
  proof
    fix w
    obtain n where n: "run_state (ca org) w = (Inr (), w\<lparr>tick := n\<rparr>)" using ca by (rule run_answers)
    obtain k where k: "run_state (sd_reissued S) (w\<lparr>tick := n\<rparr>) = ((), w\<lparr>tick := n\<rparr>\<lparr>tick := k\<rparr>)" using re by (rule run_answers)
    then have "run_state (reissue S org) w = (Inr (), w\<lparr>tick := k\<rparr>)" using Some n by (simp add: reissue_def)
    then show "\<exists>n. run_state (reissue S org) w = (Inr (), w\<lparr>tick := n\<rparr>)" by blast
  qed
qed

lemma run_and_then:
  assumes "answers a (Inr ())" shows "\<exists>n. run_state (and_then a b) w = run_state b (w\<lparr>tick := n\<rparr>)"
proof -
  obtain n where "run_state a w = (Inr (), w\<lparr>tick := n\<rparr>)" using assms by (rule run_answers)
  then show ?thesis by (intro exI [of _ n]) (simp add: and_then_def)
qed

lemma run_setup_Complete:
  assumes ready: "wizard_ready S t" and q: "ValidateRequest q = None" and fresh: "setup_row w \<noteq> Some True"
  obtains n salt where "run_state (setup_Complete S q) w = (Inr (), w\<lparr>tick := n, draws := Suc (draws w), setup_row := Some True,
      admin_rows := AList.update (TrimSpace (sr_user q)) (salt, HashPassword (sd_users S) (sr_password q) salt) (admin_rows w),
      org_row := Some (TrimSpace (sr_org q)), smtp_row := Some (fst (Normalize (sr_smtp q)))\<rparr>)"
proof -
  have env: "sd_env S = calm t" "sd_store S" using ready by (simp_all add: wizard_ready_def)
  obtain salt where salt: "ud_rand (sd_users S) (draws w) 16 = Some salt"
    using ready unfolding wizard_ready_def by (metis not_None_eq)
  let ?q = "normal_request q"
  have done1: "run_state (setup_Done (sd_env S)) w = (Inr False, w\<lparr>tick := Suc (tick w)\<rparr>)"
    using fresh env by (auto simp: setup_Done_def split: option.split)
  obtain n where n: "run_state (and_then (device_guard S) (and_then (reissue S (sr_org ?q)) (persist_setup S ?q))) (w\<lparr>tick := Suc (tick w)\<rparr>) =
      run_state (and_then (reissue S (sr_org ?q)) (persist_setup S ?q)) (w\<lparr>tick := Suc (tick w)\<rparr>\<lparr>tick := n\<rparr>)"
    using run_and_then [OF device_guard_answers [OF ready]] by blast
  obtain k where k: "run_state (and_then (reissue S (sr_org ?q)) (persist_setup S ?q)) (w\<lparr>tick := n\<rparr>) =
      run_state (persist_setup S ?q) (w\<lparr>tick := n\<rparr>\<lparr>tick := k\<rparr>)"
    using run_and_then [OF reissue_answers [OF ready]] by blast
  have "run_state (setup_Complete S q) w =
      run_state (and_then (device_guard S) (and_then (reissue S (sr_org ?q)) (persist_setup S ?q))) (w\<lparr>tick := Suc (tick w)\<rparr>)"
    by (simp add: setup_Complete_def q Validate_smtp [OF q] env(2) done1 Let_def)
  also note n
  also have "run_state (and_then (reissue S (sr_org ?q)) (persist_setup S ?q)) (w\<lparr>tick := Suc (tick w)\<rparr>\<lparr>tick := n\<rparr>) =
      run_state (persist_setup S ?q) (w\<lparr>tick := k\<rparr>)"
    using k by simp
  finally have "run_state (setup_Complete S q) w = run_state (persist_setup S ?q) (w\<lparr>tick := k\<rparr>)" .
  then show ?thesis
    using salt env by (intro that [of salt "k + 6"]) (simp add: persist_setup_def run_store_Complete normal_request_def)
qed

text \<open>
  The wizard runs once: on a fresh server a valid request completes, the administrator it names can
  then log in with the chosen password and with no other whose hash differs, the stored settings are
  the normalised request, and every later valid request is refused and changes nothing. Named
  hypotheses: no statement fails, no devices are enrolled, the root is re-issued, and the random source
  answers.
\<close>
theorem setup_once:
  assumes "wizard_ready S t" and "ValidateRequest q = None" and "setup_row w \<noteq> Some True"
  defines "w' \<equiv> snd (run_state (setup_Complete S q) w)" and "user \<equiv> TrimSpace (sr_user q)"
  shows "fst (run_state (setup_Complete S q) w) = Inr () \<and>
    (\<exists>salt. map_of (admin_rows w') user = Some (salt, HashPassword (sd_users S) (sr_password q) salt) \<and>
       (\<forall>p. fst (run_state (CheckCredentials S user p) w') \<longleftrightarrow>
          HashPassword (sd_users S) p salt = HashPassword (sd_users S) (sr_password q) salt)) \<and>
    org_row w' = Some (TrimSpace (sr_org q)) \<and> smtp_row w' = Some (fst (Normalize (sr_smtp q))) \<and>
    (\<forall>q2. ValidateRequest q2 = None \<longrightarrow>
       run_state (setup_Complete S q2) w' = (Inl SAlready, w'\<lparr>tick := Suc (tick w')\<rparr>))"
proof -
  obtain n salt where run: "run_state (setup_Complete S q) w = (Inr (), w\<lparr>tick := n, draws := Suc (draws w), setup_row := Some True,
      admin_rows := AList.update (TrimSpace (sr_user q)) (salt, HashPassword (sd_users S) (sr_password q) salt) (admin_rows w),
      org_row := Some (TrimSpace (sr_org q)), smtp_row := Some (fst (Normalize (sr_smtp q)))\<rparr>)"
    using assms(1-3) by (rule run_setup_Complete)
  have env: "sd_env S = calm t" "sd_store S" using assms(1) by (simp_all add: wizard_ready_def)
  have w': "w' = w\<lparr>tick := n, draws := Suc (draws w), setup_row := Some True,
      admin_rows := AList.update user (salt, HashPassword (sd_users S) (sr_password q) salt) (admin_rows w),
      org_row := Some (TrimSpace (sr_org q)), smtp_row := Some (fst (Normalize (sr_smtp q)))\<rparr>"
    using run by (simp add: w'_def user_def)
  have "map_of (admin_rows w') user = Some (salt, HashPassword (sd_users S) (sr_password q) salt)"
    by (simp add: w' update_conv')
  moreover have "fst (run_state (CheckCredentials S user p) w') \<longleftrightarrow>
      HashPassword (sd_users S) p salt = HashPassword (sd_users S) (sr_password q) salt" for p
    using env by (simp add: CheckCredentials_def AdminCredentials_def w' update_conv' VerifyPassword_def)
  moreover have "run_state (setup_Complete S q2) w' = (Inl SAlready, w'\<lparr>tick := Suc (tick w')\<rparr>)"
    if "ValidateRequest q2 = None" for q2
    using that env Validate_smtp [OF that] by (simp add: setup_Complete_def setup_Done_def Let_def w')
  ultimately show ?thesis using run by (auto simp: w')
qed

definition demo_request :: setup_request where
  "demo_request = \<lparr>sr_user = ''root'', sr_password = ''opensesame'', sr_org = ''Acme'', sr_smtp = zero_smtp\<rparr>"

lemma demo_request_ok: "ValidateRequest demo_request = None"
  by code_simp

lemma setup_once_witness:
  "fst (run_state (setup_Complete (demo_setup (calm 5)) demo_request) office) = Inr ()"
proof -
  have ready: "wizard_ready (demo_setup (calm 5)) 5" by (simp add: wizard_ready_def demo_setup_def demo_deps_def)
  have "setup_row office \<noteq> Some True" by (simp add: office_def)
  from setup_once [OF ready demo_request_ok this] show ?thesis by simp
qed

definition second_request :: setup_request where
  "second_request = demo_request\<lparr>sr_user := ''wendy''\<rparr>"

definition racing :: "account_world env" where
  "racing = (calm 5)\<lparr>others := (\<lambda>n v. if n = 1 then snd (run_state (setup_Complete (demo_setup (calm 5)) second_request) v) else v)\<rparr>"

text \<open>
  Two administrators complete the wizard at once: both read that it has not run, and one commits
  after the other. Both are told that setup is complete and both accounts exist; the in-memory store
  refuses the second completion.
\<close>
theorem two_wizards_complete:
  "(\<exists>E q1 q2 k. others E k = (\<lambda>v. snd (run_state (setup_Complete (demo_setup (calm 5)) q2) v)) \<and>
     fst (run_state (setup_Complete (demo_setup (calm 5)) q2) office) = Inr () \<and>
     fst (run_state (setup_Complete (demo_setup E) q1) office) = Inr () \<and>
     admin_names (snd (run_state (setup_Complete (demo_setup E) q1) office)) = [sr_user q1, sr_user q2]) \<and>
   fst (ms_Complete q s h (snd (ms_Complete q' s' h' m))) = Inl SAlready"
proof -
  have ready: "wizard_ready (demo_setup (calm 5)) 5" by (simp add: wizard_ready_def demo_setup_def demo_deps_def)
  have valid: "ValidateRequest second_request = None" by code_simp
  have "setup_row office \<noteq> Some True" by (simp add: office_def)
  then have second: "fst (run_state (setup_Complete (demo_setup (calm 5)) second_request) office) = Inr ()"
    using run_setup_Complete [OF ready valid] by (metis fst_conv)
  let ?w1 = "office\<lparr>tick := Suc 0, draws := Suc 0\<rparr>"
  have "setup_row ?w1 \<noteq> Some True" by (simp add: office_def)
  from run_setup_Complete [OF ready valid this] obtain n salt where
    race: "run_state (setup_Complete (demo_setup (calm 5)) second_request) ?w1 = (Inr (), ?w1\<lparr>tick := n, draws := Suc (draws ?w1),
      setup_row := Some True, admin_rows := AList.update (TrimSpace (sr_user second_request))
        (salt, HashPassword (sd_users (demo_setup (calm 5))) (sr_password second_request) salt) (admin_rows ?w1),
      org_row := Some (TrimSpace (sr_org second_request)), smtp_row := Some (fst (Normalize (sr_smtp second_request)))\<rparr>)"
    by blast
  have racing: "db_out racing k = DbOk" "clock racing k = 5" "others racing 0 = (\<lambda>v. v)"
    "others racing (Suc 0) = (\<lambda>v. snd (run_state (setup_Complete (demo_setup (calm 5)) second_request) v))" for k
    by (simp_all add: racing_def calm_def)
  have trims: "TrimSpace ''wendy'' = ''wendy''" "TrimSpace ''root'' = ''root''" by code_simp+
  have fields: "sd_env (demo_setup racing) = racing" "sd_store (demo_setup racing)" by (simp_all add: demo_setup_def)
  have done1: "run_state (setup_Done racing) office = (Inr False, office\<lparr>tick := Suc 0\<rparr>)"
    by (simp add: setup_Done_def query_def racing office_fields)
  have steps: "device_guard (demo_setup racing) = State_Monad.return (Inr ())"
    "reissue (demo_setup racing) org = State_Monad.return (Inr ())" for org
    by (simp_all add: device_guard_def reissue_def demo_setup_def)
  have persist: "run_state (persist_setup (demo_setup racing) (normal_request demo_request)) (office\<lparr>tick := Suc 0\<rparr>) =
      (Inr (), snd (run_state (setup_store_Complete racing (normal_request demo_request) (replicate 16 (char_of (0 :: nat)))
         (HashPassword demo_deps ''opensesame'' (replicate 16 (char_of (0 :: nat))))) ?w1))"
    by (simp add: persist_setup_def demo_setup_def demo_deps_def run_store_Complete racing office_fields)
      (simp add: normal_request_def demo_request_def)
  have "run_state (setup_Complete (demo_setup racing) demo_request) office =
      run_state (persist_setup (demo_setup racing) (normal_request demo_request)) (office\<lparr>tick := Suc 0\<rparr>)"
    using done1 by (simp add: setup_Complete_def demo_request_ok Validate_smtp [OF demo_request_ok] and_then_def steps fields Let_def)
  then have run: "run_state (setup_Complete (demo_setup racing) demo_request) office =
      (Inr (), snd (run_state (setup_store_Complete racing (normal_request demo_request) (replicate 16 (char_of (0 :: nat)))
         (HashPassword demo_deps ''opensesame'' (replicate 16 (char_of (0 :: nat))))) ?w1))"
    using persist by simp
  have "admin_names (snd (run_state (setup_Complete (demo_setup racing) demo_request) office)) = [''root'', ''wendy'']"
    unfolding run using race
    by (simp add: run_store_Complete racing admin_names_def normal_request_def demo_request_def second_request_def trims office_fields)
  moreover have "fst (ms_Complete q s h (snd (ms_Complete q' s' h' m))) = Inl SAlready"
    by (simp add: ms_Complete_def)
  moreover have "[sr_user demo_request, sr_user second_request] = [''root'', ''wendy'']"
    by (simp add: demo_request_def second_request_def)
  ultimately show ?thesis using second racing(4) run by (metis fst_conv)
qed

subsection \<open>Who may change accounts\<close>

definition same_accounts :: "account_world \<Rightarrow> account_world \<Rightarrow> bool" where
  "same_accounts v w \<longleftrightarrow> accounts w = accounts v \<and> grants w = grants v"

interpretation sa: history same_accounts
  by unfold_locales (simp_all add: same_accounts_def)

lemma reads_keep_accounts:
  assumes "undisturbed E"
  shows "guarantees same_accounts (fill_one E u)" "guarantees same_accounts (pg_getRow E P)"
    "guarantees same_accounts (pg_GetByUsername E n)" "guarantees same_accounts (pg_VerifyToken E tok)"
proof -
  have E: "rely same_accounts E" using assms by (simp add: rely_def undisturbed_others sa.refl)
  show one: "guarantees same_accounts (fill_one E u)" for u
    unfolding fill_one_def fillGrants_def by (auto intro!: sa.bind sa.return sa.query E)
  show row: "guarantees same_accounts (pg_getRow E P)" for P
    unfolding pg_getRow_def by (intro sa.bind sa.return sa.query E)
  show "guarantees same_accounts (pg_GetByUsername E n)" unfolding pg_GetByUsername_def
    by (intro sa.bind row) (auto intro!: sa.return one split: sum.split)
  have "same_accounts w (snd (stamp_token_stmt h t w))" for h t w
    by (simp add: same_accounts_def stamp_token_stmt_def)
  then show "guarantees same_accounts (pg_VerifyToken E tok)" unfolding pg_VerifyToken_def
    by (auto intro!: sa.bind sa.query sa.exec sa.return sa.now E one split: sum.split option.split)
qed

lemma session_keeps_accounts:
  assumes "undisturbed (rb_env R)"
  shows "guarantees same_accounts (SessionFromRequest R r)"
  unfolding SessionFromRequest_def session_from_token_def live_session_def Let_def
  by (auto intro!: sa.bind sa.return sa.now reads_keep_accounts assms split: option.split)

definition entitled :: "server \<Rightarrow> credential \<Rightarrow> account_world \<Rightarrow> bool" where
  "entitled V cred w \<longleftrightarrow>
     (case fst (run_state (SessionFromRequest (sv_rbac V) cred) w) of None \<Rightarrow> False | Some s \<Rightarrow> Allows s [''admin''])"

lemma RequireRole_not_entitled:
  assumes "undisturbed (sv_env V)" "\<not> entitled V cred w"
  shows "status_of (fst (run_state (RequireRole (sv_rbac V) [''admin''] h cred) w)) \<in> {Some 401, Some 403} \<and>
    same_accounts w (snd (run_state (RequireRole (sv_rbac V) [''admin''] h cred) w))"
  using guaranteesD [OF session_keeps_accounts [OF assms(1)], of w cred] assms(2)
  by (auto simp: RequireRole_def Require_def entitled_def split: option.splits)

text \<open>
  Nobody but an administrator manages accounts: a request to the account routes whose credential does
  not resolve to a session with the role admin is answered 401 or 403 and changes no account and no
  grant, whatever its method, path and body, and whatever statements fail.
\<close>
theorem account_routes_guarded:
  assumes "undisturbed (sv_env V)" and "\<not> entitled V cred w"
  shows "status_of (fst (run_state (users_route V cred m body) w)) \<in> {Some 401, Some 403} \<and>
    same_accounts w (snd (run_state (users_route V cred m body) w)) \<and>
    status_of (fst (run_state (user_sub_route V cred m path body) w)) \<in> {Some 401, Some 403} \<and>
    same_accounts w (snd (run_state (user_sub_route V cred m path body) w))"
  unfolding users_route_def user_sub_route_def using RequireRole_not_entitled [OF assms] by blast

definition demo_server :: server where
  "demo_server = \<lparr>sv_rbac = demo_rbac, sv_users = demo_deps, sv_setup = None, sv_limited = True, sv_admin_user = [],
     sv_admin_salt = [], sv_admin_hash = [], sv_caps = [], sv_lifetime = 12 * hour, sv_sign = (\<lambda>c. None)\<rparr>"

lemma account_routes_guarded_witness:
  "status_of (fst (run_state (users_route demo_server \<lparr>rq_auth = [], rq_token = ''tom'', rq_client = []\<rparr> POST
      (CreateBody \<lparr>cu_name = ''eve'', cu_password = ''12345678'', cu_role = ''admin'', cu_clients = []\<rparr>)) office)) \<in> {Some 401, Some 403}"
proof -
  have "\<not> entitled demo_server \<lparr>rq_auth = [], rq_token = ''tom'', rq_client = []\<rparr> office"
    using tom_session by (simp add: entitled_def demo_server_def Allows_def)
  moreover have "undisturbed (sv_env demo_server)" by (simp add: demo_server_def demo_rbac_def)
  ultimately show ?thesis using account_routes_guarded by blast
qed

end
