(* ===== verification/Caps.thy ===== *)
theory Caps
  imports Radix Strconv
begin

section \<open>Commands and capability tokens\<close>

text \<open>
  The messages of \<^verbatim>\<open>proto/rmmway/agent/v1/commands.proto\<close>, \<^verbatim>\<open>server/internal/caps/caps.go\<close> and
  \<^verbatim>\<open>agent/internal/caps/caps.go\<close>. A token is a JWT signed with ES256 by the org root. The JWT library is
  third-party and a parameter: \<open>js_sign\<close> (randomised, by the number of the draw), \<open>js_parse\<close> (what
  \<^verbatim>\<open>ParseWithClaims\<close> accepts under a root certificate at a time, with the issued-at check and ten seconds
  of leeway) and \<open>js_date\<close> (\<^verbatim>\<open>NewNumericDate\<close>). A root is named, and its key and its certificate with it.
\<close>

subsection \<open>Commands\<close>

datatype action =
    RunScript string string "string list"
  | Reboot int
  | FilePull string
  | FilePush string string string
  | CollectInventory
  | PatchQuery string
  | PatchApprove
  | PatchApply "string list" bool int

text \<open>A command as the agent reads it off the wire; the token is a field of the action's message.\<close>

record command =
  cm_id :: string
  cm_issued :: int
  cm_action :: "action option"
  cm_token :: string
  cm_timeout :: int

subsection \<open>Capabilities\<close>

definition CapRunScript :: string where "CapRunScript = ''rmmway.run_script''"
definition CapReboot :: string where "CapReboot = ''rmmway.reboot''"
definition CapFilePull :: string where "CapFilePull = ''rmmway.file_pull''"
definition CapFilePush :: string where "CapFilePush = ''rmmway.file_push''"
definition TokenIssuer :: string where "TokenIssuer = ''rmmway''"

definition AllCapabilities :: "string list" where
  "AllCapabilities = [CapRunScript, CapReboot, CapFilePull, CapFilePush]"

fun ForAction :: "action \<Rightarrow> string option" where
  "ForAction (RunScript lang b64 args) = Some CapRunScript"
| "ForAction (Reboot d) = Some CapReboot"
| "ForAction (FilePull p) = Some CapFilePull"
| "ForAction (FilePush p b64 mode) = Some CapFilePush"
| "ForAction _ = None"

text \<open>The agent's reading of a command: the capability it needs and the token it carries.\<close>

definition ForCommand :: "command \<Rightarrow> (string \<times> string) option" where
  "ForCommand cmd =
     (case cm_action cmd of
        Some (RunScript lang b64 args) \<Rightarrow> Some (CapRunScript, cm_token cmd)
      | Some (Reboot d) \<Rightarrow> Some (CapReboot, cm_token cmd)
      | Some (FilePull p) \<Rightarrow> Some (CapFilePull, cm_token cmd)
      | Some (FilePush p b64 mode) \<Rightarrow> Some (CapFilePush, cm_token cmd)
      | _ \<Rightarrow> None)"

lemma ForCommand_ForAction:
  "ForCommand cmd = map_option (\<lambda>c. (c, cm_token cmd)) (Option.bind (cm_action cmd) ForAction)"
  by (cases "cm_action cmd"; cases "the (cm_action cmd)") (auto simp: ForCommand_def)

lemma cap_names: "distinct AllCapabilities" "[] \<notin> set AllCapabilities"
  by code_simp+

lemma ForAction_named: "ForAction a = Some c \<Longrightarrow> c \<in> set AllCapabilities"
  by (cases a) (auto simp: AllCapabilities_def)

subsection \<open>Tokens\<close>

record cap_claims =
  cc_cap :: string
  cc_cmd :: string
  cc_sub :: string
  cc_iss :: string
  cc_id :: string
  cc_iat :: "time option"
  cc_exp :: "time option"

record jwt_es256 =
  js_sign :: "string \<Rightarrow> nat \<Rightarrow> cap_claims \<Rightarrow> string option"
  js_parse :: "string \<Rightarrow> time \<Rightarrow> string \<Rightarrow> cap_claims option"
  js_date :: "time \<Rightarrow> time"

text \<open>\<open>NewIssuer\<close>'s lifetime of a token.\<close>

definition issuer_ttl :: "duration \<Rightarrow> duration" where
  "issuer_ttl ttl = (if ttl \<le> 0 then 10 * minute else ttl)"

definition cap_claims_for :: "jwt_es256 \<Rightarrow> duration \<Rightarrow> time \<Rightarrow> string \<Rightarrow> string \<Rightarrow> string \<Rightarrow> cap_claims" where
  "cap_claims_for J ttl t dev cap cmd =
     \<lparr>cc_cap = cap, cc_cmd = cmd, cc_sub = dev, cc_iss = TokenIssuer, cc_id = cmd,
      cc_iat = Some (js_date J t), cc_exp = Some (js_date J (t + ttl))\<rparr>"

definition Mint :: "jwt_es256 \<Rightarrow> string \<Rightarrow> duration \<Rightarrow> nat \<Rightarrow> time \<Rightarrow> string \<Rightarrow> string \<Rightarrow> string \<Rightarrow> string option" where
  "Mint J anchor ttl n t dev cap cmd =
     (if dev = [] \<or> cap = [] \<or> cmd = [] then None
      else js_sign J anchor n (cap_claims_for J ttl t dev cap cmd))"

datatype cap_err = CMissing | CInvalid | CIssuer string | CDevice string | CCapability string | CCommand string

definition check_binding :: "cap_claims \<Rightarrow> string \<Rightarrow> string \<Rightarrow> string \<Rightarrow> cap_err option" where
  "check_binding c dev cap cmd =
     (if cc_iss c \<noteq> TokenIssuer then Some (CIssuer (cc_iss c))
      else if cc_sub c \<noteq> dev then Some (CDevice (cc_sub c))
      else if cc_cap c \<noteq> cap then Some (CCapability (cc_cap c))
      else if cmd \<noteq> [] \<and> cc_cmd c \<noteq> cmd then Some (CCommand (cc_cmd c))
      else None)"

text \<open>The server's reference check; its last parameter, a time, is not used by the code.\<close>

definition cap_Verify :: "jwt_es256 \<Rightarrow> time \<Rightarrow> string \<Rightarrow> string \<Rightarrow> string \<Rightarrow> string \<Rightarrow> string \<Rightarrow> time \<Rightarrow> cap_err option" where
  "cap_Verify J t token anchor dev cap cmd unused =
     (case js_parse J anchor t token of None \<Rightarrow> Some CInvalid | Some c \<Rightarrow> check_binding c dev cap cmd)"

text \<open>The agent's check, for one device and the root pinned at enrolment.\<close>

record verifier =
  vf_root :: string
  vf_dev :: string

definition cap_Check :: "jwt_es256 \<Rightarrow> verifier \<Rightarrow> time \<Rightarrow> string \<Rightarrow> string \<Rightarrow> string \<Rightarrow> cap_err option" where
  "cap_Check J v t token cap cmd =
     (if token = [] then Some CMissing
      else case js_parse J (vf_root v) t token of
        None \<Rightarrow> Some CInvalid
      | Some c \<Rightarrow> check_binding c (vf_dev v) cap cmd)"

subsection \<open>What the library documents\<close>

text \<open>
  The validity of claims at a time, ten seconds of leeway included; claims without an expiry do not
  expire. What was signed under a root parses under it back to its claims while these are in force, and
  nothing else parses; an empty text is not a token; a numeric date cuts the fraction of a second.
\<close>

definition leeway :: duration where "leeway = 10 * second"

definition in_force :: "time \<Rightarrow> cap_claims \<Rightarrow> bool" where
  "in_force t c \<longleftrightarrow>
     (case cc_exp c of None \<Rightarrow> True | Some e \<Rightarrow> t < e + leeway) \<and>
     (case cc_iat c of None \<Rightarrow> True | Some i \<Rightarrow> i - leeway \<le> t)"

definition jwt_lawful :: "jwt_es256 \<Rightarrow> bool" where
  "jwt_lawful J \<longleftrightarrow>
     (\<forall>k n c tok t. js_sign J k n c = Some tok \<longrightarrow>
        tok \<noteq> [] \<and> js_parse J k t tok = (if in_force t c then Some c else None)) \<and>
     (\<forall>k t tok c. js_parse J k t tok = Some c \<longrightarrow> in_force t c \<and> (\<exists>n. js_sign J k n c = Some tok)) \<and>
     (\<forall>t. js_date J t \<le> t \<and> t < js_date J t + second)"

lemma lawful_sign:
  "jwt_lawful J \<Longrightarrow> js_sign J k n c = Some tok \<Longrightarrow>
     tok \<noteq> [] \<and> js_parse J k t tok = (if in_force t c then Some c else None)"
  unfolding jwt_lawful_def by blast

lemma lawful_parse:
  "jwt_lawful J \<Longrightarrow> js_parse J k t tok = Some c \<Longrightarrow> in_force t c \<and> (\<exists>n. js_sign J k n c = Some tok)"
  unfolding jwt_lawful_def by blast

lemma lawful_date: "jwt_lawful J \<Longrightarrow> js_date J t \<le> t \<and> t < js_date J t + second"
  unfolding jwt_lawful_def by blast

text \<open>The agent's check and the server's agree on everything but how they refuse the empty token.\<close>

lemma Check_Verify:
  "token \<noteq> [] \<Longrightarrow> cap_Check J \<lparr>vf_root = anchor, vf_dev = dev\<rparr> t token cap cmd = cap_Verify J t token anchor dev cap cmd u"
  by (simp add: cap_Check_def cap_Verify_def split: option.split)

lemma Check_ok:
  assumes "jwt_lawful J" "cap_Check J v t token cap cmd = None"
  obtains c n where "js_sign J (vf_root v) n c = Some token" "in_force t c" "cc_iss c = TokenIssuer"
    "cc_sub c = vf_dev v" "cc_cap c = cap" "cmd = [] \<or> cc_cmd c = cmd"
proof -
  obtain c where c: "js_parse J (vf_root v) t token = Some c" and b: "check_binding c (vf_dev v) cap cmd = None"
    using assms(2) by (auto simp: cap_Check_def split: if_splits option.splits)
  from lawful_parse [OF assms(1) c] obtain n where "js_sign J (vf_root v) n c = Some token" "in_force t c" by blast
  with b show thesis by (intro that) (auto simp: check_binding_def split: if_splits)
qed

lemma Mint_Check:
  assumes "jwt_lawful J" "Mint J anchor ttl n t dev cap cmd = Some token" and root: "vf_root v = anchor"
  shows "cap_Check J v t' token cap' cmd' = None \<longleftrightarrow>
    vf_dev v = dev \<and> cap' = cap \<and> (cmd' = [] \<or> cmd' = cmd) \<and>
    js_date J t - leeway \<le> t' \<and> t' < js_date J (t + ttl) + leeway"
proof -
  from assms(2) have sign: "js_sign J anchor n (cap_claims_for J ttl t dev cap cmd) = Some token"
    by (auto simp: Mint_def split: if_splits)
  have "token \<noteq> []" "js_parse J anchor t' token =
      (if in_force t' (cap_claims_for J ttl t dev cap cmd) then Some (cap_claims_for J ttl t dev cap cmd) else None)"
    using lawful_sign [OF assms(1) sign, of t'] by auto
  then show ?thesis
    using root by (auto simp: cap_Check_def check_binding_def in_force_def cap_claims_for_def)
qed

end
