(* ===== verification/Plane.thy ===== *)
theory Plane
  imports Caps Sql Fleet "HOL-Library.List_Lexorder" "HOL-Library.Char_ord"
begin

section \<open>The command plane: its state and the device registry\<close>

text \<open>
  The state shared by the ingest service, the dispatcher, the session relay and the device routes: the
  tables of the device registry (\<^verbatim>\<open>server/internal/store/pg.go\<close>, migrations 0001, 0010 and 0013), and the
  memory of the process. The message of an action is an object: the dispatcher stamps the capability
  token into it in place, and a queued command points to it. Messages live in \<open>p_tokens\<close>, by address.
\<close>

subsection \<open>State\<close>

record dev_row =
  dr_id :: string
  dr_host :: string
  dr_os :: string
  dr_arch :: string
  dr_version :: string
  dr_ifaces :: "string list"
  dr_tags :: "string list"
  dr_online :: bool
  dr_first :: time
  dr_last :: time
  dr_metric_s :: int
  dr_beat_s :: int
  dr_client :: "string option"

record hardware =
  hw_cpu_model :: "string option"
  hw_cpu_vendor :: "string option"
  hw_cores :: "int option"
  hw_logical :: "int option"
  hw_ram :: "int option"
  hw_os_name :: "string option"
  hw_os_version :: "string option"
  hw_os_arch :: "string option"
  hw_hostname :: "string option"

record package =
  sw_name :: string
  sw_version :: "string option"
  sw_vendor :: "string option"
  sw_date :: "string option"
  sw_arch :: "string option"
  sw_source :: "string option"

record software_info =
  si_name :: string
  si_version :: string
  si_vendor :: string
  si_date :: string
  si_arch :: string
  si_source :: string

text \<open>A command as the server holds it: the action, and the address of the message with its token.\<close>

record order =
  od_id :: string
  od_issued :: int
  od_action :: action
  od_ref :: nat
  od_timeout :: int

record report =
  rp_cmd :: string
  rp_status :: cmd_status
  rp_exit :: int
  rp_out :: string
  rp_errout :: string
  rp_error :: string
  rp_completed :: int

datatype control = OpenSession string int | CloseSession string

datatype down = DCommand order | DAck string | DControl control

text \<open>One stream of an agent: its downlink channel (of capacity 16) and its context.\<close>

record link =
  lk_dev :: string
  lk_buf :: "down list"
  lk_closed :: bool
  lk_cancelled :: bool
  lk_pump_done :: bool

record frame_event =
  fe_kind :: string
  fe_session :: string
  fe_seq :: nat
  fe_codec :: string
  fe_width :: nat
  fe_height :: nat
  fe_jpeg :: string
  fe_capture :: int
  fe_status :: string

record screen =
  sn_session :: string
  sn_fps :: int
  sn_latest :: "frame_event option"
  sn_status :: string
  sn_viewers :: "nat list"

record viewer =
  vw_dev :: string
  vw_buf :: "frame_event list"
  vw_done :: bool

record transfer =
  tr_path :: string
  tr_total :: int
  tr_received :: nat
  tr_mode :: nat
  tr_data :: string
  tr_done :: bool

record metric_row =
  mr_dev :: string
  mr_name :: string
  mr_source :: string
  mr_value :: f64
  mr_labels :: "(string \<times> string) list"
  mr_ms :: int

record log_row =
  lr_id :: string
  lr_dev :: string
  lr_level :: string
  lr_msg :: string
  lr_attrs :: "(string \<times> string) list"
  lr_ms :: int

record plane_world = world +
  dev_rows :: "dev_row list"
  hw_rows :: "(string \<times> hardware) list"
  sw_rows :: "(string \<times> package) list"
  metric_rows :: "metric_row list"
  log_rows :: "log_row list"
  p_seq :: int
  p_pending :: "(string \<times> order) list"
  p_reports :: "(string \<times> report) list"
  p_owner :: "(string \<times> string) list"
  p_tokens :: "string list"
  p_anchor :: string
  p_signed :: nat
  p_streams :: "(string \<times> nat) list"
  p_links :: "link list"
  p_crashed :: bool
  p_boot :: "(string \<times> string) list"
  p_spent :: "(string \<times> string \<times> time) list"
  p_draws :: nat
  p_events :: "(string \<times> string) list"
  p_screens :: "(string \<times> screen) list"
  p_viewers :: "viewer list"
  p_transfers :: "(string \<times> transfer) list"

type_synonym 'a plm = "(plane_world, 'a) m"

text \<open>A Go map as an association list with one entry per key.\<close>

definition put :: "'k \<Rightarrow> 'v \<Rightarrow> ('k \<times> 'v) list \<Rightarrow> ('k \<times> 'v) list" where
  "put k v xs = (k, v) # filter (\<lambda>(k', v'). k' \<noteq> k) xs"

definition del :: "'k \<Rightarrow> ('k \<times> 'v) list \<Rightarrow> ('k \<times> 'v) list" where
  "del k xs = filter (\<lambda>(k', v'). k' \<noteq> k) xs"

lemma map_of_del [simp]: "map_of (del k xs) = (map_of xs)(k := None)"
  by (induction xs) (auto simp: del_def fun_eq_iff)

lemma map_of_put [simp]: "map_of (put k v xs) = (map_of xs)(k \<mapsto> v)"
  using map_of_del [of k xs] by (simp add: put_def del_def fun_eq_iff)

lemma distinct_del [simp]: "distinct (map fst xs) \<Longrightarrow> distinct (map fst (del k xs))"
  by (auto simp: del_def distinct_map inj_on_def)

lemma distinct_put [simp]: "distinct (map fst xs) \<Longrightarrow> distinct (map fst (put k v xs))"
  using distinct_del [of xs k] by (auto simp: put_def del_def)

subsection \<open>The device registry\<close>

definition new_dev_row :: "string \<Rightarrow> string \<Rightarrow> string \<Rightarrow> string \<Rightarrow> string \<Rightarrow> string list \<Rightarrow> int \<Rightarrow> int \<Rightarrow> time \<Rightarrow> dev_row" where
  "new_dev_row i host os arch ver ifaces beat metric t =
     \<lparr>dr_id = i, dr_host = host, dr_os = os, dr_arch = arch, dr_version = ver, dr_ifaces = ifaces, dr_tags = [],
      dr_online = True, dr_first = t, dr_last = t, dr_metric_s = metric, dr_beat_s = beat, dr_client = None\<rparr>"

definition register_stmt :: "string \<Rightarrow> string \<Rightarrow> string \<Rightarrow> string \<Rightarrow> string \<Rightarrow> string list \<Rightarrow> int \<Rightarrow> int \<Rightarrow> time \<Rightarrow>
    plane_world \<Rightarrow> unit res \<times> plane_world" where
  "register_stmt i host os arch ver ifaces beat metric t w =
     (Inr (), w\<lparr>dev_rows :=
        (if i \<in> dr_id ` set (dev_rows w)
         then update_where (\<lambda>d. dr_id d = i)
           (\<lambda>d. d\<lparr>dr_host := host, dr_os := os, dr_arch := arch, dr_version := ver, dr_ifaces := ifaces,
                  dr_beat_s := beat, dr_metric_s := metric, dr_online := True, dr_last := t\<rparr>) (dev_rows w)
         else dev_rows w @ [new_dev_row i host os arch ver ifaces beat metric t])\<rparr>)"

definition dev_Register :: "plane_world env \<Rightarrow> string \<Rightarrow> string \<Rightarrow> string \<Rightarrow> string \<Rightarrow> string \<Rightarrow> string list \<Rightarrow> int \<Rightarrow> int \<Rightarrow>
    (unit res) plm" where
  "dev_Register E i host os arch ver ifaces beat metric =
     exec E (\<lambda>w. register_stmt i host os arch ver ifaces beat metric (clock E (tick w)) w)"

definition dev_Contains :: "plane_world env \<Rightarrow> string \<Rightarrow> (bool res) plm" where
  "dev_Contains E i = query E (\<lambda>w. i \<in> dr_id ` set (dev_rows w))"

definition dev_Get :: "plane_world env \<Rightarrow> string \<Rightarrow> (dev_row res) plm" where
  "dev_Get E i = do {
     r \<leftarrow> query E (\<lambda>w. find (\<lambda>d. dr_id d = i) (dev_rows w));
     State_Monad.return (case r of
        Inl e \<Rightarrow> Inl e
      | Inr None \<Rightarrow> Inl ENotFound
      | Inr (Some d) \<Rightarrow> Inr d)
   }"

definition update_dev_stmt :: "string \<Rightarrow> (dev_row \<Rightarrow> dev_row) \<Rightarrow> plane_world \<Rightarrow> nat res \<times> plane_world" where
  "update_dev_stmt i f w =
     (Inr (affected (\<lambda>d. dr_id d = i) (dev_rows w)), w\<lparr>dev_rows := update_where (\<lambda>d. dr_id d = i) f (dev_rows w)\<rparr>)"

definition dev_Touch :: "plane_world env \<Rightarrow> string \<Rightarrow> (nat res) plm" where
  "dev_Touch E i = exec E (\<lambda>w. update_dev_stmt i (\<lambda>d. d\<lparr>dr_online := True, dr_last := clock E (tick w)\<rparr>) w)"

text \<open>Stale: not seen for three heartbeat intervals, at least 90 seconds.\<close>

definition dev_stale :: "time \<Rightarrow> dev_row \<Rightarrow> bool" where
  "dev_stale t d \<longleftrightarrow> dr_online d \<and> dr_last d < t - max (dr_beat_s d * 3) 90 * second"

definition sweep_stmt :: "time \<Rightarrow> plane_world \<Rightarrow> (string list) res \<times> plane_world" where
  "sweep_stmt t w =
     (Inr (map dr_id (filter (dev_stale t) (dev_rows w))),
      w\<lparr>dev_rows := update_where (dev_stale t) (\<lambda>d. d\<lparr>dr_online := False\<rparr>) (dev_rows w)\<rparr>)"

definition dev_SweepOffline :: "plane_world env \<Rightarrow> ((string list) res) plm" where
  "dev_SweepOffline E = exec E (\<lambda>w. sweep_stmt (clock E (tick w)) w)"

definition found_row :: "nat res \<Rightarrow> unit res" where
  "found_row r = (case r of Inl e \<Rightarrow> Inl e | Inr n \<Rightarrow> if n = 0 then Inl ENotFound else Inr ())"

definition dev_SetTags :: "plane_world env \<Rightarrow> string \<Rightarrow> string list \<Rightarrow> (unit res) plm" where
  "dev_SetTags E i tags = do {
     r \<leftarrow> exec E (update_dev_stmt i (\<lambda>d. d\<lparr>dr_tags := tags\<rparr>));
     State_Monad.return (found_row r)
   }"

text \<open>The foreign key to \<^verbatim>\<open>clients\<close> is given by the ids \<open>known\<close>.\<close>

definition set_client_stmt :: "string list \<Rightarrow> string \<Rightarrow> string \<Rightarrow> plane_world \<Rightarrow> nat res \<times> plane_world" where
  "set_client_stmt known i c w =
     (if c \<noteq> [] \<and> c \<notin> set known \<and> i \<in> dr_id ` set (dev_rows w) then (Inl EDb, w)
      else update_dev_stmt i (\<lambda>d. d\<lparr>dr_client := (if c = [] then None else Some c)\<rparr>) w)"

definition dev_SetClient :: "plane_world env \<Rightarrow> string list \<Rightarrow> string \<Rightarrow> string \<Rightarrow> (unit res) plm" where
  "dev_SetClient E known i c = do {
     r \<leftarrow> exec E (set_client_stmt known i c);
     State_Monad.return (found_row r)
   }"

definition DefaultClientID :: string where "DefaultClientID = ''unassigned''"

definition of_client :: "string \<Rightarrow> dev_row \<Rightarrow> bool" where
  "of_client c d \<longleftrightarrow>
     (if c = [] then True
      else if c = DefaultClientID then dr_client d = None \<or> dr_client d = Some c
      else dr_client d = Some c)"

definition dev_ListByClient :: "plane_world env \<Rightarrow> string \<Rightarrow> ((dev_row list) res) plm" where
  "dev_ListByClient E c = query E (\<lambda>w. sort_key dr_id (filter (of_client c) (dev_rows w)))"

definition dev_List :: "plane_world env \<Rightarrow> ((dev_row list) res) plm" where
  "dev_List E = dev_ListByClient E []"

subsection \<open>Inventory\<close>

text \<open>A value of a Go map of type \<^verbatim>\<open>map[string]any\<close>, with its dynamic type.\<close>

datatype any = AString string | AInt32 int | AInt64 int | AUint32 int | AUint64 int

fun toNullString :: "any \<Rightarrow> string option" where
  "toNullString (AString s) = (if s = [] then None else Some s)"
| "toNullString _ = None"

fun toNullInt32 :: "any \<Rightarrow> int option" where
  "toNullInt32 (AInt32 n) = Some n"
| "toNullInt32 _ = None"

fun toNullInt64 :: "any \<Rightarrow> int option" where
  "toNullInt64 (AInt64 n) = Some n"
| "toNullInt64 _ = None"

record hardware_map =
  hm_cpu_model :: any
  hm_cpu_vendor :: any
  hm_cores :: any
  hm_logical :: any
  hm_ram :: any
  hm_os_name :: any
  hm_os_version :: any
  hm_os_arch :: any
  hm_hostname :: any

definition hardware_row :: "hardware_map \<Rightarrow> hardware" where
  "hardware_row h =
     \<lparr>hw_cpu_model = toNullString (hm_cpu_model h), hw_cpu_vendor = toNullString (hm_cpu_vendor h),
      hw_cores = toNullInt32 (hm_cores h), hw_logical = toNullInt32 (hm_logical h), hw_ram = toNullInt64 (hm_ram h),
      hw_os_name = toNullString (hm_os_name h), hw_os_version = toNullString (hm_os_version h),
      hw_os_arch = toNullString (hm_os_arch h), hw_hostname = toNullString (hm_hostname h)\<rparr>"

definition save_hw_stmt :: "string \<Rightarrow> hardware \<Rightarrow> plane_world \<Rightarrow> unit res \<times> plane_world" where
  "save_hw_stmt i h w =
     (if i \<notin> dr_id ` set (dev_rows w) then (Inl EDb, w)
      else (Inr (), w\<lparr>hw_rows := put i h (hw_rows w)\<rparr>))"

definition SaveDeviceHardware :: "plane_world env \<Rightarrow> string \<Rightarrow> hardware_map \<Rightarrow> (unit res) plm" where
  "SaveDeviceHardware E i h = exec E (save_hw_stmt i (hardware_row h))"

definition GetDeviceHardware :: "plane_world env \<Rightarrow> string \<Rightarrow> (hardware option res) plm" where
  "GetDeviceHardware E i = query E (\<lambda>w. map_of (hw_rows w) i)"

definition delete_sw_stmt :: "string \<Rightarrow> plane_world \<Rightarrow> unit res \<times> plane_world" where
  "delete_sw_stmt i w = (Inr (), w\<lparr>sw_rows := filter (\<lambda>(d, p). d \<noteq> i) (sw_rows w)\<rparr>)"

text \<open>The name is not null (an empty one becomes null) and unique per device.\<close>

definition package_row :: "software_info \<Rightarrow> package" where
  "package_row s =
     \<lparr>sw_name = si_name s, sw_version = toNullString (AString (si_version s)), sw_vendor = toNullString (AString (si_vendor s)),
      sw_date = toNullString (AString (si_date s)), sw_arch = toNullString (AString (si_arch s)),
      sw_source = toNullString (AString (si_source s))\<rparr>"

definition insert_sw_stmt :: "string \<Rightarrow> package \<Rightarrow> plane_world \<Rightarrow> unit res \<times> plane_world" where
  "insert_sw_stmt i p w =
     (if sw_name p = [] \<or> i \<notin> dr_id ` set (dev_rows w) then (Inl EDb, w)
      else if (i, sw_name p) \<in> (\<lambda>(d, q). (d, sw_name q)) ` set (sw_rows w) then (Inl EUnique, w)
      else (Inr (), w\<lparr>sw_rows := sw_rows w @ [(i, p)]\<rparr>))"

fun insert_packages :: "plane_world env \<Rightarrow> string \<Rightarrow> software_info list \<Rightarrow> (unit res) plm" where
  "insert_packages E i [] = State_Monad.return (Inr ())"
| "insert_packages E i (p # ps) = do {
     r \<leftarrow> tx_exec E (insert_sw_stmt i (package_row p));
     (case r of Inl e \<Rightarrow> State_Monad.return (Inl e) | Inr _ \<Rightarrow> insert_packages E i ps)
   }"

definition save_software_tx :: "plane_world env \<Rightarrow> string \<Rightarrow> software_info list \<Rightarrow> (unit res tx_end) plm" where
  "save_software_tx E i ps = do {
     r \<leftarrow> tx_exec E (delete_sw_stmt i);
     (case r of
        Inl e \<Rightarrow> State_Monad.return (Rollback (Inl e))
      | Inr _ \<Rightarrow> do {
          r' \<leftarrow> insert_packages E i ps;
          State_Monad.return (case r' of
             Inl e \<Rightarrow> Rollback (Inl e)
           | Inr _ \<Rightarrow> Commit (\<lambda>ce. case ce of None \<Rightarrow> Inr () | Some e \<Rightarrow> Inl e))
        })
   }"

definition SaveDeviceSoftware :: "plane_world env \<Rightarrow> string \<Rightarrow> software_info list \<Rightarrow> (unit res) plm" where
  "SaveDeviceSoftware E i ps = transaction E (Inl EDb) (save_software_tx E i ps)"

definition GetDeviceSoftware :: "plane_world env \<Rightarrow> string \<Rightarrow> ((package list) res) plm" where
  "GetDeviceSoftware E i =
     query E (\<lambda>w. sort_key sw_name (map snd (filter (\<lambda>(d, p). d = i) (sw_rows w))))"

end
