(* ===== verification/Dispatcher.thy ===== *)
theory Dispatcher
  imports Plane
begin

section \<open>Dispatch of commands and the registry of streams\<close>

text \<open>
  \<^verbatim>\<open>server/internal/ingest/store.go\<close> and the downlink part of \<^verbatim>\<open>ingest/ingest.go\<close>. Each critical section (the
  dispatcher's mutex, the service's mutex, the issuer's) is one step; between them other goroutines run.
  Sending on a closed channel panics: the flag \<open>p_crashed\<close> records it.
\<close>

record plane_deps =
  pd_env :: "plane_world env"
  pd_caps :: "(jwt_es256 \<times> duration) option"

definition other_goroutines :: "plane_deps \<Rightarrow> unit plm" where
  "other_goroutines D = do { _ \<leftarrow> ask (pd_env D); State_Monad.return () }"

subsection \<open>Channels\<close>

definition link_capacity :: nat where "link_capacity = 16"

definition update_link :: "nat \<Rightarrow> (link \<Rightarrow> link) \<Rightarrow> plane_world \<Rightarrow> plane_world" where
  "update_link k f w = (if k < length (p_links w) then w\<lparr>p_links := (p_links w)[k := f (p_links w ! k)]\<rparr> else w)"

text \<open>The non-blocking send of \<^verbatim>\<open>select { case ch <- x: default: }\<close>; \<open>None\<close>: it panics.\<close>

definition try_send :: "nat \<Rightarrow> down \<Rightarrow> plane_world \<Rightarrow> bool \<times> plane_world" where
  "try_send k x w =
     (let l = p_links w ! k in
      if lk_closed l then (False, w\<lparr>p_crashed := True\<rparr>)
      else if length (lk_buf l) \<ge> link_capacity then (False, w)
      else (True, update_link k (\<lambda>l. l\<lparr>lk_buf := lk_buf l @ [x]\<rparr>) w))"

definition push_down :: "string \<Rightarrow> down \<Rightarrow> bool plm" where
  "push_down dev x = State (\<lambda>w.
     (case map_of (p_streams w) dev of None \<Rightarrow> (False, w) | Some k \<Rightarrow> try_send k x w))"

definition Push :: "string \<Rightarrow> order \<Rightarrow> bool plm" where
  "Push dev c = push_down dev (DCommand c)"

definition SendSessionControl :: "string \<Rightarrow> control \<Rightarrow> bool plm" where
  "SendSessionControl dev c = push_down dev (DControl c)"

subsection \<open>The dispatcher\<close>

datatype dispatch_err = DUnsupported | DMint | DUnreachable

text \<open>A message is allocated when the action is built, with an empty token.\<close>

definition new_message :: "nat plm" where
  "new_message = State (\<lambda>w. (length (p_tokens w), w\<lparr>p_tokens := p_tokens w @ [[]]\<rparr>))"

definition stamp_token :: "nat \<Rightarrow> string \<Rightarrow> unit plm" where
  "stamp_token r tok = modifies (\<lambda>w. w\<lparr>p_tokens := (p_tokens w)[r := tok]\<rparr>)"

definition register_order :: "string \<Rightarrow> int \<Rightarrow> action \<Rightarrow> nat \<Rightarrow> order plm" where
  "register_order dev ms a r = State (\<lambda>w.
     let n = p_seq w + 1;
         o1 = \<lparr>od_id = ''cmd-'' @ FormatInt n, od_issued = ms, od_action = a, od_ref = r, od_timeout = 0\<rparr> in
     (o1, w\<lparr>p_seq := n, p_pending := put (od_id o1) o1 (p_pending w), p_owner := put (od_id o1) dev (p_owner w)\<rparr>))"

definition forget_order :: "string \<Rightarrow> unit plm" where
  "forget_order i = modifies (\<lambda>w. w\<lparr>p_pending := del i (p_pending w), p_owner := del i (p_owner w)\<rparr>)"

text \<open>\<^verbatim>\<open>Issuer.Mint\<close> in the process: the root at that moment, the next draw.\<close>

definition mint_token :: "plane_deps \<Rightarrow> jwt_es256 \<Rightarrow> duration \<Rightarrow> string \<Rightarrow> string \<Rightarrow> string \<Rightarrow> (string option) plm" where
  "mint_token D J ttl dev cap cmd = do {
     (anchor, n) \<leftarrow> State (\<lambda>w. ((p_anchor w, p_signed w), w\<lparr>p_signed := Suc (p_signed w)\<rparr>));
     t \<leftarrow> now (pd_env D);
     State_Monad.return (Mint J anchor ttl n t dev cap cmd)
   }"

text \<open>The setup wizard swaps the signing root; nil is ignored.\<close>

definition ReplaceRoot :: "string option \<Rightarrow> unit plm" where
  "ReplaceRoot a = modifies (\<lambda>w. case a of None \<Rightarrow> w | Some r \<Rightarrow> w\<lparr>p_anchor := r\<rparr>)"

text \<open>\<open>explicit\<close>: exactly this token instead of a minted one (\<^verbatim>\<open>DispatchWith\<close>).\<close>

definition dispatch_token :: "plane_deps \<Rightarrow> string \<Rightarrow> action \<Rightarrow> string \<Rightarrow> string option \<Rightarrow> ((string option) option) plm" where
  "dispatch_token D dev a i explicit =
     (case pd_caps D of
        None \<Rightarrow> State_Monad.return (Some None)
      | Some (J, ttl) \<Rightarrow>
          (case explicit of
             Some tok \<Rightarrow> State_Monad.return (Some (Some tok))
           | None \<Rightarrow> do {
               tok \<leftarrow> mint_token D J ttl dev (case ForAction a of None \<Rightarrow> [] | Some c \<Rightarrow> c) i;
               State_Monad.return (map_option Some tok)
             }))"

definition dispatch_order :: "plane_deps \<Rightarrow> string \<Rightarrow> action \<Rightarrow> nat \<Rightarrow> string option \<Rightarrow> (dispatch_err + string) plm" where
  "dispatch_order D dev a r explicit = do {
     t \<leftarrow> now (pd_env D);
     (if ForAction a = None then State_Monad.return (Inl DUnsupported)
      else do {
        o1 \<leftarrow> register_order dev (t div 1000000) a r;
        _ \<leftarrow> other_goroutines D;
        tok \<leftarrow> dispatch_token D dev a (od_id o1) explicit;
        (case tok of
           None \<Rightarrow> State_Monad.return (Inl DMint)
         | Some stamp \<Rightarrow> do {
             _ \<leftarrow> (case stamp of None \<Rightarrow> State_Monad.return () | Some s \<Rightarrow> stamp_token r s);
             _ \<leftarrow> other_goroutines D;
             sent \<leftarrow> Push dev o1;
             (if sent then State_Monad.return (Inr (od_id o1))
              else do {
                _ \<leftarrow> other_goroutines D;
                _ \<leftarrow> forget_order (od_id o1);
                State_Monad.return (Inl DUnreachable)
              })
           })
      })
   }"

definition Dispatch :: "plane_deps \<Rightarrow> string \<Rightarrow> action \<Rightarrow> nat \<Rightarrow> (dispatch_err + string) plm" where
  "Dispatch D dev a r = dispatch_order D dev a r None"

definition DispatchWith :: "plane_deps \<Rightarrow> string \<Rightarrow> string \<Rightarrow> action \<Rightarrow> nat \<Rightarrow> (dispatch_err + string) plm" where
  "DispatchWith D dev tok a r = dispatch_order D dev a r (Some tok)"

definition RecordResult :: "report \<Rightarrow> unit plm" where
  "RecordResult res = modifies (\<lambda>w. w\<lparr>p_reports := put (rp_cmd res) res (p_reports w),
     p_pending := del (rp_cmd res) (p_pending w)\<rparr>)"

text \<open>Queries; a listing is sorted by id, a text.\<close>

definition Pending :: "plane_world \<Rightarrow> order list" where
  "Pending w = sort_key od_id (map snd (p_pending w))"

definition Result :: "plane_world \<Rightarrow> string \<Rightarrow> report option" where
  "Result w i = map_of (p_reports w) i"

definition owned :: "plane_world \<Rightarrow> string \<Rightarrow> string \<Rightarrow> bool" where
  "owned w dev i \<longleftrightarrow> (case map_of (p_owner w) i of None \<Rightarrow> dev = [] | Some d \<Rightarrow> d = dev)"

definition PendingFor :: "plane_world \<Rightarrow> string \<Rightarrow> order list" where
  "PendingFor w dev = sort_key od_id (map snd (filter (\<lambda>(i, c). owned w dev i) (p_pending w)))"

definition ResultsFor :: "plane_world \<Rightarrow> string \<Rightarrow> report list" where
  "ResultsFor w dev = sort_key rp_cmd (map snd (filter (\<lambda>(i, r). owned w dev i) (p_reports w)))"

text \<open>What the stream sends for a queued command: the message as it is when it is sent.\<close>

definition on_wire :: "plane_world \<Rightarrow> order \<Rightarrow> command" where
  "on_wire w c = \<lparr>cm_id = od_id c, cm_issued = od_issued c, cm_action = Some (od_action c),
     cm_token = (if od_ref c < length (p_tokens w) then p_tokens w ! od_ref c else []), cm_timeout = od_timeout c\<rparr>"

end
