(* ===== verification/Telemetry.thy ===== *)
theory Telemetry
  imports Plane
begin

section \<open>Metrics and log events\<close>

text \<open>
  The sinks of the ingest path: \<^verbatim>\<open>PostgresMetricsSink\<close> and \<^verbatim>\<open>MemoryMetricsSink\<close> (\<^verbatim>\<open>store/pg.go\<close>,
  \<^verbatim>\<open>store/store.go\<close>), \<^verbatim>\<open>PostgresLogStore\<close> and \<^verbatim>\<open>MemoryLogStore\<close> (\<^verbatim>\<open>store/logs.go\<close>), and the list of series of
  \<^verbatim>\<open>store/metrics.go\<close>. The column \<^verbatim>\<open>ts\<close> is derived from the millisecond, so a key with both is a key with
  the millisecond. The JSON of labels and attributes is not modelled.
\<close>

subsection \<open>Metrics\<close>

record metric_in =
  mi_name :: string
  mi_source :: string
  mi_value :: f64
  mi_labels :: "(string \<times> string) list"
  mi_ms :: int

text \<open>\<^verbatim>\<open>Time.UnixMilli\<close>.\<close>

definition unix_ms :: "time \<Rightarrow> int" where
  "unix_ms t = t div 1000000"

definition tsSkewWindow :: duration where "tsSkewWindow = 24 * hour"

text \<open>An instant more than a day off is replaced by that of the server.\<close>

definition clamp_ms :: "time \<Rightarrow> int \<Rightarrow> int" where
  "clamp_ms t ms = (if ms < unix_ms (t - tsSkewWindow) \<or> ms > unix_ms (t + tsSkewWindow) then unix_ms t else ms)"

definition metric_key :: "metric_row \<Rightarrow> string \<times> string \<times> string \<times> int" where
  "metric_key r = (mr_dev r, mr_name r, mr_source r, mr_ms r)"

definition metric_of :: "string \<Rightarrow> time \<Rightarrow> metric_in \<Rightarrow> metric_row" where
  "metric_of dev t m = \<lparr>mr_dev = dev, mr_name = mi_name m, mr_source = mi_source m, mr_value = mi_value m,
     mr_labels = mi_labels m, mr_ms = clamp_ms t (mi_ms m)\<rparr>"

text \<open>\<^verbatim>\<open>INSERT ... ON CONFLICT DO NOTHING\<close>, row by row.\<close>

fun add_new :: "('r \<Rightarrow> 'k) \<Rightarrow> 'r list \<Rightarrow> 'r list \<Rightarrow> 'r list" where
  "add_new key rows [] = rows"
| "add_new key rows (r # rs) =
     add_new key (if key r \<in> key ` set rows then rows else rows @ [r]) rs"

definition insert_metrics_stmt :: "string \<Rightarrow> metric_row list \<Rightarrow> plane_world \<Rightarrow> unit res \<times> plane_world" where
  "insert_metrics_stmt dev rs w =
     (if dev \<notin> dr_id ` set (dev_rows w) then (Inl EDb, w)
      else (Inr (), w\<lparr>metric_rows := add_new metric_key (metric_rows w) rs\<rparr>))"

definition write_metrics :: "plane_world env \<Rightarrow> string \<Rightarrow> metric_in list \<Rightarrow> (unit res) plm" where
  "write_metrics E dev ms =
     (if ms = [] then State_Monad.return (Inr ())
      else do {
        t \<leftarrow> now E;
        exec E (insert_metrics_stmt dev (map (metric_of dev t) ms))
      })"

text \<open>The ring of the in-memory sink keeps the last \<open>cap\<close> samples of a device.\<close>

type_synonym memory_metrics = "(string \<times> metric_in list) list"

definition kept :: "(string \<times> 'a list) list \<Rightarrow> string \<Rightarrow> 'a list" where
  "kept m dev = (case map_of m dev of None \<Rightarrow> [] | Some xs \<Rightarrow> xs)"

definition mem_write_metrics :: "nat \<Rightarrow> string \<Rightarrow> metric_in list \<Rightarrow> memory_metrics \<Rightarrow> memory_metrics" where
  "mem_write_metrics cap dev ms m =
     (let xs = kept m dev @ ms in put dev (if length xs > cap then drop (length xs - cap) xs else xs) m)"

definition mem_metrics_count :: "memory_metrics \<Rightarrow> nat" where
  "mem_metrics_count m = sum_list (map (length \<circ> snd) m)"

record metric_series =
  ms_name :: string
  ms_source :: string
  ms_last :: f64
  ms_count :: nat

text \<open>The newest value of a series and its number of samples since an instant; texts in byte order.\<close>

definition metric_names :: "string \<Rightarrow> int \<Rightarrow> metric_row list \<Rightarrow> metric_series list" where
  "metric_names dev since rows =
     (let rs = filter (\<lambda>r. mr_dev r = dev \<and> since \<le> mr_ms r * 1000000) rows;
          group = (\<lambda>k. filter (\<lambda>r. (mr_name r, mr_source r) = k) rs) in
      map (\<lambda>k. \<lparr>ms_name = fst k, ms_source = snd k,
                 ms_last = (case newest mr_ms (group k) of None \<Rightarrow> Fin 0 | Some r \<Rightarrow> mr_value r),
                 ms_count = length (group k)\<rparr>)
        (sort_key fst (sort_key snd (remdups (map (\<lambda>r. (mr_name r, mr_source r)) rs)))))"

definition NamesSince :: "plane_world env \<Rightarrow> string \<Rightarrow> time \<Rightarrow> ((metric_series list) res) plm" where
  "NamesSince E dev since = query E (\<lambda>w. metric_names dev since (metric_rows w))"

subsection \<open>Log events\<close>

record log_entry =
  le_id :: string
  le_level :: string
  le_msg :: string
  le_attrs :: "(string \<times> string) list"
  le_ms :: int

definition log_level :: "string \<Rightarrow> string" where
  "log_level l = (if ToLower l = [] then ''info'' else ToLower l)"

definition log_of :: "string \<Rightarrow> log_entry \<Rightarrow> log_row" where
  "log_of dev e = \<lparr>lr_id = le_id e, lr_dev = dev, lr_level = log_level (le_level e), lr_msg = le_msg e,
     lr_attrs = le_attrs e, lr_ms = le_ms e\<rparr>"

definition log_key :: "log_row \<Rightarrow> string \<times> int" where
  "log_key r = (lr_id r, lr_ms r)"

definition insert_log_stmt :: "log_row \<Rightarrow> plane_world \<Rightarrow> unit res \<times> plane_world" where
  "insert_log_stmt r w =
     (if log_key r \<in> log_key ` set (log_rows w) then (Inr (), w)
      else if lr_dev r \<notin> dr_id ` set (dev_rows w) then (Inl EDb, w)
      else (Inr (), w\<lparr>log_rows := log_rows w @ [r]\<rparr>))"

fun insert_logs :: "plane_world env \<Rightarrow> string \<Rightarrow> log_entry list \<Rightarrow> (unit res) plm" where
  "insert_logs E dev [] = State_Monad.return (Inr ())"
| "insert_logs E dev (e # es) =
     (if le_id e = [] then insert_logs E dev es
      else do {
        r \<leftarrow> tx_exec E (insert_log_stmt (log_of dev e));
        (case r of Inl x \<Rightarrow> State_Monad.return (Inl x) | Inr _ \<Rightarrow> insert_logs E dev es)
      })"

definition write_logs :: "plane_world env \<Rightarrow> string \<Rightarrow> log_entry list \<Rightarrow> (unit res) plm" where
  "write_logs E dev es =
     (if es = [] then State_Monad.return (Inr ())
      else transaction E (Inl EDb) (do {
        r \<leftarrow> insert_logs E dev es;
        State_Monad.return (case r of
           Inl x \<Rightarrow> Rollback (Inl x)
         | Inr _ \<Rightarrow> Commit (\<lambda>ce. case ce of None \<Rightarrow> Inr () | Some x \<Rightarrow> Inl x))
      }))"

definition normalizeEventLimit :: "int \<Rightarrow> nat" where
  "normalizeEventLimit limit = (if limit \<le> 0 then 50 else if limit > 500 then 500 else nat limit)"

text \<open>Newest first; rows of one millisecond come in any order, here that of insertion.\<close>

definition recent_logs :: "string \<Rightarrow> int \<Rightarrow> string \<Rightarrow> log_row list \<Rightarrow> log_row list" where
  "recent_logs dev limit level rows =
     (let lv = ToLower (TrimSpace level) in
      take (normalizeEventLimit limit)
        (sort_key (\<lambda>r. - lr_ms r) (filter (\<lambda>r. lr_dev r = dev \<and> (lv \<noteq> [] \<longrightarrow> lr_level r = lv)) rows)))"

definition RecentLogs :: "plane_world env \<Rightarrow> string \<Rightarrow> int \<Rightarrow> string \<Rightarrow> ((log_row list) res) plm" where
  "RecentLogs E dev limit level = query E (\<lambda>w. recent_logs dev limit level (log_rows w))"

text \<open>The in-memory store: per device, newest first, then by id.\<close>

definition mem_write_logs :: "nat \<Rightarrow> string \<Rightarrow> log_entry list \<Rightarrow> (string \<times> log_row list) list \<Rightarrow>
    (string \<times> log_row list) list" where
  "mem_write_logs cap dev es m =
     (if es = [] then m
      else
        let cur = kept m dev;
            added = map (log_of dev) (filter (\<lambda>e. le_id e \<noteq> [] \<and> le_id e \<notin> lr_id ` set cur) es) in
        put dev (take cap (sort_key (\<lambda>r. - lr_ms r) (sort_key lr_id (added @ cur)))) m)"

definition mem_recent_logs :: "string \<Rightarrow> int \<Rightarrow> string \<Rightarrow> (string \<times> log_row list) list \<Rightarrow> log_row list" where
  "mem_recent_logs dev limit level m =
     (let lv = ToLower (TrimSpace level) in
      take (normalizeEventLimit limit) (filter (\<lambda>r. lv \<noteq> [] \<longrightarrow> ToLower (lr_level r) = lv) (kept m dev)))"

subsection \<open>Replays\<close>

lemma add_new_append: "add_new key rows (xs @ ys) = add_new key (add_new key rows xs) ys"
  by (induction key rows xs rule: add_new.induct) simp_all

lemma add_new_grows: "set rows \<subseteq> set (add_new key rows rs)"
  by (induction key rows rs rule: add_new.induct) (auto split: if_splits)

lemma add_new_keys: "key ` set (add_new key rows rs) = key ` set rows \<union> key ` set rs"
  by (induction key rows rs rule: add_new.induct) auto

lemma add_new_covered: "key ` set rs \<subseteq> key ` set rows \<Longrightarrow> add_new key rows rs = rows"
  by (induction key rows rs rule: add_new.induct) auto

lemma add_new_again: "key ` set rs' \<subseteq> key ` set rs \<Longrightarrow> add_new key (add_new key rows rs) rs' = add_new key rows rs"
  by (rule add_new_covered) (auto simp: add_new_keys)

lemma add_new_distinct: "distinct (map key rows) \<Longrightarrow> distinct (map key (add_new key rows rs))"
  by (induction key rows rs rule: add_new.induct) auto

lemma clamp_in_window: "unix_ms (t - tsSkewWindow) \<le> clamp_ms t ms \<and> clamp_ms t ms \<le> unix_ms (t + tsSkewWindow)"
  by (auto simp: clamp_ms_def unix_ms_def tsSkewWindow_def hour_def minute_def second_def intro: zdiv_mono1)

end
