(* ===== verification/Ingest.thy ===== *)
theory Ingest
  imports Dispatcher Telemetry Sha256
begin

section \<open>The ingest service: enrolment, agent tokens and the stream\<close>

text \<open>
  \<^verbatim>\<open>server/internal/ingest/ingest.go\<close>. Parameters: the JWT library with the server's secret (HS256), the
  random source, the org CA that issues leaf certificates (\<open>None\<close>: not configured). The stream handler is
  given by its steps: opening, one frame of the receive loop, one send of the pump, and the end. Where
  Go's \<^verbatim>\<open>select\<close> finds several cases ready it picks one; the pick is a parameter of the step.
\<close>

subsection \<open>Tokens of agents\<close>

record agent_claims =
  ac_device :: string
  ac_subject :: string
  ac_issuer :: string
  ac_iat :: time
  ac_exp :: "time option"

record ingest_deps = plane_deps +
  id_sign :: "agent_claims \<Rightarrow> string option"
  id_parse :: "time \<Rightarrow> string \<Rightarrow> agent_claims option"
  id_lifetime :: duration
  id_rand :: "nat \<Rightarrow> string"
  id_beat_s :: int
  id_metric_s :: int
  id_issue :: "(string \<Rightarrow> string \<Rightarrow> (string \<times> string \<times> string) option) option"
  id_refresh :: "string \<Rightarrow> string \<Rightarrow> (string \<times> string \<times> time) option"
  id_logs :: bool
  id_relay :: bool

text \<open>\<open>withDefaults\<close>: a positive lifetime and positive cadences.\<close>

definition ingest_defaults :: "ingest_deps \<Rightarrow> ingest_deps" where
  "ingest_defaults D = D\<lparr>id_lifetime := (if id_lifetime D \<le> 0 then 720 * hour else id_lifetime D),
     id_beat_s := (if id_beat_s D \<le> 0 then 30 else id_beat_s D),
     id_metric_s := (if id_metric_s D \<le> 0 then 30 else id_metric_s D)\<rparr>"

definition mintJWT :: "ingest_deps \<Rightarrow> string \<Rightarrow> (string option) plm" where
  "mintJWT D dev = do {
     t \<leftarrow> now (pd_env D);
     State_Monad.return (id_sign D
       \<lparr>ac_device = dev, ac_subject = dev, ac_issuer = ''rmmway'', ac_iat = t, ac_exp = Some (t + id_lifetime D)\<rparr>)
   }"

definition verifyJWT :: "ingest_deps \<Rightarrow> time \<Rightarrow> string \<Rightarrow> string option" where
  "verifyJWT D t tok =
     (case id_parse D t tok of None \<Rightarrow> None | Some c \<Rightarrow> if ac_device c = [] then None else Some (ac_device c))"

definition jwtRemaining :: "ingest_deps \<Rightarrow> time \<Rightarrow> time \<Rightarrow> string \<Rightarrow> duration" where
  "jwtRemaining D t t' tok =
     (case id_parse D t tok of
        None \<Rightarrow> 0
      | Some c \<Rightarrow> (case ac_exp c of None \<Rightarrow> 0 | Some e \<Rightarrow> time_sub e t'))"

datatype code = Unauthenticated | Unavailable | PermissionDenied | InvalidArgument | Internal | Unimplemented | CodeAborted

text \<open>The first value of the \<^verbatim>\<open>authorization\<close> metadata.\<close>

definition bearerFromMD :: "string list \<Rightarrow> code + string" where
  "bearerFromMD vals =
     (case vals of
        [] \<Rightarrow> Inl Unauthenticated
      | v # _ \<Rightarrow>
          if \<not> HasPrefix (ToLower v) ''bearer '' then Inl Unauthenticated
          else if TrimSpace (drop 7 v) = [] then Inl Unauthenticated
          else Inr (TrimSpace (drop 7 v)))"

definition known_device :: "ingest_deps \<Rightarrow> string \<Rightarrow> ((code + string)) plm" where
  "known_device D dev = do {
     r \<leftarrow> dev_Contains (pd_env D) dev;
     State_Monad.return (case r of
        Inl e \<Rightarrow> Inl Unavailable
      | Inr b \<Rightarrow> if b then Inr dev else Inl Unauthenticated)
   }"

definition authenticate :: "ingest_deps \<Rightarrow> string list \<Rightarrow> (code + string \<times> string) plm" where
  "authenticate D md =
     (case bearerFromMD md of
        Inl e \<Rightarrow> State_Monad.return (Inl e)
      | Inr tok \<Rightarrow> do {
          t \<leftarrow> now (pd_env D);
          (case verifyJWT D t tok of
             None \<Rightarrow> State_Monad.return (Inl Unauthenticated)
           | Some dev \<Rightarrow> do {
               r \<leftarrow> known_device D dev;
               State_Monad.return (case r of Inl e \<Rightarrow> Inl e | Inr d \<Rightarrow> Inr (d, tok))
             })
        })"

text \<open>Every unary call but \<^verbatim>\<open>Enroll\<close> passes the check and gets the device id.\<close>

definition JWTInterceptor :: "ingest_deps \<Rightarrow> string \<Rightarrow> string list \<Rightarrow> (string option \<Rightarrow> (code + 'a) plm) \<Rightarrow> (code + 'a) plm" where
  "JWTInterceptor D rpc md h =
     (if rpc = ''/rmmway.agent.v1.AgentService/Enroll'' then h None
      else do {
        a \<leftarrow> authenticate D md;
        (case a of Inl e \<Rightarrow> State_Monad.return (Inl e) | Inr (dev, tok) \<Rightarrow> h (Some dev))
      })"

definition RefreshLeaf :: "ingest_deps \<Rightarrow> string option \<Rightarrow> string \<Rightarrow> (code + string \<times> string \<times> time) plm" where
  "RefreshLeaf D dev host =
     (if id_issue D = None then State_Monad.return (Inl Unimplemented)
      else case dev of
        None \<Rightarrow> State_Monad.return (Inl Unauthenticated)
      | Some d \<Rightarrow>
          if d = [] then State_Monad.return (Inl Unauthenticated)
          else do {
            r \<leftarrow> known_device D d;
            State_Monad.return (case r of
               Inl e \<Rightarrow> Inl e
             | Inr _ \<Rightarrow> (case id_refresh D d host of None \<Rightarrow> Inl Internal | Some leaf \<Rightarrow> Inr leaf))
          })"

subsection \<open>Enrolment\<close>

definition BootstrapGraceWindow :: duration where "BootstrapGraceWindow = 15 * minute"

definition MintBootstrapToken :: "ingest_deps \<Rightarrow> (string \<times> string) plm" where
  "MintBootstrapToken D = State (\<lambda>w.
     let raw = hex_encode (id_rand D (p_draws w)); tok = ''bt-'' @ raw; dev = ''dev-'' @ take 12 raw in
     ((tok, dev), w\<lparr>p_draws := Suc (p_draws w), p_boot := put tok dev (p_boot w)\<rparr>))"

definition pruneConsumed :: "time \<Rightarrow> (string \<times> string \<times> time) list \<Rightarrow> (string \<times> string \<times> time) list" where
  "pruneConsumed t xs = filter (\<lambda>(tok, dev, at1). \<not> time_sub t at1 > BootstrapGraceWindow) xs"

text \<open>The critical section of \<open>Enroll\<close>: a fresh token is claimed, a spent one maps back for a while.\<close>

definition claim_token :: "time \<Rightarrow> time \<Rightarrow> string \<Rightarrow> plane_world \<Rightarrow> string option \<times> plane_world" where
  "claim_token t t' tok w =
     (case map_of (p_boot w) tok of
        Some dev \<Rightarrow>
          (Some dev, w\<lparr>p_boot := del tok (p_boot w), p_spent := pruneConsumed t' (put tok (dev, t) (p_spent w))\<rparr>)
      | None \<Rightarrow>
          (case map_of (p_spent w) tok of
             None \<Rightarrow> (None, w)
           | Some (dev, at1) \<Rightarrow>
               if time_sub t at1 \<le> BootstrapGraceWindow then (Some dev, w)
               else (None, w\<lparr>p_spent := del tok (p_spent w)\<rparr>)))"

record enroll_request =
  er_token :: string
  er_host :: string
  er_os :: string
  er_arch :: string
  er_version :: string
  er_ifaces :: "string list"

record enroll_response =
  es_device :: string
  es_jwt :: string
  es_beat_s :: int
  es_metric_s :: int
  es_leaf :: "(string \<times> string \<times> string) option"

definition emitDevice :: "string \<Rightarrow> string \<Rightarrow> unit plm" where
  "emitDevice act dev = modifies (\<lambda>w. w\<lparr>p_events := p_events w @ [(act, dev)]\<rparr>)"

definition issue_identity :: "ingest_deps \<Rightarrow> string \<Rightarrow> string \<Rightarrow> string \<Rightarrow> code + enroll_response" where
  "issue_identity D dev host tok =
     (let base = \<lparr>es_device = dev, es_jwt = tok, es_beat_s = id_beat_s D, es_metric_s = id_metric_s D, es_leaf = None\<rparr> in
      (case id_issue D of
         None \<Rightarrow> Inr base
       | Some f \<Rightarrow> (case f dev host of None \<Rightarrow> Inl Internal | Some leaf \<Rightarrow> Inr (base\<lparr>es_leaf := Some leaf\<rparr>))))"

definition enroll_device :: "ingest_deps \<Rightarrow> enroll_request \<Rightarrow> string \<Rightarrow> (code + enroll_response) plm" where
  "enroll_device D q dev = do {
     tok \<leftarrow> mintJWT D dev;
     (case tok of
        None \<Rightarrow> State_Monad.return (Inl Internal)
      | Some j \<Rightarrow> do {
          r \<leftarrow> dev_Register (pd_env D) dev (er_host q) (er_os q) (er_arch q) (er_version q) (er_ifaces q)
                 (id_beat_s D) (id_metric_s D);
          (case r of
             Inl e \<Rightarrow> State_Monad.return (Inl Internal)
           | Inr _ \<Rightarrow> do {
               _ \<leftarrow> emitDevice ''created'' dev;
               State_Monad.return (issue_identity D dev (er_host q) j)
             })
        })
   }"

definition Enroll :: "ingest_deps \<Rightarrow> enroll_request \<Rightarrow> (code + enroll_response) plm" where
  "Enroll D q =
     (if er_token q = [] then State_Monad.return (Inl InvalidArgument)
      else do {
        t \<leftarrow> now (pd_env D);
        t' \<leftarrow> now (pd_env D);
        found \<leftarrow> State (claim_token t t' (er_token q));
        (case found of
           None \<Rightarrow> State_Monad.return (Inl PermissionDenied)
         | Some dev \<Rightarrow> enroll_device D q dev)
      })"

subsection \<open>The stream\<close>

definition open_link :: "string \<Rightarrow> plane_world \<Rightarrow> nat \<times> plane_world" where
  "open_link dev w =
     (let w1 = (case map_of (p_streams w) dev of
                  None \<Rightarrow> w
                | Some k \<Rightarrow>
                    (if lk_closed (p_links w ! k) then w\<lparr>p_crashed := True\<rparr>
                     else update_link k (\<lambda>l. l\<lparr>lk_closed := True, lk_cancelled := True\<rparr>) w));
          k = length (p_links w1) in
      (k, w1\<lparr>p_links := p_links w1 @ [\<lparr>lk_dev = dev, lk_buf = [], lk_closed = False, lk_cancelled = False, lk_pump_done = False\<rparr>],
             p_streams := put dev k (p_streams w1)\<rparr>))"

definition open_stream :: "ingest_deps \<Rightarrow> string list \<Rightarrow> (code + string \<times> string \<times> nat) plm" where
  "open_stream D md = do {
     a \<leftarrow> authenticate D md;
     (case a of
        Inl e \<Rightarrow> State_Monad.return (Inl e)
      | Inr (dev, tok) \<Rightarrow> do {
          k \<leftarrow> State (open_link dev);
          _ \<leftarrow> dev_Touch (pd_env D) dev;
          _ \<leftarrow> emitDevice ''online'' dev;
          State_Monad.return (Inr (dev, tok, k))
        })
   }"

text \<open>The deferred end: only the current stream of the device is unregistered and reported offline.\<close>

definition close_link :: "string \<Rightarrow> nat \<Rightarrow> plane_world \<Rightarrow> bool \<times> plane_world" where
  "close_link dev k w =
     (let w1 = update_link k (\<lambda>l. l\<lparr>lk_cancelled := True\<rparr>) w in
      if map_of (p_streams w1) dev = Some k
      then (True, (if lk_closed (p_links w1 ! k) then w1\<lparr>p_crashed := True\<rparr>
                   else (update_link k (\<lambda>l. l\<lparr>lk_closed := True\<rparr>) w1)\<lparr>p_streams := del dev (p_streams w1)\<rparr>))
      else (False, w1))"

definition end_stream :: "string \<Rightarrow> nat \<Rightarrow> unit plm" where
  "end_stream dev k = do {
     current \<leftarrow> State (close_link dev k);
     (if current then emitDevice ''offline'' dev else State_Monad.return ())
   }"

text \<open>One turn of the pump: \<open>sent\<close> says whether the send to the agent works. \<open>None\<close>: nothing to send.\<close>

definition pump :: "nat \<Rightarrow> bool \<Rightarrow> (down option) plm" where
  "pump k sent = State (\<lambda>w.
     let l = p_links w ! k in
     if lk_pump_done l then (None, w)
     else (case lk_buf l of
        [] \<Rightarrow> (None, if lk_closed l then update_link k (\<lambda>l. l\<lparr>lk_pump_done := True\<rparr>) w else w)
      | x # xs \<Rightarrow> (Some x, update_link k (\<lambda>l. l\<lparr>lk_buf := xs, lk_pump_done := \<not> sent\<rparr>) w)))"

text \<open>What a frame does to the receive loop: go on, end with a status, or wait.\<close>

datatype turn = GoOn | Done code | Blocked

text \<open>
  The send of an acknowledgement: \<^verbatim>\<open>select\<close> over the channel, the end of the pump and the context. A
  send on a closed channel is a ready case, and panics when it is picked.
\<close>

datatype ready = ReadySend | ReadyPump | ReadyCtx

definition ready_cases :: "link \<Rightarrow> ready set" where
  "ready_cases l =
     (if lk_closed l \<or> length (lk_buf l) < link_capacity then {ReadySend} else {}) \<union>
     (if lk_pump_done l then {ReadyPump} else {}) \<union> (if lk_cancelled l then {ReadyCtx} else {})"

definition send_ack :: "nat \<Rightarrow> string \<Rightarrow> ready \<Rightarrow> turn plm" where
  "send_ack k j pick = State (\<lambda>w.
     if pick \<notin> ready_cases (p_links w ! k) then (Blocked, w)
     else (case pick of
        ReadySend \<Rightarrow> (GoOn, snd (try_send k (DAck j) w))
      | ReadyPump \<Rightarrow> (Done Unavailable, w)
      | ReadyCtx \<Rightarrow> (Done CodeAborted, w)))"

text \<open>A fresh token rides on the acknowledgement in the last quarter of the lifetime.\<close>

definition renewal :: "ingest_deps \<Rightarrow> string \<Rightarrow> string \<Rightarrow> string plm" where
  "renewal D dev tok = do {
     t \<leftarrow> now (pd_env D);
     t' \<leftarrow> now (pd_env D);
     (let rem = jwtRemaining D t t' tok in
      if rem > 0 \<and> rem < id_lifetime D div 4
      then do { j \<leftarrow> mintJWT D dev; State_Monad.return (case j of None \<Rightarrow> [] | Some s \<Rightarrow> s) }
      else State_Monad.return [])
   }"

definition isFinalCommandStatus :: "cmd_status \<Rightarrow> bool" where
  "isFinalCommandStatus s \<longleftrightarrow> s \<in> {CSucceeded, CFailed, CTimedOut, CRefused, CUnsupported}"

text \<open>The hardware message has unsigned counts (\<^verbatim>\<open>uint32\<close>, \<^verbatim>\<open>uint64\<close>).\<close>

record hardware_info =
  hi_cpu_model :: string
  hi_cpu_vendor :: string
  hi_cores :: int
  hi_logical :: int
  hi_ram :: int
  hi_os_name :: string
  hi_os_version :: string
  hi_os_arch :: string
  hi_hostname :: string

record inventory_report =
  ir_cmd :: string
  ir_hardware :: "hardware_info option"
  ir_software :: "software_info list"

definition hardware_values :: "hardware_info \<Rightarrow> hardware_map" where
  "hardware_values h =
     \<lparr>hm_cpu_model = AString (hi_cpu_model h), hm_cpu_vendor = AString (hi_cpu_vendor h),
      hm_cores = AUint32 (hi_cores h), hm_logical = AUint32 (hi_logical h), hm_ram = AUint64 (hi_ram h),
      hm_os_name = AString (hi_os_name h), hm_os_version = AString (hi_os_version h),
      hm_os_arch = AString (hi_os_arch h), hm_hostname = AString (hi_hostname h)\<rparr>"

definition handleInventoryReport :: "ingest_deps \<Rightarrow> string \<Rightarrow> inventory_report \<Rightarrow> (unit res) plm" where
  "handleInventoryReport D dev r = do {
     h \<leftarrow> (case ir_hardware r of None \<Rightarrow> State_Monad.return (Inr ()) | Some hw \<Rightarrow> SaveDeviceHardware (pd_env D) dev (hardware_values hw));
     (case h of
        Inl e \<Rightarrow> State_Monad.return (Inl e)
      | Inr _ \<Rightarrow> if ir_software r = [] then State_Monad.return (Inr ())
                 else SaveDeviceSoftware (pd_env D) dev (ir_software r))
   }"

record chunk =
  ck_cmd :: string
  ck_seq :: nat
  ck_data :: string
  ck_eof :: bool
  ck_total :: int
  ck_mode :: nat

record session_frame =
  sf_session :: string
  sf_seq :: nat
  sf_codec :: string
  sf_width :: nat
  sf_height :: nat
  sf_jpeg :: string
  sf_capture :: int
  sf_status :: string

datatype up =
    UHeartbeat "metric_in list" | UMetrics "metric_in list" | UResult report | ULogs "log_entry list"
  | UFrame session_frame | UChunk chunk | UInventory inventory_report | UPatchStatus string

text \<open>The relay's handlers are parameters here; \<open>final\<close> reports a final result to the bus.\<close>

record stream_hooks =
  sh_final :: "report \<Rightarrow> unit plm"
  sh_frame :: "string \<Rightarrow> session_frame \<Rightarrow> unit plm"
  sh_chunk :: "string \<Rightarrow> chunk \<Rightarrow> unit plm"

definition record_report :: "stream_hooks \<Rightarrow> report \<Rightarrow> unit plm" where
  "record_report H r =
     (if rp_cmd r = [] then State_Monad.return ()
      else do {
        _ \<leftarrow> RecordResult r;
        (if isFinalCommandStatus (rp_status r) then sh_final H r else State_Monad.return ())
      })"

definition heartbeat :: "ingest_deps \<Rightarrow> string \<Rightarrow> string \<Rightarrow> nat \<Rightarrow> metric_in list \<Rightarrow> ready \<Rightarrow> turn plm" where
  "heartbeat D dev tok k ms pick = do {
     _ \<leftarrow> dev_Touch (pd_env D) dev;
     _ \<leftarrow> write_metrics (pd_env D) dev ms;
     j \<leftarrow> renewal D dev tok;
     send_ack k j pick
   }"

definition go_on :: "'a plm \<Rightarrow> turn plm" where
  "go_on c = do { _ \<leftarrow> c; State_Monad.return GoOn }"

definition recv_frame :: "ingest_deps \<Rightarrow> stream_hooks \<Rightarrow> string \<Rightarrow> string \<Rightarrow> nat \<Rightarrow> ready \<Rightarrow> up \<Rightarrow> turn plm" where
  "recv_frame D H dev tok k pick fr =
     (case fr of
        UHeartbeat ms \<Rightarrow> heartbeat D dev tok k ms pick
      | UMetrics ms \<Rightarrow> go_on (write_metrics (pd_env D) dev ms)
      | UResult r \<Rightarrow> go_on (record_report H r)
      | ULogs es \<Rightarrow> if id_logs D then go_on (write_logs (pd_env D) dev es) else State_Monad.return GoOn
      | UFrame f \<Rightarrow> if id_relay D then go_on (sh_frame H dev f) else State_Monad.return GoOn
      | UChunk c \<Rightarrow> if id_relay D then go_on (sh_chunk H dev c) else State_Monad.return GoOn
      | UInventory r \<Rightarrow> if ir_cmd r = [] then State_Monad.return GoOn else go_on (handleInventoryReport D dev r)
      | UPatchStatus i \<Rightarrow> State_Monad.return GoOn)"

end
