(* ===== verification/Relay.thy ===== *)
theory Relay
  imports Ingest Rbac
begin

section \<open>The session relay\<close>

text \<open>
  \<^verbatim>\<open>server/internal/sessionrelay/sessionrelay.go\<close> and \<^verbatim>\<open>httpapi/domain_session.go\<close>: the screen frames of
  remote sessions, their viewers, and the files pulled from devices. A viewer is its index in
  \<open>p_viewers\<close>; its channel holds 16 events. The set of viewers of a device has no order; a listing is in
  order of subscription.
\<close>

subsection \<open>The registry\<close>

definition new_screen :: screen where
  "new_screen = \<lparr>sn_session = [], sn_fps = 0, sn_latest = None, sn_status = [], sn_viewers = []\<rparr>"

definition screen_of :: "plane_world \<Rightarrow> string \<Rightarrow> screen" where
  "screen_of w dev = (case map_of (p_screens w) dev of None \<Rightarrow> new_screen | Some s \<Rightarrow> s)"

definition put_screen :: "string \<Rightarrow> screen \<Rightarrow> plane_world \<Rightarrow> plane_world" where
  "put_screen dev s w = w\<lparr>p_screens := put dev s (p_screens w)\<rparr>"

definition relay_Open :: "string \<Rightarrow> string \<Rightarrow> int \<Rightarrow> unit plm" where
  "relay_Open dev session fps = modifies (\<lambda>w.
     put_screen dev ((screen_of w dev)\<lparr>sn_session := session, sn_fps := fps, sn_status := []\<rparr>) w)"

text \<open>The non-blocking send to a viewer: dropped when its channel is full.\<close>

definition viewer_capacity :: nat where "viewer_capacity = 16"

definition offer :: "frame_event \<Rightarrow> viewer \<Rightarrow> viewer" where
  "offer e v = (if length (vw_buf v) \<ge> viewer_capacity then v else v\<lparr>vw_buf := vw_buf v @ [e]\<rparr>)"

definition offer_to :: "frame_event \<Rightarrow> nat list \<Rightarrow> plane_world \<Rightarrow> plane_world" where
  "offer_to e vs w =
     w\<lparr>p_viewers := map (\<lambda>(i, v). if i \<in> set vs then offer e v else v) (enumerate 0 (p_viewers w))\<rparr>"

definition frame_of :: "session_frame \<Rightarrow> frame_event" where
  "frame_of f =
     \<lparr>fe_kind = (if sf_status f \<noteq> [] then ''status'' else ''frame''), fe_session = sf_session f, fe_seq = sf_seq f,
      fe_codec = sf_codec f, fe_width = sf_width f, fe_height = sf_height f,
      fe_jpeg = (if sf_status f \<noteq> [] then [] else b64_encode (sf_jpeg f)), fe_capture = sf_capture f, fe_status = sf_status f\<rparr>"

definition screen_after :: "session_frame \<Rightarrow> screen \<Rightarrow> screen" where
  "screen_after f s =
     (let s1 = (if sf_session f \<noteq> [] then s\<lparr>sn_session := sf_session f\<rparr> else s) in
      if sf_status f \<noteq> [] then s1\<lparr>sn_status := sf_status f\<rparr> else s1\<lparr>sn_latest := Some (frame_of f)\<rparr>)"

text \<open>The state under the lock, the sends after it.\<close>

definition OnFrame :: "plane_deps \<Rightarrow> string \<Rightarrow> session_frame \<Rightarrow> unit plm" where
  "OnFrame D dev f = do {
     vs \<leftarrow> State (\<lambda>w. let s = screen_after f (screen_of w dev) in (sn_viewers s, put_screen dev s w));
     _ \<leftarrow> other_goroutines D;
     modifies (offer_to (frame_of f) vs)
   }"

definition hello :: "string \<Rightarrow> frame_event" where
  "hello session = \<lparr>fe_kind = ''hello'', fe_session = session, fe_seq = 0, fe_codec = [], fe_width = 0, fe_height = 0,
     fe_jpeg = [], fe_capture = 0, fe_status = []\<rparr>"

definition Subscribe :: "plane_deps \<Rightarrow> string \<Rightarrow> nat plm" where
  "Subscribe D dev = do {
     (v, session) \<leftarrow> State (\<lambda>w. let s = screen_of w dev; v = length (p_viewers w) in
        ((v, sn_session s),
         (put_screen dev (s\<lparr>sn_viewers := sn_viewers s @ [v]\<rparr>) w)\<lparr>p_viewers := p_viewers w @ [\<lparr>vw_dev = dev, vw_buf = [], vw_done = False\<rparr>]\<rparr>));
     _ \<leftarrow> other_goroutines D;
     _ \<leftarrow> modifies (offer_to (hello session) [v]);
     State_Monad.return v
   }"

definition cancel_viewer :: "string \<Rightarrow> nat \<Rightarrow> unit plm" where
  "cancel_viewer dev v = modifies (\<lambda>w.
     let w1 = (case map_of (p_screens w) dev of
                 None \<Rightarrow> w
               | Some s \<Rightarrow> put_screen dev (s\<lparr>sn_viewers := filter (\<lambda>x. x \<noteq> v) (sn_viewers s)\<rparr>) w) in
     w1\<lparr>p_viewers := (p_viewers w1)[v := (p_viewers w1 ! v)\<lparr>vw_done := True\<rparr>]\<rparr>)"

definition add_chunk :: "chunk \<Rightarrow> transfer \<Rightarrow> transfer" where
  "add_chunk c t =
     (let t1 = (if ck_total c \<noteq> 0 then t\<lparr>tr_total := ck_total c\<rparr> else t);
          t2 = (if ck_mode c \<noteq> 0 then t1\<lparr>tr_mode := ck_mode c\<rparr> else t1);
          t3 = t2\<lparr>tr_received := tr_received t2 + length (ck_data c), tr_data := tr_data t2 @ ck_data c\<rparr> in
      if ck_eof c then t3\<lparr>tr_done := True\<rparr> else t3)"

definition OnChunk :: "string \<Rightarrow> chunk \<Rightarrow> unit plm" where
  "OnChunk dev c = modifies (\<lambda>w.
     case map_of (p_transfers w) (ck_cmd c) of
       None \<Rightarrow> w
     | Some t \<Rightarrow> w\<lparr>p_transfers := put (ck_cmd c) (add_chunk c t) (p_transfers w)\<rparr>)"

definition new_transfer :: "string \<Rightarrow> transfer" where
  "new_transfer path = \<lparr>tr_path = path, tr_total = 0, tr_received = 0, tr_mode = 0, tr_data = [], tr_done = False\<rparr>"

definition BeginPull :: "string \<Rightarrow> string \<Rightarrow> string \<Rightarrow> unit plm" where
  "BeginPull dev i path = modifies (\<lambda>w. w\<lparr>p_transfers := put i (new_transfer path) (p_transfers w)\<rparr>)"

definition PullState :: "plane_world \<Rightarrow> string \<Rightarrow> transfer option" where
  "PullState w i = map_of (p_transfers w) i"

definition ActiveSession :: "plane_world \<Rightarrow> string \<Rightarrow> string option" where
  "ActiveSession w dev = (let s = sn_session (screen_of w dev) in if s = [] then None else Some s)"

definition LatestFrame :: "plane_world \<Rightarrow> string \<Rightarrow> frame_event option" where
  "LatestFrame w dev = sn_latest (screen_of w dev)"

definition relay_Status :: "plane_world \<Rightarrow> string \<Rightarrow> string" where
  "relay_Status w dev = sn_status (screen_of w dev)"

definition goodbye :: "string \<Rightarrow> frame_event" where
  "goodbye session = (hello session)\<lparr>fe_kind := ''goodbye''\<rparr>"

definition relay_Close :: "string \<Rightarrow> string \<Rightarrow> unit plm" where
  "relay_Close dev session = modifies (\<lambda>w.
     case map_of (p_screens w) dev of
       None \<Rightarrow> w
     | Some s \<Rightarrow>
         if session = [] \<or> sn_session s = session
         then offer_to (goodbye session) (sn_viewers s) (put_screen dev (s\<lparr>sn_session := []\<rparr>) w)
         else w)"

text \<open>The hooks of the ingest service, with the relay wired.\<close>

definition relay_hooks :: "plane_deps \<Rightarrow> (report \<Rightarrow> unit plm) \<Rightarrow> stream_hooks" where
  "relay_hooks D final = \<lparr>sh_final = final, sh_frame = OnFrame D, sh_chunk = OnChunk\<rparr>"

subsection \<open>The routes\<close>

datatype session_body = SStarted string int string | SStopped bool string | SProgress nat int | SError string

type_synonym session_resp = "session_body response"

text \<open>\<open>relay\<close>, \<open>control\<close>: wired. A body that does not parse leaves the fields unset.\<close>

definition randInt31 :: "time \<Rightarrow> int" where
  "randInt31 t = (t div 2 ^ 32 + 2 ^ 31) mod 2 ^ 32 - 2 ^ 31"

definition session_id :: "time \<Rightarrow> time \<Rightarrow> string" where
  "session_id t t' = ''sess-'' @ FormatInt t @ ''-'' @ FormatInt (randInt31 t')"

definition handleSessionStart :: "plane_deps \<Rightarrow> bool \<Rightarrow> bool \<Rightarrow> int option \<Rightarrow> string \<Rightarrow> session_resp plm" where
  "handleSessionStart D relay control body dev =
     (if \<not> relay \<or> \<not> control then State_Monad.return (Resp 503 None)
      else
        let fps = (case body of None \<Rightarrow> 0 | Some n \<Rightarrow> n) in
        if fps < 0 \<or> fps > 30 then State_Monad.return (Resp 400 None)
        else do {
          t \<leftarrow> now (pd_env D);
          t' \<leftarrow> now (pd_env D);
          let session = session_id t t';
          _ \<leftarrow> relay_Open dev session fps;
          _ \<leftarrow> other_goroutines D;
          sent \<leftarrow> SendSessionControl dev (OpenSession session fps);
          (if \<not> sent then do {
             _ \<leftarrow> relay_Close dev session;
             State_Monad.return (Resp 502 (Some (SError ''device is offline (no live stream)'')))
           }
           else State_Monad.return (Resp 200 (Some (SStarted session fps dev))))
        })"

text \<open>\<open>None\<close>: the handler answers 404 because nothing names a session.\<close>

definition stop_target :: "string \<Rightarrow> string option \<Rightarrow> string option" where
  "stop_target body active = (if body \<noteq> [] then Some body else active)"

definition handleSessionStop :: "plane_deps \<Rightarrow> bool \<Rightarrow> bool \<Rightarrow> string \<Rightarrow> string \<Rightarrow> session_resp plm" where
  "handleSessionStop D relay control body dev =
     (if \<not> relay then State_Monad.return (Resp 503 None)
      else do {
        active \<leftarrow> reads (\<lambda>w. ActiveSession w dev);
        (case stop_target body active of
           None \<Rightarrow> State_Monad.return (Resp 404 None)
         | Some session \<Rightarrow> do {
             _ \<leftarrow> other_goroutines D;
             sent \<leftarrow> (if control then SendSessionControl dev (CloseSession session) else State_Monad.return True);
             _ \<leftarrow> relay_Close dev session;
             State_Monad.return (Resp 200 (Some (SStopped sent session)))
           })
      })"

definition base_name :: "string \<Rightarrow> string" where
  "base_name p =
     (let q = rev (dropWhile (\<lambda>c. c = CHR ''/'') (rev p)) in
      if p = [] then ''.'' else if q = [] then ''/'' else last (split_on CHR ''/'' q))"

datatype download = Download string string nat | NoDownload session_resp

definition handleFileDownload :: "bool \<Rightarrow> string \<Rightarrow> string \<Rightarrow> download plm" where
  "handleFileDownload relay dev i =
     (if \<not> relay then State_Monad.return (NoDownload (Resp 503 None))
      else do {
        st \<leftarrow> reads (\<lambda>w. PullState w i);
        State_Monad.return (case st of
           None \<Rightarrow> NoDownload (Resp 404 None)
         | Some t \<Rightarrow>
             if \<not> tr_done t then NoDownload (Resp 202 (Some (SProgress (tr_received t) (tr_total t))))
             else Download (base_name (tr_path t)) (tr_data t) (tr_received t))
      })"

text \<open>The events a viewer gets over its stream: the status first, then its channel in order.\<close>

definition status_event :: "string \<Rightarrow> frame_event" where
  "status_event st = (hello [])\<lparr>fe_kind := ''status'', fe_status := st\<rparr>"

definition handleSessionStream :: "plane_deps \<Rightarrow> bool \<Rightarrow> bool \<Rightarrow> string \<Rightarrow> (nat \<times> frame_event list) option plm" where
  "handleSessionStream D relay flusher dev =
     (if \<not> relay \<or> \<not> flusher then State_Monad.return None
      else do {
        v \<leftarrow> Subscribe D dev;
        _ \<leftarrow> other_goroutines D;
        st \<leftarrow> reads (\<lambda>w. relay_Status w dev);
        State_Monad.return (Some (v, if st = [] then [] else [status_event st]))
      })"

text \<open>One turn of its loop: the next event of the channel, if the viewer is still subscribed.\<close>

definition viewer_next :: "nat \<Rightarrow> (frame_event option) plm" where
  "viewer_next v = State (\<lambda>w.
     let x = p_viewers w ! v in
     case vw_buf x of
       [] \<Rightarrow> (None, w)
     | e # es \<Rightarrow> (Some e, w\<lparr>p_viewers := (p_viewers w)[v := x\<lparr>vw_buf := es\<rparr>]\<rparr>))"

end
