(* ===== verification/Device_Api.thy ===== *)
theory Device_Api
  imports Relay
begin

section \<open>The device routes: dispatch, tags, inventory, logs and enrolment\<close>

text \<open>
  \<^verbatim>\<open>server/internal/httpapi/domain_commands.go\<close>, \<^verbatim>\<open>domain_devices.go\<close>, \<^verbatim>\<open>domain_inventory.go\<close> and
  \<^verbatim>\<open>domain_enroll.go\<close>. A handler gets the session its gate resolved. A body is what \<^verbatim>\<open>json.Decode\<close> gave
  (\<open>None\<close>: it did not parse). The search index is a parameter (\<open>None\<close>: not wired; else whether the
  re-index worked); the handlers of export and of the metric charts are parameters of the routing.
\<close>

subsection \<open>Actions\<close>

record dispatch_request =
  dq_action :: string
  dq_lang :: string
  dq_script :: string
  dq_args :: "string list"
  dq_timeout :: int
  dq_path :: string
  dq_content :: string
  dq_mode :: string

definition script_action :: "dispatch_request \<Rightarrow> action option" where
  "script_action q =
     (let lang = (if dq_lang q = [] then ''sh'' else dq_lang q) in
      if lang \<notin> {''sh'', ''powershell'', ''python''} \<or> b64_decode (dq_script q) = None then None
      else Some (RunScript lang (dq_script q) (dq_args q)))"

definition push_action :: "dispatch_request \<Rightarrow> action option" where
  "push_action q =
     (if dq_path q = [] \<or> (dq_content q \<noteq> [] \<and> b64_decode (dq_content q) = None) then None
      else Some (FilePush (dq_path q) (dq_content q) (dq_mode q)))"

text \<open>\<open>strings_of\<close> is \<^verbatim>\<open>json.Unmarshal\<close> into a list of strings.\<close>

definition patch_action :: "(string \<Rightarrow> string list option) \<Rightarrow> dispatch_request \<Rightarrow> action option" where
  "patch_action strings_of q =
     map_option (\<lambda>ids. PatchApply ids (dq_timeout q > 0) (if dq_timeout q > 0 then dq_timeout q else 0))
       (if dq_script q = [] then Some [] else Option.bind (b64_decode (dq_script q)) strings_of)"

definition buildCommandAction :: "(string \<Rightarrow> string list option) \<Rightarrow> dispatch_request \<Rightarrow> action option" where
  "buildCommandAction strings_of q =
     (let a = dq_action q in
      if a = ''run_script'' then script_action q
      else if a = ''reboot'' then Some (Reboot 0)
      else if a = ''file_pull'' then (if dq_path q = [] then None else Some (FilePull (dq_path q)))
      else if a = ''file_push'' then push_action q
      else if a = ''collect_inventory'' then Some CollectInventory
      else if a = ''patch_query'' then Some (PatchQuery (dq_path q))
      else if a = ''patch_apply'' then patch_action strings_of q
      else None)"

subsection \<open>Dispatch\<close>

record device_out =
  do_id :: string
  do_host :: string
  do_os :: string
  do_arch :: string
  do_version :: string
  do_ifaces :: "string list"
  do_tags :: "string list"
  do_online :: bool
  do_first :: time
  do_last :: time
  do_client :: "string option"

definition toDeviceOut :: "dev_row \<Rightarrow> device_out" where
  "toDeviceOut d =
     \<lparr>do_id = dr_id d, do_host = dr_host d, do_os = dr_os d, do_arch = dr_arch d, do_version = dr_version d,
      do_ifaces = dr_ifaces d, do_tags = dr_tags d, do_online = dr_online d, do_first = dr_first d,
      do_last = dr_last d, do_client = dr_client d\<rparr>"

datatype device_body =
    VCommand string string
  | VBulk string nat "(string \<times> string) list" "string list" "string list"
  | VCommands "order list" "report list"
  | VDevices "device_out list"
  | VTagged device_out bool
  | VInventory "hardware option" "package list"
  | VEvents "log_row list"
  | VSeries "metric_series list"
  | VBootstrap string string
  | VEnrolled enroll_response
  | VNoCapability string
  | VForbidden
  | VFailed

type_synonym device_resp = "device_body response"

record device_deps = ingest_deps +
  dd_dispatch :: bool
  dd_strings :: "string \<Rightarrow> string list option"
  dd_search :: "(string \<Rightarrow> bool) option"
  dd_logs :: bool
  dd_metrics :: bool

definition plain_answer :: "nat \<Rightarrow> device_resp plm" where
  "plain_answer n = State_Monad.return (Resp n None)"

definition answer_json :: "nat \<Rightarrow> device_body \<Rightarrow> device_resp plm" where
  "answer_json n b = State_Monad.return (Resp n (Some b))"

text \<open>The checks of the device id that several handlers start with.\<close>

definition with_device :: "device_deps \<Rightarrow> string \<Rightarrow> device_resp plm \<Rightarrow> device_resp plm" where
  "with_device D dev h = do {
     r \<leftarrow> dev_Contains (pd_env D) dev;
     (case r of
        Inl e \<Rightarrow> plain_answer 500
      | Inr b \<Rightarrow> if b then h else plain_answer 404)
   }"

definition dispatch_answer :: "string \<Rightarrow> dispatch_err + string \<Rightarrow> device_resp" where
  "dispatch_answer dev r =
     (case r of
        Inl DUnreachable \<Rightarrow> Resp 502 (Some VFailed)
      | Inl _ \<Rightarrow> Resp 500 (Some VFailed)
      | Inr i \<Rightarrow> Resp 200 (Some (VCommand i dev)))"

definition dispatchCommand :: "device_deps \<Rightarrow> session \<Rightarrow> http_method \<Rightarrow> dispatch_request option \<Rightarrow> string \<Rightarrow> device_resp plm" where
  "dispatchCommand D s m body dev =
     (if m \<noteq> POST then plain_answer 405
      else if \<not> dd_dispatch D then plain_answer 503
      else with_device D dev
        (case Option.bind body (buildCommandAction (dd_strings D)) of
           None \<Rightarrow> plain_answer 400
         | Some a \<Rightarrow>
             (case ForAction a of
                None \<Rightarrow> plain_answer 400
              | Some cap \<Rightarrow>
                  if cap \<notin> set (ss_caps s) then answer_json 403 (VNoCapability cap)
                  else do {
                    msg \<leftarrow> new_message;
                    r \<leftarrow> Dispatch (plane_deps.truncate D) dev a msg;
                    State_Monad.return (dispatch_answer dev r)
                  })))"

definition deviceCommands :: "device_deps \<Rightarrow> string \<Rightarrow> device_resp plm" where
  "deviceCommands D dev =
     (if \<not> dd_dispatch D then plain_answer 503
      else with_device D dev (reads (\<lambda>w. Resp 200 (Some (VCommands (PendingFor w dev) (ResultsFor w dev))))))"

subsection \<open>Tags\<close>

definition maxTagLen :: nat where "maxTagLen = 64"
definition maxTagsPerDevice :: nat where "maxTagsPerDevice = 20"

definition tag_start :: "char \<Rightarrow> bool" where
  "tag_start c \<longleftrightarrow> is_digit c \<or> c \<in> set ''abcdefghijklmnopqrstuvwxyz''"

definition tag_char :: "char \<Rightarrow> bool" where
  "tag_char c \<longleftrightarrow> tag_start c \<or> c \<in> set ''._-''"

definition valid_tag :: "string \<Rightarrow> bool" where
  "valid_tag t \<longleftrightarrow> t \<noteq> [] \<and> length t \<le> maxTagLen \<and> tag_start (hd t) \<and> list_all tag_char t"

fun tag_loop :: "string list \<Rightarrow> string list \<Rightarrow> string list option" where
  "tag_loop acc [] = Some acc"
| "tag_loop acc (raw # rest) =
     (let t = ToLower (TrimSpace raw) in
      if t = [] then tag_loop acc rest
      else if \<not> valid_tag t then None
      else tag_loop (if t \<in> set acc then acc else acc @ [t]) rest)"

definition normalizeTags :: "string list \<Rightarrow> string list option" where
  "normalizeTags tags =
     (case tag_loop [] tags of
        None \<Rightarrow> None
      | Some ts \<Rightarrow> if length ts > maxTagsPerDevice then None else Some ts)"

definition patchDeviceTags :: "device_deps \<Rightarrow> http_method \<Rightarrow> string list option \<Rightarrow> string \<Rightarrow> device_resp plm" where
  "patchDeviceTags D m body dev =
     (if m \<noteq> PATCH then plain_answer 405
      else case Option.bind body normalizeTags of
        None \<Rightarrow> plain_answer 400
      | Some tags \<Rightarrow> do {
          r \<leftarrow> dev_SetTags (pd_env D) dev tags;
          (case r of
             Inl e \<Rightarrow> plain_answer (if e = ENotFound then 404 else 500)
           | Inr _ \<Rightarrow> do {
               d \<leftarrow> dev_Get (pd_env D) dev;
               (case d of
                  Inl e \<Rightarrow> plain_answer 500
                | Inr row \<Rightarrow> answer_json 200 (VTagged (toDeviceOut row)
                    (case dd_search D of None \<Rightarrow> False | Some sync \<Rightarrow> sync dev)))
             })
        })"

subsection \<open>Bulk dispatch\<close>

record bulk_request =
  bq_tag :: string
  bq_action :: string
  bq_lang :: string
  bq_script :: string
  bq_args :: "string list"
  bq_timeout :: int

definition single_request :: "bulk_request \<Rightarrow> dispatch_request" where
  "single_request b =
     \<lparr>dq_action = bq_action b, dq_lang = bq_lang b, dq_script = bq_script b, dq_args = bq_args b,
      dq_timeout = bq_timeout b, dq_path = [], dq_content = [], dq_mode = []\<rparr>"

definition maxBulkFanout :: nat where "maxBulkFanout = 500"

record bulk_result =
  br_pushed :: "(string \<times> string) list"
  br_offline :: "string list"
  br_failed :: "string list"

text \<open>A fresh message per device: the dispatcher stamps the token into it in place.\<close>

fun bulk_loop :: "device_deps \<Rightarrow> action \<Rightarrow> string list \<Rightarrow> bulk_result \<Rightarrow> bulk_result plm" where
  "bulk_loop D a [] acc = State_Monad.return acc"
| "bulk_loop D a (dev # devs) acc = do {
     msg \<leftarrow> new_message;
     r \<leftarrow> Dispatch (plane_deps.truncate D) dev a msg;
     bulk_loop D a devs
       (case r of
          Inl DUnreachable \<Rightarrow> acc\<lparr>br_offline := br_offline acc @ [dev]\<rparr>
        | Inl _ \<Rightarrow> acc\<lparr>br_failed := br_failed acc @ [dev]\<rparr>
        | Inr i \<Rightarrow> acc\<lparr>br_pushed := br_pushed acc @ [(dev, i)]\<rparr>)
   }"

definition bulk_dispatch :: "device_deps \<Rightarrow> string \<Rightarrow> action \<Rightarrow> device_resp plm" where
  "bulk_dispatch D tag a = do {
     _ \<leftarrow> new_message;
     r \<leftarrow> dev_List (pd_env D);
     (case r of
        Inl e \<Rightarrow> plain_answer 500
      | Inr rows \<Rightarrow>
          let ids = map dr_id (filter (\<lambda>d. tag \<in> set (dr_tags d)) rows) in
          if ids = [] then answer_json 404 VFailed
          else if length ids > maxBulkFanout then answer_json 400 VFailed
          else do {
            res \<leftarrow> bulk_loop D a ids \<lparr>br_pushed = [], br_offline = [], br_failed = []\<rparr>;
            answer_json 200 (VBulk tag (length ids) (br_pushed res) (br_offline res) (br_failed res))
          })
   }"

definition bulkCommand :: "device_deps \<Rightarrow> session \<Rightarrow> http_method \<Rightarrow> bulk_request option \<Rightarrow> device_resp plm" where
  "bulkCommand D s m body =
     (if m \<noteq> POST then plain_answer 405
      else if \<not> dd_dispatch D then plain_answer 503
      else case body of
        None \<Rightarrow> plain_answer 400
      | Some b \<Rightarrow>
          (case normalizeTags [bq_tag b] of
             Some [tag] \<Rightarrow>
               (case buildCommandAction (dd_strings D) (single_request b) of
                  None \<Rightarrow> plain_answer 400
                | Some a \<Rightarrow>
                    (case ForAction a of
                       None \<Rightarrow> plain_answer 400
                     | Some cap \<Rightarrow>
                         if cap \<notin> set (ss_caps s) then answer_json 403 (VNoCapability cap)
                         else bulk_dispatch D tag a))
           | _ \<Rightarrow> plain_answer 400))"

subsection \<open>Lists, inventory and logs\<close>

definition client_or_default :: "dev_row \<Rightarrow> string" where
  "client_or_default d =
     (case dr_client d of None \<Rightarrow> DefaultClientID | Some c \<Rightarrow> if c = [] then DefaultClientID else c)"

definition filterDevicesByClients :: "dev_row list \<Rightarrow> session \<Rightarrow> dev_row list" where
  "filterDevicesByClients rows s = filter (\<lambda>d. CanSeeClient s (client_or_default d)) rows"

definition deviceList :: "device_deps \<Rightarrow> session \<Rightarrow> string \<Rightarrow> device_resp plm" where
  "deviceList D s client = do {
     r \<leftarrow> dev_ListByClient (pd_env D) client;
     (case r of
        Inl e \<Rightarrow> plain_answer 500
      | Inr rows \<Rightarrow> answer_json 200 (VDevices (map toDeviceOut
          (if \<not> ss_all s \<and> client = [] then filterDevicesByClients rows s else rows))))
   }"

definition handleDeviceInventory :: "device_deps \<Rightarrow> http_method \<Rightarrow> string \<Rightarrow> device_resp plm" where
  "handleDeviceInventory D m dev =
     (if m \<noteq> GET then plain_answer 405
      else with_device D dev (do {
        h \<leftarrow> GetDeviceHardware (pd_env D) dev;
        (case h of
           Inl e \<Rightarrow> answer_json 500 VFailed
         | Inr hw \<Rightarrow> do {
             p \<leftarrow> GetDeviceSoftware (pd_env D) dev;
             (case p of Inl e \<Rightarrow> answer_json 500 VFailed | Inr sw \<Rightarrow> answer_json 200 (VInventory hw sw))
           })
      }))"

definition handleTriggerInventoryCollect :: "device_deps \<Rightarrow> http_method \<Rightarrow> string \<Rightarrow> device_resp plm" where
  "handleTriggerInventoryCollect D m dev =
     (if m \<noteq> POST then plain_answer 405
      else if \<not> dd_dispatch D then plain_answer 503
      else with_device D dev (do {
        msg \<leftarrow> new_message;
        r \<leftarrow> Dispatch (plane_deps.truncate D) dev CollectInventory msg;
        (case r of Inl e \<Rightarrow> answer_json 500 VFailed | Inr i \<Rightarrow> answer_json 200 (VCommand i dev))
      }))"

text \<open>\<open>limit\<close>: the query parameter, empty when absent.\<close>

definition events_limit :: "string \<Rightarrow> int option" where
  "events_limit limit =
     (if limit = [] then Some 50
      else case ParseInt64 limit of None \<Rightarrow> None | Some n \<Rightarrow> if n \<le> 0 then None else Some n)"

definition deviceEvents :: "device_deps \<Rightarrow> http_method \<Rightarrow> string \<Rightarrow> string \<Rightarrow> string \<Rightarrow> device_resp plm" where
  "deviceEvents D m limit level dev =
     (if m \<noteq> GET then plain_answer 405
      else if \<not> dd_logs D then plain_answer 503
      else case events_limit limit of
        None \<Rightarrow> plain_answer 400
      | Some n \<Rightarrow>
          if ToLower level \<notin> {[], ''debug'', ''info'', ''warn'', ''error''} then plain_answer 400
          else with_device D dev (do {
            r \<leftarrow> RecentLogs (pd_env D) dev n (ToLower level);
            (case r of Inl e \<Rightarrow> plain_answer 500 | Inr rows \<Rightarrow> answer_json 200 (VEvents rows))
          }))"

definition metric_window :: "string \<Rightarrow> duration option" where
  "metric_window r =
     (if r = ''1h'' then Some hour else if r = ''6h'' then Some (6 * hour) else if r = ''24h'' then Some (24 * hour)
      else if r = ''7d'' then Some (7 * 24 * hour) else if r = ''30d'' then Some (30 * 24 * hour) else None)"

definition deviceMetrics :: "device_deps \<Rightarrow> http_method \<Rightarrow> string \<Rightarrow> string \<Rightarrow> device_resp plm" where
  "deviceMetrics D m range1 dev =
     (if m \<noteq> GET then plain_answer 405
      else if \<not> dd_metrics D then plain_answer 503
      else case metric_window (if range1 = [] then ''7d'' else range1) of
        None \<Rightarrow> plain_answer 400
      | Some window \<Rightarrow> with_device D dev (do {
          t \<leftarrow> now (pd_env D);
          r \<leftarrow> NamesSince (pd_env D) dev (t - window);
          (case r of Inl e \<Rightarrow> plain_answer 500 | Inr xs \<Rightarrow> answer_json 200 (VSeries xs))
        }))"

subsection \<open>The device subtree\<close>

text \<open>Everything of a request the subtree reads; each body as its handler decodes it.\<close>

record device_request =
  vq_method :: http_method
  vq_path :: string
  vq_dispatch :: "dispatch_request option"
  vq_bulk :: "bulk_request option"
  vq_tags :: "string list option"
  vq_limit :: string
  vq_level :: string
  vq_range :: string

definition allowed :: "session \<Rightarrow> string list \<Rightarrow> device_resp plm \<Rightarrow> device_resp plm" where
  "allowed s roles h = (if Allows s roles then h else answer_json 403 VForbidden)"

text \<open>
  The tests on the number of parts, in the order of the code. The second test for five parts, with the
  route of \<^verbatim>\<open>inventory/collect\<close>, comes after one that always answers.
\<close>

definition device_routes :: "device_deps \<Rightarrow> (string \<Rightarrow> string \<Rightarrow> device_resp plm) \<Rightarrow> session \<Rightarrow> device_request \<Rightarrow>
    string list \<Rightarrow> device_resp plm" where
  "device_routes D rest s q parts =
     (let dev = parts ! 2 in
      if length parts = 3 then allowed s [''admin'', ''tech''] (patchDeviceTags D (vq_method q) (vq_tags q) dev)
      else if dev = ''bulk'' then
        (if length parts = 4 \<and> parts ! 3 = ''commands''
         then allowed s [''admin'', ''tech''] (bulkCommand D s (vq_method q) (vq_bulk q))
         else plain_answer 404)
      else if length parts = 5 then
        (if parts ! 3 = ''metrics'' \<and> parts ! 4 = ''series'' then rest ''series'' dev else plain_answer 404)
      else if length parts = 5 then
        (if parts ! 3 = ''inventory'' \<and> parts ! 4 = ''collect''
         then allowed s [''admin'', ''tech''] (handleTriggerInventoryCollect D (vq_method q) dev)
         else plain_answer 404)
      else if length parts \<noteq> 4 then plain_answer 404
      else if parts ! 3 = ''commands'' then
        (if vq_method q = GET then deviceCommands D dev
         else allowed s [''admin'', ''tech''] (dispatchCommand D s (vq_method q) (vq_dispatch q) dev))
      else if parts ! 3 = ''export'' then rest ''export'' dev
      else if parts ! 3 = ''events'' then deviceEvents D (vq_method q) (vq_limit q) (vq_level q) dev
      else if parts ! 3 = ''metrics'' then deviceMetrics D (vq_method q) (vq_range q) dev
      else if parts ! 3 = ''inventory'' then handleDeviceInventory D (vq_method q) dev
      else plain_answer 404)"

definition deviceSub :: "device_deps \<Rightarrow> (string \<Rightarrow> string \<Rightarrow> device_resp plm) \<Rightarrow> session \<Rightarrow> device_request \<Rightarrow> device_resp plm" where
  "deviceSub D rest s q =
     (let parts = path_parts (vq_path q) in
      if length parts < 3 \<or> parts ! 1 \<noteq> ''devices'' \<or> parts ! 2 = [] then plain_answer 404
      else if parts ! 2 \<noteq> ''bulk'' \<and> \<not> ss_all s then do {
        r \<leftarrow> dev_Get (pd_env D) (parts ! 2);
        (case r of
           Inl e \<Rightarrow> plain_answer 404
         | Inr d \<Rightarrow>
             if CanSeeClient s (client_or_default d) then device_routes D rest s q parts
             else answer_json 403 VForbidden)
      }
      else device_routes D rest s q parts)"

subsection \<open>Enrolment over HTTP\<close>

definition handleBootstrap :: "device_deps \<Rightarrow> bool \<Rightarrow> http_method \<Rightarrow> device_resp plm" where
  "handleBootstrap D wired m =
     (if m \<noteq> POST then plain_answer 405
      else if \<not> wired then plain_answer 503
      else do {
        (tok, dev) \<leftarrow> MintBootstrapToken (ingest_deps.truncate D);
        answer_json 200 (VBootstrap tok dev)
      })"

definition httpStatusFromGRPC :: "code \<Rightarrow> nat" where
  "httpStatusFromGRPC c =
     (case c of
        InvalidArgument \<Rightarrow> 400
      | Unauthenticated \<Rightarrow> 403
      | PermissionDenied \<Rightarrow> 403
      | Unavailable \<Rightarrow> 503
      | _ \<Rightarrow> 500)"

definition handleAgentEnroll :: "device_deps \<Rightarrow> bool \<Rightarrow> http_method \<Rightarrow> enroll_request option \<Rightarrow> device_resp plm" where
  "handleAgentEnroll D wired m body =
     (if m \<noteq> POST then plain_answer 405
      else if \<not> wired then plain_answer 503
      else case body of
        None \<Rightarrow> plain_answer 400
      | Some q \<Rightarrow> do {
          r \<leftarrow> Enroll (ingest_deps.truncate D) q;
          (case r of
             Inl c \<Rightarrow> answer_json (httpStatusFromGRPC c) VFailed
           | Inr e \<Rightarrow> answer_json 200 (VEnrolled e))
        })"

end
