(* ===== verification/Agent_Files.thy ===== *)
theory Agent_Files
  imports Ingest
begin

section \<open>File transfer on the agent\<close>

text \<open>
  \<^verbatim>\<open>agent/internal/files/files.go\<close>. A pull is a loop over what the reads of the file return; whether the
  k-th send works is a parameter. A push works on a temporary file beside the destination; each system
  call may fail, as its flag says. A file system is a map from paths to contents with their mode.
\<close>

definition MaxChunkBytes :: nat where "MaxChunkBytes = 256 * 1024"
definition MaxPullBytes :: nat where "MaxPullBytes = 256 * 1024 * 1024"

subsection \<open>Pull\<close>

record file_info =
  fi_size :: nat
  fi_mode :: nat
  fi_regular :: bool

datatype read_end = EOF | ReadError

text \<open>One \<^verbatim>\<open>Read\<close>: the bytes, and its error.\<close>

type_synonym file_read = "string \<times> read_end option"

datatype file_err = FStat | FNotRegular | FTooBig | FOpen | FRead | FSend | FNoDir | FTemp | FWrite | FOrder nat nat
  | FFinished | FWrongCommand | FChunkTooBig | FClose | FRename | FChmod | FMode string | FBase64 | FCancelled

definition pull_chunk :: "string \<Rightarrow> file_info \<Rightarrow> nat \<Rightarrow> string \<Rightarrow> bool \<Rightarrow> chunk" where
  "pull_chunk i fi seq data eof =
     \<lparr>ck_cmd = i, ck_seq = seq, ck_data = data, ck_eof = eof, ck_total = int (fi_size fi), ck_mode = fi_mode fi\<rparr>"

text \<open>The loop: the chunks sent, and the size and mode it reports. \<open>None\<close>: the file never ends.\<close>

fun pull_loop :: "string \<Rightarrow> file_info \<Rightarrow> (nat \<Rightarrow> bool) \<Rightarrow> nat \<Rightarrow> file_read list \<Rightarrow>
    (chunk list \<times> (file_err + nat \<times> nat)) option" where
  "pull_loop i fi ok seq [] = None"
| "pull_loop i fi ok seq ((data, e) # rs) =
     (if data \<noteq> [] then
        if e = Some ReadError then Some ([], Inl FRead)
        else
          let c = pull_chunk i fi seq data (e = Some EOF) in
          if \<not> ok seq then Some ([], Inl FSend)
          else if e = Some EOF then Some ([c], Inr (fi_size fi, fi_mode fi))
          else map_option (\<lambda>(cs, r). (c # cs, r)) (pull_loop i fi ok (Suc seq) rs)
      else (case e of
        None \<Rightarrow> pull_loop i fi ok seq rs
      | Some EOF \<Rightarrow>
          let c = (pull_chunk i fi seq [] True)\<lparr>ck_total := 0\<rparr> in
          if \<not> ok seq then Some ([], Inl FSend) else Some ([c], Inr (0, fi_mode fi))
      | Some ReadError \<Rightarrow> Some ([], Inl FRead)))"

definition SendPull :: "string \<Rightarrow> file_info option \<Rightarrow> bool \<Rightarrow> file_read list \<Rightarrow> (nat \<Rightarrow> bool) \<Rightarrow>
    (chunk list \<times> (file_err + nat \<times> nat)) option" where
  "SendPull i stat can_open rs ok =
     (case stat of
        None \<Rightarrow> Some ([], Inl FStat)
      | Some fi \<Rightarrow>
          if \<not> fi_regular fi then Some ([], Inl FNotRegular)
          else if fi_size fi > MaxPullBytes then Some ([], Inl FTooBig)
          else if \<not> can_open then Some ([], Inl FOpen)
          else pull_loop i fi ok 0 rs)"

text \<open>
  What \<^verbatim>\<open>os.File.Read\<close> documents: at the end of the file it returns 0 and \<^verbatim>\<open>io.EOF\<close>; before, some bytes,
  at most the length of the buffer.
\<close>

definition os_reads :: "string \<Rightarrow> file_read list \<Rightarrow> bool" where
  "os_reads content rs \<longleftrightarrow>
     (\<exists>ps. rs = map (\<lambda>p. (p, None)) ps @ [([], Some EOF)] \<and> concat ps = content \<and>
        (\<forall>p\<in>set ps. p \<noteq> [] \<and> length p \<le> MaxChunkBytes))"

subsection \<open>Modes\<close>

fun parse_octal :: "int \<Rightarrow> string \<Rightarrow> int option" where
  "parse_octal n [] = Some n"
| "parse_octal n (c # cs) =
     (let d = int (of_char c) - 48 in
      if d < 0 \<or> d > 7 then None else parse_octal (wrap64 (n * 8 + d)) cs)"

definition parseMode :: "string \<Rightarrow> int option" where
  "parseMode s =
     map_option (\<lambda>n. n mod 2 ^ 32) (parse_octal 0 (if take 2 s = ''0o'' then drop 2 s else s))"

subsection \<open>Push\<close>

type_synonym files = "string \<rightharpoonup> string \<times> int option"

record push_session =
  ps_cmd :: string
  ps_path :: string
  ps_mode :: string
  ps_tmp :: string
  ps_expected :: nat
  ps_size :: nat
  ps_closed :: bool
  ps_err :: "file_err option"
  ps_done :: bool

text \<open>The outcomes of the system calls of one step.\<close>

record calls =
  ok_dir :: bool
  ok_temp :: bool
  ok_write :: bool
  ok_close :: bool
  ok_rename :: bool
  ok_chmod :: bool

definition StartPush :: "calls \<Rightarrow> string \<Rightarrow> string \<Rightarrow> string \<Rightarrow> file_err + push_session" where
  "StartPush C i path mode =
     (if \<not> ok_dir C then Inl FNoDir
      else if \<not> ok_temp C then Inl FTemp
      else Inr \<lparr>ps_cmd = i, ps_path = path, ps_mode = mode, ps_tmp = [], ps_expected = 0, ps_size = 0,
                ps_closed = False, ps_err = None, ps_done = False\<rparr>)"

text \<open>A new file in place has the mode of the temporary file; chmod sets one.\<close>

definition finish_push :: "calls \<Rightarrow> push_session \<Rightarrow> files \<Rightarrow> file_err option \<times> push_session \<times> files" where
  "finish_push C p fs =
     (let p1 = p\<lparr>ps_closed := True, ps_done := True\<rparr> in
      if \<not> ok_close C then (Some FClose, p1\<lparr>ps_err := Some FClose\<rparr>, fs)
      else if \<not> ok_rename C then (Some FRename, p1\<lparr>ps_err := Some FRename\<rparr>, fs)
      else
        let fs1 = fs(ps_path p \<mapsto> (ps_tmp p, None)) in
        if ps_mode p = [] then (None, p1, fs1)
        else (case parseMode (ps_mode p) of
          None \<Rightarrow> (None, p1\<lparr>ps_err := Some (FMode (ps_mode p))\<rparr>, fs1)
        | Some m \<Rightarrow>
            if \<not> ok_chmod C then (Some FChmod, p1\<lparr>ps_err := Some FChmod\<rparr>, fs1)
            else (None, p1, fs(ps_path p \<mapsto> (ps_tmp p, Some m)))))"

definition push_Chunk :: "calls \<Rightarrow> chunk \<Rightarrow> push_session \<Rightarrow> files \<Rightarrow> file_err option \<times> push_session \<times> files" where
  "push_Chunk C c p fs =
     (if ps_closed p then (Some FFinished, p, fs)
      else if ck_cmd c \<noteq> ps_cmd p then (Some FWrongCommand, p, fs)
      else if ck_seq c \<noteq> ps_expected p then (Some (FOrder (ck_seq c) (ps_expected p)), p, fs)
      else if length (ck_data c) > MaxChunkBytes then (Some FChunkTooBig, p, fs)
      else if \<not> ok_write C then (Some FWrite, p, fs)
      else
        let p1 = p\<lparr>ps_tmp := ps_tmp p @ ck_data c, ps_size := ps_size p + length (ck_data c), ps_expected := Suc (ps_expected p)\<rparr> in
        if ck_eof c then finish_push C p1 fs else (None, p1, fs))"

text \<open>\<open>Wait\<close> after the session is done, and when the context ends first.\<close>

definition wait_done :: "push_session \<Rightarrow> file_err + nat" where
  "wait_done p = (case ps_err p of Some e \<Rightarrow> Inl e | None \<Rightarrow> Inr (ps_size p))"

definition wait_cancelled :: "push_session \<Rightarrow> (file_err + nat) \<times> push_session" where
  "wait_cancelled p = (Inl FCancelled, if ps_closed p then p else p\<lparr>ps_closed := True\<rparr>)"

definition Abandon :: "push_session \<Rightarrow> push_session" where
  "Abandon p = (if ps_closed p then p else p\<lparr>ps_closed := True, ps_done := True\<rparr>)"

definition writeContent :: "calls \<Rightarrow> string \<Rightarrow> string \<Rightarrow> string \<Rightarrow> files \<Rightarrow> file_err option \<times> files" where
  "writeContent C path mode content fs =
     (if \<not> ok_temp C then (Some FTemp, fs)
      else if \<not> ok_write C then (Some FWrite, fs)
      else if \<not> ok_close C then (Some FClose, fs)
      else if \<not> ok_rename C then (Some FRename, fs)
      else if mode = [] then (None, fs(path \<mapsto> (content, None)))
      else (case parseMode mode of
        None \<Rightarrow> (Some (FMode mode), fs(path \<mapsto> (content, None)))
      | Some m \<Rightarrow>
          if ok_chmod C then (None, fs(path \<mapsto> (content, Some m))) else (Some FChmod, fs(path \<mapsto> (content, None)))))"

definition InlinePush :: "calls \<Rightarrow> string \<Rightarrow> string \<Rightarrow> string \<Rightarrow> files \<Rightarrow> file_err option \<times> files" where
  "InlinePush C path mode b64 fs =
     (case b64_decode b64 of None \<Rightarrow> (Some FBase64, fs) | Some content \<Rightarrow> writeContent C path mode content fs)"

subsection \<open>What a pull delivers\<close>

lemma pull_loop_reads:
  assumes "\<And>k. ok k" and "\<forall>p\<in>set ps. p \<noteq> []"
  shows "pull_loop i fi ok seq (map (\<lambda>p. (p, None)) ps @ [([], Some EOF)]) =
    Some (map (\<lambda>(k, p). pull_chunk i fi k p False) (enumerate seq ps) @
            [(pull_chunk i fi (seq + length ps) [] True)\<lparr>ck_total := 0\<rparr>], Inr (0, fi_mode fi))"
  using assms(2)
proof (induction ps arbitrary: seq)
  case (Cons p ps)
  then show ?case using assms(1) by (simp add: Let_def)
qed (use assms(1) in simp)

end
