(* ===== verification/Agent.thy ===== *)
theory Agent
  imports Agent_Files
begin

section \<open>The agent: the capability gate, execution and the uplink loop\<close>

text \<open>
  \<^verbatim>\<open>agent/internal/uplink/uplink.go\<close> and \<open>TimeoutFor\<close> and the interpreter table of
  \<^verbatim>\<open>agent/internal/exec/exec.go\<close>. Running a script, the state of the file system calls and the sends of the
  stream are parameters, by the number of the step; what was done to the host is kept in \<open>ag_done\<close>. The
  handlers of inventory and patch commands, which the gate never lets through, are one parameter. Of
  \<^verbatim>\<open>agent/internal/session/session.go\<close> the driver is modelled: which capture loops run, and which one is
  published; what a loop captures and sends is not.
\<close>

subsection \<open>State\<close>

datatype run_end = Ran int | TimedOut | CannotRun string

datatype effect =
    DidRun string string "string list" duration
  | DidReboot
  | DidRead string
  | DidWrite string string
  | DidOther action
  | DidCapture string int
  | DidStopCapture string

text \<open>The screen driver: the published session with its rate and its loop, and the capture loops that run.\<close>

record screen_driver =
  sn_live :: "(string \<times> int \<times> nat) option"
  sn_loops :: "(nat \<times> string \<times> int) list"
  sn_next :: nat

record agent_world = world +
  ag_done :: "effect list"
  ag_reports :: "report list"
  ag_chunks :: "chunk list"
  ag_files :: files
  ag_pushes :: "(string \<times> push_session) list"
  ag_acked :: bool
  ag_jwt :: string
  ag_saved :: "string list"
  ag_screen :: screen_driver

type_synonym 'a agm = "(agent_world, 'a) m"

record agent_deps =
  gd_env :: "agent_world env"
  gd_verifier :: "(jwt_es256 \<times> verifier) option"
  gd_run :: "nat \<Rightarrow> string \<Rightarrow> string \<Rightarrow> string list \<Rightarrow> duration \<Rightarrow> run_end \<times> string \<times> string"
  gd_send :: "nat \<Rightarrow> bool"
  gd_stat :: "nat \<Rightarrow> string \<Rightarrow> file_info option"
  gd_reads :: "nat \<Rightarrow> string \<Rightarrow> file_read list"
  gd_calls :: "nat \<Rightarrow> calls"
  gd_default :: duration
  gd_max :: duration
  gd_other :: "action \<Rightarrow> bool agm"
  gd_screen :: bool

subsection \<open>Timeouts and interpreters\<close>

definition exec_defaults :: "duration \<Rightarrow> duration \<Rightarrow> duration \<times> duration" where
  "exec_defaults dflt cap = (if dflt \<le> 0 then 30 * second else dflt, if cap \<le> 0 then hour else cap)"

definition TimeoutFor :: "duration \<Rightarrow> duration \<Rightarrow> int \<Rightarrow> duration" where
  "TimeoutFor dflt cap s =
     (let (d, m) = exec_defaults dflt cap in if s > 0 then (if s * second > m then m else s * second) else d)"

text \<open>\<open>has\<close>: the program is on the path.\<close>

definition interpreterFor :: "bool \<Rightarrow> (string \<Rightarrow> bool) \<Rightarrow> string \<Rightarrow> (string \<times> string list \<times> string) option" where
  "interpreterFor windows has lang =
     (let ps = [''-NoProfile'', ''-ExecutionPolicy'', ''Bypass'', ''-File''] in
      if lang = ''sh'' then Some (''sh'', [], ''.sh'')
      else if lang = ''powershell'' then
        (if windows then Some (''powershell'', ps, ''.ps1'')
         else if has ''pwsh'' then Some (''pwsh'', ps, ''.ps1'') else None)
      else if lang = ''python'' then
        (if has ''python3'' then Some (''python3'', [], ''.py'')
         else if has ''python'' then Some (''python'', [], ''.py'') else None)
      else None)"

subsection \<open>Reports\<close>

text \<open>The last four kilobytes.\<close>

definition tail_of :: "string \<Rightarrow> string" where
  "tail_of b = (if length b > 4096 then drop (length b - 4096) b else b)"

definition sendResult :: "agent_deps \<Rightarrow> string \<Rightarrow> cmd_status \<Rightarrow> int \<Rightarrow> string \<Rightarrow> string \<Rightarrow> string \<Rightarrow> bool agm" where
  "sendResult D i st exit1 out err1 msg = do {
     t \<leftarrow> now (gd_env D);
     n \<leftarrow> reads tick;
     (if gd_send D n then do {
        _ \<leftarrow> modifies (\<lambda>w. w\<lparr>ag_reports := ag_reports w @
          [\<lparr>rp_cmd = i, rp_status = st, rp_exit = exit1, rp_out = tail_of out, rp_errout = tail_of err1,
            rp_error = msg, rp_completed = unix_ms t\<rparr>]\<rparr>);
        State_Monad.return True
      }
      else State_Monad.return False)
   }"

definition report_only :: "agent_deps \<Rightarrow> string \<Rightarrow> cmd_status \<Rightarrow> string \<Rightarrow> bool agm" where
  "report_only D i st msg = sendResult D i st 0 [] [] msg"

definition did :: "effect \<Rightarrow> unit agm" where
  "did e = modifies (\<lambda>w. w\<lparr>ag_done := ag_done w @ [e]\<rparr>)"

subsection \<open>The commands\<close>

definition runScriptCommand :: "agent_deps \<Rightarrow> command \<Rightarrow> string \<Rightarrow> string \<Rightarrow> string list \<Rightarrow> bool agm" where
  "runScriptCommand D cmd lang b64 args =
     (case b64_decode b64 of
        None \<Rightarrow> report_only D (cm_id cmd) CFailed ''script_b64''
      | Some script \<Rightarrow> do {
          let timeout = TimeoutFor (gd_default D) (gd_max D) (cm_timeout cmd);
          n \<leftarrow> reads tick;
          _ \<leftarrow> did (DidRun lang script args timeout);
          (let (e, out, err1) = gd_run D n lang script args timeout in
           case e of
             TimedOut \<Rightarrow> sendResult D (cm_id cmd) CTimedOut 0 out err1 ''timeout''
           | CannotRun msg \<Rightarrow> sendResult D (cm_id cmd) CFailed 0 out err1 msg
           | Ran x \<Rightarrow>
               if x \<noteq> 0 then sendResult D (cm_id cmd) CFailed x out err1 (''exit code '' @ FormatInt x)
               else sendResult D (cm_id cmd) CSucceeded x out err1 [])
        })"

text \<open>Report first; the delay ends, or the context does (\<open>alive\<close> false).\<close>

definition rebootCommand :: "agent_deps \<Rightarrow> command \<Rightarrow> bool \<Rightarrow> bool agm" where
  "rebootCommand D cmd alive = do {
     ok \<leftarrow> report_only D (cm_id cmd) CSucceeded ''reboot scheduled'';
     (if \<not> ok then State_Monad.return False
      else if \<not> alive then State_Monad.return False
      else do { _ \<leftarrow> did DidReboot; State_Monad.return True })
   }"

definition byte_count :: "nat \<Rightarrow> string" where
  "byte_count n = FormatInt (int n) @ '' bytes''"

definition filePullCommand :: "agent_deps \<Rightarrow> command \<Rightarrow> string \<Rightarrow> bool agm" where
  "filePullCommand D cmd path = do {
     n \<leftarrow> reads tick;
     _ \<leftarrow> did (DidRead path);
     (case SendPull (cm_id cmd) (gd_stat D n path) True (gd_reads D n path) (\<lambda>k. gd_send D (n + k)) of
        None \<Rightarrow> State_Monad.return False
      | Some (cs, r) \<Rightarrow> do {
          _ \<leftarrow> modifies (\<lambda>w. w\<lparr>ag_chunks := ag_chunks w @ cs\<rparr>);
          (case r of
             Inl e \<Rightarrow> report_only D (cm_id cmd) CFailed ''pull failed''
           | Inr (size1, mode) \<Rightarrow> sendResult D (cm_id cmd) CSucceeded 0 (byte_count size1) [] [])
        })
   }"

text \<open>What a command did to the downlink: it returned (going on or ending it), or it waits for chunks.\<close>

datatype command_end = Returned bool | WaitsFor string

definition inline_push :: "agent_deps \<Rightarrow> command \<Rightarrow> string \<Rightarrow> string \<Rightarrow> string \<Rightarrow> bool agm" where
  "inline_push D cmd path b64 mode = do {
     n \<leftarrow> reads tick;
     _ \<leftarrow> did (DidWrite path b64);
     r \<leftarrow> State (\<lambda>w. let (e, fs) = InlinePush (gd_calls D n) path mode b64 (ag_files w) in (e, w\<lparr>ag_files := fs\<rparr>));
     (case r of
        Some e \<Rightarrow> report_only D (cm_id cmd) CFailed ''push failed''
      | None \<Rightarrow> report_only D (cm_id cmd) CSucceeded [])
   }"

definition filePushCommand :: "agent_deps \<Rightarrow> command \<Rightarrow> string \<Rightarrow> string \<Rightarrow> string \<Rightarrow> command_end agm" where
  "filePushCommand D cmd path b64 mode =
     (if b64 \<noteq> [] then do { r \<leftarrow> inline_push D cmd path b64 mode; State_Monad.return (Returned r) }
      else do {
        n \<leftarrow> reads tick;
        (case StartPush (gd_calls D n) (cm_id cmd) path mode of
           Inl e \<Rightarrow> do { r \<leftarrow> report_only D (cm_id cmd) CFailed ''push failed''; State_Monad.return (Returned r) }
         | Inr p \<Rightarrow> do {
             _ \<leftarrow> modifies (\<lambda>w. w\<lparr>ag_pushes := put (cm_id cmd) p (ag_pushes w)\<rparr>);
             State_Monad.return (WaitsFor (cm_id cmd))
           })
      })"

text \<open>When the wait is over: the session is removed and its end reported.\<close>

definition push_finished :: "agent_deps \<Rightarrow> string \<Rightarrow> file_err + nat \<Rightarrow> bool agm" where
  "push_finished D i r = do {
     ok \<leftarrow> (case r of
        Inl e \<Rightarrow> report_only D i CFailed ''push failed''
      | Inr n \<Rightarrow> sendResult D i CSucceeded 0 (byte_count n) [] []);
     _ \<leftarrow> modifies (\<lambda>w. w\<lparr>ag_pushes := del i (ag_pushes w)\<rparr>);
     State_Monad.return ok
   }"

definition run_action :: "agent_deps \<Rightarrow> command \<Rightarrow> bool \<Rightarrow> command_end agm" where
  "run_action D cmd alive =
     (case cm_action cmd of
        Some (RunScript lang b64 args) \<Rightarrow> do { r \<leftarrow> runScriptCommand D cmd lang b64 args; State_Monad.return (Returned r) }
      | Some (Reboot d) \<Rightarrow> do { r \<leftarrow> rebootCommand D cmd alive; State_Monad.return (Returned r) }
      | Some (FilePull path) \<Rightarrow> do { r \<leftarrow> filePullCommand D cmd path; State_Monad.return (Returned r) }
      | Some (FilePush path b64 mode) \<Rightarrow> filePushCommand D cmd path b64 mode
      | Some a \<Rightarrow> do { _ \<leftarrow> did (DidOther a); r \<leftarrow> gd_other D a; State_Monad.return (Returned r) }
      | None \<Rightarrow> State_Monad.return (Returned True))"

text \<open>The gate. Without a verifier (no commander) the command is only logged.\<close>

definition uplink_handleCommand :: "agent_deps \<Rightarrow> command \<Rightarrow> bool \<Rightarrow> command_end agm" where
  "uplink_handleCommand D cmd alive =
     (case gd_verifier D of
        None \<Rightarrow> State_Monad.return (Returned True)
      | Some (J, v) \<Rightarrow>
          (case ForCommand cmd of
             None \<Rightarrow> do {
               _ \<leftarrow> report_only D (cm_id cmd) CUnsupported ''unsupported action type'';
               State_Monad.return (Returned True)
             }
           | Some (cap, token) \<Rightarrow> do {
               t \<leftarrow> now (gd_env D);
               (case cap_Check J v t token cap (cm_id cmd) of
                  Some e \<Rightarrow> do {
                    r \<leftarrow> report_only D (cm_id cmd) CRefused ''capability'';
                    State_Monad.return (Returned r)
                  }
                | None \<Rightarrow> do {
                    ok \<leftarrow> report_only D (cm_id cmd) CReceived [];
                    (if \<not> ok then State_Monad.return (Returned False) else run_action D cmd alive)
                  })
             }))"

subsection \<open>The downlink\<close>

definition applyRenewedJWT :: "string \<Rightarrow> unit agm" where
  "applyRenewedJWT tok = modifies (\<lambda>w.
     if tok = [] then w
     else w\<lparr>ag_jwt := tok, ag_saved := (if tok \<noteq> ag_jwt w then ag_saved w @ [tok] else ag_saved w)\<rparr>)"

definition routeChunk :: "agent_deps \<Rightarrow> chunk \<Rightarrow> unit agm" where
  "routeChunk D c = do {
     n \<leftarrow> reads tick;
     modifies (\<lambda>w. case map_of (ag_pushes w) (ck_cmd c) of
        None \<Rightarrow> w
      | Some p \<Rightarrow> let (e, p', fs) = push_Chunk (gd_calls D n) c p (ag_files w) in
          w\<lparr>ag_pushes := put (ck_cmd c) p' (ag_pushes w), ag_files := fs\<rparr>)
   }"

text \<open>
  Screen sessions. The driver runs one capture loop per published session. A changed rate withdraws the
  published session, stops its loop and starts a loop whose session is not published again. Nothing gives
  the driver an input relay, so mouse and keyboard events have no effect.
\<close>

datatype screen_control =
    ScreenOpen string int
  | ScreenClose string
  | ScreenMouse string int int int int
  | ScreenKey string nat nat

definition clampFPS :: "int \<Rightarrow> int" where
  "clampFPS n = (if n \<le> 0 then 2 else if n > 30 then 30 else n)"

definition stopLoop :: "nat \<Rightarrow> screen_driver \<Rightarrow> screen_driver" where
  "stopLoop k sn = sn\<lparr>sn_loops := filter (\<lambda>l. fst l \<noteq> k) (sn_loops sn)\<rparr>"

definition startLoop :: "bool \<Rightarrow> string \<Rightarrow> int \<Rightarrow> screen_driver \<Rightarrow> screen_driver" where
  "startLoop published s fps sn =
     sn\<lparr>sn_live := (if published then Some (s, fps, sn_next sn) else sn_live sn),
        sn_loops := sn_loops sn @ [(sn_next sn, s, fps)], sn_next := Suc (sn_next sn)\<rparr>"

definition screen_open :: "string \<Rightarrow> int \<Rightarrow> screen_driver \<Rightarrow> effect list \<times> screen_driver" where
  "screen_open s hint sn =
     (let fps = clampFPS hint in
      if s = [] then ([], sn)
      else (case sn_live sn of
         None \<Rightarrow> ([DidCapture s fps], startLoop True s fps sn)
       | Some (s', fps', k) \<Rightarrow>
           if s' = s then
             (if fps' = fps then ([], sn)
              else ([DidStopCapture s, DidCapture s fps],
                    startLoop False s fps (stopLoop k (sn\<lparr>sn_live := None\<rparr>))))
           else ([DidStopCapture s', DidCapture s fps], startLoop True s fps (stopLoop k (sn\<lparr>sn_live := None\<rparr>)))))"

definition screen_close :: "string \<Rightarrow> screen_driver \<Rightarrow> effect list \<times> screen_driver" where
  "screen_close s sn =
     (case sn_live sn of
        None \<Rightarrow> ([], sn)
      | Some (s', fps, k) \<Rightarrow>
          if s = [] \<or> s' = s then ([DidStopCapture s'], stopLoop k (sn\<lparr>sn_live := None\<rparr>)) else ([], sn))"

definition screen_Control :: "screen_control \<Rightarrow> screen_driver \<Rightarrow> effect list \<times> screen_driver" where
  "screen_Control c sn =
     (case c of
        ScreenOpen s hint \<Rightarrow> screen_open s hint sn
      | ScreenClose s \<Rightarrow> screen_close s sn
      | ScreenMouse what x y button wheel \<Rightarrow> ([], sn)
      | ScreenKey what codepoint modifiers \<Rightarrow> ([], sn))"

definition screen_Stop :: "screen_driver \<Rightarrow> screen_driver" where
  "screen_Stop sn = (case sn_live sn of None \<Rightarrow> sn | Some (s, fps, k) \<Rightarrow> stopLoop k (sn\<lparr>sn_live := None\<rparr>))"

text \<open>A loop ends by itself when a frame cannot be sent; the published session stays.\<close>

definition loop_send_failed :: "nat \<Rightarrow> screen_driver \<Rightarrow> screen_driver" where
  "loop_send_failed k sn = stopLoop k sn"

definition sessionControl :: "agent_deps \<Rightarrow> screen_control \<Rightarrow> unit agm" where
  "sessionControl D c =
     (if \<not> gd_screen D then State_Monad.return ()
      else modifies (\<lambda>w. let (es, sn) = screen_Control c (ag_screen w) in
        w\<lparr>ag_done := ag_done w @ es, ag_screen := sn\<rparr>))"

datatype down_frame = FCommand command | FControl screen_control | FChunk chunk | FAck string

text \<open>
  The reader goroutine handles one frame after the other; a command runs in it. The result: the frames
  that are not read, and why it stopped (\<open>None\<close>: it waits for more).
\<close>

datatype stopped = SessionEnded | StuckOn string

fun downlink :: "agent_deps \<Rightarrow> bool \<Rightarrow> down_frame list \<Rightarrow> (down_frame list \<times> stopped option) agm" where
  "downlink D alive [] = State_Monad.return ([], None)"
| "downlink D alive (f # fs) =
     (case f of
        FCommand cmd \<Rightarrow> do {
          h \<leftarrow> uplink_handleCommand D cmd alive;
          (case h of
             WaitsFor i \<Rightarrow> State_Monad.return (fs, Some (StuckOn i))
           | Returned ok \<Rightarrow> if ok then downlink D alive fs else State_Monad.return (fs, Some SessionEnded))
        }
      | FControl c \<Rightarrow> do { _ \<leftarrow> sessionControl D c; downlink D alive fs }
      | FChunk c \<Rightarrow> do { _ \<leftarrow> routeChunk D c; downlink D alive fs }
      | FAck tok \<Rightarrow> do {
          _ \<leftarrow> modifies (\<lambda>w. w\<lparr>ag_acked := True\<rparr>);
          _ \<leftarrow> applyRenewedJWT tok;
          downlink D alive fs
        })"

text \<open>The end of a session abandons the pushes in flight.\<close>

definition abandonAllPushes :: "unit agm" where
  "abandonAllPushes = modifies (\<lambda>w. w\<lparr>ag_pushes := []\<rparr>)"

subsection \<open>The heartbeat loop and reconnection\<close>

text \<open>\<open>withDefaults\<close> of the uplink: heartbeat, metrics, least and greatest backoff.\<close>

record uplink_config =
  uc_beat :: duration
  uc_metric :: duration
  uc_min :: duration
  uc_max :: duration

definition uplink_defaults :: "uplink_config \<Rightarrow> uplink_config" where
  "uplink_defaults c =
     (let beat = (if uc_beat c \<le> 0 then 30 * second else uc_beat c) in
      c\<lparr>uc_beat := beat, uc_metric := (if uc_metric c \<le> 0 then beat else uc_metric c),
        uc_min := (if uc_min c \<le> 0 then second else uc_min c), uc_max := (if uc_max c \<le> 0 then 30 * second else uc_max c)\<rparr>)"

text \<open>
  The wait after a session that ended: \<open>acked\<close> says whether it saw an acknowledgement, \<open>draw\<close> is the
  jitter. The result: the wait, and the backoff of the next round.
\<close>

definition next_wait :: "uplink_config \<Rightarrow> bool \<Rightarrow> duration \<Rightarrow> duration \<Rightarrow> duration \<times> duration" where
  "next_wait c acked backoff draw =
     (let b = (if acked then uc_min c else backoff) in
      (b + draw, if acked then b else min (2 * b) (uc_max c)))"

text \<open>\<^verbatim>\<open>Int63n(backoff/2 + 1)\<close>.\<close>

definition jitter_ok :: "uplink_config \<Rightarrow> bool \<Rightarrow> duration \<Rightarrow> duration \<Rightarrow> bool" where
  "jitter_ok c acked backoff draw \<longleftrightarrow> 0 \<le> draw \<and> draw \<le> (if acked then uc_min c else backoff) div 2"

fun reconnects :: "uplink_config \<Rightarrow> duration \<Rightarrow> (bool \<times> duration) list \<Rightarrow> duration list" where
  "reconnects c backoff [] = []"
| "reconnects c backoff ((acked, draw) # ss) =
     (let (wait, b) = next_wait c acked backoff draw in wait # reconnects c b ss)"

text \<open>
  The heartbeat carries what was collected, also when a part of the collection failed; the flag says
  whether there is something.
\<close>

definition heartbeat_metrics :: "metric_in list option \<Rightarrow> bool \<Rightarrow> metric_in list" where
  "heartbeat_metrics batch failed = (case batch of None \<Rightarrow> [] | Some ms \<Rightarrow> ms)"

end
