(* ===== verification/Plane_Safety.thy ===== *)
theory Plane_Safety
  imports Device_Api Agent
begin

section \<open>Safety of the command plane\<close>

text \<open>
  The registry of streams and what keeps it well formed, whatever the faults and the other goroutines:
  each operation is shown to guarantee two relations, which the locale \<open>history\<close> composes along the
  handlers. Then the token a dispatched command carries, alone and in a bulk dispatch.
\<close>

subsection \<open>The registry of streams\<close>

text \<open>
  A registered link is open and that of its device; an open link is registered; a channel never holds
  more than its capacity.
\<close>

definition links_wf :: "plane_world \<Rightarrow> bool" where
  "links_wf w \<longleftrightarrow>
     distinct (map fst (p_streams w)) \<and>
     (\<forall>dev k. map_of (p_streams w) dev = Some k \<longrightarrow>
        k < length (p_links w) \<and> lk_dev (p_links w ! k) = dev \<and> \<not> lk_closed (p_links w ! k)) \<and>
     (\<forall>k < length (p_links w). \<not> lk_closed (p_links w ! k) \<longrightarrow>
        map_of (p_streams w) (lk_dev (p_links w ! k)) = Some k) \<and>
     (\<forall>l \<in> set (p_links w). length (lk_buf l) \<le> link_capacity)"

definition keeps_links :: "plane_world \<Rightarrow> plane_world \<Rightarrow> bool" where
  "keeps_links w w' \<longleftrightarrow> (links_wf w \<longrightarrow> links_wf w')"

definition no_panic :: "plane_world \<Rightarrow> plane_world \<Rightarrow> bool" where
  "no_panic w w' \<longleftrightarrow> (links_wf w \<and> \<not> p_crashed w \<longrightarrow> links_wf w' \<and> \<not> p_crashed w')"

text \<open>Both relations look only at the streams, the links and the flag.\<close>

definition same_links :: "plane_world \<Rightarrow> plane_world \<Rightarrow> bool" where
  "same_links w w' \<longleftrightarrow> p_streams w' = p_streams w \<and> p_links w' = p_links w \<and> p_crashed w' = p_crashed w"

lemma links_wf_cong: "same_links w w' \<Longrightarrow> links_wf w' = links_wf w"
  by (simp add: same_links_def links_wf_def)

lemma same_keeps: "same_links w w' \<Longrightarrow> keeps_links w w'"
  by (simp add: keeps_links_def links_wf_cong)

lemma same_no_panic: "same_links w w' \<Longrightarrow> no_panic w w'"
  by (simp add: no_panic_def links_wf_cong) (simp add: same_links_def)

lemma links_wfD:
  assumes "links_wf w"
  shows "map_of (p_streams w) dev = Some k \<Longrightarrow> k < length (p_links w)"
    "map_of (p_streams w) dev = Some k \<Longrightarrow> lk_dev (p_links w ! k) = dev"
    "map_of (p_streams w) dev = Some k \<Longrightarrow> \<not> lk_closed (p_links w ! k)"
    "k < length (p_links w) \<Longrightarrow> \<not> lk_closed (p_links w ! k) \<Longrightarrow> map_of (p_streams w) (lk_dev (p_links w ! k)) = Some k"
    "distinct (map fst (p_streams w))"
    "k < length (p_links w) \<Longrightarrow> length (lk_buf (p_links w ! k)) \<le> link_capacity"
  using assms by (auto simp: links_wf_def)

lemma update_link_simps [simp]:
  "p_streams (update_link k f w) = p_streams w" "p_crashed (update_link k f w) = p_crashed w"
  "length (p_links (update_link k f w)) = length (p_links w)"
  by (simp_all add: update_link_def)

lemma update_link_nth:
  "j < length (p_links w) \<Longrightarrow> p_links (update_link k f w) ! j = (if j = k then f (p_links w ! j) else p_links w ! j)"
  by (simp add: update_link_def)

text \<open>An update of a link that leaves its device and its end alone.\<close>

lemma links_wf_update:
  assumes wf: "links_wf w"
    and f: "\<And>l. lk_dev (f l) = lk_dev l" "\<And>l. lk_closed (f l) = lk_closed l"
      "k < length (p_links w) \<Longrightarrow> length (lk_buf (f (p_links w ! k))) \<le> link_capacity"
  shows "links_wf (update_link k f w)"
proof -
  have len: "length (lk_buf l) \<le> link_capacity" if "l \<in> set (p_links (update_link k f w))" for l
    using that links_wfD(6) [OF wf] f(3) by (auto simp: in_set_conv_nth update_link_nth)
  show ?thesis
    unfolding links_wf_def
    using links_wfD [OF wf] len by (auto simp: update_link_nth f)
qed

lemma try_send_keeps: "keeps_links w (snd (try_send k x w))"
proof (cases "lk_closed (p_links w ! k) \<or> length (lk_buf (p_links w ! k)) \<ge> link_capacity")
  case True
  then show ?thesis by (auto simp: try_send_def Let_def keeps_links_def links_wf_def)
next
  case False
  then show ?thesis
    by (auto simp: try_send_def Let_def keeps_links_def intro!: links_wf_update)
qed

lemma try_send_no_panic: "\<not> lk_closed (p_links w ! k) \<Longrightarrow> no_panic w (snd (try_send k x w))"
  using try_send_keeps [of w k x] by (auto simp: no_panic_def keeps_links_def try_send_def Let_def split: if_splits)

text \<open>In the form in which they are used.\<close>

lemmas try_send_wf = try_send_keeps [unfolded keeps_links_def, rule_format]
  and try_send_quiet = try_send_no_panic [unfolded no_panic_def, rule_format]

lemma push_no_panic: "guarantees no_panic (push_down dev x)"
proof (rule guaranteesI)
  fix w
  show "no_panic w (snd (run_state (push_down dev x) w))"
    using links_wfD(3) [of w dev] try_send_no_panic [of w _ x]
    by (cases "map_of (p_streams w) dev") (auto simp: push_down_def no_panic_def)
qed

lemma push_keeps: "guarantees keeps_links (push_down dev x)"
  by (rule guaranteesI) (auto simp: push_down_def keeps_links_def try_send_wf split: option.split)

lemma pump_same: "guarantees keeps_links (pump k sent)" "guarantees no_panic (pump k sent)"
proof -
  have wf: "links_wf (snd (run_state (pump k sent) w))" if "links_wf w" for w
    using that links_wfD(6) [OF that, of k]
    by (auto simp: pump_def Let_def split: list.split intro!: links_wf_update)
  have quiet: "p_crashed (snd (run_state (pump k sent) w)) = p_crashed w" for w
    by (auto simp: pump_def Let_def split: list.split)
  show "guarantees keeps_links (pump k sent)" by (rule guaranteesI) (simp add: keeps_links_def wf)
  show "guarantees no_panic (pump k sent)" by (rule guaranteesI) (simp add: no_panic_def wf quiet)
qed

text \<open>Superseding and ending a stream.\<close>

definition fresh_link :: "string \<Rightarrow> link" where
  "fresh_link dev = \<lparr>lk_dev = dev, lk_buf = [], lk_closed = False, lk_cancelled = False, lk_pump_done = False\<rparr>"

lemma open_link_wf:
  assumes wf: "links_wf w"
  shows "links_wf (snd (open_link dev w)) \<and> p_crashed (snd (open_link dev w)) = p_crashed w"
proof (cases "map_of (p_streams w) dev")
  case None
  have "\<And>j. j < length (p_links w) \<Longrightarrow> \<not> lk_closed (p_links w ! j) \<Longrightarrow> lk_dev (p_links w ! j) \<noteq> dev"
    using links_wfD(4) [OF wf] None by force
  with None wf show ?thesis
    by (auto simp: open_link_def Let_def links_wf_def less_Suc_eq nth_append)
next
  case (Some k)
  let ?w1 = "update_link k (\<lambda>l. l\<lparr>lk_closed := True, lk_cancelled := True\<rparr>) w"
  have k: "k < length (p_links w)" "lk_dev (p_links w ! k) = dev" "\<not> lk_closed (p_links w ! k)"
    using links_wfD(1-3) [OF wf Some] by auto
  have other: "map_of (p_streams w) d = Some j \<Longrightarrow> d \<noteq> dev \<Longrightarrow> j \<noteq> k" for d j
    using links_wfD(2) [OF wf, of d j] k by auto
  have only: "j < length (p_links w) \<Longrightarrow> j \<noteq> k \<Longrightarrow> lk_dev (p_links w ! j) = dev \<Longrightarrow> lk_closed (p_links w ! j)" for j
    using links_wfD(4) [OF wf, of j] Some by auto
  have bufs: "length (lk_buf l) \<le> link_capacity" if "l \<in> set (p_links ?w1)" for l
    using that links_wfD(6) [OF wf] by (auto simp: in_set_conv_nth update_link_nth)
  have eq: "snd (open_link dev w) = ?w1\<lparr>p_links := p_links ?w1 @ [fresh_link dev],
      p_streams := put dev (length (p_links ?w1)) (p_streams ?w1)\<rparr>"
    using Some k by (simp add: open_link_def Let_def fresh_link_def)
  have "links_wf (snd (open_link dev w))"
    unfolding eq links_wf_def
    using links_wfD(1-5) [OF wf] other only bufs
    by (auto simp: update_link_nth nth_append less_Suc_eq fresh_link_def split: if_splits)
  then show ?thesis by (simp add: eq)
qed

lemma close_link_wf:
  assumes wf: "links_wf w"
  shows "links_wf (snd (close_link dev k w)) \<and> p_crashed (snd (close_link dev k w)) = p_crashed w"
proof -
  let ?w1 = "update_link k (\<lambda>l. l\<lparr>lk_cancelled := True\<rparr>) w"
  have wf1: "links_wf ?w1" using links_wfD(6) [OF wf] by (intro links_wf_update [OF wf]) auto
  show ?thesis
  proof (cases "map_of (p_streams w) dev = Some k")
    case False
    then show ?thesis using wf1 by (simp add: close_link_def Let_def)
  next
    case True
    have k: "k < length (p_links w)" "lk_dev (p_links w ! k) = dev" "\<not> lk_closed (p_links w ! k)"
      using links_wfD(1-3) [OF wf True] by auto
    let ?w2 = "update_link k (\<lambda>l. l\<lparr>lk_closed := True\<rparr>) ?w1"
    have eq: "snd (close_link dev k w) = ?w2\<lparr>p_streams := del dev (p_streams ?w2)\<rparr>"
      using True k by (simp add: close_link_def Let_def update_link_nth)
    have other: "map_of (p_streams w) d = Some j \<Longrightarrow> d \<noteq> dev \<Longrightarrow> j \<noteq> k" for d j
      using links_wfD(2) [OF wf, of d j] k by auto
    have only: "j < length (p_links w) \<Longrightarrow> j \<noteq> k \<Longrightarrow> lk_dev (p_links w ! j) = dev \<Longrightarrow> lk_closed (p_links w ! j)" for j
      using links_wfD(4) [OF wf, of j] True by auto
    have bufs: "length (lk_buf l) \<le> link_capacity" if "l \<in> set (p_links ?w2)" for l
      using that links_wfD(6) [OF wf] by (auto simp: in_set_conv_nth update_link_nth)
    have "links_wf (snd (close_link dev k w))"
      unfolding eq links_wf_def
      using links_wfD(1-5) [OF wf] other only bufs by (auto simp: update_link_nth split: if_splits)
    then show ?thesis by (simp add: eq)
  qed
qed

subsection \<open>What keeps the registry\<close>

named_theorems links_alone \<open>statements that leave the links alone\<close>

lemma same_links_simps [links_alone]:
  "same_links w (w\<lparr>dev_rows := a\<rparr>)" "same_links w (w\<lparr>hw_rows := b\<rparr>)" "same_links w (w\<lparr>sw_rows := c\<rparr>)"
  "same_links w (w\<lparr>metric_rows := d\<rparr>)" "same_links w (w\<lparr>log_rows := e\<rparr>)" "same_links w w"
  "same_links w (w\<lparr>p_events := f\<rparr>)" "same_links w (w\<lparr>p_tokens := g\<rparr>)" "same_links w (w\<lparr>p_signed := h\<rparr>)"
  "same_links w (w\<lparr>p_reports := i, p_pending := j\<rparr>)" "same_links w (w\<lparr>p_pending := j, p_owner := k\<rparr>)"
  "same_links w (w\<lparr>p_seq := l, p_pending := j, p_owner := k\<rparr>)" "same_links w (w\<lparr>p_boot := m, p_spent := n\<rparr>)"
  "same_links w (w\<lparr>p_spent := n\<rparr>)" "same_links w (w\<lparr>p_draws := q, p_boot := m\<rparr>)"
  by (simp_all add: same_links_def)

lemma statements_alone [links_alone]:
  "same_links w (snd (register_stmt i host os arch ver ifaces beat metric t w))"
  "same_links w (snd (update_dev_stmt i g w))" "same_links w (snd (sweep_stmt t w))"
  "same_links w (snd (save_hw_stmt i h w))" "same_links w (snd (delete_sw_stmt i w))"
  "same_links w (snd (insert_sw_stmt i p w))" "same_links w (snd (insert_metrics_stmt dev rs w))"
  "same_links w (snd (insert_log_stmt r w))" "same_links w (snd (claim_token t t' tok w))"
  by (simp_all add: register_stmt_def update_dev_stmt_def sweep_stmt_def save_hw_stmt_def delete_sw_stmt_def
      insert_sw_stmt_def insert_metrics_stmt_def insert_log_stmt_def claim_token_def links_alone
      split: option.split)

text \<open>
  What both relations have in common; the guarantee of a handler is proved once, from these laws.
\<close>

locale link_relation = history R for R :: "plane_world \<Rightarrow> plane_world \<Rightarrow> bool" +
  assumes alone: "same_links w w' \<Longrightarrow> R w w'"
    and pushes [guarantee]: "guarantees R (push_down dev x)"
    and opens: "R w (snd (open_link dev w))"
    and closes: "R w (snd (close_link dev k w))"
    and pumps [guarantee]: "guarantees R (pump k sent)"
begin

lemma alone_exec: "rely R E \<Longrightarrow> (\<And>w. same_links w (snd (stmt w))) \<Longrightarrow> guarantees R (exec E stmt)"
  by (rule exec) (auto intro: alone)

lemma alone_tx_exec: "(\<And>w. same_links w (snd (stmt w))) \<Longrightarrow> guarantees R (tx_exec E stmt)"
  by (rule tx_exec) (auto intro: alone)

lemma alone_modifies: "(\<And>w. same_links w (f w)) \<Longrightarrow> guarantees R (modifies f)"
  by (rule guaranteesI) (auto intro: alone)

lemma alone_State: "(\<And>w. same_links w (snd (f w))) \<Longrightarrow> guarantees R (State f)"
  by (rule guaranteesI) (auto intro: alone)

lemma registry:
  assumes "rely R E"
  shows "guarantees R (dev_Contains E dev)" "guarantees R (dev_Touch E dev)" "guarantees R (dev_Get E dev)"
    "guarantees R (dev_List E)"
    "guarantees R (dev_Register E i host os arch ver ifaces beat metric)"
    "guarantees R (write_metrics E dev ms)" "guarantees R (SaveDeviceHardware E dev hm)"
  unfolding dev_Contains_def dev_Touch_def dev_Get_def dev_List_def dev_ListByClient_def dev_Register_def
    write_metrics_def SaveDeviceHardware_def
  using assms by (auto intro!: guarantee return bind query now alone_exec guarantees_if guarantees_sum simp: links_alone)

lemma software:
  assumes "rely R E"
  shows "guarantees R (SaveDeviceSoftware E dev ps)"
proof -
  have "guarantees R (insert_packages E dev ps)"
    by (induction ps) (auto intro!: return bind guarantees_sum alone_tx_exec simp: links_alone)
  then show ?thesis
    unfolding SaveDeviceSoftware_def save_software_tx_def
    using assms by (auto intro!: transaction return bind guarantees_sum alone_tx_exec simp: links_alone)
qed

lemma logs:
  assumes "rely R E"
  shows "guarantees R (write_logs E dev es)"
proof -
  have "guarantees R (insert_logs E dev es)"
    by (induction es) (auto intro!: return bind guarantees_sum alone_tx_exec guarantees_if simp: links_alone)
  then show ?thesis
    unfolding write_logs_def
    using assms by (auto intro!: transaction return bind guarantees_sum guarantees_if)
qed

lemma stream:
  assumes "rely R (pd_env D)"
  shows "guarantees R (authenticate D md)" "guarantees R (open_stream D md)" "guarantees R (end_stream dev k)"
    "guarantees R (renewal D dev tok)"
proof -
  note rules = return bind guarantees_sum guarantees_if guarantees_option guarantees_prod now registry
    alone_modifies guarantees_Let
  show auth: "guarantees R (authenticate D md)"
    unfolding authenticate_def known_device_def using assms by (auto intro!: rules)
  have "guarantees R (State (open_link dev))" for dev by (rule guaranteesI) (simp add: opens)
  with auth show "guarantees R (open_stream D md)"
    unfolding open_stream_def emitDevice_def using assms by (auto intro!: rules simp: links_alone)
  have "guarantees R (State (close_link dev k))" for dev by (rule guaranteesI) (simp add: closes)
  then show "guarantees R (end_stream dev k)"
    unfolding end_stream_def emitDevice_def by (auto intro!: rules simp: links_alone)
  show "guarantees R (renewal D dev tok)"
    unfolding renewal_def mintJWT_def by (auto intro!: rules)
qed

lemma dispatch:
  assumes "rely R (pd_env D)"
  shows "guarantees R (Dispatch D dev a r)" "guarantees R (DispatchWith D dev tok a r)"
proof -
  have "guarantees R (dispatch_order D dev a r x)" for x
    unfolding dispatch_order_def register_order_def other_goroutines_def dispatch_token_def mint_token_def
      stamp_token_def forget_order_def Push_def
    using assms
    by (auto intro!: return bind guarantees_if guarantees_option guarantees_prod now ask alone_State alone_modifies
        pushes simp: links_alone Let_def)
  then show "guarantees R (Dispatch D dev a r)" "guarantees R (DispatchWith D dev tok a r)"
    by (simp_all add: Dispatch_def DispatchWith_def)
qed

lemma bulk:
  assumes "rely R (pd_env D)"
  shows "guarantees R (bulk_loop D a devs acc)"
proof -
  have E: "pd_env (plane_deps.truncate D) = pd_env D" by (simp add: plane_deps.defs)
  have "guarantees R new_message"
    unfolding new_message_def by (rule alone_State) (simp add: links_alone)
  then show ?thesis
    using assms by (induction devs arbitrary: acc) (auto intro!: return bind dispatch simp: E)
qed

text \<open>Every frame but the heartbeat, whose acknowledgement is sent on the stream's own channel.\<close>

lemma frames:
  assumes "rely R (pd_env D)"
    and "\<And>r. guarantees R (sh_final H r)" "\<And>f. guarantees R (sh_frame H dev f)" "\<And>c. guarantees R (sh_chunk H dev c)"
    and "\<And>ms. fr \<noteq> UHeartbeat ms"
  shows "guarantees R (recv_frame D H dev tok k pick fr)"
proof -
  have inv: "guarantees R (handleInventoryReport D dev r)" for r
    unfolding handleInventoryReport_def using assms(1)
    by (auto intro!: return bind guarantees_sum guarantees_if guarantees_option registry software)
  have res: "guarantees R (record_report H r)" for r
    unfolding record_report_def RecordResult_def using assms(2)
    by (auto intro!: return bind guarantees_if alone_modifies simp: links_alone)
  show ?thesis
    unfolding recv_frame_def go_on_def
    using assms inv res by (cases fr) (auto intro!: return bind registry logs)
qed

end

subsection \<open>The relations of the registry\<close>

lemma tick_same: "same_links w (w\<lparr>tick := n\<rparr>)"
  by (simp add: same_links_def)

interpretation kl: link_relation keeps_links
proof unfold_locales
  show "keeps_links w (w\<lparr>tick := n\<rparr>)" for w n by (rule same_keeps [OF tick_same])
  show "keeps_links u v \<Longrightarrow> keeps_links v w \<Longrightarrow> keeps_links u w" for u v w by (simp add: keeps_links_def)
  show "same_links w w' \<Longrightarrow> keeps_links w w'" for w w' by (rule same_keeps)
  show "keeps_links w (snd (open_link dev w))" for w dev by (simp add: keeps_links_def open_link_wf)
  show "keeps_links w (snd (close_link dev k w))" for w dev k by (simp add: keeps_links_def close_link_wf)
qed (rule push_keeps pump_same)+

interpretation np: link_relation no_panic
proof unfold_locales
  show "no_panic w (w\<lparr>tick := n\<rparr>)" for w n by (rule same_no_panic [OF tick_same])
  show "no_panic u v \<Longrightarrow> no_panic v w \<Longrightarrow> no_panic u w" for u v w by (simp add: no_panic_def)
  show "same_links w w' \<Longrightarrow> no_panic w w'" for w w' by (rule same_no_panic)
  show "no_panic w (snd (open_link dev w))" for w dev by (simp add: no_panic_def open_link_wf)
  show "no_panic w (snd (close_link dev k w))" for w dev k by (simp add: no_panic_def close_link_wf)
qed (rule push_no_panic pump_same)+

subsection \<open>Operations of the command plane\<close>

text \<open>What happens to the streams, one operation after the other; in between, the other goroutines.\<close>

datatype plane_op =
    OOpen "string list" | OEnd string nat | OPump nat bool | OFrame string string nat ready up
  | ODispatch string action | OBulk action "string list" | OControl string control

fun serve_op :: "device_deps \<Rightarrow> plane_op \<Rightarrow> unit plm" where
  "serve_op D (OOpen md) = do { _ \<leftarrow> open_stream (ingest_deps.truncate D) md; State_Monad.return () }"
| "serve_op D (OEnd dev k) = end_stream dev k"
| "serve_op D (OPump k sent) = do { _ \<leftarrow> pump k sent; State_Monad.return () }"
| "serve_op D (OFrame dev tok k pick fr) = do {
     _ \<leftarrow> recv_frame (ingest_deps.truncate D) (relay_hooks (plane_deps.truncate D) (\<lambda>r. State_Monad.return ()))
           dev tok k pick fr;
     State_Monad.return ()
   }"
| "serve_op D (ODispatch dev a) = do {
     r \<leftarrow> new_message;
     _ \<leftarrow> Dispatch (plane_deps.truncate D) dev a r;
     State_Monad.return ()
   }"
| "serve_op D (OBulk a devs) = do {
     _ \<leftarrow> bulk_loop D a devs \<lparr>br_pushed = [], br_offline = [], br_failed = []\<rparr>;
     State_Monad.return ()
   }"
| "serve_op D (OControl dev c) = do { _ \<leftarrow> SendSessionControl dev c; State_Monad.return () }"

fun serve_ops :: "device_deps \<Rightarrow> plane_op list \<Rightarrow> unit plm" where
  "serve_ops D [] = State_Monad.return ()"
| "serve_ops D (x # xs) = do { _ \<leftarrow> serve_op D x; serve_ops D xs }"

text \<open>A heartbeat whose acknowledgement is sent on the channel of its stream.\<close>

fun acknowledges :: "plane_op \<Rightarrow> bool" where
  "acknowledges (OFrame dev tok k ReadySend (UHeartbeat ms)) = True"
| "acknowledges _ = False"

context link_relation
begin

lemma relay_frames:
  assumes "rely R (pd_env D)"
  shows "guarantees R (OnFrame D dev f)" "guarantees R (OnChunk dev c)"
proof -
  show "guarantees R (OnFrame D dev f)"
    unfolding OnFrame_def other_goroutines_def put_screen_def offer_to_def using assms
    by (auto intro!: return bind ask alone_State alone_modifies simp: Let_def same_links_def)
  show "guarantees R (OnChunk dev c)"
    unfolding OnChunk_def by (rule alone_modifies) (simp add: same_links_def split: option.split)
qed

lemma serve_quiet:
  assumes "rely R (pd_env D)" and "\<And>dev tok k pick ms. x \<noteq> OFrame dev tok k pick (UHeartbeat ms)"
  shows "guarantees R (serve_op D x)"
proof -
  have T: "rely R (pd_env (plane_deps.truncate D))" "rely R (pd_env (ingest_deps.truncate D))"
    using assms(1) by (simp_all add: plane_deps.defs ingest_deps.defs)
  show ?thesis
  proof (cases x)
    case (OFrame dev tok k pick fr)
    show ?thesis
      unfolding OFrame serve_op.simps relay_hooks_def
      using assms relay_frames [OF T(1)] T(2) by (intro bind return frames) (auto simp: OFrame intro: return)
  next
    case (ODispatch dev a)
    show ?thesis
      unfolding ODispatch serve_op.simps new_message_def
      by (intro bind return dispatch T alone_State) (simp add: links_alone)
  qed (use assms(1) T in \<open>auto intro!: bind return stream pumps pushes bulk simp: SendSessionControl_def\<close>)
qed

lemma before_ack:
  assumes "rely R (pd_env D)" and "\<And>j. guarantees R (send_ack k j pick)"
  shows "guarantees R (serve_op D (OFrame dev tok k pick (UHeartbeat ms)))"
proof -
  have T: "rely R (pd_env (ingest_deps.truncate D))" using assms(1) by (simp add: ingest_deps.defs)
  show ?thesis
    unfolding serve_op.simps recv_frame_def up.case heartbeat_def
    by (intro bind return registry stream T assms(2))
qed

end

lemma ack_keeps: "guarantees keeps_links (send_ack k j pick)"
  by (rule guaranteesI) (auto simp: send_ack_def try_send_keeps keeps_links_def Let_def split: ready.split intro: try_send_wf)

lemma ack_no_panic: "pick \<noteq> ReadySend \<Longrightarrow> guarantees no_panic (send_ack k j pick)"
  by (rule guaranteesI) (auto simp: send_ack_def no_panic_def split: ready.split)

lemma serve_keeps: "rely keeps_links (pd_env D) \<Longrightarrow> guarantees keeps_links (serve_op D x)"
proof -
  assume D: "rely keeps_links (pd_env D)"
  show ?thesis
  proof (cases "\<exists>dev tok k pick ms. x = OFrame dev tok k pick (UHeartbeat ms)")
    case True
    then show ?thesis using kl.before_ack [OF D ack_keeps] by blast
  next
    case False
    then show ?thesis by (intro kl.serve_quiet [OF D]) blast
  qed
qed

lemma serve_no_panic: "rely no_panic (pd_env D) \<Longrightarrow> \<not> acknowledges x \<Longrightarrow> guarantees no_panic (serve_op D x)"
proof -
  assume D: "rely no_panic (pd_env D)" and x: "\<not> acknowledges x"
  show ?thesis
  proof (cases "\<exists>dev tok k pick ms. x = OFrame dev tok k pick (UHeartbeat ms)")
    case True
    then obtain dev tok k pick ms where eq: "x = OFrame dev tok k pick (UHeartbeat ms)" by blast
    with x have "pick \<noteq> ReadySend" by (cases pick) auto
    then show ?thesis unfolding eq by (intro np.before_ack [OF D] ack_no_panic)
  next
    case False
    then show ?thesis by (intro np.serve_quiet [OF D]) blast
  qed
qed

lemma serve_all_wf:
  assumes "rely keeps_links (pd_env D)" "rely no_panic (pd_env D)" "links_wf w"
  shows "links_wf (snd (run_state (serve_ops D xs) w)) \<and>
    (list_all (\<lambda>x. \<not> acknowledges x) xs \<and> \<not> p_crashed w \<longrightarrow> \<not> p_crashed (snd (run_state (serve_ops D xs) w)))"
  using assms(3)
proof (induction xs arbitrary: w)
  case (Cons x xs)
  let ?w1 = "snd (run_state (serve_op D x) w)"
  have "links_wf ?w1" using guaranteesD [OF serve_keeps [OF assms(1)], of w x] Cons.prems by (simp add: keeps_links_def)
  moreover have "\<not> acknowledges x \<Longrightarrow> \<not> p_crashed w \<Longrightarrow> \<not> p_crashed ?w1"
    using guaranteesD [OF serve_no_panic [OF assms(2)], of x w] Cons.prems by (simp add: no_panic_def)
  ultimately show ?case using Cons.IH [of ?w1] by simp
qed simp

subsection \<open>The token of a dispatched command\<close>

lemma undisturbedD [simp]: "undisturbed E \<Longrightarrow> others E n w = w"
  by (simp add: undisturbed_def)

text \<open>
  A queued command of a device with a token minted for that device, the capability of its action and its
  id. The instant is when it was minted.
\<close>

definition carries :: "jwt_es256 \<Rightarrow> duration \<Rightarrow> string \<Rightarrow> action \<Rightarrow> string \<Rightarrow> string \<Rightarrow> plane_world \<Rightarrow> bool" where
  "carries J ttl anchor a dev i w \<longleftrightarrow>
     (\<exists>k o1 n t cap. map_of (p_streams w) dev = Some k \<and> DCommand o1 \<in> set (lk_buf (p_links w ! k)) \<and>
        od_id o1 = i \<and> od_action o1 = a \<and> od_ref o1 < length (p_tokens w) \<and> ForAction a = Some cap \<and>
        Mint J anchor ttl n t dev cap i = Some (p_tokens w ! od_ref o1))"

text \<open>Later worlds of a loop that only adds messages and commands.\<close>

definition grows :: "plane_world \<Rightarrow> plane_world \<Rightarrow> bool" where
  "grows w w' \<longleftrightarrow>
     p_streams w' = p_streams w \<and> p_anchor w' = p_anchor w \<and> length (p_tokens w) \<le> length (p_tokens w') \<and>
     (\<forall>r < length (p_tokens w). p_tokens w' ! r = p_tokens w ! r) \<and>
     (\<forall>k. set (lk_buf (p_links w ! k)) \<subseteq> set (lk_buf (p_links w' ! k)))"

lemma grows_refl: "grows w w"
  by (simp add: grows_def)

lemma grows_trans: "grows u v \<Longrightarrow> grows v w \<Longrightarrow> grows u w"
  by (fastforce simp: grows_def)

lemma carries_grows: "carries J ttl anchor a dev i w \<Longrightarrow> grows w w' \<Longrightarrow> carries J ttl anchor a dev i w'"
  unfolding carries_def grows_def by (metis order_less_le_trans subsetD)

lemma try_send_simps:
  "p_streams (snd (try_send k x w)) = p_streams w" "p_anchor (snd (try_send k x w)) = p_anchor w"
  "p_tokens (snd (try_send k x w)) = p_tokens w"
  "set (lk_buf (p_links w ! j)) \<subseteq> set (lk_buf (p_links (snd (try_send k x w)) ! j))"
  by (auto simp: try_send_def Let_def update_link_def nth_list_update split: if_splits)

lemma try_send_queued:
  "fst (try_send k x w) \<Longrightarrow> k < length (p_links w) \<Longrightarrow> x \<in> set (lk_buf (p_links (snd (try_send k x w)) ! k))"
  by (auto simp: try_send_def Let_def update_link_def split: if_splits)

lemma run_State [simp]: "run_state (State f) w = f w"
  by simp

lemma run_other [simp]: "undisturbed (pd_env D) \<Longrightarrow> run_state (other_goroutines D) w = ((), w\<lparr>tick := Suc (tick w)\<rparr>)"
  by (simp add: other_goroutines_def)

lemma register_simps [simp]:
  "p_streams (snd (run_state (register_order dev ms a r) w)) = p_streams w"
  "p_anchor (snd (run_state (register_order dev ms a r) w)) = p_anchor w"
  "p_tokens (snd (run_state (register_order dev ms a r) w)) = p_tokens w"
  "p_links (snd (run_state (register_order dev ms a r) w)) = p_links w"
  "p_signed (snd (run_state (register_order dev ms a r) w)) = p_signed w"
  "od_action (fst (run_state (register_order dev ms a r) w)) = a"
  "od_ref (fst (run_state (register_order dev ms a r) w)) = r"
  by (simp_all add: register_order_def Let_def)

text \<open>A dispatch, from the world after the command was registered.\<close>

lemma Dispatch_run:
  assumes E: "undisturbed (pd_env D)" and caps: "pd_caps D = Some (J, ttl)" and a: "ForAction a = Some cap"
  shows "run_state (Dispatch D dev a r) w =
    (let reg = run_state (register_order dev (clock (pd_env D) (tick w) div 1000000) a r) (w\<lparr>tick := Suc (tick w)\<rparr>);
         o1 = fst reg; w2 = (snd reg)\<lparr>p_signed := Suc (p_signed w), tick := Suc (Suc (tick (snd reg)))\<rparr> in
     case Mint J (p_anchor w) ttl (p_signed w) (clock (pd_env D) (Suc (tick (snd reg)))) dev cap (od_id o1) of
       None \<Rightarrow> (Inl DMint, w2)
     | Some tok \<Rightarrow>
         (let w3 = w2\<lparr>p_tokens := (p_tokens w)[r := tok], tick := Suc (tick w2)\<rparr>;
              w4 = snd (run_state (Push dev o1) w3) in
          if fst (run_state (Push dev o1) w3) then (Inr (od_id o1), w4)
          else (Inl DUnreachable, snd (run_state (forget_order (od_id o1)) (w4\<lparr>tick := Suc (tick w4)\<rparr>)))))"
  by (auto simp: Dispatch_def dispatch_order_def a E caps dispatch_token_def mint_token_def
      stamp_token_def forget_order_def Let_def split: option.split)

lemma Push_simps [simp]:
  "p_streams (snd (run_state (Push dev o1) w)) = p_streams w"
  "p_anchor (snd (run_state (Push dev o1) w)) = p_anchor w"
  "p_tokens (snd (run_state (Push dev o1) w)) = p_tokens w"
  by (auto simp: Push_def push_down_def try_send_simps split: option.split)

lemma Push_links: "set (lk_buf (p_links w ! j)) \<subseteq> set (lk_buf (p_links (snd (run_state (Push dev o1) w)) ! j))"
  using try_send_simps(4) by (auto simp: Push_def push_down_def split: option.split)

lemma Push_sent:
  "fst (run_state (Push dev o1) w) \<Longrightarrow> links_wf w \<Longrightarrow>
     \<exists>k. map_of (p_streams w) dev = Some k \<and> DCommand o1 \<in> set (lk_buf (p_links (snd (run_state (Push dev o1) w)) ! k))"
  by (auto simp: Push_def push_down_def split: option.splits intro: try_send_queued links_wfD)

lemma forget_simps [simp]:
  "p_streams (snd (run_state (forget_order i) w)) = p_streams w"
  "p_anchor (snd (run_state (forget_order i) w)) = p_anchor w"
  "p_tokens (snd (run_state (forget_order i) w)) = p_tokens w"
  "p_links (snd (run_state (forget_order i) w)) = p_links w"
  by (simp_all add: forget_order_def)

text \<open>
  What one dispatch keeps of the messages other than its own, of the streams and of the queues; and what
  it leaves in the queue of the device when it succeeds.
\<close>

lemma Dispatch_keeps:
  assumes E: "undisturbed (pd_env D)" and caps: "pd_caps D = Some (J, ttl)"
    and run: "run_state (Dispatch D dev a r) w = (x, w')"
  shows "p_streams w' = p_streams w \<and> p_anchor w' = p_anchor w \<and> length (p_tokens w') = length (p_tokens w) \<and>
    (\<forall>q. q \<noteq> r \<longrightarrow> p_tokens w' ! q = p_tokens w ! q) \<and>
    (\<forall>k. set (lk_buf (p_links w ! k)) \<subseteq> set (lk_buf (p_links w' ! k)))"
proof (cases "ForAction a")
  case None
  then have "w' = w\<lparr>tick := Suc (tick w)\<rparr>"
    using run by (simp add: Dispatch_def dispatch_order_def)
  then show ?thesis by simp
next
  case (Some cap)
  let ?reg = "run_state (register_order dev (clock (pd_env D) (tick w) div 1000000) a r) (w\<lparr>tick := Suc (tick w)\<rparr>)"
  let ?tok = "Mint J (p_anchor w) ttl (p_signed w) (clock (pd_env D) (Suc (tick (snd ?reg)))) dev cap (od_id (fst ?reg))"
  let ?w3 = "\<lambda>tok. (snd ?reg)\<lparr>p_signed := Suc (p_signed w), p_tokens := (p_tokens w)[r := tok], tick := Suc (Suc (Suc (tick (snd ?reg))))\<rparr>"
  have links: "set (lk_buf (p_links w ! k)) \<subseteq> set (lk_buf (p_links (snd (run_state (Push dev (fst ?reg)) (?w3 tok))) ! k))" for k tok
    using Push_links [of "?w3 tok" k dev "fst ?reg"] by simp
  show ?thesis
  proof (cases ?tok)
    case None
    then have "w' = (snd ?reg)\<lparr>p_signed := Suc (p_signed w), tick := Suc (Suc (tick (snd ?reg)))\<rparr>"
      using run by (simp add: Dispatch_run [OF E caps Some] Let_def)
    then show ?thesis by simp
  next
    case tok: (Some tok)
    let ?w4 = "snd (run_state (Push dev (fst ?reg)) (?w3 tok))"
    have "w' = ?w4 \<or> w' = snd (run_state (forget_order (od_id (fst ?reg))) (?w4\<lparr>tick := Suc (tick ?w4)\<rparr>))"
      using run by (auto simp: Dispatch_run [OF E caps Some] Let_def tok split: if_splits)
    then show ?thesis
    proof
      assume w': "w' = ?w4"
      show ?thesis unfolding w' using links [of _ tok] by simp
    next
      assume w': "w' = snd (run_state (forget_order (od_id (fst ?reg))) (?w4\<lparr>tick := Suc (tick ?w4)\<rparr>))"
      show ?thesis unfolding w' using links [of _ tok] by simp
    qed
  qed
qed

lemma Dispatch_pushed:
  assumes E: "undisturbed (pd_env D)" and caps: "pd_caps D = Some (J, ttl)" and wf: "links_wf w"
    and r: "r < length (p_tokens w)"
    and run: "run_state (Dispatch D dev a r) w = (Inr i, w')"
  shows "carries J ttl (p_anchor w) a dev i w'"
proof (cases "ForAction a")
  case None
  then show ?thesis using run by (simp add: Dispatch_def dispatch_order_def)
next
  case (Some cap)
  let ?reg = "run_state (register_order dev (clock (pd_env D) (tick w) div 1000000) a r) (w\<lparr>tick := Suc (tick w)\<rparr>)"
  let ?o = "fst ?reg"
  let ?t = "clock (pd_env D) (Suc (tick (snd ?reg)))"
  let ?w3 = "\<lambda>tok. (snd ?reg)\<lparr>p_signed := Suc (p_signed w), p_tokens := (p_tokens w)[r := tok], tick := Suc (Suc (Suc (tick (snd ?reg))))\<rparr>"
  obtain tok where tok: "Mint J (p_anchor w) ttl (p_signed w) ?t dev cap (od_id ?o) = Some tok"
    and sent: "fst (run_state (Push dev ?o) (?w3 tok))" and i: "i = od_id ?o"
    and w': "w' = snd (run_state (Push dev ?o) (?w3 tok))"
    using run by (auto simp: Dispatch_run [OF E caps Some] Let_def split: option.splits if_splits)
  have wf3: "links_wf (?w3 tok)"
    using wf by (simp add: links_wf_def)
  obtain k where "map_of (p_streams w) dev = Some k" "DCommand ?o \<in> set (lk_buf (p_links w' ! k))"
    using Push_sent [OF sent wf3] by (auto simp: w')
  moreover have "p_tokens w' = (p_tokens w)[r := tok]" "p_streams w' = p_streams w" by (simp_all add: w')
  ultimately show ?thesis
    unfolding carries_def using tok i r Some by fastforce
qed

lemma Dispatch_links_wf:
  "undisturbed (pd_env D) \<Longrightarrow> links_wf w \<Longrightarrow> links_wf (snd (run_state (Dispatch D dev a r) w))"
  using guaranteesD [OF kl.dispatch(1), of D w dev a r]
  by (auto simp: keeps_links_def rely_def)

subsection \<open>Bulk dispatch\<close>

lemma new_message_run [simp]:
  "run_state new_message w = (length (p_tokens w), w\<lparr>p_tokens := p_tokens w @ [[]]\<rparr>)"
  by (simp add: new_message_def)

lemma bulk_step:
  assumes E: "undisturbed (pd_env D)" and caps: "pd_caps D = Some (J, ttl)" and wf: "links_wf w"
    and run: "run_state (Dispatch D dev a (length (p_tokens w))) (w\<lparr>p_tokens := p_tokens w @ [[]]\<rparr>) = (x, w')"
  shows "grows w w'" "links_wf w'" "x = Inr i \<Longrightarrow> carries J ttl (p_anchor w) a dev i w'"
proof -
  let ?w1 = "w\<lparr>p_tokens := p_tokens w @ [[]]\<rparr>"
  have wf1: "links_wf ?w1" using wf by (simp add: links_wf_def)
  show "grows w w'"
    using Dispatch_keeps [OF E caps run] by (auto simp: grows_def nth_append)
  show "links_wf w'" using Dispatch_links_wf [OF E wf1] run by (metis snd_conv)
  show "carries J ttl (p_anchor w) a dev i w'" if "x = Inr i"
    using Dispatch_pushed [OF E caps wf1 _ run [unfolded that]] by simp
qed

lemma bulk_loop_carries:
  assumes E: "undisturbed (pd_env D)" and caps: "pd_caps D = Some (J, ttl)"
    and "links_wf w" and "\<forall>(d, i)\<in>set (br_pushed acc). carries J ttl (p_anchor w) a d i w"
    and "run_state (bulk_loop D a devs acc) w = (res, w')"
  shows "(\<forall>(d, i)\<in>set (br_pushed res). carries J ttl (p_anchor w) a d i w') \<and>
    length (br_pushed res) + length (br_offline res) + length (br_failed res) =
      length (br_pushed acc) + length (br_offline acc) + length (br_failed acc) + length devs"
  using assms(3-5)
proof (induction devs arbitrary: acc w)
  case (Cons dev devs)
  let ?T = "plane_deps.truncate D"
  let ?d = "run_state (Dispatch ?T dev a (length (p_tokens w))) (w\<lparr>p_tokens := p_tokens w @ [[]]\<rparr>)"
  have T: "undisturbed (pd_env ?T)" "pd_caps ?T = Some (J, ttl)"
    using E caps by (simp_all add: plane_deps.defs)
  obtain x w1 where d: "?d = (x, w1)" by fastforce
  note step = bulk_step [OF T Cons.prems(1) d]
  let ?acc = "case x of Inl DUnreachable \<Rightarrow> acc\<lparr>br_offline := br_offline acc @ [dev]\<rparr>
      | Inl _ \<Rightarrow> acc\<lparr>br_failed := br_failed acc @ [dev]\<rparr>
      | Inr i \<Rightarrow> acc\<lparr>br_pushed := br_pushed acc @ [(dev, i)]\<rparr>"
  have anchor: "p_anchor w1 = p_anchor w" using step(1) by (simp add: grows_def)
  have old: "\<forall>(d, i)\<in>set (br_pushed acc). carries J ttl (p_anchor w1) a d i w1"
    using Cons.prems(2) carries_grows [OF _ step(1)] anchor by fastforce
  have acc: "\<forall>(d, i)\<in>set (br_pushed ?acc). carries J ttl (p_anchor w1) a d i w1"
    using old step(3) anchor by (auto split: sum.split dispatch_err.split)
  have run: "run_state (bulk_loop D a devs ?acc) w1 = (res, w')"
    using Cons.prems(3) by (simp add: d)
  have "length (br_pushed ?acc) + length (br_offline ?acc) + length (br_failed ?acc) =
      Suc (length (br_pushed acc) + length (br_offline acc) + length (br_failed acc))"
    by (simp split: sum.split dispatch_err.split)
  then show ?case using Cons.IH [OF step(2) acc run] anchor by simp
qed simp

subsection \<open>Bootstrap tokens\<close>

text \<open>
  The life of one token that is never minted again: fresh for a device, then spent at an instant for the
  same device, then forgotten.
\<close>

definition token_step :: "string \<Rightarrow> plane_world \<Rightarrow> plane_world \<Rightarrow> bool" where
  "token_step tok w w' \<longleftrightarrow>
     (case map_of (p_boot w) tok of
        Some d \<Rightarrow> map_of (p_boot w') tok = Some d \<or>
          map_of (p_boot w') tok = None \<and> (case map_of (p_spent w') tok of None \<Rightarrow> True | Some (d', t) \<Rightarrow> d' = d)
      | None \<Rightarrow> map_of (p_boot w') tok = None \<and> map_of (p_spent w') tok \<in> {map_of (p_spent w) tok, None})"

definition keeps_token :: "string \<Rightarrow> plane_world \<Rightarrow> plane_world \<Rightarrow> bool" where
  "keeps_token tok w w' \<longleftrightarrow>
     (distinct (map fst (p_spent w)) \<longrightarrow> distinct (map fst (p_spent w')) \<and> token_step tok w w')"

definition token_device :: "string \<Rightarrow> plane_world \<Rightarrow> string option" where
  "token_device tok w =
     (case map_of (p_boot w) tok of Some d \<Rightarrow> Some d | None \<Rightarrow> map_option fst (map_of (p_spent w) tok))"

lemma token_step_device: "token_step tok w w' \<Longrightarrow> token_device tok w' \<in> {token_device tok w, None}"
  by (auto simp: token_step_def token_device_def split: option.splits)

interpretation tk: history "keeps_token tok"
proof unfold_locales
  show "keeps_token tok w (w\<lparr>tick := n\<rparr>)" for w n
    by (simp add: keeps_token_def token_step_def split: option.split prod.split)
  show "keeps_token tok u w" if "keeps_token tok u v" "keeps_token tok v w" for u v w
  proof -
    have "token_step tok u v \<Longrightarrow> token_step tok v w \<Longrightarrow> token_step tok u w"
      by (auto simp: token_step_def split: option.splits prod.splits)
    then show ?thesis using that by (simp add: keeps_token_def)
  qed
qed

lemma distinct_prune: "distinct (map fst xs) \<Longrightarrow> distinct (map fst (pruneConsumed t xs))"
  by (auto simp: pruneConsumed_def distinct_map inj_on_def)

lemma set_prune: "x \<in> set (pruneConsumed t xs) \<Longrightarrow> x \<in> set xs"
  by (auto simp: pruneConsumed_def)

lemma set_put: "(k, v) \<in> set (put k' v' xs) \<longleftrightarrow> (if k = k' then v = v' else (k, v) \<in> set xs)"
  by (auto simp: put_def)

lemma claim_token_step: "keeps_token tok w (snd (claim_token t t' tok' w))"
proof -
  have "distinct (map fst (p_spent w)) \<Longrightarrow>
      distinct (map fst (p_spent (snd (claim_token t t' tok' w)))) \<and> token_step tok w (snd (claim_token t t' tok' w))"
    by (auto simp: claim_token_def token_step_def distinct_prune set_put split: option.splits prod.splits dest!: set_prune)
  then show ?thesis by (simp add: keeps_token_def)
qed

lemma claim_token_device: "fst (claim_token t t' tok w) = Some d \<Longrightarrow> token_device tok w = Some d"
  by (auto simp: claim_token_def token_device_def split: option.splits prod.splits if_splits)

lemma claim_token_late:
  "map_of (p_boot w) tok = None \<Longrightarrow> map_of (p_spent w) tok \<in> {Some (d, t0), None} \<Longrightarrow>
     time_sub t t0 > BootstrapGraceWindow \<Longrightarrow> fst (claim_token t t' tok w) = None"
  by (auto simp: claim_token_def)

lemma registry_token:
  assumes "rely (keeps_token tok) E"
  shows "guarantees (keeps_token tok) (dev_Register E i host os arch ver ifaces beat metric)"
  unfolding dev_Register_def using assms
  by (rule tk.exec) (simp add: register_stmt_def keeps_token_def token_step_def split: option.split prod.split)

lemma Enroll_token:
  assumes "rely (keeps_token tok) (pd_env D)"
  shows "guarantees (keeps_token tok) (Enroll D q)"
proof -
  have ev: "guarantees (keeps_token tok) (emitDevice act dev)" for act dev
    unfolding emitDevice_def
    by (rule guaranteesI) (simp add: keeps_token_def token_step_def split: option.split prod.split)
  have claim: "guarantees (keeps_token tok) (State (claim_token t t' tok'))" for t t' tok'
    by (rule guaranteesI) (simp add: claim_token_step)
  show ?thesis
    unfolding Enroll_def enroll_device_def mintJWT_def
    using assms ev claim
    by (auto intro!: tk.bind tk.return tk.now guarantees_if guarantees_option guarantees_sum registry_token)
qed

lemma Enroll_device:
  assumes "fst (run_state (Enroll D q) w) = Inr e"
  shows "token_device (er_token q) w = Some (es_device e)"
proof -
  let ?w2 = "w\<lparr>tick := Suc (Suc (tick w))\<rparr>"
  let ?c = "claim_token (clock (pd_env D) (tick w)) (clock (pd_env D) (Suc (tick w))) (er_token q) ?w2"
  obtain d where d: "fst ?c = Some d" and run: "fst (run_state (enroll_device D q d) (snd ?c)) = Inr e"
    using assms by (auto simp: Enroll_def split: if_splits option.splits)
  have "token_device (er_token q) ?w2 = Some d" by (rule claim_token_device [OF d])
  moreover have "es_device e = d"
    using run by (auto simp: enroll_device_def issue_identity_def Let_def split: option.splits sum.splits)
  ultimately show ?thesis by (simp add: token_device_def split: option.splits)
qed

fun enroll_all :: "ingest_deps \<Rightarrow> enroll_request list \<Rightarrow> ((code + enroll_response) list) plm" where
  "enroll_all D [] = State_Monad.return []"
| "enroll_all D (q # qs) = do { r \<leftarrow> Enroll D q; rs \<leftarrow> enroll_all D qs; State_Monad.return (r # rs) }"

lemma enroll_all_device:
  assumes "rely (keeps_token tok) (pd_env D)" "distinct (map fst (p_spent w))"
    and "(q, Inr e) \<in> set (zip qs (fst (run_state (enroll_all D qs) w)))" "er_token q = tok"
  shows "token_device tok w = Some (es_device e)"
  using assms(2,3)
proof (induction qs arbitrary: w)
  case (Cons p qs)
  let ?w1 = "snd (run_state (Enroll D p) w)"
  have step: "keeps_token tok w ?w1" by (rule guaranteesD [OF Enroll_token [OF assms(1)]])
  then have d1: "distinct (map fst (p_spent ?w1))" and dev: "token_device tok ?w1 \<in> {token_device tok w, None}"
    using Cons.prems(1) by (auto simp: keeps_token_def dest: token_step_device)
  show ?case
  proof (cases "(q, Inr e) \<in> set (zip qs (fst (run_state (enroll_all D qs) ?w1)))")
    case True
    then show ?thesis using Cons.IH [OF d1] dev by auto
  next
    case False
    then have "p = q" "fst (run_state (Enroll D p) w) = Inr e" using Cons.prems(2) by auto
    then show ?thesis using Enroll_device assms(4) by blast
  qed
qed simp

lemma enroll_late:
  assumes "rely (keeps_token tok) (pd_env D)" "distinct (map fst (p_spent w))" "tok \<noteq> []"
    and "map_of (p_boot w) tok = None" "map_of (p_spent w) tok \<in> {Some (d, t0), None}"
    and late: "\<And>n. time_sub (clock (pd_env D) n) t0 > BootstrapGraceWindow"
    and "(q, r) \<in> set (zip qs (fst (run_state (enroll_all D qs) w)))" "er_token q = tok"
  shows "r = Inl PermissionDenied"
  using assms(2,4,5,7)
proof (induction qs arbitrary: w)
  case (Cons p qs)
  let ?w1 = "snd (run_state (Enroll D p) w)"
  have step: "keeps_token tok w ?w1" by (rule guaranteesD [OF Enroll_token [OF assms(1)]])
  then have st: "distinct (map fst (p_spent ?w1))" "map_of (p_boot ?w1) tok = None"
      "map_of (p_spent ?w1) tok \<in> {Some (d, t0), None}"
    using Cons.prems(1-3) by (auto simp: keeps_token_def token_step_def)
  show ?case
  proof (cases "(q, r) \<in> set (zip qs (fst (run_state (enroll_all D qs) ?w1)))")
    case True
    then show ?thesis by (rule Cons.IH [OF st])
  next
    case False
    then have "p = q" "r = fst (run_state (Enroll D p) w)" using Cons.prems(4) by auto
    then show ?thesis
      using claim_token_late [of "w\<lparr>tick := Suc (Suc (tick w))\<rparr>" tok d t0] Cons.prems(2,3) late assms(3,8)
      by (simp add: Enroll_def)
  qed
qed simp

end
