(* ===== verification/Agent_Safety.thy ===== *)
theory Agent_Safety
  imports Agent
begin

section \<open>Safety of the agent\<close>

text \<open>
  What a command may do to the host: at most one effect, that of its action, and only behind a token that
  the pinned root signed for this device, this capability and this command. Then the transfer of files in
  both directions, and the waits between sessions.
\<close>

subsection \<open>Effects of a command\<close>

definition fits :: "agent_deps \<Rightarrow> command \<Rightarrow> effect \<Rightarrow> bool" where
  "fits D cmd e \<longleftrightarrow>
     (case e of
        DidRun lang script args t \<Rightarrow>
          t = TimeoutFor (gd_default D) (gd_max D) (cm_timeout cmd) \<and>
          (\<exists>b64. cm_action cmd = Some (RunScript lang b64 args) \<and> b64_decode b64 = Some script)
      | DidReboot \<Rightarrow> (\<exists>d. cm_action cmd = Some (Reboot d))
      | DidRead p \<Rightarrow> cm_action cmd = Some (FilePull p)
      | DidWrite p b64 \<Rightarrow> (\<exists>mode. cm_action cmd = Some (FilePush p b64 mode))
      | DidOther a \<Rightarrow> False)"

text \<open>A grant: a token of the pinned root, in force when the agent looked at the clock.\<close>

definition granted :: "agent_deps \<Rightarrow> jwt_es256 \<Rightarrow> verifier \<Rightarrow> command \<Rightarrow> bool" where
  "granted D J v cmd \<longleftrightarrow>
     (\<exists>cap n c t. ForCommand cmd = Some (cap, cm_token cmd) \<and>
        js_sign J (vf_root v) n c = Some (cm_token cmd) \<and> t \<in> range (clock (gd_env D)) \<and> in_force t c \<and>
        cc_iss c = TokenIssuer \<and> cc_sub c = vf_dev v \<and> cc_cap c = cap \<and> (cm_id cmd = [] \<or> cc_cmd c = cm_id cmd))"

text \<open>What a computation may have added to what was done, and whether it leaves files and pushes alone.\<close>

definition adds :: "effect set \<Rightarrow> agent_world \<Rightarrow> agent_world \<Rightarrow> bool" where
  "adds A w w' \<longleftrightarrow> (\<exists>es. ag_done w' = ag_done w @ es \<and> set es \<subseteq> A)"

definition same_disk :: "agent_world \<Rightarrow> agent_world \<Rightarrow> bool" where
  "same_disk w w' \<longleftrightarrow> ag_files w' = ag_files w \<and> ag_pushes w' = ag_pushes w"

lemma sendResult_quiet [simp]:
  "ag_done (snd (run_state (sendResult D i st x out err1 msg) w)) = ag_done w"
  "ag_files (snd (run_state (sendResult D i st x out err1 msg) w)) = ag_files w"
  "ag_pushes (snd (run_state (sendResult D i st x out err1 msg) w)) = ag_pushes w"
  by (simp_all add: sendResult_def)

lemma report_only_quiet [simp]:
  "ag_done (snd (run_state (report_only D i st msg) w)) = ag_done w"
  "ag_files (snd (run_state (report_only D i st msg) w)) = ag_files w"
  "ag_pushes (snd (run_state (report_only D i st msg) w)) = ag_pushes w"
  by (simp_all add: report_only_def)

lemma run_did [simp]: "run_state (did e) w = ((), w\<lparr>ag_done := ag_done w @ [e]\<rparr>)"
  by (simp add: did_def)

lemma runScript_does:
  "ag_done (snd (run_state (runScriptCommand D cmd lang b64 args) w)) =
     ag_done w @ (case b64_decode b64 of None \<Rightarrow> [] | Some script \<Rightarrow>
       [DidRun lang script args (TimeoutFor (gd_default D) (gd_max D) (cm_timeout cmd))])"
  "same_disk w (snd (run_state (runScriptCommand D cmd lang b64 args) w))"
  by (auto simp: runScriptCommand_def same_disk_def Let_def split: option.split run_end.split prod.split)

lemma reboot_does:
  "ag_done (snd (run_state (rebootCommand D cmd alive) w)) \<in> {ag_done w, ag_done w @ [DidReboot]}"
  "same_disk w (snd (run_state (rebootCommand D cmd alive) w))"
  by (auto simp: rebootCommand_def same_disk_def)

lemma pull_does:
  "ag_done (snd (run_state (filePullCommand D cmd p) w)) = ag_done w @ [DidRead p]"
  "same_disk w (snd (run_state (filePullCommand D cmd p) w))"
  by (auto simp: filePullCommand_def same_disk_def split: option.split prod.split sum.split)

lemma push_does:
  "ag_done (snd (run_state (filePushCommand D cmd p b64 mode) w)) = ag_done w @ (if b64 = [] then [] else [DidWrite p b64])"
  by (auto simp: filePushCommand_def inline_push_def Let_def split: option.split prod.split sum.split)

lemma script_fits:
  "cm_action cmd = Some (RunScript lang b64 args) \<Longrightarrow> b64_decode b64 = Some script \<Longrightarrow>
     fits D cmd (DidRun lang script args (TimeoutFor (gd_default D) (gd_max D) (cm_timeout cmd)))"
  by (auto simp: fits_def)

lemma run_action_simps:
  "cm_action cmd = Some (RunScript lang b64 args) \<Longrightarrow>
     snd (run_state (run_action D cmd alive) w) = snd (run_state (runScriptCommand D cmd lang b64 args) w)"
  "cm_action cmd = Some (Reboot d) \<Longrightarrow>
     snd (run_state (run_action D cmd alive) w) = snd (run_state (rebootCommand D cmd alive) w)"
  "cm_action cmd = Some (FilePull p) \<Longrightarrow>
     snd (run_state (run_action D cmd alive) w) = snd (run_state (filePullCommand D cmd p) w)"
  "cm_action cmd = Some (FilePush p b64 mode) \<Longrightarrow>
     snd (run_state (run_action D cmd alive) w) = snd (run_state (filePushCommand D cmd p b64 mode) w)"
  by (simp_all add: run_action_def)

lemma action_adds:
  assumes "ForCommand cmd = Some (cap, tok)"
  shows "adds {e. fits D cmd e} w (snd (run_state (run_action D cmd alive) w))"
    and "cap \<noteq> CapFilePush \<Longrightarrow> same_disk w (snd (run_state (run_action D cmd alive) w))"
proof -
  obtain a where a: "cm_action cmd = Some a" "ForAction a = Some cap"
    using assms by (cases "cm_action cmd") (auto simp: ForCommand_ForAction)
  show "adds {e. fits D cmd e} w (snd (run_state (run_action D cmd alive) w))"
  proof (cases a)
    case (RunScript lang b64 args)
    then show ?thesis
      using a runScript_does(1) [of D cmd lang b64 args w] script_fits [of cmd lang b64 args _ D]
      by (auto simp: run_action_simps adds_def split: option.split)
  next
    case (Reboot d)
    then show ?thesis
      using a reboot_does(1) [of D cmd alive w] by (auto simp: run_action_simps adds_def fits_def)
  next
    case (FilePull p)
    then show ?thesis using a by (auto simp: run_action_simps pull_does adds_def fits_def)
  next
    case (FilePush p b64 mode)
    then show ?thesis using a by (auto simp: run_action_simps push_does adds_def fits_def)
  qed (use a in auto)
  show "same_disk w (snd (run_state (run_action D cmd alive) w))" if "cap \<noteq> CapFilePush"
    using a that
    by (cases a) (auto simp: run_action_simps runScript_does reboot_does pull_does)
qed

lemma handle_adds:
  assumes D: "gd_verifier D = Some (J, v)" and J: "jwt_lawful J"
  shows "adds {e. fits D cmd e \<and> granted D J v cmd} w (snd (run_state (uplink_handleCommand D cmd alive) w))"
    and "\<not> (granted D J v cmd \<and> (\<exists>p b64 mode. cm_action cmd = Some (FilePush p b64 mode))) \<Longrightarrow>
      same_disk w (snd (run_state (uplink_handleCommand D cmd alive) w))"
proof -
  have quiet: "adds A w w1 \<and> same_disk w w1"
    if "ag_done w1 = ag_done w" "ag_files w1 = ag_files w" "ag_pushes w1 = ag_pushes w" for A w w1
    using that by (simp add: adds_def same_disk_def)
  have "adds {e. fits D cmd e \<and> granted D J v cmd} w (snd (run_state (uplink_handleCommand D cmd alive) w)) \<and>
    (\<not> (granted D J v cmd \<and> (\<exists>p b64 mode. cm_action cmd = Some (FilePush p b64 mode))) \<longrightarrow>
      same_disk w (snd (run_state (uplink_handleCommand D cmd alive) w)))"
  proof (cases "ForCommand cmd")
    case None
    then show ?thesis by (simp add: uplink_handleCommand_def D quiet)
  next
    case (Some ct)
    then obtain cap where cap: "ForCommand cmd = Some (cap, cm_token cmd)"
      by (auto simp: ForCommand_ForAction)
    let ?t = "clock (gd_env D) (tick w)"
    show ?thesis
    proof (cases "cap_Check J v ?t (cm_token cmd) cap (cm_id cmd)")
      case (Some e)
      then show ?thesis by (simp add: uplink_handleCommand_def D cap quiet)
    next
      case None
      have g: "granted D J v cmd"
        using Check_ok [OF J None] cap unfolding granted_def by (metis rangeI)
      have push: "(\<exists>p b64 mode. cm_action cmd = Some (FilePush p b64 mode)) \<longleftrightarrow> cap = CapFilePush"
        using cap by (auto simp: ForCommand_def CapRunScript_def CapReboot_def CapFilePull_def CapFilePush_def
            split: option.splits action.splits)
      let ?w1 = "w\<lparr>tick := Suc (tick w)\<rparr>"
      let ?w2 = "snd (run_state (report_only D (cm_id cmd) CReceived []) ?w1)"
      have step: "snd (run_state (uplink_handleCommand D cmd alive) w) =
          (if fst (run_state (report_only D (cm_id cmd) CReceived []) ?w1)
           then snd (run_state (run_action D cmd alive) ?w2) else ?w2)"
        by (simp add: uplink_handleCommand_def D cap None)
      have "ag_done ?w2 = ag_done w" "ag_files ?w2 = ag_files w" "ag_pushes ?w2 = ag_pushes w" by simp_all
      then show ?thesis
        using action_adds [OF cap, where D = D and w = ?w2 and alive = alive] g push
        by (auto simp: step adds_def same_disk_def)
    qed
  qed
  then show "adds {e. fits D cmd e \<and> granted D J v cmd} w (snd (run_state (uplink_handleCommand D cmd alive) w))"
    "\<not> (granted D J v cmd \<and> (\<exists>p b64 mode. cm_action cmd = Some (FilePush p b64 mode))) \<Longrightarrow>
      same_disk w (snd (run_state (uplink_handleCommand D cmd alive) w))" by auto
qed

subsection \<open>The downlink\<close>

definition push_granted :: "agent_deps \<Rightarrow> jwt_es256 \<Rightarrow> verifier \<Rightarrow> down_frame \<Rightarrow> bool" where
  "push_granted D J v f \<longleftrightarrow>
     (\<exists>cmd p b64 mode. f = FCommand cmd \<and> cm_action cmd = Some (FilePush p b64 mode) \<and> granted D J v cmd)"

lemma adds_refl: "ag_done w' = ag_done w \<Longrightarrow> adds A w w'"
  by (simp add: adds_def)

lemma adds_trans: "adds A u v \<Longrightarrow> adds A v w \<Longrightarrow> adds A u w"
  by (fastforce simp: adds_def)

lemma adds_mono: "adds A u v \<Longrightarrow> A \<subseteq> B \<Longrightarrow> adds B u v"
  by (auto simp: adds_def)

lemma routeChunk_done: "ag_done (snd (run_state (routeChunk D c) w)) = ag_done w"
  by (auto simp: routeChunk_def Let_def split: option.split prod.split)

lemma routeChunk_idle: "ag_pushes w = [] \<Longrightarrow> same_disk w (snd (run_state (routeChunk D c) w))"
  by (simp add: routeChunk_def same_disk_def)

lemma renewed_quiet:
  "ag_done (snd (run_state (applyRenewedJWT tok) w)) = ag_done w"
  "same_disk w (snd (run_state (applyRenewedJWT tok) w))"
  by (auto simp: applyRenewedJWT_def same_disk_def)

lemma downlink_command:
  "snd (run_state (downlink D alive (FCommand cmd # fs)) w) =
     (let w1 = snd (run_state (uplink_handleCommand D cmd alive) w) in
      case fst (run_state (uplink_handleCommand D cmd alive) w) of
        WaitsFor i \<Rightarrow> w1
      | Returned ok \<Rightarrow> if ok then snd (run_state (downlink D alive fs) w1) else w1)"
  by (simp add: Let_def split: command_end.split)

text \<open>
  The effects a control frame of a screen session can have: it starts a capture at the clamped rate, and an
  open or a close can stop one. No token comes with it.
\<close>

definition screen_effect :: "screen_control \<Rightarrow> effect \<Rightarrow> bool" where
  "screen_effect c e \<longleftrightarrow>
     (case c of
        ScreenOpen s n \<Rightarrow> s \<noteq> [] \<and> (e = DidCapture s (if n \<le> 0 then 2 else min n 30) \<or> (\<exists>s'. e = DidStopCapture s'))
      | ScreenClose s \<Rightarrow> (\<exists>s'. e = DidStopCapture s' \<and> (s = [] \<or> s' = s))
      | ScreenMouse k x y b d \<Rightarrow> False
      | ScreenKey k c m \<Rightarrow> False)"

lemma control_effects: "\<forall>e\<in>set (fst (screen_Control c sn)). screen_effect c e"
  by (cases c)
    (auto simp: screen_Control_def screen_open_def screen_close_def screen_effect_def clampFPS_def Let_def
      split: option.split)

lemma sessionControl_adds:
  "adds {e. screen_effect c e} w (snd (run_state (sessionControl D c) w))"
  "same_disk w (snd (run_state (sessionControl D c) w))"
  using control_effects [of c "ag_screen w"]
  by (auto simp: sessionControl_def adds_def same_disk_def Let_def split: prod.split)

definition allowed_effect :: "agent_deps \<Rightarrow> jwt_es256 \<Rightarrow> verifier \<Rightarrow> down_frame list \<Rightarrow> effect \<Rightarrow> bool" where
  "allowed_effect D J v fs e \<longleftrightarrow>
     (\<exists>cmd. FCommand cmd \<in> set fs \<and> fits D cmd e \<and> granted D J v cmd) \<or>
     (\<exists>c. FControl c \<in> set fs \<and> screen_effect c e)"

lemma downlink_adds:
  assumes D: "gd_verifier D = Some (J, v)" and J: "jwt_lawful J"
  shows "adds {e. allowed_effect D J v fs e} w (snd (run_state (downlink D alive fs) w))"
proof (induction fs arbitrary: w)
  case Nil
  show ?case by (simp add: adds_refl)
next
  case (Cons f fs)
  let ?B = "{e. allowed_effect D J v (f # fs) e}"
  have IH: "adds ?B u (snd (run_state (downlink D alive fs) u))" for u
    by (rule adds_mono [OF Cons.IH]) (auto simp: allowed_effect_def)
  show ?case
  proof (cases f)
    case (FCommand cmd)
    have h: "adds ?B w (snd (run_state (uplink_handleCommand D cmd alive) w))"
      by (rule adds_mono [OF handle_adds(1) [OF D J]]) (auto simp: FCommand allowed_effect_def)
    show ?thesis
      unfolding FCommand downlink_command
      using h IH [unfolded FCommand] by (auto simp: Let_def FCommand split: command_end.split intro: adds_trans)
  next
    case (FControl c)
    have "adds ?B w (snd (run_state (sessionControl D c) w))"
      by (rule adds_mono [OF sessionControl_adds(1)]) (auto simp: FControl allowed_effect_def)
    from adds_trans [OF this IH] show ?thesis using FControl by simp
  next
    case (FChunk c)
    then show ?thesis
      using adds_trans [OF adds_refl [OF routeChunk_done] IH] by simp
  next
    case (FAck tok)
    have "adds ?B w (snd (run_state (applyRenewedJWT tok) (w\<lparr>ag_acked := True\<rparr>)))"
      by (rule adds_refl) (simp add: renewed_quiet)
    from adds_trans [OF this IH] show ?thesis using FAck by simp
  qed
qed

lemma downlink_disk:
  assumes D: "gd_verifier D = Some (J, v)" and J: "jwt_lawful J"
    and idle: "ag_pushes w = []" and none: "\<forall>f\<in>set fs. \<not> push_granted D J v f"
  shows "same_disk w (snd (run_state (downlink D alive fs) w))"
  using idle none
proof (induction fs arbitrary: w)
  case Nil
  show ?case by (simp add: same_disk_def)
next
  case (Cons f fs)
  have IH: "same_disk w u \<Longrightarrow> same_disk w (snd (run_state (downlink D alive fs) u))" for u
    using Cons.IH [of u] Cons.prems by (auto simp: same_disk_def)
  show ?case
  proof (cases f)
    case (FCommand cmd)
    have "same_disk w (snd (run_state (uplink_handleCommand D cmd alive) w))"
      using Cons.prems(2) by (intro handle_adds(2) [OF D J]) (auto simp: FCommand push_granted_def)
    then show ?thesis
      unfolding FCommand downlink_command using IH by (auto simp: Let_def split: command_end.split)
  next
    case (FControl c)
    then show ?thesis using IH [OF sessionControl_adds(2)] by simp
  next
    case (FChunk c)
    then show ?thesis using IH [OF routeChunk_idle [OF Cons.prems(1)]] by simp
  next
    case (FAck tok)
    then show ?thesis
      using IH [of "snd (run_state (applyRenewedJWT tok) (w\<lparr>ag_acked := True\<rparr>))"] renewed_quiet(2) [of _ tok]
      by (simp add: same_disk_def)
  qed
qed

subsection \<open>Screen sessions\<close>

text \<open>A control frame needs no grant: it starts a capture whatever the verifier, without one too.\<close>

lemma capture_needs_no_grant:
  assumes "gd_screen D" "s \<noteq> []" "sn_live (ag_screen w) = None"
  shows "ag_done (snd (run_state (downlink D alive [FControl (ScreenOpen s n)]) w)) = ag_done w @ [DidCapture s (clampFPS n)]"
  using assms by (simp add: sessionControl_def screen_Control_def screen_open_def Let_def)

text \<open>
  While rates do not change, at most one loop runs, and it is that of the published session; closing the
  session stops it.
\<close>

definition one_loop :: "screen_driver \<Rightarrow> bool" where
  "one_loop sn \<longleftrightarrow>
     (case sn_live sn of
        None \<Rightarrow> sn_loops sn = []
      | Some (s, fps, k) \<Rightarrow> set (sn_loops sn) \<subseteq> {(k, s, fps)})"

definition keeps_rate :: "screen_control \<Rightarrow> screen_driver \<Rightarrow> bool" where
  "keeps_rate c sn \<longleftrightarrow> (\<forall>s n fps k. c = ScreenOpen s n \<and> sn_live sn = Some (s, fps, k) \<longrightarrow> clampFPS n = fps)"

lemma only_loop_stops: "set ls \<subseteq> {(k, s, fps)} \<Longrightarrow> filter (\<lambda>l. fst l \<noteq> k) ls = []"
  by (auto simp: filter_empty_conv)

lemma Control_one_loop: "one_loop sn \<Longrightarrow> keeps_rate c sn \<Longrightarrow> one_loop (snd (screen_Control c sn))"
  by (cases c; cases "sn_live sn")
    (auto simp: one_loop_def keeps_rate_def screen_Control_def screen_open_def screen_close_def startLoop_def
      stopLoop_def only_loop_stops Let_def)

lemma close_stops: "one_loop sn \<Longrightarrow> sn_loops (snd (screen_Control (ScreenClose []) sn)) = []"
  by (cases "sn_live sn")
    (auto simp: one_loop_def screen_Control_def screen_close_def stopLoop_def only_loop_stops)

text \<open>After a change of the rate the loop is nobody's: neither a close nor the end of the agent's driver stops it.\<close>

lemma rate_change_unstoppable:
  assumes "s \<noteq> []" "sn_live sn = Some (s, fps, k)" "clampFPS n \<noteq> fps"
    and "sn' = snd (screen_Control (ScreenOpen s n) sn)"
  shows "(sn_next sn, s, clampFPS n) \<in> set (sn_loops (snd (screen_Control (ScreenClose s) sn'))) \<and>
    (sn_next sn, s, clampFPS n) \<in> set (sn_loops (screen_Stop sn'))"
  using assms by (simp add: screen_Control_def screen_open_def screen_close_def screen_Stop_def startLoop_def stopLoop_def Let_def)

text \<open>After a failed send the loop is gone, but an open that is sent again finds the session published and does nothing.\<close>

lemma resent_open_ignored:
  assumes "sn_live sn = Some (s, clampFPS n, k)"
  shows "screen_Control (ScreenOpen s n) (loop_send_failed k sn) = ([], loop_send_failed k sn)"
  using assms by (simp add: screen_Control_def screen_open_def loop_send_failed_def stopLoop_def Let_def)

subsection \<open>Chunked pushes\<close>

text \<open>The chunks of a file, numbered from a start, the last one marked.\<close>

fun chunks_of :: "string \<Rightarrow> nat \<Rightarrow> string list \<Rightarrow> chunk list" where
  "chunks_of i k [] = []"
| "chunks_of i k (d # ds) =
     \<lparr>ck_cmd = i, ck_seq = k, ck_data = d, ck_eof = (ds = []), ck_total = 0, ck_mode = 0\<rparr> # chunks_of i (Suc k) ds"

fun push_all :: "calls \<Rightarrow> chunk list \<Rightarrow> push_session \<times> files \<Rightarrow> push_session \<times> files" where
  "push_all C [] s = s"
| "push_all C (c # cs) (p, fs) = (let (e, p', fs') = push_Chunk C c p fs in push_all C cs (p', fs'))"

definition all_ok :: calls where
  "all_ok = \<lparr>ok_dir = True, ok_temp = True, ok_write = True, ok_close = True, ok_rename = True, ok_chmod = True\<rparr>"

lemma push_all_chunks:
  assumes "ds \<noteq> []" "\<forall>d\<in>set ds. length d \<le> MaxChunkBytes" "\<not> ps_closed p" "ps_cmd p = i" "ps_expected p = k"
    "ps_mode p = []"
  shows "push_all all_ok (chunks_of i k ds) (p, fs) =
    (p\<lparr>ps_tmp := ps_tmp p @ concat ds, ps_size := ps_size p + length (concat ds), ps_expected := k + length ds,
       ps_closed := True, ps_done := True\<rparr>, fs(ps_path p \<mapsto> (ps_tmp p @ concat ds, None)))"
  using assms
proof (induction ds arbitrary: p k)
  case (Cons d ds)
  show ?case
  proof (cases "ds = []")
    case True
    with Cons.prems show ?thesis
      by (simp add: push_Chunk_def finish_push_def all_ok_def Let_def fun_eq_iff)
  next
    case False
    let ?p1 = "p\<lparr>ps_tmp := ps_tmp p @ d, ps_size := ps_size p + length d, ps_expected := Suc k\<rparr>"
    have "push_all all_ok (chunks_of i k (d # ds)) (p, fs) = push_all all_ok (chunks_of i (Suc k) ds) (?p1, fs)"
      using Cons.prems False by (simp add: push_Chunk_def all_ok_def Let_def)
    also have "\<dots> = (?p1\<lparr>ps_tmp := ps_tmp ?p1 @ concat ds, ps_size := ps_size ?p1 + length (concat ds),
        ps_expected := Suc k + length ds, ps_closed := True, ps_done := True\<rparr>,
        fs(ps_path ?p1 \<mapsto> (ps_tmp ?p1 @ concat ds, None)))"
      using Cons.prems False by (intro Cons.IH) auto
    finally have eq: "push_all all_ok (chunks_of i k (d # ds)) (p, fs) = \<dots>" .
    show ?thesis unfolding eq by (simp add: fun_eq_iff)
  qed
qed simp

text \<open>A refused chunk changes nothing.\<close>

lemma push_refused:
  "push_Chunk C c p fs = (e, p', fs') \<Longrightarrow> ck_seq c \<noteq> ps_expected p \<or> ck_cmd c \<noteq> ps_cmd p \<or> ps_closed p \<Longrightarrow>
     e \<noteq> None \<and> p' = p \<and> fs' = fs"
  by (auto simp: push_Chunk_def split: if_splits)

subsection \<open>Waits between sessions\<close>

text \<open>Each draw of a sequence of sessions within its bound.\<close>

fun jitters :: "uplink_config \<Rightarrow> duration \<Rightarrow> (bool \<times> duration) list \<Rightarrow> bool" where
  "jitters c b [] = True"
| "jitters c b ((a, d) # ss) \<longleftrightarrow> jitter_ok c a b d \<and> jitters c (snd (next_wait c a b d)) ss"

lemma reconnects_Cons:
  "reconnects c b ((a, d) # ss) = fst (next_wait c a b d) # reconnects c (snd (next_wait c a b d)) ss"
  by (simp split: prod.split)

lemma reconnect_waits:
  assumes c: "0 < uc_min c" "uc_min c \<le> uc_max c"
    and "jitters c b ss" "uc_min c \<le> b" "b \<le> uc_max c"
  shows "\<forall>x\<in>set (reconnects c b ss). uc_min c \<le> x \<and> x \<le> uc_max c + uc_max c div 2"
  using assms(3-5)
proof (induction ss arbitrary: b)
  case (Cons s ss)
  obtain a d where s: "s = (a, d)" by (cases s)
  let ?b = "snd (next_wait c a b d)"
  have "uc_min c \<le> ?b" "?b \<le> uc_max c"
    using Cons.prems c by (auto simp: next_wait_def Let_def)
  then have "\<forall>x\<in>set (reconnects c ?b ss). uc_min c \<le> x \<and> x \<le> uc_max c + uc_max c div 2"
    using Cons.prems by (intro Cons.IH) (auto simp: s)
  moreover have "(if a then uc_min c else b) div 2 \<le> uc_max c div 2"
    using c Cons.prems by (intro zdiv_mono1) auto
  then have "uc_min c \<le> fst (next_wait c a b d) \<and> fst (next_wait c a b d) \<le> uc_max c + uc_max c div 2"
    using Cons.prems c by (auto simp: next_wait_def Let_def s jitter_ok_def split: if_splits)
  ultimately show ?case by (simp add: s reconnects_Cons del: reconnects.simps)
qed simp

text \<open>The k-th of the sessions that fail in a row waits for the doubled backoff, capped, and half of it at most.\<close>

lemma reconnect_doubles:
  assumes "0 < uc_max c" "jitters c b (map (Pair False) ds)" "0 < b" "b \<le> uc_max c" "k < length ds"
  shows "min (2 ^ k * b) (uc_max c) \<le> reconnects c b (map (Pair False) ds) ! k \<and>
    reconnects c b (map (Pair False) ds) ! k \<le> min (2 ^ k * b) (uc_max c) + min (2 ^ k * b) (uc_max c) div 2"
  using assms(2-5)
proof (induction ds arbitrary: b k)
  case (Cons d ds)
  let ?b = "min (2 * b) (uc_max c)"
  have next1: "next_wait c False b d = (b + d, ?b)" by (simp add: next_wait_def)
  show ?case
  proof (cases k)
    case 0
    with Cons.prems show ?thesis by (auto simp: next1 jitter_ok_def min_def)
  next
    case (Suc j)
    have cap: "min (2 ^ j * ?b) (uc_max c) = min (2 ^ Suc j * b) (uc_max c)"
    proof (cases "2 * b \<le> uc_max c")
      case False
      then have "uc_max c \<le> 2 ^ j * uc_max c" "uc_max c \<le> 2 ^ Suc j * b"
        using assms(1) Cons.prems(2) mult_mono [of 1 "2 ^ j" "uc_max c" "2 * b"] by (auto simp: mult_le_cancel_right1)
      with False show ?thesis by (simp add: min_def)
    qed (simp add: min_def algebra_simps)
    have "min (2 ^ j * ?b) (uc_max c) \<le> reconnects c ?b (map (Pair False) ds) ! j \<and>
        reconnects c ?b (map (Pair False) ds) ! j \<le> min (2 ^ j * ?b) (uc_max c) + min (2 ^ j * ?b) (uc_max c) div 2"
      using Cons.prems assms(1) by (intro Cons.IH) (auto simp: next1 Suc)
    then show ?thesis by (simp add: Suc cap next1 del: power_Suc)
  qed
qed simp

end
