(* ===== verification/Plane_Properties.thy ===== *)
theory Plane_Properties
  imports Plane_Safety Agent_Safety
begin

section \<open>Properties of the command plane and of the agent\<close>

text \<open>
  The properties of enrolment, of the streams, of dispatch and of the agent, each with an instance.
\<close>

subsection \<open>A small fleet\<close>

definition quiet_world :: plane_world where
  "quiet_world = \<lparr>tick = 0, dev_rows = [], hw_rows = [], sw_rows = [], metric_rows = [], log_rows = [],
     p_seq = 0, p_pending = [], p_reports = [], p_owner = [], p_tokens = [], p_anchor = ''anchor'', p_signed = 0,
     p_streams = [], p_links = [], p_crashed = False, p_boot = [], p_spent = [], p_draws = 0, p_events = [],
     p_screens = [], p_viewers = [], p_transfers = []\<rparr>"

text \<open>A token library that signs what a table lists.\<close>

definition table_jwt :: "(cap_claims \<times> string) list \<Rightarrow> jwt_es256" where
  "table_jwt xs =
     \<lparr>js_sign = (\<lambda>k n c. if k = ''anchor'' then map_of xs c else None),
      js_parse = (\<lambda>k t tok. if k = ''anchor''
        then (case map_of (map (\<lambda>(c, s). (s, c)) xs) tok of None \<Rightarrow> None | Some c \<Rightarrow> if in_force t c then Some c else None)
        else None),
      js_date = (\<lambda>t. t div second * second)\<rparr>"

lemma table_jwt_lawful:
  assumes "distinct (map fst xs)" "distinct (map snd xs)" "[] \<notin> snd ` set xs"
  shows "jwt_lawful (table_jwt xs)"
proof -
  let ?ys = "map (\<lambda>(c, s). (s, c)) xs"
  have ys: "distinct (map fst ?ys)" using assms(2) by (simp add: case_prod_beta comp_def)
  have iff: "map_of xs c = Some s \<longleftrightarrow> map_of ?ys s = Some c" for c s
    using assms(1) ys by (auto simp: map_of_eq_Some_iff)
  have date: "t div second * second \<le> t \<and> t < t div second * second + second" for t
  proof -
    have "t div second * second + t mod second = t" by simp
    moreover have "0 \<le> t mod second \<and> t mod second < second" by (simp add: second_def)
    ultimately show ?thesis by linarith
  qed
  have ne: "map_of xs c = Some s \<Longrightarrow> s \<noteq> []" for c s
    using assms(3) map_of_SomeD [of xs c s] by force
  show ?thesis
    unfolding jwt_lawful_def table_jwt_def
    using iff ne date by (auto split: option.splits if_splits)
qed

definition reboot_claims :: "string \<Rightarrow> string \<Rightarrow> cap_claims" where
  "reboot_claims dev i =
     \<lparr>cc_cap = ''rmmway.reboot'', cc_cmd = i, cc_sub = dev, cc_iss = ''rmmway'', cc_id = i, cc_iat = Some 0,
      cc_exp = Some (600 * second)\<rparr>"

definition demo_jwt :: jwt_es256 where
  "demo_jwt = table_jwt [(reboot_claims ''d1'' ''cmd-1'', ''t1''), (reboot_claims ''d2'' ''cmd-2'', ''t2'')]"

lemma demo_jwt_lawful: "jwt_lawful demo_jwt"
  unfolding demo_jwt_def by (rule table_jwt_lawful) (simp_all add: reboot_claims_def)

definition demo_row :: "string \<Rightarrow> dev_row" where
  "demo_row i = (new_dev_row i ''host'' ''linux'' ''amd64'' ''1'' [] 30 30 0)\<lparr>dr_tags := [''lab'']\<rparr>"

definition demo_link :: "string \<Rightarrow> link" where
  "demo_link i = \<lparr>lk_dev = i, lk_buf = [], lk_closed = False, lk_cancelled = False, lk_pump_done = False\<rparr>"

definition fleet :: plane_world where
  "fleet = quiet_world\<lparr>dev_rows := [demo_row ''d1'', demo_row ''d2''], p_streams := [(''d1'', 0), (''d2'', 1)],
     p_links := [demo_link ''d1'', demo_link ''d2'']\<rparr>"

definition demo_plane :: device_deps where
  "demo_plane = \<lparr>pd_env = calm 0, pd_caps = Some (demo_jwt, 600 * second),
     id_sign = (\<lambda>c. Some (''jwt-'' @ ac_device c)), id_parse = (\<lambda>t tok. if tok = ''j1''
       then Some \<lparr>ac_device = ''d1'', ac_subject = ''d1'', ac_issuer = ''rmmway'', ac_iat = 0, ac_exp = Some (720 * hour)\<rparr> else None), id_lifetime = 720 * hour,
     id_rand = (\<lambda>n. []), id_beat_s = 30, id_metric_s = 30, id_issue = None, id_refresh = (\<lambda>d h. None),
     id_logs = True, id_relay = True, dd_dispatch = True, dd_strings = (\<lambda>s. None), dd_search = None,
     dd_logs = True, dd_metrics = True\<rparr>"

definition operator :: session where
  "operator = \<lparr>ss_user = ''op'', ss_role = ''tech'', ss_caps = AllCapabilities, ss_legacy = False, ss_all = False,
     ss_clients = [], ss_active = []\<rparr>"

definition reboot_lab :: bulk_request where
  "reboot_lab = \<lparr>bq_tag = ''Lab'', bq_action = ''reboot'', bq_lang = [], bq_script = [], bq_args = [], bq_timeout = 0\<rparr>"

lemma fleet_links_wf: "links_wf fleet"
  by (simp add: links_wf_def fleet_def quiet_world_def demo_link_def less_Suc_eq link_capacity_def) 

subsection \<open>Dispatch to a tag\<close>

lemma carries_check:
  assumes J: "jwt_lawful J" and "carries J ttl anchor a dev i w"
  shows "\<exists>k o1 t cap. map_of (p_streams w) dev = Some k \<and> DCommand o1 \<in> set (lk_buf (p_links w ! k)) \<and>
    od_id o1 = i \<and> od_action o1 = a \<and> ForCommand (on_wire w o1) = Some (cap, cm_token (on_wire w o1)) \<and>
    (\<forall>v t'. vf_root v = anchor \<longrightarrow>
       (cap_Check J v t' (cm_token (on_wire w o1)) cap i = None \<longleftrightarrow>
          vf_dev v = dev \<and> js_date J t - leeway \<le> t' \<and> t' < js_date J (t + ttl) + leeway))"
proof -
  from assms(2) obtain k o1 n t cap where c: "map_of (p_streams w) dev = Some k"
    "DCommand o1 \<in> set (lk_buf (p_links w ! k))" "od_id o1 = i" "od_action o1 = a" "od_ref o1 < length (p_tokens w)"
    "ForAction a = Some cap" "Mint J anchor ttl n t dev cap i = Some (p_tokens w ! od_ref o1)"
    unfolding carries_def by blast
  have i: "i \<noteq> []" using c(7) by (auto simp: Mint_def split: if_splits)
  have "cap_Check J v t' (cm_token (on_wire w o1)) cap i = None \<longleftrightarrow>
      vf_dev v = dev \<and> js_date J t - leeway \<le> t' \<and> t' < js_date J (t + ttl) + leeway" if "vf_root v = anchor" for v t'
    using Mint_Check [OF J c(7) that, of t' cap i] c(5) i by (simp add: on_wire_def)
  moreover have "ForCommand (on_wire w o1) = Some (cap, cm_token (on_wire w o1))"
    using c(4,6) by (simp add: ForCommand_ForAction) (simp add: on_wire_def)
  ultimately show ?thesis using c by blast
qed

lemma bulkCommand_carries:
  assumes E: "undisturbed (pd_env D)" and caps: "pd_caps D = Some (J, ttl)" and wf: "links_wf w"
    and run: "run_state (bulkCommand D s m body) w = (Resp 200 (Some (VBulk tag n pushed off failed)), w')"
  shows "\<exists>b a. body = Some b \<and> buildCommandAction (dd_strings D) (single_request b) = Some a \<and>
    (\<forall>(d, i)\<in>set pushed. carries J ttl (p_anchor w) a d i w') \<and> length pushed + length off + length failed = n"
proof -
  obtain b t1 a cap where b: "body = Some b" "normalizeTags [bq_tag b] = Some [t1]"
    "buildCommandAction (dd_strings D) (single_request b) = Some a" "ForAction a = Some cap"
    and go: "run_state (bulk_dispatch D t1 a) w = (Resp 200 (Some (VBulk tag n pushed off failed)), w')"
    using run by (auto simp: bulkCommand_def plain_answer_def answer_json_def split: if_splits option.splits list.splits)
  let ?w1 = "w\<lparr>p_tokens := p_tokens w @ [[]]\<rparr>"
  let ?l = "run_state (dev_List (pd_env D)) ?w1"
  obtain rows w2 where l: "?l = (Inr rows, w2)"
    using go by (cases ?l; cases "fst ?l") (auto simp: bulk_dispatch_def plain_answer_def)
  let ?ids = "map dr_id (filter (\<lambda>d. t1 \<in> set (dr_tags d)) rows)"
  let ?acc = "\<lparr>br_pushed = [], br_offline = [], br_failed = []\<rparr>"
  obtain res w3 where loop: "run_state (bulk_loop D a ?ids ?acc) w2 = (res, w3)" by fastforce
  have res: "pushed = br_pushed res" "off = br_offline res" "failed = br_failed res" "n = length ?ids" "w' = w3"
    using go l loop by (auto simp: bulk_dispatch_def plain_answer_def answer_json_def Let_def split: if_splits)
  have w2: "w2 = ?w1\<lparr>tick := Suc (tick w)\<rparr>"
    using l E by (auto simp: dev_List_def dev_ListByClient_def query_def split: db_out.splits)
  have "links_wf w2" using wf by (simp add: w2 links_wf_def)
  from bulk_loop_carries [OF E caps this _ loop] show ?thesis
    using b res by (auto simp: w2)
qed

text \<open>
  C9. In a bulk dispatch each device gets its own grant. For every device the answer lists as pushed, the
  queue of its stream holds the command of that id with the action of the request, and its token passes
  the check of an agent with the same root exactly if the agent is that device, for that capability and
  command, within the lifetime of the token; no other device accepts it. Every matching device is counted
  once, as pushed, offline or failed.
\<close>

theorem bulk_tokens_own_device:
  assumes "jwt_lawful J" "pd_caps D = Some (J, ttl)" "undisturbed (pd_env D)" "links_wf w"
    and "run_state (bulkCommand D s m body) w = (Resp 200 (Some (VBulk tag n pushed off failed)), w')"
  shows "length pushed + length off + length failed = n \<and>
    (\<forall>(dev, i)\<in>set pushed. \<exists>k o1 t cap.
       map_of (p_streams w') dev = Some k \<and> DCommand o1 \<in> set (lk_buf (p_links w' ! k)) \<and> od_id o1 = i \<and>
       Option.bind body (buildCommandAction (dd_strings D) \<circ> single_request) = Some (od_action o1) \<and>
       ForCommand (on_wire w' o1) = Some (cap, cm_token (on_wire w' o1)) \<and>
       (\<forall>v t'. vf_root v = p_anchor w \<longrightarrow>
          (cap_Check J v t' (cm_token (on_wire w' o1)) cap i = None \<longleftrightarrow>
             vf_dev v = dev \<and> js_date J t - leeway \<le> t' \<and> t' < js_date J (t + ttl) + leeway)))"
proof -
  from bulkCommand_carries [OF assms(3,2,4,5)] obtain b a where b: "body = Some b"
    "buildCommandAction (dd_strings D) (single_request b) = Some a"
    "\<forall>(d, i)\<in>set pushed. carries J ttl (p_anchor w) a d i w'" "length pushed + length off + length failed = n" by blast
  then have a: "Option.bind body (buildCommandAction (dd_strings D) \<circ> single_request) = Some a" by simp
  have "\<forall>(d, i)\<in>set pushed. carries J ttl (p_anchor w) a d i w'" by (rule b(3))
  then show ?thesis
    unfolding a using b(4) carries_check [OF assms(1)] by fastforce
qed

lemma bulk_demo:
  "fst (run_state (bulkCommand demo_plane operator POST (Some reboot_lab)) fleet) =
     Resp 200 (Some (VBulk ''lab'' 2 [(''d1'', ''cmd-1''), (''d2'', ''cmd-2'')] [] []))"
  by code_simp

lemma bulk_tokens_own_device_witness:
  "\<exists>o1 t cap. od_id o1 = ''cmd-2'' \<and>
     (let w' = snd (run_state (bulkCommand demo_plane operator POST (Some reboot_lab)) fleet) in
      DCommand o1 \<in> set (lk_buf (p_links w' ! the (map_of (p_streams w') ''d2''))) \<and>
      cap_Check demo_jwt \<lparr>vf_root = ''anchor'', vf_dev = ''d1''\<rparr> t (cm_token (on_wire w' o1)) cap ''cmd-2'' \<noteq> None \<and>
      cap_Check demo_jwt \<lparr>vf_root = ''anchor'', vf_dev = ''d2''\<rparr> t (cm_token (on_wire w' o1)) cap ''cmd-2'' = None)"
proof -
  let ?w' = "snd (run_state (bulkCommand demo_plane operator POST (Some reboot_lab)) fleet)"
  have run: "run_state (bulkCommand demo_plane operator POST (Some reboot_lab)) fleet =
      (Resp 200 (Some (VBulk ''lab'' 2 [(''d1'', ''cmd-1''), (''d2'', ''cmd-2'')] [] [])), ?w')"
    using bulk_demo by (metis prod.collapse)
  have D: "pd_caps demo_plane = Some (demo_jwt, 600 * second)" "undisturbed (pd_env demo_plane)"
    by (simp_all add: demo_plane_def undisturbed_def)
  have "(''d2'', ''cmd-2'') \<in> set [(''d1'', ''cmd-1''), (''d2'', ''cmd-2'')]" by simp
  from bspec [OF conjunct2 [OF bulk_tokens_own_device [OF demo_jwt_lawful D fleet_links_wf run]] this, unfolded prod.case]
  obtain k o1 t cap where
    w: "map_of (p_streams ?w') ''d2'' = Some k" "DCommand o1 \<in> set (lk_buf (p_links ?w' ! k))" "od_id o1 = ''cmd-2''"
    and check: "\<And>v t'. vf_root v = p_anchor fleet \<Longrightarrow> cap_Check demo_jwt v t' (cm_token (on_wire ?w' o1)) cap ''cmd-2'' = None \<longleftrightarrow>
        vf_dev v = ''d2'' \<and> js_date demo_jwt t - leeway \<le> t' \<and> t' < js_date demo_jwt (t + 600 * second) + leeway"
    by blast
  have anchor: "p_anchor fleet = ''anchor''" by (simp add: fleet_def quiet_world_def)
  have "js_date demo_jwt t - leeway \<le> t" "t < js_date demo_jwt (t + 600 * second) + leeway"
    using lawful_date [OF demo_jwt_lawful, of t] lawful_date [OF demo_jwt_lawful, of "t + 600 * second"]
    by (auto simp: leeway_def second_def)
  with w check [of "\<lparr>vf_root = ''anchor'', vf_dev = ''d1''\<rparr>" t] check [of "\<lparr>vf_root = ''anchor'', vf_dev = ''d2''\<rparr>" t]
  show ?thesis unfolding Let_def anchor by (intro exI [of _ o1] exI [of _ t] exI [of _ cap]) auto
qed

subsection \<open>The registry of streams\<close>

text \<open>
  C10. Whatever operations run (streams opened and ended, frames received, commands, bulk commands and session
  controls pushed, channels drained), under all database faults and with other goroutines that keep the
  registry, each device has at most one registered stream, it is open and belongs to the device, every
  open stream is registered, and no channel exceeds its capacity. Apart from the acknowledgement of a
  heartbeat, no operation sends on a closed channel or closes one twice, so the process does not panic.
\<close>

theorem streams_wf:
  assumes "rely keeps_links (pd_env D)" "rely no_panic (pd_env D)" "links_wf w"
  shows "links_wf (snd (run_state (serve_ops D xs) w)) \<and>
    (list_all (\<lambda>x. \<not> acknowledges x) xs \<and> \<not> p_crashed w \<longrightarrow> \<not> p_crashed (snd (run_state (serve_ops D xs) w)))"
  using assms by (rule serve_all_wf)

definition demo_ops :: "plane_op list" where
  "demo_ops = [OOpen [''Bearer j1''], ODispatch ''d1'' (Reboot 0), OPump 2 True, OEnd ''d1'' 0, OEnd ''d1'' 2]"

lemma streams_wf_witness:
  "links_wf (snd (run_state (serve_ops demo_plane demo_ops) fleet)) \<and>
   \<not> p_crashed (snd (run_state (serve_ops demo_plane demo_ops) fleet))"
proof -
  have "rely keeps_links (pd_env demo_plane)" "rely no_panic (pd_env demo_plane)"
    by (simp_all add: rely_def demo_plane_def keeps_links_def no_panic_def)
  moreover have "list_all (\<lambda>x. \<not> acknowledges x) demo_ops" by (simp add: demo_ops_def)
  moreover have "\<not> p_crashed fleet" by (simp add: fleet_def quiet_world_def)
  ultimately show ?thesis using streams_wf [of demo_plane fleet demo_ops] fleet_links_wf by simp
qed

text \<open>
  The acknowledgement is the exception: when the stream of a device is superseded while its handler is
  about to acknowledge a heartbeat, the send on the closed channel is ready, and panics when it is picked.
\<close>

lemma supersede_panics:
  "p_crashed (snd (run_state (serve_ops demo_plane
     [OOpen [''Bearer j1''], OOpen [''Bearer j1''], OFrame ''d1'' ''j1'' 2 ReadySend (UHeartbeat [])]) fleet))"
  by code_simp

subsection \<open>Enrolment\<close>

text \<open>
  C21. A bootstrap token enrols one device. In every sequence of enrolment requests, with other requests
  in between and whatever the database does, each request with the token that succeeds gets the device
  the token was minted for; and once it was spent, more than the grace window ago, every request with
  it is denied.
\<close>

theorem bootstrap_token_single_device:
  assumes "rely (keeps_token tok) (pd_env D)" "distinct (map fst (p_spent w))" "tok \<noteq> []"
  shows "(\<forall>(q, r)\<in>set (zip qs (fst (run_state (enroll_all D qs) w))). er_token q = tok \<longrightarrow>
      (case r of Inl c \<Rightarrow> True | Inr e \<Rightarrow> token_device tok w = Some (es_device e))) \<and>
    (map_of (p_boot w) tok = None \<and> map_of (p_spent w) tok = Some (d, t0) \<and>
       (\<forall>n. BootstrapGraceWindow < time_sub (clock (pd_env D) n) t0) \<longrightarrow>
     (\<forall>(q, r)\<in>set (zip qs (fst (run_state (enroll_all D qs) w))). er_token q = tok \<longrightarrow> r = Inl PermissionDenied))"
  using enroll_all_device [OF assms(1,2)] enroll_late [OF assms, of d t0]
  by (auto split: sum.split)

definition enrol_server :: ingest_deps where
  "enrol_server = ingest_deps.truncate demo_plane"

definition enrol_request :: "string \<Rightarrow> enroll_request" where
  "enrol_request tok = \<lparr>er_token = tok, er_host = ''h'', er_os = ''linux'', er_arch = ''amd64'', er_version = ''1'', er_ifaces = []\<rparr>"

definition enrol_world :: plane_world where
  "enrol_world = quiet_world\<lparr>p_boot := [(''bt-1'', ''dev-1'')]\<rparr>"

definition enrol_batch :: "enroll_request list" where
  "enrol_batch = [enrol_request ''bt-1'', enrol_request ''bt-2'', enrol_request ''bt-1'']"

definition enrol_answer :: enroll_response where
  "enrol_answer = \<lparr>es_device = ''dev-1'', es_jwt = ''jwt-dev-1'', es_beat_s = 30, es_metric_s = 30, es_leaf = None\<rparr>"

lemma enrol_demo:
  "fst (run_state (enroll_all enrol_server enrol_batch) enrol_world) =
     [Inr enrol_answer, Inl PermissionDenied, Inr enrol_answer]"
  by code_simp

lemma bootstrap_token_single_device_witness:
  "token_device ''bt-1'' enrol_world = Some ''dev-1'' \<and>
   fst (run_state (enroll_all enrol_server enrol_batch) enrol_world) =
     [Inr enrol_answer, Inl PermissionDenied, Inr enrol_answer]"
proof -
  have "rely (keeps_token ''bt-1'') (pd_env enrol_server)"
    by (simp add: rely_def enrol_server_def demo_plane_def ingest_deps.defs)
  moreover have "distinct (map fst (p_spent enrol_world))" by (simp add: enrol_world_def quiet_world_def)
  ultimately have "\<forall>(q, r)\<in>set (zip enrol_batch [Inr enrol_answer, Inl PermissionDenied, Inr enrol_answer]).
      er_token q = ''bt-1'' \<longrightarrow> (case r of Inl c \<Rightarrow> True | Inr e \<Rightarrow> token_device ''bt-1'' enrol_world = Some (es_device e))"
    using bootstrap_token_single_device [of "''bt-1''" enrol_server enrol_world enrol_batch]
    unfolding enrol_demo by blast
  then show ?thesis by (simp add: enrol_demo) (simp add: enrol_batch_def enrol_request_def enrol_answer_def)
qed

subsection \<open>Files pulled from a device\<close>

fun deliver :: "device_deps \<Rightarrow> string \<Rightarrow> string \<Rightarrow> nat \<Rightarrow> chunk list \<Rightarrow> plane_world \<Rightarrow> plane_world" where
  "deliver D dev tok k [] w = w"
| "deliver D dev tok k (c # cs) w = deliver D dev tok k cs
     (snd (run_state (serve_op D (OFrame dev tok k ReadySend (UChunk c))) w))"

lemma deliver_step:
  assumes "id_relay D"
  shows "snd (run_state (serve_op D (OFrame dev tok k pick (UChunk c))) w) = snd (run_state (OnChunk dev c) w)"
  using assms by (simp add: recv_frame_def go_on_def relay_hooks_def ingest_deps.defs)

lemma deliver_transfer:
  assumes "id_relay D" "\<forall>c\<in>set cs. ck_cmd c = i"
  shows "map_of (p_transfers (deliver D dev tok k cs w)) i = map_option (fold add_chunk cs) (map_of (p_transfers w) i)"
  using assms(2)
proof (induction cs arbitrary: w)
  case (Cons c cs)
  have "map_of (p_transfers (snd (run_state (OnChunk dev c) w))) i = map_option (add_chunk c) (map_of (p_transfers w) i)"
    using Cons.prems by (auto simp: OnChunk_def split: option.split)
  then show ?case
    using Cons.IH [of "snd (run_state (OnChunk dev c) w)"] Cons.prems assms(1)
    by (simp add: deliver_step option.map_comp comp_def del: serve_op.simps)
qed (simp add: option.map_id)

lemma add_chunk_simps:
  "tr_path (add_chunk c t) = tr_path t" "tr_received (add_chunk c t) = tr_received t + length (ck_data c)"
  "tr_data (add_chunk c t) = tr_data t @ ck_data c" "tr_done (add_chunk c t) \<longleftrightarrow> tr_done t \<or> ck_eof c"
  by (simp_all add: add_chunk_def Let_def)

lemma add_chunks:
  "tr_path (fold add_chunk cs t) = tr_path t"
  "tr_received (fold add_chunk cs t) = tr_received t + length (concat (map ck_data cs))"
  "tr_data (fold add_chunk cs t) = tr_data t @ concat (map ck_data cs)"
  "tr_done (fold add_chunk cs t) \<longleftrightarrow> tr_done t \<or> list_ex ck_eof cs"
  by (induction cs arbitrary: t) (auto simp: add_chunk_simps)

text \<open>
  C27. A pulled file arrives as it is. For a file whose reads return its content in pieces, the agent's pull
  succeeds and the chunks it sends, received in order by the server, make the download of the command
  answer exactly the content under the base name of its path, if the transfer was registered. If it was
  not registered, every chunk is dropped and the download answers 404. The agent reports no bytes, unless
  the last read returns data and the end of the file together.
\<close>

theorem pulled_file_arrives:
  assumes "os_reads content rs" "fi_regular fi" "fi_size fi \<le> MaxPullBytes" "\<And>n. ok n" "id_relay D"
  shows "\<exists>cs. SendPull i (Some fi) True rs ok = Some (cs, Inr (0, fi_mode fi)) \<and>
    fst (run_state (handleFileDownload True dev i)
      (deliver D dev tok k cs (snd (run_state (BeginPull dev i path) w)))) =
      Download (base_name path) content (length content) \<and>
    (PullState w i = None \<longrightarrow>
     fst (run_state (handleFileDownload True dev i) (deliver D dev tok k cs w)) = NoDownload (Resp 404 None))"
proof -
  obtain ps where ps: "rs = map (\<lambda>p. (p, None)) ps @ [([], Some EOF)]" "concat ps = content" "\<forall>p\<in>set ps. p \<noteq> []"
    using assms(1) by (auto simp: os_reads_def)
  define cs where "cs = map (\<lambda>(k, p). pull_chunk i fi k p False) (enumerate 0 ps) @
    [(pull_chunk i fi (length ps) [] True)\<lparr>ck_total := 0\<rparr>]"
  have sent: "SendPull i (Some fi) True rs ok = Some (cs, Inr (0, fi_mode fi))"
    using assms(2-4) pull_loop_reads [where ok = ok and ps = ps and i = i and fi = fi and seq = 0] ps
    by (simp add: SendPull_def cs_def)
  have cmd: "\<forall>c\<in>set cs. ck_cmd c = i"
    by (auto simp: cs_def pull_chunk_def)
  have "concat (map (ck_data \<circ> (\<lambda>(k, p). pull_chunk i fi k p False)) (enumerate n ps)) = concat ps" for n
    by (induction ps arbitrary: n) (auto simp: pull_chunk_def)
  then have data: "concat (map ck_data cs) = content" "list_ex ck_eof cs"
    using ps(2) by (auto simp: cs_def pull_chunk_def)
  let ?w1 = "snd (run_state (BeginPull dev i path) w)"
  have new1: "map_of (p_transfers ?w1) i = Some (new_transfer path)" by (simp add: BeginPull_def)
  have pulled: "fst (run_state (handleFileDownload True dev i) (deliver D dev tok k cs ?w1)) =
      Download (base_name path) content (length content)"
    using deliver_transfer [OF assms(5) cmd, of dev tok k ?w1] new1 add_chunks [of cs "new_transfer path"] data
    by (simp add: handleFileDownload_def PullState_def new_transfer_def)
  have missing: "fst (run_state (handleFileDownload True dev i) (deliver D dev tok k cs w)) = NoDownload (Resp 404 None)"
    if "PullState w i = None"
  proof -
    have "PullState (deliver D dev tok k cs w) i = None"
      using deliver_transfer [OF assms(5) cmd, of dev tok k w] that [unfolded PullState_def]
      unfolding PullState_def by (simp only: option.map)
    then show ?thesis by (simp add: handleFileDownload_def)
  qed
  show ?thesis
    by (intro exI [of _ cs] conjI impI sent pulled missing)
qed

definition hosts_info :: file_info where
  "hosts_info = \<lparr>fi_size = 5, fi_mode = 420, fi_regular = True\<rparr>"

lemma pulled_file_arrives_witness:
  "\<exists>cs. SendPull ''cmd-1'' (Some hosts_info) True [(''hel'', None), (''lo'', None), ([], Some EOF)] (\<lambda>n. True) =
      Some (cs, Inr (0, 420)) \<and>
    fst (run_state (handleFileDownload True ''d1'' ''cmd-1'')
      (deliver demo_plane ''d1'' ''j1'' 0 cs (snd (run_state (BeginPull ''d1'' ''cmd-1'' ''/etc/hosts'') fleet)))) =
      Download ''hosts'' ''hello'' 5"
proof -
  have "os_reads ''hello'' [(''hel'', None), (''lo'', None), ([], Some EOF)]"
    unfolding os_reads_def MaxChunkBytes_def by (rule exI [of _ "[''hel'', ''lo'']"]) simp
  moreover have "fi_regular hosts_info" "fi_size hosts_info \<le> MaxPullBytes"
    by (simp_all add: hosts_info_def MaxPullBytes_def)
  moreover have "id_relay demo_plane" by (simp add: demo_plane_def)
  ultimately obtain cs where
    "SendPull ''cmd-1'' (Some hosts_info) True [(''hel'', None), (''lo'', None), ([], Some EOF)] (\<lambda>n. True) =
       Some (cs, Inr (0, fi_mode hosts_info))"
    "fst (run_state (handleFileDownload True ''d1'' ''cmd-1'')
      (deliver demo_plane ''d1'' ''j1'' 0 cs (snd (run_state (BeginPull ''d1'' ''cmd-1'' ''/etc/hosts'') fleet)))) =
      Download (base_name ''/etc/hosts'') ''hello'' (length ''hello'')"
    using pulled_file_arrives [where ok = "\<lambda>n. True"] by metis
  moreover have "base_name ''/etc/hosts'' = ''hosts''" "fi_mode hosts_info = 420"
    by code_simp+
  ultimately show ?thesis by (intro exI [of _ cs]) (simp del: deliver.simps)
qed

subsection \<open>Access to devices\<close>

text \<open>
  C25. A session without a grant for a device's client gets nothing from the routes of that device that
  \<^verbatim>\<open>deviceSub\<close> serves, its tags, commands, events, metrics, export and inventory, whatever the method, the body and
  the database: the answer is 403 or 404 and nothing changes, no command is dispatched and no tag is set. The
  screen session, stream and file routes of a device are served elsewhere and check no grant.
\<close>

theorem device_routes_scoped:
  assumes "undisturbed (pd_env D)" "\<not> ss_all s"
    and "path_parts (vq_path q) = p0 # ''devices'' # dev # rest_parts" "dev \<notin> {[], ''bulk''}"
    and "\<forall>d\<in>set (dev_rows w). dr_id d = dev \<longrightarrow> client_or_default d \<notin> set (ss_clients s)"
  shows "fst (run_state (deviceSub D rest s q) w) \<in> {Resp 404 None, Resp 403 (Some VForbidden)} \<and>
    snd (run_state (deviceSub D rest s q) w) = w\<lparr>tick := Suc (tick w)\<rparr>"
proof -
  have "\<not> CanSeeClient s (client_or_default d)" if "find (\<lambda>d. dr_id d = dev) (dev_rows w) = Some d" for d
    using that assms(2,5) by (auto simp: CanSeeClient_def find_Some_iff)
  then show ?thesis
    using assms(1-4)
    by (auto simp: deviceSub_def Let_def dev_Get_def query_def plain_answer_def answer_json_def
        split: db_out.split option.split sum.split)
qed

definition stranger :: session where
  "stranger = operator\<lparr>ss_clients := [''acme'']\<rparr>"

definition reboot_request :: device_request where
  "reboot_request = \<lparr>vq_method = POST, vq_path = ''/api/devices/d1/commands'',
     vq_dispatch = Some \<lparr>dq_action = ''reboot'', dq_lang = [], dq_script = [], dq_args = [], dq_timeout = 0,
       dq_path = [], dq_content = [], dq_mode = []\<rparr>,
     vq_bulk = None, vq_tags = None, vq_limit = [], vq_level = [], vq_range = []\<rparr>"

lemma device_routes_scoped_witness:
  "fst (run_state (deviceSub demo_plane (\<lambda>r d. plain_answer 200) stranger reboot_request) fleet) = Resp 403 (Some VForbidden) \<and>
   snd (run_state (deviceSub demo_plane (\<lambda>r d. plain_answer 200) stranger reboot_request) fleet) = fleet\<lparr>tick := Suc (tick fleet)\<rparr>"
proof -
  have "path_parts (vq_path reboot_request) = ''api'' # ''devices'' # ''d1'' # [''commands'']" by code_simp
  moreover have "\<forall>d\<in>set (dev_rows fleet). dr_id d = ''d1'' \<longrightarrow> client_or_default d \<notin> set (ss_clients stranger)"
    by (simp add: fleet_def quiet_world_def demo_row_def new_dev_row_def client_or_default_def DefaultClientID_def stranger_def)
  ultimately show ?thesis
    using device_routes_scoped [of demo_plane stranger reboot_request "''api''" "''d1''" "[''commands'']" fleet "\<lambda>r d. plain_answer 200"]
    by (simp add: demo_plane_def undisturbed_def stranger_def operator_def) code_simp
qed

subsection \<open>Replayed metrics\<close>

fun write_again :: "plane_world env \<Rightarrow> string \<Rightarrow> metric_in list \<Rightarrow> nat \<Rightarrow> ((unit res) list) plm" where
  "write_again E dev ms 0 = State_Monad.return []"
| "write_again E dev ms (Suc n) = do {
     r \<leftarrow> write_metrics E dev ms;
     rs \<leftarrow> write_again E dev ms n;
     State_Monad.return (r # rs)
   }"

text \<open>The row of a sample whose instant is not replaced.\<close>

definition reported_row :: "string \<Rightarrow> metric_in \<Rightarrow> metric_row" where
  "reported_row dev m = \<lparr>mr_dev = dev, mr_name = mi_name m, mr_source = mi_source m, mr_value = mi_value m,
     mr_labels = mi_labels m, mr_ms = mi_ms m\<rparr>"

lemma reported_rows:
  "\<forall>m\<in>set ms. clamp_ms t (mi_ms m) = mi_ms m \<Longrightarrow> map (metric_of dev t) ms = map (reported_row dev) ms"
  by (auto simp: metric_of_def reported_row_def)

lemma write_once:
  assumes E: "undisturbed E" and clock: "\<forall>n. \<forall>m\<in>set ms. clamp_ms (clock E n) (mi_ms m) = mi_ms m"
    and run: "run_state (write_metrics E dev ms) w = (r, w1)"
  shows "metric_rows w1 \<in> {metric_rows w, add_new metric_key (metric_rows w) (map (reported_row dev) ms)}"
    "r = Inr () \<Longrightarrow> metric_rows w1 = add_new metric_key (metric_rows w) (map (reported_row dev) ms)"
proof -
  have eq: "map (metric_of dv (clock E (tick w))) ms = map (reported_row dv) ms" for dv
    using clock by (intro reported_rows) blast
  show "metric_rows w1 \<in> {metric_rows w, add_new metric_key (metric_rows w) (map (reported_row dev) ms)}"
    "r = Inr () \<Longrightarrow> metric_rows w1 = add_new metric_key (metric_rows w) (map (reported_row dev) ms)"
    using run E by (auto simp: write_metrics_def exec_def insert_metrics_stmt_def eq split: if_splits db_out.splits)
qed

text \<open>
  C33. Replaying a batch of metrics is harmless while nobody else writes and every instant of the batch is within the
  window of clock skew at each delivery: any number of deliveries, each of which may fail before or after its
  effect, leave the table as it was or as one delivery leaves it; as one delivery leaves it if any of them was
  acknowledged. (An instant outside the window is replaced by that of the delivery, and stored again.)
\<close>

theorem metrics_replay_once:
  assumes "undisturbed E" "\<forall>n. \<forall>m\<in>set ms. clamp_ms (clock E n) (mi_ms m) = mi_ms m"
  shows "metric_rows (snd (run_state (write_again E dev ms n) w)) \<in>
      {metric_rows w, add_new metric_key (metric_rows w) (map (reported_row dev) ms)} \<and>
    (Inr () \<in> set (fst (run_state (write_again E dev ms n) w)) \<longrightarrow>
     metric_rows (snd (run_state (write_again E dev ms n) w)) =
       add_new metric_key (metric_rows w) (map (reported_row dev) ms))"
proof (induction n arbitrary: w)
  case (Suc n)
  let ?rs = "map (reported_row dev) ms"
  obtain r w1 where run: "run_state (write_metrics E dev ms) w = (r, w1)" by fastforce
  have again: "add_new metric_key (add_new metric_key (metric_rows w) ?rs) ?rs = add_new metric_key (metric_rows w) ?rs"
    by (rule add_new_again) simp
  show ?case
    using write_once [OF assms run] Suc.IH [of w1] again by (auto simp: run)
qed simp

definition cpu_sample :: metric_in where
  "cpu_sample = \<lparr>mi_name = ''cpu'', mi_source = [], mi_value = Fin 1, mi_labels = [], mi_ms = 5\<rparr>"

definition lossy :: "plane_world env" where
  "lossy = (calm 0)\<lparr>db_out := (\<lambda>n. if n = 1 then DbLost else DbOk)\<rparr>"

lemma metrics_replay_once_witness:
  "fst (run_state (write_again lossy ''d1'' [cpu_sample] 2) fleet) = [Inl EDb, Inr ()] \<and>
   metric_rows (snd (run_state (write_again lossy ''d1'' [cpu_sample] 2) fleet)) = [reported_row ''d1'' cpu_sample]"
proof -
  have ans: "fst (run_state (write_again lossy ''d1'' [cpu_sample] 2) fleet) = [Inl EDb, Inr ()]" by code_simp
  have "undisturbed lossy" by (simp add: undisturbed_def lossy_def)
  moreover have "\<forall>n. \<forall>m\<in>set [cpu_sample]. clamp_ms (clock lossy n) (mi_ms m) = mi_ms m"
    by (simp add: lossy_def cpu_sample_def clamp_ms_def unix_ms_def tsSkewWindow_def duration_defs)
  ultimately have "metric_rows (snd (run_state (write_again lossy ''d1'' [cpu_sample] 2) fleet)) =
      add_new metric_key (metric_rows fleet) (map (reported_row ''d1'') [cpu_sample])"
    using metrics_replay_once [of lossy "[cpu_sample]" "''d1''" 2 fleet] ans by simp
  then show ?thesis using ans by (simp add: fleet_def quiet_world_def)
qed

text \<open>A sample outside the window is given the instant of each delivery, and is stored again.\<close>

lemma clamped_replay_duplicates:
  "length (metric_rows (snd (run_state (write_again ((calm 0)\<lparr>clock := (\<lambda>n. int n * second)\<rparr>) ''d1''
     [cpu_sample\<lparr>mi_ms := 1000000000\<rparr>] 3) fleet))) = 3"
  by code_simp

subsection \<open>The gate of the agent\<close>








subsection \<open>Pushes\<close>

text \<open>
  A push of chunks in order writes their concatenation; but the command that starts it holds the reader of
  the downlink, so nothing after it, its chunks included, is read.
\<close>

lemma chunked_push_writes:
  assumes "ds \<noteq> []" "\<forall>d\<in>set ds. length d \<le> MaxChunkBytes" "StartPush C i path [] = Inr p"
  shows "snd (push_all all_ok (chunks_of i 0 ds) (p, files1)) = files1(path \<mapsto> (concat ds, None))"
proof -
  have "p = \<lparr>ps_cmd = i, ps_path = path, ps_mode = [], ps_tmp = [], ps_expected = 0, ps_size = 0,
      ps_closed = False, ps_err = None, ps_done = False\<rparr>"
    using assms(3) by (auto simp: StartPush_def split: if_splits)
  then show ?thesis using push_all_chunks [OF assms(1,2), of p i 0 files1] by simp
qed

lemma chunked_push_blocks_downlink:
  assumes "fst (run_state (uplink_handleCommand D cmd alive) w) = WaitsFor i"
  shows "run_state (downlink D alive (FCommand cmd # fs)) w =
    ((fs, Some (StuckOn i)), snd (run_state (uplink_handleCommand D cmd alive) w))"
  using assms by simp

lemma chunked_push_waits:
  assumes "gd_verifier D = Some (J, v)" "cm_action cmd = Some (FilePush path [] mode)"
    and "cap_Check J v (clock (gd_env D) (tick w)) (cm_token cmd) CapFilePush (cm_id cmd) = None"
    and "\<And>n. gd_send D n" "\<And>n. gd_calls D n = all_ok"
  shows "fst (run_state (uplink_handleCommand D cmd alive) w) = WaitsFor (cm_id cmd)"
  using assms by (simp add: uplink_handleCommand_def ForCommand_def report_only_def sendResult_def run_action_def
      filePushCommand_def StartPush_def all_ok_def)

subsection \<open>Reconnection\<close>

text \<open>
  The agent waits between sessions: with its defaults filled in, every wait is at least the least
  backoff and at most one and a half times the greatest; and the k-th of the sessions that fail in a row
  is followed by a wait of the least backoff doubled k times, capped, and half of that at most.
\<close>

theorem reconnect_bounds:
  assumes "c = uplink_defaults c0" "uc_min c \<le> uc_max c" "jitters c (uc_min c) ss"
  shows "(\<forall>x\<in>set (reconnects c (uc_min c) ss). uc_min c \<le> x \<and> x \<le> uc_max c + uc_max c div 2) \<and>
    (list_all (\<lambda>(acked, d). \<not> acked) ss \<longrightarrow>
     (\<forall>k<length ss. min (2 ^ k * uc_min c) (uc_max c) \<le> reconnects c (uc_min c) ss ! k \<and>
        reconnects c (uc_min c) ss ! k \<le> min (2 ^ k * uc_min c) (uc_max c) + min (2 ^ k * uc_min c) (uc_max c) div 2))"
proof -
  have pos: "0 < uc_min c" "0 < uc_max c"
    using assms(1) by (auto simp: uplink_defaults_def Let_def second_def)
  have "min (2 ^ k * uc_min c) (uc_max c) \<le> reconnects c (uc_min c) ss ! k \<and>
      reconnects c (uc_min c) ss ! k \<le> min (2 ^ k * uc_min c) (uc_max c) + min (2 ^ k * uc_min c) (uc_max c) div 2"
    if "list_all (\<lambda>(acked, d). \<not> acked) ss" "k < length ss" for k
  proof -
    have "ss = map (Pair False) (map snd ss)" using that(1) by (induction ss) auto
    then show ?thesis
      using reconnect_doubles [OF pos(2), of "uc_min c" "map snd ss" k] pos assms(2,3) that(2) by simp
  qed
  then show ?thesis using reconnect_waits [OF pos(1) assms(2,3)] assms(2) by blast
qed

definition stock_uplink :: uplink_config where
  "stock_uplink = uplink_defaults \<lparr>uc_beat = 0, uc_metric = 0, uc_min = 0, uc_max = 0\<rparr>"

lemma reconnect_bounds_witness:
  "reconnects stock_uplink (uc_min stock_uplink) [(False, 0), (False, second), (False, 2 * second)] =
     [second, 3 * second, 6 * second] \<and>
   min (2 ^ 2 * uc_min stock_uplink) (uc_max stock_uplink) \<le> 6 * second"
proof -
  let ?ss = "[(False, 0), (False, second), (False, 2 * second)]"
  have j: "jitters stock_uplink (uc_min stock_uplink) ?ss" and m: "uc_min stock_uplink \<le> uc_max stock_uplink"
    and r: "reconnects stock_uplink (uc_min stock_uplink) ?ss = [second, 3 * second, 6 * second]"
    by code_simp+
  from reconnect_bounds [OF stock_uplink_def m j, unfolded r]
  have "\<forall>k<length ?ss. min (2 ^ k * uc_min stock_uplink) (uc_max stock_uplink) \<le> [second, 3 * second, 6 * second] ! k"
    by simp
  from spec [OF this, of 2] show ?thesis unfolding r by simp
qed

end
