(* ===== verification/Float_Arith.thy ===== *)
theory Float_Arith
  imports Prelude
begin

section \<open>Arithmetic on binary64 numbers\<close>

text \<open>
  The operations of Go's \<^verbatim>\<open>float64\<close> the baselining engine computes with. A finite result is the exact
  rational one rounded to the nearest binary64 number, ties to even; too large a result is an infinity. The
  sign of zero is not modelled: \<^verbatim>\<open>-0\<close> and \<^verbatim>\<open>0\<close> compare equal, and the code divides by no zero. The order of
  the type is that of \<^verbatim>\<open>sort.Float64s\<close>: NaN first, then by value.
\<close>

subsection \<open>The order of \<^verbatim>\<open>sort.Float64s\<close>\<close>

instantiation f64 :: linorder
begin

fun less_eq_f64 :: "f64 \<Rightarrow> f64 \<Rightarrow> bool" where
  "less_eq_f64 NaN b = True"
| "less_eq_f64 NInf b = (b \<noteq> NaN)"
| "less_eq_f64 (Fin x) b = (case b of Fin y \<Rightarrow> x \<le> y | PInf \<Rightarrow> True | _ \<Rightarrow> False)"
| "less_eq_f64 PInf b = (b = PInf)"

definition less_f64 :: "f64 \<Rightarrow> f64 \<Rightarrow> bool" where
  "less_f64 a b \<longleftrightarrow> a \<le> b \<and> a \<noteq> b"

instance
proof
  fix x y z :: f64
  show "x \<le> x" by (cases x) auto
  show "x \<le> y \<Longrightarrow> y \<le> z \<Longrightarrow> x \<le> z" by (cases x; cases y; cases z) auto
  show anti: "x \<le> y \<Longrightarrow> y \<le> x \<Longrightarrow> x = y" by (cases x; cases y) auto
  show "(x < y) = (x \<le> y \<and> \<not> y \<le> x)" by (cases x; cases y) (auto simp: less_f64_def)
  show "x \<le> y \<or> y \<le> x" by (cases x; cases y) auto
qed

end

lemma f_le_iff: "a \<noteq> NaN \<Longrightarrow> f_le a b \<longleftrightarrow> a \<le> b"
  by (cases a; cases b) (auto simp: f_le_def f_eq_def)

subsection \<open>Rounding\<close>

text \<open>Powers of two by squaring, and the number of binary digits.\<close>

function two_to :: "int \<Rightarrow> int" where
  "two_to n =
     (if n \<le> 0 then 1
      else let h = two_to (n div 2) in if even n then h * h else 2 * (h * h))"
  by pat_completeness auto
termination by (relation "measure nat") auto

function bits :: "int \<Rightarrow> int" where
  "bits n = (if n \<le> 0 then 0 else 1 + bits (n div 2))"
  by pat_completeness auto
termination by (relation "measure nat") auto

declare two_to.simps [simp del] bits.simps [simp del]

lemma two_twice: "0 \<le> k \<Longrightarrow> (2::int) ^ nat (2 * k) = 2 ^ nat k * 2 ^ nat k"
  by (simp add: nat_mult_distrib power_mult flip: power_mult_distrib)

lemma two_to_eq: "two_to n = 2 ^ nat n"
proof (induction n rule: two_to.induct)
  case (1 n)
  show ?case
  proof (cases "n \<le> 0")
    case True
    then show ?thesis by (simp add: two_to.simps [of n])
  next
    case False
    have "(2::int) ^ nat n = (if even n then 1 else 2) * (2 ^ nat (n div 2) * 2 ^ nat (n div 2))"
    proof (cases "even n")
      case True
      then obtain k where "n = 2 * k" by (rule evenE)
      with False show ?thesis by (simp add: two_twice)
    next
      case odd: False
      then obtain k where "n = 2 * k + 1" by (rule oddE)
      with False show ?thesis by (simp add: two_twice nat_add_distrib)
    qed
    with False show ?thesis
      using "1.IH" by (simp add: two_to.simps [of n] Let_def)
  qed
qed

lemma bits_bounds: "0 < n \<Longrightarrow> 2 ^ nat (bits n - 1) \<le> n \<and> n < 2 ^ nat (bits n) \<and> 0 < bits n"
proof (induction n rule: bits.induct)
  case (1 n)
  show ?case
  proof (cases "n = 1")
    case True
    then show ?thesis by (simp add: bits.simps)
  next
    case False
    with "1.prems" have "0 < n div 2" by simp
    with "1.IH" "1.prems" have ih: "2 ^ nat (bits (n div 2) - 1) \<le> n div 2" "n div 2 < 2 ^ nat (bits (n div 2))"
      "0 < bits (n div 2)" by auto
    have b: "bits n = 1 + bits (n div 2)" using "1.prems" by (simp add: bits.simps [of n])
    have "nat (bits n - 1) = Suc (nat (bits (n div 2) - 1))" "nat (bits n) = Suc (nat (bits (n div 2)))"
      using ih(3) b by simp_all
    moreover have "2 * (n div 2) \<le> n" "n < 2 * (n div 2) + 2" by simp_all
    ultimately show ?thesis using ih b by (simp only: power_Suc) linarith
  qed
qed

definition pow2 :: "int \<Rightarrow> rat" where
  "pow2 e = (if e \<ge> 0 then of_int (two_to e) else 1 / of_int (two_to (- e)))"

text \<open>The exponent of a positive number: the greatest \<open>e\<close> with \<open>pow2 e \<le> x\<close>.\<close>

definition log2_floor :: "rat \<Rightarrow> int" where
  "log2_floor x =
     (let (p, q) = quotient_of x; e = bits p - bits q in if pow2 e \<le> x then e else e - 1)"

lemma pow2_power_int: "pow2 e = 2 powi e"
  by (simp add: pow2_def two_to_eq power_int_def divide_simps)

lemma pow2_pos [simp]: "0 < pow2 e"
  by (simp add: pow2_power_int)

lemma log2_floor_bounds:
  assumes "0 < x"
  shows "pow2 (log2_floor x) \<le> x \<and> x < pow2 (log2_floor x + 1)"
proof -
  obtain p q where pq: "quotient_of x = (p, q)" by fastforce
  have q: "0 < q" by (rule quotient_of_denom_pos [OF pq])
  have x: "x = of_int p / of_int q" by (rule quotient_of_div [OF pq])
  with q assms have p: "0 < p" by (simp add: zero_less_divide_iff)
  have up: "of_int n < pow2 (bits n)" and low: "pow2 (bits n - 1) \<le> of_int n" if "0 < n" for n
  proof -
    have b: "2 ^ nat (bits n - 1) \<le> n" "n < 2 ^ nat (bits n)" "0 < bits n" using bits_bounds [OF that] by auto
    have "(of_int n :: rat) < of_int (2 ^ nat (bits n))" using b(2) by (simp only: of_int_less_iff)
    then show "of_int n < pow2 (bits n)" using b(3) by (simp add: pow2_def two_to_eq)
    have "(of_int (2 ^ nat (bits n - 1)) :: rat) \<le> of_int n" using b(1) by (simp only: of_int_le_iff)
    then show "pow2 (bits n - 1) \<le> of_int n" using b(3) by (simp add: pow2_def two_to_eq)
  qed
  have split: "pow2 (a + b) = pow2 a * pow2 b" for a b by (simp add: pow2_power_int power_int_add)
  let ?e = "bits p - bits q"
  have "pow2 ?e * of_int q \<le> pow2 ?e * pow2 (bits q)" using up [OF q] by simp
  have "x < pow2 (?e + 1)"
  proof -
    have "of_int p < pow2 (?e + 1) * pow2 (bits q - 1)" using up [OF p] by (simp flip: split)
    also have "\<dots> \<le> pow2 (?e + 1) * of_int q" using low [OF q] by simp
    finally show ?thesis using q by (simp add: x divide_less_eq)
  qed
  moreover have "pow2 (?e - 1) \<le> x"
  proof -
    have "pow2 (?e - 1) * of_int q \<le> pow2 (?e - 1) * pow2 (bits q)" using up [OF q] by simp
    also have "\<dots> \<le> of_int p" using low [OF p] by (simp flip: split)
    finally show ?thesis using q by (simp add: x le_divide_eq)
  qed
  ultimately show ?thesis by (auto simp: log2_floor_def pq Let_def)
qed

definition round_even :: "rat \<Rightarrow> int" where
  "round_even x =
     (let n = \<lfloor>x\<rfloor>; d = x - of_int n in
      if d < 1 / 2 \<or> (d = 1 / 2 \<and> even n) then n else n + 1)"

text \<open>53 significant bits, least exponent \<^verbatim>\<open>-1074\<close>, finite below \<^verbatim>\<open>2^1024\<close>.\<close>

definition round64 :: "rat \<Rightarrow> f64" where
  "round64 x =
     (if x = 0 then Fin 0
      else
        let e = max (log2_floor \<bar>x\<bar> - 52) (- 1074); v = of_int (round_even (\<bar>x\<bar> / pow2 e)) * pow2 e in
        if v \<ge> pow2 1024 then (if x < 0 then NInf else PInf)
        else Fin (if x < 0 then - v else v))"

lemma round64_0 [simp]: "round64 0 = Fin 0"
  by (simp add: round64_def)

text \<open>Rounding is to the nearest, and exact on the integers below \<^verbatim>\<open>2^53\<close>.\<close>

lemma round_even_nearest: "\<bar>of_int (round_even x) - x\<bar> \<le> 1 / 2"
proof -
  have "of_int \<lfloor>x\<rfloor> \<le> x" "x < of_int \<lfloor>x\<rfloor> + 1" by linarith+
  then show ?thesis by (auto simp: round_even_def Let_def abs_le_iff)
qed

lemma round_even_of_int [simp]: "round_even (of_int n) = n"
  by (simp add: round_even_def)

lemma round64_of_int:
  assumes "\<bar>n\<bar> < 2 ^ 53"
  shows "round64 (of_int n) = Fin (of_int n)"
proof (cases "n = 0")
  case False
  let ?x = "\<bar>of_int n :: rat\<bar>"
  have pos: "0 < ?x" using False by simp
  have "(of_int \<bar>n\<bar> :: rat) < of_int (2 ^ 53)" using assms by (simp only: of_int_less_iff)
  then have lt: "?x < pow2 53" by (simp add: pow2_power_int)
  have "pow2 (log2_floor ?x) \<le> ?x" using log2_floor_bounds [OF pos] by simp
  with lt have "pow2 (log2_floor ?x) < pow2 53" by simp
  then have "log2_floor ?x < 53"
    using power_int_le_imp_less_exp [of "2 :: rat" "log2_floor ?x" 53] by (simp add: pow2_power_int)
  then have e: "max (log2_floor ?x - 52) (- 1074) \<le> 0" by simp
  define k where "k = max (log2_floor ?x - 52) (- 1074)"
  have "?x / pow2 k = of_int (\<bar>n\<bar> * 2 ^ nat (- k))"
    using e by (simp add: k_def pow2_def two_to_eq)
  then have "of_int (round_even (?x / pow2 k)) * pow2 k = ?x"
    by (metis less_irrefl nonzero_divide_eq_eq pow2_pos round_even_of_int)
  moreover have "?x < pow2 1024"
    using lt by (simp add: pow2_power_int)
  ultimately show ?thesis
    using False unfolding round64_def Let_def k_def [symmetric] by (cases "n < 0") simp_all
qed simp

lemma round64_not_NaN [simp]: "round64 x \<noteq> NaN"
  by (simp add: round64_def Let_def)

subsection \<open>Operations\<close>

fun f_neg :: "f64 \<Rightarrow> f64" where
  "f_neg NaN = NaN"
| "f_neg NInf = PInf"
| "f_neg PInf = NInf"
| "f_neg (Fin x) = Fin (- x)"

fun f_add :: "f64 \<Rightarrow> f64 \<Rightarrow> f64" where
  "f_add NaN b = NaN"
| "f_add a NaN = NaN"
| "f_add NInf b = (if b = PInf then NaN else NInf)"
| "f_add PInf b = (if b = NInf then NaN else PInf)"
| "f_add a NInf = NInf"
| "f_add a PInf = PInf"
| "f_add (Fin x) (Fin y) = round64 (x + y)"

definition f_sub :: "f64 \<Rightarrow> f64 \<Rightarrow> f64" where
  "f_sub a b = f_add a (f_neg b)"

text \<open>The sign of a number that is not NaN.\<close>

fun f_sgn :: "f64 \<Rightarrow> rat" where
  "f_sgn NaN = 0"
| "f_sgn NInf = - 1"
| "f_sgn PInf = 1"
| "f_sgn (Fin x) = sgn x"

definition f_inf :: "rat \<Rightarrow> f64" where
  "f_inf s = (if s = 0 then NaN else if s < 0 then NInf else PInf)"

fun f_mul :: "f64 \<Rightarrow> f64 \<Rightarrow> f64" where
  "f_mul NaN b = NaN"
| "f_mul a NaN = NaN"
| "f_mul (Fin x) (Fin y) = round64 (x * y)"
| "f_mul a b = f_inf (f_sgn a * f_sgn b)"

text \<open>A zero divisor counts as \<^verbatim>\<open>+0\<close>.\<close>

fun f_div :: "f64 \<Rightarrow> f64 \<Rightarrow> f64" where
  "f_div NaN b = NaN"
| "f_div a NaN = NaN"
| "f_div (Fin x) (Fin y) = (if y = 0 then f_inf (sgn x) else round64 (x / y))"
| "f_div (Fin x) b = Fin 0"
| "f_div a (Fin y) = f_inf (f_sgn a * (if y = 0 then 1 else sgn y))"
| "f_div a b = NaN"

definition f_abs :: "f64 \<Rightarrow> f64" where
  "f_abs d = (if f_lt d (Fin 0) then f_neg d else d)"

lemma f_abs_ge_0: "f_abs d = NaN \<or> Fin 0 \<le> f_abs d"
  by (cases d) (auto simp: f_abs_def)

end
