(* ===== verification/Baseline.thy ===== *)
theory Baseline
  imports Telemetry Float_Arith
begin

section \<open>Dynamic baselining: scoring the latest hour of every series\<close>

text \<open>
  \<^verbatim>\<open>server/internal/baseline/baseline.go\<close> and \<^verbatim>\<open>server/internal/store/baseline.go\<close>: hourly means are read from
  the metrics, the latest one of a series is scored against its history of the same weekday and hour and
  against the preceding hours of the day, and what scores high is an anomaly. Postgres' \<^verbatim>\<open>avg\<close> is a parameter.
  Go may fuse a multiplication and an addition on some processors, which here affects the smoothed level
  only; the model rounds each operation.
\<close>

subsection \<open>Statistics\<close>

text \<open>\<^verbatim>\<open>sort.Float64s\<close> is the library's \<open>sort\<close> in the order of the type.\<close>

definition median :: "f64 list \<Rightarrow> f64" where
  "median xs =
     (let n = length xs; s = sort xs in
      if n = 0 then Fin 0
      else if n mod 2 = 1 then s ! (n div 2)
      else f_div (f_add (s ! (n div 2 - 1)) (s ! (n div 2))) (Fin 2))"

definition madAround :: "f64 \<Rightarrow> f64 list \<Rightarrow> f64" where
  "madAround around xs = median (map (\<lambda>x. f_abs (f_sub x around)) xs)"

text \<open>The floor of the scale; the product with a constant is that with its rounded value.\<close>

definition scale_floor :: "f64 \<Rightarrow> f64" where
  "scale_floor med =
     (if f_lt (Fin 0) med then f_mul med (round64 (1 / 100))
      else if f_lt med (Fin 0) then f_mul (f_neg med) (round64 (1 / 100))
      else round64 (1 / 1000))"

definition scale_of :: "f64 \<Rightarrow> f64 \<Rightarrow> f64" where
  "scale_of med mad =
     (let scale = f_mul (round64 (14826 / 10000)) mad in
      if f_lt scale (scale_floor med) then scale_floor med else scale)"

definition robustZ :: "f64 \<Rightarrow> f64 \<Rightarrow> f64 \<Rightarrow> f64 option" where
  "robustZ x med mad =
     (let scale = scale_of med mad in
      if f_eq scale (Fin 0) then None else Some (f_div (f_abs (f_sub x med)) scale))"

subsection \<open>Cells\<close>

record cell =
  ce_values :: "f64 list"
  ce_med :: f64
  ce_mad :: f64
  ce_ewma :: f64
  ce_count :: nat
  ce_has :: bool

definition empty_cell :: cell where
  "empty_cell = \<lparr>ce_values = [], ce_med = Fin 0, ce_mad = Fin 0, ce_ewma = Fin 0, ce_count = 0, ce_has = False\<rparr>"

definition DefaultEWMAAlpha :: f64 where "DefaultEWMAAlpha = round64 (3 / 10)"

definition cell_Add :: "cell \<Rightarrow> f64 \<Rightarrow> cell" where
  "cell_Add c v =
     (let vs = sort (ce_values c @ [v]); med = median vs in
      \<lparr>ce_values = vs, ce_med = med, ce_mad = madAround med vs,
       ce_ewma = (if ce_has c then f_add (ce_ewma c) (f_mul DefaultEWMAAlpha (f_sub v (ce_ewma c))) else v),
       ce_count = ce_count c + 1, ce_has = True\<rparr>)"

definition cell_Score :: "cell \<Rightarrow> f64 \<Rightarrow> f64 option" where
  "cell_Score c x = (if ce_has c then robustZ x (ce_med c) (ce_mad c) else None)"

subsection \<open>Series, points and anomalies\<close>

record series_key =
  sk_dev :: string
  sk_name :: string
  sk_source :: string

record point =
  pt_at :: time
  pt_mean :: f64

record time_series =
  ts_key :: series_key
  ts_points :: "point list"

record cell_score =
  cs_z :: f64
  cs_median :: f64
  cs_mad :: f64
  cs_ewma :: f64
  cs_cells :: nat

record anomaly =
  an_at :: time
  an_key :: series_key
  an_value :: f64
  an_seasonal :: "cell_score option"
  an_trend :: "cell_score option"
  an_score :: f64

record job =
  jb_lookback :: duration
  jb_trend_hours :: int
  jb_min_cells :: int
  jb_zflag :: f64

definition job_defaults :: "job \<Rightarrow> job" where
  "job_defaults j =
     \<lparr>jb_lookback = (if jb_lookback j \<le> 0 then 45 * 24 * hour else jb_lookback j),
      jb_trend_hours = (if jb_trend_hours j \<le> 0 then 4 else jb_trend_hours j),
      jb_min_cells = (if jb_min_cells j \<le> 0 then 3 else jb_min_cells j),
      jb_zflag = (if f_le (jb_zflag j) (Fin 0) then Fin 4 else jb_zflag j)\<rparr>"

definition clockTolerance :: duration where "clockTolerance = 50 * second"

text \<open>Weekday (0 is Sunday; 1970-01-01 was a Thursday) and hour in UTC; the day stands for its calendar date.\<close>

definition day_of :: "time \<Rightarrow> int" where
  "day_of t = t div (24 * hour)"

definition slotOf :: "time \<Rightarrow> int \<times> int" where
  "slotOf t = ((day_of t + 4) mod 7, (t div hour) mod 24)"

definition sameDay :: "time \<Rightarrow> time \<Rightarrow> bool" where
  "sameDay a b \<longleftrightarrow> day_of a = day_of b"

subsection \<open>Scoring one series\<close>

definition in_future :: "time \<Rightarrow> point \<Rightarrow> bool" where
  "in_future t p \<longleftrightarrow> pt_at p > t + clockTolerance"

definition latest_point :: "time \<Rightarrow> point list \<Rightarrow> point option" where
  "latest_point t ps = fold (\<lambda>p l. if in_future t p then l else Some p) ps None"

definition before :: "time \<Rightarrow> point \<Rightarrow> point list \<Rightarrow> point list" where
  "before t l ps = filter (\<lambda>p. pt_at p < pt_at l \<and> \<not> in_future t p) ps"

definition seasonal_history :: "time \<Rightarrow> point \<Rightarrow> point list \<Rightarrow> f64 list" where
  "seasonal_history t l ps =
     sort (map pt_mean (filter (\<lambda>p. slotOf (pt_at p) = slotOf (pt_at l)) (before t l ps)))"

definition trend_history :: "job \<Rightarrow> time \<Rightarrow> point \<Rightarrow> point list \<Rightarrow> f64 list" where
  "trend_history j t l ps =
     sort (map pt_mean (filter
       (\<lambda>p. pt_at p \<ge> pt_at l - jb_trend_hours j * hour \<and> sameDay (pt_at p) (pt_at l)) (before t l ps)))"

definition channel_score :: "job \<Rightarrow> f64 list \<Rightarrow> f64 \<Rightarrow> cell_score option" where
  "channel_score j hist x =
     (if int (length hist) < jb_min_cells j then None
      else
        let c = fold (\<lambda>v c. cell_Add c v) hist empty_cell in
        map_option (\<lambda>z. \<lparr>cs_z = z, cs_median = ce_med c, cs_mad = ce_mad c, cs_ewma = ce_ewma c,
                         cs_cells = length (ce_values c)\<rparr>) (cell_Score c x))"

definition fired :: "job \<Rightarrow> cell_score option \<Rightarrow> bool" where
  "fired j c \<longleftrightarrow> (case c of None \<Rightarrow> False | Some s \<Rightarrow> f_le (jb_zflag j) (cs_z s))"

definition z_or_0 :: "cell_score option \<Rightarrow> f64" where
  "z_or_0 c = (case c of None \<Rightarrow> Fin 0 | Some s \<Rightarrow> cs_z s)"

definition score_latest :: "job \<Rightarrow> time \<Rightarrow> series_key \<Rightarrow> point \<Rightarrow> point list \<Rightarrow> anomaly option" where
  "score_latest j t k l ps =
     (let sc = channel_score j (seasonal_history t l ps) (pt_mean l);
          tc = channel_score j (trend_history j t l ps) (pt_mean l);
          score = (if f_lt (z_or_0 sc) (z_or_0 tc) then z_or_0 tc else z_or_0 sc) in
      if (fired j sc \<or> fired j tc) \<and> score \<noteq> NaN
      then Some \<lparr>an_at = pt_at l, an_key = k, an_value = pt_mean l, an_seasonal = sc, an_trend = tc, an_score = score\<rparr>
      else None)"

definition score_series :: "job \<Rightarrow> time \<Rightarrow> time_series \<Rightarrow> anomaly option" where
  "score_series j t ts =
     Option.bind (latest_point t (ts_points ts)) (\<lambda>l. score_latest j t (ts_key ts) l (ts_points ts))"

end
