(* ===== verification/Alerts.thy ===== *)
theory Alerts
  imports Baseline
begin

section \<open>Scoring passes and the deduplicated alert inbox\<close>

text \<open>
  \<^verbatim>\<open>server/internal/store/baseline.go\<close>, \<^verbatim>\<open>store/alerts.go\<close> (migrations 0002 and 0003) and the pass of
  \<^verbatim>\<open>baseline.go\<close>. A pass scores every series, records its anomalies and reconciles the inbox: one alert that is
  not resolved per series. A Go map is ranged over in an order the parameter \<open>dk_range\<close> gives; the streaks of
  clean passes are memory of the process, the tables are in Postgres. The world also logs the lifecycle
  events the sink received.
\<close>

subsection \<open>State\<close>

record stored_anomaly =
  sa_id :: int
  sa_key :: series_key
  sa_hour :: time
  sa_at :: time
  sa_value :: f64
  sa_score :: f64
  sa_channel :: string
  sa_seasonal :: "(f64 \<times> f64 \<times> f64 \<times> nat) option"
  sa_trend :: "(f64 \<times> f64 \<times> f64 \<times> nat) option"
  sa_detected :: time

record alert =
  al_id :: int
  al_key :: series_key
  al_status :: string
  al_score :: f64
  al_channel :: string
  al_value :: f64
  al_expected :: "f64 option"
  al_events :: int
  al_first :: time
  al_last :: time
  al_resolved :: "time option"
  al_acked :: "time option"
  al_created :: time
  al_updated :: time

text \<open>What the sink gets: the observation is absent when a pass resolves an alert.\<close>

record alert_payload =
  ap_key :: series_key
  ap_status :: string
  ap_value :: "f64 option"
  ap_score :: "f64 option"
  ap_channel :: "string option"
  ap_at :: "time option"
  ap_expected :: "f64 option"

record alert_world = plane_world +
  job_anoms :: "anomaly list"
  job_scored :: "series_key list option"
  job_runs :: nat
  job_series :: "series_key list"
  anomaly_rows :: "stored_anomaly list"
  anomaly_seq :: int
  alert_rows :: "alert list"
  alert_seq :: int
  alert_quiet :: "series_key \<Rightarrow> nat option"
  alert_log :: "(string \<times> alert_payload) list"

type_synonym 'a alm = "(alert_world, 'a) m"

record desk =
  dk_env :: "alert_world env"
  dk_avg :: "f64 list \<Rightarrow> f64"
  dk_range :: "nat \<Rightarrow> series_key list \<Rightarrow> series_key list"
  dk_job :: job
  dk_sink :: bool
  dk_alerts :: bool
  dk_quiet :: int
  dk_events :: bool

subsection \<open>The source of samples\<close>

definition date_hour :: "time \<Rightarrow> time" where
  "date_hour t = (t div hour) * hour"

definition row_ts :: "metric_row \<Rightarrow> time" where
  "row_ts r = mr_ms r * 1000000"

definition row_key :: "metric_row \<Rightarrow> series_key" where
  "row_key r = \<lparr>sk_dev = mr_dev r, sk_name = mr_name r, sk_source = mr_source r\<rparr>"

definition in_window :: "time \<Rightarrow> time \<Rightarrow> metric_row \<Rightarrow> bool" where
  "in_window since until r \<longleftrightarrow> since \<le> row_ts r \<and> row_ts r \<le> until"

text \<open>The groups in the order of device, name, source and hour.\<close>

definition hourly_means :: "(f64 list \<Rightarrow> f64) \<Rightarrow> time \<Rightarrow> time \<Rightarrow> metric_row list \<Rightarrow> (series_key \<times> time \<times> f64) list" where
  "hourly_means avg since until rows =
     (let rs = filter (in_window since until) rows;
          group = (\<lambda>r. (row_key r, date_hour (row_ts r))) in
      map (\<lambda>(k, h). (k, h, avg (map mr_value (filter (\<lambda>r. group r = (k, h)) rs))))
        (sort_key (sk_dev \<circ> fst) (sort_key (sk_name \<circ> fst) (sort_key (sk_source \<circ> fst)
          (sort_key snd (remdups (map group rs)))))))"

fun add_point :: "series_key \<times> time \<times> f64 \<Rightarrow> time_series list \<Rightarrow> time_series list" where
  "add_point (k, h, m) [] = [\<lparr>ts_key = k, ts_points = [\<lparr>pt_at = h, pt_mean = m\<rparr>]\<rparr>]"
| "add_point (k, h, m) (ts # tss) =
     (if ts_key ts = k then ts\<lparr>ts_points := ts_points ts @ [\<lparr>pt_at = h, pt_mean = m\<rparr>]\<rparr> # tss
      else ts # add_point (k, h, m) tss)"

definition group_series :: "(series_key \<times> time \<times> f64) list \<Rightarrow> time_series list" where
  "group_series rows = fold add_point rows []"

definition Samples :: "desk \<Rightarrow> time \<Rightarrow> time \<Rightarrow> (time_series list res) alm" where
  "Samples D since until =
     query (dk_env D) (\<lambda>w. group_series (hourly_means (dk_avg D) since until (metric_rows w)))"

subsection \<open>Stored anomalies\<close>

definition seasonal_leads :: "anomaly \<Rightarrow> bool" where
  "seasonal_leads a \<longleftrightarrow>
     (case an_seasonal a of
        None \<Rightarrow> False
      | Some s \<Rightarrow> (case an_trend a of None \<Rightarrow> True | Some t \<Rightarrow> f_le (cs_z t) (cs_z s)))"

definition sink_channel :: "anomaly \<Rightarrow> string" where
  "sink_channel a = (if seasonal_leads a then ''seasonal'' else ''trend'')"

definition nullable :: "cell_score option \<Rightarrow> (f64 \<times> f64 \<times> f64 \<times> nat) option" where
  "nullable c = map_option (\<lambda>s. (cs_z s, cs_median s, cs_mad s, cs_cells s)) c"

definition stored_of :: "int \<Rightarrow> time \<Rightarrow> anomaly \<Rightarrow> stored_anomaly" where
  "stored_of i t a =
     \<lparr>sa_id = i, sa_key = an_key a, sa_hour = date_hour (an_at a), sa_at = an_at a, sa_value = an_value a,
      sa_score = an_score a, sa_channel = sink_channel a, sa_seasonal = nullable (an_seasonal a),
      sa_trend = nullable (an_trend a), sa_detected = t\<rparr>"

definition record_stmt :: "anomaly \<Rightarrow> time \<Rightarrow> alert_world \<Rightarrow> unit res \<times> alert_world" where
  "record_stmt a t w =
     (let i = anomaly_seq w; w' = w\<lparr>anomaly_seq := i + 1\<rparr>;
          same = (\<lambda>r. sa_key r = an_key a \<and> sa_hour r = date_hour (an_at a)) in
      (Inr (), w'\<lparr>anomaly_rows :=
         (if \<exists>r\<in>set (anomaly_rows w). same r
          then update_where same (\<lambda>r. stored_of (sa_id r) t a) (anomaly_rows w)
          else anomaly_rows w @ [stored_of i t a])\<rparr>))"

definition sink_Record :: "desk \<Rightarrow> anomaly \<Rightarrow> unit alm" where
  "sink_Record D a = do {
     r \<leftarrow> exec (dk_env D) (\<lambda>w. record_stmt a (clock (dk_env D) (tick w)) w);
     State_Monad.return ()
   }"

definition page_limit :: "int \<Rightarrow> nat" where
  "page_limit n = nat (if n \<le> 0 \<or> n > 500 then 100 else n)"

definition sink_Recent :: "desk \<Rightarrow> int \<Rightarrow> ((stored_anomaly list) res) alm" where
  "sink_Recent D n =
     (if \<not> dk_sink D then State_Monad.return (Inr [])
      else query (dk_env D) (\<lambda>w. take (page_limit n)
        (sort_key (\<lambda>r. - sa_at r) (sort_key (\<lambda>r. - sa_id r) (anomaly_rows w)))))"

subsection \<open>Planning\<close>

text \<open>Of several anomalies of a series the first with the greatest score.\<close>

definition worst_of :: "anomaly list \<Rightarrow> (series_key \<times> anomaly) list" where
  "worst_of as = fold (\<lambda>a m.
     case map_of m (an_key a) of
       None \<Rightarrow> put (an_key a) a m
     | Some c \<Rightarrow> if f_lt (an_score c) (an_score a) then put (an_key a) a m else m) as []"

record plan =
  pl_create :: "(series_key \<times> anomaly) list"
  pl_bump :: "(series_key \<times> anomaly) list"
  pl_resolve :: "series_key list"

definition clean_pass :: "int \<Rightarrow> series_key set \<Rightarrow> series_key set \<Rightarrow> series_key \<Rightarrow>
    series_key list \<times> (series_key \<Rightarrow> nat option) \<Rightarrow> series_key list \<times> (series_key \<Rightarrow> nat option)" where
  "clean_pass needed hot live k st =
     (let (rs, q) = st; n = (case q k of None \<Rightarrow> 0 | Some n \<Rightarrow> n) + 1 in
      if k \<in> hot then (rs, q)
      else if k \<notin> live then (rs, q(k := None))
      else if int n \<ge> needed then (rs @ [k], q(k := None))
      else (rs, q(k \<mapsto> n)))"

text \<open>\<open>scored\<close> is in the order in which the map is ranged over; the plan comes with the streaks after it.\<close>

definition planReconcile :: "anomaly list \<Rightarrow> series_key list \<Rightarrow> series_key list \<Rightarrow> (series_key \<Rightarrow> nat option) \<Rightarrow> int \<Rightarrow>
    plan \<times> (series_key \<Rightarrow> nat option)" where
  "planReconcile anoms scored live quiet needed =
     (let hot = worst_of anoms; keys = fst ` set hot;
          st = fold (clean_pass (if needed \<le> 0 then 1 else needed) keys (set live)) scored
                 ([], \<lambda>k. if k \<in> keys then None else quiet k) in
      (\<lparr>pl_create = filter (\<lambda>x. fst x \<notin> set live) hot, pl_bump = filter (\<lambda>x. fst x \<in> set live) hot,
        pl_resolve = fst st\<rparr>, snd st))"

subsection \<open>Statements on the inbox\<close>

definition is_live :: "alert \<Rightarrow> bool" where
  "is_live a \<longleftrightarrow> al_status a = ''open'' \<or> al_status a = ''acked''"

definition live_of :: "series_key \<Rightarrow> alert \<Rightarrow> bool" where
  "live_of k a \<longleftrightarrow> al_key a = k \<and> is_live a"

text \<open>\<^verbatim>\<open>GREATEST\<close>: Postgres orders NaN above every number.\<close>

definition pg_greatest :: "f64 \<Rightarrow> f64 \<Rightarrow> f64" where
  "pg_greatest a b = (if a = NaN \<or> b = NaN then NaN else max a b)"

definition alertFields :: "anomaly \<Rightarrow> string \<times> f64 option" where
  "alertFields a =
     (if seasonal_leads a then (''seasonal'', map_option cs_median (an_seasonal a))
      else case an_trend a of None \<Rightarrow> ([], None) | Some t \<Rightarrow> (''trend'', Some (cs_median t)))"

definition new_alert :: "int \<Rightarrow> series_key \<Rightarrow> anomaly \<Rightarrow> time \<Rightarrow> alert" where
  "new_alert i k a t =
     \<lparr>al_id = i, al_key = k, al_status = ''open'', al_score = an_score a, al_channel = fst (alertFields a),
      al_value = an_value a, al_expected = snd (alertFields a), al_events = 1, al_first = an_at a, al_last = an_at a,
      al_resolved = None, al_acked = None, al_created = t, al_updated = t\<rparr>"

definition insert_alert_stmt :: "series_key \<Rightarrow> anomaly \<Rightarrow> time \<Rightarrow> alert_world \<Rightarrow> unit res \<times> alert_world" where
  "insert_alert_stmt k a t w =
     (let i = alert_seq w; w' = w\<lparr>alert_seq := i + 1\<rparr>; r = new_alert i k a t in
      if violates al_key is_live (alert_rows w) r then (Inl EUnique, w')
      else (Inr (), w'\<lparr>alert_rows := alert_rows w @ [r]\<rparr>))"

definition bumped :: "anomaly \<Rightarrow> time \<Rightarrow> alert \<Rightarrow> alert" where
  "bumped a t r = r\<lparr>al_events := al_events r + 1, al_score := pg_greatest (al_score r) (an_score a),
     al_value := an_value a, al_channel := fst (alertFields a), al_expected := snd (alertFields a),
     al_last := an_at a, al_updated := t\<rparr>"

definition bump_stmt :: "series_key \<Rightarrow> anomaly \<Rightarrow> time \<Rightarrow> alert_world \<Rightarrow> unit res \<times> alert_world" where
  "bump_stmt k a t w = (Inr (), w\<lparr>alert_rows := update_where (live_of k) (bumped a t) (alert_rows w)\<rparr>)"

definition resolved :: "time \<Rightarrow> alert \<Rightarrow> alert" where
  "resolved t r = r\<lparr>al_status := ''resolved'', al_resolved := Some t, al_updated := t\<rparr>"

definition resolve_stmt :: "series_key \<Rightarrow> time \<Rightarrow> alert_world \<Rightarrow> nat res \<times> alert_world" where
  "resolve_stmt k t w =
     (Inr (affected (live_of k) (alert_rows w)),
      w\<lparr>alert_rows := update_where (live_of k) (resolved t) (alert_rows w)\<rparr>)"

definition bumpAlert :: "desk \<Rightarrow> series_key \<Rightarrow> anomaly \<Rightarrow> (unit res) alm" where
  "bumpAlert D k a = exec (dk_env D) (\<lambda>w. bump_stmt k a (clock (dk_env D) (tick w)) w)"

definition upsertAlert :: "desk \<Rightarrow> series_key \<Rightarrow> anomaly \<Rightarrow> (unit res) alm" where
  "upsertAlert D k a = do {
     r \<leftarrow> exec (dk_env D) (\<lambda>w. insert_alert_stmt k a (clock (dk_env D) (tick w)) w);
     (if r = Inl EUnique then bumpAlert D k a else State_Monad.return r)
   }"

subsection \<open>Reconciling\<close>

definition emit :: "desk \<Rightarrow> string \<Rightarrow> alert_payload \<Rightarrow> unit alm" where
  "emit D what p =
     (if dk_events D then modifies (\<lambda>w. w\<lparr>alert_log := alert_log w @ [(what, p)]\<rparr>) else State_Monad.return ())"

text \<open>The instant is formatted to the second.\<close>

definition alertPayload :: "series_key \<Rightarrow> anomaly \<Rightarrow> string \<Rightarrow> string \<Rightarrow> alert_payload" where
  "alertPayload k a channel status =
     \<lparr>ap_key = k, ap_status = status, ap_value = Some (an_value a), ap_score = Some (an_score a),
      ap_channel = Some channel, ap_at = Some ((an_at a div second) * second),
      ap_expected =
        (case an_seasonal a of Some s \<Rightarrow> Some (cs_median s) | None \<Rightarrow> map_option cs_median (an_trend a))\<rparr>"

definition resolved_payload :: "series_key \<Rightarrow> alert_payload" where
  "resolved_payload k =
     \<lparr>ap_key = k, ap_status = ''resolved'', ap_value = None, ap_score = None, ap_channel = None, ap_at = None,
      ap_expected = None\<rparr>"

fun create_all :: "desk \<Rightarrow> (series_key \<times> anomaly) list \<Rightarrow> unit alm" where
  "create_all D [] = State_Monad.return ()"
| "create_all D ((k, a) # xs) = do {
     r \<leftarrow> upsertAlert D k a;
     (case r of
        Inl e \<Rightarrow> State_Monad.return ()
      | Inr _ \<Rightarrow> emit D ''fired'' (alertPayload k a (fst (alertFields a)) ''open''));
     create_all D xs
   }"

fun bump_all :: "desk \<Rightarrow> (series_key \<times> anomaly) list \<Rightarrow> unit alm" where
  "bump_all D [] = State_Monad.return ()"
| "bump_all D ((k, a) # xs) = do {
     r \<leftarrow> bumpAlert D k a;
     (case r of
        Inl e \<Rightarrow> State_Monad.return ()
      | Inr _ \<Rightarrow> emit D ''updated'' (alertPayload k a (fst (alertFields a)) ''open''));
     bump_all D xs
   }"

fun resolve_all :: "desk \<Rightarrow> series_key list \<Rightarrow> unit alm" where
  "resolve_all D [] = State_Monad.return ()"
| "resolve_all D (k # ks) = do {
     r \<leftarrow> exec (dk_env D) (\<lambda>w. resolve_stmt k (clock (dk_env D) (tick w)) w);
     (case r of
        Inl e \<Rightarrow> State_Monad.return ()
      | Inr n \<Rightarrow> if n > 0 then emit D ''resolved'' (resolved_payload k) else State_Monad.return ());
     resolve_all D ks
   }"

text \<open>The entries of a map in the order of the range.\<close>

definition ranged :: "desk \<Rightarrow> nat \<Rightarrow> (series_key \<times> 'v) list \<Rightarrow> (series_key \<times> 'v) list" where
  "ranged D n xs = List.map_filter (\<lambda>k. map_option (Pair k) (map_of xs k)) (dk_range D n (map fst xs))"

definition quiet_needed :: "desk \<Rightarrow> int" where
  "quiet_needed D = (if dk_quiet D \<le> 0 then 1 else dk_quiet D)"

definition make_plan :: "desk \<Rightarrow> anomaly list \<Rightarrow> series_key list \<Rightarrow> series_key list \<Rightarrow> plan alm" where
  "make_plan D anoms scored live = State (\<lambda>w.
     let (p, q) = planReconcile anoms (dk_range D (tick w) scored) live (alert_quiet w) (quiet_needed D) in
     (p, w\<lparr>alert_quiet := q\<rparr>))"

definition Reconcile :: "desk \<Rightarrow> anomaly list \<Rightarrow> series_key list \<Rightarrow> unit alm" where
  "Reconcile D anoms scored = do {
     r \<leftarrow> query (dk_env D) (\<lambda>w. map al_key (filter is_live (alert_rows w)));
     (case r of
        Inl e \<Rightarrow> State_Monad.return ()
      | Inr live \<Rightarrow> do {
          p \<leftarrow> make_plan D anoms scored live;
          n \<leftarrow> reads tick;
          create_all D (ranged D n (pl_create p));
          n \<leftarrow> reads tick;
          bump_all D (ranged D n (pl_bump p));
          resolve_all D (pl_resolve p)
        })
   }"

subsection \<open>Passes\<close>

text \<open>One series after the other; a series without points does not count as scored.\<close>

fun scan_series :: "(anomaly \<Rightarrow> unit alm) \<Rightarrow> job \<Rightarrow> time \<Rightarrow> time_series list \<Rightarrow> (series_key list \<times> anomaly list) alm" where
  "scan_series handle j t [] = State_Monad.return ([], [])"
| "scan_series handle j t (ts # tss) =
     (if ts_points ts = [] then scan_series handle j t tss
      else (case score_series j t ts of
         None \<Rightarrow> do {
           (ks, as) \<leftarrow> scan_series handle j t tss;
           State_Monad.return (List.insert (ts_key ts) ks, as)
         }
       | Some a \<Rightarrow> do {
           handle a;
           (ks, as) \<leftarrow> scan_series handle j t tss;
           State_Monad.return (List.insert (ts_key ts) ks, a # as)
         }))"

definition finish_pass :: "series_key list \<Rightarrow> anomaly list \<Rightarrow> alert_world \<Rightarrow> alert_world" where
  "finish_pass ks out w = w\<lparr>job_anoms := out, job_scored := (if ks = [] then None else Some ks),
     job_runs := job_runs w + 1, job_series := fold List.insert ks (job_series w)\<rparr>"

text \<open>\<^verbatim>\<open>sort.Slice\<close> may reorder anomalies of one instant; here they stay in order.\<close>

definition pass_RunOnce :: "(time \<Rightarrow> time \<Rightarrow> (time_series list res) alm) \<Rightarrow> (anomaly \<Rightarrow> unit alm) \<Rightarrow>
    (anomaly list \<Rightarrow> series_key list \<Rightarrow> unit alm) option \<Rightarrow> job \<Rightarrow> time \<Rightarrow> (anomaly list res) alm" where
  "pass_RunOnce source handle post j0 t =
     (let j = job_defaults j0 in do {
        r \<leftarrow> source (t - jb_lookback j) (t + clockTolerance);
        (case r of
           Inl e \<Rightarrow> State_Monad.return (Inl e)
         | Inr tss \<Rightarrow> do {
             (ks, as) \<leftarrow> scan_series handle j t tss;
             let out = sort_key (\<lambda>a. - an_at a) as;
             modifies (finish_pass ks out);
             (case post of
                Some f \<Rightarrow> if ks \<noteq> [] then f out ks else State_Monad.return ()
              | None \<Rightarrow> State_Monad.return ());
             State_Monad.return (Inr out)
           })
      })"

text \<open>The wiring of \<^verbatim>\<open>NewBaseline\<close>.\<close>

definition baseline_pass :: "desk \<Rightarrow> time \<Rightarrow> (anomaly list res) alm" where
  "baseline_pass D = pass_RunOnce (Samples D)
     (\<lambda>a. if dk_sink D then sink_Record D a else State_Monad.return ())
     (if dk_alerts D then Some (Reconcile D) else None) (dk_job D)"

definition RunNow :: "desk \<Rightarrow> (anomaly list res) alm" where
  "RunNow D = do {
     t \<leftarrow> now (dk_env D);
     baseline_pass D t
   }"

text \<open>The ticks of the background job; an error is reported and the loop goes on.\<close>

fun background_passes :: "desk \<Rightarrow> nat \<Rightarrow> unit alm" where
  "background_passes D 0 = State_Monad.return ()"
| "background_passes D (Suc n) = do {
     r \<leftarrow> RunNow D;
     background_passes D n
   }"

text \<open>\<open>RMMWAY_ALERT_AUTO_RESOLVE\<close> of the server's configuration.\<close>

definition alertAutoResolve :: "string \<Rightarrow> int" where
  "alertAutoResolve v =
     (if v = [] then 1
      else case ParseInt64 v of None \<Rightarrow> 1 | Some n \<Rightarrow> if n < 0 then 1 else n)"

end
