(* ===== verification/Alert_Api.thy ===== *)
theory Alert_Api
  imports Alerts Device_Api
begin

section \<open>The alert inbox: queries, manual transitions and routes\<close>

text \<open>
  The queries and the transition of \<^verbatim>\<open>store/alerts.go\<close> and the routes of \<^verbatim>\<open>httpapi/domain_alerts.go\<close>. A handler
  gets the session its gate resolved. The body of a \<^verbatim>\<open>PATCH\<close> is what \<^verbatim>\<open>json.Decode\<close> gave (\<open>None\<close>: it did not
  parse); the query parameters are the texts of the URL, empty when absent.
\<close>

subsection \<open>Queries\<close>

definition host_of :: "dev_row list \<Rightarrow> string \<Rightarrow> string" where
  "host_of ds i = (case find (\<lambda>d. dr_id d = i) ds of None \<Rightarrow> [] | Some d \<Rightarrow> dr_host d)"

definition shown :: "alert_world \<Rightarrow> alert \<Rightarrow> alert \<times> string" where
  "shown w a = (a, host_of (dev_rows w) (sk_dev (al_key a)))"

definition newest_alerts :: "alert list \<Rightarrow> alert list" where
  "newest_alerts as = sort_key (\<lambda>a. - al_last a) (sort_key (\<lambda>a. - al_id a) as)"

definition list_status :: "string \<Rightarrow> string option" where
  "list_status s = (if s = [] then Some ''open'' else if s \<in> {''acked'', ''resolved'', ''open''} then Some s else None)"

definition on_device :: "string \<Rightarrow> alert \<Rightarrow> bool" where
  "on_device dev a \<longleftrightarrow> dev = [] \<or> sk_dev (al_key a) = dev"

definition alerts_List :: "desk \<Rightarrow> string \<Rightarrow> string \<Rightarrow> int \<Rightarrow> ((alert \<times> string) list res) alm" where
  "alerts_List D status dev n =
     (case list_status status of
        None \<Rightarrow> State_Monad.return (Inl (EExt status))
      | Some st \<Rightarrow> query (dk_env D) (\<lambda>w. map (shown w) (take (page_limit n) (newest_alerts
          (filter (\<lambda>a. al_status a = st \<and> on_device dev a) (alert_rows w))))))"

text \<open>The devices of a client, as the subquery selects them.\<close>

definition client_device :: "string \<Rightarrow> dev_row list \<Rightarrow> string \<Rightarrow> bool" where
  "client_device c ds i \<longleftrightarrow>
     (\<exists>d\<in>set ds. dr_id d = i \<and> (if c = DefaultClientID then dr_client d = None \<or> dr_client d = Some c
                                 else dr_client d = Some c))"

definition alerts_ListClient :: "desk \<Rightarrow> string \<Rightarrow> string \<Rightarrow> string \<Rightarrow> int \<Rightarrow> ((alert \<times> string) list res) alm" where
  "alerts_ListClient D c status dev n =
     (case list_status status of
        None \<Rightarrow> State_Monad.return (Inl (EExt status))
      | Some st \<Rightarrow> query (dk_env D) (\<lambda>w. map (shown w) (take (page_limit n) (newest_alerts
          (filter (\<lambda>a. al_status a = st \<and> on_device dev a \<and> client_device c (dev_rows w) (sk_dev (al_key a)))
            (alert_rows w))))))"

type_synonym counts = "(string \<times> nat) list"

definition no_counts :: counts where
  "no_counts = [(''open'', 0), (''acked'', 0), (''resolved'', 0)]"

definition status_counts :: "alert list \<Rightarrow> counts" where
  "status_counts as =
     fold (\<lambda>st m. put st (length (filter (\<lambda>a. al_status a = st) as)) m) (remdups (map al_status as)) no_counts"

definition alerts_Counts :: "desk \<Rightarrow> (counts res) alm" where
  "alerts_Counts D = query (dk_env D) (\<lambda>w. status_counts (alert_rows w))"

definition alerts_CountsClient :: "desk \<Rightarrow> string \<Rightarrow> (counts res) alm" where
  "alerts_CountsClient D c = query (dk_env D) (\<lambda>w. status_counts
     (filter (\<lambda>a. client_device c (dev_rows w) (sk_dev (al_key a))) (alert_rows w)))"

definition alerts_Get :: "desk \<Rightarrow> int \<Rightarrow> ((alert \<times> string) res) alm" where
  "alerts_Get D i = do {
     r \<leftarrow> query (dk_env D) (\<lambda>w. map_option (shown w) (find (\<lambda>a. al_id a = i) (alert_rows w)));
     State_Monad.return (case r of Inl e \<Rightarrow> Inl e | Inr None \<Rightarrow> Inl ENotFound | Inr (Some a) \<Rightarrow> Inr a)
   }"

subsection \<open>Manual transitions\<close>

definition acked :: "time \<Rightarrow> alert \<Rightarrow> alert" where
  "acked t r = r\<lparr>al_status := ''acked'', al_acked := Some t, al_updated := t\<rparr>"

definition mark_stmt :: "int \<Rightarrow> (alert \<Rightarrow> alert) \<Rightarrow> alert_world \<Rightarrow> nat res \<times> alert_world" where
  "mark_stmt i f w =
     (let rows = update_where (\<lambda>a. al_id a = i) f (alert_rows w) in
      if uniq al_key is_live rows then (Inr (affected (\<lambda>a. al_id a = i) (alert_rows w)), w\<lparr>alert_rows := rows\<rparr>)
      else (Inl EUnique, w))"

definition mark_tx :: "desk \<Rightarrow> int \<Rightarrow> (time \<Rightarrow> alert \<Rightarrow> alert) \<Rightarrow> (unit res tx_end) alm" where
  "mark_tx D i f = do {
     r \<leftarrow> tx_exec (dk_env D) (\<lambda>w. mark_stmt i (f (clock (dk_env D) (tick w))) w);
     State_Monad.return (case r of
        Inl e \<Rightarrow> Rollback (Inl e)
      | Inr _ \<Rightarrow> Commit (\<lambda>e. case e of None \<Rightarrow> Inr () | Some x \<Rightarrow> Inl x))
   }"

definition status_tx :: "desk \<Rightarrow> int \<Rightarrow> string \<Rightarrow> (unit res tx_end) alm" where
  "status_tx D i status = do {
     r \<leftarrow> tx_query (dk_env D) (\<lambda>w. map_option al_status (find (\<lambda>a. al_id a = i) (alert_rows w)));
     (case r of
        Inl e \<Rightarrow> State_Monad.return (Rollback (Inl e))
      | Inr None \<Rightarrow> State_Monad.return (Rollback (Inl ENotFound))
      | Inr (Some cur) \<Rightarrow>
          if cur = ''open'' \<and> status = ''acked'' then mark_tx D i acked
          else if (cur = ''open'' \<or> cur = ''acked'') \<and> status = ''resolved'' then mark_tx D i resolved
          else if cur = status then
            State_Monad.return (Commit (\<lambda>e. case e of None \<Rightarrow> Inr () | Some x \<Rightarrow> Inl x))
          else State_Monad.return (Rollback (Inl (EExt cur))))
   }"

definition SetStatus :: "desk \<Rightarrow> int \<Rightarrow> string \<Rightarrow> ((alert \<times> string) res) alm" where
  "SetStatus D i status =
     (if status \<noteq> ''acked'' \<and> status \<noteq> ''resolved'' then State_Monad.return (Inl (EExt status))
      else do {
        r \<leftarrow> transaction (dk_env D) (Inl EDb) (status_tx D i status);
        (case r of
           Inl e \<Rightarrow> State_Monad.return (Inl e)
         | Inr _ \<Rightarrow> alerts_Get D i)
      })"

subsection \<open>Routes\<close>

datatype alert_body =
    LAlerts "(alert \<times> string) list"
  | LAlert "alert \<times> string"
  | LCounts counts
  | LAnomalies "stored_anomaly list"
  | LPass "anomaly list" nat nat
  | LForbidden
  | LFailed

type_synonym alert_resp = "alert_body response"

definition status_only :: "nat \<Rightarrow> alert_resp alm" where
  "status_only n = State_Monad.return (Resp n None)"

definition answers_json :: "nat \<Rightarrow> alert_body \<Rightarrow> alert_resp alm" where
  "answers_json n b = State_Monad.return (Resp n (Some b))"

text \<open>A positive \<open>limit\<close>, else 100.\<close>

definition query_limit :: "string \<Rightarrow> int" where
  "query_limit v = (case ParseInt64 v of None \<Rightarrow> 100 | Some n \<Rightarrow> if n > 0 then n else 100)"

definition handleBaselineAnomalies :: "desk option \<Rightarrow> http_method \<Rightarrow> string \<Rightarrow> alert_resp alm" where
  "handleBaselineAnomalies B m limit =
     (if m \<noteq> GET then status_only 405
      else case B of
        None \<Rightarrow> status_only 503
      | Some D \<Rightarrow> do {
          r \<leftarrow> sink_Recent D (query_limit limit);
          (case r of Inl e \<Rightarrow> status_only 500 | Inr rows \<Rightarrow> answers_json 200 (LAnomalies rows))
        })"

definition handleBaselineRun :: "desk option \<Rightarrow> http_method \<Rightarrow> alert_resp alm" where
  "handleBaselineRun B m =
     (if m \<noteq> POST then status_only 405
      else case B of
        None \<Rightarrow> status_only 503
      | Some D \<Rightarrow> do {
          r \<leftarrow> RunNow D;
          (case r of
             Inl e \<Rightarrow> answers_json 500 LFailed
           | Inr as \<Rightarrow> do {
               n \<leftarrow> reads (\<lambda>w. (length (job_series w), job_runs w));
               answers_json 200 (LPass as (fst n) (snd n))
             })
        })"

text \<open>The union over the granted clients, newest first, cut to the limit.\<close>

fun client_lists :: "desk \<Rightarrow> string list \<Rightarrow> string \<Rightarrow> string \<Rightarrow> int \<Rightarrow> ((alert \<times> string) list res) alm" where
  "client_lists D [] status dev n = State_Monad.return (Inr [])"
| "client_lists D (c # cs) status dev n = do {
     r \<leftarrow> alerts_ListClient D c status dev n;
     (case r of
        Inl e \<Rightarrow> State_Monad.return (Inl e)
      | Inr rows \<Rightarrow> do {
          r' \<leftarrow> client_lists D cs status dev n;
          State_Monad.return (case r' of Inl e \<Rightarrow> Inl e | Inr rest \<Rightarrow> Inr (rows @ rest))
        })
   }"

definition alertsListUnion :: "desk \<Rightarrow> session \<Rightarrow> string \<Rightarrow> string \<Rightarrow> int \<Rightarrow> ((alert \<times> string) list res) alm" where
  "alertsListUnion D s status dev n = do {
     r \<leftarrow> client_lists D (ss_clients s) status dev n;
     State_Monad.return (case r of
        Inl e \<Rightarrow> Inl e
      | Inr rows \<Rightarrow> Inr (take (nat n)
          (sort_key (\<lambda>x. - al_last (fst x)) (sort_key (\<lambda>x. - al_id (fst x)) rows))))
   }"

definition handleAlerts :: "desk option \<Rightarrow> session \<Rightarrow> http_method \<Rightarrow> string \<Rightarrow> string \<Rightarrow> string \<Rightarrow> string \<Rightarrow> alert_resp alm" where
  "handleAlerts B s m client status dev limit =
     (if m \<noteq> GET then status_only 405
      else case B of
        None \<Rightarrow> status_only 503
      | Some D \<Rightarrow> do {
          r \<leftarrow> (if client \<noteq> [] then alerts_ListClient D client status dev (query_limit limit)
                else if \<not> ss_all s then alertsListUnion D s status dev (query_limit limit)
                else alerts_List D status dev (query_limit limit));
          (case r of Inl e \<Rightarrow> status_only 400 | Inr rows \<Rightarrow> answers_json 200 (LAlerts rows))
        })"

text \<open>The gate of the list, \<^verbatim>\<open>RequireClientScope\<close>, on a resolved session.\<close>

definition scoped_alerts :: "desk option \<Rightarrow> session \<Rightarrow> http_method \<Rightarrow> string \<Rightarrow> string \<Rightarrow> string \<Rightarrow> string \<Rightarrow> alert_resp alm" where
  "scoped_alerts B s m client status dev limit =
     (if client \<noteq> [] \<and> \<not> CanSeeClient s client then answers_json 403 LForbidden
      else handleAlerts B (s\<lparr>ss_active := client\<rparr>) m client status dev limit)"

fun sum_counts :: "desk \<Rightarrow> string list \<Rightarrow> counts \<Rightarrow> (counts res) alm" where
  "sum_counts D [] m = State_Monad.return (Inr m)"
| "sum_counts D (c # cs) m = do {
     r \<leftarrow> alerts_CountsClient D c;
     (case r of
        Inl e \<Rightarrow> State_Monad.return (Inl e)
      | Inr x \<Rightarrow> sum_counts D cs
          (fold (\<lambda>(k, v) m. put k ((case map_of m k of None \<Rightarrow> 0 | Some n \<Rightarrow> n) + v) m) x m))
   }"

definition alertCounts :: "desk option \<Rightarrow> session \<Rightarrow> alert_resp alm" where
  "alertCounts B s =
     (case B of
        None \<Rightarrow> status_only 503
      | Some D \<Rightarrow> do {
          r \<leftarrow> alerts_Counts D;
          (case r of
             Inl e \<Rightarrow> status_only 500
           | Inr c \<Rightarrow>
               if ss_all s then answers_json 200 (LCounts c)
               else do {
                 r' \<leftarrow> sum_counts D (ss_clients s) no_counts;
                 (case r' of Inl e \<Rightarrow> status_only 500 | Inr x \<Rightarrow> answers_json 200 (LCounts x))
               })
        })"

definition alert_device :: "desk \<Rightarrow> string \<Rightarrow> (dev_row res) alm" where
  "alert_device D i = do {
     r \<leftarrow> query (dk_env D) (\<lambda>w. find (\<lambda>d. dr_id d = i) (dev_rows w));
     State_Monad.return (case r of Inl e \<Rightarrow> Inl e | Inr None \<Rightarrow> Inl ENotFound | Inr (Some d) \<Rightarrow> Inr d)
   }"

definition change_status :: "desk \<Rightarrow> int \<Rightarrow> string \<Rightarrow> alert_resp alm" where
  "change_status D i status = do {
     r \<leftarrow> SetStatus D i status;
     (case r of
        Inl e \<Rightarrow> answers_json (if e = ENotFound then 404 else 400) LFailed
      | Inr a \<Rightarrow> answers_json 200 (LAlert a))
   }"

definition alert_status_route :: "desk \<Rightarrow> session \<Rightarrow> string option \<Rightarrow> int \<Rightarrow> alert_resp alm" where
  "alert_status_route D s body i =
     (case body of
        None \<Rightarrow> status_only 400
      | Some status \<Rightarrow>
          if \<not> Allows s [''admin'', ''tech''] then answers_json 403 LForbidden
          else do {
            r \<leftarrow> alerts_Get D i;
            (case r of
               Inl e \<Rightarrow> answers_json 404 LFailed
             | Inr a \<Rightarrow> do {
                 d \<leftarrow> alert_device D (sk_dev (al_key (fst a)));
                 (case d of
                    Inl e \<Rightarrow> change_status D i status
                  | Inr row \<Rightarrow>
                      if CanSeeClient s (client_or_default row) then change_status D i status
                      else answers_json 403 LForbidden)
               })
          })"

definition handleAlertStatus :: "desk option \<Rightarrow> session \<Rightarrow> http_method \<Rightarrow> string option \<Rightarrow> string list \<Rightarrow> alert_resp alm" where
  "handleAlertStatus B s m body parts =
     (if m \<noteq> PATCH then status_only 405
      else case B of
        None \<Rightarrow> status_only 503
      | Some D \<Rightarrow>
          if length parts \<noteq> 3 \<or> parts ! 2 = [] then status_only 404
          else (case positive_id (parts ! 2) of
             None \<Rightarrow> status_only 400
           | Some i \<Rightarrow> alert_status_route D s body i))"

definition handleAlertSub :: "desk option \<Rightarrow> session \<Rightarrow> http_method \<Rightarrow> string option \<Rightarrow> string \<Rightarrow> alert_resp alm" where
  "handleAlertSub B s m body path =
     (let parts = path_parts path in
      if length parts = 3 \<and> parts ! 2 = ''counts'' then alertCounts B s
      else handleAlertStatus B s m body parts)"

end
