(* ===== verification/Alert_Safety.thy ===== *)
theory Alert_Safety
  imports Alert_Api "HOL-Library.Multiset"
begin

section \<open>The inbox under faults and interference\<close>

text \<open>
  What every operation on the inbox keeps: at most one alert of a series is not resolved, ids are fresh,
  alerts are never deleted, their status only advances and a resolved one is frozen (\<open>inbox_evolves\<close>);
  and an operation on other series leaves the alerts of a series alone (\<open>keeps_series\<close>). The locale
  \<open>inbox_relation\<close> derives the guarantee of a pass from its statements, for both relations. The rest is
  the functional content of a plan.
\<close>

subsection \<open>The plan\<close>

lemma fold_worst_map:
  "map_of (fold (\<lambda>a m. case map_of m (an_key a) of
       None \<Rightarrow> put (an_key a) a m
     | Some c \<Rightarrow> if f_lt (an_score c) (an_score a) then put (an_key a) a m else m) as m0) k =
   fold (\<lambda>a c. if an_key a \<noteq> k then c else
       case c of None \<Rightarrow> Some a | Some b \<Rightarrow> if f_lt (an_score b) (an_score a) then Some a else c) as (map_of m0 k)"
  by (induction as arbitrary: m0) (auto split: option.split)

lemma f_lt_trans: "f_lt a b \<Longrightarrow> f_lt b c \<Longrightarrow> f_lt a c"
  by (cases a; cases b; cases c) auto

lemma f_lt_not: "\<not> f_lt a c \<Longrightarrow> f_lt a b \<Longrightarrow> \<not> f_lt b c"
  by (blast intro: f_lt_trans)

lemma fold_worst:
  assumes "c = fold (\<lambda>a c. if an_key a \<noteq> k then c else
       case c of None \<Rightarrow> Some a | Some b \<Rightarrow> if f_lt (an_score b) (an_score a) then Some a else c) as c0"
    and "\<And>b. c0 = Some b \<Longrightarrow> an_key b = k \<and> b \<in> S \<and> (\<forall>a\<in>S. an_key a = k \<longrightarrow> \<not> f_lt (an_score b) (an_score a))"
    and "c0 = None \<Longrightarrow> \<forall>a\<in>S. an_key a \<noteq> k"
  shows "(case c of
       None \<Rightarrow> \<forall>a\<in>S \<union> set as. an_key a \<noteq> k
     | Some b \<Rightarrow> an_key b = k \<and> b \<in> S \<union> set as \<and>
         (\<forall>a\<in>S \<union> set as. an_key a = k \<longrightarrow> \<not> f_lt (an_score b) (an_score a)))"
  using assms
proof (induction as arbitrary: c0 S)
  case Nil
  then show ?case by (auto split: option.split)
next
  case (Cons a as)
  let ?c = "if an_key a \<noteq> k then c0 else
       case c0 of None \<Rightarrow> Some a | Some b \<Rightarrow> if f_lt (an_score b) (an_score a) then Some a else c0"
  have "(case c of
       None \<Rightarrow> \<forall>x\<in>insert a S \<union> set as. an_key x \<noteq> k
     | Some b \<Rightarrow> an_key b = k \<and> b \<in> insert a S \<union> set as \<and>
         (\<forall>x\<in>insert a S \<union> set as. an_key x = k \<longrightarrow> \<not> f_lt (an_score b) (an_score x)))"
  proof (rule Cons.IH [of ?c])
    show "c = fold (\<lambda>a c. if an_key a \<noteq> k then c else
       case c of None \<Rightarrow> Some a | Some b \<Rightarrow> if f_lt (an_score b) (an_score a) then Some a else c) as ?c"
      using Cons.prems(1) by simp
    show "an_key b = k \<and> b \<in> insert a S \<and> (\<forall>x\<in>insert a S. an_key x = k \<longrightarrow> \<not> f_lt (an_score b) (an_score x))"
      if "?c = Some b" for b
      using that Cons.prems(2,3) by (auto split: if_splits option.splits dest: f_lt_not)
    show "\<forall>x\<in>insert a S. an_key x \<noteq> k" if "?c = None"
      using that Cons.prems(3) by (auto split: if_splits option.splits)
  qed
  moreover have "insert a S \<union> set as = S \<union> set (a # as)" by auto
  ultimately show ?case by (simp only:)
qed

lemma worst_of_spec:
  "(case map_of (worst_of as) k of
      None \<Rightarrow> \<forall>a\<in>set as. an_key a \<noteq> k
    | Some b \<Rightarrow> an_key b = k \<and> b \<in> set as \<and> (\<forall>a\<in>set as. an_key a = k \<longrightarrow> \<not> f_lt (an_score b) (an_score a)))"
  using fold_worst [where as = as and k = k and ?c0.0 = None and S = "{}"]
  by (simp add: worst_of_def fold_worst_map cong: option.case_cong)

lemma worst_distinct [simp]: "distinct (map fst (worst_of as))"
proof -
  have "distinct (map fst m) \<Longrightarrow> distinct (map fst (fold (\<lambda>a m. case map_of m (an_key a) of
       None \<Rightarrow> put (an_key a) a m
     | Some c \<Rightarrow> if f_lt (an_score c) (an_score a) then put (an_key a) a m else m) as m))" for m
    by (induction as arbitrary: m) (simp_all split: option.split)
  then show ?thesis by (simp add: worst_of_def)
qed

lemma worst_keys [simp]: "fst ` set (worst_of as) = an_key ` set as"
proof -
  have "k \<in> fst ` set (worst_of as) \<longleftrightarrow> map_of (worst_of as) k \<noteq> None" for k
    by (simp add: map_of_eq_None_iff)
  moreover have "map_of (worst_of as) k \<noteq> None \<longleftrightarrow> k \<in> an_key ` set as" for k
  proof (cases "map_of (worst_of as) k")
    case None
    then show ?thesis using worst_of_spec [of as k] by force
  next
    case (Some b)
    then have "an_key b = k \<and> b \<in> set as" using worst_of_spec [of as k] by simp
    with Some show ?thesis by force
  qed
  ultimately show ?thesis by (intro set_eqI) (simp only:)
qed

text \<open>The clean passes over distinct keys.\<close>

lemma fold_clean_pass:
  assumes "distinct ks"
  shows "fold (clean_pass n hot live) ks (rs, q) =
    (rs @ filter (\<lambda>k. k \<notin> hot \<and> k \<in> live \<and> n \<le> int (case q k of None \<Rightarrow> 0 | Some m \<Rightarrow> m) + 1) ks,
     \<lambda>k. if k \<in> set ks \<and> k \<notin> hot then
           (if k \<notin> live \<or> n \<le> int (case q k of None \<Rightarrow> 0 | Some m \<Rightarrow> m) + 1 then None
            else Some ((case q k of None \<Rightarrow> 0 | Some m \<Rightarrow> m) + 1))
         else q k)"
  using assms
proof (induction ks arbitrary: rs q)
  case (Cons k ks)
  then have k: "k \<notin> set ks" "distinct ks" by auto
  have agree: "filter (\<lambda>x. x \<notin> hot \<and> x \<in> live \<and> n \<le> int (case (q(k := v)) x of None \<Rightarrow> 0 | Some m \<Rightarrow> m) + 1) ks =
      filter (\<lambda>x. x \<notin> hot \<and> x \<in> live \<and> n \<le> int (case q x of None \<Rightarrow> 0 | Some m \<Rightarrow> m) + 1) ks" for v
    by (rule filter_cong) (use k in auto)
  show ?case
    using Cons.IH [OF k(2)] k(1) agree
    by (auto simp: clean_pass_def Let_def fun_eq_iff)
qed (simp add: fun_eq_iff)

lemma clean_pass_subset: "set (fst (fold (clean_pass n hot live) ks st)) \<subseteq> set (fst st) \<union> set ks"
  by (induction ks arbitrary: st) (force simp: clean_pass_def Let_def split: prod.splits if_splits)+

lemma plan_keys:
  assumes "planReconcile anoms scored live q n = (p, q')"
  shows "fst ` set (pl_create p) \<subseteq> an_key ` set anoms" "fst ` set (pl_bump p) \<subseteq> an_key ` set anoms"
    "set (pl_resolve p) \<subseteq> set scored"
proof -
  have "set (pl_create p) \<subseteq> set (worst_of anoms)" "set (pl_bump p) \<subseteq> set (worst_of anoms)"
    using assms by (auto simp: planReconcile_def Let_def)
  from image_mono [OF this(1), of fst] image_mono [OF this(2), of fst]
  show "fst ` set (pl_create p) \<subseteq> an_key ` set anoms" "fst ` set (pl_bump p) \<subseteq> an_key ` set anoms"
    by simp_all
  have "pl_resolve p = fst (fold (clean_pass (if n \<le> 0 then 1 else n) (an_key ` set anoms) (set live)) scored
      ([], \<lambda>k. if k \<in> an_key ` set anoms then None else q k))"
    using assms by (auto simp: planReconcile_def Let_def)
  then show "set (pl_resolve p) \<subseteq> set scored"
    using clean_pass_subset by (metis (no_types) Un_empty_left empty_set fst_conv)
qed

lemma ranged_entry: "(k, v) \<in> set (ranged D n xs) \<Longrightarrow> map_of xs k = Some v"
  by (auto simp: ranged_def List.map_filter_def)

lemma ranged_keys: "fst ` set (ranged D n xs) \<subseteq> fst ` set xs"
  by (force dest: ranged_entry map_of_SomeD)

subsection \<open>A relation kept by the statements\<close>

text \<open>
  The interface between a pass and the statements it runs: a relation each statement on an allowed series
  keeps. The client's lemma is that a pass over allowed series keeps it.
\<close>

locale inbox_relation = history R for R :: "alert_world \<Rightarrow> alert_world \<Rightarrow> bool" +
  fixes allowed_key :: "series_key \<Rightarrow> bool"
  assumes insert_kept: "allowed_key k \<Longrightarrow> R w (snd (insert_alert_stmt k a t w))"
    and bump_kept: "allowed_key k \<Longrightarrow> R w (snd (bump_stmt k a t w))"
    and resolve_kept: "allowed_key k \<Longrightarrow> R w (snd (resolve_stmt k t w))"
    and record_kept: "R w (snd (record_stmt a t w))"
    and streaks_kept: "R w (w\<lparr>alert_quiet := q\<rparr>)"
    and log_kept: "R w (w\<lparr>alert_log := l\<rparr>)"
    and finish_kept: "R w (finish_pass ks out w)"
begin

lemma emit: "guarantees R (emit D what p)"
  by (rule guaranteesI) (simp add: emit_def log_kept)

lemma upsertAlert: "rely R (dk_env D) \<Longrightarrow> allowed_key k \<Longrightarrow> guarantees R (upsertAlert D k a)"
  unfolding upsertAlert_def bumpAlert_def
  by (intro bind exec guarantees_if return) (simp_all add: insert_kept bump_kept)

lemma create_all:
  assumes "rely R (dk_env D)"
  shows "\<forall>x\<in>set xs. allowed_key (fst x) \<Longrightarrow> guarantees R (create_all D xs)"
proof (induction xs)
  case (Cons x xs)
  obtain k a where "x = (k, a)" by fastforce
  with Cons show ?case
    by (auto intro!: bind upsertAlert emit return assms split: sum.split)
qed (simp add: return)

lemma bump_all:
  assumes "rely R (dk_env D)"
  shows "\<forall>x\<in>set xs. allowed_key (fst x) \<Longrightarrow> guarantees R (bump_all D xs)"
proof (induction xs)
  case (Cons x xs)
  obtain k a where "x = (k, a)" by fastforce
  with Cons show ?case
    by (auto intro!: bind emit return exec bump_kept assms simp: bumpAlert_def split: sum.split)
qed (simp add: return)

lemma resolve_all:
  assumes "rely R (dk_env D)"
  shows "\<forall>k\<in>set ks. allowed_key k \<Longrightarrow> guarantees R (resolve_all D ks)"
proof (induction ks)
  case (Cons k ks)
  then show ?case
    by (auto intro!: bind emit return exec resolve_kept assms split: sum.split)
qed (simp add: return)

lemma Reconcile:
  assumes rely: "rely R (dk_env D)" and anoms: "\<forall>a\<in>set anoms. allowed_key (an_key a)"
    and scored: "\<forall>n. \<forall>k\<in>set (dk_range D n scored). allowed_key k"
  shows "guarantees R (Reconcile D anoms scored)"
proof -
  define ok where "ok p \<longleftrightarrow> fst ` set (pl_create p) \<subseteq> an_key ` set anoms \<and>
    fst ` set (pl_bump p) \<subseteq> an_key ` set anoms \<and> (\<forall>k\<in>set (pl_resolve p). allowed_key k)" for p :: plan
  have plan: "guarantees R (make_plan D anoms scored live)" "yields ok (make_plan D anoms scored live)" for live
  proof -
    show "guarantees R (make_plan D anoms scored live)"
      by (rule guaranteesI) (simp add: make_plan_def streaks_kept split: prod.split)
    show "yields ok (make_plan D anoms scored live)"
      unfolding yields_def
    proof
      fix w :: alert_world
      obtain p q where p: "planReconcile anoms (dk_range D (tick w) scored) live (alert_quiet w) (quiet_needed D) = (p, q)"
        by fastforce
      then show "ok (fst (run_state (make_plan D anoms scored live) w))"
        using plan_keys [OF p] scored by (simp add: make_plan_def ok_def) blast
    qed
  qed
  have rest: "guarantees R (do {
      n \<leftarrow> reads tick; create_all D (ranged D n (pl_create p));
      n \<leftarrow> reads tick; bump_all D (ranged D n (pl_bump p));
      resolve_all D (pl_resolve p) })" if "ok p" for p
  proof -
    have "\<forall>x\<in>set (ranged D n (pl_create p)). allowed_key (fst x)" "\<forall>x\<in>set (ranged D n (pl_bump p)). allowed_key (fst x)" for n
      using that anoms ranged_keys [of D n "pl_create p"] ranged_keys [of D n "pl_bump p"] by (fastforce simp: ok_def)+
    with that show ?thesis
      by (intro bind reads create_all bump_all resolve_all rely) (auto simp: ok_def)
  qed
  show ?thesis
    unfolding Reconcile_def
    by (intro bind query rely) (auto intro: return bind_yields plan rest split: sum.split)
qed

lemma scan_series:
  assumes "\<And>a. guarantees R (handle a)"
  shows "guarantees R (scan_series handle j t tss)"
  by (induction tss) (auto intro!: bind return assms split: option.split)

end

lemma score_series_key: "score_series j t ts = Some a \<Longrightarrow> an_key a = ts_key ts"
  by (auto simp: score_series_def score_latest_def Let_def bind_eq_Some_conv split: if_splits)

lemma scan_within: "yields (\<lambda>st. set (fst st) \<subseteq> ts_key ` set tss \<and> an_key ` set (snd st) \<subseteq> ts_key ` set tss)
    (scan_series handle j t tss)"
proof (induction tss)
  case (Cons ts tss)
  let ?P = "\<lambda>st. set (fst st) \<subseteq> ts_key ` set (ts # tss) \<and> an_key ` set (snd st) \<subseteq> ts_key ` set (ts # tss)"
  show ?case
    unfolding yields_def
  proof
    fix w
    have ih: "set (fst (fst (run_state (scan_series handle j t tss) v))) \<subseteq> insert (ts_key ts) (ts_key ` set tss)"
      "an_key ` set (snd (fst (run_state (scan_series handle j t tss) v))) \<subseteq> insert (ts_key ts) (ts_key ` set tss)" for v
      using Cons by (simp_all add: yields_def subset_insertI2)
    show "?P (fst (run_state (scan_series handle j t (ts # tss)) w))"
    proof (cases "ts_points ts = []")
      case False
      show ?thesis
      proof (cases "score_series j t ts")
        case None
        with False show ?thesis by (simp add: split_beta ih)
      next
        case (Some a)
        define st where "st = fst (run_state (scan_series handle j t tss) (snd (run_state (handle a) w)))"
        have "fst (run_state (scan_series handle j t (ts # tss)) w) = (List.insert (ts_key ts) (fst st), a # snd st)"
          using False Some by (simp add: split_beta st_def)
        moreover have "an_key a = ts_key ts" by (rule score_series_key [OF Some])
        moreover have "set (fst st) \<subseteq> insert (ts_key ts) (ts_key ` set tss)"
          "an_key ` set (snd st) \<subseteq> insert (ts_key ts) (ts_key ` set tss)" unfolding st_def by (rule ih)+
        ultimately show ?thesis by simp
      qed
    qed (simp add: ih)
  qed
qed (simp add: yields_def)

context inbox_relation
begin

lemma pass_RunOnce:
  assumes src: "guarantees R (source (t - jb_lookback (job_defaults j0)) (t + clockTolerance))"
    and keys: "\<forall>tss. fst (run_state (source (t - jb_lookback (job_defaults j0)) (t + clockTolerance)) w) = Inr tss \<longrightarrow>
        (\<forall>k\<in>ts_key ` set tss. allowed_key k)"
    and handle: "\<And>a. guarantees R (handle a)"
    and post: "\<And>f as ks. post = Some f \<Longrightarrow> \<forall>a\<in>set as. allowed_key (an_key a) \<Longrightarrow> \<forall>k\<in>set ks. allowed_key k \<Longrightarrow>
        guarantees R (f as ks)"
  shows "R w (snd (run_state (pass_RunOnce source handle post j0 t) w))"
proof -
  define r where "r = fst (run_state (source (t - jb_lookback (job_defaults j0)) (t + clockTolerance)) w)"
  have r: "\<forall>tss. r = Inr tss \<longrightarrow> (\<forall>k\<in>ts_key ` set tss. allowed_key k)" using keys by (simp add: r_def)
  have "guarantees R (case r of Inl e \<Rightarrow> State_Monad.return (Inl e)
     | Inr tss \<Rightarrow> do {
         (ks, as) \<leftarrow> scan_series handle (job_defaults j0) t tss;
         modifies (finish_pass ks (sort_key (\<lambda>a. - an_at a) as));
         (case post of None \<Rightarrow> State_Monad.return ()
          | Some f \<Rightarrow> if ks \<noteq> [] then f (sort_key (\<lambda>a. - an_at a) as) ks else State_Monad.return ());
         State_Monad.return (Inr (sort_key (\<lambda>a. - an_at a) as))
       })"
  proof (cases r)
    case (Inr tss)
    have "guarantees R (do {
         (ks, as) \<leftarrow> scan_series handle (job_defaults j0) t tss;
         modifies (finish_pass ks (sort_key (\<lambda>a. - an_at a) as));
         (case post of None \<Rightarrow> State_Monad.return ()
          | Some f \<Rightarrow> if ks \<noteq> [] then f (sort_key (\<lambda>a. - an_at a) as) ks else State_Monad.return ());
         State_Monad.return (Inr (sort_key (\<lambda>a. - an_at a) as) :: anomaly list res)
       })"
    proof (rule bind_yields [OF scan_series [OF handle] scan_within])
      have within: "k \<in> ts_key ` set tss \<Longrightarrow> allowed_key k" for k using r Inr by auto
      fix st :: "series_key list \<times> anomaly list"
      assume "set (fst st) \<subseteq> ts_key ` set tss \<and> an_key ` set (snd st) \<subseteq> ts_key ` set tss"
      then have ok: "\<forall>k\<in>set (fst st). allowed_key k" "\<forall>a\<in>set (snd st). allowed_key (an_key a)"
        using within by (auto dest!: subsetD)
      have hook: "guarantees R (case post of None \<Rightarrow> State_Monad.return ()
          | Some f \<Rightarrow> if fst st \<noteq> [] then f (sort_key (\<lambda>a. - an_at a) (snd st)) (fst st) else State_Monad.return ())"
      proof (cases post)
        case (Some f)
        have "\<forall>a\<in>set (sort_key (\<lambda>a. - an_at a) (snd st)). allowed_key (an_key a)" using ok(2) by simp
        from post [OF Some this ok(1)] show ?thesis by (simp add: Some return)
      qed (simp add: return)
      have finish: "guarantees R (modifies (finish_pass ks out))" for ks out
        by (rule guaranteesI) (simp add: finish_kept)
      show "guarantees R (case st of (ks, as) \<Rightarrow> do {
         modifies (finish_pass ks (sort_key (\<lambda>a. - an_at a) as));
         (case post of None \<Rightarrow> State_Monad.return ()
          | Some f \<Rightarrow> if ks \<noteq> [] then f (sort_key (\<lambda>a. - an_at a) as) ks else State_Monad.return ());
         State_Monad.return (Inr (sort_key (\<lambda>a. - an_at a) as) :: anomaly list res)
       })"
        unfolding split_beta by (intro bind finish hook return)
    qed
    then show ?thesis by (simp add: Inr)
  qed (simp add: return)
  from guaranteesD [OF src, of w] guaranteesD [OF this] show ?thesis
    unfolding pass_RunOnce_def Let_def run_bind r_def by (rule trans)
qed

end

subsection \<open>The inbox only evolves\<close>

definition alert_rank :: "alert \<Rightarrow> nat" where
  "alert_rank a = (if al_status a = ''open'' then 0 else if al_status a = ''acked'' then 1 else 2)"

definition alert_step :: "alert \<Rightarrow> alert \<Rightarrow> bool" where
  "alert_step a b \<longleftrightarrow>
     al_id b = al_id a \<and> al_key b = al_key a \<and> al_first b = al_first a \<and> al_created b = al_created a \<and>
     al_events a \<le> al_events b \<and> alert_rank a \<le> alert_rank b \<and> (\<not> is_live a \<longrightarrow> b = a)"

definition inbox_ok :: "alert_world \<Rightarrow> bool" where
  "inbox_ok w \<longleftrightarrow> uniq al_key is_live (alert_rows w) \<and> distinct (map al_id (alert_rows w)) \<and>
     (\<forall>a\<in>set (alert_rows w). al_id a < alert_seq w)"

definition inbox_evolves :: "alert_world \<Rightarrow> alert_world \<Rightarrow> bool" where
  "inbox_evolves w w' \<longleftrightarrow> inbox_ok w \<longrightarrow> inbox_ok w' \<and> rows_evolve alert_step (alert_rows w) (alert_rows w')"

lemma alert_step_refl [simp]: "alert_step a a"
  by (simp add: alert_step_def)

lemma alert_step_trans: "alert_step a b \<Longrightarrow> alert_step b c \<Longrightarrow> alert_step a c"
  unfolding alert_step_def by fastforce

lemma inbox_evolves_same: "alert_rows w' = alert_rows w \<Longrightarrow> alert_seq w \<le> alert_seq w' \<Longrightarrow> inbox_evolves w w'"
  by (fastforce simp: inbox_evolves_def inbox_ok_def rows_evolve_refl)

text \<open>An update of rows each of which makes a step; none comes to life.\<close>

lemma inbox_evolves_update:
  assumes step: "\<And>a. inbox_ok w \<Longrightarrow> a \<in> set (alert_rows w) \<Longrightarrow> P a \<Longrightarrow> alert_step a (f a)"
    and rows: "alert_rows w' = update_where P f (alert_rows w)" and seq: "alert_seq w' = alert_seq w"
  shows "inbox_evolves w w'"
  unfolding inbox_evolves_def
proof
  assume ok: "inbox_ok w"
  note step = step [OF ok]
  have key: "al_key (f a) = al_key a" "is_live (f a) \<Longrightarrow> is_live a" if "a \<in> set (alert_rows w)" "P a" for a
    using step [OF that] by (auto simp: alert_step_def)
  have ids: "map al_id (update_where P f (alert_rows w)) = map al_id (alert_rows w)"
    using step by (auto simp: update_where_def alert_step_def)
  have "uniq al_key is_live (update_where P f (alert_rows w))"
    by (rule uniq_update_where) (use ok key in \<open>auto simp: inbox_ok_def\<close>)
  moreover have "al_id a < alert_seq w" if "a \<in> set (update_where P f (alert_rows w))" for a
  proof -
    from that have "al_id a \<in> al_id ` set (alert_rows w)" by (metis ids image_eqI list.set_map)
    with ok show ?thesis by (auto simp: inbox_ok_def)
  qed
  moreover have "rows_evolve alert_step (alert_rows w) (update_where P f (alert_rows w))"
    using step by (auto simp: rows_evolve_def nth_update_where)
  ultimately show "inbox_ok w' \<and> rows_evolve alert_step (alert_rows w) (alert_rows w')"
    using ok by (simp add: inbox_ok_def rows seq ids)
qed

interpretation il: inbox_relation inbox_evolves "\<lambda>k. True"
proof unfold_locales
  fix w :: alert_world and n
  show "inbox_evolves w (w\<lparr>tick := n\<rparr>)" by (rule inbox_evolves_same) simp_all
next
  fix u v w :: alert_world
  assume "inbox_evolves u v" "inbox_evolves v w"
  then show "inbox_evolves u w"
    by (auto simp: inbox_evolves_def intro: rows_evolve_trans alert_step_trans)
next
  fix k a t and w :: alert_world
  let ?r = "new_alert (alert_seq w) k a t"
  show "inbox_evolves w (snd (insert_alert_stmt k a t w))"
  proof (cases "violates al_key is_live (alert_rows w) ?r")
    case True
    then show ?thesis by (intro inbox_evolves_same) (simp_all add: insert_alert_stmt_def Let_def)
  next
    case False
    then show ?thesis
      by (fastforce simp: inbox_evolves_def inbox_ok_def insert_alert_stmt_def Let_def uniq_append
          rows_evolve_append new_alert_def)
  qed
next
  fix k a t and w :: alert_world
  show "inbox_evolves w (snd (bump_stmt k a t w))"
    by (rule inbox_evolves_update [where P = "live_of k" and f = "bumped a t"])
      (auto simp: bump_stmt_def bumped_def alert_step_def alert_rank_def live_of_def)
next
  fix k t and w :: alert_world
  show "inbox_evolves w (snd (resolve_stmt k t w))"
    by (rule inbox_evolves_update [where P = "live_of k" and f = "resolved t"])
      (auto simp: resolve_stmt_def resolved_def alert_step_def alert_rank_def live_of_def)
qed (auto intro!: inbox_evolves_same simp: record_stmt_def Let_def finish_pass_def)

subsection \<open>A pass leaves the other series alone\<close>

definition keeps_series :: "series_key \<Rightarrow> alert_world \<Rightarrow> alert_world \<Rightarrow> bool" where
  "keeps_series k w w' \<longleftrightarrow>
     filter (\<lambda>a. al_key a = k) (alert_rows w') = filter (\<lambda>a. al_key a = k) (alert_rows w) \<and>
     filter (\<lambda>r. row_key r = k) (metric_rows w') = filter (\<lambda>r. row_key r = k) (metric_rows w)"

lemma filter_update_other:
  "(\<And>a. P a \<Longrightarrow> \<not> Q a \<and> \<not> Q (f a)) \<Longrightarrow> filter Q (update_where P f rows) = filter Q rows"
  by (induction rows) auto

interpretation ks: inbox_relation "keeps_series k" "\<lambda>k'. k' \<noteq> k" for k
proof unfold_locales
  show "k' \<noteq> k \<Longrightarrow> keeps_series k w (snd (insert_alert_stmt k' a t w))" for k' a t w
    by (simp add: keeps_series_def insert_alert_stmt_def Let_def new_alert_def)
  show "k' \<noteq> k \<Longrightarrow> keeps_series k w (snd (bump_stmt k' a t w))" for k' a t w
    by (auto simp: keeps_series_def bump_stmt_def live_of_def bumped_def intro!: filter_update_other)
  show "k' \<noteq> k \<Longrightarrow> keeps_series k w (snd (resolve_stmt k' t w))" for k' t w
    by (auto simp: keeps_series_def resolve_stmt_def live_of_def resolved_def intro!: filter_update_other)
qed (simp_all add: keeps_series_def record_stmt_def Let_def finish_pass_def)

subsection \<open>Manual transitions and whole passes\<close>

lemma inbox_ok_tick [simp]: "inbox_ok (w\<lparr>tick := n\<rparr>) = inbox_ok w"
  by (simp add: inbox_ok_def)

lemma mark_stmt_evolves:
  assumes "\<And>a. inbox_ok w \<Longrightarrow> a \<in> set (alert_rows w) \<Longrightarrow> al_id a = i \<Longrightarrow> alert_step a (f a)"
  shows "inbox_evolves w (snd (mark_stmt i f w))"
proof (cases "uniq al_key is_live (update_where (\<lambda>a. al_id a = i) f (alert_rows w))")
  case True
  then show ?thesis
    by (intro inbox_evolves_update [where P = "\<lambda>a. al_id a = i" and f = f]) (simp_all add: assms mark_stmt_def Let_def)
qed (auto simp: mark_stmt_def Let_def intro: inbox_evolves_same)

lemma mark_tx_evolves:
  assumes "\<And>a t. inbox_ok w \<Longrightarrow> a \<in> set (alert_rows w) \<Longrightarrow> al_id a = i \<Longrightarrow> alert_step a (f t a)"
  shows "inbox_evolves w (snd (run_state (mark_tx D i f) w))"
proof -
  let ?v = "w\<lparr>tick := Suc (tick w)\<rparr>"
  have "inbox_evolves w ?v" by (rule inbox_evolves_same) simp_all
  moreover have "inbox_evolves ?v (snd (mark_stmt i (f t) ?v))" for t
    by (rule mark_stmt_evolves) (simp add: assms)
  ultimately have "inbox_evolves w (snd (mark_stmt i (f t) ?v))" for t by (blast intro: il.trans)
  with \<open>inbox_evolves w ?v\<close> show ?thesis
    by (simp add: mark_tx_def tx_exec_def split: db_out.split)
qed

text \<open>The row a transition changes is the one whose status it read.\<close>

lemma status_tx_evolves: "guarantees inbox_evolves (status_tx D i st)"
proof (rule guaranteesI)
  fix w :: alert_world
  let ?v = "w\<lparr>tick := Suc (tick w)\<rparr>" and ?found = "find (\<lambda>a. al_id a = i) (alert_rows w)"
  have same: "inbox_evolves w ?v" by (rule inbox_evolves_same) simp_all
  have mark: "inbox_evolves w (snd (run_state (mark_tx D i f) ?v))"
    if "?found = Some r" "\<And>t. alert_step r (f t r)" for r f
  proof (rule il.trans [OF same], rule mark_tx_evolves)
    fix a t
    assume ok: "inbox_ok ?v" and a: "a \<in> set (alert_rows ?v)" "al_id a = i"
    have "find (\<lambda>x. al_id x = i) (alert_rows w) = Some a"
      using ok a find_distinct_key [of al_id "alert_rows w" a] by (simp add: inbox_ok_def)
    with that show "alert_step a (f t a)" by simp
  qed
  show "inbox_evolves w (snd (run_state (status_tx D i st) w))"
  proof (cases ?found)
    case None
    with same show ?thesis by (simp add: status_tx_def tx_query_def split: db_out.split)
  next
    case (Some r)
    have "alert_step r (acked t r)" if "al_status r = ''open''" for t
      using that by (simp add: alert_step_def acked_def alert_rank_def is_live_def)
    moreover have "alert_step r (resolved t r)" if "al_status r = ''open'' \<or> al_status r = ''acked''" for t
      using that by (auto simp: alert_step_def resolved_def alert_rank_def is_live_def)
    ultimately show ?thesis
      using same mark [OF Some] by (simp add: status_tx_def tx_query_def Some split: db_out.split)
  qed
qed

lemma SetStatus_evolves: "rely inbox_evolves (dk_env D) \<Longrightarrow> guarantees inbox_evolves (SetStatus D i st)"
  unfolding SetStatus_def alerts_Get_def
  by (intro guarantees_if il.return il.bind il.transaction status_tx_evolves)
    (auto intro!: il.return il.bind il.query split: sum.split)

lemma Record_evolves: "rely inbox_evolves (dk_env D) \<Longrightarrow> guarantees inbox_evolves (sink_Record D a)"
  unfolding sink_Record_def by (intro il.bind il.exec il.return il.record_kept)

lemma RunNow_evolves:
  assumes "rely inbox_evolves (dk_env D)"
  shows "guarantees inbox_evolves (RunNow D)"
  unfolding RunNow_def baseline_pass_def
proof (rule il.bind [OF il.now], rule guaranteesI)
  fix t w
  show "inbox_evolves w (snd (run_state (pass_RunOnce (Samples D)
       (\<lambda>a. if dk_sink D then sink_Record D a else State_Monad.return ())
       (if dk_alerts D then Some (Reconcile D) else None) (dk_job D) t) w))"
  proof (rule il.pass_RunOnce)
    show "guarantees inbox_evolves (Samples D a b)" for a b unfolding Samples_def by (rule il.query [OF assms])
    show "guarantees inbox_evolves (if dk_sink D then sink_Record D a else State_Monad.return ())" for a
      by (simp add: Record_evolves assms il.return)
  qed (auto intro: il.Reconcile [OF assms] split: if_splits)
qed

text \<open>A pass does not touch a series without samples in its window.\<close>

lemma group_series_keys: "ts_key ` set (fold add_point rows tss) = ts_key ` set tss \<union> fst ` set rows"
proof (induction rows arbitrary: tss)
  case (Cons x rows)
  have "ts_key ` set (add_point x tss) = insert (fst x) (ts_key ` set tss)" for tss
    by (induction x tss rule: add_point.induct) auto
  with Cons show ?case by simp
qed simp

lemma hourly_means_keys: "k \<in> fst ` set (hourly_means avg since until rows) \<Longrightarrow>
    \<exists>r\<in>set rows. row_key r = k \<and> in_window since until r"
  by (auto simp: hourly_means_def Let_def)

lemma Samples_keys:
  assumes "fst (run_state (Samples D since until) w) = Inr tss" and "k \<in> ts_key ` set tss"
  shows "\<exists>r\<in>set (metric_rows (others (dk_env D) (tick w) w)). row_key r = k \<and> since \<le> row_ts r"
proof -
  have "tss = fold add_point (hourly_means (dk_avg D) since until (metric_rows (others (dk_env D) (tick w) w))) []"
    using assms(1) by (simp add: Samples_def query_def group_series_def split: db_out.splits)
  with assms(2) have "k \<in> fst ` set (hourly_means (dk_avg D) since until (metric_rows (others (dk_env D) (tick w) w)))"
    by (simp add: group_series_keys)
  from hourly_means_keys [OF this] show ?thesis by (auto simp: in_window_def)
qed

lemma RunNow_keeps_series:
  assumes rely: "rely (keeps_series k) (dk_env D)"
    and range: "\<And>n ks. set (dk_range D n ks) \<subseteq> set ks"
    and silent: "\<forall>r\<in>set (metric_rows w). row_key r = k \<longrightarrow>
       row_ts r < clock (dk_env D) (tick w) - jb_lookback (job_defaults (dk_job D))"
  shows "keeps_series k w (snd (run_state (RunNow D) w))"
proof -
  let ?E = "dk_env D"
  define t where "t = clock ?E (tick w)"
  define since where "since = t - jb_lookback (job_defaults (dk_job D))"
  define v where "v = w\<lparr>tick := Suc (tick w)\<rparr>"
  let ?u = "others ?E (tick v) v"
  have rows: "filter (\<lambda>r. row_key r = k) (metric_rows ?u) = filter (\<lambda>r. row_key r = k) (metric_rows w)"
    using rely by (simp add: rely_def keeps_series_def v_def)
  have silent_u: "row_ts r < since" if "r \<in> set (metric_rows ?u)" "row_key r = k" for r
  proof -
    from that have "r \<in> set (filter (\<lambda>r. row_key r = k) (metric_rows ?u))" by simp
    then show ?thesis using silent by (simp add: rows since_def t_def)
  qed
  have "keeps_series k v (snd (run_state (pass_RunOnce (Samples D)
       (\<lambda>a. if dk_sink D then sink_Record D a else State_Monad.return ())
       (if dk_alerts D then Some (Reconcile D) else None) (dk_job D) t) v))"
  proof (rule ks.pass_RunOnce)
    show "guarantees (keeps_series k) (Samples D a b)" for a b unfolding Samples_def by (rule ks.query [OF rely])
    show "\<forall>tss. fst (run_state (Samples D (t - jb_lookback (job_defaults (dk_job D))) (t + clockTolerance)) v) = Inr tss \<longrightarrow>
        (\<forall>k'\<in>ts_key ` set tss. k' \<noteq> k)"
      using Samples_keys [of D since "t + clockTolerance" v] silent_u unfolding since_def [symmetric]
      by (metis linorder_not_less)
    show "guarantees (keeps_series k) (if dk_sink D then sink_Record D a else State_Monad.return ())" for a
      unfolding sink_Record_def
      by (auto intro!: ks.bind ks.exec ks.return ks.record_kept rely)
    show "guarantees (keeps_series k) (f as ks)"
      if "(if dk_alerts D then Some (Reconcile D) else None) = Some f" "\<forall>a\<in>set as. an_key a \<noteq> k" "\<forall>k'\<in>set ks. k' \<noteq> k"
      for f as ks
    proof -
      have "\<forall>n. \<forall>k'\<in>set (dk_range D n ks). k' \<noteq> k" using that(3) range by blast
      moreover have "f = Reconcile D" using that(1) by (simp split: if_splits)
      ultimately show ?thesis using that(2) by (simp add: ks.Reconcile rely)
    qed
  qed
  moreover have "keeps_series k w v" by (simp add: keeps_series_def v_def)
  ultimately show ?thesis
    unfolding RunNow_def baseline_pass_def run_bind run_now by (auto simp: v_def t_def intro: ks.trans)
qed


subsection \<open>What a plan contains\<close>

definition streak :: "(series_key \<Rightarrow> nat option) \<Rightarrow> series_key \<Rightarrow> nat" where
  "streak q k = (case q k of None \<Rightarrow> 0 | Some n \<Rightarrow> n)"

text \<open>A series a pass resolves: scored, not flagged, with a live alert, and clean often enough.\<close>

definition resolves :: "anomaly list \<Rightarrow> series_key list \<Rightarrow> series_key set \<Rightarrow> (series_key \<Rightarrow> nat option) \<Rightarrow> int \<Rightarrow> series_key \<Rightarrow> bool" where
  "resolves anoms scored live q n k \<longleftrightarrow>
     k \<in> set scored \<and> k \<notin> an_key ` set anoms \<and> k \<in> live \<and> max 1 n \<le> int (streak q k) + 1"

lemma plan_resolve:
  assumes "distinct scored"
  shows "set (pl_resolve (fst (planReconcile anoms scored live q n))) = {k. resolves anoms scored (set live) q n k}"
    "distinct (pl_resolve (fst (planReconcile anoms scored live q n)))"
  using assms by (auto simp: planReconcile_def Let_def fold_clean_pass resolves_def streak_def split: if_splits)

lemma plan_streaks:
  assumes "distinct scored"
  shows "snd (planReconcile anoms scored live q n) k =
     (if k \<in> an_key ` set anoms then None
      else if k \<notin> set scored then q k
      else if k \<notin> set live \<or> resolves anoms scored (set live) q n k then None
      else Some (streak q k + 1))"
  using assms by (auto simp: planReconcile_def Let_def fold_clean_pass resolves_def streak_def split: if_splits)

lemma plan_entries:
  "map_of (pl_create (fst (planReconcile anoms scored live q n))) k =
     (if k \<in> set live then None else map_of (worst_of anoms) k)"
  "map_of (pl_bump (fst (planReconcile anoms scored live q n))) k =
     (if k \<in> set live then map_of (worst_of anoms) k else None)"
  "distinct (map fst (pl_create (fst (planReconcile anoms scored live q n))))"
  "distinct (map fst (pl_bump (fst (planReconcile anoms scored live q n))))"
proof -
  have entry: "map_of (filter (\<lambda>x. P (fst x)) m) k = (if P k then map_of m k else None)" for m :: "(series_key \<times> anomaly) list" and P
    by (induction m) auto
  from entry [of "\<lambda>k. k \<notin> set live"] entry [of "\<lambda>k. k \<in> set live"]
  show "map_of (pl_create (fst (planReconcile anoms scored live q n))) k =
     (if k \<in> set live then None else map_of (worst_of anoms) k)"
    "map_of (pl_bump (fst (planReconcile anoms scored live q n))) k =
     (if k \<in> set live then map_of (worst_of anoms) k else None)"
    by (simp_all add: planReconcile_def Let_def)
  have "distinct (map fst (filter P m))" if "distinct (map fst m)" for m :: "(series_key \<times> anomaly) list" and P
    using that by (simp add: distinct_map_filter)
  then show "distinct (map fst (pl_create (fst (planReconcile anoms scored live q n))))"
    "distinct (map fst (pl_bump (fst (planReconcile anoms scored live q n))))"
    by (simp_all add: planReconcile_def Let_def)
qed

subsection \<open>What reconciling does to the inbox\<close>

text \<open>
  The abstract inbox: for each series the live alert, without its id and the instants of the writes. One
  reconciliation is a function on it.
\<close>

record alert_view =
  av_status :: string
  av_score :: f64
  av_channel :: string
  av_value :: f64
  av_expected :: "f64 option"
  av_events :: int
  av_first :: time
  av_last :: time

definition view_of :: "alert \<Rightarrow> alert_view" where
  "view_of a = \<lparr>av_status = al_status a, av_score = al_score a, av_channel = al_channel a, av_value = al_value a,
     av_expected = al_expected a, av_events = al_events a, av_first = al_first a, av_last = al_last a\<rparr>"

definition inbox_view :: "alert_world \<Rightarrow> series_key \<Rightarrow> alert_view option" where
  "inbox_view w k = map_option view_of (find (live_of k) (alert_rows w))"

text \<open>The channel with the greater score and its median, the seasonal one when they agree.\<close>

definition leading :: "anomaly \<Rightarrow> string \<times> f64 option" where
  "leading a =
     (case (an_seasonal a, an_trend a) of
        (None, None) \<Rightarrow> ([], None)
      | (Some s, None) \<Rightarrow> (''seasonal'', Some (cs_median s))
      | (None, Some t) \<Rightarrow> (''trend'', Some (cs_median t))
      | (Some s, Some t) \<Rightarrow>
          if cs_z s \<noteq> NaN \<and> cs_z t \<noteq> NaN \<and> \<not> f_lt (cs_z s) (cs_z t) then (''seasonal'', Some (cs_median s))
          else (''trend'', Some (cs_median t)))"

lemma fields_leading: "alertFields a = leading a"
proof -
  have "f_le x y \<longleftrightarrow> x \<noteq> NaN \<and> y \<noteq> NaN \<and> \<not> f_lt y x" for x y
    by (cases x; cases y) (auto simp: f_le_def f_eq_def)
  then show ?thesis by (auto simp: alertFields_def leading_def seasonal_leads_def split: option.split)
qed

definition opened :: "anomaly \<Rightarrow> alert_view" where
  "opened a = \<lparr>av_status = ''open'', av_score = an_score a, av_channel = fst (leading a), av_value = an_value a,
     av_expected = snd (leading a), av_events = 1, av_first = an_at a, av_last = an_at a\<rparr>"

definition refired :: "anomaly \<Rightarrow> alert_view \<Rightarrow> alert_view" where
  "refired a v = v\<lparr>av_score := (if av_score v = NaN \<or> an_score a = NaN then NaN
                               else if f_lt (av_score v) (an_score a) then an_score a else av_score v),
     av_channel := fst (leading a), av_value := an_value a, av_expected := snd (leading a), av_events := av_events v + 1, av_last := an_at a\<rparr>"

text \<open>The first of the anomalies of a series that no other one exceeds; one that is not a number stays when it came first.\<close>

definition spec_worst :: "anomaly list \<Rightarrow> series_key \<Rightarrow> anomaly option" where
  "spec_worst as k =
     (let mine = filter (\<lambda>a. an_key a = k) as in
      if mine = [] then None
      else if an_score (hd mine) = NaN then Some (hd mine)
      else find (\<lambda>a. an_score a \<noteq> NaN \<and> (\<forall>b\<in>set mine. \<not> f_lt (an_score a) (an_score b))) mine)"

definition spec_reconcile :: "int \<Rightarrow> anomaly list \<Rightarrow> series_key list \<Rightarrow> (series_key \<Rightarrow> nat option) \<Rightarrow>
    (series_key \<Rightarrow> alert_view option) \<Rightarrow> series_key \<Rightarrow> alert_view option" where
  "spec_reconcile n anoms scored q inbox k =
     (case spec_worst anoms k of
        Some a \<Rightarrow> Some (case inbox k of None \<Rightarrow> opened a | Some v \<Rightarrow> refired a v)
      | None \<Rightarrow> if resolves anoms scored {k. inbox k \<noteq> None} q n k then None else inbox k)"

text \<open>The number of clean passes in a row, afterwards.\<close>

definition spec_streaks :: "int \<Rightarrow> anomaly list \<Rightarrow> series_key list \<Rightarrow> (series_key \<Rightarrow> nat option) \<Rightarrow>
    (series_key \<Rightarrow> alert_view option) \<Rightarrow> series_key \<Rightarrow> nat option" where
  "spec_streaks n anoms scored q inbox k =
     (if \<exists>a\<in>set anoms. an_key a = k then None
      else if k \<notin> set scored then q k
      else if inbox k = None \<or> max 1 n \<le> int (streak q k) + 1 then None
      else Some (streak q k + 1))"

lemma find_first: "find P xs = Some b \<Longrightarrow> (\<And>x. Q x \<Longrightarrow> P x) \<Longrightarrow> Q b \<Longrightarrow> find Q xs = Some b"
  by (induction xs) (auto split: if_splits)

lemma find_hit: "find P xs = Some b \<Longrightarrow> b \<in> set xs \<and> P b"
  by (induction xs) (auto split: if_splits)

lemma find_miss: "x \<in> set xs \<Longrightarrow> P x \<Longrightarrow> find P xs \<noteq> None"
  by (induction xs) auto

lemma worst_in_order:
  fixes xs :: "anomaly list"
  shows "fold (\<lambda>a c. case c of None \<Rightarrow> Some a | Some b \<Rightarrow> if f_lt (an_score b) (an_score a) then Some a else c) xs None =
   (if xs = [] then None
    else if an_score (hd xs) = NaN then Some (hd xs)
    else find (\<lambda>a. an_score a \<noteq> NaN \<and> (\<forall>b\<in>set xs. \<not> f_lt (an_score a) (an_score b))) xs)"
  (is "?w xs = _")
proof (induction xs rule: rev_induct)
  case (snoc a xs)
  have step: "?w (xs @ [a]) = (case ?w xs of None \<Rightarrow> Some a | Some b \<Rightarrow> if f_lt (an_score b) (an_score a) then Some a else Some b)"
    by (simp split: option.split)
  show ?case
  proof (cases "xs = [] \<or> an_score (hd xs) = NaN")
    case True
    then show ?thesis unfolding step snoc by auto
  next
    case False
    let ?P = "\<lambda>ys a. an_score a \<noteq> NaN \<and> (\<forall>b\<in>set ys. \<not> f_lt (an_score a) (an_score b))"
    have w: "?w xs = find (?P xs) xs" using False unfolding snoc by simp
    have ne: "xs \<noteq> []" "an_score (hd xs) \<noteq> NaN" using False by simp_all
    have ex: "\<exists>b\<in>set xs. ?P xs b" if "xs \<noteq> []" "an_score (hd xs) \<noteq> NaN" for xs :: "anomaly list"
      using that
    proof (induction xs rule: rev_induct)
      case (snoc c ys)
      show ?case
      proof (cases "ys = []")
        case False
        then obtain b where b: "b \<in> set ys" "?P ys b" using snoc by auto
        show ?thesis
        proof (cases "f_lt (an_score b) (an_score c)")
          case True
          then have "an_score c \<noteq> NaN" by auto
          moreover have "\<not> f_lt (an_score c) (an_score y)" if "y \<in> set ys" for y
            using True b(2) that f_lt_trans by blast
          ultimately show ?thesis by auto
        next
          case False
          with b show ?thesis by auto
        qed
      qed (use snoc in auto)
    qed simp
    from ex [OF ne] obtain x where "x \<in> set xs" "?P xs x" by (rule bexE)
    then have "find (?P xs) xs \<noteq> None" using find_miss [of x xs "?P xs"] by simp
    then obtain b where b: "find (?P xs) xs = Some b" by blast
    have P: "b \<in> set xs" "?P xs b" using find_hit [OF b] by auto
    have "find (?P (xs @ [a])) (xs @ [a]) = (if f_lt (an_score b) (an_score a) then Some a else Some b)"
    proof (cases "f_lt (an_score b) (an_score a)")
      case True
      have "f_lt (an_score x) (an_score a)" if "x \<in> set xs" "an_score x \<noteq> NaN" for x
      proof -
        have "f_lt (an_score x) (an_score b) \<or> an_score x = an_score b"
          using P that f_total [of "an_score x" "an_score b"] by (auto simp: f_eq_def)
        with True show ?thesis using f_lt_trans by metis
      qed
      then have "find (?P (xs @ [a])) xs = None" by (auto simp: find_None_iff)
      moreover have "?P (xs @ [a]) a"
      proof -
        have "\<not> f_lt (an_score a) (an_score y)" if "y \<in> set xs" for y
          using True P(2) that f_lt_trans by blast
        with True show ?thesis by auto
      qed
      ultimately show ?thesis using True by (simp add: find_append)
    next
      case no: False
      have "find (?P (xs @ [a])) xs = Some b" by (rule find_first [OF b]) (use P no in auto)
      then show ?thesis using no by (simp add: find_append)
    qed
    then show ?thesis unfolding step w b using False by simp
  qed
qed simp

lemma fold_filtered: "fold (\<lambda>a c. if an_key a \<noteq> k then c else f a c) xs c = fold f (filter (\<lambda>a. an_key a = k) xs) c"
  by (induction xs arbitrary: c) simp_all

lemma worst_first: "map_of (worst_of as) k = spec_worst as k"
  by (simp add: worst_of_def fold_worst_map fold_filtered worst_in_order spec_worst_def Let_def)

text \<open>The environment answers every statement and nobody else writes.\<close>

definition answering :: "'w env \<Rightarrow> bool" where
  "answering E \<longleftrightarrow> (\<forall>n. db_out E n = DbOk) \<and> undisturbed E"

lemma answering_exec: "answering E \<Longrightarrow> run_state (exec E stmt) w = stmt (w\<lparr>tick := Suc (tick w)\<rparr>)"
  by (simp add: answering_def exec_def undisturbed_def)

lemma answering_query:
  "answering E \<Longrightarrow> run_state (query E f) w = (Inr (f (w\<lparr>tick := Suc (tick w)\<rparr>)), w\<lparr>tick := Suc (tick w)\<rparr>)"
  by (simp add: answering_def query_def undisturbed_def)

lemma find_live_iff: "find (live_of k) rows = None \<longleftrightarrow> k \<notin> al_key ` set (filter is_live rows)"
  by (auto simp: find_None_iff live_of_def)

lemma inbox_view_cong [simp]:
  "inbox_view (w\<lparr>tick := n\<rparr>) = inbox_view w" "inbox_view (w\<lparr>alert_log := l\<rparr>) = inbox_view w"
  "inbox_view (w\<lparr>alert_quiet := q\<rparr>) = inbox_view w"
  by (simp_all add: inbox_view_def fun_eq_iff)

lemma view_insert:
  assumes "inbox_view w k = None"
  shows "fst (insert_alert_stmt k a t w) = Inr ()"
    "inbox_view (snd (insert_alert_stmt k a t w)) = (inbox_view w)(k \<mapsto> opened a)"
proof -
  have "\<not> violates al_key is_live (alert_rows w) (new_alert (alert_seq w) k a t)"
    using assms by (auto simp: inbox_view_def find_live_iff violates_def new_alert_def)
  then show "fst (insert_alert_stmt k a t w) = Inr ()"
    "inbox_view (snd (insert_alert_stmt k a t w)) = (inbox_view w)(k \<mapsto> opened a)"
    using assms
    by (auto simp: insert_alert_stmt_def Let_def inbox_view_def find_append fun_eq_iff live_of_def new_alert_def
        is_live_def view_of_def opened_def fields_leading split: option.split)
qed

lemma find_update_live:
  assumes "\<And>r. al_key (f r) = al_key r"
  shows "find (live_of k') (update_where (live_of k) f rows) =
    (if k' = k then (if \<forall>r. is_live r \<longrightarrow> is_live (f r) then map_option f (find (live_of k) rows)
                     else find (live_of k) (update_where (live_of k) f rows))
     else find (live_of k') rows)"
  using assms by (induction rows) (auto simp: live_of_def)

lemma view_bump: "inbox_view (snd (bump_stmt k a t w)) = (inbox_view w)(k := map_option (refired a) (inbox_view w k))"
proof
  fix k'
  have "is_live (bumped a t r) = is_live r" "al_key (bumped a t r) = al_key r" for r
    by (simp_all add: bumped_def is_live_def)
  moreover have "view_of (bumped a t r) = refired a (view_of r)" for r
    by (cases "al_score r"; cases "an_score a")
      (auto simp: view_of_def bumped_def refired_def fields_leading pg_greatest_def max_def less_f64_def)
  ultimately show "inbox_view (snd (bump_stmt k a t w)) k' = ((inbox_view w)(k := map_option (refired a) (inbox_view w k))) k'"
    by (simp add: bump_stmt_def inbox_view_def find_update_live option.map_comp o_def)
qed

lemma view_resolve: "inbox_view (snd (resolve_stmt k t w)) = (inbox_view w)(k := None)"
proof
  fix k'
  have "find (live_of k) (update_where (live_of k) (resolved t) rows) = None" for rows
    by (induction rows) (auto simp: live_of_def resolved_def is_live_def)
  then show "inbox_view (snd (resolve_stmt k t w)) k' = ((inbox_view w)(k := None)) k'"
    by (simp add: resolve_stmt_def inbox_view_def find_update_live resolved_def)
qed

text \<open>The loops, over entries with distinct keys.\<close>

lemma create_all_view:
  assumes "answering (dk_env D)" and "distinct (map fst xs)" and "\<forall>x\<in>set xs. inbox_view w (fst x) = None"
  shows "inbox_view (snd (run_state (create_all D xs) w)) =
    (\<lambda>k. case map_of xs k of None \<Rightarrow> inbox_view w k | Some a \<Rightarrow> Some (opened a))"
  using assms(2,3)
proof (induction xs arbitrary: w)
  case (Cons x xs)
  obtain k a where x: "x = (k, a)" by fastforce
  let ?v = "w\<lparr>tick := Suc (tick w)\<rparr>"
  let ?u = "snd (insert_alert_stmt k a (clock (dk_env D) (Suc (tick w))) ?v)"
  have none: "inbox_view ?v k = None" using Cons.prems by (simp add: x)
  have up: "run_state (upsertAlert D k a) w = (Inr (), ?u)"
    using view_insert(1) [OF none] by (simp add: upsertAlert_def answering_exec [OF assms(1)] prod_eq_iff)
  define u where "u = snd (run_state (emit D ''fired'' (alertPayload k a (fst (alertFields a)) ''open'')) ?u)"
  have u: "inbox_view u = (inbox_view w)(k \<mapsto> opened a)"
    using view_insert(2) [OF none] by (simp add: u_def emit_def)
  have "\<forall>x\<in>set xs. inbox_view u (fst x) = None" using Cons.prems by (force simp: u x)
  from Cons.IH [OF _ this] Cons.prems have
    "inbox_view (snd (run_state (create_all D xs) u)) =
      (\<lambda>k. case map_of xs k of None \<Rightarrow> inbox_view u k | Some a \<Rightarrow> Some (opened a))" by simp
  moreover have "map_of xs k = None" using Cons.prems by (simp add: x map_of_eq_None_iff)
  ultimately show ?case
    by (auto simp: x up u_def [symmetric] u fun_eq_iff split: option.split)
qed (simp add: fun_eq_iff)

lemma bump_all_view:
  assumes "answering (dk_env D)" and "distinct (map fst xs)"
  shows "inbox_view (snd (run_state (bump_all D xs) w)) =
    (\<lambda>k. case map_of xs k of None \<Rightarrow> inbox_view w k | Some a \<Rightarrow> map_option (refired a) (inbox_view w k))"
  using assms(2)
proof (induction xs arbitrary: w)
  case (Cons x xs)
  obtain k a where x: "x = (k, a)" by fastforce
  let ?v = "w\<lparr>tick := Suc (tick w)\<rparr>"
  let ?u = "snd (bump_stmt k a (clock (dk_env D) (Suc (tick w))) ?v)"
  have up: "run_state (bumpAlert D k a) w = (Inr (), ?u)"
    by (simp add: bumpAlert_def answering_exec [OF assms(1)] bump_stmt_def)
  define u where "u = snd (run_state (emit D ''updated'' (alertPayload k a (fst (alertFields a)) ''open'')) ?u)"
  have u: "inbox_view u = (inbox_view w)(k := map_option (refired a) (inbox_view w k))"
    by (simp add: u_def emit_def view_bump)
  from Cons.IH [of u] Cons.prems have
    "inbox_view (snd (run_state (bump_all D xs) u)) =
      (\<lambda>k. case map_of xs k of None \<Rightarrow> inbox_view u k | Some a \<Rightarrow> map_option (refired a) (inbox_view u k))" by simp
  moreover have "map_of xs k = None" using Cons.prems by (simp add: x map_of_eq_None_iff)
  ultimately show ?case
    by (auto simp: x up u_def [symmetric] u fun_eq_iff split: option.split)
qed (simp add: fun_eq_iff)

lemma resolve_all_view:
  assumes "answering (dk_env D)"
  shows "inbox_view (snd (run_state (resolve_all D ks) w)) = (\<lambda>k. if k \<in> set ks then None else inbox_view w k)"
proof (induction ks arbitrary: w)
  case (Cons k ks)
  let ?v = "w\<lparr>tick := Suc (tick w)\<rparr>"
  let ?u = "snd (resolve_stmt k (clock (dk_env D) (Suc (tick w))) ?v)"
  obtain n where n: "fst (resolve_stmt k (clock (dk_env D) (Suc (tick w))) ?v) = Inr n" by (simp add: resolve_stmt_def)
  define u where "u = (if n > 0 then snd (run_state (emit D ''resolved'' (resolved_payload k)) ?u) else ?u)"
  have u: "inbox_view u = (inbox_view w)(k := None)"
    by (simp add: u_def emit_def view_resolve)
  have "snd (run_state (resolve_all D (k # ks)) w) = snd (run_state (resolve_all D ks) u)"
    by (simp add: answering_exec [OF assms] n u_def)
  with Cons.IH [of u] show ?case by (simp add: u fun_eq_iff)
qed (simp add: fun_eq_iff)

lemma ranged_view:
  assumes "mset (dk_range D n (map fst xs)) = mset (map fst xs)" and "distinct (map fst xs)"
  shows "distinct (map fst (ranged D n xs))" "map_of (ranged D n xs) = map_of xs"
proof -
  have ks: "distinct (dk_range D n (map fst xs))" "set (dk_range D n (map fst xs)) = fst ` set xs"
    using assms mset_eq_imp_distinct_iff mset_eq_setD by (metis, metis list.set_map)
  have gen: "map fst (List.map_filter (\<lambda>k. map_option (Pair k) (map_of xs k)) ks) = ks \<and>
      (\<forall>k\<in>set ks. map_of (List.map_filter (\<lambda>k. map_option (Pair k) (map_of xs k)) ks) k = map_of xs k)"
    if "set ks \<subseteq> fst ` set xs" for ks
    using that
  proof (induction ks)
    case (Cons k ks)
    then obtain v where "map_of xs k = Some v" by (metis insert_subset list.simps(15) map_of_eq_None_iff option.exhaust)
    with Cons show ?case by (auto simp: List.map_filter_def)
  qed (simp add: List.map_filter_def)
  from gen [of "dk_range D n (map fst xs)"] ks show dist: "distinct (map fst (ranged D n xs))"
    by (simp add: ranged_def)
  show "map_of (ranged D n xs) = map_of xs"
  proof
    fix k
    show "map_of (ranged D n xs) k = map_of xs k"
    proof (cases "k \<in> fst ` set xs")
      case True
      with gen [of "dk_range D n (map fst xs)"] ks(2) show ?thesis by (auto simp: ranged_def)
    next
      case False
      then have "map_of xs k = None" "map_of (ranged D n xs) k = None"
        using ranged_keys [of D n xs] by (auto simp: map_of_eq_None_iff)
      then show ?thesis by simp
    qed
  qed
qed

lemma spec_cases:
  assumes "\<And>k. (k \<in> live) = (inbox k \<noteq> None)"
  shows "(if k \<in> {k. resolves anoms scored live q n k} then None
     else case (if k \<in> live then map_of (worst_of anoms) k else None) of
       None \<Rightarrow> (case (if k \<in> live then None else map_of (worst_of anoms) k) of None \<Rightarrow> inbox k | Some a \<Rightarrow> Some (opened a))
     | Some a \<Rightarrow> map_option (refired a)
         (case (if k \<in> live then None else map_of (worst_of anoms) k) of None \<Rightarrow> inbox k | Some a \<Rightarrow> Some (opened a))) =
   spec_reconcile n anoms scored q inbox k"
proof -
  have live: "{k. inbox k \<noteq> None} = live" "{k. \<exists>y. inbox k = Some y} = live" using assms by auto
  have "\<not> resolves anoms scored live q n k" if "map_of (worst_of anoms) k \<noteq> None"
    using that worst_keys [of anoms] by (auto simp: resolves_def map_of_eq_None_iff)
  then show ?thesis
    using assms [of k] by (auto simp: spec_reconcile_def worst_first [symmetric] live split: option.splits)
qed

text \<open>The statements leave the streaks alone; a quiet setting below one counts as one.\<close>

lemma quiet_kept:
  assumes "answering (dk_env D)"
  shows "alert_quiet (snd (run_state (create_all D xs) w)) = alert_quiet w"
    "alert_quiet (snd (run_state (bump_all D xs) w)) = alert_quiet w"
    "alert_quiet (snd (run_state (resolve_all D ks) w)) = alert_quiet w"
proof -
  have e: "alert_quiet (snd (run_state (emit D what p) u)) = alert_quiet u" for what p u by (simp add: emit_def)
  have c: "alert_quiet (snd (run_state (case r of Inl e \<Rightarrow> State_Monad.return () | Inr x \<Rightarrow> emit D what p) u)) = alert_quiet u"
    for r :: "unit res" and what p u
    by (simp add: e split: sum.split)
  have i: "alert_quiet (snd (insert_alert_stmt k a t u)) = alert_quiet u" "alert_quiet (snd (bump_stmt k a t u)) = alert_quiet u"
    "alert_quiet (snd (resolve_stmt k t u)) = alert_quiet u" for k a t u
    by (simp_all add: insert_alert_stmt_def bump_stmt_def resolve_stmt_def Let_def)
  have b: "alert_quiet (snd (run_state (bumpAlert D k a) u)) = alert_quiet u" for k a u
    by (simp add: bumpAlert_def answering_exec [OF assms] i)
  have u: "alert_quiet (snd (run_state (upsertAlert D k a) u)) = alert_quiet u" for k a u
    by (simp add: upsertAlert_def answering_exec [OF assms] i b split: sum.split)
  show "alert_quiet (snd (run_state (create_all D xs) w)) = alert_quiet w"
    by (induction xs arbitrary: w)
      (simp_all add: split_paired_all c u)
  show "alert_quiet (snd (run_state (bump_all D xs) w)) = alert_quiet w"
    by (induction xs arbitrary: w)
      (simp_all add: split_paired_all c b)
  show "alert_quiet (snd (run_state (resolve_all D ks) w)) = alert_quiet w"
    by (induction ks arbitrary: w)
      (simp_all add: answering_exec [OF assms] i e split: sum.split)
qed

lemma resolves_needed: "resolves anoms scored live q (quiet_needed D) = resolves anoms scored live q (dk_quiet D)"
  by (simp add: resolves_def fun_eq_iff quiet_needed_def)

lemma reconcile_view:
  assumes E: "answering (dk_env D)" and perm: "\<forall>n ks. mset (dk_range D n ks) = mset ks"
    and scored: "distinct scored"
  shows "inbox_view (snd (run_state (Reconcile D anoms scored) w)) =
      spec_reconcile (dk_quiet D) anoms scored (alert_quiet w) (inbox_view w)"
    "alert_quiet (snd (run_state (Reconcile D anoms scored) w)) =
      spec_streaks (dk_quiet D) anoms scored (alert_quiet w) (inbox_view w)"
proof -
  let ?v = "w\<lparr>tick := Suc (tick w)\<rparr>" and ?E = "dk_env D"
  define live where "live = map al_key (filter is_live (alert_rows w))"
  define order where "order = dk_range D (Suc (tick w)) scored"
  have order: "distinct order" "set order = set scored"
    using perm scored mset_eq_imp_distinct_iff mset_eq_setD unfolding order_def by metis+
  define p where "p = fst (planReconcile anoms order live (alert_quiet w) (quiet_needed D))"
  define q where "q = snd (planReconcile anoms order live (alert_quiet w) (quiet_needed D))"
  let ?u = "?v\<lparr>alert_quiet := q\<rparr>"
  have in_live: "k \<in> set live \<longleftrightarrow> inbox_view w k \<noteq> None" for k
    by (simp add: live_def inbox_view_def find_live_iff)
  have create: "distinct (map fst (ranged D m (pl_create p)))" "map_of (ranged D m (pl_create p)) = map_of (pl_create p)" for m
    using ranged_view [of D m "pl_create p"] perm by (simp_all add: p_def plan_entries)
  have bump: "distinct (map fst (ranged D m (pl_bump p)))" "map_of (ranged D m (pl_bump p)) = map_of (pl_bump p)" for m
    using ranged_view [of D m "pl_bump p"] perm by (simp_all add: p_def plan_entries)
  let ?c = "ranged D (tick ?u) (pl_create p)"
  define x where "x = snd (run_state (create_all D ?c) ?u)"
  let ?b = "ranged D (tick x) (pl_bump p)"
  define y where "y = snd (run_state (bump_all D ?b) x)"
  have "\<forall>z\<in>set ?c. inbox_view ?u (fst z) = None"
  proof
    fix z assume "z \<in> set ?c"
    then have "map_of (pl_create p) (fst z) \<noteq> None" using ranged_entry [of "fst z" "snd z"] by simp
    then have "fst z \<notin> set live" by (simp add: p_def plan_entries split: if_splits)
    then show "inbox_view ?u (fst z) = None" by (simp add: in_live)
  qed
  from create_all_view [OF E create(1) this]
  have x: "inbox_view x = (\<lambda>k. case map_of (pl_create p) k of None \<Rightarrow> inbox_view w k | Some a \<Rightarrow> Some (opened a))"
    by (simp add: x_def create fun_eq_iff split: option.split)
  have y: "inbox_view y = (\<lambda>k. case map_of (pl_bump p) k of None \<Rightarrow> inbox_view x k | Some a \<Rightarrow> map_option (refired a) (inbox_view x k))"
    using bump_all_view [OF E bump(1)] by (simp add: y_def bump)
  have run: "snd (run_state (Reconcile D anoms scored) w) = snd (run_state (resolve_all D (pl_resolve p)) y)"
    by (simp add: Reconcile_def answering_query [OF E] make_plan_def split_beta x_def y_def p_def q_def live_def order_def)
  have resolve: "set (pl_resolve p) = {k. resolves anoms scored (set live) (alert_quiet w) (quiet_needed D) k}"
    using plan_resolve(1) [OF order(1)] by (simp add: p_def resolves_def order(2))
  have pc: "map_of (pl_create p) = (\<lambda>k. if k \<in> set live then None else map_of (worst_of anoms) k)"
    and pb: "map_of (pl_bump p) = (\<lambda>k. if k \<in> set live then map_of (worst_of anoms) k else None)"
    by (simp_all add: p_def plan_entries fun_eq_iff)
  have need: "spec_reconcile (quiet_needed D) anoms scored r = spec_reconcile (dk_quiet D) anoms scored r" for r
    by (simp add: spec_reconcile_def resolves_needed fun_eq_iff)
  show "inbox_view (snd (run_state (Reconcile D anoms scored) w)) =
      spec_reconcile (dk_quiet D) anoms scored (alert_quiet w) (inbox_view w)"
    unfolding run resolve_all_view [OF E] y x resolve pc pb need [symmetric]
    by (rule ext) (rule spec_cases [OF in_live])
  have "alert_quiet (snd (run_state (Reconcile D anoms scored) w)) = q"
    unfolding run quiet_kept [OF E] by (simp add: y_def x_def quiet_kept [OF E])
  also have "q = spec_streaks (dk_quiet D) anoms scored (alert_quiet w) (inbox_view w)"
  proof
    fix k
    have "q k = (if k \<in> an_key ` set anoms then None
      else if k \<notin> set scored then alert_quiet w k
      else if k \<notin> set live \<or> resolves anoms scored (set live) (alert_quiet w) (quiet_needed D) k then None
      else Some (streak (alert_quiet w) k + 1))"
      using plan_streaks [OF order(1)] by (simp add: q_def order(2) resolves_def)
    then show "q k = spec_streaks (dk_quiet D) anoms scored (alert_quiet w) (inbox_view w) k"
      unfolding resolves_needed in_live spec_streaks_def by (auto simp: resolves_def in_live)
  qed
  finally show "alert_quiet (snd (run_state (Reconcile D anoms scored) w)) =
      spec_streaks (dk_quiet D) anoms scored (alert_quiet w) (inbox_view w)" .
qed

subsection \<open>Cells against a batch computation\<close>

lemma sort_again: "sort (map f (sort xs)) = sort (map f xs)" for f :: "'a::linorder \<Rightarrow> 'b::linorder"
  by (rule properties_for_sort) simp_all

lemma sort_snoc: "sort (sort xs @ [x]) = sort (xs @ [x])"
  by (rule properties_for_sort) simp_all

lemma median_sort [simp]: "median (sort xs) = median xs"
  by (simp add: median_def sort_again [where f = "\<lambda>x. x", simplified])

lemma mad_sort [simp]: "madAround m (sort xs) = madAround m xs"
  by (simp add: madAround_def median_def sort_again)

lemma fold_cell:
  assumes "ce_values c = sort xs" "ce_has c"
    "ce_med c = median xs" "ce_mad c = madAround (median xs) xs"
  shows "let c' = fold (\<lambda>v c. cell_Add c v) vs c in
    ce_values c' = sort (xs @ vs) \<and> ce_has c' \<and>
    ce_med c' = median (xs @ vs) \<and> ce_mad c' = madAround (median (xs @ vs)) (xs @ vs)"
  using assms
proof (induction vs arbitrary: c xs)
  case (Cons v vs)
  have "let c' = fold (\<lambda>v c. cell_Add c v) vs (cell_Add c v) in
    ce_values c' = sort ((xs @ [v]) @ vs) \<and> ce_has c' \<and>
    ce_med c' = median ((xs @ [v]) @ vs) \<and> ce_mad c' = madAround (median ((xs @ [v]) @ vs)) ((xs @ [v]) @ vs)"
    by (rule Cons.IH) (simp_all add: cell_Add_def Let_def Cons.prems sort_snoc)
  then show ?case by simp
qed simp

subsection \<open>The flag by counting\<close>

text \<open>Order statistics by counting: the \<open>k\<close>-th smallest is the sample with at most \<open>k\<close> before it and more than \<open>k\<close>
  not behind it; what is not a number comes first. No sorting is involved.\<close>

definition sorts_below :: "f64 \<Rightarrow> f64 \<Rightarrow> bool" where
  "sorts_below y x \<longleftrightarrow> f_lt y x \<or> y = NaN \<and> x \<noteq> NaN"

definition ranked :: "nat \<Rightarrow> f64 list \<Rightarrow> f64 \<Rightarrow> bool" where
  "ranked k xs x \<longleftrightarrow>
     length (filter (\<lambda>y. sorts_below y x) xs) \<le> k \<and> k < length (filter (\<lambda>y. \<not> sorts_below x y) xs)"

definition kth :: "nat \<Rightarrow> f64 list \<Rightarrow> f64" where
  "kth k xs = hd (filter (ranked k xs) xs)"

definition middle :: "f64 list \<Rightarrow> f64" where
  "middle xs =
     (if length xs mod 2 = 1 then kth (length xs div 2) xs
      else f_div (f_add (kth (length xs div 2 - 1) xs) (kth (length xs div 2) xs)) (Fin 2))"

definition deviation :: "f64 list \<Rightarrow> f64" where
  "deviation xs = middle (map (\<lambda>x. f_abs (f_sub x (middle xs))) xs)"

text \<open>The scale of a series, never below a hundredth of the middle, or a thousandth when that is zero.\<close>

definition spread :: "f64 \<Rightarrow> f64 \<Rightarrow> f64" where
  "spread m d =
     (let least = (if m = NaN \<or> m = Fin 0 then round64 (1 / 1000) else f_mul (f_abs m) (round64 (1 / 100)));
          s = f_mul (round64 (14826 / 10000)) d in
      if f_lt s least then least else s)"

text \<open>Score, middle, deviation and number of the samples of a channel: the distance from the middle in units of the scale.\<close>

type_synonym channel = "f64 \<times> f64 \<times> f64 \<times> nat"

definition spec_channel :: "job \<Rightarrow> f64 list \<Rightarrow> f64 \<Rightarrow> channel option" where
  "spec_channel j hist x =
     (if hist = [] \<or> int (length hist) < jb_min_cells j \<or> spread (middle hist) (deviation hist) = Fin 0 then None
      else Some (f_div (f_abs (f_sub x (middle hist))) (spread (middle hist) (deviation hist)),
                 middle hist, deviation hist, length hist))"

definition reaches :: "job \<Rightarrow> channel option \<Rightarrow> bool" where
  "reaches j c \<longleftrightarrow> (\<exists>z r. c = Some (z, r) \<and> f_le (jb_zflag j) z)"

definition channel_z :: "channel option \<Rightarrow> f64" where
  "channel_z c = (case c of None \<Rightarrow> Fin 0 | Some (z, r) \<Rightarrow> z)"

text \<open>The flag of a series from its samples, unsorted, with times in nanoseconds: 3600000000000 make an hour and
  86400000000000 a day. A sample more than 50 seconds ahead does not count.\<close>

definition spec_flag :: "job \<Rightarrow> time \<Rightarrow> time_series \<Rightarrow>
    (series_key \<times> time \<times> f64 \<times> f64 \<times> channel option \<times> channel option) option" where
  "spec_flag j t ts =
     (let known = filter (\<lambda>p. pt_at p \<le> t + 50000000000) (ts_points ts);
          l = last known;
          older = filter (\<lambda>p. pt_at p < pt_at l) known;
          weekly = filter (\<lambda>p. (pt_at p div 3600000000000 - pt_at l div 3600000000000) mod (7 * 24) = 0) older;
          today = filter (\<lambda>p. pt_at l - jb_trend_hours j * 3600000000000 \<le> pt_at p \<and>
                              pt_at l - pt_at l mod 86400000000000 \<le> pt_at p) older;
          s = spec_channel j (map pt_mean weekly) (pt_mean l);
          d = spec_channel j (map pt_mean today) (pt_mean l);
          z = (if f_lt (channel_z s) (channel_z d) then channel_z d else channel_z s) in
      if known \<noteq> [] \<and> (reaches j s \<or> reaches j d) \<and> z \<noteq> NaN
      then Some (ts_key ts, pt_at l, pt_mean l, z, s, d) else None)"

text \<open>What the code keeps of a channel and of an anomaly, without the smoothed level.\<close>

definition channel_view :: "cell_score \<Rightarrow> channel" where
  "channel_view c = (cs_z c, cs_median c, cs_mad c, cs_cells c)"

definition flag_view :: "anomaly \<Rightarrow> series_key \<times> time \<times> f64 \<times> f64 \<times> channel option \<times> channel option" where
  "flag_view a = (an_key a, an_at a, an_value a, an_score a,
     map_option channel_view (an_seasonal a), map_option channel_view (an_trend a))"

lemma latest_point_last:
  "latest_point t ps = (if \<forall>p\<in>set ps. in_future t p then None else Some (last (filter (\<lambda>p. \<not> in_future t p) ps)))"
proof -
  have "fold (\<lambda>p l. if in_future t p then l else Some p) ps l =
    (if \<forall>p\<in>set ps. in_future t p then l else Some (last (filter (\<lambda>p. \<not> in_future t p) ps)))" for l
    by (induction ps arbitrary: l) (auto simp: filter_empty_conv)
  then show ?thesis by (simp add: latest_point_def)
qed

lemma sorts_below_less: "sorts_below y x \<longleftrightarrow> y < x"
  by (cases x; cases y) (auto simp: sorts_below_def less_f64_def)

lemma rank_sorted:
  assumes "sorted s" "k < length s"
  shows "length (filter (\<lambda>y. y < x) s) \<le> k \<and> k < length (filter (\<lambda>y. y \<le> (x::'a::linorder)) s) \<longleftrightarrow> s ! k = x"
  using assms
proof (induction s arbitrary: k)
  case (Cons a s)
  have le: "a \<le> y" if "y \<in> set s" for y using Cons.prems(1) that by simp
  show ?case
  proof (cases "a < x")
    case True
    then show ?thesis using Cons by (cases k) (auto simp: not_less)
  next
    case False
    then have none: "filter (\<lambda>y. y < x) s = []" using le by (force simp: filter_empty_conv)
    show ?thesis
    proof (cases k)
      case 0
      have "filter (\<lambda>y. y \<le> x) s = []" if "x < a" using le that by (force simp: filter_empty_conv)
      then show ?thesis using 0 False none by (cases "a = x") auto
    next
      case (Suc m)
      then have m: "m < length s" "a \<le> s ! m" using Cons.prems le by auto
      show ?thesis
      proof (cases "a = x")
        case True
        have "m < length (filter (\<lambda>y. y \<le> x) s) \<longleftrightarrow> s ! m = x"
          using Cons.IH [of m] Cons.prems m none by simp
        then show ?thesis using True Suc none by simp
      next
        case False
        then have "x < a" using \<open>\<not> a < x\<close> by simp
        then have "filter (\<lambda>y. y \<le> x) s = []" using le by (force simp: filter_empty_conv)
        then show ?thesis using \<open>x < a\<close> Suc m none by auto
      qed
    qed
  qed
qed simp

lemma filter_sort_length: "length (filter P (sort xs)) = length (filter P xs)"
  by (metis filter_sort length_sort)

lemma kth_sort:
  assumes "k < length xs"
  shows "kth k xs = sort xs ! k"
proof -
  have r: "ranked k xs x \<longleftrightarrow> sort xs ! k = x" for x
    using rank_sorted [of "sort xs" k x] assms
    by (simp add: ranked_def sorts_below_less not_less filter_sort_length)
  have "sort xs ! k \<in> set xs" using assms by (metis length_sort nth_mem set_sort)
  then have "sort xs ! k \<in> set (filter (ranked k xs) xs)" by (simp add: r)
  then have "filter (ranked k xs) xs \<noteq> []" using r by (auto simp only: list.set)
  then have "hd (filter (ranked k xs) xs) \<in> set (filter (ranked k xs) xs)" by (rule hd_in_set)
  then have "ranked k xs (hd (filter (ranked k xs) xs))" by simp
  then show ?thesis unfolding kth_def r by (rule sym)
qed

lemma middle_median: "xs \<noteq> [] \<Longrightarrow> middle xs = median xs"
  by (cases xs) (simp_all add: middle_def median_def Let_def kth_sort)

lemma deviation_mad: "xs \<noteq> [] \<Longrightarrow> deviation xs = madAround (median xs) xs"
  by (simp add: deviation_def madAround_def middle_median)

lemma spread_scale: "spread m d = scale_of m d"
  by (cases m) (auto simp: spread_def scale_of_def scale_floor_def Let_def f_abs_def)

lemma channel_spec: "map_option channel_view (channel_score j hist x) = spec_channel j hist x"
proof (cases hist)
  case Nil
  then show ?thesis by (simp add: channel_score_def spec_channel_def cell_Score_def empty_cell_def)
next
  case (Cons v vs)
  let ?c = "cell_Add empty_cell v"
  have c: "ce_values ?c = sort [v]" "ce_has ?c" "ce_med ?c = median [v]" "ce_mad ?c = madAround (median [v]) [v]"
    by (simp_all add: cell_Add_def empty_cell_def Let_def)
  have ne: "v # vs \<noteq> []" by simp
  from fold_cell [OF c, of vs] show ?thesis
    unfolding spec_channel_def Cons middle_median [OF ne] deviation_mad [OF ne] spread_scale
    by (auto simp: channel_score_def cell_Score_def Let_def robustZ_def channel_view_def f_eq_def)
qed

lemma channel_sort: "map_option channel_view (channel_score j (sort xs) x) = spec_channel j xs x"
proof (cases "xs = []")
  case False
  then have s: "sort xs \<noteq> []" by (metis length_0_conv length_sort)
  show ?thesis
    unfolding channel_spec spec_channel_def using False s
    by (simp add: middle_median deviation_mad)
qed (simp add: channel_spec)

lemma week_hours: "(x div 24 + 4) mod 7 = (y div 24 + 4) mod 7 \<and> x mod 24 = y mod 24 \<longleftrightarrow> (x - y) mod 168 = 0" for x y :: int
proof
  assume s: "(x div 24 + 4) mod 7 = (y div 24 + 4) mod 7 \<and> x mod 24 = y mod 24"
  then have "7 dvd x div 24 + 4 - (y div 24 + 4)" by (simp only: mod_eq_dvd_iff)
  then obtain k where "x div 24 + 4 - (y div 24 + 4) = 7 * k" by (rule dvdE)
  then have "x div 24 - y div 24 = 7 * k" by simp
  moreover have "x = 24 * (x div 24) + x mod 24" "y = 24 * (y div 24) + y mod 24" by simp_all
  ultimately have "x - y = 168 * k" using s by linarith
  then show "(x - y) mod 168 = 0" by simp
next
  assume "(x - y) mod 168 = 0"
  then have "168 dvd x - y" by (rule mod_0_imp_dvd)
  then obtain k where "x - y = 168 * k" by (rule dvdE)
  then have k: "x = y + (7 * k) * 24" by simp
  have d: "x div 24 = y div 24 + 7 * k" and m: "x mod 24 = y mod 24"
    unfolding k div_mult_self1 [OF zero_neq_numeral [symmetric]] mod_mult_self1 by simp_all
  have "x div 24 + 4 = (y div 24 + 4) + k * 7" unfolding d by simp
  then show "(x div 24 + 4) mod 7 = (y div 24 + 4) mod 7 \<and> x mod 24 = y mod 24" by (simp only: m mod_mult_self1)
qed

lemma slot_hours: "slotOf a = slotOf b \<longleftrightarrow> (a div 3600000000000 - b div 3600000000000) mod (7 * 24) = 0"
proof -
  have d: "day_of t = (t div 3600000000000) div 24" for t
    by (simp add: day_of_def duration_defs zdiv_zmult2_eq [symmetric])
  show ?thesis using week_hours [of "a div 3600000000000" "b div 3600000000000"] by (simp add: slotOf_def d duration_defs)
qed

lemma same_day_from:
  assumes "a < b"
  shows "sameDay a b \<longleftrightarrow> b - b mod 86400000000000 \<le> a"
proof -
  have "a div D = b div D \<longleftrightarrow> b - b mod D \<le> a" if "0 < D" for D :: int
  proof
    assume "a div D = b div D"
    moreover have "a div D * D \<le> a" using that by (metis div_mult_mod_eq le_add_same_cancel1 pos_mod_sign)
    ultimately show "b - b mod D \<le> a" by (simp add: minus_mod_eq_div_mult)
  next
    assume "b - b mod D \<le> a"
    then have "b div D * D div D \<le> a div D" using that by (intro zdiv_mono1) (simp_all add: minus_mod_eq_div_mult)
    moreover have "a div D \<le> b div D" using assms that by (intro zdiv_mono1) simp_all
    ultimately show "a div D = b div D" using that by simp
  qed
  from this [of 86400000000000] show ?thesis by (simp add: sameDay_def day_of_def duration_defs)
qed

lemma spec_flagged: "map_option flag_view (score_series j t ts) = spec_flag j t ts"
proof -
  let ?ps = "ts_points ts"
  have future: "\<not> in_future t p \<longleftrightarrow> pt_at p \<le> t + 50000000000" for p
    by (simp add: in_future_def clockTolerance_def duration_defs not_less)
  let ?known = "filter (\<lambda>p. pt_at p \<le> t + 50000000000) ?ps"
  have older: "before t l ?ps = filter (\<lambda>p. pt_at p < pt_at l) ?known" for l
    by (auto simp: before_def future filter_filter intro!: filter_cong)
  have weekly: "filter (\<lambda>p. slotOf (pt_at p) = slotOf (pt_at l)) (before t l ?ps) =
      filter (\<lambda>p. (pt_at p div 3600000000000 - pt_at l div 3600000000000) mod (7 * 24) = 0)
        (filter (\<lambda>p. pt_at p < pt_at l) ?known)" for l
    unfolding older slot_hours ..
  have today: "filter (\<lambda>p. pt_at p \<ge> pt_at l - jb_trend_hours j * hour \<and> sameDay (pt_at p) (pt_at l)) (before t l ?ps) =
      filter (\<lambda>p. pt_at l - jb_trend_hours j * 3600000000000 \<le> pt_at p \<and> pt_at l - pt_at l mod 86400000000000 \<le> pt_at p)
        (filter (\<lambda>p. pt_at p < pt_at l) ?known)" for l
    unfolding older by (rule filter_cong) (auto simp: same_day_from duration_defs)
  have z: "z_or_0 c = channel_z (map_option channel_view c)" "fired j c = reaches j (map_option channel_view c)" for c
    by (cases c; simp add: z_or_0_def channel_z_def fired_def reaches_def channel_view_def)+
  show ?thesis
  proof (cases "?known = []")
    case True
    then show ?thesis by (simp add: score_series_def latest_point_last future spec_flag_def Let_def filter_empty_conv)
  next
    case False
    then have l: "latest_point t ?ps = Some (last ?known)" by (simp add: latest_point_last future filter_empty_conv)
    show ?thesis
      using False
      unfolding score_series_def l spec_flag_def Let_def score_latest_def seasonal_history_def trend_history_def weekly today z channel_sort
      by (simp add: flag_view_def channel_sort)
  qed
qed

end
