(* ===== verification/Alert_Properties.thy ===== *)
theory Alert_Properties
  imports Alert_Safety Plane_Properties
begin

section \<open>Properties of baselining and of the alert inbox\<close>

text \<open>
  The properties of scoring, of the deduplicated inbox and of its routes, each with an instance.
\<close>

subsection \<open>A small desk\<close>

definition quiet_desk :: alert_world where
  "quiet_desk = plane_world.extend quiet_world
     \<lparr>job_anoms = [], job_scored = None, job_runs = 0, job_series = [], anomaly_rows = [], anomaly_seq = 1,
      alert_rows = [], alert_seq = 1, alert_quiet = (\<lambda>k. None), alert_log = []\<rparr>"

definition cpu :: series_key where
  "cpu = \<lparr>sk_dev = ''d1'', sk_name = ''cpu'', sk_source = []\<rparr>"

definition spike :: "time \<Rightarrow> anomaly" where
  "spike t = \<lparr>an_at = t, an_key = cpu, an_value = Fin 90,
     an_seasonal = Some \<lparr>cs_z = Fin 9, cs_median = Fin 10, cs_mad = Fin 0, cs_ewma = Fin 10, cs_cells = 3\<rparr>,
     an_trend = None, an_score = Fin 9\<rparr>"

definition demo_desk :: "alert_world env \<Rightarrow> desk" where
  "demo_desk E = \<lparr>dk_env = E, dk_avg = hd, dk_range = (\<lambda>n ks. ks),
     dk_job = \<lparr>jb_lookback = 0, jb_trend_hours = 0, jb_min_cells = 0, jb_zflag = Fin 0\<rparr>,
     dk_sink = True, dk_alerts = True, dk_quiet = 1, dk_events = True\<rparr>"

definition alarmed :: alert_world where
  "alarmed = quiet_desk\<lparr>alert_rows := [new_alert 1 cpu (spike 0) 0], alert_seq := 2,
     dev_rows := [demo_row ''d1'']\<rparr>"

lemma alarmed_ok: "inbox_ok alarmed"
  by (simp add: inbox_ok_def alarmed_def new_alert_def uniq_def)

subsection \<open>Scoring\<close>

text \<open>
  C14. A series is flagged exactly when its latest sample that is not in the future lies at least the threshold
  away from the middle of the samples before it of the same hour of the week, or of those of the last hours of
  its day: the distance from the median in units of the median absolute deviation times 1.4826, with a least
  unit, when there are enough samples and the greater of the two scores is a number. The anomaly carries the
  sample, both channels and the greater score. The specification counts instead of sorting, measures the
  weekday and hour in hours and works on the unsorted batch; the incremental cells do not matter.
\<close>

theorem flagged_iff: "map_option flag_view (score_series j t ts) = spec_flag j t ts"
  by (rule spec_flagged)

subsection \<open>The inbox\<close>

text \<open>Everything that writes to the inbox.\<close>

datatype alert_op =
    Pass
  | PostRun http_method
  | PatchAlert session http_method "string option" string

fun serve_alert :: "desk \<Rightarrow> alert_op \<Rightarrow> unit alm" where
  "serve_alert D Pass = do { r \<leftarrow> RunNow D; State_Monad.return () }"
| "serve_alert D (PostRun m) = do { r \<leftarrow> handleBaselineRun (Some D) m; State_Monad.return () }"
| "serve_alert D (PatchAlert s m body path) =
     do { r \<leftarrow> handleAlertSub (Some D) s m body path; State_Monad.return () }"

fun serve_alerts :: "desk \<Rightarrow> alert_op list \<Rightarrow> unit alm" where
  "serve_alerts D [] = State_Monad.return ()"
| "serve_alerts D (x # xs) = do { u \<leftarrow> serve_alert D x; serve_alerts D xs }"

lemma reads_only:
  assumes "rely inbox_evolves (dk_env D)"
  shows "guarantees inbox_evolves (alerts_Get D i)" "guarantees inbox_evolves (alert_device D dev)"
    "guarantees inbox_evolves (alerts_Counts D)" "guarantees inbox_evolves (alerts_CountsClient D c)"
  by (simp_all add: alerts_Get_def alert_device_def alerts_Counts_def alerts_CountsClient_def il.bind il.query il.return assms)

lemma sum_counts_evolves: "rely inbox_evolves (dk_env D) \<Longrightarrow> guarantees inbox_evolves (sum_counts D cs m)"
  by (induction cs arbitrary: m) (auto intro!: il.bind il.return reads_only split: sum.split)

lemma change_status_evolves: "rely inbox_evolves (dk_env D) \<Longrightarrow> guarantees inbox_evolves (change_status D i st)"
  unfolding change_status_def answers_json_def
  by (auto intro!: il.bind SetStatus_evolves il.return split: sum.split)

lemma handleAlertSub_evolves:
  assumes "rely inbox_evolves (dk_env D)"
  shows "guarantees inbox_evolves (handleAlertSub (Some D) s m body path)"
  unfolding handleAlertSub_def alertCounts_def handleAlertStatus_def alert_status_route_def status_only_def answers_json_def Let_def
  by (auto intro!: il.bind il.return reads_only sum_counts_evolves change_status_evolves assms split: sum.split option.split)

lemma serve_alert_evolves:
  assumes "rely inbox_evolves (dk_env D)"
  shows "guarantees inbox_evolves (serve_alert D x)"
proof (cases x)
  case (PostRun m)
  then show ?thesis
    by (auto simp: handleBaselineRun_def status_only_def answers_json_def
        intro!: il.bind RunNow_evolves il.return il.reads assms split: sum.split)
qed (auto intro!: il.bind il.return RunNow_evolves handleAlertSub_evolves assms)

lemma serve_alerts_evolves:
  "rely inbox_evolves (dk_env D) \<Longrightarrow> guarantees inbox_evolves (serve_alerts D xs)"
  by (induction xs) (simp_all add: il.return il.bind serve_alert_evolves)

text \<open>
  C11. Whatever passes and manual transitions are served, under any database faults and any other sessions
  that keep to the same, a series never has two alerts that are not resolved; alerts are never deleted, their
  status only advances, their count of events never falls, and a resolved alert never changes again.
\<close>

theorem one_open_alert:
  assumes "rely inbox_evolves (dk_env D)" and "inbox_ok w"
  shows "uniq al_key is_live (alert_rows (snd (run_state (serve_alerts D xs) w))) \<and>
    rows_evolve alert_step (alert_rows w) (alert_rows (snd (run_state (serve_alerts D xs) w)))"
  using guaranteesD [OF serve_alerts_evolves [OF assms(1)], of w xs] assms(2)
  by (simp add: inbox_evolves_def inbox_ok_def)

lemma calm_rely_inbox: "rely inbox_evolves (calm t)"
  by (simp add: rely_def)

lemma one_open_alert_witness:
  "uniq al_key is_live (alert_rows (snd (run_state (serve_alerts (demo_desk (calm 0))
      [PatchAlert operator PATCH (Some ''acked'') ''/api/alerts/1'', Pass]) alarmed))) \<and>
   rows_evolve alert_step (alert_rows alarmed) (alert_rows (snd (run_state (serve_alerts (demo_desk (calm 0))
      [PatchAlert operator PATCH (Some ''acked'') ''/api/alerts/1'', Pass]) alarmed)))"
  by (rule one_open_alert) (simp_all add: demo_desk_def calm_rely_inbox alarmed_ok)

text \<open>
  C12. When the database answers and nobody interferes, one reconciliation is a function on the abstract
  inbox: a flagged series has a live alert afterwards, opened by its worst anomaly or refired by it; the live
  alert of a series is resolved exactly when the pass scored and did not flag it and the pass is the last of the
  clean passes the setting asks for; every other series keeps its alert. The streaks of clean passes are counted
  as the specification says: a flagged series starts again, a series that was not scored keeps its count, one
  without a live alert has none. The orders in which the maps are ranged over do not matter.
\<close>

theorem reconcile_refines:
  assumes "answering (dk_env D)" and "\<forall>n ks. mset (dk_range D n ks) = mset ks" and "distinct scored"
  shows "inbox_view (snd (run_state (Reconcile D anoms scored) w)) =
      spec_reconcile (dk_quiet D) anoms scored (alert_quiet w) (inbox_view w) \<and>
    alert_quiet (snd (run_state (Reconcile D anoms scored) w)) =
      spec_streaks (dk_quiet D) anoms scored (alert_quiet w) (inbox_view w)"
  by (intro conjI reconcile_view [OF assms])

lemma reconcile_refines_witness:
  "inbox_view (snd (run_state (Reconcile (demo_desk (calm 0)) [spike 5] [cpu]) alarmed)) cpu =
     Some (refired (spike 5) (opened (spike 0))) \<and>
   inbox_view (snd (run_state (Reconcile (demo_desk (calm 0)) [] [cpu]) alarmed)) cpu = None \<and>
   inbox_view (snd (run_state (Reconcile (demo_desk (calm 0)\<lparr>dk_quiet := 2\<rparr>) [] [cpu]) alarmed)) cpu =
     Some (opened (spike 0)) \<and>
   alert_quiet (snd (run_state (Reconcile (demo_desk (calm 0)\<lparr>dk_quiet := 2\<rparr>) [] [cpu]) alarmed)) cpu = Some 1"
proof -
  have a: "answering (dk_env (demo_desk (calm 0)))" by (simp add: demo_desk_def answering_def undisturbed_def)
  moreover have r: "\<forall>n ks. mset (dk_range (demo_desk (calm 0)) n ks) = mset ks" by (simp add: demo_desk_def)
  moreover have "inbox_view alarmed cpu = Some (opened (spike 0))"
    by (simp add: inbox_view_def alarmed_def live_of_def is_live_def new_alert_def view_of_def opened_def fields_leading)
  moreover have "dk_quiet (demo_desk (calm 0)) = 1" "alert_quiet alarmed cpu = None"
    by (simp_all add: demo_desk_def alarmed_def quiet_desk_def quiet_world_def plane_world.defs)
  ultimately show ?thesis
    using reconcile_refines [of "demo_desk (calm 0)" "[cpu]" "[spike 5]" alarmed]
      reconcile_refines [of "demo_desk (calm 0)" "[cpu]" "[]" alarmed]
      reconcile_refines [of "demo_desk (calm 0)\<lparr>dk_quiet := 2\<rparr>" "[cpu]" "[]" alarmed]
    by (simp add: spec_reconcile_def spec_streaks_def spec_worst_def spike_def resolves_def streak_def)
qed

text \<open>
  A pass never touches the alerts of a series without samples in its window, whatever faults occur and
  whatever is flagged elsewhere: a device that stopped reporting neither opens nor resolves an alert. The
  other sessions may do anything but change this series.
\<close>

theorem silent_series_untouched:
  assumes "rely (keeps_series k) (dk_env D)" and "\<forall>n ks. set (dk_range D n ks) \<subseteq> set ks"
    and "\<forall>r\<in>set (metric_rows w). row_key r = k \<longrightarrow>
       row_ts r < clock (dk_env D) (tick w) - jb_lookback (job_defaults (dk_job D))"
  shows "filter (\<lambda>a. al_key a = k) (alert_rows (snd (run_state (RunNow D) w))) = filter (\<lambda>a. al_key a = k) (alert_rows w)"
proof -
  have "\<And>n ks. set (dk_range D n ks) \<subseteq> set ks" using assms(2) by blast
  from RunNow_keeps_series [OF assms(1) this assms(3)] show ?thesis by (simp add: keeps_series_def)
qed

lemma silent_series_untouched_witness:
  "filter (\<lambda>a. al_key a = cpu) (alert_rows (snd (run_state (RunNow (demo_desk (calm 0))) alarmed))) =
   filter (\<lambda>a. al_key a = cpu) (alert_rows alarmed)"
  by (rule silent_series_untouched)
    (simp_all add: demo_desk_def rely_def keeps_series_def alarmed_def quiet_desk_def quiet_world_def plane_world.defs)


subsection \<open>Access\<close>

lemma client_lists_granted:
  assumes E: "undisturbed (dk_env D)"
  shows "fst (run_state (client_lists D cs status dev n) w) = Inr rows \<Longrightarrow> x \<in> set rows \<Longrightarrow>
    \<exists>c\<in>set cs. client_device c (dev_rows w) (sk_dev (al_key (fst x)))"
proof (induction cs arbitrary: w rows)
  case (Cons c cs)
  let ?r = "run_state (alerts_ListClient D c status dev n) w"
  have one: "client_device c (dev_rows w) (sk_dev (al_key (fst y)))" if "fst ?r = Inr ys" "y \<in> set ys" for y ys
    using that undisturbed_others [OF E]
    by (auto simp: alerts_ListClient_def query_def shown_def newest_alerts_def dest!: in_set_takeD
        split: option.splits db_out.splits)
  have dev: "dev_rows (snd ?r) = dev_rows w"
    using undisturbed_others [OF E] by (simp add: alerts_ListClient_def query_def split: option.splits db_out.splits)
  obtain ys where ys: "fst ?r = Inr ys" using Cons.prems(1) by (cases "fst ?r") auto
  obtain zs where zs: "fst (run_state (client_lists D cs status dev n) (snd ?r)) = Inr zs" "rows = ys @ zs"
    using Cons.prems(1) by (simp add: ys split: sum.splits)
  from Cons.prems(2) zs(2) consider "x \<in> set ys" | "x \<in> set zs" by auto
  then show ?case
  proof cases
    case 1
    from one [OF ys this] show ?thesis by simp
  next
    case 2
    from Cons.IH [OF zs(1) this] show ?thesis by (simp add: dev)
  qed
qed simp

text \<open>
  A session that is not an administrator's only ever gets alerts of devices of the clients it was
  granted, with or without the client filter, under any database faults.
\<close>

theorem alert_lists_scoped:
  assumes "undisturbed (dk_env D)" and "\<not> ss_all s"
    and "fst (run_state (scoped_alerts (Some D) s m client status dev limit) w) = Resp 200 (Some (LAlerts rows))"
    and "x \<in> set rows"
  shows "\<exists>c\<in>set (ss_clients s). client_device c (dev_rows w) (sk_dev (al_key (fst x)))"
proof (cases "client = []")
  case True
  then have "\<exists>ys. fst (run_state (client_lists D (ss_clients s) status dev (query_limit limit)) w) = Inr ys \<and> set rows \<subseteq> set ys"
    using assms(2,3)
    by (auto simp: scoped_alerts_def handleAlerts_def status_only_def answers_json_def alertsListUnion_def
        dest!: in_set_takeD split: sum.splits if_splits)
  then show ?thesis using client_lists_granted [OF assms(1)] assms(4) by blast
next
  case False
  then have "client \<in> set (ss_clients s)"
    and "fst (run_state (alerts_ListClient D client status dev (query_limit limit)) w) = Inr rows"
    using assms(2,3)
    by (auto simp: scoped_alerts_def handleAlerts_def status_only_def answers_json_def CanSeeClient_def split: sum.splits if_splits)
  moreover from this have "fst (run_state (client_lists D [client] status dev (query_limit limit)) w) = Inr rows"
    by simp
  from client_lists_granted [OF assms(1) this assms(4)] have "client_device client (dev_rows w) (sk_dev (al_key (fst x)))"
    by simp
  ultimately show ?thesis by blast
qed

definition acme_desk :: alert_world where
  "acme_desk = alarmed\<lparr>dev_rows := [(demo_row ''d1'')\<lparr>dr_client := Some ''acme''\<rparr>]\<rparr>"

lemma alert_lists_scoped_witness:
  "fst (run_state (scoped_alerts (Some (demo_desk (calm 0))) stranger GET [] [] [] []) acme_desk) =
     Resp 200 (Some (LAlerts [(new_alert 1 cpu (spike 0) 0, dr_host (demo_row ''d1''))])) \<and>
   (\<exists>c\<in>set (ss_clients stranger). client_device c (dev_rows acme_desk) (sk_dev (al_key (new_alert 1 cpu (spike 0) 0))))"
proof -
  have run: "fst (run_state (scoped_alerts (Some (demo_desk (calm 0))) stranger GET [] [] [] []) acme_desk) =
     Resp 200 (Some (LAlerts [(new_alert 1 cpu (spike 0) 0, dr_host (demo_row ''d1''))]))"
    by code_simp
  from alert_lists_scoped [OF _ _ run, of "(new_alert 1 cpu (spike 0) 0, dr_host (demo_row ''d1''))"] run show ?thesis
    by (simp add: demo_desk_def undisturbed_def stranger_def operator_def)
qed

text \<open>
  When the database answers, a session without a grant for the client of an alert's device cannot change
  the alert by any request on it: the answer is an error and the inbox stays as it was.
\<close>

theorem alert_writes_scoped:
  assumes "answering (dk_env D)" and "\<not> ss_all s"
    and "path_parts path = [p0, p1, idt]" and "positive_id idt = Some i"
    and "find (\<lambda>a. al_id a = i) (alert_rows w) = Some a"
    and "find (\<lambda>d. dr_id d = sk_dev (al_key a)) (dev_rows w) = Some d"
    and "client_or_default d \<notin> set (ss_clients s)"
  shows "alert_rows (snd (run_state (handleAlertSub (Some D) s m body path) w)) = alert_rows w \<and>
    status_of (fst (run_state (handleAlertSub (Some D) s m body path) w)) \<in> {Some 400, Some 403, Some 404, Some 405}"
proof -
  have "idt \<noteq> ''counts''" using assms(4) by (auto simp: positive_id_def ParseInt64_def Let_def is_digit_def)
  moreover have "idt \<noteq> []" using assms(4) by (auto simp: positive_id_def ParseInt64_def Let_def)
  moreover have "\<not> CanSeeClient s (client_or_default d)" using assms(2,7) by (simp add: CanSeeClient_def)
  ultimately show ?thesis
    using assms(3-6)
    by (simp add: handleAlertSub_def handleAlertStatus_def alert_status_route_def status_only_def answers_json_def Let_def
        alerts_Get_def alert_device_def answering_query [OF assms(1)] shown_def split: option.split)
qed

definition outsider :: session where
  "outsider = operator\<lparr>ss_role := ''tech'', ss_all := False, ss_clients := [''globex'']\<rparr>"

lemma alert_writes_scoped_witness:
  "alert_rows (snd (run_state (handleAlertSub (Some (demo_desk (calm 0))) outsider PATCH (Some ''acked'') ''/api/alerts/1'') acme_desk)) =
     alert_rows acme_desk \<and>
   status_of (fst (run_state (handleAlertSub (Some (demo_desk (calm 0))) outsider PATCH (Some ''acked'') ''/api/alerts/1'') acme_desk))
     \<in> {Some 400, Some 403, Some 404, Some 405}"
proof (rule alert_writes_scoped)
  show "answering (dk_env (demo_desk (calm 0)))" by (simp add: demo_desk_def answering_def undisturbed_def)
  show "path_parts ''/api/alerts/1'' = [''api'', ''alerts'', ''1'']" by code_simp
  show "positive_id ''1'' = Some 1" by code_simp
  show "find (\<lambda>a. al_id a = 1) (alert_rows acme_desk) = Some (new_alert 1 cpu (spike 0) 0)"
    by (simp add: acme_desk_def alarmed_def new_alert_def)
  show "find (\<lambda>d. dr_id d = sk_dev (al_key (new_alert 1 cpu (spike 0) 0))) (dev_rows acme_desk) =
      Some ((demo_row ''d1'')\<lparr>dr_client := Some ''acme''\<rparr>)" by code_simp
  show "client_or_default ((demo_row ''d1'')\<lparr>dr_client := Some ''acme''\<rparr>) \<notin> set (ss_clients outsider)" by code_simp
  show "\<not> ss_all outsider" by (simp add: outsider_def)
qed

text \<open>
  C38. The check of the grant fails open: when the lookup of the device fails, for a fault of the database as
  much as for a deleted device, a technician without any grant acknowledges an open alert.
\<close>

theorem alert_grant_fails_open:
  assumes "undisturbed (dk_env D)" and "\<forall>n. db_out (dk_env D) n = (if n = Suc (tick w) then DbErr else DbOk)"
    and "Allows s [''admin'', ''tech'']" and "path_parts path = [p0, p1, idt]" and "positive_id idt = Some i"
    and "inbox_ok w" and "find (\<lambda>a. al_id a = i) (alert_rows w) = Some a" and "al_status a = ''open''"
  shows "\<exists>t. alert_rows (snd (run_state (handleAlertSub (Some D) s PATCH (Some ''acked'') path) w)) =
      update_where (\<lambda>r. al_id r = i) (acked t) (alert_rows w)"
proof -
  have idt: "idt \<noteq> ''counts''" "idt \<noteq> []" using assms(5) by (auto simp: positive_id_def ParseInt64_def Let_def is_digit_def)
  have only: "r = a" if "r \<in> set (alert_rows w)" "al_id r = i" for r
    using that assms(6,7) find_distinct_key [of al_id "alert_rows w" r] by (simp add: inbox_ok_def)
  have "uniq al_key is_live (update_where (\<lambda>r. al_id r = i) (acked t) (alert_rows w))" for t
    by (rule uniq_update_where) (use assms(6,8) only in \<open>auto simp: inbox_ok_def acked_def is_live_def\<close>)
  then show ?thesis
    using assms(2-5,7,8) idt undisturbed_others [OF assms(1)]
    by (auto simp: handleAlertSub_def handleAlertStatus_def alert_status_route_def answers_json_def Let_def
        alerts_Get_def alert_device_def query_def shown_def change_status_def SetStatus_def transaction_def run_tx_def
        status_tx_def tx_query_def mark_tx_def tx_exec_def mark_stmt_def split: sum.split)
qed

definition lookup_fails :: "alert_world env" where
  "lookup_fails = (calm 7)\<lparr>db_out := (\<lambda>n. if n = 1 then DbErr else DbOk)\<rparr>"

lemma alert_grant_fails_open_witness:
  "\<exists>t. alert_rows (snd (run_state (handleAlertSub (Some (demo_desk lookup_fails)) outsider PATCH (Some ''acked'') ''/api/alerts/1'') acme_desk)) =
     update_where (\<lambda>r. al_id r = 1) (acked t) (alert_rows acme_desk)"
proof (rule alert_grant_fails_open)
  show "path_parts ''/api/alerts/1'' = [''api'', ''alerts'', ''1'']" by code_simp
  show "positive_id ''1'' = Some 1" by code_simp
  show "inbox_ok acme_desk" using alarmed_ok by (simp add: inbox_ok_def acme_desk_def)
  show "find (\<lambda>a. al_id a = 1) (alert_rows acme_desk) = Some (new_alert 1 cpu (spike 0) 0)"
    by (simp add: acme_desk_def alarmed_def new_alert_def)
  have "tick acme_desk = 0"
    by (simp add: acme_desk_def alarmed_def quiet_desk_def quiet_world_def plane_world.defs)
  then show "\<forall>n. db_out (dk_env (demo_desk lookup_fails)) n = (if n = Suc (tick acme_desk) then DbErr else DbOk)"
    by (simp add: demo_desk_def lookup_fails_def)
qed (simp_all add: demo_desk_def lookup_fails_def undisturbed_def outsider_def operator_def Allows_def new_alert_def)


subsection \<open>Silence and configuration\<close>

text \<open>
  An alert of a device that stopped reporting: three weeks of samples at one hour, the last one high. Once
  the oldest has left the lookback the history is too short to score, the pass counts the series as scored
  and clean, and the alert is resolved although no sample arrived since it was opened.
\<close>

definition week :: duration where "week = 7 * 24 * hour"

definition cpu_row :: "time \<Rightarrow> rat \<Rightarrow> metric_row" where
  "cpu_row t v = \<lparr>mr_dev = ''d1'', mr_name = ''cpu'', mr_source = [], mr_value = Fin v, mr_labels = [],
     mr_ms = t div 1000000\<rparr>"

definition fallen_silent :: alert_world where
  "fallen_silent = quiet_desk\<lparr>
     metric_rows := [cpu_row 0 10, cpu_row week 10, cpu_row (2 * week) 10, cpu_row (3 * week) 90],
     alert_rows := [new_alert 1 cpu (spike (3 * week)) (3 * week)], alert_seq := 2\<rparr>"

lemma silence_resolves:
  "map al_status (alert_rows (snd (run_state (RunNow (demo_desk (calm (45 * 24 * hour + hour)))) fallen_silent))) = [''resolved'']"
  by code_simp

text \<open>The setting documented to switch resolving off acts as one clean pass.\<close>

lemma auto_resolve_zero: "quiet_needed (D\<lparr>dk_quiet := alertAutoResolve ''0''\<rparr>) = 1"
proof -
  have "alertAutoResolve ''0'' = 0" by code_simp
  then show ?thesis by (simp add: quiet_needed_def)
qed

text \<open>A seasonal score that is not a number hides an anomaly of the trend.\<close>

lemma nan_hides_trend:
  assumes "channel_score j (seasonal_history t l ps) (pt_mean l) = Some c" and "cs_z c = NaN"
  shows "score_latest j t k l ps = None"
  using assms by (simp add: score_latest_def Let_def z_or_0_def)

end
