(* ===== verification/Paths.thy ===== *)
theory Paths
  imports Prelude
begin

section \<open>File paths\<close>

text \<open>
  Go's \<^verbatim>\<open>path/filepath\<close> on Unix: \<^verbatim>\<open>Clean\<close>, \<^verbatim>\<open>Join\<close>, \<^verbatim>\<open>Dir\<close> and \<^verbatim>\<open>Base\<close>, with their results on absolute paths that
  are given by a list of names.
\<close>

fun join_slash :: "string list \<Rightarrow> string" where
  "join_slash [] = []"
| "join_slash [p] = p"
| "join_slash (p # q # ps) = p @ CHR ''/'' # join_slash (q # ps)"

text \<open>The elements so far, last first; above the root there is the root.\<close>

fun clean_steps :: "bool \<Rightarrow> string list \<Rightarrow> string list \<Rightarrow> string list" where
  "clean_steps rooted [] out = out"
| "clean_steps rooted (p # ps) out =
     clean_steps rooted ps
       (if p = [] \<or> p = ''.'' then out
        else if p = ''..'' then
          (case out of
             [] \<Rightarrow> if rooted then [] else [''..'']
           | q # qs \<Rightarrow> if q = ''..'' then ''..'' # out else qs)
        else p # out)"

definition path_Clean :: "string \<Rightarrow> string" where
  "path_Clean p =
     (let rooted = HasPrefix p ''/''; s = join_slash (rev (clean_steps rooted (split_on CHR ''/'' p) [])) in
      if rooted then CHR ''/'' # s else if s = [] then ''.'' else s)"

definition path_Join :: "string \<Rightarrow> string \<Rightarrow> string" where
  "path_Join a b =
     (if a = [] \<and> b = [] then [] else if a = [] then path_Clean b else if b = [] then path_Clean a
      else path_Clean (a @ CHR ''/'' # b))"

text \<open>Up to and after the last slash.\<close>

definition before_last_slash :: "string \<Rightarrow> string" where
  "before_last_slash p = rev (dropWhile (\<lambda>c. c \<noteq> CHR ''/'') (rev p))"

definition after_last_slash :: "string \<Rightarrow> string" where
  "after_last_slash p = rev (takeWhile (\<lambda>c. c \<noteq> CHR ''/'') (rev p))"

definition path_Dir :: "string \<Rightarrow> string" where
  "path_Dir p = path_Clean (before_last_slash p)"

definition path_Base :: "string \<Rightarrow> string" where
  "path_Base p =
     (let q = rev (dropWhile (\<lambda>c. c = CHR ''/'') (rev p)) in
      if p = [] then ''.'' else if q = [] then ''/'' else after_last_slash q)"

subsection \<open>Absolute paths\<close>

definition name_ok :: "string \<Rightarrow> bool" where
  "name_ok p \<longleftrightarrow> p \<notin> {[], ''.'', ''..''} \<and> CHR ''/'' \<notin> set p"

definition abs_path :: "string list \<Rightarrow> string" where
  "abs_path ps = CHR ''/'' # join_slash ps"

lemma split_join: "\<forall>p\<in>set ps. CHR ''/'' \<notin> set p \<Longrightarrow> ps \<noteq> [] \<Longrightarrow> split_on CHR ''/'' (join_slash ps) = ps"
  by (induction ps rule: join_slash.induct) (simp_all add: split_on_no_sep split_on_append_sep)

lemma clean_names: "\<forall>p\<in>set ps. name_ok p \<Longrightarrow> clean_steps r ps out = rev ps @ out"
  by (induction ps arbitrary: out) (auto simp: name_ok_def)

lemma clean_append: "clean_steps r (ps @ qs) out = clean_steps r qs (clean_steps r ps out)"
  by (induction ps arbitrary: out) simp_all

lemma split_abs:
  assumes "\<forall>p\<in>set ps. name_ok p"
  shows "split_on CHR ''/'' (abs_path ps) = [] # (if ps = [] then [[]] else ps)"
  using assms split_join [of ps] by (simp add: abs_path_def name_ok_def)

lemma split_slash: "split_on c (s @ c # t) = split_on c s @ split_on c t"
  by (induction s) (auto split: list.split)

lemma join_append: "ps \<noteq> [] \<Longrightarrow> qs \<noteq> [] \<Longrightarrow> join_slash (ps @ qs) = join_slash ps @ CHR ''/'' # join_slash qs"
proof (induction ps rule: join_slash.induct)
  case (2 p)
  then show ?case by (cases qs) simp_all
qed simp_all

text \<open>A local name stays in its directory; other names are resolved.\<close>

lemma Join_parts:
  assumes "\<forall>p\<in>set ps. name_ok p" and "f \<noteq> []"
  shows "path_Join (abs_path ps) f = abs_path (rev (clean_steps True (split_on CHR ''/'' f) (rev ps)))"
proof -
  have "split_on CHR ''/'' (abs_path ps @ CHR ''/'' # f) = ([] # (if ps = [] then [[]] else ps)) @ split_on CHR ''/'' f"
    by (simp add: split_slash split_abs [OF assms(1)])
  moreover have "clean_steps True (([] # (if ps = [] then [[]] else ps)) @ split_on CHR ''/'' f) [] =
      clean_steps True (split_on CHR ''/'' f) (rev ps)"
    using assms(1) by (simp add: clean_append clean_names)
  ultimately show ?thesis
    using assms(2) by (simp add: path_Join_def path_Clean_def HasPrefix_def abs_path_def)
qed

lemma Join_name: "\<forall>p\<in>set ps. name_ok p \<Longrightarrow> name_ok f \<Longrightarrow> path_Join (abs_path ps) f = abs_path (ps @ [f])"
  by (simp add: Join_parts split_on_no_sep name_ok_def)

lemma abs_path_inj:
  assumes "\<forall>p\<in>set ps. name_ok p" "\<forall>p\<in>set qs. name_ok p" "abs_path ps = abs_path qs"
  shows "ps = qs"
proof -
  have "(if ps = [] then [[]] else ps) = (if qs = [] then [[]] else qs)"
    using split_abs [OF assms(1), unfolded assms(3) split_abs [OF assms(2)]] by (simp only: list.inject simp_thms)
  moreover have "\<not> name_ok []" by (simp add: name_ok_def)
  then have "ps \<noteq> [[]]" "qs \<noteq> [[]]" using assms(1,2) by (metis list.set_intros(1))+
  ultimately show ?thesis by (cases "ps = []"; cases "qs = []") simp_all
qed

lemma snoc_abs:
  assumes "name_ok b"
  shows "abs_path (d @ [b]) = (if d = [] then [] else abs_path d) @ CHR ''/'' # b"
  by (simp add: abs_path_def join_append)

lemma rev_split:
  assumes "CHR ''/'' \<notin> set b"
  shows "dropWhile (\<lambda>c. c \<noteq> CHR ''/'') (rev (s @ CHR ''/'' # b)) = CHR ''/'' # rev s"
    "takeWhile (\<lambda>c. c \<noteq> CHR ''/'') (rev (s @ CHR ''/'' # b)) = rev b"
proof -
  have "\<forall>c\<in>set (rev b). c \<noteq> CHR ''/''" using assms by auto
  then show "dropWhile (\<lambda>c. c \<noteq> CHR ''/'') (rev (s @ CHR ''/'' # b)) = CHR ''/'' # rev s"
    "takeWhile (\<lambda>c. c \<noteq> CHR ''/'') (rev (s @ CHR ''/'' # b)) = rev b"
    by (simp_all add: dropWhile_append takeWhile_append)
qed

lemma Dir_abs:
  assumes "\<forall>p\<in>set (d @ [b]). name_ok p"
  shows "path_Dir (abs_path (d @ [b])) = abs_path d"
proof -
  have b: "name_ok b" "CHR ''/'' \<notin> set b" using assms by (simp_all add: name_ok_def)
  have d: "\<forall>p\<in>set d. name_ok p" using assms by simp
  have "before_last_slash (abs_path (d @ [b])) = (if d = [] then [] else abs_path d) @ ''/''"
    unfolding before_last_slash_def snoc_abs [OF b(1)] rev_split(1) [OF b(2)] by simp
  moreover have "path_Clean ((if d = [] then [] else abs_path d) @ ''/'') = abs_path d"
  proof (cases "d = []")
    case False
    have "split_on CHR ''/'' (abs_path d @ CHR ''/'' # []) = ([] # d) @ [[]]"
      by (simp only: split_slash split_abs [OF d]) (simp add: False)
    with False d show ?thesis
      by (simp add: path_Clean_def clean_append clean_names HasPrefix_def abs_path_def)
  qed (simp add: path_Clean_def HasPrefix_def abs_path_def)
  ultimately show ?thesis by (simp add: path_Dir_def)
qed

lemma Base_abs:
  assumes "name_ok b"
  shows "path_Base (abs_path (d @ [b])) = b"
proof -
  have b: "CHR ''/'' \<notin> set b" "b \<noteq> []" using assms by (simp_all add: name_ok_def)
  then obtain c cs where c: "rev b = c # cs" "c \<noteq> CHR ''/''" by (cases "rev b") auto
  have "dropWhile (\<lambda>c. c = CHR ''/'') (rev (s @ CHR ''/'' # b)) = rev (s @ CHR ''/'' # b)" for s
    using c by simp
  then show ?thesis
    by (simp add: path_Base_def snoc_abs [OF assms] after_last_slash_def rev_split [OF b(1)] Let_def b(2) del: rev_append)
qed

end
