(* ===== verification/Self_Update.thy ===== *)
theory Self_Update
  imports Paths Sha256 Radix Http
begin

section \<open>The agent's signed self-update\<close>

text \<open>
  \<^verbatim>\<open>agent/internal/update\<close>: the agent fetches the manifest of the latest release, downloads the build of its
  platform and its signature, checks them against the pinned key, and replaces its executable. The machine is
  a parameter: which system calls work, what the server answers to each request, and the directory of
  temporary files. So are the minisign library and JSON decoding. Files are a map from paths; a rename is
  atomic. On Unix a successful \<^verbatim>\<open>exec\<close> does not return: the pass ends there (\<open>ur_replaced\<close>), and what it deferred
  does not run.
\<close>

subsection \<open>Versions\<close>

definition cut_suffix :: "string \<Rightarrow> string" where
  "cut_suffix v = takeWhile (\<lambda>c. c \<noteq> CHR ''-'' \<and> c \<noteq> CHR ''+'') v"

text \<open>\<^verbatim>\<open>strconv.Atoi\<close> and not negative.\<close>

definition ver_part :: "string \<Rightarrow> int option" where
  "ver_part p = (case ParseInt64 p of None \<Rightarrow> None | Some n \<Rightarrow> if n < 0 then None else Some n)"

definition parseVer :: "string \<Rightarrow> (int \<times> int \<times> int) option" where
  "parseVer v =
     (let ns = map ver_part (split_on CHR ''.'' (cut_suffix (TrimPrefix (TrimSpace v) ''v''))) in
      if None \<in> set ns then None
      else (case map the ns of
         [a] \<Rightarrow> Some (a, 0, 0)
       | [a, b] \<Rightarrow> Some (a, b, 0)
       | [a, b, c] \<Rightarrow> Some (a, b, c)
       | _ \<Rightarrow> None))"

definition compareVer :: "int \<times> int \<times> int \<Rightarrow> int \<times> int \<times> int \<Rightarrow> int" where
  "compareVer a b =
     (case (a, b) of ((a0, a1, a2), (b0, b1, b2)) \<Rightarrow>
        if a0 \<noteq> b0 then (if a0 > b0 then 1 else - 1)
        else if a1 \<noteq> b1 then (if a1 > b1 then 1 else - 1)
        else if a2 \<noteq> b2 then (if a2 > b2 then 1 else - 1)
        else 0)"

definition newer :: "string \<Rightarrow> string \<Rightarrow> bool" where
  "newer have1 want =
     (if have1 = [] \<or> have1 = want then have1 \<noteq> want
      else case (parseVer have1, parseVer want) of
         (Some h, Some w) \<Rightarrow> compareVer w h > 0
       | (Some h, None) \<Rightarrow> False
       | (None, _) \<Rightarrow> True)"

subsection \<open>Keys and manifests\<close>

text \<open>The little-endian key id as a number stands for its sixteen hexadecimal digits.\<close>

definition keyID :: "string \<Rightarrow> nat option" where
  "keyID pub =
     (let ls = split_on (CHR 0x0A) (TrimSpace pub) in
      if length ls < 2 then None
      else (case b64_decode (TrimSpace (ls ! 1)) of
         None \<Rightarrow> None
       | Some b \<Rightarrow>
           if length b \<noteq> 42 \<or> take 2 b \<noteq> ''Ed'' then None
           else Some (foldr (\<lambda>c n. of_char c + 256 * n) (take 8 (drop 2 b)) 0)))"

definition sameKey :: "string \<Rightarrow> string \<Rightarrow> bool" where
  "sameKey a b \<longleftrightarrow> (case (keyID a, keyID b) of (Some x, Some y) \<Rightarrow> x = y | _ \<Rightarrow> False)"

record asset =
  as_file :: string
  as_sha :: string

record manifest =
  mf_version :: string
  mf_key :: string
  mf_assets :: "(string \<times> asset) list"

definition AssetFor :: "manifest \<Rightarrow> string \<Rightarrow> string \<Rightarrow> asset option" where
  "AssetFor m os arch = map_of (mf_assets m) (os @ CHR ''-'' # arch)"

subsection \<open>The machine\<close>

datatype reply = NoReply | Reply nat string

record minisign =
  mn_key :: "string \<Rightarrow> bool"
  mn_comment :: "string \<Rightarrow> string option"
  mn_verify :: "string \<Rightarrow> string \<Rightarrow> string \<Rightarrow> bool option"

datatype reexec = ExecOk | ExecDeferred | ExecFailed

record machine =
  mc_ok :: "nat \<Rightarrow> bool"
  mc_part :: "nat \<Rightarrow> nat"
  mc_in_use :: "nat \<Rightarrow> bool"
  mc_get :: "nat \<Rightarrow> string \<Rightarrow> reply"
  mc_temp :: "nat \<Rightarrow> string"
  mc_reexec :: "nat \<Rightarrow> reexec"
  mc_sign :: minisign
  mc_json :: "string \<Rightarrow> (manifest \<times> bool) option"

record update_config =
  uc_base :: string
  uc_version :: string
  uc_pub :: string
  uc_exec :: string
  uc_os :: string
  uc_arch :: string

record host_world = world +
  h_files :: "string \<Rightarrow> string option"

type_synonym 'a hst = "(host_world, 'a) m"

datatype up_err = UNotFound | UStaged | UFailed

type_synonym 'a upr = "up_err + 'a"

definition counted :: "(nat \<Rightarrow> 'a) \<Rightarrow> 'a hst" where
  "counted f = State (\<lambda>w. (f (tick w), w\<lparr>tick := Suc (tick w)\<rparr>))"

definition syscall :: "machine \<Rightarrow> bool hst" where
  "syscall M = counted (mc_ok M)"

definition put_file :: "string \<Rightarrow> string option \<Rightarrow> unit hst" where
  "put_file p c = modifies (\<lambda>w. w\<lparr>h_files := (h_files w)(p := c)\<rparr>)"

text \<open>Open and read a whole file.\<close>

definition read_file :: "machine \<Rightarrow> string \<Rightarrow> (string option) hst" where
  "read_file M p = do {
     ok \<leftarrow> syscall M;
     c \<leftarrow> reads (\<lambda>w. h_files w p);
     State_Monad.return (if ok then c else None)
   }"

definition remove_file :: "machine \<Rightarrow> string \<Rightarrow> unit hst" where
  "remove_file M p = do {
     ok \<leftarrow> syscall M;
     (if ok then put_file p None else State_Monad.return ())
   }"

text \<open>\<open>Inl b\<close>: refused, and whether because the target is in use.\<close>

definition rename_file :: "machine \<Rightarrow> string \<Rightarrow> string \<Rightarrow> (bool + unit) hst" where
  "rename_file M a b = do {
     ok \<leftarrow> syscall M;
     busy \<leftarrow> counted (mc_in_use M);
     c \<leftarrow> reads (\<lambda>w. h_files w a);
     (case c of
        Some s \<Rightarrow>
          if ok then do { put_file a None; put_file b (Some s); State_Monad.return (Inr ()) }
          else State_Monad.return (Inl busy)
      | None \<Rightarrow> State_Monad.return (Inl False))
   }"

text \<open>Write to a file that was just opened and truncated: all of it, or a part and an error.\<close>

definition write_file :: "machine \<Rightarrow> string \<Rightarrow> string \<Rightarrow> bool hst" where
  "write_file M p s = do {
     ok \<leftarrow> syscall M;
     n \<leftarrow> counted (mc_part M);
     put_file p (Some (if ok then s else take n s));
     State_Monad.return ok
   }"

definition copyFile :: "machine \<Rightarrow> string \<Rightarrow> string \<Rightarrow> (unit upr) hst" where
  "copyFile M src dst = do {
     c \<leftarrow> read_file M src;
     (case c of
        None \<Rightarrow> State_Monad.return (Inl UFailed)
      | Some s \<Rightarrow> do {
          opened \<leftarrow> syscall M;
          (if \<not> opened then State_Monad.return (Inl UFailed)
           else do {
             copied \<leftarrow> write_file M dst s;
             (if \<not> copied then do { remove_file M dst; State_Monad.return (Inl UFailed) }
              else do {
                closed \<leftarrow> syscall M;
                State_Monad.return (if closed then Inr () else Inl UFailed)
              })
           })
        })
   }"

subsection \<open>Fetching\<close>

definition decodeJSON :: "machine \<Rightarrow> string \<Rightarrow> manifest option" where
  "decodeJSON M s = (case mc_json M s of None \<Rightarrow> None | Some (m, more1) \<Rightarrow> if more1 then None else Some m)"

definition getJSON :: "machine \<Rightarrow> string \<Rightarrow> (manifest upr) hst" where
  "getJSON M url = do {
     r \<leftarrow> counted (\<lambda>n. mc_get M n url);
     State_Monad.return (case r of
        NoReply \<Rightarrow> Inl UFailed
      | Reply st body \<Rightarrow>
          if st = 200 then (case decodeJSON M (take (2 ^ 20) body) of None \<Rightarrow> Inl UFailed | Some m \<Rightarrow> Inr m)
          else if st = 404 then Inl UNotFound
          else Inl UFailed)
   }"

definition latest_release :: "machine \<Rightarrow> update_config \<Rightarrow> (manifest upr) hst" where
  "latest_release M C = do {
     r \<leftarrow> getJSON M (uc_base C @ ''/agent/releases/latest'');
     State_Monad.return (case r of
        Inl e \<Rightarrow> Inl e
      | Inr m \<Rightarrow> if mf_version m = [] \<or> mf_assets m = [] then Inl UFailed else Inr m)
   }"

definition maxDownload :: nat where "maxDownload = 256 * 2 ^ 20"

definition save_body :: "machine \<Rightarrow> string \<Rightarrow> string \<Rightarrow> (unit upr) hst" where
  "save_body M dest body = do {
     opened \<leftarrow> syscall M;
     (if \<not> opened then State_Monad.return (Inl UFailed)
      else do {
        copied \<leftarrow> write_file M dest (take (maxDownload + 1) body);
        (if \<not> copied then State_Monad.return (Inl UFailed)
         else do {
           stat \<leftarrow> syscall M;
           (if stat \<and> length (take (maxDownload + 1) body) > maxDownload then State_Monad.return (Inl UFailed)
            else do {
              closed \<leftarrow> syscall M;
              State_Monad.return (if closed then Inr () else Inl UFailed)
            })
         })
      })
   }"

definition fetch_file :: "machine \<Rightarrow> string \<Rightarrow> string \<Rightarrow> (unit upr) hst" where
  "fetch_file M url dest = do {
     r \<leftarrow> counted (\<lambda>n. mc_get M n url);
     (case r of
        NoReply \<Rightarrow> State_Monad.return (Inl UFailed)
      | Reply st body \<Rightarrow>
          if st = 200 then save_body M dest body
          else State_Monad.return (Inl (if st = 404 then UNotFound else UFailed)))
   }"

subsection \<open>Verification\<close>

definition VerifySHA256 :: "machine \<Rightarrow> string \<Rightarrow> string \<Rightarrow> bool hst" where
  "VerifySHA256 M p want =
     (if want = [] then State_Monad.return True
      else do {
        c \<leftarrow> read_file M p;
        State_Monad.return (case c of None \<Rightarrow> False | Some s \<Rightarrow> hex_encode (sha256 s) = want)
      })"

definition VerifySignature :: "machine \<Rightarrow> string \<Rightarrow> string \<Rightarrow> string \<Rightarrow> (string option) hst" where
  "VerifySignature M pub bin sig =
     (if \<not> mn_key (mc_sign M) pub then State_Monad.return None
      else do {
        s \<leftarrow> read_file M sig;
        (case Option.bind s (mn_comment (mc_sign M)) of
           None \<Rightarrow> State_Monad.return None
         | Some comment \<Rightarrow> do {
             c \<leftarrow> read_file M bin;
             State_Monad.return (case c of
                None \<Rightarrow> None
              | Some data \<Rightarrow> if mn_verify (mc_sign M) pub data (the s) = Some True then Some comment else None)
           })
      })"

subsection \<open>Installing\<close>

definition defaultInstall :: "machine \<Rightarrow> string \<Rightarrow> string \<Rightarrow> string \<Rightarrow> (unit upr) hst" where
  "defaultInstall M newPath newSig cur =
     (let dir = path_Dir cur; base = path_Base cur; staged = path_Join dir (base @ ''.new'');
          pend = path_Join dir (base @ ''.pending'') in do {
        r \<leftarrow> copyFile M newPath staged;
        (case r of
           Inl e \<Rightarrow> State_Monad.return (Inl e)
         | Inr _ \<Rightarrow> do {
             mv \<leftarrow> rename_file M staged cur;
             (case mv of
                Inr _ \<Rightarrow> State_Monad.return (Inr ())
              | Inl busy \<Rightarrow>
                  if \<not> busy then do { remove_file M staged; State_Monad.return (Inl UFailed) }
                  else do {
                    mv2 \<leftarrow> rename_file M staged pend;
                    (case mv2 of
                       Inl _ \<Rightarrow> do { remove_file M staged; State_Monad.return (Inl UFailed) }
                     | Inr _ \<Rightarrow>
                         if newSig = [] then State_Monad.return (Inl UStaged)
                         else do {
                           c \<leftarrow> copyFile M newSig (pend @ ''.minisig'');
                           (case c of
                              Inl _ \<Rightarrow> do { remove_file M pend; State_Monad.return (Inl UFailed) }
                            | Inr _ \<Rightarrow> State_Monad.return (Inl UStaged))
                         })
                  })
           })
      })"

subsection \<open>One pass\<close>

datatype up_status = Applied | Verified | UpToDate | Refused | NoRelease | UpError

record up_result =
  ur_status :: up_status
  ur_version :: string
  ur_comment :: string
  ur_deferred :: bool
  ur_replaced :: bool

definition ends :: "up_status \<Rightarrow> up_result" where
  "ends st = \<lparr>ur_status = st, ur_version = [], ur_comment = [], ur_deferred = False, ur_replaced = False\<rparr>"

definition activate :: "machine \<Rightarrow> bool \<Rightarrow> manifest \<Rightarrow> string \<Rightarrow> up_result hst" where
  "activate M noRestart m comment =
     (if noRestart then
        State_Monad.return \<lparr>ur_status = Applied, ur_version = mf_version m, ur_comment = comment, ur_deferred = False, ur_replaced = False\<rparr>
      else do {
        x \<leftarrow> counted (mc_reexec M);
        State_Monad.return
          \<lparr>ur_status = Applied, ur_version = mf_version m, ur_comment = comment, ur_deferred = (x \<noteq> ExecOk), ur_replaced = (x = ExecOk)\<rparr>
      })"

definition verified_install :: "machine \<Rightarrow> update_config \<Rightarrow> bool \<Rightarrow> bool \<Rightarrow> manifest \<Rightarrow> asset \<Rightarrow> string \<Rightarrow> up_result hst" where
  "verified_install M C checkOnly noRestart m a binPath =
     (let sigPath = binPath @ ''.minisig'' in do {
        sum \<leftarrow> VerifySHA256 M binPath (as_sha a);
        (if \<not> sum then State_Monad.return (ends Refused)
         else do {
           v \<leftarrow> VerifySignature M (uc_pub C) binPath sigPath;
           (case v of
              None \<Rightarrow> State_Monad.return (ends Refused)
            | Some comment \<Rightarrow>
                if checkOnly then State_Monad.return
                  \<lparr>ur_status = Verified, ur_version = mf_version m, ur_comment = comment, ur_deferred = False, ur_replaced = False\<rparr>
                else do {
                  r \<leftarrow> defaultInstall M binPath sigPath (uc_exec C);
                  (if r = Inr () \<or> r = Inl UStaged then activate M noRestart m comment
                   else State_Monad.return (ends UpError))
                })
         })
      })"

definition fetch_release :: "machine \<Rightarrow> update_config \<Rightarrow> bool \<Rightarrow> bool \<Rightarrow> manifest \<Rightarrow> asset \<Rightarrow> string \<Rightarrow> up_result hst" where
  "fetch_release M C checkOnly noRestart m a dir =
     (let binPath = path_Join dir (as_file a); url = uc_base C @ ''/agent/releases/latest/'' @ as_file a in do {
        r \<leftarrow> fetch_file M url binPath;
        (case r of
           Inl e \<Rightarrow> State_Monad.return (ends UpError)
         | Inr _ \<Rightarrow> do {
             s \<leftarrow> fetch_file M (url @ ''.minisig'') (binPath @ ''.minisig'');
             (case s of
                Inl e \<Rightarrow> State_Monad.return (ends (if e = UNotFound then Refused else UpError))
              | Inr _ \<Rightarrow> verified_install M C checkOnly noRestart m a binPath)
           })
      })"

definition remove_all :: "machine \<Rightarrow> string \<Rightarrow> unit hst" where
  "remove_all M dir = do {
     ok \<leftarrow> syscall M;
     (if ok then modifies (\<lambda>w. w\<lparr>h_files := (\<lambda>p. if p = dir \<or> HasPrefix p (dir @ ''/'') then None else h_files w p)\<rparr>)
      else State_Monad.return ())
   }"

definition clean_up :: "machine \<Rightarrow> up_result \<Rightarrow> string \<Rightarrow> unit hst" where
  "clean_up M r dir = (if ur_replaced r then State_Monad.return () else remove_all M dir)"

definition update_Run :: "machine \<Rightarrow> update_config \<Rightarrow> bool \<Rightarrow> bool \<Rightarrow> up_result hst" where
  "update_Run M C checkOnly noRestart = do {
     r \<leftarrow> latest_release M C;
     (case r of
        Inl e \<Rightarrow> State_Monad.return (ends (if e = UNotFound then NoRelease else UpError))
      | Inr m \<Rightarrow>
          (case AssetFor m (uc_os C) (uc_arch C) of
             None \<Rightarrow> State_Monad.return (ends NoRelease)
           | Some a \<Rightarrow>
               if \<not> newer (uc_version C) (mf_version m) then
                 State_Monad.return ((ends UpToDate)\<lparr>ur_version := mf_version m\<rparr>)
               else if \<not> sameKey (mf_key m) (uc_pub C) then State_Monad.return (ends Refused)
               else do {
                 made \<leftarrow> syscall M;
                 dir \<leftarrow> counted (mc_temp M);
                 (if \<not> made then State_Monad.return (ends UpError)
                  else do {
                    x \<leftarrow> fetch_release M C checkOnly noRestart m a dir;
                    clean_up M x dir;
                    State_Monad.return x
                  })
               }))
   }"

text \<open>At the start of the agent: what an earlier pass staged.\<close>

definition ApplyPending :: "machine \<Rightarrow> string \<Rightarrow> string \<Rightarrow> bool hst" where
  "ApplyPending M exec_path pub =
     (let pend = exec_path @ ''.pending'' in do {
        c \<leftarrow> read_file M pend;
        (case c of
           None \<Rightarrow> State_Monad.return True
         | Some _ \<Rightarrow> do {
             v \<leftarrow> VerifySignature M pub pend (pend @ ''.minisig'');
             (case v of
                None \<Rightarrow> do {
                  remove_file M pend;
                  remove_file M (pend @ ''.minisig'');
                  State_Monad.return False
                }
              | Some _ \<Rightarrow> do {
                  mv \<leftarrow> rename_file M pend exec_path;
                  (case mv of
                     Inl _ \<Rightarrow> State_Monad.return False
                   | Inr _ \<Rightarrow> do { remove_file M (pend @ ''.minisig''); State_Monad.return True })
                })
           })
      })"

text \<open>The key the agent treats as pinned: \<open>embedded\<close> is the one in the binary.\<close>

definition PublicKey :: "machine \<Rightarrow> string \<Rightarrow> string \<Rightarrow> (string option) hst" where
  "PublicKey M embedded override =
     (if override = [] then State_Monad.return (Some embedded) else read_file M override)"

text \<open>The background loop over \<open>n\<close> ticks: it ends with the first update that was applied.\<close>

fun auto_update :: "machine \<Rightarrow> update_config \<Rightarrow> nat \<Rightarrow> up_result list hst" where
  "auto_update M C 0 = State_Monad.return []"
| "auto_update M C (Suc n) = do {
     r \<leftarrow> update_Run M C False False;
     (if ur_status r = Applied then State_Monad.return [r]
      else do { rs \<leftarrow> auto_update M C n; State_Monad.return (r # rs) })
   }"


subsection \<open>The agent's entry points\<close>

text \<open>What the process finds around it: its build, its executable, the embedded key, and its environment variables.\<close>

record update_env =
  ue_version :: string
  ue_goos :: string
  ue_goarch :: string
  ue_exe :: "string option"
  ue_embedded :: string
  ue_override :: string
  ue_auto :: string
  ue_interval :: string

definition trim_slashes :: "string \<Rightarrow> string" where
  "trim_slashes s = rev (dropWhile (\<lambda>c. c = CHR ''/'') (rev s))"

definition update_New :: "update_env \<Rightarrow> update_config \<Rightarrow> update_config" where
  "update_New E C =
     C\<lparr>uc_base := trim_slashes (uc_base C),
       uc_os := (if uc_os C = [] then ue_goos E else uc_os C),
       uc_arch := (if uc_arch C = [] then ue_goarch E else uc_arch C),
       uc_exec := (if uc_exec C = [] then (case ue_exe E of None \<Rightarrow> [] | Some exe \<Rightarrow> exe) else uc_exec C)\<rparr>"

fun has_scheme :: "string \<Rightarrow> bool" where
  "has_scheme [] \<longleftrightarrow> False"
| "has_scheme (c # cs) \<longleftrightarrow> HasPrefix (c # cs) ''://'' \<or> has_scheme cs"

definition with_scheme :: "string \<Rightarrow> string" where
  "with_scheme base = (if has_scheme base then base else ''http://'' @ base)"

definition updater :: "update_env \<Rightarrow> string \<Rightarrow> string \<Rightarrow> update_config" where
  "updater E base pub =
     update_New E \<lparr>uc_base = with_scheme base, uc_version = ue_version E, uc_pub = pub, uc_exec = [], uc_os = [], uc_arch = []\<rparr>"

definition start_pending :: "machine \<Rightarrow> update_env \<Rightarrow> unit hst" where
  "start_pending M E =
     (case ue_exe E of
        None \<Rightarrow> State_Monad.return ()
      | Some exe \<Rightarrow> do {
          pub \<leftarrow> PublicKey M (ue_embedded E) (ue_override E);
          (case pub of
             None \<Rightarrow> State_Monad.return ()
           | Some k \<Rightarrow> do { ApplyPending M exe k; State_Monad.return () })
        })"

text \<open>The exit code of \<^verbatim>\<open>update\<close>.\<close>

definition updateCommand :: "machine \<Rightarrow> update_env \<Rightarrow> string \<Rightarrow> string \<Rightarrow> bool \<Rightarrow> bool \<Rightarrow> nat hst" where
  "updateCommand M E flag server checkOnly noRestart =
     (let base = (if flag = [] then server else flag) in
      if base = [] then State_Monad.return 1
      else do {
        pub \<leftarrow> PublicKey M (ue_embedded E) (ue_override E);
        (case pub of
           None \<Rightarrow> State_Monad.return 1
         | Some k \<Rightarrow> do {
             r \<leftarrow> update_Run M (updater E base k) checkOnly noRestart;
             State_Monad.return (if ur_status r \<in> {Applied, Verified, UpToDate, NoRelease} then 0 else 1)
           })
      })"

definition auto_interval :: "update_env \<Rightarrow> duration" where
  "auto_interval E =
     (case ParseDuration (ue_interval E) of
        Some i \<Rightarrow> if ue_interval E \<noteq> [] \<and> i > 0 then i else 15 * minute
      | None \<Rightarrow> 15 * minute)"

text \<open>Over the \<open>dur\<close> until the agent is stopped.\<close>

definition autoUpdate :: "machine \<Rightarrow> update_env \<Rightarrow> string \<Rightarrow> duration \<Rightarrow> up_result list hst" where
  "autoUpdate M E server dur =
     (if ue_auto E = ''off'' \<or> ue_auto E = ''0'' then State_Monad.return []
      else do {
        pub \<leftarrow> PublicKey M (ue_embedded E) (ue_override E);
        (case pub of
           None \<Rightarrow> State_Monad.return []
         | Some k \<Rightarrow> auto_update M (updater E server k) (nat (dur div auto_interval E)))
      })"

end
