(* ===== verification/Update_Properties.thy ===== *)
theory Update_Properties
  imports Self_Update Strconv
begin

section \<open>What the self-update guarantees\<close>

text \<open>
  The executable is only ever replaced by bytes whose signature verifies under the pinned key, whatever the
  server answers and whichever system calls fail.
\<close>

subsection \<open>Files a step leaves alone\<close>

definition keeps_file :: "string \<Rightarrow> 'x host_world_scheme \<Rightarrow> 'x host_world_scheme \<Rightarrow> bool" where
  "keeps_file p w w' \<longleftrightarrow> h_files w' p = h_files w p"

interpretation kf: history "keeps_file p" for p
  by unfold_locales (simp_all add: keeps_file_def)

lemma run_counted [simp]: "run_state (counted f) w = (f (tick w), w\<lparr>tick := Suc (tick w)\<rparr>)"
  by (simp add: counted_def)

lemma run_syscall [simp]: "run_state (syscall M) w = (mc_ok M (tick w), w\<lparr>tick := Suc (tick w)\<rparr>)"
  by (simp add: syscall_def)

lemma run_put [simp]: "run_state (put_file p c) w = ((), w\<lparr>h_files := (h_files w)(p := c)\<rparr>)"
  by (simp add: put_file_def)

lemma run_read [simp]:
  "run_state (read_file M p) w = (if mc_ok M (tick w) then h_files w p else None, w\<lparr>tick := Suc (tick w)\<rparr>)"
  by (simp add: read_file_def)

lemma keeps_counted [guarantee]: "guarantees (keeps_file p) (counted f)"
  by (rule guaranteesI) (simp add: keeps_file_def)

lemma keeps_syscall [guarantee]: "guarantees (keeps_file p) (syscall M)"
  unfolding syscall_def by (rule keeps_counted)

lemma keeps_put [guarantee]: "q \<noteq> p \<Longrightarrow> guarantees (keeps_file p) (put_file q c)"
  by (rule guaranteesI) (simp add: keeps_file_def)

lemma keeps_read [guarantee]: "guarantees (keeps_file p) (read_file M q)"
  unfolding read_file_def by (intro guarantee)

lemma keeps_remove [guarantee]: "q \<noteq> p \<Longrightarrow> guarantees (keeps_file p) (remove_file M q)"
  unfolding remove_file_def by (intro guarantee)

lemma keeps_rename [guarantee]: "a \<noteq> p \<Longrightarrow> b \<noteq> p \<Longrightarrow> guarantees (keeps_file p) (rename_file M a b)"
  unfolding rename_file_def by (intro guarantee)

lemma keeps_write [guarantee]: "q \<noteq> p \<Longrightarrow> guarantees (keeps_file p) (write_file M q s)"
  unfolding write_file_def by (intro guarantee)

lemma keeps_copy [guarantee]: "dst \<noteq> p \<Longrightarrow> guarantees (keeps_file p) (copyFile M src dst)"
  unfolding copyFile_def by (intro guarantee)

lemma keeps_download [guarantee]: "dest \<noteq> p \<Longrightarrow> guarantees (keeps_file p) (fetch_file M url dest)"
  unfolding fetch_file_def save_body_def by (split reply.split | intro guarantee allI impI conjI | assumption)+

lemma keeps_latest [guarantee]: "guarantees (keeps_file p) (latest_release M C)"
  unfolding latest_release_def getJSON_def by (intro guarantee)

lemma keeps_sum [guarantee]: "guarantees (keeps_file p) (VerifySHA256 M q want)"
  unfolding VerifySHA256_def by (intro guarantee)

lemma keeps_signature [guarantee]: "guarantees (keeps_file p) (VerifySignature M pub bin sig)"
  unfolding VerifySignature_def by (intro guarantee)

lemma keeps_activate [guarantee]: "guarantees (keeps_file p) (activate M noRestart m c)"
  unfolding activate_def by (intro guarantee)

lemma keeps_remove_all [guarantee]:
  "p \<noteq> dir \<Longrightarrow> \<not> HasPrefix p (dir @ ''/'') \<Longrightarrow> guarantees (keeps_file p) (remove_all M dir)"
  unfolding remove_all_def by (rule guaranteesI) (simp add: keeps_file_def)

lemma keeps_clean_up [guarantee]:
  "p \<noteq> dir \<Longrightarrow> \<not> HasPrefix p (dir @ ''/'') \<Longrightarrow> guarantees (keeps_file p) (clean_up M r dir)"
  unfolding clean_up_def by (intro guarantee)

lemma file_after: "guarantees (keeps_file p) c \<Longrightarrow> h_files (snd (run_state c w)) p = h_files w p"
  by (drule guaranteesD) (simp add: keeps_file_def)

subsection \<open>Verified bytes\<close>

text \<open>A file whose checksum matches what the manifest says, and whose signature verifies under \<open>pub\<close>.\<close>

definition genuine :: "machine \<Rightarrow> string \<Rightarrow> asset \<Rightarrow> string \<Rightarrow> bool" where
  "genuine M pub a s \<longleftrightarrow>
     (as_sha a = [] \<or> hex_encode (sha256 s) = as_sha a) \<and> (\<exists>sig. mn_verify (mc_sign M) pub s sig = Some True)"

lemma sum_verified:
  assumes "fst (run_state (VerifySHA256 M p want) w)"
  shows "want = [] \<or> (\<exists>s. h_files w p = Some s \<and> hex_encode (sha256 s) = want)"
  using assms by (auto simp: VerifySHA256_def split: if_splits option.splits)

lemma signature_verified:
  assumes "fst (run_state (VerifySignature M pub bin sig) w) = Some c"
  shows "\<exists>s t. h_files w bin = Some s \<and> h_files w sig = Some t \<and> mn_verify (mc_sign M) pub s t = Some True \<and>
    mn_comment (mc_sign M) t = Some c"
  using assms by (auto simp: VerifySignature_def bind_eq_Some_conv split: if_splits option.splits)

lemma copied:
  assumes "fst (run_state (copyFile M src dst) w) = Inr ()"
  shows "\<exists>s. h_files w src = Some s \<and> h_files (snd (run_state (copyFile M src dst) w)) dst = Some s"
  using assms by (auto simp: copyFile_def write_file_def split: if_splits option.splits)

lemma renamed:
  "fst (run_state (rename_file M a b) w) = Inr u \<Longrightarrow> h_files (snd (run_state (rename_file M a b) w)) b = h_files w a"
  "fst (run_state (rename_file M a b) w) = Inl e \<Longrightarrow> h_files (snd (run_state (rename_file M a b) w)) = h_files w"
  by (auto simp: rename_file_def split: if_splits option.splits)

subsection \<open>Installing\<close>

lemma names_new:
  assumes "\<forall>p\<in>set (d @ [b]). name_ok p" and "CHR ''/'' \<notin> set x" and "length x > 2"
  shows "path_Join (path_Dir (abs_path (d @ [b]))) (path_Base (abs_path (d @ [b])) @ x) = abs_path (d @ [b]) @ x"
proof -
  have b: "name_ok b" and d: "\<forall>p\<in>set d. name_ok p" using assms(1) by simp_all
  have bx: "name_ok (b @ x)" using b assms(2,3) by (auto simp: name_ok_def dest: arg_cong [where f = length])
  have "path_Join (path_Dir (abs_path (d @ [b]))) (path_Base (abs_path (d @ [b])) @ x) = abs_path (d @ [b @ x])"
    by (simp only: Dir_abs [OF assms(1)] Base_abs [OF b] Join_name [OF d bx])
  then show ?thesis by (simp add: snoc_abs [OF b] snoc_abs [OF bx])
qed

lemma install_spec:
  assumes "\<forall>p\<in>set (d @ [b]). name_ok p" and "cur = abs_path (d @ [b])"
  shows "h_files (snd (run_state (defaultInstall M new sig cur) w)) cur =
    (if fst (run_state (defaultInstall M new sig cur) w) = Inr () then h_files w new else h_files w cur)"
proof -
  have st: "path_Join (path_Dir cur) (path_Base cur @ ''.new'') = cur @ ''.new''"
    "path_Join (path_Dir cur) (path_Base cur @ ''.pending'') = cur @ ''.pending''"
    unfolding assms(2) by (rule names_new [OF assms(1)]; simp)+
  note inst = defaultInstall_def [of M new sig cur, unfolded Let_def st]
  let ?c = "run_state (copyFile M new (cur @ ''.new'')) w"
  have keep: "h_files (snd ?c) cur = h_files w cur" by (rule file_after) (intro guarantee, simp)
  show ?thesis
  proof (cases "fst ?c")
    case (Inl e)
    then show ?thesis by (simp add: inst keep)
  next
    case (Inr u)
    then obtain s where s: "h_files w new = Some s" "h_files (snd ?c) (cur @ ''.new'') = Some s"
      using copied [of M new "cur @ ''.new''" w] by auto
    let ?r = "run_state (rename_file M (cur @ ''.new'') cur) (snd ?c)"
    show ?thesis
    proof (cases "fst ?r")
      case (Inr v)
      with \<open>fst ?c = Inr u\<close> s renamed(1) [OF Inr] show ?thesis by (simp add: inst)
    next
      case (Inl busy)
      have r: "h_files (snd ?r) cur = h_files w cur" using renamed(2) [OF Inl] keep by simp
      have g: "guarantees (keeps_file cur)
        (if \<not> busy then do { remove_file M (cur @ ''.new''); State_Monad.return (Inl UFailed :: unit upr) }
         else do {
           mv2 \<leftarrow> rename_file M (cur @ ''.new'') (cur @ ''.pending'');
           (case mv2 of
              Inl _ \<Rightarrow> do { remove_file M (cur @ ''.new''); State_Monad.return (Inl UFailed) }
            | Inr _ \<Rightarrow>
                if sig = [] then State_Monad.return (Inl UStaged)
                else do {
                  c \<leftarrow> copyFile M sig ((cur @ ''.pending'') @ ''.minisig'');
                  (case c of
                     Inl _ \<Rightarrow> do { remove_file M (cur @ ''.pending''); State_Monad.return (Inl UFailed) }
                   | Inr _ \<Rightarrow> State_Monad.return (Inl UStaged))
                })
         })" (is "guarantees _ ?rest")
        by (intro guarantee) simp_all
      have ne: "fst (run_state ?rest (snd ?r)) \<noteq> Inr ()" by (simp split: sum.split)
      have eq: "run_state (defaultInstall M new sig cur) w = run_state ?rest (snd ?r)"
        using \<open>fst ?c = Inr u\<close> Inl by (simp add: inst)
      show ?thesis unfolding eq using ne file_after [OF g, of "snd ?r"] r by simp
    qed
  qed
qed


lemma keeps_install:
  assumes "\<forall>p\<in>set (d @ [b]). name_ok p" and "cur = abs_path (d @ [b])"
    and "q \<notin> {cur, cur @ ''.new'', cur @ ''.pending'', cur @ ''.pending.minisig''}"
  shows "guarantees (keeps_file q) (defaultInstall M new sig cur)"
proof -
  have st: "path_Join (path_Dir cur) (path_Base cur @ ''.new'') = cur @ ''.new''"
    "path_Join (path_Dir cur) (path_Base cur @ ''.pending'') = cur @ ''.pending''"
    unfolding assms(2) by (rule names_new [OF assms(1)]; simp)+
  show ?thesis
    unfolding defaultInstall_def Let_def st by (intro guarantee) (use assms(3) in auto)
qed

subsection \<open>A whole pass\<close>

text \<open>What a pass did to the executable: nothing, or it put genuine bytes of the release \<open>m\<close> there.\<close>

definition installs :: "machine \<Rightarrow> update_config \<Rightarrow> bool \<Rightarrow> manifest \<Rightarrow> asset \<Rightarrow> up_result \<Rightarrow> 'x host_world_scheme \<Rightarrow> bool" where
  "installs M C checkOnly m a r w \<longleftrightarrow>
     ur_status r = Applied \<and> \<not> checkOnly \<and> ur_version r = mf_version m \<and>
     (\<exists>s. h_files w (uc_exec C) = Some s \<and> genuine M (uc_pub C) a s)"

lemma activate_result:
  "ur_status (fst (run_state (activate M n m c) w)) = Applied"
  "ur_version (fst (run_state (activate M n m c) w)) = mf_version m"
  by (simp_all add: activate_def)

lemma verified_install_spec:
  assumes "\<forall>p\<in>set (d @ [b]). name_ok p" and "uc_exec C = abs_path (d @ [b])"
    and res_def: "res = run_state (verified_install M C checkOnly noRestart m a bin) w"
  shows "h_files (snd res) (uc_exec C) = h_files w (uc_exec C) \<or> installs M C checkOnly m a (fst res) (snd res)"
proof -
  let ?v = "run_state (VerifySHA256 M bin (as_sha a)) w"
  let ?s = "run_state (VerifySignature M (uc_pub C) bin (bin @ ''.minisig'')) (snd ?v)"
  let ?i = "run_state (defaultInstall M bin (bin @ ''.minisig'') (uc_exec C)) (snd ?s)"
  have files: "h_files (snd ?v) = h_files w" "h_files (snd ?s) = h_files w"
    by (rule ext, simp add: file_after keeps_sum keeps_signature)+
  note def = verified_install_def Let_def
  show ?thesis
  proof (cases "fst ?v \<and> \<not> checkOnly \<and> fst ?s \<noteq> None")
    case False
    then show ?thesis by (auto simp: res_def def files split: option.splits)
  next
    case True
    then obtain c where c: "fst ?v" "\<not> checkOnly" "fst ?s = Some c" by auto
    note exe = install_spec [OF assms(1,2), of M bin "bin @ ''.minisig''" "snd ?s", unfolded files]
    show ?thesis
    proof (cases "fst ?i = Inr ()")
      case False
      with c exe show ?thesis
        by (simp add: res_def def file_after keeps_activate)
    next
      case True
      obtain s t where s: "h_files w bin = Some s" "mn_verify (mc_sign M) (uc_pub C) s t = Some True"
        using signature_verified [OF c(3)] unfolding files by auto
      then have "genuine M (uc_pub C) a s" using sum_verified [OF c(1)] by (auto simp: genuine_def)
      with c exe True s(1) show ?thesis
        by (simp add: res_def def file_after keeps_activate installs_def activate_result)
    qed
  qed
qed

text \<open>The directory of a pass's temporary files, wherever it is made, is a proper directory beside the executable.\<close>

definition temp_apart :: "machine \<Rightarrow> string \<Rightarrow> bool" where
  "temp_apart M p \<longleftrightarrow>
     (\<forall>n. \<exists>ds. ds \<noteq> [] \<and> (\<forall>d\<in>set ds. name_ok d) \<and> mc_temp M n = abs_path ds \<and>
       p \<noteq> abs_path ds \<and> \<not> HasPrefix p (abs_path ds @ ''/''))"

lemma temp_file:
  assumes "ds \<noteq> []" "\<forall>d\<in>set ds. name_ok d" "name_ok f"
  shows "path_Join (abs_path ds) f = abs_path ds @ ''/'' @ f"
  using assms by (simp add: Join_name snoc_abs)

lemma not_below:
  assumes "\<not> HasPrefix p (t @ ''/'')"
  shows "t @ ''/'' @ f \<noteq> p" "(t @ ''/'' @ f) @ x \<noteq> p"
  using assms by (auto simp: HasPrefix_def)

lemma fetch_spec:
  assumes exe: "\<forall>p\<in>set (d @ [b]). name_ok p" "uc_exec C = abs_path (d @ [b])"
    and dir: "ds \<noteq> []" "\<forall>d\<in>set ds. name_ok d" "\<not> HasPrefix (uc_exec C) (abs_path ds @ ''/'')" "name_ok (as_file a)"
    and res_def: "res = run_state (fetch_release M C checkOnly noRestart m a (abs_path ds)) w"
  shows "h_files (snd res) (uc_exec C) = h_files w (uc_exec C) \<or> installs M C checkOnly m a (fst res) (snd res)"
proof -
  let ?bin = "abs_path ds @ ''/'' @ as_file a"
  let ?url = "uc_base C @ ''/agent/releases/latest/'' @ as_file a"
  have bin: "path_Join (abs_path ds) (as_file a) = ?bin" by (rule temp_file [OF dir(1,2,4)])
  let ?r = "run_state (fetch_file M ?url ?bin) w"
  let ?s = "run_state (fetch_file M (?url @ ''.minisig'') (?bin @ ''.minisig'')) (snd ?r)"
  have k: "h_files (snd ?r) (uc_exec C) = h_files w (uc_exec C)"
    "h_files (snd ?s) (uc_exec C) = h_files w (uc_exec C)"
    using not_below [OF dir(3)] by (simp_all add: file_after keeps_download del: append_assoc)
  note inst = verified_install_spec [OF exe refl, where w = "snd ?s" and bin = ?bin, unfolded k]
  show ?thesis
    unfolding res_def fetch_release_def Let_def bin
    using inst k by (simp split: sum.split)
qed


text \<open>A manifest the server of \<open>C\<close> serves as the latest release.\<close>

definition released :: "machine \<Rightarrow> update_config \<Rightarrow> manifest \<Rightarrow> bool" where
  "released M C m \<longleftrightarrow>
     (\<exists>n body. mc_get M n (uc_base C @ ''/agent/releases/latest'') = Reply 200 body \<and>
       decodeJSON M (take (2 ^ 20) body) = Some m)"

lemma latest_released:
  assumes "fst (run_state (latest_release M C) w) = Inr m"
  shows "released M C m"
  using assms by (auto simp: latest_release_def getJSON_def released_def split: reply.splits option.splits if_splits sum.splits)

text \<open>The server offers \<open>C\<close> a file whose name is not the plain name of a file: with a slash it can climb out of the
  temporary directory.\<close>

definition climbing_name :: "machine \<Rightarrow> update_config \<Rightarrow> bool" where
  "climbing_name M C \<longleftrightarrow>
     (\<exists>m a. released M C m \<and> AssetFor m (uc_os C) (uc_arch C) = Some a \<and> \<not> name_ok (as_file a))"

lemma latest_local:
  "released M C m \<Longrightarrow> \<not> climbing_name M C \<Longrightarrow> AssetFor m (uc_os C) (uc_arch C) = Some a \<Longrightarrow> name_ok (as_file a)"
  unfolding climbing_name_def by blast

lemma keeps_verified_install:
  assumes "\<forall>p\<in>set (d @ [b]). name_ok p" and "uc_exec C = abs_path (d @ [b])"
    and "q \<notin> {uc_exec C, uc_exec C @ ''.new'', uc_exec C @ ''.pending'', uc_exec C @ ''.pending.minisig''}"
  shows "guarantees (keeps_file q) (verified_install M C checkOnly noRestart m a bin)"
  unfolding verified_install_def by (intro guarantee keeps_install [OF assms])

text \<open>The two shapes of a pass: it stops before it fetches, or it fetches into a new temporary directory.\<close>

lemma run_update_cases:
  assumes "run_state (update_Run M C checkOnly noRestart) w = (r, w')"
  obtains "\<And>p. h_files w' p = h_files w p" "ur_status r \<noteq> Applied"
  | m a n u where "released M C m" "AssetFor m (uc_os C) (uc_arch C) = Some a" "newer (uc_version C) (mf_version m)"
      "sameKey (mf_key m) (uc_pub C)" "\<And>p. h_files u p = h_files w p"
      "fst (run_state (fetch_release M C checkOnly noRestart m a (mc_temp M n)) u) = r"
      "snd (run_state
        (clean_up M (fst (run_state (fetch_release M C checkOnly noRestart m a (mc_temp M n)) u)) (mc_temp M n))
        (snd (run_state (fetch_release M C checkOnly noRestart m a (mc_temp M n)) u))) = w'"
proof -
  let ?l = "run_state (latest_release M C) w"
  have k: "h_files (snd ?l) p = h_files w p" for p by (rule file_after [OF keeps_latest])
  show ?thesis
  proof (cases "\<exists>m a. fst ?l = Inr m \<and> AssetFor m (uc_os C) (uc_arch C) = Some a \<and> newer (uc_version C) (mf_version m) \<and>
      sameKey (mf_key m) (uc_pub C) \<and> mc_ok M (tick (snd ?l))")
    case True
    then obtain m a where ma: "fst ?l = Inr m" "AssetFor m (uc_os C) (uc_arch C) = Some a"
      "newer (uc_version C) (mf_version m)" "sameKey (mf_key m) (uc_pub C)" "mc_ok M (tick (snd ?l))" by blast
    let ?u = "(snd ?l)\<lparr>tick := Suc (Suc (tick (snd ?l)))\<rparr>"
    show ?thesis
    proof (rule that(2) [of m a ?u "Suc (tick (snd ?l))"])
      show "released M C m" by (rule latest_released [OF ma(1)])
    qed (use assms ma k in \<open>auto simp: update_Run_def\<close>)
  next
    case False
    show ?thesis
    proof (rule that(1))
      show "h_files w' p = h_files w p" for p
        using assms False by (auto simp: update_Run_def k split: sum.splits option.splits if_splits)
      show "ur_status r \<noteq> Applied"
        using assms False by (auto simp: update_Run_def ends_def split: sum.splits option.splits if_splits)
    qed
  qed
qed

lemma update_verified:
  assumes "\<forall>p\<in>set (d @ [b]). name_ok p" and "uc_exec C = abs_path (d @ [b])"
    and "temp_apart M (uc_exec C)" and "\<not> climbing_name M C"
    and "run_state (update_Run M C checkOnly noRestart) w = (r, w')"
  shows "h_files w' (uc_exec C) = h_files w (uc_exec C) \<or>
    (\<exists>m a. released M C m \<and> AssetFor m (uc_os C) (uc_arch C) = Some a \<and> newer (uc_version C) (mf_version m) \<and>
      sameKey (mf_key m) (uc_pub C) \<and> installs M C checkOnly m a r w')"
  using assms(5)
proof (cases rule: run_update_cases)
  case (2 m a n u)
  obtain ds where ds: "ds \<noteq> []" "\<forall>d\<in>set ds. name_ok d" "mc_temp M n = abs_path ds"
    "uc_exec C \<noteq> abs_path ds" "\<not> HasPrefix (uc_exec C) (abs_path ds @ ''/'')"
    using assms(3) unfolding temp_apart_def by blast
  have a: "name_ok (as_file a)" by (rule latest_local [OF 2(1) assms(4) 2(2)])
  note f = fetch_spec [OF assms(1,2) ds(1,2,5) a refl, of M checkOnly noRestart m u, folded ds(3), unfolded 2(5,6)]
  have "h_files w' (uc_exec C) =
      h_files (snd (run_state (fetch_release M C checkOnly noRestart m a (mc_temp M n)) u)) (uc_exec C)"
    unfolding 2(7) [symmetric] ds(3) by (rule file_after [OF keeps_clean_up [OF ds(4,5)]])
  with f 2(1-4) show ?thesis unfolding installs_def by auto
qed simp

text \<open>Beside the executable and the staged files it leaves every file outside its temporary directory alone.\<close>

lemma update_touches_only:
  assumes "\<forall>p\<in>set (d @ [b]). name_ok p" and "uc_exec C = abs_path (d @ [b])"
    and "temp_apart M q" and "\<not> climbing_name M C"
    and "q \<notin> {uc_exec C, uc_exec C @ ''.new'', uc_exec C @ ''.pending'', uc_exec C @ ''.pending.minisig''}"
    and "run_state (update_Run M C checkOnly noRestart) w = (r, w')"
  shows "h_files w' q = h_files w q"
  using assms(6)
proof (cases rule: run_update_cases)
  case (2 m a n u)
  obtain ds where ds: "ds \<noteq> []" "\<forall>d\<in>set ds. name_ok d" "mc_temp M n = abs_path ds"
    "q \<noteq> abs_path ds" "\<not> HasPrefix q (abs_path ds @ ''/'')"
    using assms(3) unfolding temp_apart_def by blast
  have a: "name_ok (as_file a)" by (rule latest_local [OF 2(1) assms(4) 2(2)])
  have "guarantees (keeps_file q) (fetch_release M C checkOnly noRestart m a (mc_temp M n))"
    unfolding fetch_release_def Let_def ds(3) temp_file [OF ds(1,2) a]
    by (intro guarantee keeps_verified_install [OF assms(1,2,5)] not_below [OF ds(5)])
  then show ?thesis
    unfolding 2(7) [symmetric] ds(3) by (simp add: file_after keeps_clean_up [OF ds(4,5)] 2(5))
qed simp


text \<open>
  C7. One update pass, whatever the server answers and whichever system calls fail, leaves the executable as it was
  or replaces it by bytes that match the manifest's checksum and whose signature verifies under the pinned key, for a
  release the server serves with a newer version and the pinned key's id, when it reports \<^verbatim>\<open>applied\<close> and was not asked
  only to check. The exception is a server whose manifest names the platform's file by something else than a plain
  file name (C36). The temporary directories of the passes do not contain the executable.
\<close>

theorem update_only_verified:
  assumes "\<forall>p\<in>set (d @ [b]). name_ok p" and "uc_exec C = abs_path (d @ [b])"
    and "temp_apart M (uc_exec C)"
    and "run_state (update_Run M C checkOnly noRestart) w = (r, w')"
  shows "h_files w' (uc_exec C) = h_files w (uc_exec C) \<or>
    (\<exists>m a. released M C m \<and> AssetFor m (uc_os C) (uc_arch C) = Some a \<and> newer (uc_version C) (mf_version m) \<and>
      sameKey (mf_key m) (uc_pub C) \<and> installs M C checkOnly m a r w') \<or>
    climbing_name M C"
  using update_verified [OF assms(1-3) _ assms(4)] by blast

subsection \<open>Staged updates\<close>

text \<open>The staged bytes are verified again before they replace the executable.\<close>

lemma pending_replaces:
  "h_files (snd (run_state (ApplyPending M cur pub) w)) cur = h_files w cur \<or>
   (\<exists>s t. h_files w (cur @ ''.pending'') = Some s \<and> h_files w (cur @ ''.pending.minisig'') = Some t \<and>
     mn_verify (mc_sign M) pub s t = Some True \<and> h_files (snd (run_state (ApplyPending M cur pub) w)) cur = Some s)"
proof -
  let ?p = "cur @ ''.pending''"
  let ?w1 = "w\<lparr>tick := Suc (tick w)\<rparr>"
  let ?v = "run_state (VerifySignature M pub ?p (cur @ ''.pending.minisig'')) ?w1"
  let ?r = "run_state (rename_file M ?p cur) (snd ?v)"
  have files: "h_files (snd ?v) = h_files w"
    by (rule ext) (simp add: file_after keeps_signature)
  have rm: "h_files (snd (run_state (remove_file M (?p @ x)) u)) cur = h_files u cur" for x u
    by (rule file_after [OF keeps_remove]) simp
  note rm0 = rm [of "[]", simplified]
  show ?thesis
  proof (cases "fst ?v")
    case None
    then show ?thesis using rm rm0 by (simp add: ApplyPending_def Let_def files split: option.splits)
  next
    case (Some c)
    from signature_verified [OF Some] show ?thesis
      using Some renamed [of M ?p cur "snd ?v"] rm
      by (cases "fst ?r") (auto simp: ApplyPending_def Let_def files split: option.splits)
  qed
qed

lemma staged_spec:
  assumes "\<forall>p\<in>set (d @ [b]). name_ok p" and "cur = abs_path (d @ [b])"
    and "sig \<notin> {[], cur @ ''.new'', cur, cur @ ''.pending''}"
    and "run_state (defaultInstall M new sig cur) w = (Inl UStaged, w')"
  shows "h_files w' (cur @ ''.pending'') = h_files w new \<and> h_files w' (cur @ ''.pending.minisig'') = h_files w sig \<and>
    h_files w new \<noteq> None \<and> h_files w sig \<noteq> None"
proof -
  have st: "path_Join (path_Dir cur) (path_Base cur @ ''.new'') = cur @ ''.new''"
    "path_Join (path_Dir cur) (path_Base cur @ ''.pending'') = cur @ ''.pending''"
    unfolding assms(2) by (rule names_new [OF assms(1)]; simp)+
  note inst = defaultInstall_def [of M new sig cur, unfolded Let_def st]
  let ?c = "run_state (copyFile M new (cur @ ''.new'')) w"
  let ?r = "run_state (rename_file M (cur @ ''.new'') cur) (snd ?c)"
  let ?q = "run_state (rename_file M (cur @ ''.new'') (cur @ ''.pending'')) (snd ?r)"
  let ?e = "run_state (copyFile M sig (cur @ ''.pending.minisig'')) (snd ?q)"
  have cf: "fst (run_state (copyFile M a b) u) \<noteq> Inl UStaged" for a b u
    by (auto simp: copyFile_def split: option.splits if_splits)
  obtain z v u x where steps: "fst ?c = Inr z" "fst ?r = Inl v" "fst ?q = Inr u" "fst ?e = Inr x" "snd ?e = w'"
    using assms(3,4) cf [of new "cur @ ''.new''" w] by (auto simp: inst split: sum.splits if_splits)
  obtain s where s: "h_files w new = Some s" "h_files (snd ?c) (cur @ ''.new'') = Some s"
    using copied [of M new "cur @ ''.new''" w] steps(1) by auto
  have pend: "h_files (snd ?q) (cur @ ''.pending'') = Some s"
    using renamed(1) [OF steps(3)] renamed(2) [OF steps(2)] s(2) by simp
  have ne: "cur @ ''.new'' \<noteq> sig" "cur \<noteq> sig" "cur @ ''.pending'' \<noteq> sig" using assms(3) by auto
  have sig: "h_files (snd ?q) sig = h_files w sig"
    by (simp add: file_after keeps_rename keeps_copy ne)
  obtain t where t: "h_files (snd ?q) sig = Some t" "h_files (snd ?e) (cur @ ''.pending.minisig'') = Some t"
    using copied [of M sig "cur @ ''.pending.minisig''" "snd ?q"] steps(4) by auto
  have "h_files (snd ?e) (cur @ ''.pending'') = h_files (snd ?q) (cur @ ''.pending'')"
    by (rule file_after [OF keeps_copy]) simp
  moreover have "h_files w sig = Some t" using sig t(1) by simp
  ultimately show ?thesis using s(1) pend t(2) steps(5) by simp
qed

text \<open>
  C31. When the executable is in use the verified build is staged beside it; at the next start of the agent, with the
  same key and working system calls, exactly the verified bytes become the executable.
\<close>

theorem staged_update_activates:
  assumes "\<forall>p\<in>set (d @ [b]). name_ok p" and "cur = abs_path (d @ [b])"
    and "sig \<notin> {[], cur @ ''.new'', cur, cur @ ''.pending''}"
    and "fst (run_state (VerifySignature M pub new sig) w) = Some c"
    and "run_state (defaultInstall M new sig cur) w = (Inl UStaged, w')"
    and "mc_sign M' = mc_sign M" and "\<forall>n. mc_ok M' n"
  shows "run_state (ApplyPending M' cur pub) w' =
    (True, snd (run_state (ApplyPending M' cur pub) w')) \<and>
    h_files (snd (run_state (ApplyPending M' cur pub) w')) cur = h_files w new"
proof -
  note st = staged_spec [OF assms(1,2,3,5)]
  from signature_verified [OF assms(4)] obtain s t where v: "h_files w new = Some s" "h_files w sig = Some t"
    "mn_verify (mc_sign M) pub s t = Some True" "mn_comment (mc_sign M) t = Some c" by blast
  have key: "mn_key (mc_sign M) pub" using assms(4) by (auto simp: VerifySignature_def split: if_splits)
  have f: "h_files w' (cur @ ''.pending'') = Some s" "h_files w' (cur @ ''.pending.minisig'') = Some t"
    using st v by simp_all
  show ?thesis
    by (simp add: ApplyPending_def Let_def VerifySignature_def rename_file_def remove_file_def assms(6,7) key f v)
qed


subsection \<open>File names of the server\<close>

text \<open>A server without any key: the text \<open>js\<close> of its manifest announces a newer version under the pinned key, and
  names its file \<open>f\<close>.\<close>

definition hostile_manifest :: "update_config \<Rightarrow> string \<Rightarrow> string \<Rightarrow> manifest" where
  "hostile_manifest C v f =
     \<lparr>mf_version = v, mf_key = uc_pub C,
      mf_assets = [(uc_os C @ CHR ''-'' # uc_arch C, \<lparr>as_file = f, as_sha = []\<rparr>)]\<rparr>"

definition hostile :: "minisign \<Rightarrow> (string \<Rightarrow> (manifest \<times> bool) option) \<Rightarrow> string \<Rightarrow> update_config \<Rightarrow> string \<Rightarrow> string \<Rightarrow> string \<Rightarrow> string \<Rightarrow> machine" where
  "hostile S dec js C v f tmp s =
     \<lparr>mc_ok = (\<lambda>_. True), mc_part = (\<lambda>_. 0), mc_in_use = (\<lambda>_. False),
      mc_get = (\<lambda>_ url. if url = uc_base C @ ''/agent/releases/latest'' then Reply 200 js
                        else if url = uc_base C @ ''/agent/releases/latest/'' @ f then Reply 200 s else Reply 404 []),
      mc_temp = (\<lambda>_. tmp), mc_reexec = (\<lambda>_. ExecOk), mc_sign = S,
      mc_json = dec\<rparr>"

definition climb :: "nat \<Rightarrow> string list \<Rightarrow> string" where
  "climb n t = join_slash (replicate n ''..'' @ t)"

lemma clean_climb:
  assumes "\<forall>d\<in>set ds. name_ok d"
  shows "clean_steps True (replicate (length ds) ''..'' @ qs) ds = clean_steps True qs []"
  using assms by (induction ds) (simp_all add: name_ok_def)

lemma join_nonempty: "ps \<noteq> [] \<Longrightarrow> [] \<notin> set ps \<Longrightarrow> join_slash ps \<noteq> []"
  by (induction ps rule: join_slash.induct) simp_all

lemma climb_target:
  assumes "\<forall>d\<in>set ds. name_ok d" "\<forall>p\<in>set t. name_ok p" "t \<noteq> []"
  shows "path_Join (abs_path ds) (climb (length ds) t) = abs_path t"
proof -
  have slash: "\<forall>p\<in>set (replicate (length ds) ''..'' @ t). CHR ''/'' \<notin> set p"
    using assms(2) by (simp add: name_ok_def ball_Un)
  have "[] \<notin> set t" using assms(2) unfolding name_ok_def by blast
  then have "climb (length ds) t \<noteq> []"
    unfolding climb_def using assms(3) by (intro join_nonempty) simp_all
  moreover have "split_on CHR ''/'' (climb (length ds) t) = replicate (length ds) ''..'' @ t"
    unfolding climb_def by (rule split_join [OF slash]) (simp add: assms(3))
  moreover have "clean_steps True (replicate (length ds) ''..'' @ t) (rev ds) = rev t"
    using clean_climb [of "rev ds" t] assms(1,2) by (simp add: clean_names)
  ultimately show ?thesis by (simp add: Join_parts [OF assms(1)])
qed

text \<open>
  C36. The manifest's file names are not checked. A server without any key names a file that climbs out of the
  temporary directory: the pass ends as \<^verbatim>\<open>refused\<close>, and the unverified bytes of the server are in the file of its
  choice.
\<close>

theorem refused_release_overwrites:
  assumes "ds \<noteq> []" "\<forall>d\<in>set ds. name_ok d" "\<forall>p\<in>set t. name_ok p" "t \<noteq> []"
    and "abs_path t \<noteq> abs_path ds" "\<not> HasPrefix (abs_path t) (abs_path ds @ ''/'')"
    and "v \<noteq> []" "newer (uc_version C) v" "sameKey (uc_pub C) (uc_pub C)" "length s \<le> maxDownload"
    and "dec (take (2 ^ 20) js) = Some (hostile_manifest C v (climb (length ds) t), False)"
    and "run_state (update_Run (hostile S dec js C v (climb (length ds) t) (abs_path ds) s) C checkOnly noRestart) w = (r, w')"
  shows "ur_status r = Refused \<and> h_files w' (abs_path t) = Some s"
proof -
  let ?f = "climb (length ds) t"
  let ?M = "hostile S dec js C v ?f (abs_path ds) s"
  have tk: "take (Suc maxDownload) s = s" using assms(10) by simp
  have url: "uc_base C @ ''/agent/releases/latest/'' @ x \<noteq> uc_base C @ ''/agent/releases/latest''" for x by simp
  have f: "fst (run_state (fetch_release ?M C checkOnly noRestart m a (abs_path ds)) u) = ends Refused \<and>
      h_files (snd (run_state (fetch_release ?M C checkOnly noRestart m a (abs_path ds)) u)) (abs_path t) = Some s"
    if "as_file a = ?f" for m a u
    unfolding fetch_release_def Let_def that climb_target [OF assms(2,3,4)]
    using assms(10) by (simp add: fetch_file_def save_body_def write_file_def hostile_def tk)
  let ?m = "hostile_manifest C v ?f" and ?a = "\<lparr>as_file = ?f, as_sha = []\<rparr>"
  have l: "run_state (latest_release ?M C) u = (Inr ?m, u\<lparr>tick := Suc (tick u)\<rparr>)" for u :: host_world
    using assms(7) unfolding latest_release_def getJSON_def decodeJSON_def
    by (simp add: hostile_def assms(11) [simplified] hostile_manifest_def)
  have m: "AssetFor ?m (uc_os C) (uc_arch C) = Some ?a" "mf_version ?m = v" "mf_key ?m = uc_pub C"
    by (simp_all add: AssetFor_def hostile_manifest_def)
  have M: "mc_ok ?M n" "mc_temp ?M n = abs_path ds" for n by (simp_all add: hostile_def)
  let ?g = "run_state (fetch_release ?M C checkOnly noRestart ?m ?a (abs_path ds)) (w\<lparr>tick := tick w + 3\<rparr>)"
  have "(r, w') = (fst ?g, snd (run_state (clean_up ?M (fst ?g) (abs_path ds)) (snd ?g)))"
    using assms(8,9) unfolding assms(12) [symmetric]
    by (simp add: update_Run_def l m M numeral_3_eq_3)
  moreover have "fst ?g = ends Refused" "h_files (snd ?g) (abs_path t) = Some s" using f [of ?a] by simp_all
  moreover have "h_files (snd (run_state (clean_up ?M (fst ?g) (abs_path ds)) u)) (abs_path t) = h_files u (abs_path t)" for u
    by (rule file_after [OF keeps_clean_up [OF assms(5,6)]])
  ultimately show ?thesis by (simp add: ends_def)
qed


subsection \<open>A good release\<close>

definition serves :: "machine \<Rightarrow> update_config \<Rightarrow> manifest \<Rightarrow> asset \<Rightarrow> string \<Rightarrow> string \<Rightarrow> bool" where
  "serves M C m a s t \<longleftrightarrow>
     (\<exists>js. decodeJSON M (take (2 ^ 20) js) = Some m \<and>
       (\<forall>n. mc_get M n (uc_base C @ ''/agent/releases/latest'') = Reply 200 js)) \<and>
     mf_version m \<noteq> [] \<and> AssetFor m (uc_os C) (uc_arch C) = Some a \<and> name_ok (as_file a) \<and>
     (\<forall>n. mc_get M n (uc_base C @ ''/agent/releases/latest/'' @ as_file a) = Reply 200 s) \<and>
     (\<forall>n. mc_get M n (uc_base C @ ''/agent/releases/latest/'' @ as_file a @ ''.minisig'') = Reply 200 t) \<and>
     length s \<le> maxDownload \<and> length t \<le> maxDownload"

definition signed_by :: "machine \<Rightarrow> string \<Rightarrow> asset \<Rightarrow> string \<Rightarrow> string \<Rightarrow> bool" where
  "signed_by M pub a s t \<longleftrightarrow>
     (as_sha a = [] \<or> hex_encode (sha256 s) = as_sha a) \<and> mn_key (mc_sign M) pub \<and> mn_comment (mc_sign M) t \<noteq> None \<and>
     mn_verify (mc_sign M) pub s t = Some True"

lemma good_download:
  assumes "\<forall>n. mc_ok M n" "\<forall>n. mc_get M n url = Reply 200 s" "length s \<le> maxDownload"
  shows "fst (run_state (fetch_file M url dest) w) = Inr ()"
    "h_files (snd (run_state (fetch_file M url dest) w)) = (h_files w)(dest := Some s)"
  using assms by (simp_all add: fetch_file_def save_body_def write_file_def)

lemma good_verify:
  assumes "\<forall>n. mc_ok M n" "signed_by M pub a s t" "h_files w bin = Some s" "h_files w sig = Some t"
  shows "fst (run_state (VerifySHA256 M bin (as_sha a)) w)"
    "fst (run_state (VerifySignature M pub bin sig) w) = mn_comment (mc_sign M) t"
  using assms by (auto simp: VerifySHA256_def VerifySignature_def signed_by_def)

lemma good_install:
  assumes "\<forall>n. mc_ok M n" "h_files w new = Some s"
  shows "fst (run_state (defaultInstall M new sig cur) w) = Inr ()"
  using assms by (simp add: defaultInstall_def Let_def copyFile_def write_file_def rename_file_def)

lemma good_verified_install:
  assumes "\<forall>p\<in>set (d @ [b]). name_ok p" and "uc_exec C = abs_path (d @ [b])"
    and "\<forall>n. mc_ok M n" "signed_by M (uc_pub C) a s t" "h_files w bin = Some s" "h_files w (bin @ ''.minisig'') = Some t"
    and res: "res = run_state (verified_install M C False noRestart m a bin) w"
  shows "ur_status (fst res) = Applied \<and> ur_version (fst res) = mf_version m \<and> h_files (snd res) (uc_exec C) = Some s"
proof -
  let ?v = "run_state (VerifySHA256 M bin (as_sha a)) w"
  let ?s = "run_state (VerifySignature M (uc_pub C) bin (bin @ ''.minisig'')) (snd ?v)"
  let ?i = "run_state (defaultInstall M bin (bin @ ''.minisig'') (uc_exec C)) (snd ?s)"
  have files: "h_files (snd ?v) = h_files w" "h_files (snd ?s) = h_files w"
    by (rule ext, simp add: file_after keeps_sum keeps_signature)+
  obtain c where c: "mn_comment (mc_sign M) t = Some c" using assms(4) by (auto simp: signed_by_def)
  have v: "fst ?v" by (rule good_verify(1) [OF assms(3-6)])
  have s: "fst ?s = Some c"
    unfolding c [symmetric] by (rule good_verify(2) [OF assms(3,4)]) (simp_all add: files assms(5,6))
  have i: "fst ?i = Inr ()" by (rule good_install [OF assms(3)]) (simp add: files assms(5))
  have "h_files (snd ?i) (uc_exec C) = Some s"
    using install_spec [OF assms(1,2), of M bin "bin @ ''.minisig''" "snd ?s"] i by (simp add: files assms(5))
  with v s i show ?thesis
    by (simp add: res verified_install_def Let_def file_after keeps_activate activate_result)
qed

text \<open>
  C28. A release the server serves completely, with a newer version, the pinned key's id and bytes that verify, is
  installed: the executable has its bytes and the pass reports \<^verbatim>\<open>applied\<close> with the manifest's version, whatever
  version the signature's comment names.
\<close>

theorem good_release_installed:
  assumes "\<forall>p\<in>set (d @ [b]). name_ok p" and "uc_exec C = abs_path (d @ [b])"
    and "temp_apart M (uc_exec C)" and "\<forall>n. mc_ok M n"
    and "serves M C m a s t" "signed_by M (uc_pub C) a s t"
    and "newer (uc_version C) (mf_version m)" "sameKey (mf_key m) (uc_pub C)"
    and "run_state (update_Run M C False noRestart) w = (r, w')"
  shows "ur_status r = Applied \<and> ur_version r = mf_version m \<and> h_files w' (uc_exec C) = Some s"
proof -
  obtain js where js: "decodeJSON M (take (2 ^ 20) js) = Some m"
    "\<forall>n. mc_get M n (uc_base C @ ''/agent/releases/latest'') = Reply 200 js"
    using assms(5) by (auto simp: serves_def)
  have asset: "AssetFor m (uc_os C) (uc_arch C) = Some a" "name_ok (as_file a)" "mf_version m \<noteq> []"
    using assms(5) by (simp_all add: serves_def)
  then have "mf_assets m \<noteq> []" by (auto simp: AssetFor_def)
  then have l: "run_state (latest_release M C) w = (Inr m, w\<lparr>tick := Suc (tick w)\<rparr>)"
    using js asset(3) by (simp add: latest_release_def getJSON_def)
  let ?n = "Suc (Suc (tick w))"
  obtain ds where ds: "ds \<noteq> []" "\<forall>d\<in>set ds. name_ok d" "mc_temp M ?n = abs_path ds"
    "uc_exec C \<noteq> abs_path ds" "\<not> HasPrefix (uc_exec C) (abs_path ds @ ''/'')"
    using assms(3) unfolding temp_apart_def by blast
  let ?bin = "abs_path ds @ ''/'' @ as_file a" and ?url = "uc_base C @ ''/agent/releases/latest/'' @ as_file a"
  let ?r = "run_state (fetch_file M ?url ?bin) (w\<lparr>tick := Suc ?n\<rparr>)"
  let ?s = "run_state (fetch_file M (?url @ ''.minisig'') (?bin @ ''.minisig'')) (snd ?r)"
  have d: "\<forall>n. mc_get M n ?url = Reply 200 s" "\<forall>n. mc_get M n (?url @ ''.minisig'') = Reply 200 t"
    "length s \<le> maxDownload" "length t \<le> maxDownload"
    using assms(5) by (simp_all add: serves_def)
  note r = good_download [OF assms(4) d(1,3), of ?bin "w\<lparr>tick := Suc ?n\<rparr>"]
  note s = good_download [OF assms(4) d(2,4), of "?bin @ ''.minisig''" "snd ?r"]
  let ?f = "run_state (fetch_release M C False noRestart m a (abs_path ds)) (w\<lparr>tick := Suc ?n\<rparr>)"
  have "?f = run_state (verified_install M C False noRestart m a ?bin) (snd ?s)"
    using r s by (simp add: fetch_release_def Let_def temp_file [OF ds(1,2) asset(2)])
  from good_verified_install [OF assms(1,2,4,6) _ _ this] r s
  have f: "ur_status (fst ?f) = Applied \<and> ur_version (fst ?f) = mf_version m \<and> h_files (snd ?f) (uc_exec C) = Some s"
    by simp
  have "(r, w') = (fst ?f, snd (run_state (clean_up M (fst ?f) (abs_path ds)) (snd ?f)))"
    using assms(4,7,8) asset ds(3) unfolding assms(9) [symmetric] by (simp add: update_Run_def l)
  then show ?thesis
    using f by (simp add: file_after keeps_clean_up [OF ds(4,5)])
qed

subsection \<open>Versions\<close>

text \<open>What a version means, apart from the code that reads it: three numbers as decimal text, an optional
  \<open>v\<close> in front and an optional suffix behind a dash or a plus sign; the order is lexicographic.\<close>

definition version_text :: "int \<times> int \<times> int \<Rightarrow> string \<Rightarrow> bool" where
  "version_text x v \<longleftrightarrow>
     (case x of (a, b, c) \<Rightarrow>
        0 \<le> a \<and> a < 2 ^ 63 \<and> 0 \<le> b \<and> b < 2 ^ 63 \<and> 0 \<le> c \<and> c < 2 ^ 63 \<and>
        (\<exists>p s. p \<in> {[], ''v''} \<and> (s = [] \<or> hd s \<in> {CHR ''-'', CHR ''+''} \<and> last s \<notin> set space_heads) \<and>
          v = p @ FormatInt a @ ''.'' @ FormatInt b @ ''.'' @ FormatInt c @ s))"

definition ver_less :: "int \<times> int \<times> int \<Rightarrow> int \<times> int \<times> int \<Rightarrow> bool" where
  "ver_less x y \<longleftrightarrow>
     (case (x, y) of ((a, b, c), (a', b', c')) \<Rightarrow> a < a' \<or> a = a' \<and> (b < b' \<or> b = b' \<and> c < c'))"

lemma FormatInt_digits: "0 \<le> n \<Longrightarrow> list_all is_digit (FormatInt n)"
  using dec_digits_parse [of n] by (simp add: FormatInt_def)

lemma digit_not_space: "is_digit c \<Longrightarrow> c \<notin> set space_heads"
  by (auto simp: is_digit_def Let_def space_heads_def space_seqs_def)

lemma version_number:
  assumes "0 \<le> n" "n < 2 ^ 63"
  shows "CHR ''.'' \<notin> set (FormatInt n)" "CHR ''-'' \<notin> set (FormatInt n)" "CHR ''+'' \<notin> set (FormatInt n)"
    "ver_part (FormatInt n) = Some n"
proof -
  have "c \<in> set (FormatInt n) \<Longrightarrow> is_digit c" for c using FormatInt_digits [OF assms(1)] by (simp add: list_all_iff)
  moreover have "\<not> is_digit CHR ''.''" "\<not> is_digit CHR ''-''" "\<not> is_digit CHR ''+''" by (simp_all add: is_digit_def)
  ultimately show "CHR ''.'' \<notin> set (FormatInt n)" "CHR ''-'' \<notin> set (FormatInt n)" "CHR ''+'' \<notin> set (FormatInt n)"
    by blast+
  have "int64 n" using assms by (simp add: int64_def)
  then show "ver_part (FormatInt n) = Some n" using assms(1) by (simp add: ver_part_def ParseInt_FormatInt)
qed

lemma cut_suffix_append:
  "CHR ''-'' \<notin> set t \<Longrightarrow> CHR ''+'' \<notin> set t \<Longrightarrow> s = [] \<or> hd s \<in> {CHR ''-'', CHR ''+''} \<Longrightarrow> cut_suffix (t @ s) = t"
  unfolding cut_suffix_def by (cases s) (auto simp: takeWhile_append takeWhile_eq_all_conv)

lemma parse_version_text:
  assumes "version_text (a, b, c) v"
  shows "parseVer v = Some (a, b, c)"
proof -
  obtain p s where n: "0 \<le> a" "a < 2 ^ 63" "0 \<le> b" "b < 2 ^ 63" "0 \<le> c" "c < 2 ^ 63"
    and p: "p \<in> {[], ''v''}" and s: "s = [] \<or> hd s \<in> {CHR ''-'', CHR ''+''} \<and> last s \<notin> set space_heads"
    and v: "v = p @ FormatInt a @ ''.'' @ FormatInt b @ ''.'' @ FormatInt c @ s"
    using assms by (auto simp: version_text_def)
  let ?t = "FormatInt a @ ''.'' @ FormatInt b @ ''.'' @ FormatInt c"
  have d: "is_digit (hd (FormatInt n))" "is_digit (last (FormatInt n))" if "0 \<le> n" for n
    using FormatInt_digits [OF that] FormatInt_nonempty [of n] by (simp_all add: list_all_iff)
  have "last v = (if s = [] then last (FormatInt c) else last s)" unfolding v by simp
  moreover have "hd v = (if p = [] then hd (FormatInt a) else CHR ''v'')" unfolding v using p by auto
  moreover have "CHR ''v'' \<notin> set space_heads" by (simp add: space_heads_def space_seqs_def)
  ultimately have trim: "TrimSpace v = v"
    using s d [OF n(1)] d [OF n(5)] digit_not_space v by (intro TrimSpace_id) auto
  have "hd (FormatInt a) \<noteq> CHR ''v''" using d(1) [OF n(1)] by (auto simp: is_digit_def Let_def)
  then have "\<not> HasPrefix (?t @ s) ''v''"
    using FormatInt_nonempty [of a] by (cases "FormatInt a") (auto simp: HasPrefix_def)
  then have pre: "TrimPrefix v ''v'' = ?t @ s"
    using p TrimPrefix_append [of "''v''" "?t @ s"] unfolding v by (auto simp: TrimPrefix_def)
  have cut: "cut_suffix (?t @ s) = ?t"
    using s version_number [OF n(1,2)] version_number [OF n(3,4)] version_number [OF n(5,6)]
    by (intro cut_suffix_append) auto
  have "split_on CHR ''.'' ?t = [FormatInt a, FormatInt b, FormatInt c]"
    using version_number(1) [OF n(1,2)] version_number(1) [OF n(3,4)] version_number(1) [OF n(5,6)]
    by (simp add: split_on_append_sep split_on_no_sep)
  then show ?thesis
    using version_number(4) [OF n(1,2)] version_number(4) [OF n(3,4)] version_number(4) [OF n(5,6)]
    unfolding parseVer_def trim pre cut by simp
qed

lemma newer_numeric:
  assumes "newer u v" and "parseVer u = Some x"
  shows "\<exists>y. parseVer v = Some y \<and> ver_less x y"
proof -
  have "parseVer [] = None" by code_simp
  then show ?thesis using assms
    by (cases x; cases "parseVer v") (auto simp: newer_def compareVer_def ver_less_def split: if_splits)
qed

lemma ver_less_trans: "ver_less x y \<Longrightarrow> ver_less y z \<Longrightarrow> ver_less x z"
  by (auto simp: ver_less_def split: prod.splits)

lemma newer_chain:
  assumes "successively newer vs" and "i < j" "j < length vs" and "parseVer (vs ! i) = Some x"
  shows "\<exists>y. parseVer (vs ! j) = Some y \<and> ver_less x y"
  using assms(2,3)
proof (induction j rule: less_induct)
  case (less j)
  then obtain k where j: "j = Suc k" "i \<le> k" by (cases j) auto
  have step: "newer (vs ! k) (vs ! j)" using successively_nth [OF assms(1)] less.prems j by auto
  show ?case
  proof (cases "i = k")
    case True
    then show ?thesis using newer_numeric [OF step] assms(4) by simp
  next
    case False
    then have "k < j" "i < k" "k < length vs" using less.prems j by auto
    from less.IH [OF this] obtain y where y: "parseVer (vs ! k) = Some y" "ver_less x y" by blast
    from newer_numeric [OF step y(1)] y(2) show ?thesis by (auto intro: ver_less_trans)
  qed
qed

text \<open>
  C34. Along any chain of updates each of which the version gate lets pass, a version that starts with numbers is
  followed only by numeric versions, and each of them is lexicographically higher: there is no downgrade and no
  cycle. The three numbers that are compared are those the text shows: major, minor and patch in decimal, with or
  without a leading \<open>v\<close> and a suffix.
\<close>

theorem no_downgrade:
  assumes "successively newer vs" and "i < j" "j < length vs" and "parseVer (vs ! i) = Some x"
  shows "\<exists>y. parseVer (vs ! j) = Some y \<and> ver_less x y \<and>
    (\<forall>u. (version_text u (vs ! i) \<longrightarrow> u = x) \<and> (version_text u (vs ! j) \<longrightarrow> u = y))"
proof -
  obtain y where y: "parseVer (vs ! j) = Some y" "ver_less x y" using newer_chain [OF assms] by blast
  have "parseVer v = Some u" if "version_text u v" for u v
    using parse_version_text that by (cases u) simp
  then show ?thesis using y assms(4) by (metis option.inject)
qed

text \<open>Versions with a suffix count as numeric when their numbers are.\<close>

lemma dev_builds_ordered:
  "\<not> newer ''0.0.0-dev'' ''0.0.0-dirty''" "\<not> newer ''0.5.0-rc1'' ''0.5.0''" "newer ''0.4.9'' ''0.5.0-dirty''"
  by code_simp+


subsection \<open>The life of the agent\<close>

definition signed_file :: "machine \<Rightarrow> string \<Rightarrow> string \<Rightarrow> 'x host_world_scheme \<Rightarrow> bool" where
  "signed_file M pub p w \<longleftrightarrow> (\<exists>s t. h_files w p = Some s \<and> mn_verify (mc_sign M) pub s t = Some True)"

definition keeps_or_signs :: "machine \<Rightarrow> string \<Rightarrow> string \<Rightarrow> 'x host_world_scheme \<Rightarrow> 'x host_world_scheme \<Rightarrow> bool" where
  "keeps_or_signs M pub p w w' \<longleftrightarrow> h_files w' p = h_files w p \<or> signed_file M pub p w'"

interpretation kos: history "keeps_or_signs M pub p" for M pub p
  by unfold_locales (auto simp: keeps_or_signs_def signed_file_def)

lemma keeps_signs: "guarantees (keeps_file p) c \<Longrightarrow> guarantees (keeps_or_signs M pub p) c"
  by (auto simp: state_io_rel_def keeps_file_def keeps_or_signs_def)

lemma pending_signs: "guarantees (keeps_or_signs M pub cur) (ApplyPending M cur pub)"
proof (rule guaranteesI)
  fix w :: host_world
  show "keeps_or_signs M pub cur w (snd (run_state (ApplyPending M cur pub) w))"
    using pending_replaces [of M cur pub w] unfolding keeps_or_signs_def signed_file_def by blast
qed

lemma update_signs:
  assumes "\<forall>p\<in>set (d @ [b]). name_ok p" and "uc_exec C = abs_path (d @ [b])"
    and "temp_apart M (uc_exec C)" and "\<not> climbing_name M C"
  shows "guarantees (keeps_or_signs M (uc_pub C) (uc_exec C)) (update_Run M C checkOnly noRestart)"
proof (rule guaranteesI)
  fix w :: host_world
  show "keeps_or_signs M (uc_pub C) (uc_exec C) w (snd (run_state (update_Run M C checkOnly noRestart) w))"
    using update_verified [OF assms prod.collapse [symmetric]]
    unfolding keeps_or_signs_def signed_file_def installs_def genuine_def by blast
qed

lemma auto_signs:
  assumes "\<forall>p\<in>set (d @ [b]). name_ok p" and "uc_exec C = abs_path (d @ [b])"
    and "temp_apart M (uc_exec C)" and "\<not> climbing_name M C"
  shows "guarantees (keeps_or_signs M (uc_pub C) (uc_exec C)) (auto_update M C n)"
proof (induction n)
  case (Suc n)
  then show ?case
    unfolding auto_update.simps by (intro guarantee kos.bind kos.return update_signs [OF assms])
qed (simp add: kos.return)

lemma updater_simps:
  "uc_exec (updater E base pub) = (case ue_exe E of None \<Rightarrow> [] | Some exe \<Rightarrow> exe)" "uc_pub (updater E base pub) = pub"
  by (simp_all add: updater_def update_New_def)

text \<open>
  C8. An agent without a key override that starts, applies what an earlier pass staged and then updates itself in the
  background for any time holds in its executable the bytes it was installed with or bytes the embedded key
  signed, whichever system calls fail and whatever the server serves, unless a manifest it serves names the
  platform's file by something else than a plain file name (C36). The temporary directories of the passes do not
  contain the executable.
\<close>

theorem agent_installs_only_signed:
  assumes "\<forall>p\<in>set (d @ [b]). name_ok p" and "ue_exe E = Some (abs_path (d @ [b]))" and "ue_override E = []"
    and "temp_apart M (abs_path (d @ [b]))"
    and "run_state (do { start_pending M E; autoUpdate M E server dur }) w = (rs, w')"
  shows "h_files w' (abs_path (d @ [b])) = h_files w (abs_path (d @ [b])) \<or>
    signed_file M (ue_embedded E) (abs_path (d @ [b])) w' \<or>
    climbing_name M (updater E server (ue_embedded E))"
proof (cases "climbing_name M (updater E server (ue_embedded E))")
  case False
  let ?p = "abs_path (d @ [b])" and ?k = "ue_embedded E"
  have C: "uc_exec (updater E server ?k) = ?p" "uc_pub (updater E server ?k) = ?k"
    by (simp_all add: updater_simps assms(2))
  have key: "PublicKey M ?k (ue_override E) = State_Monad.return (Some ?k)" by (simp add: PublicKey_def assms(3))
  have "guarantees (keeps_or_signs M ?k ?p) (start_pending M E)"
    unfolding start_pending_def key
    by (simp add: assms(2)) (intro kos.bind kos.return pending_signs)
  moreover have "guarantees (keeps_or_signs M ?k ?p) (autoUpdate M E server dur)"
    using auto_signs [OF assms(1) C(1)] assms(4) False unfolding autoUpdate_def key C
    by (simp add: kos.return)
  ultimately have "guarantees (keeps_or_signs M ?k ?p) (do { start_pending M E; autoUpdate M E server dur })"
    by (rule kos.bind)
  from guaranteesD [OF this, of w] show ?thesis unfolding assms(5) keeps_or_signs_def by auto
qed simp

subsection \<open>Witnesses\<close>

definition demo_line :: string where
  "demo_line = ''RWQAAAAAAAAAAAAAAAAAAAAAAAAAAAAAAAAAAAAAAAAAAAAAAAAAAAAA''"

definition demo_key :: string where
  "demo_key = ''k'' @ CHR 0x0A # demo_line"

lemma demo_digits: "b64_digits ''AAAA'' = Some [0, 0, 0, 0]" "b64_digits ''RWQA'' = Some [17, 22, 16, 0]" 
  by (simp_all add: b64_value_def b64_alphabet_def b64_digits_def)

lemma demo_bytes: "b64_bytes [0,0,0,0] = [CHR 0x00,CHR 0x00,CHR 0x00]"  "b64_bytes [17,22,16,0] = [CHR ''E'', CHR ''d'',CHR 0x00]" 
  by (simp_all add: b64_bytes_def to_base_def of_base_def char_of_def upt_rec bit_Suc_0_iff [of 0] bit_0)

lemma demo_trim: "TrimSpace demo_key = demo_key" "TrimSpace demo_line = demo_line" by code_simp+

lemma demo_split: "split_on (CHR 0x0A) demo_key = [''k'', demo_line]" by code_simp

lemma replicate_numeral: "replicate (numeral k) x = x # replicate (pred_numeral k) x" by (simp add: numeral_eq_Suc)

lemma demo_decoded: "b64_decode demo_line = Some (CHR ''E'' # CHR ''d'' # replicate 40 (CHR 0x00))"
proof -
  show ?thesis by (simp add: b64_decode_def demo_line_def demo_digits demo_bytes replicate_numeral)
qed

lemma demo_same: "sameKey demo_key demo_key"
  by (simp add: sameKey_def keyID_def Let_def demo_trim demo_split demo_decoded)

definition demo_sign :: minisign where
  "demo_sign = \<lparr>mn_key = (\<lambda>_. True), mn_comment = (\<lambda>t. Some t), mn_verify = (\<lambda>k s t. Some (t = ''sig''))\<rparr>"

definition demo_manifest :: manifest where
  "demo_manifest =
     \<lparr>mf_version = ''v0.2.0'', mf_key = demo_key, mf_assets = [(''linux-amd64'', \<lparr>as_file = ''agent'', as_sha = []\<rparr>)]\<rparr>"

definition demo_config :: update_config where
  "demo_config =
     \<lparr>uc_base = ''B'', uc_version = ''0.1.0'', uc_pub = demo_key, uc_exec = ''/opt/rmm'', uc_os = ''linux'', uc_arch = ''amd64''\<rparr>"

definition demo_machine :: "(nat \<Rightarrow> bool) \<Rightarrow> machine" where
  "demo_machine ok =
     \<lparr>mc_ok = ok, mc_part = (\<lambda>_. 0), mc_in_use = (\<lambda>_. True),
      mc_get = (\<lambda>_ u. if u = ''B/agent/releases/latest'' then Reply 200 ''manifest''
                      else if u = ''B/agent/releases/latest/agent'' then Reply 200 ''new'' else Reply 200 ''sig''),
      mc_temp = (\<lambda>_. ''/tmp/u''), mc_reexec = (\<lambda>_. ExecOk), mc_sign = demo_sign,
      mc_json = (\<lambda>s. if s = ''manifest'' then Some (demo_manifest, False) else None)\<rparr>"

definition demo_env :: update_env where
  "demo_env = \<lparr>ue_version = ''0.1.0'', ue_goos = ''linux'', ue_goarch = ''amd64'', ue_exe = Some ''/opt/rmm'', ue_embedded = demo_key,
     ue_override = [], ue_auto = [], ue_interval = []\<rparr>"

definition demo_host :: host_world where
  "demo_host = \<lparr>tick = 0, h_files = [''/opt/rmm'' \<mapsto> ''old'', ''/tmp/n'' \<mapsto> ''new'', ''/tmp/s'' \<mapsto> ''sig'']\<rparr>"

lemma demo_text: "take (2 ^ 20) ''manifest'' = ''manifest''"
  by (rule take_all) simp

lemma demo_exec: "\<forall>p\<in>set ([''opt''] @ [''rmm'']). name_ok p" "uc_exec demo_config = abs_path ([''opt''] @ [''rmm''])"
  by (simp_all add: name_ok_def abs_path_def demo_config_def)

lemma demo_config_simps:
  "uc_exec demo_config = ''/opt/rmm''" "uc_os demo_config = ''linux''" "uc_arch demo_config = ''amd64''"
  "uc_version demo_config = ''0.1.0''" "uc_pub demo_config = demo_key" "uc_base demo_config = ''B''"
  by (simp_all add: demo_config_def)

lemma demo_temp:
  assumes "take 5 p \<noteq> ''/tmp/''"
  shows "temp_apart (demo_machine ok) p"
proof -
  have "p \<noteq> ''/tmp/u''" using assms by auto
  moreover have "\<not> HasPrefix p ''/tmp/u/''"
  proof
    assume "HasPrefix p ''/tmp/u/''"
    then obtain q where "p = ''/tmp/u/'' @ q" by (metis HasPrefix_def append_take_drop_id)
    with assms show False by simp
  qed
  ultimately show ?thesis
    unfolding temp_apart_def
    by (intro allI exI [of _ "[''tmp'', ''u'']"]) (simp add: name_ok_def abs_path_def demo_machine_def)
qed

lemma demo_local: "uc_os C = ''linux'' \<Longrightarrow> uc_arch C = ''amd64'' \<Longrightarrow> \<not> climbing_name (demo_machine ok) C"
  by (auto simp: climbing_name_def released_def decodeJSON_def demo_machine_def demo_manifest_def AssetFor_def name_ok_def
    split: if_splits)

lemma demo_gates: "newer (uc_version demo_config) (mf_version demo_manifest)" "sameKey (mf_key demo_manifest) (uc_pub demo_config)"
  by (code_simp, simp add: demo_manifest_def demo_config_def demo_same)

lemma update_only_verified_witness:
  "h_files (snd (run_state (update_Run (demo_machine (\<lambda>n. n \<noteq> 5)) demo_config False False) demo_host)) ''/opt/rmm'' =
     h_files demo_host ''/opt/rmm'' \<or>
   (\<exists>m a. released (demo_machine (\<lambda>n. n \<noteq> 5)) demo_config m \<and> AssetFor m ''linux'' ''amd64'' = Some a \<and>
     newer ''0.1.0'' (mf_version m) \<and> sameKey (mf_key m) demo_key \<and>
     installs (demo_machine (\<lambda>n. n \<noteq> 5)) demo_config False m a
       (fst (run_state (update_Run (demo_machine (\<lambda>n. n \<noteq> 5)) demo_config False False) demo_host))
       (snd (run_state (update_Run (demo_machine (\<lambda>n. n \<noteq> 5)) demo_config False False) demo_host)))"
proof -
  have "temp_apart (demo_machine ok) (uc_exec demo_config)" for ok
    by (rule demo_temp) (simp add: demo_config_simps)
  from update_only_verified [OF demo_exec this prod.collapse [symmetric], where w = demo_host]
  show ?thesis using demo_local [of demo_config] by (simp add: demo_config_simps)
qed

lemma agent_installs_only_signed_witness:
  "h_files (snd (run_state (do { start_pending (demo_machine (\<lambda>_. True)) demo_env; autoUpdate (demo_machine (\<lambda>_. True)) demo_env ''B'' hour })
     demo_host)) ''/opt/rmm'' = Some ''old'' \<or>
   signed_file (demo_machine (\<lambda>_. True)) demo_key ''/opt/rmm'' (snd (run_state
     (do { start_pending (demo_machine (\<lambda>_. True)) demo_env; autoUpdate (demo_machine (\<lambda>_. True)) demo_env ''B'' hour }) demo_host))"
proof -
  have p: "abs_path ([''opt''] @ [''rmm'']) = ''/opt/rmm''" by (simp add: abs_path_def)
  have "ue_exe demo_env = Some (abs_path ([''opt''] @ [''rmm'']))" "ue_override demo_env = []"
    "temp_apart (demo_machine (\<lambda>_. True)) (abs_path ([''opt''] @ [''rmm'']))"
    unfolding p by (simp_all add: demo_env_def demo_temp)
  from agent_installs_only_signed [OF demo_exec(1) this prod.collapse [symmetric], where w = demo_host]
  show ?thesis unfolding p using demo_local [of "updater demo_env server k" for server k]
    by (simp add: demo_host_def demo_env_def updater_def update_New_def)
qed

lemma demo_serves: "serves (demo_machine ok) demo_config demo_manifest \<lparr>as_file = ''agent'', as_sha = []\<rparr> ''new'' ''sig''"
  by (simp add: serves_def demo_machine_def demo_config_def demo_manifest_def decodeJSON_def AssetFor_def name_ok_def maxDownload_def)

lemma good_release_installed_witness:
  "h_files (snd (run_state (update_Run (demo_machine (\<lambda>_. True)) demo_config False False) demo_host)) ''/opt/rmm'' = Some ''new''"
proof -
  have "temp_apart (demo_machine ok) (uc_exec demo_config)" for ok
    by (rule demo_temp) (simp add: demo_config_simps)
  moreover have "signed_by (demo_machine ok) (uc_pub demo_config) \<lparr>as_file = ''agent'', as_sha = []\<rparr> ''new'' ''sig''" for ok
    by (simp add: signed_by_def demo_machine_def demo_sign_def)
  moreover have "\<forall>n. mc_ok (demo_machine (\<lambda>_. True)) n" by (simp add: demo_machine_def)
  ultimately show ?thesis
    using good_release_installed [OF demo_exec _ _ demo_serves _ demo_gates prod.collapse [symmetric], where w = demo_host]
    by (simp add: demo_config_simps)
qed

lemma staged_update_activates_witness:
  "\<exists>w'. run_state (defaultInstall (demo_machine (\<lambda>n. n \<noteq> 5)) ''/tmp/n'' ''/tmp/s'' ''/opt/rmm'') demo_host = (Inl UStaged, w') \<and>
     h_files (snd (run_state (ApplyPending (demo_machine (\<lambda>_. True)) ''/opt/rmm'' demo_key) w')) ''/opt/rmm'' = Some ''new''"
proof -
  let ?i = "run_state (defaultInstall (demo_machine (\<lambda>n. n \<noteq> 5)) ''/tmp/n'' ''/tmp/s'' ''/opt/rmm'') demo_host"
  have "fst ?i = Inl UStaged" by code_simp
  then have i: "?i = (Inl UStaged, snd ?i)" by (simp add: prod_eq_iff)
  have c: "fst (run_state (VerifySignature (demo_machine (\<lambda>n. n \<noteq> 5)) demo_key ''/tmp/n'' ''/tmp/s'') demo_host) = Some ''sig''"
    by code_simp
  have m: "mc_sign (demo_machine (\<lambda>_. True)) = mc_sign (demo_machine (\<lambda>n. n \<noteq> 5))" "\<forall>n. mc_ok (demo_machine (\<lambda>_. True)) n"
    by (simp_all add: demo_machine_def)
  note e = demo_exec(2) [unfolded demo_config_def update_config.simps]
  from staged_update_activates [OF demo_exec(1) e _ c i m] i show ?thesis
    by (auto simp: demo_host_def)
qed

definition demo_answer :: "string \<Rightarrow> (manifest \<times> bool) option" where
  "demo_answer s =
     (if s = ''manifest'' then Some (hostile_manifest demo_config ''9'' (climb 2 [''etc'', ''cron'']), False) else None)"

lemma refused_release_overwrites_witness:
  "h_files (snd (run_state (update_Run (hostile demo_sign demo_answer ''manifest'' demo_config ''9'' (climb 2 [''etc'', ''cron'']) ''/tmp/u'' ''evil'')
     demo_config False False) demo_host)) ''/etc/cron'' = Some ''evil''"
proof -
  have p: "abs_path [''tmp'', ''u''] = ''/tmp/u''" "abs_path [''etc'', ''cron''] = ''/etc/cron''" by (simp_all add: abs_path_def)
  have v: "newer (uc_version demo_config) ''9''" "sameKey (uc_pub demo_config) (uc_pub demo_config)"
    by (code_simp, simp add: demo_config_simps demo_same)
  have l: "length ''evil'' \<le> maxDownload" by (simp add: maxDownload_def)
  have c: "climb 2 t = climb (length [''tmp'', ''u'']) t" for t by (simp add: numeral_2_eq_2)
  have n: "\<forall>d\<in>set [''tmp'', ''u'']. name_ok d" "\<forall>d\<in>set [''etc'', ''cron'']. name_ok d" by (simp_all add: name_ok_def)
  have js: "demo_answer (take (2 ^ 20) ''manifest'') =
      Some (hostile_manifest demo_config ''9'' (climb (length [''tmp'', ''u'']) [''etc'', ''cron'']), False)"
    unfolding demo_text by (simp add: demo_answer_def numeral_2_eq_2)
  have apart: "abs_path [''etc'', ''cron''] \<noteq> abs_path [''tmp'', ''u'']"
    "\<not> HasPrefix (abs_path [''etc'', ''cron'']) (abs_path [''tmp'', ''u''] @ ''/'')"
    by (simp_all add: p HasPrefix_def)
  show ?thesis
    unfolding c
    using refused_release_overwrites [where w = demo_host and S = demo_sign and dec = demo_answer and js = "''manifest''",
      OF _ n _ apart _ v l js prod.collapse [symmetric]]
    by (simp only: p list.distinct simp_thms)
qed

lemma no_downgrade_witness:
  "\<exists>y. parseVer ([''0.1.0'', ''0.2'', ''v1.0.4-rc''] ! 2) = Some y \<and> ver_less (0, 1, 0) y \<and>
    (\<forall>u. (version_text u ([''0.1.0'', ''0.2'', ''v1.0.4-rc''] ! 0) \<longrightarrow> u = (0, 1, 0)) \<and>
      (version_text u ([''0.1.0'', ''0.2'', ''v1.0.4-rc''] ! 2) \<longrightarrow> u = y))"
  by (rule no_downgrade [where i = 0]; code_simp)

end
