(* ===== verification/Log_Ship.thy ===== *)
theory Log_Ship
  imports Strconv Radix Sha256 Effects
begin

section \<open>Log shipping of the agent\<close>

text \<open>
  \<^verbatim>\<open>agent/internal/logship\<close>: the agent tails its own log file and ships the lines to Loki and over the uplink.
  The world is the log file, the saved offset, the memory of the shipper, and what each sink accepted. JSON
  decoding, \<^verbatim>\<open>time.Parse\<close>, the outcomes of reads, of writes and of the sinks are parameters. The file grows
  between the steps of the shipper's loop.
\<close>

subsection \<open>Entries\<close>

record entry =
  en_id :: string
  en_time :: time
  en_level :: string
  en_msg :: string
  en_attrs :: "(string \<times> string) list"
  en_line :: string

text \<open>The decoded line; its attributes as \<^verbatim>\<open>%v\<close> prints them.\<close>

record json_line =
  jl_ts :: string
  jl_level :: string
  jl_msg :: string
  jl_attrs :: "(string \<times> string) list"

record ship_config =
  sc_device :: string
  sc_loki :: bool
  sc_uplink :: bool
  sc_batch :: int
  sc_max :: int
  sc_at_end :: bool

definition withDefaults :: "ship_config \<Rightarrow> ship_config" where
  "withDefaults C =
     C\<lparr>sc_batch := (if sc_batch C \<le> 0 then 200 else sc_batch C),
       sc_max := (if sc_max C \<le> 0 then 4096 else sc_max C)\<rparr>"

type_synonym loki_stream = "string \<times> (string \<times> string) list"

record ship_env =
  ss_json :: "string \<Rightarrow> json_line option"
  ss_time :: "string \<Rightarrow> time option"
  ss_clock :: "nat \<Rightarrow> time"
  ss_read :: "nat \<Rightarrow> nat option"
  ss_loki :: "nat \<Rightarrow> db_out"
  ss_uplink :: "nat \<Rightarrow> db_out"
  ss_ok :: "nat \<Rightarrow> bool"
  ss_part :: "nat \<Rightarrow> nat"

record ship_world = world +
  sh_file :: string
  sh_saved :: "string option"
  sh_offset :: int
  sh_partial :: string
  sh_queue :: "string list"
  sh_pushed :: int
  sh_failed :: int
  sh_skipped :: int
  sh_loki :: "loki_stream list list"
  sh_uplink :: "entry list list"

type_synonym 'a shm = "(ship_world, 'a) m"

definition step_of :: "(nat \<Rightarrow> 'a) \<Rightarrow> 'a shm" where
  "step_of f = State (\<lambda>w. (f (tick w), w\<lparr>tick := Suc (tick w)\<rparr>))"

definition IDForLine :: "string \<Rightarrow> string \<Rightarrow> string" where
  "IDForLine dev line = hex_encode (take 8 (sha256 (dev @ CHR ''|'' # line)))"

text \<open>\<^verbatim>\<open>strings.ToUpper\<close> on ASCII letters.\<close>

definition upper_char :: "char \<Rightarrow> char" where
  "upper_char c = (let n = of_char c :: nat in if 97 \<le> n \<and> n \<le> 122 then char_of (n - 32) else c)"

definition parses :: "ship_env \<Rightarrow> string \<Rightarrow> bool" where
  "parses S line = (case ss_json S line of None \<Rightarrow> False | Some j \<Rightarrow> jl_msg j \<noteq> [])"

definition ParseLine :: "ship_env \<Rightarrow> string \<Rightarrow> string \<Rightarrow> (entry option) shm" where
  "ParseLine S dev line =
     (case ss_json S line of
        None \<Rightarrow> State_Monad.return None
      | Some j \<Rightarrow>
          if jl_msg j = [] then State_Monad.return None
          else do {
            t \<leftarrow> (case ss_time S (jl_ts j) of Some t \<Rightarrow> State_Monad.return t | None \<Rightarrow> step_of (ss_clock S));
            (let level = map upper_char (jl_level j) in
             State_Monad.return (Some
               \<lparr>en_id = IDForLine dev line, en_time = t, en_level = (if level = [] then ''INFO'' else level),
                en_msg = jl_msg j, en_attrs = jl_attrs j, en_line = line\<rparr>))
          })"

subsection \<open>The handler that writes the log\<close>

record jsonl_handler =
  jh_attrs :: "(string \<times> string) list"
  jh_group :: string
  jh_min :: int

definition Enabled :: "jsonl_handler \<Rightarrow> int \<Rightarrow> bool" where
  "Enabled h level \<longleftrightarrow> level \<ge> jh_min h"

definition WithAttrs :: "jsonl_handler \<Rightarrow> (string \<times> string) list \<Rightarrow> jsonl_handler" where
  "WithAttrs h as = h\<lparr>jh_attrs := jh_attrs h @ as\<rparr>"

definition WithGroup :: "jsonl_handler \<Rightarrow> string \<Rightarrow> jsonl_handler" where
  "WithGroup h name1 = h\<lparr>jh_group := (if jh_group h \<noteq> [] then jh_group h @ CHR ''.'' # name1 else name1)\<rparr>"

text \<open>The attributes of a record by key, the last one of a key.\<close>

definition line_attrs :: "jsonl_handler \<Rightarrow> (string \<times> string) list \<Rightarrow> string \<Rightarrow> string option" where
  "line_attrs h as =
     fold (\<lambda>(k, v) m. m(k \<mapsto> v))
       (jh_attrs h @ map (\<lambda>(k, v). (if jh_group h \<noteq> [] then jh_group h @ CHR ''.'' # k else k, v)) as) Map.empty"

text \<open>\<open>enc\<close> is \<^verbatim>\<open>json.Marshal\<close>. A write that fails may have written a part.\<close>

definition jsonl_Handle ::
  "ship_env \<Rightarrow> (time \<Rightarrow> string \<Rightarrow> string \<Rightarrow> (string \<Rightarrow> string option) \<Rightarrow> string option) \<Rightarrow> jsonl_handler \<Rightarrow>
   time \<Rightarrow> string \<Rightarrow> string \<Rightarrow> (string \<times> string) list \<Rightarrow> bool shm" where
  "jsonl_Handle S enc h t level msg as =
     (case enc t level msg (line_attrs h as) of
        None \<Rightarrow> State_Monad.return False
      | Some b \<Rightarrow> do {
          n \<leftarrow> step_of (ss_part S);
          ok \<leftarrow> step_of (ss_ok S);
          modifies (\<lambda>w. w\<lparr>sh_file := sh_file w @ (if ok then b @ [CHR 0x0A] else take n (b @ [CHR 0x0A]))\<rparr>);
          State_Monad.return ok
        })"

text \<open>The fan-out: every handler that is enabled gets the record, and the first error is returned.\<close>

fun tee_Handle :: "('h \<Rightarrow> bool) \<Rightarrow> ('h \<Rightarrow> (err option) shm) \<Rightarrow> 'h list \<Rightarrow> (err option) shm" where
  "tee_Handle enabled handle [] = State_Monad.return None"
| "tee_Handle enabled handle (h # hs) = do {
     e \<leftarrow> (if enabled h then handle h else State_Monad.return None);
     later \<leftarrow> tee_Handle enabled handle hs;
     State_Monad.return (if e = None then later else e)
   }"

subsection \<open>Loki\<close>

text \<open>One stream per level, in order of first appearance.\<close>

fun add_value :: "string \<Rightarrow> string \<times> string \<Rightarrow> loki_stream list \<Rightarrow> loki_stream list" where
  "add_value lvl v [] = [(lvl, [v])]"
| "add_value lvl v ((l, vs) # ss) = (if l = lvl then (l, vs @ [v]) # ss else (l, vs) # add_value lvl v ss)"

fun loki_streams :: "ship_env \<Rightarrow> entry list \<Rightarrow> loki_stream list \<Rightarrow> (loki_stream list) shm" where
  "loki_streams S [] acc = State_Monad.return acc"
| "loki_streams S (e # es) acc = do {
     t \<leftarrow> (if en_time e = zero_time then step_of (ss_clock S) else State_Monad.return (en_time e));
     loki_streams S es
       (add_value (if en_level e = [] then ''info'' else en_level e) (FormatInt (wrap64 t), en_line e) acc)
   }"

text \<open>A cancelled context fails the request before it is sent.\<close>

definition loki_Push :: "ship_env \<Rightarrow> bool \<Rightarrow> entry list \<Rightarrow> bool shm" where
  "loki_Push S cancelled es = do {
     ss \<leftarrow> loki_streams S es [];
     out \<leftarrow> step_of (ss_loki S);
     (if cancelled \<or> out = DbErr then State_Monad.return False
      else do {
        modifies (\<lambda>w. w\<lparr>sh_loki := sh_loki w @ [ss]\<rparr>);
        State_Monad.return (out = DbOk)
      })
   }"

definition uplink_Push :: "ship_env \<Rightarrow> entry list \<Rightarrow> bool shm" where
  "uplink_Push S es = do {
     out \<leftarrow> step_of (ss_uplink S);
     (if out = DbErr then State_Monad.return False
      else do {
        modifies (\<lambda>w. w\<lparr>sh_uplink := sh_uplink w @ [es]\<rparr>);
        State_Monad.return (out = DbOk)
      })
   }"

subsection \<open>The tail\<close>

definition ship_New :: "ship_config \<Rightarrow> unit shm" where
  "ship_New C = modifies (\<lambda>w.
     let size = int (length (sh_file w));
         start = (case sh_saved w of
             Some b \<Rightarrow>
               (case ParseInt64 (TrimSpace b) of
                  Some off \<Rightarrow> if off \<ge> 0 then if off > size then 0 else off else 0
                | None \<Rightarrow> 0)
           | None \<Rightarrow> if sc_at_end C then size else 0)
     in w\<lparr>sh_offset := start, sh_partial := [], sh_queue := [], sh_pushed := 0, sh_failed := 0, sh_skipped := 0\<rparr>)"

text \<open>The complete lines that are not empty, and what follows the last newline.\<close>

function cut_lines :: "string \<Rightarrow> string list \<times> string" where
  "cut_lines p =
     (if CHR 0x0A \<in> set p then
        let l = takeWhile (\<lambda>c. c \<noteq> CHR 0x0A) p; (ls, r) = cut_lines (drop (Suc (length l)) p) in
        (if l = [] then ls else l # ls, r)
      else ([], p))"
  by pat_completeness auto
termination
  by (relation "measure length") (auto intro: diff_less simp: length_pos_if_in_set)

declare cut_lines.simps [simp del]

definition read_chunk :: nat where "read_chunk = 256 * 1024"
definition max_line :: nat where "max_line = 2 ^ 20"

text \<open>\<^verbatim>\<open>ReadAt\<close>: it ends with an error after some bytes, at the end of the file with \<^verbatim>\<open>EOF\<close>.\<close>

definition ReadAt :: "ship_env \<Rightarrow> (string \<times> bool) shm" where
  "ReadAt S = State (\<lambda>w.
     let got = take read_chunk (drop (nat (sh_offset w)) (sh_file w)) in
     ((case ss_read S (tick w) of
         None \<Rightarrow> (got, length got < read_chunk)
       | Some n \<Rightarrow> (take n got, True)),
      w\<lparr>tick := Suc (tick w)\<rparr>))"

definition push_line :: "ship_config \<Rightarrow> string \<Rightarrow> unit shm" where
  "push_line C line = modifies (\<lambda>w.
     let q = sh_queue w @ [line]; over = length q - nat (sc_max C) in
     w\<lparr>sh_queue := drop over q, sh_skipped := sh_skipped w + int over\<rparr>)"

definition enqueue :: "ship_env \<Rightarrow> ship_config \<Rightarrow> string \<Rightarrow> unit shm" where
  "enqueue S C line = do {
     e \<leftarrow> ParseLine S (sc_device C) line;
     (case e of
        None \<Rightarrow> modifies (\<lambda>w. w\<lparr>sh_skipped := sh_skipped w + 1\<rparr>)
      | Some _ \<Rightarrow> push_line C line)
   }"

fun enqueue_all :: "ship_env \<Rightarrow> ship_config \<Rightarrow> string list \<Rightarrow> unit shm" where
  "enqueue_all S C [] = State_Monad.return ()"
| "enqueue_all S C (l # ls) = do { enqueue S C l; enqueue_all S C ls }"

definition absorb :: "ship_env \<Rightarrow> ship_config \<Rightarrow> string \<Rightarrow> nat shm" where
  "absorb S C got = do {
     p \<leftarrow> reads (\<lambda>w. sh_partial w @ got);
     (let big = length p > max_line; (ls, rest) = cut_lines (if big then [] else p) in do {
        modifies (\<lambda>w. w\<lparr>sh_offset := sh_offset w + int (length got), sh_partial := rest,
          sh_skipped := sh_skipped w + (if big then 1 else 0)\<rparr>);
        enqueue_all S C ls;
        State_Monad.return (length ls)
      })
   }"

fun read_loop :: "ship_env \<Rightarrow> ship_config \<Rightarrow> nat \<Rightarrow> nat shm" where
  "read_loop S C 0 = State_Monad.return 0"
| "read_loop S C (Suc k) = do {
     r \<leftarrow> ReadAt S;
     n \<leftarrow> (if fst r = [] then State_Monad.return 0 else absorb S C (fst r));
     (if snd r then State_Monad.return n
      else do { rest \<leftarrow> read_loop S C k; State_Monad.return (n + rest) })
   }"

text \<open>As many rounds as the file has bytes, and one more, are enough: each round but the last reads a chunk.\<close>

definition readNew :: "ship_env \<Rightarrow> ship_config \<Rightarrow> nat shm" where
  "readNew S C = do { n \<leftarrow> reads (\<lambda>w. Suc (length (sh_file w))); read_loop S C n }"

subsection \<open>Flushing\<close>

fun parse_all :: "ship_env \<Rightarrow> string \<Rightarrow> string list \<Rightarrow> (entry list) shm" where
  "parse_all S dev [] = State_Monad.return []"
| "parse_all S dev (l # ls) = do {
     e \<leftarrow> ParseLine S dev l;
     es \<leftarrow> parse_all S dev ls;
     State_Monad.return (case e of None \<Rightarrow> es | Some x \<Rightarrow> x # es)
   }"

definition writeState :: "ship_env \<Rightarrow> int \<Rightarrow> unit shm" where
  "writeState S off = do {
     written \<leftarrow> step_of (ss_ok S);
     (if \<not> written then State_Monad.return ()
      else do {
        renamed \<leftarrow> step_of (ss_ok S);
        (if \<not> renamed then State_Monad.return ()
         else modifies (\<lambda>w. w\<lparr>sh_saved := Some (FormatInt off)\<rparr>))
      })
   }"

definition requeue :: "ship_config \<Rightarrow> string list \<Rightarrow> unit shm" where
  "requeue C raw = modifies (\<lambda>w.
     let q = raw @ sh_queue w; kept = take (nat (sc_max C)) q in
     w\<lparr>sh_queue := kept, sh_failed := sh_failed w + 1, sh_skipped := sh_skipped w + int (length q - length kept)\<rparr>)"

definition take_batch :: "ship_config \<Rightarrow> (string list) shm" where
  "take_batch C = State (\<lambda>w.
     let n = nat (sc_batch C) in (take n (sh_queue w), w\<lparr>sh_queue := drop n (sh_queue w)\<rparr>))"

definition ship_batch :: "ship_env \<Rightarrow> ship_config \<Rightarrow> bool \<Rightarrow> string list \<Rightarrow> entry list \<Rightarrow> unit shm" where
  "ship_batch S C final raw es = do {
     loki_ok \<leftarrow> (if sc_loki C then loki_Push S final es else State_Monad.return True);
     uplink_ok \<leftarrow> (if sc_uplink C then uplink_Push S es else State_Monad.return True);
     (if \<not> loki_ok \<or> \<not> uplink_ok then requeue C raw
      else do {
        modifies (\<lambda>w. w\<lparr>sh_pushed := sh_pushed w + int (length es)\<rparr>);
        off \<leftarrow> reads sh_offset;
        writeState S off
      })
   }"

definition ship_flush :: "ship_env \<Rightarrow> ship_config \<Rightarrow> bool \<Rightarrow> unit shm" where
  "ship_flush S C final = do {
     raw \<leftarrow> take_batch C;
     (if raw = [] then State_Monad.return ()
      else do {
        es \<leftarrow> parse_all S (sc_device C) raw;
        (if es = [] then State_Monad.return () else ship_batch S C final raw es)
      })
   }"

subsection \<open>The loop\<close>

text \<open>What happens to the shipper: the agent logs, its tickers fire, it is stopped, it is started (after a crash).\<close>

datatype ship_event = Logged string | PollTick | FlushTick | Stopped | Started

fun ship_step :: "ship_env \<Rightarrow> ship_config \<Rightarrow> ship_event \<Rightarrow> unit shm" where
  "ship_step S C (Logged s) = modifies (\<lambda>w. w\<lparr>sh_file := sh_file w @ s\<rparr>)"
| "ship_step S C PollTick = do {
     n \<leftarrow> readNew S C;
     q \<leftarrow> reads (\<lambda>w. int (length (sh_queue w)));
     (if n > 0 \<and> q \<ge> sc_batch C then ship_flush S C False else State_Monad.return ())
   }"
| "ship_step S C FlushTick = ship_flush S C False"
| "ship_step S C Stopped = do { _ \<leftarrow> readNew S C; ship_flush S C True }"
| "ship_step S C Started = ship_New C"

fun ship_run :: "ship_env \<Rightarrow> ship_config \<Rightarrow> ship_event list \<Rightarrow> unit shm" where
  "ship_run S C [] = State_Monad.return ()"
| "ship_run S C (e # es) = do { ship_step S C e; ship_run S C es }"

end
