(* ===== verification/Ship_Properties.thy ===== *)
theory Ship_Properties
  imports Log_Ship "HOL-Library.Sublist"
begin

section \<open>What the shipper guarantees\<close>

subsection \<open>Cutting lines\<close>

lemma cut_rest [simp]: "CHR 0x0A \<notin> set p \<Longrightarrow> cut_lines p = ([], p)"
  by (simp add: cut_lines.simps)

lemma cut_cons:
  "CHR 0x0A \<notin> set l \<Longrightarrow> cut_lines (l @ CHR 0x0A # r) =
    ((if l = [] then fst (cut_lines r) else l # fst (cut_lines r)), snd (cut_lines r))"
  by (subst cut_lines.simps) (simp add: takeWhile_append split: prod.split)

lemma first_line:
  assumes "CHR 0x0A \<in> set a"
  obtains l r where "a = l @ CHR 0x0A # r" "CHR 0x0A \<notin> set l"
  using split_list_first [OF assms] by blast

lemma cut_append:
  "cut_lines (a @ b) = (fst (cut_lines a) @ fst (cut_lines (snd (cut_lines a) @ b)), snd (cut_lines (snd (cut_lines a) @ b)))"
proof (induction a rule: length_induct)
  case (1 a)
  show ?case
  proof (cases "CHR 0x0A \<in> set a")
    case True
    then obtain l r where a: "a = l @ CHR 0x0A # r" "CHR 0x0A \<notin> set l" by (rule first_line)
    have "cut_lines (r @ b) =
        (fst (cut_lines r) @ fst (cut_lines (snd (cut_lines r) @ b)), snd (cut_lines (snd (cut_lines r) @ b)))"
      using 1 a by simp
    then show ?thesis by (simp add: a cut_cons)
  qed simp
qed

lemma cut_length: "length (fst (cut_lines a)) \<le> length (fst (cut_lines (a @ b)))"
  using arg_cong [OF cut_append [of a b], of fst] by (simp only: fst_conv length_append le_add1)

lemma cut_no_newline: "CHR 0x0A \<notin> set (snd (cut_lines a))"
proof (induction a rule: length_induct)
  case (1 a)
  show ?case
  proof (cases "CHR 0x0A \<in> set a")
    case True
    then obtain l r where "a = l @ CHR 0x0A # r" "CHR 0x0A \<notin> set l" by (rule first_line)
    with 1 show ?thesis by (simp add: cut_cons)
  qed simp
qed

lemma cut_suffix_of: "suffix (snd (cut_lines a)) a"
proof (induction a rule: length_induct)
  case (1 a)
  show ?case
  proof (cases "CHR 0x0A \<in> set a")
    case True
    then obtain l r where a: "a = l @ CHR 0x0A # r" "CHR 0x0A \<notin> set l" by (rule first_line)
    with 1 have "suffix (snd (cut_lines r)) r" by simp
    then obtain u where "r = u @ snd (cut_lines r)" by (auto simp: suffix_def)
    then have "a = (l @ CHR 0x0A # u) @ snd (cut_lines a)" by (simp add: a cut_cons)
    then show ?thesis unfolding suffix_def by blast
  qed simp
qed

subsection \<open>What the steps change\<close>

text \<open>Beside the count of interactions, a step changes the fields its equation names and no others.\<close>

definition last_n :: "nat \<Rightarrow> 'a list \<Rightarrow> 'a list" where
  "last_n n xs = drop (length xs - n) xs"

lemma last_n_short [simp]: "length xs \<le> n \<Longrightarrow> last_n n xs = xs"
  by (simp add: last_n_def)

lemma last_n_length [simp]: "length (last_n n xs) \<le> n"
  by (simp add: last_n_def)

lemma last_n_append: "last_n n (last_n n xs @ ys) = last_n n (xs @ ys)"
proof (cases "length xs \<le> n")
  case False
  then have "length (drop (length xs - n) xs @ ys) - n = length ys" "length (xs @ ys) - n = (length xs - n) + length ys" by auto
  then show ?thesis unfolding last_n_def by (simp add: add.commute drop_drop [symmetric] del: drop_drop)
qed simp

lemma run_step [simp]: "run_state (step_of f) w = (f (tick w), w\<lparr>tick := Suc (tick w)\<rparr>)"
  by (simp add: step_of_def)

text \<open>The world without the counters.\<close>

definition view :: "ship_world \<Rightarrow> ship_world" where
  "view w = w\<lparr>tick := 0, sh_pushed := 0, sh_failed := 0, sh_skipped := 0\<rparr>"

lemma view_tick [simp]:
  "view (w\<lparr>tick := n\<rparr>) = view w" "view (w\<lparr>sh_skipped := k\<rparr>) = view w" "view (w\<lparr>sh_failed := k\<rparr>) = view w"
  "view (w\<lparr>sh_pushed := k\<rparr>) = view w"
  by (simp_all add: view_def)

lemma view_update [simp]:
  "view (w\<lparr>sh_queue := q\<rparr>) = (view w)\<lparr>sh_queue := q\<rparr>" "view (w\<lparr>sh_offset := i\<rparr>) = (view w)\<lparr>sh_offset := i\<rparr>"
  "view (w\<lparr>sh_partial := p\<rparr>) = (view w)\<lparr>sh_partial := p\<rparr>" "view (w\<lparr>sh_file := p\<rparr>) = (view w)\<lparr>sh_file := p\<rparr>"
  "view (w\<lparr>sh_saved := b\<rparr>) = (view w)\<lparr>sh_saved := b\<rparr>" "view (w\<lparr>sh_loki := x\<rparr>) = (view w)\<lparr>sh_loki := x\<rparr>"
  "view (w\<lparr>sh_uplink := y\<rparr>) = (view w)\<lparr>sh_uplink := y\<rparr>"
  by (simp_all add: view_def)

lemma view_fields [simp]:
  "sh_queue (view w) = sh_queue w" "sh_offset (view w) = sh_offset w" "sh_partial (view w) = sh_partial w"
  "sh_file (view w) = sh_file w" "sh_saved (view w) = sh_saved w" "sh_loki (view w) = sh_loki w" "sh_uplink (view w) = sh_uplink w"
  by (simp_all add: view_def)

lemma viewD:
  assumes "view v = u"
  shows "sh_queue v = sh_queue u" "sh_offset v = sh_offset u" "sh_partial v = sh_partial u" "sh_file v = sh_file u"
    "sh_saved v = sh_saved u" "sh_loki v = sh_loki u" "sh_uplink v = sh_uplink u"
  using assms by auto

lemma run_ParseLine:
  "view (snd (run_state (ParseLine S dev l) w)) = view w"
  "fst (run_state (ParseLine S dev l) w) = None \<longleftrightarrow> \<not> parses S l"
  "fst (run_state (ParseLine S dev l) w) = Some e \<Longrightarrow> en_line e = l"
  by (auto simp: ParseLine_def parses_def Let_def split: option.splits if_splits)

lemma run_enqueue:
  "view (snd (run_state (enqueue S C l) w)) =
    (view w)\<lparr>sh_queue := (if parses S l then last_n (nat (sc_max C)) (sh_queue w @ [l]) else sh_queue w)\<rparr>"
proof -
  let ?p = "run_state (ParseLine S (sc_device C) l) w"
  note v = run_ParseLine(1) [of S "sc_device C" l w] and q = viewD(1) [OF run_ParseLine(1) [of S "sc_device C" l w]]
  show ?thesis
    using run_ParseLine(2) [of S "sc_device C" l w] v q
    by (cases "fst ?p") (simp_all add: enqueue_def push_line_def Let_def last_n_def)
qed

lemma run_enqueue_all:
  assumes "length (sh_queue w) \<le> nat (sc_max C)"
  shows "view (snd (run_state (enqueue_all S C ls) w)) =
    (view w)\<lparr>sh_queue := last_n (nat (sc_max C)) (sh_queue w @ filter (parses S) ls)\<rparr>"
  using assms
proof (induction ls arbitrary: w)
  case (Cons l ls)
  let ?v = "snd (run_state (enqueue S C l) w)"
  note v = run_enqueue [of S C l w]
  have "length (sh_queue ?v) \<le> nat (sc_max C)" using viewD(1) [OF v] Cons.prems by simp
  from Cons.IH [OF this] show ?case using v viewD(1) [OF v] by (simp add: last_n_append)
qed simp

text \<open>The world after the bytes \<open>got\<close> were absorbed.\<close>

definition after_bytes :: "ship_env \<Rightarrow> ship_config \<Rightarrow> string \<Rightarrow> ship_world \<Rightarrow> ship_world" where
  "after_bytes S C got w =
     w\<lparr>sh_offset := sh_offset w + int (length got), sh_partial := snd (cut_lines (sh_partial w @ got)),
       sh_queue := last_n (nat (sc_max C)) (sh_queue w @ filter (parses S) (fst (cut_lines (sh_partial w @ got))))\<rparr>"

lemma run_absorb:
  assumes "length (sh_queue w) \<le> nat (sc_max C)" and "length (sh_partial w @ got) \<le> max_line"
  shows "view (snd (run_state (absorb S C got) w)) = after_bytes S C got (view w)"
    "fst (run_state (absorb S C got) w) = length (fst (cut_lines (sh_partial w @ got)))"
proof -
  let ?c = "cut_lines (sh_partial w @ got)"
  let ?v = "w\<lparr>sh_offset := sh_offset w + int (length got), sh_partial := snd ?c, sh_skipped := sh_skipped w\<rparr>"
  have "length (sh_queue ?v) \<le> nat (sc_max C)" using assms(1) by simp
  note q = run_enqueue_all [OF this, of S "fst ?c"]
  show "view (snd (run_state (absorb S C got) w)) = after_bytes S C got (view w)"
    using assms(2) q by (simp add: absorb_def Let_def after_bytes_def not_less case_prod_beta)
  show "fst (run_state (absorb S C got) w) = length (fst ?c)"
    using assms(2) by (simp add: absorb_def Let_def not_less case_prod_beta)
qed


subsection \<open>Reading in chunks\<close>

text \<open>No line comes near the limit beyond which the shipper drops what it holds.\<close>

definition short_lines :: "string \<Rightarrow> bool" where
  "short_lines s \<longleftrightarrow> (\<forall>l. sublist l s \<and> CHR 0x0A \<notin> set l \<longrightarrow> length l + read_chunk \<le> max_line)"

lemma short_sublist: "short_lines s \<Longrightarrow> sublist t s \<Longrightarrow> short_lines t"
  unfolding short_lines_def by (metis sublist_order.order_trans)

definition tailing :: "ship_config \<Rightarrow> ship_world \<Rightarrow> bool" where
  "tailing C w \<longleftrightarrow>
     0 \<le> sh_offset w \<and> nat (sh_offset w) \<le> length (sh_file w) \<and> CHR 0x0A \<notin> set (sh_partial w) \<and>
     length (sh_queue w) \<le> nat (sc_max C)"

definition unread :: "ship_world \<Rightarrow> string" where
  "unread w = drop (nat (sh_offset w)) (sh_file w)"

lemma view_tailing [simp]: "tailing C (view w) = tailing C w" "unread (view w) = unread w"
  by (simp_all add: tailing_def unread_def)

lemma tick_tailing [simp]: "tailing C (w\<lparr>tick := n\<rparr>) = tailing C w" "unread (w\<lparr>tick := n\<rparr>) = unread w"
  by (simp_all add: tailing_def unread_def)

lemma after_nothing: "tailing C w \<Longrightarrow> after_bytes S C [] w = w"
  by (simp add: after_bytes_def tailing_def)

lemma after_after: "after_bytes S C b (after_bytes S C a w) = after_bytes S C (a @ b) w"
  using cut_append [of "sh_partial w @ a" b] by (simp add: after_bytes_def last_n_append)

lemma unread_after: "tailing C w \<Longrightarrow> prefix got (unread w) \<Longrightarrow> unread (after_bytes S C got w) = drop (length got) (unread w)"
  by (simp add: unread_def after_bytes_def tailing_def nat_add_distrib add.commute)

lemma tailing_after: "tailing C w \<Longrightarrow> prefix got (unread w) \<Longrightarrow> tailing C (after_bytes S C got w)"
  using prefix_length_le [of got "unread w"]
  by (auto simp: tailing_def unread_def after_bytes_def nat_add_distrib cut_no_newline)

lemma short_after:
  assumes "prefix got (unread w)" and "short_lines (sh_partial w @ unread w)"
  shows "short_lines (snd (cut_lines (sh_partial w @ got)) @ drop (length got) (unread w))"
proof -
  obtain r where r: "unread w = got @ r" using assms(1) by (auto simp: prefix_def)
  obtain u where "sh_partial w @ got = u @ snd (cut_lines (sh_partial w @ got))"
    using cut_suffix_of unfolding suffix_def by blast
  then have "sh_partial w @ unread w = u @ (snd (cut_lines (sh_partial w @ got)) @ r)"
    unfolding r by (metis append.assoc)
  then have "sublist (snd (cut_lines (sh_partial w @ got)) @ r) (sh_partial w @ unread w)"
    by (metis sublist_appendI append_Nil2)
  with assms(2) r show ?thesis by (auto intro: short_sublist)
qed

lemma run_ReadAt:
  "run_state (ReadAt S) w =
    ((case ss_read S (tick w) of
        None \<Rightarrow> (take read_chunk (unread w), length (take read_chunk (unread w)) < read_chunk)
      | Some n \<Rightarrow> (take n (take read_chunk (unread w)), True)), w\<lparr>tick := Suc (tick w)\<rparr>)"
  by (simp add: ReadAt_def unread_def Let_def split: option.split)

lemma chunk_prefix:
  "prefix (fst (fst (run_state (ReadAt S) w))) (unread w)"
  "length (fst (fst (run_state (ReadAt S) w))) \<le> read_chunk"
  by (auto simp: run_ReadAt take_is_prefix split: option.split)

lemma after_chunk:
  assumes "tailing C w" "short_lines (sh_partial w @ unread w)" "prefix got (unread w)" "length got \<le> read_chunk"
    and r_def: "r = run_state (if got = [] then State_Monad.return 0 else absorb S C got) w"
  shows "view (snd r) = after_bytes S C got (view w)" "fst r = length (fst (cut_lines (sh_partial w @ got)))"
proof -
  have "sublist (sh_partial w) (sh_partial w @ unread w)" by (simp add: prefix_imp_sublist)
  then have "length (sh_partial w @ got) \<le> max_line"
    using assms(1,2,4) unfolding short_lines_def tailing_def by fastforce
  moreover have "length (sh_queue w) \<le> nat (sc_max C)" using assms(1) by (simp add: tailing_def)
  ultimately show "view (snd r) = after_bytes S C got (view w)" "fst r = length (fst (cut_lines (sh_partial w @ got)))"
    using run_absorb [of w C got S] after_nothing [of C "view w" S] assms(1) unfolding r_def by (auto simp: tailing_def)
qed

lemma run_read_loop:
  assumes "tailing C w" and "short_lines (sh_partial w @ unread w)"
  shows "\<exists>got. prefix got (unread w) \<and> view (snd (run_state (read_loop S C k) w)) = after_bytes S C got (view w) \<and>
    fst (run_state (read_loop S C k) w) = length (fst (cut_lines (sh_partial w @ got))) \<and>
    ((\<forall>n. ss_read S n = None) \<longrightarrow> length (unread w) < k \<longrightarrow> got = unread w)"
  using assms
proof (induction k arbitrary: w)
  case 0
  then show ?case by (intro exI [of _ "[]"]) (simp add: after_nothing tailing_def)
next
  case (Suc k)
  let ?got = "fst (fst (run_state (ReadAt S) w))" and ?stop = "snd (fst (run_state (ReadAt S) w))"
  let ?v = "w\<lparr>tick := Suc (tick w)\<rparr>"
  let ?r = "run_state (if ?got = [] then State_Monad.return 0 else absorb S C ?got) ?v"
  have v: "tailing C ?v" "short_lines (sh_partial ?v @ unread ?v)" "prefix ?got (unread ?v)"
    using Suc.prems chunk_prefix by (simp_all add: tailing_def unread_def)
  note r = after_chunk [OF v chunk_prefix(2) refl, of S]
  have run: "run_state (read_loop S C (Suc k)) w =
      (if ?stop then ?r else (fst ?r + fst (run_state (read_loop S C k) (snd ?r)), snd (run_state (read_loop S C k) (snd ?r))))"
    by (simp add: run_ReadAt)
  show ?case
  proof (cases ?stop)
    case True
    have "?got = unread w" if "\<forall>n. ss_read S n = None"
      using True that by (simp add: run_ReadAt)
    then show ?thesis
      using True r chunk_prefix(1) run by (intro exI [of _ ?got]) simp
  next
    case False
    have vv: "tailing C (view ?v)" "prefix ?got (unread (view ?v))" using v by simp_all
    have "unread (view (snd ?r)) = drop (length ?got) (unread (view ?v))"
      unfolding r(1) by (rule unread_after [OF vv])
    moreover have "tailing C (view (snd ?r))" unfolding r(1) by (rule tailing_after [OF vv])
    moreover have "unread ?v = unread w" by (simp add: unread_def)
    ultimately have w1: "sh_partial (snd ?r) = snd (cut_lines (sh_partial w @ ?got))"
      "unread (snd ?r) = drop (length ?got) (unread w)" "tailing C (snd ?r)"
      using viewD(3) [OF r(1)] by (simp_all add: after_bytes_def)
    have "short_lines (sh_partial (snd ?r) @ unread (snd ?r))"
      unfolding w1 by (rule short_after [OF chunk_prefix(1) Suc.prems(2)])
    from Suc.IH [OF w1(3) this] obtain got where got: "prefix got (unread (snd ?r))"
      "view (snd (run_state (read_loop S C k) (snd ?r))) = after_bytes S C got (view (snd ?r))"
      "fst (run_state (read_loop S C k) (snd ?r)) = length (fst (cut_lines (sh_partial (snd ?r) @ got)))"
      "(\<forall>n. ss_read S n = None) \<Longrightarrow> length (unread (snd ?r)) < k \<Longrightarrow> got = unread (snd ?r)" by blast
    obtain x where x: "unread w = ?got @ x" using chunk_prefix(1) by (auto simp: prefix_def)
    have "0 < length ?got \<and> got = x" if n: "\<forall>n. ss_read S n = None" "length (unread w) < Suc k"
    proof -
      have "0 < length ?got" using False n(1) by (simp add: run_ReadAt read_chunk_def)
      moreover from this have "length (unread (snd ?r)) < k"
        using n(2) arg_cong [OF x, of length] unfolding w1 length_append length_drop by linarith
      ultimately show ?thesis using got(4) n(1) x w1(2) by simp
    qed
    then show ?thesis
      using got(1-3) r w1 x cut_append [of "sh_partial w @ ?got" got] run False
      by (intro exI [of _ "?got @ got"]) (simp add: after_after)
  qed
qed


lemma run_readNew:
  assumes "tailing C w" and "short_lines (sh_partial w @ unread w)"
  shows "\<exists>got. prefix got (unread w) \<and> view (snd (run_state (readNew S C) w)) = after_bytes S C got (view w) \<and>
    fst (run_state (readNew S C) w) = length (fst (cut_lines (sh_partial w @ got))) \<and>
    ((\<forall>n. ss_read S n = None) \<longrightarrow> got = unread w)"
proof -
  have "length (unread w) < Suc (length (sh_file w))" by (simp add: unread_def)
  then show ?thesis using run_read_loop [OF assms, of S "Suc (length (sh_file w))"] by (simp add: readNew_def)
qed

subsection \<open>Accepted lines\<close>

definition loki_lines :: "loki_stream list \<Rightarrow> string set" where
  "loki_lines ss = (\<Union>s\<in>set ss. snd ` set (snd s))"

definition accepted :: "ship_config \<Rightarrow> ship_world \<Rightarrow> string \<Rightarrow> bool" where
  "accepted C w l \<longleftrightarrow>
     (sc_loki C \<longrightarrow> (\<exists>ss\<in>set (sh_loki w). l \<in> loki_lines ss)) \<and>
     (sc_uplink C \<longrightarrow> (\<exists>es\<in>set (sh_uplink w). l \<in> en_line ` set es))"

lemma add_value_lines: "loki_lines (add_value lvl v ss) = insert (snd v) (loki_lines ss)"
  by (induction lvl v ss rule: add_value.induct) (auto simp: loki_lines_def)

lemma run_loki_streams:
  "view (snd (run_state (loki_streams S es acc) w)) = view w"
  "loki_lines (fst (run_state (loki_streams S es acc) w)) = loki_lines acc \<union> en_line ` set es"
  by (induction es arbitrary: acc w) (auto simp: add_value_lines)

text \<open>A step of the flush: what was read stays, the sinks only get more.\<close>

definition sinks_grow :: "ship_world \<Rightarrow> ship_world \<Rightarrow> bool" where
  "sinks_grow w w' \<longleftrightarrow>
     sh_file w' = sh_file w \<and> sh_offset w' = sh_offset w \<and> sh_partial w' = sh_partial w \<and>
     set (sh_loki w) \<subseteq> set (sh_loki w') \<and> set (sh_uplink w) \<subseteq> set (sh_uplink w')"

lemma sinks_grow_trans: "sinks_grow u v \<Longrightarrow> sinks_grow v w \<Longrightarrow> sinks_grow u w"
  by (auto simp: sinks_grow_def)

lemma sinks_grow_view: "view v = view w \<Longrightarrow> sinks_grow w v"
  using viewD [of v "view w"] by (simp add: sinks_grow_def)

lemma sinks_grow_accepted: "sinks_grow w w' \<Longrightarrow> accepted C w l \<Longrightarrow> accepted C w' l"
  unfolding sinks_grow_def accepted_def by blast

lemma run_loki_Push:
  assumes "run_state (loki_Push S cancelled es) w = (ok, w')"
  shows "sinks_grow w w'" "sh_queue w' = sh_queue w"
    "ok \<Longrightarrow> \<exists>ss\<in>set (sh_loki w'). loki_lines ss = en_line ` set es"
    "\<not> cancelled \<Longrightarrow> \<forall>n. ss_loki S n = DbOk \<Longrightarrow> ok"
proof -
  let ?s = "run_state (loki_streams S es []) w"
  note v = viewD [OF run_loki_streams(1) [of S es "[]" w]]
  have l: "loki_lines (fst ?s) = en_line ` set es" by (simp add: run_loki_streams(2)) (simp add: loki_lines_def)
  show "sinks_grow w w'" "sh_queue w' = sh_queue w" "\<not> cancelled \<Longrightarrow> \<forall>n. ss_loki S n = DbOk \<Longrightarrow> ok"
    using assms v by (auto simp: loki_Push_def sinks_grow_def split: if_splits)
  show "ok \<Longrightarrow> \<exists>ss\<in>set (sh_loki w'). loki_lines ss = en_line ` set es"
    using assms l by (auto simp: loki_Push_def split: if_splits)
qed

lemma run_uplink_Push:
  assumes "run_state (uplink_Push S es) w = (ok, w')"
  shows "sinks_grow w w'" "sh_queue w' = sh_queue w" "ok \<Longrightarrow> es \<in> set (sh_uplink w')" "\<forall>n. ss_uplink S n = DbOk \<Longrightarrow> ok"
  using assms by (auto simp: uplink_Push_def sinks_grow_def split: if_splits)

lemma run_parse_all:
  "view (snd (run_state (parse_all S dev ls) w)) = view w"
  "map en_line (fst (run_state (parse_all S dev ls) w)) = filter (parses S) ls"
proof (induction ls arbitrary: w)
  case (Cons l ls)
  let ?p = "run_state (ParseLine S dev l) w"
  { case 1
    then show ?case using Cons run_ParseLine(1) by simp
  next
    case 2
    then show ?case
      using Cons run_ParseLine(2) [of S dev l w] run_ParseLine(3) [of S dev l w] by (cases "fst ?p") auto }
qed simp_all

lemma run_writeState: "sinks_grow w (snd (run_state (writeState S off) w))" "sh_queue (snd (run_state (writeState S off) w)) = sh_queue w"
  by (simp_all add: writeState_def sinks_grow_def)

text \<open>The sinks work.\<close>

definition sinks_work :: "ship_env \<Rightarrow> bool" where
  "sinks_work S \<longleftrightarrow> (\<forall>n. ss_loki S n = DbOk) \<and> (\<forall>n. ss_uplink S n = DbOk)"

lemma run_ship_batch:
  assumes "run_state (ship_batch S C final raw es) w = (u, w')"
  shows "sinks_grow w w'"
    "sh_queue w' = take (nat (sc_max C)) (raw @ sh_queue w) \<or> sh_queue w' = sh_queue w \<and> (\<forall>e\<in>set es. accepted C w' (en_line e))"
    "\<not> final \<Longrightarrow> sinks_work S \<Longrightarrow> sh_queue w' = sh_queue w"
proof -
  obtain lk v where l: "run_state (if sc_loki C then loki_Push S final es else State_Monad.return True) w = (lk, v)" by fastforce
  obtain uk x where x: "run_state (if sc_uplink C then uplink_Push S es else State_Monad.return True) v = (uk, x)" by fastforce
  have lp: "sinks_grow w v" "sh_queue v = sh_queue w"
    "lk \<Longrightarrow> sc_loki C \<Longrightarrow> \<exists>ss\<in>set (sh_loki v). loki_lines ss = en_line ` set es" "\<not> final \<Longrightarrow> sinks_work S \<Longrightarrow> lk"
    using l run_loki_Push [of S final es w lk v] by (auto simp: sinks_grow_def sinks_work_def split: if_splits)
  have up: "sinks_grow v x" "sh_queue x = sh_queue v" "uk \<Longrightarrow> sc_uplink C \<Longrightarrow> es \<in> set (sh_uplink x)" "sinks_work S \<Longrightarrow> uk"
    using x run_uplink_Push [of S es v uk x] by (auto simp: sinks_grow_def sinks_work_def split: if_splits)
  let ?y = "x\<lparr>sh_pushed := sh_pushed x + int (length es)\<rparr>"
  let ?z = "snd (run_state (writeState S (sh_offset x)) ?y)"
  have z: "sinks_grow ?y ?z" "sh_queue ?z = sh_queue x" by (simp_all add: run_writeState)
  have w': "w' = (if lk \<and> uk then ?z else snd (run_state (requeue C raw) x))"
    using assms by (auto simp: ship_batch_def l x)
  have g: "sinks_grow w x" by (rule sinks_grow_trans [OF lp(1) up(1)])
  have gz: "sinks_grow x ?z" using z(1) by (simp add: sinks_grow_def)
  have gr: "sinks_grow x (snd (run_state (requeue C raw) x))" by (simp add: requeue_def Let_def sinks_grow_def)
  show "sinks_grow w w'" unfolding w' using sinks_grow_trans [OF g gz] sinks_grow_trans [OF g gr] by simp
  have acc: "accepted C ?z (en_line e)" if "lk" "uk" "e \<in> set es" for e
  proof -
    have "sc_loki C \<Longrightarrow> \<exists>ss\<in>set (sh_loki x). en_line e \<in> loki_lines ss"
      using lp(3) [OF that(1)] up(1) that(3) by (auto simp: sinks_grow_def)
    moreover have "sc_uplink C \<Longrightarrow> \<exists>es\<in>set (sh_uplink x). en_line e \<in> en_line ` set es"
      using up(3) [OF that(2)] that(3) by auto
    ultimately have "accepted C x (en_line e)" by (simp add: accepted_def)
    then show ?thesis by (rule sinks_grow_accepted [OF gz])
  qed
  show "sh_queue w' = take (nat (sc_max C)) (raw @ sh_queue w) \<or> sh_queue w' = sh_queue w \<and> (\<forall>e\<in>set es. accepted C w' (en_line e))"
    unfolding w' using acc z(2) lp(2) up(2) by (auto simp: requeue_def Let_def)
  show "\<not> final \<Longrightarrow> sinks_work S \<Longrightarrow> sh_queue w' = sh_queue w"
    unfolding w' using lp(2,4) up(2,4) z(2) by simp
qed

lemma ball_image: "f ` A = B \<Longrightarrow> \<forall>a\<in>A. P (f a) \<Longrightarrow> \<forall>b\<in>B. P b"
  by blast

lemma run_ship_flush:
  assumes "run_state (ship_flush S C final) w = (u, w')"
    and "length (sh_queue w) \<le> nat (sc_max C)" "\<forall>l\<in>set (sh_queue w). parses S l"
  shows "sinks_grow w w' \<and>
    (sh_queue w' = sh_queue w \<or>
     sh_queue w' = drop (nat (sc_batch C)) (sh_queue w) \<and> (\<forall>l\<in>set (take (nat (sc_batch C)) (sh_queue w)). accepted C w' l)) \<and>
    (\<not> final \<longrightarrow> sinks_work S \<longrightarrow> sh_queue w' = drop (nat (sc_batch C)) (sh_queue w))"
proof -
  let ?raw = "take (nat (sc_batch C)) (sh_queue w)" and ?v = "w\<lparr>sh_queue := drop (nat (sc_batch C)) (sh_queue w)\<rparr>"
  let ?p = "run_state (parse_all S (sc_device C) ?raw) ?v"
  note v = viewD [OF run_parse_all(1) [of S "sc_device C" ?raw ?v]]
  have "\<forall>l\<in>set ?raw. parses S l" using assms(3) by (meson in_set_takeD)
  then have es: "map en_line (fst ?p) = ?raw" by (simp only: run_parse_all(2) filter_True)
  have gv: "sinks_grow w (snd ?p)" using v by (simp add: sinks_grow_def)
  show ?thesis
  proof (cases "?raw = []")
    case True
    then have "w' = ?v" using assms(1) by (simp add: ship_flush_def take_batch_def Let_def)
    then show ?thesis unfolding True by (simp add: sinks_grow_def)
  next
    case False
    then have ne: "fst ?p \<noteq> []" using es by (metis list.map_disc_iff)
    have b: "run_state (ship_batch S C final ?raw (fst ?p)) (snd ?p) = (u, w')"
      using assms(1) False ne by (simp add: ship_flush_def take_batch_def Let_def)
    note r = run_ship_batch [OF b]
    have q: "?raw @ sh_queue (snd ?p) = sh_queue w" using v(1) by simp
    have "en_line ` set (fst ?p) = set ?raw" using arg_cong [OF es, of set] by (simp only: set_map)
    then have e: "\<forall>l\<in>set ?raw. accepted C w' l" if "\<forall>e\<in>set (fst ?p). accepted C w' (en_line e)"
      using that by (rule ball_image)
    have "sh_queue w' = sh_queue w \<or> sh_queue w' = drop (nat (sc_batch C)) (sh_queue w) \<and> (\<forall>l\<in>set ?raw. accepted C w' l)"
      using r(2) e assms(2) v(1) unfolding q by auto
    then show ?thesis using sinks_grow_trans [OF gv r(1)] r(3) v(1) by simp
  qed
qed


subsection \<open>No line is lost while the shipper runs\<close>

definition read_since :: "nat \<Rightarrow> ship_world \<Rightarrow> string" where
  "read_since i w = drop i (take (nat (sh_offset w)) (sh_file w))"

text \<open>Every log line read since the byte \<open>i\<close> waits in the queue or was accepted by every sink.\<close>

definition ship_inv :: "ship_env \<Rightarrow> ship_config \<Rightarrow> nat \<Rightarrow> ship_world \<Rightarrow> bool" where
  "ship_inv S C i w \<longleftrightarrow>
     tailing C w \<and> i \<le> nat (sh_offset w) \<and> sh_partial w = snd (cut_lines (read_since i w)) \<and>
     (\<forall>l\<in>set (sh_queue w). parses S l) \<and> length (sh_queue w) \<le> length (fst (cut_lines (read_since i w))) \<and>
     (\<forall>l\<in>set (fst (cut_lines (read_since i w))). parses S l \<longrightarrow> l \<in> set (sh_queue w) \<or> accepted C w l)"

text \<open>The queue has room for what is in the file from \<open>i\<close> on, and its lines are short.\<close>

definition log_fits :: "ship_config \<Rightarrow> nat \<Rightarrow> string \<Rightarrow> bool" where
  "log_fits C i file \<longleftrightarrow> length (fst (cut_lines (drop i file))) \<le> nat (sc_max C) \<and> short_lines (drop i file)"

lemma log_fits_prefix:
  assumes "log_fits C i (a @ b)"
  shows "log_fits C i a"
proof -
  have d: "drop i (a @ b) = drop i a @ drop (i - length a) b" by simp
  have "sublist (drop i a) (drop i (a @ b))" unfolding d by (simp add: prefix_imp_sublist)
  moreover have "length (fst (cut_lines (drop i a))) \<le> length (fst (cut_lines (drop i (a @ b))))"
    unfolding d by (rule cut_length)
  ultimately show ?thesis using assms short_sublist unfolding log_fits_def by fastforce
qed

lemma read_unread:
  assumes "i \<le> nat (sh_offset w)" "nat (sh_offset w) \<le> length (sh_file w)"
  shows "read_since i w @ unread w = drop i (sh_file w)"
proof -
  have "drop i (take (nat (sh_offset w)) (sh_file w) @ unread w) = read_since i w @ unread w"
    using assms by (simp add: read_since_def)
  then show ?thesis by (simp add: unread_def)
qed

lemma inv_short:
  assumes "ship_inv S C i w" "log_fits C i (sh_file w)"
  shows "short_lines (sh_partial w @ unread w)"
proof -
  have r: "read_since i w @ unread w = drop i (sh_file w)"
    using assms(1) by (intro read_unread) (simp_all add: ship_inv_def tailing_def)
  obtain u where u: "read_since i w = u @ sh_partial w"
    using assms(1) cut_suffix_of [of "read_since i w"] unfolding ship_inv_def suffix_def by auto
  have "sublist (sh_partial w @ unread w) (drop i (sh_file w))"
    unfolding r [symmetric] u append_assoc by (metis sublist_appendI append_Nil2)
  with assms(2) show ?thesis unfolding log_fits_def by (blast intro: short_sublist)
qed

lemma inv_readNew:
  assumes "ship_inv S C i w" "log_fits C i (sh_file w)"
  defines "w' \<equiv> snd (run_state (readNew S C) w)"
  shows "ship_inv S C i w' \<and> sh_file w' = sh_file w \<and> ((\<forall>n. ss_read S n = None) \<longrightarrow> sh_offset w' = int (length (sh_file w)))"
proof -
  have t: "tailing C w" using assms(1) by (simp add: ship_inv_def)
  obtain got where got: "prefix got (unread w)" "view w' = after_bytes S C got (view w)"
    "(\<forall>n. ss_read S n = None) \<longrightarrow> got = unread w"
    using run_readNew [OF t inv_short [OF assms(1,2)], of S] unfolding w'_def by blast
  note f = viewD [OF got(2), unfolded after_bytes_def, simplified]
  obtain x where x: "unread w = got @ x" using got(1) by (auto simp: prefix_def)
  have b: "i \<le> nat (sh_offset w)" "0 \<le> sh_offset w" "nat (sh_offset w) \<le> length (sh_file w)"
    using assms(1) by (simp_all add: ship_inv_def tailing_def)
  have take: "take (nat (sh_offset w')) (sh_file w') = take (nat (sh_offset w)) (sh_file w) @ got"
  proof -
    have "sh_file w = take (nat (sh_offset w)) (sh_file w) @ got @ x" using x unfolding unread_def by (metis append_take_drop_id)
    moreover have "nat (sh_offset w') = length (take (nat (sh_offset w)) (sh_file w) @ got)" using f(2) b by (simp add: nat_add_distrib)
    ultimately show ?thesis unfolding f(4) by (metis append.assoc append_eq_conv_conj)
  qed
  have rs: "read_since i w' = read_since i w @ got" using b unfolding read_since_def take by simp
  have p: "sh_partial w = snd (cut_lines (read_since i w))" using assms(1) by (simp add: ship_inv_def)
  have cut: "fst (cut_lines (read_since i w')) = fst (cut_lines (read_since i w)) @ fst (cut_lines (sh_partial w @ got))"
    "snd (cut_lines (read_since i w')) = snd (cut_lines (sh_partial w @ got))"
    unfolding rs p by (subst cut_append, simp)+
  have "drop i (sh_file w) = read_since i w' @ x" using read_unread [OF b(1,3)] x rs by simp
  then have max: "length (fst (cut_lines (read_since i w'))) \<le> nat (sc_max C)"
    using assms(2) cut_length [of "read_since i w'" x] unfolding log_fits_def by simp
  have "length (sh_queue w) \<le> length (fst (cut_lines (read_since i w)))" using assms(1) by (simp add: ship_inv_def)
  then have room: "length (sh_queue w @ filter (parses S) (fst (cut_lines (sh_partial w @ got)))) \<le> length (fst (cut_lines (read_since i w')))"
    unfolding cut length_append by (intro add_mono length_filter_le)
  then have q: "sh_queue w' = sh_queue w @ filter (parses S) (fst (cut_lines (sh_partial w @ got)))"
    unfolding f(1) by (intro last_n_short le_trans [OF room max])
  have len: "length (sh_queue w') \<le> length (fst (cut_lines (read_since i w')))" "length (sh_queue w') \<le> nat (sc_max C)"
    using room max unfolding q by simp_all
  have acc: "accepted C w' l = accepted C w l" for l using f(6,7) by (simp add: accepted_def)
  have "tailing C (view w')" unfolding got(2) by (rule tailing_after) (use t got(1) in simp_all)
  then have "ship_inv S C i w'"
    using assms(1) b f(2,3) q len cut acc unfolding ship_inv_def by auto
  moreover have "sh_offset w' = int (length (sh_file w))" if "\<forall>n. ss_read S n = None"
    using f(2) got(3) that b by (simp add: unread_def)
  ultimately show ?thesis using f(4) by simp
qed


lemma inv_flush:
  assumes "ship_inv S C i w"
    and w'_def: "w' = snd (run_state (ship_flush S C final) w)"
  shows "ship_inv S C i w' \<and> sh_file w' = sh_file w \<and>
    (\<not> final \<longrightarrow> sinks_work S \<longrightarrow> sh_queue w' = drop (nat (sc_batch C)) (sh_queue w)) \<and> sh_offset w' = sh_offset w"
proof -
  let ?n = "nat (sc_batch C)"
  have q: "length (sh_queue w) \<le> nat (sc_max C)" "\<forall>l\<in>set (sh_queue w). parses S l"
    using assms(1) by (simp_all add: ship_inv_def tailing_def)
  have run: "run_state (ship_flush S C final) w = ((), w')" unfolding w'_def by (simp add: prod_eq_iff)
  note f = run_ship_flush [OF run q]
  have g: "sh_file w' = sh_file w" "sh_offset w' = sh_offset w" "sh_partial w' = sh_partial w"
    using f by (simp_all add: sinks_grow_def)
  have rs: "read_since i w' = read_since i w" by (simp add: read_since_def g)
  have sub: "length (sh_queue w') \<le> length (sh_queue w)" "\<forall>l\<in>set (sh_queue w'). l \<in> set (sh_queue w)"
    using f by (auto dest: in_set_dropD)
  have keep: "l \<in> set (sh_queue w') \<or> accepted C w' l" if "l \<in> set (sh_queue w) \<or> accepted C w l" for l
  proof (cases "accepted C w l")
    case True
    then show ?thesis using sinks_grow_accepted f by blast
  next
    case False
    then have "l \<in> set (take ?n (sh_queue w)) \<union> set (drop ?n (sh_queue w))" using that by (metis append_take_drop_id set_append)
    then show ?thesis using f that False by auto
  qed
  have "ship_inv S C i w'"
    using assms(1) sub q(2) keep unfolding ship_inv_def rs g tailing_def by auto
  then show ?thesis using f g by simp
qed

lemma inv_logged:
  assumes "ship_inv S C i w"
  shows "ship_inv S C i (w\<lparr>sh_file := sh_file w @ s\<rparr>)"
proof -
  have "read_since i (w\<lparr>sh_file := sh_file w @ s\<rparr>) = read_since i w"
    using assms by (simp add: read_since_def ship_inv_def tailing_def)
  then show ?thesis using assms by (simp add: ship_inv_def tailing_def accepted_def cut_no_newline)
qed

text \<open>What the agent logs along a run.\<close>

fun logged :: "ship_event list \<Rightarrow> string" where
  "logged [] = []"
| "logged (Logged s # es) = s @ logged es"
| "logged (e # es) = logged es"

lemma inv_step:
  assumes "ship_inv S C i w" "log_fits C i (sh_file w)" "e \<noteq> Started"
  shows "ship_inv S C i (snd (run_state (ship_step S C e) w)) \<and>
    sh_file (snd (run_state (ship_step S C e) w)) = sh_file w @ logged [e]"
proof -
  let ?r = "snd (run_state (readNew S C) w)"
  have r: "ship_inv S C i ?r" "sh_file ?r = sh_file w" using inv_readNew [OF assms(1,2)] by simp_all
  show ?thesis
    using assms inv_logged inv_flush [OF assms(1) refl] r inv_flush [OF r(1) refl] by (cases e) auto
qed

lemma inv_run:
  assumes "ship_inv S C i w" "log_fits C i (sh_file w @ logged es)" "Started \<notin> set es"
  shows "ship_inv S C i (snd (run_state (ship_run S C es) w)) \<and> sh_file (snd (run_state (ship_run S C es) w)) = sh_file w @ logged es"
  using assms
proof (induction es arbitrary: w)
  case (Cons e es)
  let ?v = "snd (run_state (ship_step S C e) w)"
  have l: "logged (e # es) = logged [e] @ logged es" by (cases e) simp_all
  have "log_fits C i (sh_file w)" using Cons.prems(2) by (rule log_fits_prefix)
  then have v: "ship_inv S C i ?v" "sh_file ?v = sh_file w @ logged [e]" using inv_step [OF Cons.prems(1), of e] Cons.prems(3) by auto
  then show ?case using Cons.IH [OF v(1)] Cons.prems l by simp
qed simp

lemma inv_start:
  assumes "0 \<le> sh_offset w" "nat (sh_offset w) \<le> length (sh_file w)" "sh_partial w = []" "sh_queue w = []"
  shows "ship_inv S C (nat (sh_offset w)) w"
  using assms by (simp add: ship_inv_def tailing_def read_since_def)


text \<open>
  C24. As long as no line is longer than the limit of one megabyte less one chunk of 256 kilobytes, reading in chunks
  does not depend on where the chunks end: when reads work, one poll takes every byte that was appended, appends
  to the queue, in order, exactly those of the lines it completes that parse, keeps the newest \<^verbatim>\<open>MaxPending\<close> of the
  queue, and holds the incomplete line that follows.
\<close>

theorem poll_in_chunks:
  assumes "tailing C w" and "short_lines (sh_partial w @ unread w)" and "\<forall>n. ss_read S n = None"
    and "run_state (readNew S C) w = (n, w')"
  shows "sh_offset w' = int (length (sh_file w)) \<and> sh_partial w' = snd (cut_lines (sh_partial w @ unread w)) \<and>
    sh_queue w' = last_n (nat (sc_max C)) (sh_queue w @ filter (parses S) (fst (cut_lines (sh_partial w @ unread w)))) \<and>
    n = length (fst (cut_lines (sh_partial w @ unread w)))"
proof -
  have v: "view w' = after_bytes S C (unread w) (view w)" and n: "n = length (fst (cut_lines (sh_partial w @ unread w)))"
    using run_readNew [OF assms(1,2), of S] assms(3,4) by auto
  have "0 \<le> sh_offset w" "nat (sh_offset w) \<le> length (sh_file w)" using assms(1) by (simp_all add: tailing_def)
  then show ?thesis using viewD(1-3) [OF v] n by (simp add: after_bytes_def unread_def)
qed

subsection \<open>Everything is shipped\<close>

lemma inv_same_json: "ss_json S' = ss_json S \<Longrightarrow> ship_inv S' C i w = ship_inv S C i w"
  by (simp add: ship_inv_def parses_def)

lemma flush_all:
  assumes "ship_inv S C i w" "sinks_work S" "0 < sc_batch C"
  shows "ship_inv S C i (snd (run_state (ship_run S C (replicate k FlushTick)) w)) \<and>
    sh_file (snd (run_state (ship_run S C (replicate k FlushTick)) w)) = sh_file w \<and>
    sh_offset (snd (run_state (ship_run S C (replicate k FlushTick)) w)) = sh_offset w \<and>
    length (sh_queue (snd (run_state (ship_run S C (replicate k FlushTick)) w))) \<le> length (sh_queue w) - k"
  using assms(1)
proof (induction k arbitrary: w)
  case (Suc k)
  let ?v = "snd (run_state (ship_flush S C False) w)"
  have v: "ship_inv S C i ?v" "sh_file ?v = sh_file w" "sh_offset ?v = sh_offset w"
    "sh_queue ?v = drop (nat (sc_batch C)) (sh_queue w)"
    using inv_flush [OF Suc.prems refl, of False] assms(2) by simp_all
  have "1 \<le> nat (sc_batch C)" using assms(3) by simp
  then have "length (drop (nat (sc_batch C)) (sh_queue w)) - k \<le> length (sh_queue w) - Suc k" by simp
  then show ?case using Suc.IH [OF v(1)] v by (auto simp: order_trans)
qed simp

lemma inv_poll:
  assumes "ship_inv S C i w" "log_fits C i (sh_file w)" "\<forall>n. ss_read S n = None"
  defines "w' \<equiv> snd (run_state (ship_step S C PollTick) w)"
  shows "ship_inv S C i w' \<and> sh_file w' = sh_file w \<and> sh_offset w' = int (length (sh_file w))"
proof -
  let ?r = "snd (run_state (readNew S C) w)"
  have r: "ship_inv S C i ?r" "sh_file ?r = sh_file w" "sh_offset ?r = int (length (sh_file w))"
    using inv_readNew [OF assms(1,2)] assms(3) by simp_all
  show ?thesis using r inv_flush [OF r(1) refl, of False] unfolding w'_def by simp
qed

text \<open>
  C29. Between a start and the next, as long as the lines logged since the start are at most \<^verbatim>\<open>MaxPending\<close> and none is
  longer than the limit of one megabyte less one chunk, no failure loses a line: whatever the sinks, the reads and
  the disk did while the agent logged and the shipper polled and flushed, once reads and sinks work, one poll and
  as many flushes as there are lines ship every complete line since the start that parses to every sink.
\<close>

theorem lines_shipped:
  assumes "0 \<le> sh_offset w" "nat (sh_offset w) \<le> length (sh_file w)" "sh_partial w = []" "sh_queue w = []"
    and "log_fits C (nat (sh_offset w)) (sh_file w @ logged es)" and "Started \<notin> set es" and "0 < sc_batch C"
    and "ss_json S' = ss_json S" "sinks_work S'" "\<forall>n. ss_read S' n = None"
    and "length (fst (cut_lines (drop (nat (sh_offset w)) (sh_file w @ logged es)))) \<le> k"
    and "run_state (do { ship_run S C es; ship_run S' C (PollTick # replicate k FlushTick) }) w = (u, w')"
    and "l \<in> set (fst (cut_lines (drop (nat (sh_offset w)) (sh_file w @ logged es))))" and "parses S l"
  shows "accepted C w' l"
proof -
  let ?i = "nat (sh_offset w)" and ?F = "sh_file w @ logged es"
  let ?v = "snd (run_state (ship_run S C es) w)"
  have v: "ship_inv S' C ?i ?v" "sh_file ?v = ?F"
    using inv_run [OF inv_start [OF assms(1-4)] assms(5,6)] inv_same_json [OF assms(8)] by simp_all
  let ?p = "snd (run_state (ship_step S' C PollTick) ?v)"
  have p: "ship_inv S' C ?i ?p" "sh_file ?p = ?F" "sh_offset ?p = int (length ?F)"
    using inv_poll [OF v(1) _ assms(10)] v(2) assms(5) by simp_all
  have w': "w' = snd (run_state (ship_run S' C (replicate k FlushTick)) ?p)"
    using assms(12) by (auto simp del: ship_step.simps)
  have f: "ship_inv S' C ?i w'" "sh_file w' = ?F" "sh_offset w' = int (length ?F)" "length (sh_queue w') \<le> length (sh_queue ?p) - k"
    using flush_all [OF p(1) assms(9,7), of k] p unfolding w' by simp_all
  have rs: "read_since ?i ?p = drop ?i ?F" "read_since ?i w' = drop ?i ?F" using p(2,3) f(2,3) by (simp_all add: read_since_def)
  have "length (sh_queue ?p) \<le> k" using p(1) assms(11) unfolding ship_inv_def rs by simp
  then have "sh_queue w' = []" using f(4) by simp
  moreover have "parses S' l" using assms(8,14) by (simp add: parses_def)
  ultimately show ?thesis using f(1) assms(13) unfolding ship_inv_def rs by auto
qed

subsection \<open>A restart\<close>

lemma good_batch:
  assumes "sinks_work S" "\<forall>n. ss_ok S n" "sc_uplink C"
    and w'_def: "w' = snd (run_state (ship_batch S C False raw es) w)"
  shows "sh_uplink w' = sh_uplink w @ [es] \<and> sh_saved w' = Some (FormatInt (sh_offset w)) \<and> sh_offset w' = sh_offset w \<and>
    sh_file w' = sh_file w"
proof -
  have l: "fst (run_state (loki_Push S False es) w)" "view (snd (run_state (loki_Push S False es) w)) =
      (view w)\<lparr>sh_loki := sh_loki w @ [fst (run_state (loki_streams S es []) w)]\<rparr>"
    using assms(1) viewD(6) [OF run_loki_streams(1) [of S es "[]" w]] run_loki_streams(1) [of S es "[]" w]
    by (simp_all add: loki_Push_def sinks_work_def)
  show ?thesis
    using assms(1-3) l(1) viewD [OF l(2)]
    by (simp add: w'_def ship_batch_def uplink_Push_def writeState_def sinks_work_def)
qed

lemma saved_offset:
  assumes "int64 n"
  shows "ParseInt64 (TrimSpace (FormatInt n)) = Some n"
proof -
  have "c \<notin> set space_heads" if "c \<in> set (FormatInt n)" for c
    using FormatInt_chars [OF that] by (auto simp: space_heads_def space_seqs_def is_digit_def)
  then have "TrimSpace (FormatInt n) = FormatInt n" by (intro TrimSpace_id) simp_all
  then show ?thesis by (simp add: ParseInt_FormatInt [OF assms])
qed

text \<open>
  C37. The offset that is saved after a flush is the one read, not the one delivered: a restart after a successful flush
  loses every queued line the flush did not reach, although both sinks, the reads and the disk worked.
\<close>

theorem restart_loses_lines:
  assumes "tailing C w" "\<forall>l\<in>set (sh_queue w). parses S l" "sh_queue w \<noteq> []" "0 < sc_batch C"
    and "sinks_work S" "\<forall>n. ss_ok S n" "sc_uplink C" "length (sh_file w) < 2 ^ 63"
    and "run_state (ship_run S C [FlushTick, Started]) w = (u, w')"
  shows "\<exists>es. sh_uplink w' = sh_uplink w @ [es] \<and> map en_line es = take (nat (sc_batch C)) (sh_queue w) \<and>
    sh_queue w' = [] \<and> sh_partial w' = [] \<and> sh_offset w' = sh_offset w"
proof -
  let ?raw = "take (nat (sc_batch C)) (sh_queue w)" and ?v = "w\<lparr>sh_queue := drop (nat (sc_batch C)) (sh_queue w)\<rparr>"
  let ?p = "run_state (parse_all S (sc_device C) ?raw) ?v"
  note v = viewD [OF run_parse_all(1) [of S "sc_device C" ?raw ?v]]
  have "\<forall>l\<in>set ?raw. parses S l" using assms(2) by (meson in_set_takeD)
  then have es: "map en_line (fst ?p) = ?raw" by (simp only: run_parse_all(2) filter_True)
  have raw: "?raw \<noteq> []" using assms(3,4) by simp
  then have ne: "fst ?p \<noteq> []" using es by (metis list.map_disc_iff)
  let ?b = "snd (run_state (ship_batch S C False ?raw (fst ?p)) (snd ?p))"
  have b: "sh_uplink ?b = sh_uplink w @ [fst ?p]" "sh_saved ?b = Some (FormatInt (sh_offset w))" "sh_file ?b = sh_file w"
    using good_batch [OF assms(5-7) refl, of ?raw "fst ?p" "snd ?p"] v by simp_all
  have w': "w' = snd (run_state (ship_New C) ?b)"
    using assms(9) raw ne by (auto simp: ship_flush_def take_batch_def Let_def)
  have o: "0 \<le> sh_offset w" "sh_offset w \<le> int (length (sh_file w))"
    using assms(1) by (simp_all add: tailing_def nat_le_iff)
  then have "int64 (sh_offset w)" using assms(8) by (simp add: int64_def)
  from saved_offset [OF this] show ?thesis
    using b o es by (intro exI [of _ "fst ?p"]) (simp add: w' ship_New_def Let_def)
qed

subsection \<open>The handler and the final flush\<close>

text \<open>A record the handler writes is one line of the file, for any encoding without raw newlines, as JSON's is.\<close>

lemma handled_line:
  assumes "enc t level msg (line_attrs h as) = Some b" "CHR 0x0A \<notin> set b" "b \<noteq> []"
    and "run_state (jsonl_Handle S enc h t level msg as) w = (True, w')"
  shows "sh_file w' = sh_file w @ b @ [CHR 0x0A] \<and> cut_lines (b @ [CHR 0x0A]) = ([b], [])"
  using assms cut_cons [OF assms(2), of "[]"] by (auto simp: jsonl_Handle_def split: if_splits)

text \<open>Attributes of a derived logger lose its group: two of them collide with one of no group.\<close>

lemma group_lost:
  "line_attrs (WithAttrs (WithGroup h ''g'') [(''k'', v)]) [] = line_attrs (WithAttrs h [(''k'', v)]) []"
  by (simp add: line_attrs_def WithAttrs_def WithGroup_def)

text \<open>The flush at the end runs under the cancelled context: nothing reaches Loki, and nothing counts as shipped.\<close>

lemma final_flush_ships_nothing:
  assumes "sc_loki C"
  shows "sh_loki (snd (run_state (ship_flush S C True) w)) = sh_loki w \<and>
    sh_saved (snd (run_state (ship_flush S C True) w)) = sh_saved w"
proof -
  have l: "\<not> fst (run_state (loki_Push S True es) v)" "sh_loki (snd (run_state (loki_Push S True es) v)) = sh_loki v"
    "sh_saved (snd (run_state (loki_Push S True es) v)) = sh_saved v" for es v
    using viewD [OF run_loki_streams(1) [of S es "[]" v]] by (simp_all add: loki_Push_def)
  have u: "sh_loki (snd (run_state (uplink_Push S es) v)) = sh_loki v" "sh_saved (snd (run_state (uplink_Push S es) v)) = sh_saved v"
    for es v by (simp_all add: uplink_Push_def)
  have p: "sh_loki (snd (run_state (parse_all S d ls) v)) = sh_loki v" "sh_saved (snd (run_state (parse_all S d ls) v)) = sh_saved v"
    for d ls v using viewD [OF run_parse_all(1) [of S d ls v]] by simp_all
  show ?thesis by (simp add: ship_flush_def take_batch_def Let_def ship_batch_def assms l u p requeue_def)
qed

subsection \<open>Witnesses\<close>

definition demo_ship :: ship_env where
  "demo_ship =
     \<lparr>ss_json = (\<lambda>l. Some \<lparr>jl_ts = [], jl_level = [], jl_msg = l, jl_attrs = []\<rparr>), ss_time = (\<lambda>_. None), ss_clock = (\<lambda>_. 0),
      ss_read = (\<lambda>_. None), ss_loki = (\<lambda>_. DbOk), ss_uplink = (\<lambda>_. DbOk), ss_ok = (\<lambda>_. True),
      ss_part = (\<lambda>_. 0)\<rparr>"

definition demo_shipper :: ship_config where
  "demo_shipper = \<lparr>sc_device = ''d'', sc_loki = False, sc_uplink = True, sc_batch = 1, sc_max = 10, sc_at_end = True\<rparr>"

definition demo_log :: "string \<Rightarrow> string list \<Rightarrow> int \<Rightarrow> ship_world" where
  "demo_log f q i =
     \<lparr>tick = 0, sh_file = f, sh_saved = None, sh_offset = i, sh_partial = [], sh_queue = q, sh_pushed = 0, sh_failed = 0,
      sh_skipped = 0, sh_loki = [], sh_uplink = []\<rparr>"

lemma short_small: "length s \<le> 100 \<Longrightarrow> short_lines s"
  unfolding short_lines_def by (auto dest!: sublist_length_le simp: read_chunk_def max_line_def)

lemma demo_cut: "cut_lines [CHR ''a'', CHR 0x0A, CHR ''b'', CHR 0x0A, CHR ''c''] = ([''a'', ''b''], ''c'')"
  by code_simp

lemma poll_in_chunks_witness:
  "sh_queue (snd (run_state (readNew demo_ship demo_shipper) (demo_log [CHR ''a'', CHR 0x0A, CHR ''b'', CHR 0x0A, CHR ''c''] [] 0))) =
     [''a'', ''b'']"
proof -
  let ?f = "[CHR ''a'', CHR 0x0A, CHR ''b'', CHR 0x0A, CHR ''c'']"
  have "tailing demo_shipper (demo_log ?f [] 0)" "short_lines (sh_partial (demo_log ?f [] 0) @ unread (demo_log ?f [] 0))"
    "\<forall>n. ss_read demo_ship n = None"
    by (simp_all add: tailing_def demo_log_def demo_shipper_def demo_ship_def unread_def short_small)
  from poll_in_chunks [OF this prod.collapse [symmetric]] show ?thesis
    by (simp add: demo_log_def unread_def demo_cut demo_ship_def parses_def demo_shipper_def)
qed

lemma lines_shipped_witness:
  "accepted demo_shipper (snd (run_state
     (do { ship_run demo_ship demo_shipper [Logged [CHR ''a'', CHR 0x0A]];
           ship_run demo_ship demo_shipper (PollTick # replicate 1 FlushTick) }) (demo_log [] [] 0))) ''a''"
proof -
  have cut: "cut_lines [CHR ''a'', CHR 0x0A] = ([''a''], [])" by code_simp
  let ?w = "demo_log [] [] 0" and ?es = "[Logged [CHR ''a'', CHR 0x0A]]"
  let ?F = "drop (nat (sh_offset ?w)) (sh_file ?w @ logged ?es)"
  have F: "?F = [CHR ''a'', CHR 0x0A]" "sh_file ?w @ logged ?es = [CHR ''a'', CHR 0x0A]" "nat (sh_offset ?w) = 0"
    by (simp_all add: demo_log_def)
  have w: "0 \<le> sh_offset ?w" "nat (sh_offset ?w) \<le> length (sh_file ?w)" "sh_partial ?w = []" "sh_queue ?w = []"
    by (simp_all add: demo_log_def)
  have f: "log_fits demo_shipper (nat (sh_offset ?w)) (sh_file ?w @ logged ?es)"
    unfolding F by (simp add: log_fits_def cut short_small demo_shipper_def)
  have o: "Started \<notin> set ?es" "0 < sc_batch demo_shipper" "sinks_work demo_ship" "\<forall>n. ss_read demo_ship n = None"
    "length (fst (cut_lines ?F)) \<le> 1" "''a'' \<in> set (fst (cut_lines ?F))" "parses demo_ship ''a''"
    unfolding F by (simp_all add: cut demo_shipper_def demo_ship_def sinks_work_def parses_def)
  show ?thesis by (rule lines_shipped [OF w f o(1,2) refl o(3-5) prod.collapse [symmetric] o(6,7)])
qed

lemma restart_loses_lines_witness:
  "\<exists>es. sh_uplink (snd (run_state (ship_run demo_ship demo_shipper [FlushTick, Started]) (demo_log ''abcd'' [''a'', ''b''] 4))) = [es] \<and>
     map en_line es = [''a'']"
proof -
  have w: "tailing demo_shipper (demo_log ''abcd'' [''a'', ''b''] 4)" "\<forall>l\<in>set (sh_queue (demo_log ''abcd'' [''a'', ''b''] 4)). parses demo_ship l"
    "sh_queue (demo_log ''abcd'' [''a'', ''b''] 4) \<noteq> []" "0 < sc_batch demo_shipper" "sinks_work demo_ship" "\<forall>n. ss_ok demo_ship n"
    "sc_uplink demo_shipper" "length (sh_file (demo_log ''abcd'' [''a'', ''b''] 4)) < 2 ^ 63"
    by (simp_all add: tailing_def demo_log_def demo_shipper_def demo_ship_def parses_def sinks_work_def)
  have c: "sh_uplink (demo_log f q i) = []" "sh_queue (demo_log f q i) = q" "nat (sc_batch demo_shipper) = 1" for f q i
    by (simp_all add: demo_log_def demo_shipper_def)
  from restart_loses_lines [OF w prod.collapse [symmetric]] show ?thesis
    unfolding c append_Nil by (elim exE conjE) (rule exI, simp only: take_Suc_Cons take0 One_nat_def simp_thms)
qed

end
