(* ===== verification/Spec2Isabelle.thy ===== *)
theory Spec2Isabelle
  imports Flow_Properties Heal_Properties Webhook_Properties Users_Properties Plane_Properties Alert_Properties
    Update_Properties Ship_Properties
begin

text \<open>
  A model of the RMM system: its server (Go, \<^verbatim>\<open>server/internal\<close>) and its agent (Go, \<^verbatim>\<open>agent/internal\<close>),
  and the properties that make them correct.

  \<^bold>\<open>The program.\<close> Agents enrol with a bootstrap token, keep one gRPC stream to the server, send heartbeats,
  metrics, logs and command results up and get commands down. The server stores everything in Postgres,
  runs automation flows and a self-healing engine on the measurements, sends events to webhook
  endpoints, and offers an HTTP API to operators with sessions, roles and grants per client. A command
  carries a capability token that the server mints with the org root and the agent checks against the
  root it pinned at enrolment.

  \<^bold>\<open>How it is modelled.\<close> A handler is a computation of the library's state monad over a world: a record with
  the database tables and the memory of the process. It meets its environment at numbered
  interactions (theory Effects): a statement may succeed, be refused, or take effect while its answer
  is lost; before it, other sessions may change the world; the clock reads any time. The environment is
  a parameter, so a theorem holds for every schedule of faults and, where it says so, for every
  interference that keeps a relation. Errors are values of a sum. A table is a list of records in order
  of insertion; a statement with a constraint checks it. A Go map is an association list with one entry
  per key. Times are nanoseconds as integers; where the 64-bit width matters (backoffs, products with
  durations, differences of instants) the computation is on words or wraps explicitly. A \<^verbatim>\<open>float64\<close> is a
  rational, an infinity or NaN; the engines only compare measurements, and the arithmetic of the baselines
  rounds each result to the nearest binary64 number.

  \<^bold>\<open>The theories.\<close>
  \<^item> Prelude, Effects, Sql, Strconv, Radix, Sha256, Http, Fleet: Go's strings and numbers, the monad with
    its guarantees (locale \<open>history\<close>), tables, decimal and base64 texts, SHA-256 and HMAC, answers of handlers,
    the tables the engines share.
  \<^item> Flow_Graph, Flow_Validate, Flow_Store, Flow_Engine, Flow_Api: \<^verbatim>\<open>internal/flow/{graph,store,engine}.go\<close> and
    \<^verbatim>\<open>httpapi/domain_flows.go\<close>; Flow_Safety and Flow_Properties: at most one active run per flow and device, a
    complete audit, runs that end stay as they are, a repeated delivery has the effect of one, exact
    outcomes of the nodes, and what validation accepts. The depth-first search has fuel, the number of
    nodes, which is shown to be enough.
  \<^item> Heal_Playbook, Heal_Store, Heal_Engine, Heal_Api: \<^verbatim>\<open>internal/heal\<close> and \<^verbatim>\<open>httpapi/domain_heal.go\<close>; Heal_Safety and
    Heal_Properties: one active run, stages only advance, a dispatch only behind every guard.
  \<^item> Webhook_Sign, Webhook_Store, Webhook_Service, Webhook_Api: \<^verbatim>\<open>internal/webhook\<close>, \<^verbatim>\<open>httpapi/domain_webhooks.go\<close> and
    \<^verbatim>\<open>domain_events.go\<close>; Webhook_Safety and Webhook_Properties: deliveries have no gaps, all pending
    events are delivered, signatures verify, bounds of the freshness window and the backoff. A journal insert
    draws its number before its row becomes visible; an event that becomes visible after a larger number
    is the one that can be passed undelivered.
  \<^item> Users_Store, Rbac, Totp, Smtp, Setup, Login, Users_Api: \<^verbatim>\<open>store/users.go\<close>, \<^verbatim>\<open>internal/users\<close>, \<^verbatim>\<open>internal/setup\<close>,
    \<^verbatim>\<open>smtp/outbox.go\<close> (its configuration), \<^verbatim>\<open>httpapi/{domain_users,setup,httpapi}.go\<close>; Simulation, Users_Equiv,
    Users_Safety and Users_Properties: the in-memory store answers as the Postgres store does (for a
    database that answers and ASCII account names, where Go's and the database's folding of case agree), tables
    are well formed, a session is backed by an account, a login refines its contract, lockout holds.
  \<^item> Caps, Plane, Telemetry, Dispatcher, Ingest, Relay, Device_Api: \<^verbatim>\<open>internal/caps\<close>, \<^verbatim>\<open>store/{pg,logs,metrics}.go\<close>,
    \<^verbatim>\<open>internal/ingest\<close>, \<^verbatim>\<open>internal/sessionrelay\<close>, \<^verbatim>\<open>httpapi/domain_{session,commands,devices,inventory,enroll}.go\<close>;
    Agent_Files, Agent: \<^verbatim>\<open>agent/internal/{caps,files,exec,uplink}\<close> and the driver of \<^verbatim>\<open>session/session.go\<close>; Plane_Safety, Agent_Safety and
    Plane_Properties: the registry of streams (locale \<open>link_relation\<close>), the tokens of dispatched commands,
    enrolment, file pulls, replayed metrics, the gate of the agent (which screen captures do not pass) and its
    reconnections.
  \<^item> Float_Arith, Baseline, Alerts, Alert_Api: \<^verbatim>\<open>internal/baseline\<close>, \<^verbatim>\<open>store/{baseline,alerts}.go\<close> and
    \<^verbatim>\<open>httpapi/domain_alerts.go\<close>, with rounded binary64 arithmetic; Alert_Safety and Alert_Properties: scoring
    equals a specification that counts instead of sorting, one alert per series is not resolved (locale \<open>inbox_relation\<close>), reconciling
    refines a function on the abstract inbox and the streaks, silent series keep their alerts, and the grants of the routes.
  \<^item> Paths, Self_Update: Go's file paths, and \<^verbatim>\<open>agent/internal/update\<close> with its entry points in
    \<^verbatim>\<open>agent/cmd/agent/main.go\<close>; Update_Properties: the executable is only ever replaced by signed bytes, unless
    the manifest names a file that climbs out of the temporary directory; good releases are installed,
    staged ones at the next start, numeric versions only rise, in the order of their text.
  \<^item> Log_Ship: \<^verbatim>\<open>agent/internal/logship\<close>; Ship_Properties: reading does not depend on chunks and no line is lost while the
    shipper runs, as long as lines stay below the limit less one chunk and the queue does not overflow; everything is shipped once the sinks work, and what a restart loses. Polls have as fuel one round more
    than the file has bytes, which is shown to be enough.
  \<^bold>\<open>Parameters.\<close> Third-party code is a parameter with its documented behaviour as a hypothesis where one is needed:
  the JWT libraries, the random source, the average inside the database, the certificate authority's signing, password hashing of
  the wizard, the receiver of a webhook, the receiver of a notification, JSON decoding (a body is what
  the decoder gave), the full-text search, running a process, the system calls of the file transfer and of the
  self-update, and the signature library of the latter.

  \<^bold>\<open>Not modelled.\<close> Tickets, clients, maintenance windows, notifications, settings and reports (stores and routes
  of the same shape as the modelled ones); the agent's enrolment, certificate rotation and
  journals. Generated protobuf code; the entry points and their wiring; the NATS bus, SMTP and TLS
  transports; PDF and Parquet rendering; the search engine's client; certificate generation (X.509 encoding);
  the collectors of the agent, the capturing of frames and injecting of input of its screen sessions, and its patch managers (system calls and the parsing of other
  programs' output); the release
  signer and the load test. These are I/O, generated, or call code that is not in the repository.
\<close>

end
